(* ===== verification/NfcPrelude.thy ===== *)
theory NfcPrelude
  imports Main "HOL-Library.Word" "HOL-Library.Monad_Syntax"
begin

unbundle bit_operations_syntax

text \<open>
  Shared base of the development: the machine integers of the C++ code, byte buffers with
  bounds-checked access, the big-endian and little-endian stream macros of
  \<^verbatim>\<open>include/nfc_types.h\<close>, and the generic lemmas on lists, options and words that the
  component theories rely on.

  A buffer is the list of the bytes of one allocation and a pointer into it is its offset.
  Every load and store is checked: the value \<open>None\<close> of an operation means that the code
  accessed memory outside the allocation (undefined behaviour in C++). Statuses and null
  pointers that the code returns on purpose are ordinary values inside \<open>Some\<close>.
\<close>

type_synonym u8 = "8 word"
type_synonym u16 = "16 word"
type_synonym u32 = "32 word"
type_synonym mem = "u8 list"

named_theorems mem_simps \<open>results of in-range buffer accesses\<close>

section \<open>Bounds-checked loads and stores\<close>

definition rd8 :: "mem \<Rightarrow> nat \<Rightarrow> u8 option" where
  "rd8 m p = (if p < length m then Some (m ! p) else None)"

definition wr8 :: "mem \<Rightarrow> nat \<Rightarrow> u8 \<Rightarrow> mem option" where
  "wr8 m p b = (if p < length m then Some (m[p := b]) else None)"

text \<open>\<open>rd_bytes\<close> and \<open>wr_bytes\<close> are the accesses of \<^verbatim>\<open>memcmp\<close> and \<^verbatim>\<open>memcpy\<close>; a length of
  zero accesses nothing.\<close>

definition rd_bytes :: "mem \<Rightarrow> nat \<Rightarrow> nat \<Rightarrow> u8 list option" where
  "rd_bytes m p n = (if n = 0 then Some [] else
     if p + n \<le> length m then Some (take n (drop p m)) else None)"

definition wr_bytes :: "mem \<Rightarrow> nat \<Rightarrow> u8 list \<Rightarrow> mem option" where
  "wr_bytes m p bs = (if bs = [] then Some m else
     if p + length bs \<le> length m then Some (take p m @ bs @ drop (p + length bs) m) else None)"

section \<open>Early returns\<close>

text \<open>A routine that reads memory and may return early with an error status has a result of type
  \<open>('e + 'a) option\<close>: \<open>None\<close> an access outside the buffer, \<open>Some (Inl e)\<close> the early return,
  \<open>Some (Inr a)\<close> the value the routine goes on with. \<open>rbind\<close> sequences two such pieces.\<close>

definition rbind :: "('e + 'a) option \<Rightarrow> ('a \<Rightarrow> ('e + 'b) option) \<Rightarrow> ('e + 'b) option" where
  "rbind x f = (case x of None \<Rightarrow> None | Some (Inl e) \<Rightarrow> Some (Inl e) | Some (Inr a) \<Rightarrow> f a)"

definition rget :: "'a option \<Rightarrow> ('e + 'a) option" where
  "rget x = map_option Inr x"

lemma rbind_simps [simp]:
  "rbind None f = None" "rbind (Some (Inl e)) f = Some (Inl e)" "rbind (Some (Inr a)) f = f a"
  by (simp_all add: rbind_def)

lemma rget_simps [simp]: "rget (Some a) = Some (Inr a)" "rget None = None"
  by (simp_all add: rget_def)

lemma rget_Inr [simp]: "rget x = Some (Inr a) \<longleftrightarrow> x = Some a"
  by (auto simp: rget_def)

lemma rget_None [simp]: "rget x = None \<longleftrightarrow> x = None"
  by (simp add: rget_def)

lemma rbind_Inr: "rbind x f = Some (Inr b) \<longleftrightarrow> (\<exists>a. x = Some (Inr a) \<and> f a = Some (Inr b))"
  by (auto simp: rbind_def split: option.splits sum.splits)

lemma rbind_None: "rbind x f = None \<longleftrightarrow> x = None \<or> (\<exists>a. x = Some (Inr a) \<and> f a = None)"
  by (auto simp: rbind_def split: option.splits sum.splits)

lemma rbind_Inl: "rbind x f = Some (Inl e) \<longleftrightarrow>
    x = Some (Inl e) \<or> (\<exists>a. x = Some (Inr a) \<and> f a = Some (Inl e))"
  by (auto simp: rbind_def split: option.splits sum.splits)

lemma rget_not_Inl [simp]: "rget x \<noteq> Some (Inl e)"
  by (simp add: rget_def)

lemma rbind_ex:
  "\<exists>y. x = Some y \<Longrightarrow> (\<And>a. x = Some (Inr a) \<Longrightarrow> \<exists>y. f a = Some y) \<Longrightarrow> \<exists>y. rbind x f = Some y"
  by (auto simp: rbind_def split: option.splits sum.splits)

section \<open>The stream macros\<close>

text \<open>The byte split of \<^verbatim>\<open>UINT32_TO_BE_STREAM\<close> and the sum of \<^verbatim>\<open>BE_STREAM_TO_UINT32\<close>.\<close>

definition be32_bytes :: "u32 \<Rightarrow> u8 list" where
  "be32_bytes w = [ucast (drop_bit 24 w), ucast (drop_bit 16 w), ucast (drop_bit 8 w), ucast w]"

definition be32_val :: "u8 \<Rightarrow> u8 \<Rightarrow> u8 \<Rightarrow> u8 \<Rightarrow> u32" where
  "be32_val a b c d = ucast d + push_bit 8 (ucast c) + push_bit 16 (ucast b) + push_bit 24 (ucast a)"

definition be16_bytes :: "u16 \<Rightarrow> u8 list" where
  "be16_bytes w = [ucast (drop_bit 8 w), ucast w]"

definition be16_val :: "u8 \<Rightarrow> u8 \<Rightarrow> u16" where
  "be16_val a b = push_bit 8 (ucast a) + ucast b"

definition le16_bytes :: "u16 \<Rightarrow> u8 list" where
  "le16_bytes w = [ucast w, ucast (drop_bit 8 w)]"

definition le16_val :: "u8 \<Rightarrow> u8 \<Rightarrow> u16" where
  "le16_val a b = ucast a + push_bit 8 (ucast b)"

definition rd_be32 :: "mem \<Rightarrow> nat \<Rightarrow> u32 option" where
  "rd_be32 m p = do {
     a \<leftarrow> rd8 m p; b \<leftarrow> rd8 m (p + 1); c \<leftarrow> rd8 m (p + 2); d \<leftarrow> rd8 m (p + 3);
     Some (be32_val a b c d) }"

definition wr_be32 :: "mem \<Rightarrow> nat \<Rightarrow> u32 \<Rightarrow> mem option" where
  "wr_be32 m p w = wr_bytes m p (be32_bytes w)"

section \<open>Words and bytes\<close>

lemma push_ucast: "push_bit n (ucast (b::u8) :: 'a::len word) = of_nat (unat b * 2 ^ n)"
  by (simp add: push_bit_eq_mult)

lemma be32_val_nat: "be32_val a b c d =
   of_nat (unat d + unat c * 2 ^ 8 + unat b * 2 ^ 16 + unat a * 2 ^ 24)"
  unfolding be32_val_def push_ucast by simp

lemma unat_byte: "unat (b::u8) < 256" using unsigned_less[of b, where 'a = nat] by simp

lemma unat_be32_val: "unat (be32_val a b c d) =
    unat d + unat c * 2 ^ 8 + unat b * 2 ^ 16 + unat a * 2 ^ 24"
proof -
  have "unat d + unat c * 2 ^ 8 + unat b * 2 ^ 16 + unat a * 2 ^ 24 < 2 ^ 32"
    using unat_byte[of a] unat_byte[of b] unat_byte[of c] unat_byte[of d] by simp
  then show ?thesis unfolding be32_val_nat by (simp only: unat_of_nat) simp
qed

lemma unat_ucast_drop: "unat (ucast (drop_bit k (w::'a::len word)) :: u8) = unat w div 2 ^ k mod 256"
  by (simp only: unsigned_ucast_eq unat_drop_bit_eq) (simp add: drop_bit_eq_div take_bit_eq_mod)

lemma be32_val_bytes:
  "be32_val (ucast (drop_bit 24 w)) (ucast (drop_bit 16 w)) (ucast (drop_bit 8 w)) (ucast w) = w"
proof -
  have 0: "unat (ucast w :: u8) = unat w mod 256" using unat_ucast_drop[of 0 w] by simp
  have lt: "unat w < 2 ^ 32" using unsigned_less[of w, where 'a = nat] by simp
  have "x mod 256 + x div 256 mod 256 * 256 + x div 65536 mod 256 * 65536
    + x div 16777216 mod 256 * 16777216 = x" if "x < 2 ^ 32" for x :: nat
  proof -
    have d: "x div 65536 = x div 256 div 256" "x div 16777216 = x div 256 div 256 div 256"
      by (simp_all add: div_mult2_eq[symmetric])
    have "x div 256 div 256 div 256 < 256" using that by (simp add: div_mult2_eq[symmetric] less_mult_imp_div_less)
    then have "x div 256 div 256 div 256 mod 256 = x div 256 div 256 div 256" by (rule mod_less)
    then show ?thesis
      using div_mult_mod_eq[of x 256] div_mult_mod_eq[of "x div 256" 256]
        div_mult_mod_eq[of "x div 256 div 256" 256] unfolding d by linarith
  qed
  then show ?thesis
    using lt by (intro word_unat_eq_iff[THEN iffD2]) (simp add: unat_be32_val unat_ucast_drop 0)
qed

lemma unat_byte_le [simp]: "unat (b::u8) \<le> 255"
  using unat_byte [of b] by simp

lemma unat_of_nat_u8: "n < 256 \<Longrightarrow> unat (of_nat n :: u8) = n"
  by (simp add: unat_of_nat)

lemma unat_of_nat_u32: "n < 2 ^ 32 \<Longrightarrow> unat (of_nat n :: u32) = n"
  by (simp only: unat_of_nat) simp

lemma unat_ucast_u8_u32 [simp]: "unat (ucast (b::u8) :: u32) = unat b"
proof -
  have "unat b < 2 ^ 32" using unat_byte [of b] by simp
  then show ?thesis by (simp add: unsigned_ucast_eq take_bit_nat_eq_self)
qed

lemma length_be32_bytes [simp]: "length (be32_bytes w) = 4"
  by (simp add: be32_bytes_def)

section \<open>Buffer contents at an offset\<close>

text \<open>\<open>bytes_at m p bs\<close>: the bytes \<open>bs\<close> stand in the buffer \<open>m\<close> from offset \<open>p\<close> on.\<close>

fun bytes_at :: "mem \<Rightarrow> nat \<Rightarrow> u8 list \<Rightarrow> bool" where
  "bytes_at m p [] = True"
| "bytes_at m p (b # bs) = (rd8 m p = Some b \<and> bytes_at m (Suc p) bs)"

lemma rd8_Some: "rd8 m p = Some b \<longleftrightarrow> p < length m \<and> m ! p = b"
  by (auto simp: rd8_def)

lemma wr8_Some: "wr8 m p b = Some m' \<longleftrightarrow> p < length m \<and> m' = m[p := b]"
  by (auto simp: wr8_def)

lemma rd8_in: "p < length m \<Longrightarrow> rd8 m p = Some (m ! p)"
  by (simp add: rd8_def)

lemma rd8_out: "length m \<le> p \<Longrightarrow> rd8 m p = None"
  by (simp add: rd8_def)

lemma wr8_in: "p < length m \<Longrightarrow> wr8 m p b = Some (m[p := b])"
  by (simp add: wr8_def)

lemma bytes_at_append: "bytes_at m p (xs @ ys) \<longleftrightarrow> bytes_at m p xs \<and> bytes_at m (p + length xs) ys"
  by (induction xs arbitrary: p) auto

lemma bytes_at_length: "bytes_at m p bs \<Longrightarrow> bs \<noteq> [] \<Longrightarrow> p + length bs \<le> length m"
proof (induction bs arbitrary: p)
  case (Cons b bs)
  show ?case
  proof (cases "bs = []")
    case True
    then show ?thesis using Cons.prems by (simp add: rd8_Some)
  next
    case False
    then show ?thesis using Cons.IH [of "Suc p"] Cons.prems by simp
  qed
qed simp

lemma bytes_at_nth: "bytes_at m p bs \<longleftrightarrow> (\<forall>i < length bs. rd8 m (p + i) = Some (bs ! i))"
proof (induction bs arbitrary: p)
  case (Cons b bs)
  have "(\<forall>i < Suc (length bs). rd8 m (p + i) = Some ((b # bs) ! i)) \<longleftrightarrow>
      rd8 m p = Some b \<and> (\<forall>i < length bs. rd8 m (Suc p + i) = Some (bs ! i))"
    unfolding All_less_Suc2 by simp
  then show ?case using Cons [of "Suc p"] by simp
qed simp

lemma bytes_at_iff_take:
  "bytes_at m p bs \<longleftrightarrow> bs = [] \<or> take (length bs) (drop p m) = bs"
proof (induction bs arbitrary: p)
  case (Cons b bs)
  show ?case
  proof (cases "p < length m")
    case True
    then have d: "drop p m = m ! p # drop (Suc p) m" by (simp add: Cons_nth_drop_Suc)
    show ?thesis using True Cons [of "Suc p"] by (cases "bs = []") (auto simp: d rd8_in)
  next
    case False
    then show ?thesis by (simp add: rd8_out)
  qed
qed simp

lemma bytes_at_prefix: "bytes_at (pre @ bs @ post) (length pre) bs"
  by (simp add: bytes_at_iff_take)

lemma rd_bytes_Some: "rd_bytes m p n = Some bs \<longleftrightarrow> length bs = n \<and> bytes_at m p bs"
proof (cases "n = 0")
  case False
  then show ?thesis
    by (auto simp: rd_bytes_def bytes_at_iff_take)
qed (auto simp: rd_bytes_def)

lemma rd_bytes_in: "p + n \<le> length m \<Longrightarrow> rd_bytes m p n = Some (take n (drop p m))"
  by (simp add: rd_bytes_def)

lemma rd_be32_at: "bytes_at m p [a, b, c, d] \<Longrightarrow> rd_be32 m p = Some (be32_val a b c d)"
  by (simp add: rd_be32_def numeral_eq_Suc)

lemma bytes_at_be32: "bytes_at m p (be32_bytes w) \<Longrightarrow> rd_be32 m p = Some w"
  unfolding be32_bytes_def by (drule rd_be32_at) (simp add: be32_val_bytes)

lemma be32_bytes_val: "be32_bytes (be32_val a b c d) = [a, b, c, d]"
proof -
  let ?v = "unat d + unat c * 2 ^ 8 + unat b * 2 ^ 16 + unat a * 2 ^ 24"
  have lt: "unat a < 256" "unat b < 256" "unat c < 256" "unat d < 256"
    by (rule unat_byte)+
  have v0: "?v mod 256 = unat d"
    using lt by (simp add: mod_mult_right_eq flip: mod_add_eq)
  have v1: "?v div 2 ^ 8 = unat c + unat b * 2 ^ 8 + unat a * 2 ^ 16" using lt by simp
  have v2: "?v div 2 ^ 16 = unat b + unat a * 2 ^ 8" using lt by simp
  have v3: "?v div 2 ^ 24 = unat a" using lt by simp
  have "unat (ucast (drop_bit 8 (be32_val a b c d)) :: u8) = unat c"
    unfolding unat_ucast_drop unat_be32_val v1
    using lt by (simp add: mod_mult_right_eq flip: mod_add_eq)
  moreover have "unat (ucast (drop_bit 16 (be32_val a b c d)) :: u8) = unat b"
    unfolding unat_ucast_drop unat_be32_val v2
    using lt by (simp add: mod_mult_right_eq flip: mod_add_eq)
  moreover have "unat (ucast (drop_bit 24 (be32_val a b c d)) :: u8) = unat a"
    unfolding unat_ucast_drop unat_be32_val v3 using lt by simp
  moreover have "unat (ucast (be32_val a b c d) :: u8) = unat d"
    using unat_ucast_drop [of 0 "be32_val a b c d"] v0 by (simp add: unat_be32_val)
  ultimately show ?thesis by (simp add: be32_bytes_def word_unat_eq_iff)
qed

lemma rd_be32_Some: "rd_be32 m p = Some w \<longleftrightarrow> bytes_at m p (be32_bytes w)"
proof
  assume "rd_be32 m p = Some w"
  then show "bytes_at m p (be32_bytes w)"
    by (auto simp: rd_be32_def bind_eq_Some_conv be32_bytes_val numeral_eq_Suc)
qed (rule bytes_at_be32)

section \<open>Stores and what they leave alone\<close>

lemma bytes_at_iff_nth:
  "bytes_at m p bs \<longleftrightarrow> (\<forall>i < length bs. p + i < length m \<and> m ! (p + i) = bs ! i)"
  by (simp add: bytes_at_nth rd8_Some)

lemma wr8_ex: "p < length m \<Longrightarrow> \<exists>m'. wr8 m p b = Some m'"
  by (simp add: wr8_in)

lemma wr8_length: "wr8 m p b = Some m' \<Longrightarrow> length m' = length m"
  by (auto simp: wr8_Some)

lemma wr8_at: "wr8 m p b = Some m' \<Longrightarrow> bytes_at m' p [b]"
  by (auto simp: wr8_Some rd8_Some)

lemma wr8_frame:
  "wr8 m p b = Some m' \<Longrightarrow> bytes_at m q bs \<Longrightarrow> p < q \<or> q + length bs \<le> p \<Longrightarrow> bytes_at m' q bs"
  by (auto simp: wr8_Some bytes_at_iff_nth nth_list_update)

lemma wr_bytes_ex: "p + length bs \<le> length m \<Longrightarrow> \<exists>m'. wr_bytes m p bs = Some m'"
  by (simp add: wr_bytes_def)

lemma wr_bytes_length: "wr_bytes m p bs = Some m' \<Longrightarrow> length m' = length m"
  by (auto simp: wr_bytes_def split: if_splits)

lemma wr_bytes_at: "wr_bytes m p bs = Some m' \<Longrightarrow> bytes_at m' p bs"
  by (auto simp: wr_bytes_def bytes_at_iff_nth nth_append split: if_splits)

lemma wr_bytes_nth: "wr_bytes m p bs = Some m' \<Longrightarrow> i < p \<or> p + length bs \<le> i \<Longrightarrow> i < length m \<Longrightarrow> m' ! i = m ! i"
  by (auto simp: wr_bytes_def nth_append min_def split: if_splits)

lemma wr_bytes_frame:
  assumes "wr_bytes m p bs = Some m'" "bytes_at m q cs" "p + length bs \<le> q \<or> q + length cs \<le> p"
  shows "bytes_at m' q cs"
  using assms(2,3) wr_bytes_nth [OF assms(1)] wr_bytes_length [OF assms(1)]
  by (fastforce simp: bytes_at_iff_nth)

lemma wr_bytes_Nil [simp]: "wr_bytes m p [] = Some m"
  by (simp add: wr_bytes_def)

lemma wr_snoc:
  assumes "bytes_at m 0 X" "p = length X" "length X + length bs \<le> length m"
  shows "\<exists>m'. wr_bytes m p bs = Some m' \<and> length m' = length m \<and> bytes_at m' 0 (X @ bs)"
proof -
  obtain m' where m': "wr_bytes m p bs = Some m'" using wr_bytes_ex assms(2,3) by blast
  then show ?thesis
    using wr_bytes_length [OF m'] wr_bytes_at [OF m'] wr_bytes_frame [OF m' assms(1)] assms(2)
    by (auto simp: bytes_at_append)
qed

lemma wr8_is_wr_bytes: "p < length m \<Longrightarrow> wr8 m p b = wr_bytes m p [b]"
  by (simp add: wr8_def wr_bytes_def upd_conv_take_nth_drop)

lemma wr8_snoc:
  assumes "bytes_at m 0 X" "p = length X" "length X < length m"
  shows "\<exists>m'. wr8 m p b = Some m' \<and> length m' = length m \<and> bytes_at m' 0 (X @ [b])"
  using wr_snoc [OF assms(1,2), of "[b]"] assms(2,3) by (simp add: wr8_is_wr_bytes)

lemma ucast_of_nat_u32_u8: "(ucast (of_nat n :: u32) :: u8) = of_nat n"
proof -
  have "unat (ucast (of_nat n :: u32) :: u8) = n mod 2 ^ 32 mod 256"
    using unat_ucast_drop [of 0 "of_nat n :: u32"] by (simp add: unat_of_nat)
  also have "\<dots> = n mod 256" by (simp add: mod_mod_cancel)
  finally show ?thesis by (simp add: word_unat_eq_iff unat_of_nat)
qed

section \<open>The contract of a byte format\<close>

text \<open>An encoder and a reader agree: the reader recovers every well-formed value from its
  encoding and moves behind it, and whatever the reader accepts is an encoding.\<close>

locale byte_codec =
  fixes enc :: "'a \<Rightarrow> u8 list"
    and dec :: "mem \<Rightarrow> nat \<Rightarrow> ('a \<times> nat) option"
    and wf :: "'a \<Rightarrow> bool"
  assumes dec_enc: "wf a \<Longrightarrow> bytes_at m p (enc a) \<Longrightarrow> dec m p = Some (a, p + length (enc a))"
    and enc_dec: "dec m p = Some (a, q) \<Longrightarrow> wf a \<and> bytes_at m p (enc a) \<and> q = p + length (enc a)"
    and enc_not_Nil: "wf a \<Longrightarrow> enc a \<noteq> []"
begin

lemma enc_prefix_free:
  assumes "wf a" "wf b" "enc a @ xs = enc b @ ys"
  shows "a = b \<and> xs = ys"
proof -
  have "bytes_at (enc a @ xs) 0 (enc a)" using bytes_at_prefix [of "[]"] by simp
  then have 1: "dec (enc a @ xs) 0 = Some (a, length (enc a))" using dec_enc [OF assms(1)] by simp
  have "bytes_at (enc b @ ys) 0 (enc b)" using bytes_at_prefix [of "[]"] by simp
  then have "dec (enc b @ ys) 0 = Some (b, length (enc b))" using dec_enc [OF assms(2)] by simp
  with 1 have "a = b" using assms(3) by simp
  then show ?thesis using assms(3) by simp
qed

lemma enc_list_unique:
  "list_all wf as \<Longrightarrow> list_all wf bs \<Longrightarrow>
     concat (map enc as) = concat (map enc bs) \<Longrightarrow> as = bs"
proof (induction as arbitrary: bs)
  case Nil
  then show ?case by (cases bs) (auto simp: enc_not_Nil)
next
  case (Cons a as)
  then obtain b bs' where bs: "bs = b # bs'" by (cases bs) (auto simp: enc_not_Nil)
  have "a = b \<and> concat (map enc as) = concat (map enc bs')"
    using Cons.prems by (intro enc_prefix_free) (simp_all add: bs)
  with Cons bs show ?case by simp
qed

end

section \<open>Big-endian 16-bit values\<close>

lemma length_be16 [simp]: "length (be16_bytes w) = 2"
  by (simp add: be16_bytes_def)

lemma unat_be16_val: "unat (be16_val a b) = unat a * 256 + unat b"
proof -
  have "unat a * 256 + unat b < 2 ^ 16" using unat_byte [of a] unat_byte [of b] by simp
  moreover have "unat (ucast x :: u16) = unat x" for x :: u8 by (simp add: unsigned_ucast_eq take_bit_nat_eq_self_iff order.strict_trans1 [OF unat_byte_le])
  ultimately show ?thesis by (simp add: be16_val_def push_ucast unat_word_ariths unat_of_nat)
qed

lemma be16_roundtrip: "be16_val (ucast (drop_bit 8 w)) (ucast w) = (w :: u16)"
proof -
  have "unat (ucast (drop_bit 8 w) :: u8) = unat w div 256 mod 256" "unat (ucast w :: u8) = unat w mod 256"
    using unat_ucast_drop [of 8 w] unat_ucast_drop [of 0 w] by simp_all
  moreover have "unat w < 65536" using unsigned_less [of w, where 'a = nat] by simp
  ultimately have "unat (be16_val (ucast (drop_bit 8 w)) (ucast w)) = unat w" by (simp add: unat_be16_val)
  then show ?thesis by (simp add: word_unat_eq_iff)
qed

lemma be16_val_bytes: "be16_bytes (be16_val a b) = [a, b]"
proof -
  have u: "unat (be16_val a b) = unat a * 256 + unat b" by (rule unat_be16_val)
  have "unat (ucast (drop_bit 8 (be16_val a b)) :: u8) = unat a" "unat (ucast (be16_val a b) :: u8) = unat b"
    using unat_ucast_drop [of 8 "be16_val a b"] unat_ucast_drop [of 0 "be16_val a b"] u unat_byte [of a] unat_byte [of b] by simp_all
  then show ?thesis by (simp add: be16_bytes_def word_unat_eq_iff)
qed

lemma be16_inj: "be16_bytes v = be16_bytes w \<longleftrightarrow> v = w"
proof
  assume "be16_bytes v = be16_bytes w"
  then have "be16_val (be16_bytes v ! 0) (be16_bytes v ! 1) = be16_val (be16_bytes w ! 0) (be16_bytes w ! 1)" by (simp only:)
  then show "v = w" by (simp add: be16_bytes_def be16_roundtrip)
qed simp

end
