(* ===== verification/NdefModel.thy ===== *)
theory NdefModel
  imports NfcPrelude
begin

unbundle bit_operations_syntax

text \<open>
  The operations of \<^verbatim>\<open>libnfc-nci/src/nfc/ndef/ndef_utils.cc\<close>, in the order of the file:
  validation, traversal, field access, construction and in-place editing of NDEF messages.
  A message lives in a byte buffer; \<^verbatim>\<open>uint8_t*\<close> pointers into it are offsets, a pointer
  that may be null is an \<open>option\<close>. Lengths keep their C++ width (\<^verbatim>\<open>uint8_t\<close> and
  \<^verbatim>\<open>uint32_t\<close> are \<open>u8\<close> and \<open>u32\<close>), so the sums wrap as they do in the code. The result
  \<open>None\<close> is an access outside the buffer.
\<close>

section \<open>Constants and status codes\<close>

abbreviation (input) "NDEF_MB_MASK \<equiv> (0x80 :: u8)"
abbreviation (input) "NDEF_ME_MASK \<equiv> (0x40 :: u8)"
abbreviation (input) "NDEF_CF_MASK \<equiv> (0x20 :: u8)"
abbreviation (input) "NDEF_SR_MASK \<equiv> (0x10 :: u8)"
abbreviation (input) "NDEF_IL_MASK \<equiv> (0x08 :: u8)"
abbreviation (input) "NDEF_TNF_MASK \<equiv> (0x07 :: u8)"
abbreviation (input) "NDEF_RTD_VALID_START \<equiv> (0x20 :: u8)"
abbreviation (input) "NDEF_RTD_VALID_END \<equiv> (0x7E :: u8)"
abbreviation (input) "NDEF_TNF_EMPTY \<equiv> (0 :: u8)"
abbreviation (input) "NDEF_TNF_WKT \<equiv> (1 :: u8)"
abbreviation (input) "NDEF_TNF_EXT \<equiv> (4 :: u8)"
abbreviation (input) "NDEF_TNF_UNKNOWN \<equiv> (5 :: u8)"
abbreviation (input) "NDEF_TNF_UNCHANGED \<equiv> (6 :: u8)"
abbreviation (input) "NDEF_TNF_RESERVED \<equiv> (7 :: u8)"

datatype ndef_status =
    NDEF_OK | NDEF_REC_NOT_FOUND | NDEF_MSG_TOO_SHORT | NDEF_MSG_NO_MSG_BEGIN
  | NDEF_MSG_NO_MSG_END | NDEF_MSG_EXTRA_MSG_BEGIN | NDEF_MSG_UNEXPECTED_CHUNK
  | NDEF_MSG_INVALID_EMPTY_REC | NDEF_MSG_INVALID_CHUNK | NDEF_MSG_LENGTH_MISMATCH
  | NDEF_MSG_INSUFFICIENT_MEM | NDEF_MSG_INVALID_TYPE

section \<open>Moving memory\<close>

fun shiftdown :: "mem \<Rightarrow> nat \<Rightarrow> nat \<Rightarrow> nat \<Rightarrow> mem option" where
  "shiftdown m p_mem 0 shift_amount = Some m"
| "shiftdown m p_mem (Suc len) shift_amount = do {
     b \<leftarrow> rd8 m (p_mem + len);
     m' \<leftarrow> wr8 m (p_mem + len + shift_amount) b;
     shiftdown m' p_mem len shift_amount }"

fun shiftup :: "mem \<Rightarrow> nat \<Rightarrow> nat \<Rightarrow> nat \<Rightarrow> mem option" where
  "shiftup m p_dest p_src 0 = Some m"
| "shiftup m p_dest p_src (Suc len) = do {
     b \<leftarrow> rd8 m p_src;
     m' \<leftarrow> wr8 m p_dest b;
     shiftup m' (Suc p_dest) (Suc p_src) len }"

section \<open>Validation\<close>

text \<open>The payload length: one byte in a short record, four otherwise.\<close>

definition ndef_validate_paylen ::
  "mem \<Rightarrow> nat \<Rightarrow> u8 \<Rightarrow> nat \<Rightarrow> (ndef_status + u32 \<times> nat) option" where
  "ndef_validate_paylen m p_end rec_hdr p_rec =
     (if rec_hdr AND NDEF_SR_MASK \<noteq> 0
      then do { b \<leftarrow> rd8 m p_rec; Some (Inr (ucast b, p_rec + 1)) }
      else if p_rec + 4 > p_end then Some (Inl NDEF_MSG_TOO_SHORT)
      else do { w \<leftarrow> rd_be32 m p_rec; Some (Inr (w, p_rec + 4)) })"

definition ndef_validate_idlen ::
  "mem \<Rightarrow> nat \<Rightarrow> u8 \<Rightarrow> nat \<Rightarrow> (ndef_status + u8 \<times> nat) option" where
  "ndef_validate_idlen m p_end rec_hdr p_rec =
     (if rec_hdr AND NDEF_IL_MASK \<noteq> 0
      then if p_rec + 1 > p_end then Some (Inl NDEF_MSG_TOO_SHORT)
           else do { b \<leftarrow> rd8 m p_rec; Some (Inr (b, p_rec + 1)) }
      else if rec_hdr AND NDEF_TNF_MASK = NDEF_TNF_EMPTY
      then Some (Inl NDEF_MSG_INVALID_EMPTY_REC)
      else Some (Inr (0, p_rec)))"

text \<open>The chunk rules; the result is the new value of \<^verbatim>\<open>bInChunk\<close>.\<close>

definition ndef_validate_chunk ::
  "bool \<Rightarrow> u8 \<Rightarrow> bool \<Rightarrow> u8 \<Rightarrow> u8 \<Rightarrow> ndef_status + bool" where
  "ndef_validate_chunk b_allow_chunks rec_hdr bInChunk type_len id_len =
     (if rec_hdr AND NDEF_CF_MASK \<noteq> 0
      then if \<not> b_allow_chunks then Inl NDEF_MSG_UNEXPECTED_CHUNK
           else if bInChunk
           then if type_len \<noteq> 0 \<or> id_len \<noteq> 0 \<or> rec_hdr AND NDEF_TNF_MASK \<noteq> NDEF_TNF_UNCHANGED
                then Inl NDEF_MSG_INVALID_CHUNK else Inr True
           else if rec_hdr AND NDEF_TNF_MASK = NDEF_TNF_UNCHANGED
           then Inl NDEF_MSG_INVALID_CHUNK else Inr True
      else if bInChunk
      then if type_len \<noteq> 0 \<or> id_len \<noteq> 0 \<or> rec_hdr AND NDEF_TNF_MASK \<noteq> NDEF_TNF_UNCHANGED
           then Inl NDEF_MSG_INVALID_CHUNK else Inr False
      else if rec_hdr AND NDEF_TNF_MASK = NDEF_TNF_UNCHANGED
      then Inl NDEF_MSG_INVALID_CHUNK else Inr False)"

definition ndef_validate_tnf :: "u8 \<Rightarrow> u8 \<Rightarrow> u8 \<Rightarrow> u32 \<Rightarrow> ndef_status + unit" where
  "ndef_validate_tnf rec_hdr type_len id_len payload_len =
     (if rec_hdr AND NDEF_TNF_MASK = NDEF_TNF_EMPTY \<and>
         (type_len \<noteq> 0 \<or> id_len \<noteq> 0 \<or> payload_len \<noteq> 0) then Inl NDEF_MSG_INVALID_EMPTY_REC
      else if rec_hdr AND NDEF_TNF_MASK = NDEF_TNF_UNKNOWN \<and> type_len \<noteq> 0
      then Inl NDEF_MSG_LENGTH_MISMATCH
      else if rec_hdr AND NDEF_TNF_MASK = NDEF_TNF_EXT \<and> type_len = 0
      then Inl NDEF_MSG_LENGTH_MISMATCH
      else Inr ())"

fun ndef_type_chars :: "mem \<Rightarrow> nat \<Rightarrow> nat \<Rightarrow> (ndef_status + unit) option" where
  "ndef_type_chars m p 0 = Some (Inr ())"
| "ndef_type_chars m p (Suc n) = do {
     b \<leftarrow> rd8 m p;
     if b < NDEF_RTD_VALID_START \<or> b > NDEF_RTD_VALID_END then Some (Inl NDEF_MSG_INVALID_TYPE)
     else ndef_type_chars m (Suc p) n }"

definition ndef_validate_type ::
  "mem \<Rightarrow> nat \<Rightarrow> u8 \<Rightarrow> u8 \<Rightarrow> nat \<Rightarrow> (ndef_status + unit) option" where
  "ndef_validate_type m p_end rec_hdr type_len p_rec =
     (if rec_hdr AND NDEF_TNF_MASK = NDEF_TNF_EXT \<or> rec_hdr AND NDEF_TNF_MASK = NDEF_TNF_WKT
      then if p_rec + unat type_len > p_end then Some (Inl NDEF_MSG_TOO_SHORT)
           else ndef_type_chars m p_rec (unat type_len)
      else Some (Inr ()))"

text \<open>The 32-bit sum \<^verbatim>\<open>payload_len + type_len + id_len\<close>.\<close>

definition ndef_body_len :: "u32 \<Rightarrow> u8 \<Rightarrow> u8 \<Rightarrow> u32" where
  "ndef_body_len payload_len type_len id_len = payload_len + ucast type_len + ucast id_len"

definition ndef_validate_bounds ::
  "nat \<Rightarrow> u32 \<Rightarrow> u32 \<Rightarrow> u8 \<Rightarrow> u8 \<Rightarrow> nat \<Rightarrow> ndef_status + nat" where
  "ndef_validate_bounds p_end msg_len payload_len type_len id_len p_rec =
     (let body = ndef_body_len payload_len type_len id_len; p_new = p_rec + unat body
      in if body < payload_len \<or> body > msg_len then Inl NDEF_MSG_LENGTH_MISMATCH
         else if p_rec > p_new \<or> p_end < p_new then Inl NDEF_MSG_LENGTH_MISMATCH
         else Inr p_new)"

text \<open>One iteration of the record loop: an error status, or the record header, the new
  \<^verbatim>\<open>bInChunk\<close> and the offset of the next record.\<close>

definition ndef_validate_rec ::
  "mem \<Rightarrow> nat \<Rightarrow> u32 \<Rightarrow> bool \<Rightarrow> nat \<Rightarrow> bool \<Rightarrow> nat \<Rightarrow> (ndef_status + u8 \<times> bool \<times> nat) option" where
  "ndef_validate_rec m p_end msg_len b_allow_chunks count bInChunk p_rec =
     (if p_rec + 3 > p_end then Some (Inl NDEF_MSG_TOO_SHORT) else
      rbind (rget (rd8 m p_rec)) (\<lambda>rec_hdr.
      if rec_hdr AND NDEF_TNF_MASK = NDEF_TNF_MASK then Some (Inl NDEF_MSG_INVALID_CHUNK)
      else if count > 0 \<and> rec_hdr AND NDEF_MB_MASK \<noteq> 0 then Some (Inl NDEF_MSG_EXTRA_MSG_BEGIN)
      else
      rbind (rget (rd8 m (p_rec + 1))) (\<lambda>type_len.
      if rec_hdr AND NDEF_CF_MASK \<noteq> 0 \<and> rec_hdr AND NDEF_MB_MASK \<noteq> 0 \<and> type_len = 0 \<and>
         rec_hdr AND NDEF_TNF_MASK \<noteq> NDEF_TNF_UNKNOWN then Some (Inl NDEF_MSG_INVALID_CHUNK)
      else
      rbind (ndef_validate_paylen m p_end rec_hdr (p_rec + 2)) (\<lambda>(payload_len, p_rec).
      rbind (ndef_validate_idlen m p_end rec_hdr p_rec) (\<lambda>(id_len, p_rec).
      rbind (Some (ndef_validate_chunk b_allow_chunks rec_hdr bInChunk type_len id_len))
        (\<lambda>bInChunk.
      rbind (Some (ndef_validate_tnf rec_hdr type_len id_len payload_len)) (\<lambda>_.
      rbind (ndef_validate_type m p_end rec_hdr type_len p_rec) (\<lambda>_.
      rbind (Some (ndef_validate_bounds p_end msg_len payload_len type_len id_len p_rec))
        (\<lambda>p_rec. Some (Inr (rec_hdr, bInChunk, p_rec)))))))))))"

lemma ndef_validate_paylen_advances:
  "ndef_validate_paylen m p_end h p = Some (Inr (w, p')) \<Longrightarrow> p < p'"
  by (auto simp: ndef_validate_paylen_def bind_eq_Some_conv split: if_splits)

lemma ndef_validate_idlen_advances:
  "ndef_validate_idlen m p_end h p = Some (Inr (b, p')) \<Longrightarrow> p \<le> p'"
  by (auto simp: ndef_validate_idlen_def bind_eq_Some_conv split: if_splits)

lemma ndef_validate_bounds_advances:
  "ndef_validate_bounds p_end l w t i p = Inr p' \<Longrightarrow> p \<le> p' \<and> p' \<le> p_end"
  by (auto simp: ndef_validate_bounds_def Let_def split: if_splits)

text \<open>The record step, taken apart: what a successful iteration read and decided.\<close>

lemma ndef_validate_rec_InrE:
  assumes "ndef_validate_rec m p_end msg_len b count ch p = Some (Inr (h, ch', p'))"
  obtains t pl il p1 p2 where "p + 3 \<le> p_end" "rd8 m p = Some h" "rd8 m (p + 1) = Some t"
    "h AND NDEF_TNF_MASK \<noteq> NDEF_TNF_MASK" "\<not> (count > 0 \<and> h AND NDEF_MB_MASK \<noteq> 0)"
    "\<not> (h AND NDEF_CF_MASK \<noteq> 0 \<and> h AND NDEF_MB_MASK \<noteq> 0 \<and> t = 0 \<and>
        h AND NDEF_TNF_MASK \<noteq> NDEF_TNF_UNKNOWN)"
    "ndef_validate_paylen m p_end h (p + 2) = Some (Inr (pl, p1))"
    "ndef_validate_idlen m p_end h p1 = Some (Inr (il, p2))"
    "ndef_validate_chunk b h ch t il = Inr ch'"
    "ndef_validate_tnf h t il pl = Inr ()"
    "ndef_validate_type m p_end h t p2 = Some (Inr ())"
    "ndef_validate_bounds p_end msg_len pl t il p2 = Inr p'"
  using assms unfolding ndef_validate_rec_def
  by (auto simp: rbind_Inr split: if_split_asm)

lemma ndef_validate_rec_advances:
  assumes "ndef_validate_rec m p_end msg_len b count ch p = Some (Inr (h, ch', p'))"
  shows "p < p'"
  using assms
  by (rule ndef_validate_rec_InrE)
    (auto dest!: ndef_validate_paylen_advances ndef_validate_idlen_advances
      ndef_validate_bounds_advances)

text \<open>The record loop: an error status, or the header of the last record seen (0 if the loop
  ran off the end without an ME bit) with the final offset.\<close>

function ndef_validate_loop ::
  "mem \<Rightarrow> nat \<Rightarrow> u32 \<Rightarrow> bool \<Rightarrow> nat \<Rightarrow> bool \<Rightarrow> nat \<Rightarrow> (ndef_status + u8 \<times> nat) option" where
  "ndef_validate_loop m p_end msg_len b_allow_chunks count bInChunk p_rec =
     (if p_rec < p_end
      then case ndef_validate_rec m p_end msg_len b_allow_chunks count bInChunk p_rec of
          None \<Rightarrow> None
        | Some (Inl e) \<Rightarrow> Some (Inl e)
        | Some (Inr (rec_hdr, bInChunk', p_rec')) \<Rightarrow>
            if rec_hdr AND NDEF_ME_MASK \<noteq> 0 then Some (Inr (rec_hdr, p_rec'))
            else ndef_validate_loop m p_end msg_len b_allow_chunks (count + 1) bInChunk' p_rec'
      else Some (Inr (0, p_rec)))"
  by pat_completeness auto
termination
  by (relation "measure (\<lambda>(m, p_end, l, b, c, ch, p). p_end - p)")
    (auto dest: ndef_validate_rec_advances)

declare ndef_validate_loop.simps [simp del]

definition NDEF_MsgValidate :: "mem option \<Rightarrow> u32 \<Rightarrow> bool \<Rightarrow> ndef_status option" where
  "NDEF_MsgValidate p_msg msg_len b_allow_chunks =
     (case p_msg of None \<Rightarrow> Some NDEF_MSG_TOO_SHORT
      | Some m \<Rightarrow>
        if msg_len < 3 then Some NDEF_MSG_TOO_SHORT else do {
        b \<leftarrow> rd8 m 0;
        if b AND NDEF_MB_MASK = 0 then Some NDEF_MSG_NO_MSG_BEGIN
        else if b AND NDEF_TNF_MASK = NDEF_TNF_UNCHANGED then Some NDEF_MSG_UNEXPECTED_CHUNK
        else do {
        r \<leftarrow> ndef_validate_loop m (unat msg_len) msg_len b_allow_chunks 0 False 0;
        case r of Inl e \<Rightarrow> Some e
        | Inr (rec_hdr, p_rec) \<Rightarrow>
            if rec_hdr AND NDEF_ME_MASK = 0 then Some NDEF_MSG_NO_MSG_END
            else if p_rec \<noteq> unat msg_len then Some NDEF_MSG_LENGTH_MISMATCH
            else Some NDEF_OK } })"

section \<open>Traversal\<close>

text \<open>The length fields that follow the record header: type length, payload length, ID length
  and the offset of the type field. Each traversal routine reads them with the same code.\<close>

definition ndef_lens :: "mem \<Rightarrow> u8 \<Rightarrow> nat \<Rightarrow> (u8 \<times> u32 \<times> u8 \<times> nat) option" where
  "ndef_lens m rec_hdr p_rec = do {
     type_len \<leftarrow> rd8 m p_rec;
     (payload_len, p_rec) \<leftarrow>
       (if rec_hdr AND NDEF_SR_MASK \<noteq> 0
        then do { b \<leftarrow> rd8 m (p_rec + 1); Some (ucast b, p_rec + 2) }
        else do { w \<leftarrow> rd_be32 m (p_rec + 1); Some (w, p_rec + 5) });
     (id_len, p_rec) \<leftarrow>
       (if rec_hdr AND NDEF_IL_MASK \<noteq> 0
        then do { b \<leftarrow> rd8 m p_rec; Some (b, p_rec + 1) }
        else Some (0, p_rec));
     Some (type_len, payload_len, id_len, p_rec) }"

lemma ndef_lens_advances:
  "ndef_lens m h p = Some (t, pl, il, p') \<Longrightarrow> p < length m \<and> p < p'"
  by (auto simp: ndef_lens_def bind_eq_Some_conv rd8_Some split: if_splits prod.splits)

function ndef_num_recs_loop :: "mem \<Rightarrow> nat \<Rightarrow> nat \<Rightarrow> nat option" where
  "ndef_num_recs_loop m count p_rec = do {
     rec_hdr \<leftarrow> rd8 m p_rec;
     if rec_hdr AND NDEF_ME_MASK \<noteq> 0 then Some (count + 1)
     else do {
       (type_len, payload_len, id_len, p) \<leftarrow> ndef_lens m rec_hdr (p_rec + 1);
       ndef_num_recs_loop m (count + 1) (p + unat (ndef_body_len payload_len type_len id_len)) } }"
  by pat_completeness auto
termination
  by (relation "measure (\<lambda>(m, c, p). length m - p)") (auto dest!: ndef_lens_advances)

declare ndef_num_recs_loop.simps [simp del]

definition NDEF_MsgGetNumRecs :: "mem \<Rightarrow> nat option" where
  "NDEF_MsgGetNumRecs m = ndef_num_recs_loop m 0 0"

definition NDEF_MsgGetRecLength :: "mem \<Rightarrow> nat \<Rightarrow> u32 option" where
  "NDEF_MsgGetRecLength m p_cur_rec = do {
     rec_hdr \<leftarrow> rd8 m p_cur_rec;
     (type_len, payload_len, id_len, p) \<leftarrow> ndef_lens m rec_hdr (p_cur_rec + 1);
     let rec_len = (1 :: u32) + 1;
     let rec_len = (if rec_hdr AND NDEF_SR_MASK \<noteq> 0 then rec_len + 1 else rec_len + 4);
     let rec_len = (if rec_hdr AND NDEF_IL_MASK \<noteq> 0 then rec_len + 1 else rec_len);
     Some (rec_len + ndef_body_len payload_len type_len id_len) }"

definition NDEF_MsgGetNextRec :: "mem \<Rightarrow> nat \<Rightarrow> nat option option" where
  "NDEF_MsgGetNextRec m p_cur_rec = do {
     rec_hdr \<leftarrow> rd8 m p_cur_rec;
     if rec_hdr AND NDEF_ME_MASK \<noteq> 0 then Some None
     else do {
       (type_len, payload_len, id_len, p) \<leftarrow> ndef_lens m rec_hdr (p_cur_rec + 1);
       Some (Some (p + unat (ndef_body_len payload_len type_len id_len))) } }"

function ndef_by_index_loop :: "mem \<Rightarrow> int \<Rightarrow> int \<Rightarrow> nat \<Rightarrow> nat option option" where
  "ndef_by_index_loop m count index p_rec =
     (if count = index then Some (Some p_rec) else do {
       rec_hdr \<leftarrow> rd8 m p_rec;
       if rec_hdr AND NDEF_ME_MASK \<noteq> 0 then Some None
       else do {
         (type_len, payload_len, id_len, p) \<leftarrow> ndef_lens m rec_hdr (p_rec + 1);
         ndef_by_index_loop m (count + 1) index
           (p + unat (ndef_body_len payload_len type_len id_len)) } })"
  by pat_completeness auto
termination
  by (relation "measure (\<lambda>(m, c, i, p). length m - p)") (auto dest!: ndef_lens_advances)

declare ndef_by_index_loop.simps [simp del]

definition NDEF_MsgGetRecByIndex :: "mem \<Rightarrow> int \<Rightarrow> nat option option" where
  "NDEF_MsgGetRecByIndex m index = ndef_by_index_loop m 0 index 0"

function ndef_last_rec_loop :: "mem \<Rightarrow> nat \<Rightarrow> nat option" where
  "ndef_last_rec_loop m p_rec = do {
     rec_hdr \<leftarrow> rd8 m p_rec;
     if rec_hdr AND NDEF_ME_MASK \<noteq> 0 then Some p_rec
     else do {
       (type_len, payload_len, id_len, p) \<leftarrow> ndef_lens m rec_hdr (p_rec + 1);
       ndef_last_rec_loop m (p + unat (ndef_body_len payload_len type_len id_len)) } }"
  by pat_completeness auto
termination
  by (relation "measure (\<lambda>(m, p). length m - p)") (auto dest!: ndef_lens_advances)

declare ndef_last_rec_loop.simps [simp del]

definition NDEF_MsgGetLastRecInMsg :: "mem \<Rightarrow> nat option" where
  "NDEF_MsgGetLastRecInMsg m = ndef_last_rec_loop m 0"

text \<open>The search loop shared by \<^verbatim>\<open>NDEF_MsgGetFirstRecByType\<close> and \<^verbatim>\<open>NDEF_MsgGetNextRecByType\<close>;
  \<open>p_type\<close> is the list of the \<^verbatim>\<open>tlen\<close> bytes searched for.\<close>

function ndef_by_type_loop :: "mem \<Rightarrow> u8 \<Rightarrow> u8 list \<Rightarrow> nat \<Rightarrow> nat option option" where
  "ndef_by_type_loop m tnf p_type p_rec = do {
     rec_hdr \<leftarrow> rd8 m p_rec;
     (type_len, payload_len, id_len, p) \<leftarrow> ndef_lens m rec_hdr (p_rec + 1);
     hit \<leftarrow> (if rec_hdr AND NDEF_TNF_MASK = tnf \<and> unat type_len = length p_type
            then do { bs \<leftarrow> rd_bytes m p (length p_type); Some (bs = p_type) }
            else Some False);
     if hit then Some (Some p_rec)
     else if rec_hdr AND NDEF_ME_MASK \<noteq> 0 then Some None
     else ndef_by_type_loop m tnf p_type
       (p + unat (ndef_body_len payload_len type_len id_len)) }"
  by pat_completeness auto
termination
  by (relation "measure (\<lambda>(m, t, ty, p). length m - p)") (auto dest!: ndef_lens_advances)

declare ndef_by_type_loop.simps [simp del]

definition NDEF_MsgGetFirstRecByType :: "mem \<Rightarrow> u8 \<Rightarrow> u8 list \<Rightarrow> nat option option" where
  "NDEF_MsgGetFirstRecByType m tnf p_type = ndef_by_type_loop m tnf p_type 0"

definition NDEF_MsgGetNextRecByType :: "mem \<Rightarrow> nat \<Rightarrow> u8 \<Rightarrow> u8 list \<Rightarrow> nat option option" where
  "NDEF_MsgGetNextRecByType m p_cur_rec tnf p_type = do {
     nxt \<leftarrow> NDEF_MsgGetNextRec m p_cur_rec;
     case nxt of None \<Rightarrow> Some None | Some p_rec \<Rightarrow> ndef_by_type_loop m tnf p_type p_rec }"

function ndef_by_id_loop :: "mem \<Rightarrow> u8 list \<Rightarrow> nat \<Rightarrow> nat option option" where
  "ndef_by_id_loop m p_id p_rec = do {
     rec_hdr \<leftarrow> rd8 m p_rec;
     (type_len, payload_len, id_len, p) \<leftarrow> ndef_lens m rec_hdr (p_rec + 1);
     hit \<leftarrow> (if unat id_len = length p_id
            then do { bs \<leftarrow> rd_bytes m (p + unat type_len) (length p_id); Some (bs = p_id) }
            else Some False);
     if hit then Some (Some p_rec)
     else if rec_hdr AND NDEF_ME_MASK \<noteq> 0 then Some None
     else ndef_by_id_loop m p_id (p + unat type_len + unat (ucast id_len + payload_len :: u32)) }"
  by pat_completeness auto
termination
  by (relation "measure (\<lambda>(m, i, p). length m - p)") (auto dest!: ndef_lens_advances)

declare ndef_by_id_loop.simps [simp del]

definition NDEF_MsgGetFirstRecById :: "mem \<Rightarrow> u8 list \<Rightarrow> nat option option" where
  "NDEF_MsgGetFirstRecById m p_id = ndef_by_id_loop m p_id 0"

definition NDEF_MsgGetNextRecById :: "mem \<Rightarrow> nat \<Rightarrow> u8 list \<Rightarrow> nat option option" where
  "NDEF_MsgGetNextRecById m p_cur_rec p_id = do {
     nxt \<leftarrow> NDEF_MsgGetNextRec m p_cur_rec;
     case nxt of None \<Rightarrow> Some None | Some p_rec \<Rightarrow> ndef_by_id_loop m p_id p_rec }"

section \<open>Fields of a record\<close>

text \<open>Pointer (null if the field is empty), with the TNF and the lengths the code stores
  through its out-parameters.\<close>

definition NDEF_RecGetType :: "mem \<Rightarrow> nat \<Rightarrow> (nat option \<times> u8 \<times> u8) option" where
  "NDEF_RecGetType m p_rec = do {
     rec_hdr \<leftarrow> rd8 m p_rec;
     type_len \<leftarrow> rd8 m (p_rec + 1);
     let p = (if rec_hdr AND NDEF_SR_MASK \<noteq> 0 then p_rec + 3 else p_rec + 6);
     let p = (if rec_hdr AND NDEF_IL_MASK \<noteq> 0 then p + 1 else p);
     Some (if type_len = 0 then None else Some p, rec_hdr AND NDEF_TNF_MASK, type_len) }"

definition NDEF_RecGetId :: "mem \<Rightarrow> nat \<Rightarrow> (nat option \<times> u8) option" where
  "NDEF_RecGetId m p_rec = do {
     rec_hdr \<leftarrow> rd8 m p_rec;
     type_len \<leftarrow> rd8 m (p_rec + 1);
     let p = (if rec_hdr AND NDEF_SR_MASK \<noteq> 0 then p_rec + 3 else p_rec + 6);
     (id_len, p) \<leftarrow> (if rec_hdr AND NDEF_IL_MASK \<noteq> 0
                    then do { b \<leftarrow> rd8 m p; Some (b, p + 1) } else Some (0, p));
     Some (if id_len = 0 then None else Some (p + unat type_len), id_len) }"

definition NDEF_RecGetPayload :: "mem \<Rightarrow> nat \<Rightarrow> (nat option \<times> u32) option" where
  "NDEF_RecGetPayload m p_rec = do {
     rec_hdr \<leftarrow> rd8 m p_rec;
     (type_len, payload_len, id_len, p) \<leftarrow> ndef_lens m rec_hdr (p_rec + 1);
     Some (if payload_len = 0 then None else Some (p + unat type_len + unat id_len), payload_len) }"

section \<open>Construction and editing\<close>

text \<open>A source pointer of a \<^verbatim>\<open>memcpy\<close>: null, or an offset into some other buffer.
  \<open>ndef_copy_in\<close> is \<^verbatim>\<open>memcpy(p, src, n)\<close>; a null source with a positive length is undefined.
  \<open>ndef_copy_opt\<close> is the guarded form \<^verbatim>\<open>if (src) memcpy(p, src, n)\<close>.\<close>

type_synonym srcp = "(mem \<times> nat) option"

definition ndef_copy_in :: "mem \<Rightarrow> nat \<Rightarrow> srcp \<Rightarrow> nat \<Rightarrow> mem option" where
  "ndef_copy_in m p src n =
     (if n = 0 then Some m else
      case src of None \<Rightarrow> None
      | Some (sm, sp) \<Rightarrow> do { bs \<leftarrow> rd_bytes sm sp n; wr_bytes m p bs })"

definition ndef_copy_opt :: "mem \<Rightarrow> nat \<Rightarrow> srcp \<Rightarrow> nat \<Rightarrow> mem option" where
  "ndef_copy_opt m p src n = (case src of None \<Rightarrow> Some m | Some _ \<Rightarrow> ndef_copy_in m p src n)"

definition NDEF_MsgInit :: "mem \<Rightarrow> u32 \<Rightarrow> (mem \<times> u32) option" where
  "NDEF_MsgInit m max_size = do {
     m' \<leftarrow> wr_bytes m 0 (replicate (unat max_size) 0);
     Some (m', 0) }"

text \<open>Set (\<^verbatim>\<open>*p |= mask\<close>) and clear (\<^verbatim>\<open>*p &= ~mask\<close>) bits of a header byte.\<close>

definition ndef_set_bits :: "mem \<Rightarrow> nat \<Rightarrow> u8 \<Rightarrow> mem option" where
  "ndef_set_bits m p msk = do { b \<leftarrow> rd8 m p; wr8 m p (b OR msk) }"

definition ndef_clear_bits :: "mem \<Rightarrow> nat \<Rightarrow> u8 \<Rightarrow> mem option" where
  "ndef_clear_bits m p msk = do { b \<leftarrow> rd8 m p; wr8 m p (b AND NOT msk) }"

text \<open>\<^verbatim>\<open>NDEF_MsgAddRec\<close> in two parts: the header byte of the new record (with the ME bit of the
  previous last record cleared), and the fields behind it.\<close>

definition ndef_add_header :: "mem \<Rightarrow> u32 \<Rightarrow> u8 \<Rightarrow> u32 \<Rightarrow> u32 \<Rightarrow> mem option" where
  "ndef_add_header m cur_size tnf plen ilen = (let p_rec = unat cur_size in do {
     m1 \<leftarrow> (if cur_size = 0 then wr8 m p_rec (tnf OR NDEF_MB_MASK OR NDEF_ME_MASK)
           else do {
             pLast \<leftarrow> NDEF_MsgGetLastRecInMsg m;
             m' \<leftarrow> ndef_clear_bits m pLast NDEF_ME_MASK;
             wr8 m' p_rec (tnf OR NDEF_ME_MASK) });
     m2 \<leftarrow> (if plen = 1 then ndef_set_bits m1 p_rec NDEF_SR_MASK else Some m1);
     (if ilen \<noteq> 0 then ndef_set_bits m2 p_rec NDEF_IL_MASK else Some m2) })"

definition ndef_add_fields ::
  "mem \<Rightarrow> nat \<Rightarrow> u32 \<Rightarrow> u32 \<Rightarrow> srcp \<Rightarrow> u8 \<Rightarrow> srcp \<Rightarrow> u8 \<Rightarrow> srcp \<Rightarrow> u32 \<Rightarrow> mem option" where
  "ndef_add_fields m p_rec plen ilen p_type type_len p_id id_len p_payload payload_len = do {
     m4 \<leftarrow> wr8 m (p_rec + 1) type_len;
     (m5, p) \<leftarrow> (if plen = 1
                then do { m' \<leftarrow> wr8 m4 (p_rec + 2) (ucast payload_len); Some (m', p_rec + 3) }
                else do { m' \<leftarrow> wr_be32 m4 (p_rec + 2) payload_len; Some (m', p_rec + 6) });
     (m6, p) \<leftarrow> (if ilen > 0 then do { m' \<leftarrow> wr8 m5 p id_len; Some (m', p + 1) }
                else Some (m5, p));
     m7 \<leftarrow> (if type_len \<noteq> 0 then ndef_copy_opt m6 p p_type (unat type_len) else Some m6);
     let p = p + unat type_len;
     m8 \<leftarrow> (if id_len \<noteq> 0 then ndef_copy_opt m7 p p_id (unat id_len) else Some m7);
     let p = p + unat id_len;
     ndef_copy_opt m8 p p_payload (unat payload_len) }"

definition NDEF_MsgAddRec ::
  "mem \<Rightarrow> u32 \<Rightarrow> u32 \<Rightarrow> u8 \<Rightarrow> srcp \<Rightarrow> u8 \<Rightarrow> srcp \<Rightarrow> u8 \<Rightarrow> srcp \<Rightarrow> u32 \<Rightarrow>
   (ndef_status \<times> mem \<times> u32) option" where
  "NDEF_MsgAddRec m max_size cur_size tnf0 p_type type_len0 p_id id_len p_payload payload_len =
     (let plen = (if payload_len < 256 then 1 else 4 :: u32);
          ilen = (if id_len = 0 then 0 else 1 :: u32);
          tnf = (if tnf0 > NDEF_TNF_RESERVED then NDEF_TNF_UNKNOWN else tnf0);
          type_len = (if tnf0 > NDEF_TNF_RESERVED then 0 else type_len0);
          recSize = payload_len + 2 + ucast type_len + plen + ilen + ucast id_len
      in if cur_size + recSize > max_size then Some (NDEF_MSG_INSUFFICIENT_MEM, m, cur_size)
      else do {
        m3 \<leftarrow> ndef_add_header m cur_size tnf plen ilen;
        m9 \<leftarrow> ndef_add_fields m3 (unat cur_size) plen ilen p_type type_len p_id id_len
               p_payload payload_len;
        Some (NDEF_OK, m9, cur_size + recSize) })"

text \<open>The new payload length, in the field at \<open>p\<close>: four bytes big-endian or one byte.\<close>

definition ndef_store_paylen :: "mem \<Rightarrow> nat \<Rightarrow> u32 \<Rightarrow> mem option" where
  "ndef_store_paylen m p len = (if len > 255 then wr_be32 m p len else wr8 m p (ucast len))"

definition NDEF_MsgAppendPayload ::
  "mem \<Rightarrow> u32 \<Rightarrow> u32 \<Rightarrow> nat \<Rightarrow> srcp \<Rightarrow> u32 \<Rightarrow> (ndef_status \<times> mem \<times> u32) option" where
  "NDEF_MsgAppendPayload m max_size cur_size p_rec p_add_pl add_pl_len = do {
     hdr \<leftarrow> rd8 m p_rec;
     (type_len, prev_paylen, id_len, pp) \<leftarrow> ndef_lens m hdr (p_rec + 1);
     let p_prev_pl = pp + unat type_len + unat id_len;
     let new_paylen = prev_paylen + add_pl_len;
     let incr_lenfld = (if prev_paylen < 256 \<and> new_paylen > 255 then 3 else 0 :: u32);
     if cur_size + add_pl_len + incr_lenfld > max_size
     then Some (NDEF_MSG_INSUFFICIENT_MEM, m, cur_size)
     else do {
       let pp = p_rec + 2;
       (m1, p_prev_pl) \<leftarrow>
         (if incr_lenfld \<noteq> 0
          then do { m' \<leftarrow> shiftdown m (pp + 1) (unat (cur_size - of_nat pp - 1)) 3;
                    Some (m', p_prev_pl + 3) }
          else Some (m, p_prev_pl));
       m2 \<leftarrow> (if new_paylen > 255 then ndef_clear_bits m1 p_rec NDEF_SR_MASK else Some m1);
       m3 \<leftarrow> ndef_store_paylen m2 pp new_paylen;
       let pp = p_prev_pl + unat prev_paylen;
       h \<leftarrow> rd8 m3 p_rec;
       m4 \<leftarrow> (if h AND NDEF_ME_MASK = 0
             then shiftdown m3 pp (unat (cur_size - of_nat pp)) (unat add_pl_len) else Some m3);
       m5 \<leftarrow> ndef_copy_in m4 pp p_add_pl (unat add_pl_len);
       Some (NDEF_OK, m5, cur_size + add_pl_len + incr_lenfld) } }"

text \<open>\<^verbatim>\<open>NDEF_MsgReplacePayload\<close>: the branch for a longer payload, the one for a shorter payload
  and the routine. The branches yield the buffer, the current size and the offset of the
  payload, or \<open>Inl\<close> of the error status.\<close>

definition ndef_grow_payload ::
  "mem \<Rightarrow> u32 \<Rightarrow> u32 \<Rightarrow> nat \<Rightarrow> u32 \<Rightarrow> u32 \<Rightarrow> nat \<Rightarrow> (ndef_status + mem \<times> u32 \<times> nat) option" where
  "ndef_grow_payload m max_size cur_size p_rec prev_paylen new_pl_len p_prev_pl =
     (let pp = p_rec + 2; paylen_delta = new_pl_len - prev_paylen in
      rbind (if prev_paylen < 256 \<and> new_pl_len > 255
             then if cur_size + paylen_delta + 3 > max_size
                  then Some (Inl NDEF_MSG_INSUFFICIENT_MEM)
                  else rget (do {
                    m' \<leftarrow> shiftdown m (pp + 1) (unat (cur_size - of_nat pp - 1)) 3;
                    m'' \<leftarrow> ndef_clear_bits m' p_rec NDEF_SR_MASK;
                    Some (m'', cur_size + 3, p_prev_pl + 3) })
             else if cur_size + paylen_delta > max_size
             then Some (Inl NDEF_MSG_INSUFFICIENT_MEM)
             else Some (Inr (m, cur_size, p_prev_pl)))
        (\<lambda>(m, cur_size, p_prev_pl). rget (do {
           m1 \<leftarrow> ndef_store_paylen m pp new_pl_len;
           let pp = p_prev_pl + unat prev_paylen;
           h \<leftarrow> rd8 m1 p_rec;
           m2 \<leftarrow> (if h AND NDEF_ME_MASK = 0
                 then shiftdown m1 pp (unat (cur_size - of_nat pp)) (unat paylen_delta)
                 else Some m1);
           Some (m2, cur_size + paylen_delta, p_prev_pl) })))"

definition ndef_shrink_payload ::
  "mem \<Rightarrow> u32 \<Rightarrow> nat \<Rightarrow> u32 \<Rightarrow> u32 \<Rightarrow> nat \<Rightarrow> (mem \<times> u32 \<times> nat) option" where
  "ndef_shrink_payload m cur_size p_rec prev_paylen new_pl_len p_prev_pl =
     (let pp = p_rec + 2; paylen_delta = prev_paylen - new_pl_len in do {
       (m, cur_size, p_prev_pl) \<leftarrow>
         (if prev_paylen > 255 \<and> new_pl_len < 256
          then do {
            m' \<leftarrow> shiftup m (pp + 1) (pp + 4) (unat (cur_size - of_nat pp - 3));
            m'' \<leftarrow> ndef_set_bits m' p_rec NDEF_SR_MASK;
            Some (m'', cur_size - 3, p_prev_pl - 3) }
          else Some (m, cur_size, p_prev_pl));
       m1 \<leftarrow> ndef_store_paylen m pp new_pl_len;
       let pp = p_prev_pl + unat prev_paylen;
       h \<leftarrow> rd8 m1 p_rec;
       m2 \<leftarrow> (if h AND NDEF_ME_MASK = 0
             then shiftup m1 (pp - unat paylen_delta) pp (unat (cur_size - of_nat pp))
             else Some m1);
       Some (m2, cur_size - paylen_delta, p_prev_pl) })"

definition NDEF_MsgReplacePayload ::
  "mem \<Rightarrow> u32 \<Rightarrow> u32 \<Rightarrow> nat \<Rightarrow> srcp \<Rightarrow> u32 \<Rightarrow> (ndef_status \<times> mem \<times> u32) option" where
  "NDEF_MsgReplacePayload m max_size cur_size p_rec p_new_pl new_pl_len = do {
     hdr \<leftarrow> rd8 m p_rec;
     (type_len, prev_paylen, id_len, pp) \<leftarrow> ndef_lens m hdr (p_rec + 1);
     let p_prev_pl = pp + unat type_len + unat id_len;
     r \<leftarrow> (if new_pl_len > prev_paylen
          then ndef_grow_payload m max_size cur_size p_rec prev_paylen new_pl_len p_prev_pl
          else if new_pl_len < prev_paylen
          then rget (ndef_shrink_payload m cur_size p_rec prev_paylen new_pl_len p_prev_pl)
          else Some (Inr (m, cur_size, p_prev_pl)));
     case r of
       Inl e \<Rightarrow> Some (e, m, cur_size)
     | Inr (m1, cur_size1, p_prev_pl) \<Rightarrow> do {
         m2 \<leftarrow> ndef_copy_opt m1 p_prev_pl p_new_pl (unat new_pl_len);
         Some (NDEF_OK, m2, cur_size1) } }"

definition NDEF_MsgReplaceType ::
  "mem \<Rightarrow> u32 \<Rightarrow> u32 \<Rightarrow> nat \<Rightarrow> srcp \<Rightarrow> u8 \<Rightarrow> (ndef_status \<times> mem \<times> u32) option" where
  "NDEF_MsgReplaceType m max_size cur_size p_rec p_new_type new_type_len = do {
     prev_type_len \<leftarrow> rd8 m (p_rec + 1);
     hdr \<leftarrow> rd8 m p_rec;
     let pp = (if hdr AND NDEF_SR_MASK \<noteq> 0 then p_rec + 3 else p_rec + 6);
     let p_prev_type = (if hdr AND NDEF_IL_MASK \<noteq> 0 then pp + 1 else pp);
     let pp = p_prev_type + unat prev_type_len;
     r \<leftarrow> (if new_type_len > prev_type_len
          then let typelen_delta = new_type_len - prev_type_len in
               if cur_size + ucast typelen_delta > max_size
               then Some (Inl NDEF_MSG_INSUFFICIENT_MEM)
               else rget (do {
                 m' \<leftarrow> shiftdown m pp (unat (cur_size - of_nat pp)) (unat typelen_delta);
                 Some (m', cur_size + ucast typelen_delta) })
          else if new_type_len < prev_type_len
          then let typelen_delta = prev_type_len - new_type_len in
               rget (do {
                 m' \<leftarrow> shiftup m (pp - unat typelen_delta) pp (unat (cur_size - of_nat pp));
                 Some (m', cur_size - ucast typelen_delta) })
          else Some (Inr (m, cur_size)));
     case r of
       Inl e \<Rightarrow> Some (e, m, cur_size)
     | Inr (m1, cur_size1) \<Rightarrow> do {
         m2 \<leftarrow> wr8 m1 (p_rec + 1) new_type_len;
         m3 \<leftarrow> ndef_copy_opt m2 p_prev_type p_new_type (unat new_type_len);
         Some (NDEF_OK, m3, cur_size1) } }"

definition ndef_grow_id ::
  "mem \<Rightarrow> u32 \<Rightarrow> u32 \<Rightarrow> nat \<Rightarrow> nat \<Rightarrow> u8 \<Rightarrow> u8 \<Rightarrow> nat \<Rightarrow> (ndef_status + mem \<times> u32 \<times> nat) option" where
  "ndef_grow_id m max_size cur_size p_rec p_idlen_field prev_id_len new_id_len p_prev_id =
     (let idlen_delta = new_id_len - prev_id_len in
      rbind (if prev_id_len = 0
             then if cur_size + ucast idlen_delta + 1 > max_size
                  then Some (Inl NDEF_MSG_INSUFFICIENT_MEM)
                  else rget (do {
                    m' \<leftarrow> shiftdown m p_idlen_field (unat (cur_size - of_nat p_idlen_field)) 1;
                    m'' \<leftarrow> ndef_set_bits m' p_rec NDEF_IL_MASK;
                    Some (m'', cur_size + 1, p_prev_id + 1) })
             else if cur_size + ucast idlen_delta > max_size
             then Some (Inl NDEF_MSG_INSUFFICIENT_MEM)
             else Some (Inr (m, cur_size, p_prev_id)))
        (\<lambda>(m, cur_size, p_prev_id). rget (do {
           let pp = p_prev_id + unat prev_id_len;
           m' \<leftarrow> shiftdown m pp (unat (cur_size - of_nat pp)) (unat idlen_delta);
           Some (m', cur_size + ucast idlen_delta, p_prev_id) })))"

definition ndef_shrink_id ::
  "mem \<Rightarrow> u32 \<Rightarrow> nat \<Rightarrow> nat \<Rightarrow> u8 \<Rightarrow> u8 \<Rightarrow> nat \<Rightarrow> (mem \<times> u32 \<times> nat) option" where
  "ndef_shrink_id m cur_size p_rec p_idlen_field prev_id_len new_id_len p_prev_id =
     (let idlen_delta = prev_id_len - new_id_len; pp = p_prev_id + unat prev_id_len in do {
       m1 \<leftarrow> shiftup m (pp - unat idlen_delta) pp (unat (cur_size - of_nat pp));
       let cur_size = cur_size - ucast idlen_delta;
       if new_id_len = 0
       then do {
         m2 \<leftarrow> shiftup m1 p_idlen_field (p_idlen_field + 1)
                (unat (cur_size - (of_nat p_idlen_field - 1)));
         m3 \<leftarrow> ndef_clear_bits m2 p_rec NDEF_IL_MASK;
         Some (m3, cur_size - 1, p_prev_id) }
       else Some (m1, cur_size, p_prev_id) })"

definition NDEF_MsgReplaceId ::
  "mem \<Rightarrow> u32 \<Rightarrow> u32 \<Rightarrow> nat \<Rightarrow> srcp \<Rightarrow> u8 \<Rightarrow> (ndef_status \<times> mem \<times> u32) option" where
  "NDEF_MsgReplaceId m max_size cur_size p_rec p_new_id new_id_len = do {
     type_len \<leftarrow> rd8 m (p_rec + 1);
     hdr \<leftarrow> rd8 m p_rec;
     let p_idlen_field = (if hdr AND NDEF_SR_MASK \<noteq> 0 then p_rec + 3 else p_rec + 6);
     (prev_id_len, pp) \<leftarrow>
       (if hdr AND NDEF_IL_MASK \<noteq> 0
        then do { b \<leftarrow> rd8 m p_idlen_field; Some (b, p_idlen_field + 1) }
        else Some (0, p_idlen_field));
     let p_prev_id = pp + unat type_len;
     r \<leftarrow> (if new_id_len > prev_id_len
          then ndef_grow_id m max_size cur_size p_rec p_idlen_field prev_id_len new_id_len p_prev_id
          else if new_id_len < prev_id_len
          then rget (ndef_shrink_id m cur_size p_rec p_idlen_field prev_id_len new_id_len p_prev_id)
          else Some (Inr (m, cur_size, p_prev_id)));
     case r of
       Inl e \<Rightarrow> Some (e, m, cur_size)
     | Inr (m1, cur_size1, p_prev_id) \<Rightarrow>
         if new_id_len \<noteq> 0 then do {
           m2 \<leftarrow> wr8 m1 p_idlen_field new_id_len;
           m3 \<leftarrow> ndef_copy_opt m2 p_prev_id p_new_id (unat new_id_len);
           Some (NDEF_OK, m3, cur_size1) }
         else Some (NDEF_OK, m1, cur_size1) }"

text \<open>The two \<^verbatim>\<open>return false\<close> of \<^verbatim>\<open>NDEF_MsgRemoveRec\<close> yield the status value 0, which is
  \<^verbatim>\<open>NDEF_OK\<close>.\<close>

definition NDEF_MsgRemoveRec :: "mem \<Rightarrow> u32 \<Rightarrow> int \<Rightarrow> (ndef_status \<times> mem \<times> u32) option" where
  "NDEF_MsgRemoveRec m cur_size index = do {
     r \<leftarrow> NDEF_MsgGetRecByIndex m index;
     case r of None \<Rightarrow> Some (NDEF_REC_NOT_FOUND, m, cur_size)
     | Some p_rec \<Rightarrow> do {
       hdr \<leftarrow> rd8 m p_rec;
       if hdr AND NDEF_MB_MASK \<noteq> 0 then do {
         nxt \<leftarrow> NDEF_MsgGetRecByIndex m 1;
         case nxt of
           Some pNext \<Rightarrow> do {
             m1 \<leftarrow> ndef_set_bits m pNext NDEF_MB_MASK;
             let cur_size' = cur_size - of_nat pNext;
             m2 \<leftarrow> shiftup m1 0 pNext (unat cur_size');
             Some (NDEF_OK, m2, cur_size') }
         | None \<Rightarrow> Some (NDEF_OK, m, 0) }
       else if hdr AND NDEF_ME_MASK \<noteq> 0 then
         (if index > 0 then do {
            prv \<leftarrow> NDEF_MsgGetRecByIndex m (index - 1);
            case prv of None \<Rightarrow> Some (NDEF_OK, m, cur_size)
            | Some pPrev \<Rightarrow> do {
                m1 \<leftarrow> ndef_set_bits m pPrev NDEF_ME_MASK;
                Some (NDEF_OK, m1, of_nat p_rec) } }
          else Some (NDEF_OK, m, of_nat p_rec))
       else do {
         nxt \<leftarrow> NDEF_MsgGetNextRec m p_rec;
         case nxt of None \<Rightarrow> Some (NDEF_OK, m, cur_size)
         | Some pNext \<Rightarrow> do {
             m1 \<leftarrow> shiftup m p_rec pNext (unat (cur_size - of_nat pNext));
             Some (NDEF_OK, m1, cur_size - of_nat (pNext - p_rec)) } } } }"

text \<open>\<^verbatim>\<open>NDEF_MsgCopyAndDechunk\<close>: the copy loop over the records of the source. It stops at the
  last record or at the first status other than \<^verbatim>\<open>NDEF_OK\<close>.\<close>

lemma NDEF_MsgGetNextRec_advances:
  "NDEF_MsgGetNextRec m p = Some (Some p') \<Longrightarrow> p < length m \<and> p < p'"
  by (auto simp: NDEF_MsgGetNextRec_def bind_eq_Some_conv rd8_Some dest!: ndef_lens_advances
      split: if_splits)

function ndef_dechunk_loop ::
  "mem \<Rightarrow> u32 \<Rightarrow> nat \<Rightarrow> mem \<Rightarrow> u32 \<Rightarrow> nat \<Rightarrow> (ndef_status \<times> mem \<times> u32) option" where
  "ndef_dechunk_loop src max_out_len p_rec dest out_len p_prev_rec = do {
     (p_type, tnf, type_len) \<leftarrow> NDEF_RecGetType src p_rec;
     (p_id, id_len) \<leftarrow> NDEF_RecGetId src p_rec;
     (p_pay, pay_len) \<leftarrow> NDEF_RecGetPayload src p_rec;
     (status, dest', out_len', p_prev_rec') \<leftarrow>
       (if tnf = NDEF_TNF_UNCHANGED
        then case p_pay of
            None \<Rightarrow> Some (NDEF_OK, dest, out_len, p_prev_rec)
          | Some q \<Rightarrow> do {
              (st, d, ol) \<leftarrow> NDEF_MsgAppendPayload dest max_out_len out_len p_prev_rec
                             (Some (src, q)) pay_len;
              Some (st, d, ol, p_prev_rec) }
        else do {
          (st, d, ol) \<leftarrow> NDEF_MsgAddRec dest max_out_len out_len tnf
            (map_option (Pair src) p_type) type_len (map_option (Pair src) p_id) id_len
            (map_option (Pair src) p_pay) pay_len;
          Some (st, d, ol, unat out_len) });
     nxt \<leftarrow> NDEF_MsgGetNextRec src p_rec;
     case nxt of
       Some p_rec' \<Rightarrow> if status = NDEF_OK
                     then ndef_dechunk_loop src max_out_len p_rec' dest' out_len' p_prev_rec'
                     else Some (status, dest', out_len')
     | None \<Rightarrow> Some (status, dest', out_len') }"
  by pat_completeness auto
termination
  by (relation "measure (\<lambda>(s, mx, p, d, ol, pr). length s - p)")
    (auto dest!: NDEF_MsgGetNextRec_advances)

declare ndef_dechunk_loop.simps [simp del]

text \<open>The status, the destination buffer and, when the source was valid, the value stored in
  \<^verbatim>\<open>*p_out_len\<close>.\<close>

definition NDEF_MsgCopyAndDechunk ::
  "mem \<Rightarrow> u32 \<Rightarrow> mem \<Rightarrow> (ndef_status \<times> mem \<times> u32 option) option" where
  "NDEF_MsgCopyAndDechunk src src_len dest = do {
     status \<leftarrow> NDEF_MsgValidate (Some src) src_len True;
     if status \<noteq> NDEF_OK then Some (status, dest, None)
     else do {
       (dest', out_len) \<leftarrow> NDEF_MsgInit dest src_len;
       (status', dest'', out_len') \<leftarrow> ndef_dechunk_loop src src_len 0 dest' out_len 0;
       Some (status', dest'', Some out_len') } }"

end
