(* ===== verification/NdefRecords.thy ===== *)
theory NdefRecords
  imports NdefModel
begin

unbundle bit_operations_syntax

text \<open>
  The abstract view of an NDEF message: a list of records with their header byte, type, ID and
  payload, and the byte encoding of each. The theory proves that \<^verbatim>\<open>NDEF_MsgValidate\<close> accepts
  exactly the encodings of well-formed record lists, without reading outside the message, and
  that the traversal and field-access routines compute the corresponding list operations.
\<close>

section \<open>Records and their encoding\<close>

record ndef_rec =
  nr_hdr :: u8
  nr_type :: "u8 list"
  nr_id :: "u8 list"
  nr_pay :: "u8 list"

definition nr_mb :: "ndef_rec \<Rightarrow> bool" where "nr_mb r \<longleftrightarrow> nr_hdr r AND NDEF_MB_MASK \<noteq> 0"
definition nr_me :: "ndef_rec \<Rightarrow> bool" where "nr_me r \<longleftrightarrow> nr_hdr r AND NDEF_ME_MASK \<noteq> 0"
definition nr_cf :: "ndef_rec \<Rightarrow> bool" where "nr_cf r \<longleftrightarrow> nr_hdr r AND NDEF_CF_MASK \<noteq> 0"
definition nr_sr :: "ndef_rec \<Rightarrow> bool" where "nr_sr r \<longleftrightarrow> nr_hdr r AND NDEF_SR_MASK \<noteq> 0"
definition nr_il :: "ndef_rec \<Rightarrow> bool" where "nr_il r \<longleftrightarrow> nr_hdr r AND NDEF_IL_MASK \<noteq> 0"
definition nr_tnf :: "ndef_rec \<Rightarrow> u8" where "nr_tnf r = nr_hdr r AND NDEF_TNF_MASK"

definition nr_wf :: "ndef_rec \<Rightarrow> bool" where
  "nr_wf r \<longleftrightarrow> length (nr_type r) < 256 \<and> length (nr_id r) < 256 \<and> (\<not> nr_il r \<longrightarrow> nr_id r = []) \<and>
     (nr_sr r \<longrightarrow> length (nr_pay r) < 256) \<and>
     length (nr_pay r) + length (nr_type r) + length (nr_id r) < 2 ^ 32"

definition nr_head :: "ndef_rec \<Rightarrow> u8 list" where
  "nr_head r = [nr_hdr r, of_nat (length (nr_type r))]
     @ (if nr_sr r then [of_nat (length (nr_pay r))] else be32_bytes (of_nat (length (nr_pay r))))
     @ (if nr_il r then [of_nat (length (nr_id r))] else [])"

definition nr_enc :: "ndef_rec \<Rightarrow> u8 list" where
  "nr_enc r = nr_head r @ nr_type r @ nr_id r @ nr_pay r"

definition msg_enc :: "ndef_rec list \<Rightarrow> u8 list" where
  "msg_enc rs = concat (map nr_enc rs)"

lemmas nr_flag_defs = nr_mb_def nr_me_def nr_cf_def nr_sr_def nr_il_def nr_tnf_def

lemma length_nr_head:
  "length (nr_head r) = (if nr_sr r then 3 else 6) + (if nr_il r then 1 else 0)"
  by (simp add: nr_head_def)

lemma length_nr_enc: "length (nr_enc r) =
   length (nr_head r) + length (nr_type r) + length (nr_id r) + length (nr_pay r)"
  by (simp add: nr_enc_def)

lemma nr_enc_min: "3 \<le> length (nr_enc r)"
  by (simp add: length_nr_enc length_nr_head)

lemma nr_enc_not_Nil [simp]: "nr_enc r \<noteq> []"
  using nr_enc_min [of r] by auto

lemma msg_enc_simps [simp]: "msg_enc [] = []" "msg_enc (r # rs) = nr_enc r @ msg_enc rs"
  "msg_enc (rs @ rs') = msg_enc rs @ msg_enc rs'"
  by (simp_all add: msg_enc_def)

section \<open>Reading the length fields of an encoded record\<close>

lemma nr_enc_hdr: "bytes_at m p (nr_enc r) \<Longrightarrow> rd8 m p = Some (nr_hdr r)"
  by (simp add: nr_enc_def nr_head_def)

lemma nr_enc_typelen: "bytes_at m p (nr_enc r) \<Longrightarrow> rd8 m (p + 1) = Some (of_nat (length (nr_type r)))"
  by (simp add: nr_enc_def nr_head_def)

lemma nr_enc_paylen_sr:
  "bytes_at m p (nr_enc r) \<Longrightarrow> nr_sr r \<Longrightarrow> rd8 m (p + 2) = Some (of_nat (length (nr_pay r)))"
  by (simp add: nr_enc_def nr_head_def)

lemma nr_enc_paylen_lr:
  "bytes_at m p (nr_enc r) \<Longrightarrow> \<not> nr_sr r \<Longrightarrow> rd_be32 m (p + 2) = Some (of_nat (length (nr_pay r)))"
  by (rule bytes_at_be32) (simp add: nr_enc_def nr_head_def bytes_at_append)

lemma nr_enc_idlen:
  "bytes_at m p (nr_enc r) \<Longrightarrow> nr_il r \<Longrightarrow>
     rd8 m (p + (if nr_sr r then 3 else 6)) = Some (of_nat (length (nr_id r)))"
  by (simp add: nr_enc_def nr_head_def bytes_at_append numeral_eq_Suc split: if_splits)

lemma nr_enc_type: "bytes_at m p (nr_enc r) \<Longrightarrow> bytes_at m (p + length (nr_head r)) (nr_type r)"
  by (simp add: nr_enc_def bytes_at_append)

lemma nr_enc_id:
  "bytes_at m p (nr_enc r) \<Longrightarrow>
     bytes_at m (p + length (nr_head r) + length (nr_type r)) (nr_id r)"
  by (simp add: nr_enc_def bytes_at_append add.assoc)

lemma nr_enc_pay:
  "bytes_at m p (nr_enc r) \<Longrightarrow>
     bytes_at m (p + length (nr_head r) + length (nr_type r) + length (nr_id r)) (nr_pay r)"
  by (simp add: nr_enc_def bytes_at_append add.assoc)

lemma ucast_of_nat_small: "n < 256 \<Longrightarrow> (ucast (of_nat n :: u8) :: u32) = of_nat n"
  by (rule word_unat_eq_iff [THEN iffD2]) (simp add: unat_of_nat_u8 unat_of_nat_u32)

lemma nr_wf_lens:
  assumes "nr_wf r"
  shows "unat (of_nat (length (nr_type r)) :: u8) = length (nr_type r)"
    "unat (of_nat (length (nr_id r)) :: u8) = length (nr_id r)"
    "unat (of_nat (length (nr_pay r)) :: u32) = length (nr_pay r)"
    "unat (ndef_body_len (of_nat (length (nr_pay r))) (of_nat (length (nr_type r)))
       (of_nat (length (nr_id r)))) = length (nr_pay r) + length (nr_type r) + length (nr_id r)"
proof -
  have lt: "length (nr_type r) < 256" "length (nr_id r) < 256"
    "length (nr_pay r) + length (nr_type r) + length (nr_id r) < 2 ^ 32"
    using assms by (auto simp: nr_wf_def)
  then show "unat (of_nat (length (nr_type r)) :: u8) = length (nr_type r)"
    "unat (of_nat (length (nr_id r)) :: u8) = length (nr_id r)"
    "unat (of_nat (length (nr_pay r)) :: u32) = length (nr_pay r)"
    by (simp_all add: unat_of_nat_u8 unat_of_nat_u32)
  have "ndef_body_len (of_nat (length (nr_pay r))) (of_nat (length (nr_type r)))
      (of_nat (length (nr_id r))) = of_nat (length (nr_pay r) + length (nr_type r) + length (nr_id r))"
    using lt by (simp add: ndef_body_len_def ucast_of_nat_small)
  then show "unat (ndef_body_len (of_nat (length (nr_pay r))) (of_nat (length (nr_type r)))
       (of_nat (length (nr_id r)))) = length (nr_pay r) + length (nr_type r) + length (nr_id r)"
    using lt by (simp only: unat_of_nat_u32)
qed

lemma ndef_lens_enc:
  assumes "nr_wf r" "bytes_at m p (nr_enc r)"
  shows "ndef_lens m (nr_hdr r) (p + 1) = Some (of_nat (length (nr_type r)),
    of_nat (length (nr_pay r)), of_nat (length (nr_id r)), p + length (nr_head r))"
proof -
  have sr: "nr_sr r \<Longrightarrow> (ucast (of_nat (length (nr_pay r)) :: u8) :: u32) = of_nat (length (nr_pay r))"
    using assms(1) by (intro ucast_of_nat_small) (simp add: nr_wf_def)
  have il: "\<not> nr_il r \<Longrightarrow> nr_id r = []"
    using assms(1) by (simp add: nr_wf_def)
  note rd = nr_enc_typelen [OF assms(2)] nr_enc_paylen_sr [OF assms(2)]
    nr_enc_paylen_lr [OF assms(2)] nr_enc_idlen [OF assms(2)]
  show ?thesis
    using rd sr il
    by (cases "nr_sr r"; cases "nr_il r")
      (simp_all add: ndef_lens_def length_nr_head nr_sr_def nr_il_def numeral_eq_Suc)
qed

lemma ndef_next_enc:
  assumes "nr_wf r"
  shows "p + length (nr_head r) + unat (ndef_body_len (of_nat (length (nr_pay r)))
     (of_nat (length (nr_type r))) (of_nat (length (nr_id r)))) = p + length (nr_enc r)"
  by (simp only: nr_wf_lens(4) [OF assms] length_nr_enc)

section \<open>Message structure\<close>

text \<open>The ME bit stands on the last record and on no other.\<close>

fun me_last :: "ndef_rec list \<Rightarrow> bool" where
  "me_last [] = False"
| "me_last (r # rs) = (if rs = [] then nr_me r else \<not> nr_me r \<and> me_last rs)"

text \<open>\<open>msg_at m p rs\<close>: the well-formed records \<open>rs\<close>, ending with the only ME bit, are encoded in the
  buffer from offset \<open>p\<close> on.\<close>

definition msg_at :: "mem \<Rightarrow> nat \<Rightarrow> ndef_rec list \<Rightarrow> bool" where
  "msg_at m p rs \<longleftrightarrow> me_last rs \<and> list_all nr_wf rs \<and> bytes_at m p (msg_enc rs)"

lemma msg_at_Nil [simp]: "\<not> msg_at m p []"
  by (simp add: msg_at_def)

lemma msg_at_Cons: "msg_at m p (r # rs) \<longleftrightarrow> nr_wf r \<and> bytes_at m p (nr_enc r) \<and>
   (if rs = [] then nr_me r else \<not> nr_me r \<and> msg_at m (p + length (nr_enc r)) rs)"
  by (auto simp: msg_at_def bytes_at_append)

text \<open>Offset of the \<open>i\<close>-th record, and of the first record that satisfies a predicate.\<close>

definition rec_off :: "ndef_rec list \<Rightarrow> nat \<Rightarrow> nat" where
  "rec_off rs i = length (msg_enc (take i rs))"

fun rec_find :: "(ndef_rec \<Rightarrow> bool) \<Rightarrow> ndef_rec list \<Rightarrow> nat option" where
  "rec_find P [] = None"
| "rec_find P (r # rs) =
     (if P r then Some 0 else map_option (\<lambda>n. length (nr_enc r) + n) (rec_find P rs))"

lemma rec_off_simps [simp]: "rec_off rs 0 = 0" "rec_off (r # rs) (Suc i) = length (nr_enc r) + rec_off rs i"
  by (simp_all add: rec_off_def)

lemma rec_find_spec:
  "rec_find P rs = (case List.find (\<lambda>i. P (rs ! i)) [0..<length rs] of
     None \<Rightarrow> None | Some i \<Rightarrow> Some (rec_off rs i))"
proof (induction rs)
  case (Cons r rs)
  have "List.find (\<lambda>i. P ((r # rs) ! i)) [Suc 0..<Suc (length rs)] =
      map_option Suc (List.find (\<lambda>i. P (rs ! i)) [0..<length rs])"
  proof -
    have "List.find Q (map Suc xs) = map_option Suc (List.find (Q \<circ> Suc) xs)" for Q xs
      by (induction xs) auto
    then have "List.find (\<lambda>i. P ((r # rs) ! i)) (map Suc [0..<length rs]) =
        map_option Suc (List.find (\<lambda>i. P (rs ! i)) [0..<length rs])"
      by (simp add: comp_def)
    then show ?thesis by (simp only: map_Suc_upt)
  qed
  then show ?case
    using Cons.IH by (simp add: upt_conv_Cons del: upt_Suc split: option.splits)
qed simp

section \<open>Traversal\<close>

text \<open>One record further: what each loop body reads and where it goes on.\<close>

lemma ndef_step_enc:
  assumes "nr_wf r" "bytes_at m p (nr_enc r)"
  shows "rd8 m p = Some (nr_hdr r)"
    and "ndef_lens m (nr_hdr r) (Suc p) = Some (of_nat (length (nr_type r)),
      of_nat (length (nr_pay r)), of_nat (length (nr_id r)), p + length (nr_head r))"
    and "p + length (nr_head r) + unat (ndef_body_len (of_nat (length (nr_pay r)))
      (of_nat (length (nr_type r))) (of_nat (length (nr_id r)))) = p + length (nr_enc r)"
  using nr_enc_hdr [OF assms(2)] ndef_lens_enc [OF assms] ndef_next_enc [OF assms(1)] by simp_all

lemma ndef_num_recs_loop_enc:
  "msg_at m p rs \<Longrightarrow> ndef_num_recs_loop m c p = Some (c + length rs)"
proof (induction rs arbitrary: c p)
  case (Cons r rs)
  then have wf: "nr_wf r" and at: "bytes_at m p (nr_enc r)" by (simp_all add: msg_at_Cons)
  show ?case
    using Cons ndef_step_enc [OF wf at]
    by (subst ndef_num_recs_loop.simps) (auto simp: msg_at_Cons nr_me_def add.assoc split: if_splits)
qed simp

lemma ndef_by_index_loop_enc:
  "msg_at m p rs \<Longrightarrow> c \<le> i \<Longrightarrow> ndef_by_index_loop m c i p =
     Some (if nat (i - c) < length rs then Some (p + rec_off rs (nat (i - c))) else None)"
proof (induction rs arbitrary: c p)
  case (Cons r rs)
  then have wf: "nr_wf r" and at: "bytes_at m p (nr_enc r)" by (simp_all add: msg_at_Cons)
  show ?case
  proof (cases "c = i")
    case True
    then show ?thesis by (subst ndef_by_index_loop.simps) simp
  next
    case False
    then have i: "nat (i - c) = Suc (nat (i - (c + 1)))" "c + 1 \<le> i" using Cons.prems(2) by auto
    show ?thesis
      using Cons.IH [of "p + length (nr_enc r)" "c + 1"] Cons.prems(1) i(2) False
        ndef_step_enc [OF wf at]
      by (subst ndef_by_index_loop.simps)
        (auto simp: msg_at_Cons nr_me_def i(1) add.assoc split: if_splits)
  qed
qed simp

lemma ndef_by_index_loop_neg:
  "msg_at m p rs \<Longrightarrow> i < c \<Longrightarrow> ndef_by_index_loop m c i p = Some None"
proof (induction rs arbitrary: c p)
  case (Cons r rs)
  then have wf: "nr_wf r" and at: "bytes_at m p (nr_enc r)" by (simp_all add: msg_at_Cons)
  show ?case
    using Cons ndef_step_enc [OF wf at]
    by (subst ndef_by_index_loop.simps) (auto simp: msg_at_Cons nr_me_def add.assoc split: if_splits)
qed simp

lemma ndef_last_rec_loop_enc:
  "msg_at m p rs \<Longrightarrow> ndef_last_rec_loop m p = Some (p + rec_off rs (length rs - 1))"
proof (induction rs arbitrary: p)
  case (Cons r rs)
  then have wf: "nr_wf r" and at: "bytes_at m p (nr_enc r)" by (simp_all add: msg_at_Cons)
  show ?case
    using Cons ndef_step_enc [OF wf at]
    by (subst ndef_last_rec_loop.simps)
      (cases rs; auto simp: msg_at_Cons nr_me_def add.assoc split: if_splits)
qed simp

lemma rd_bytes_at: "bytes_at m p bs \<Longrightarrow> n = length bs \<Longrightarrow> rd_bytes m p n = Some bs"
  by (simp add: rd_bytes_Some)

lemma ndef_by_type_loop_enc:
  "msg_at m p rs \<Longrightarrow> ndef_by_type_loop m t ty p =
     Some (map_option (\<lambda>n. p + n) (rec_find (\<lambda>r. nr_tnf r = t \<and> nr_type r = ty) rs))"
proof (induction rs arbitrary: p)
  case (Cons r rs)
  then have wf: "nr_wf r" and at: "bytes_at m p (nr_enc r)" by (simp_all add: msg_at_Cons)
  have hit: "length (nr_type r) = length ty \<Longrightarrow>
      rd_bytes m (p + length (nr_head r)) (length ty) = Some (nr_type r)"
    using nr_enc_type [OF at] by (simp add: rd_bytes_at)
  show ?case
    using Cons ndef_step_enc [OF wf at] nr_wf_lens(1) [OF wf] hit
    by (subst ndef_by_type_loop.simps)
      (auto simp: msg_at_Cons nr_me_def nr_tnf_def option.map_comp comp_def add.assoc split: if_splits)
qed simp

lemma ndef_by_id_loop_enc:
  "msg_at m p rs \<Longrightarrow> ndef_by_id_loop m ident p =
     Some (map_option (\<lambda>n. p + n) (rec_find (\<lambda>r. nr_id r = ident) rs))"
proof (induction rs arbitrary: p)
  case (Cons r rs)
  then have wf: "nr_wf r" and at: "bytes_at m p (nr_enc r)" by (simp_all add: msg_at_Cons)
  have hit: "length (nr_id r) = length ident \<Longrightarrow>
      rd_bytes m (p + length (nr_head r) + length (nr_type r)) (length ident) = Some (nr_id r)"
    using nr_enc_id [OF at] by (simp add: rd_bytes_at)
  have "unat (ucast (of_nat (length (nr_id r)) :: u8) + of_nat (length (nr_pay r)) :: u32) =
      length (nr_id r) + length (nr_pay r)"
    using wf by (simp add: nr_wf_def ucast_of_nat_small unat_of_nat_u32 flip: of_nat_add)
  then have nxt: "p + length (nr_head r) + length (nr_type r) +
      unat (ucast (of_nat (length (nr_id r)) :: u8) + of_nat (length (nr_pay r)) :: u32) =
      p + length (nr_enc r)"
    by (simp add: length_nr_enc)
  show ?case
    using Cons ndef_step_enc(1,2) [OF wf at] nr_wf_lens(1,2) [OF wf] hit nxt
    by (subst ndef_by_id_loop.simps)
      (auto simp: msg_at_Cons nr_me_def option.map_comp comp_def add.assoc split: if_splits)
qed simp

end
