(* ===== verification/NdefValidate.thy ===== *)
theory NdefValidate
  imports NdefRecords
begin

unbundle bit_operations_syntax

text \<open>
  The record decoder as an instance of the byte-format contract, and \<^verbatim>\<open>NDEF_MsgValidate\<close>: it
  never reads outside the message and it accepts exactly the encodings of the record lists that
  satisfy the structural rules \<open>recs_ok\<close>.
\<close>

section \<open>Decoding a record\<close>

definition nr_dec :: "mem \<Rightarrow> nat \<Rightarrow> (ndef_rec \<times> nat) option" where
  "nr_dec m p = do {
     h \<leftarrow> rd8 m p;
     (t, pl, il, q) \<leftarrow> ndef_lens m h (p + 1);
     ty \<leftarrow> rd_bytes m q (unat t);
     ident \<leftarrow> rd_bytes m (q + unat t) (unat il);
     pay \<leftarrow> rd_bytes m (q + unat t + unat il) (unat pl);
     if unat pl + unat t + unat il < 2 ^ 32
     then Some (\<lparr>nr_hdr = h, nr_type = ty, nr_id = ident, nr_pay = pay\<rparr>,
                q + unat t + unat il + unat pl)
     else None }"

lemma ndef_lens_Some:
  assumes "ndef_lens m h p = Some (t, pl, il, q)"
  shows "bytes_at m p (t # (if h AND NDEF_SR_MASK \<noteq> 0 then [ucast pl] else be32_bytes pl) @
      (if h AND NDEF_IL_MASK \<noteq> 0 then [il] else []))"
    and "q = p + 1 + (if h AND NDEF_SR_MASK \<noteq> 0 then 1 else 4) + (if h AND NDEF_IL_MASK \<noteq> 0 then 1 else 0)"
    and "h AND NDEF_SR_MASK \<noteq> 0 \<Longrightarrow> unat pl < 256"
    and "h AND NDEF_IL_MASK = 0 \<Longrightarrow> il = 0"
proof -
  have byte: "(ucast (ucast (b::u8) :: u32) :: u8) = b" for b
    using unat_ucast_drop [of 0 "ucast b :: u32"] unat_byte [of b] by (simp add: word_unat_eq_iff)
  note d = assms[unfolded ndef_lens_def]
  show "bytes_at m p (t # (if h AND NDEF_SR_MASK \<noteq> 0 then [ucast pl] else be32_bytes pl) @
      (if h AND NDEF_IL_MASK \<noteq> 0 then [il] else []))"
    using d by (auto simp: bind_eq_Some_conv rd_be32_Some bytes_at_append byte numeral_eq_Suc
        split: if_splits)
  show "q = p + 1 + (if h AND NDEF_SR_MASK \<noteq> 0 then 1 else 4) + (if h AND NDEF_IL_MASK \<noteq> 0 then 1 else 0)"
    using d by (auto simp: bind_eq_Some_conv split: if_splits)
  show "h AND NDEF_SR_MASK \<noteq> 0 \<Longrightarrow> unat pl < 256"
    using d by (auto simp: bind_eq_Some_conv unat_byte split: if_splits)
  show "h AND NDEF_IL_MASK = 0 \<Longrightarrow> il = 0"
    using d by (auto simp: bind_eq_Some_conv split: if_splits)
qed

lemma nr_dec_enc:
  assumes "nr_wf r" "bytes_at m p (nr_enc r)"
  shows "nr_dec m p = Some (r, p + length (nr_enc r))"
proof -
  have "rd_bytes m (p + length (nr_head r)) (length (nr_type r)) = Some (nr_type r)"
    "rd_bytes m (p + length (nr_head r) + length (nr_type r)) (length (nr_id r)) = Some (nr_id r)"
    "rd_bytes m (p + length (nr_head r) + length (nr_type r) + length (nr_id r))
       (length (nr_pay r)) = Some (nr_pay r)"
    using nr_enc_type [OF assms(2)] nr_enc_id [OF assms(2)] nr_enc_pay [OF assms(2)]
    by (simp_all add: rd_bytes_at)
  then show ?thesis
    using ndef_step_enc(1,2) [OF assms] assms(1)
    by (simp add: nr_dec_def nr_wf_lens length_nr_enc nr_wf_def add.assoc)
qed

lemma nr_enc_dec:
  assumes "nr_dec m p = Some (r, q)"
  shows "nr_wf r \<and> bytes_at m p (nr_enc r) \<and> q = p + length (nr_enc r)"
proof -
  obtain h t pl il q0 where rd: "rd8 m p = Some h" and ls: "ndef_lens m h (p + 1) = Some (t, pl, il, q0)"
    and ty: "rd_bytes m q0 (unat t) = Some (nr_type r)"
    and ident: "rd_bytes m (q0 + unat t) (unat il) = Some (nr_id r)"
    and pay: "rd_bytes m (q0 + unat t + unat il) (unat pl) = Some (nr_pay r)"
    and h: "nr_hdr r = h" and lt: "unat pl + unat t + unat il < 2 ^ 32"
    and q: "q = q0 + unat t + unat il + unat pl"
    using assms by (auto simp: nr_dec_def bind_eq_Some_conv split: if_splits)
  note L = ndef_lens_Some [OF ls]
  have len: "length (nr_type r) = unat t" "length (nr_id r) = unat il" "length (nr_pay r) = unat pl"
    using ty ident pay by (simp_all add: rd_bytes_Some)
  have wf: "nr_wf r"
    using L lt by (auto simp: nr_wf_def len h nr_sr_def nr_il_def unat_byte simp flip: length_0_conv)
  have hd: "nr_head r = h # t # (if h AND NDEF_SR_MASK \<noteq> 0 then [ucast pl] else be32_bytes pl) @
      (if h AND NDEF_IL_MASK \<noteq> 0 then [il] else [])"
    by (simp add: nr_head_def len h nr_sr_def nr_il_def)
  have q0: "q0 = p + length (nr_head r)"
    using L(2) by (simp add: hd)
  have "bytes_at m p (nr_head r)" using L(1) rd by (simp add: hd)
  then have "bytes_at m p (nr_enc r)"
    using ty ident pay by (simp add: nr_enc_def bytes_at_append rd_bytes_Some q0 len add.assoc)
  then show ?thesis using wf by (simp add: q q0 length_nr_enc len)
qed

interpretation ndef_codec: byte_codec nr_enc nr_dec nr_wf
  by unfold_locales (rule nr_dec_enc nr_enc_dec nr_enc_not_Nil; assumption?)+

section \<open>The structural rules\<close>

text \<open>The rules of one record: \<open>allow\<close> admits chunks, \<open>first\<close> is the first record of the
  message, \<open>inch\<close> holds inside a chunked payload.\<close>

definition rec_ok :: "bool \<Rightarrow> bool \<Rightarrow> bool \<Rightarrow> ndef_rec \<Rightarrow> bool" where
  "rec_ok allow first inch r \<longleftrightarrow> nr_wf r \<and> nr_tnf r \<noteq> NDEF_TNF_RESERVED \<and> (nr_mb r \<longrightarrow> first) \<and>
     (nr_cf r \<longrightarrow> allow) \<and>
     (nr_cf r \<and> nr_mb r \<and> nr_type r = [] \<longrightarrow> nr_tnf r = NDEF_TNF_UNKNOWN) \<and>
     (if inch then nr_type r = [] \<and> nr_id r = [] \<and> nr_tnf r = NDEF_TNF_UNCHANGED
      else nr_tnf r \<noteq> NDEF_TNF_UNCHANGED) \<and>
     (nr_tnf r = NDEF_TNF_EMPTY \<longrightarrow> nr_il r \<and> nr_type r = [] \<and> nr_id r = [] \<and> nr_pay r = []) \<and>
     (nr_tnf r = NDEF_TNF_UNKNOWN \<longrightarrow> nr_type r = []) \<and>
     (nr_tnf r = NDEF_TNF_EXT \<longrightarrow> nr_type r \<noteq> []) \<and>
     (nr_tnf r = NDEF_TNF_EXT \<or> nr_tnf r = NDEF_TNF_WKT \<longrightarrow>
        (\<forall>c \<in> set (nr_type r). NDEF_RTD_VALID_START \<le> c \<and> c \<le> NDEF_RTD_VALID_END))"

text \<open>A record list from some point of the message on: the chunk state is the CF bit of the
  record before, and the ME bit ends the list.\<close>

fun recs_ok :: "bool \<Rightarrow> bool \<Rightarrow> bool \<Rightarrow> ndef_rec list \<Rightarrow> bool" where
  "recs_ok allow first inch [] = False"
| "recs_ok allow first inch (r # rs) = (rec_ok allow first inch r \<and>
     (if rs = [] then nr_me r else \<not> nr_me r \<and> recs_ok allow False (nr_cf r) rs))"

definition ndef_msg_ok :: "bool \<Rightarrow> ndef_rec list \<Rightarrow> bool" where
  "ndef_msg_ok allow rs \<longleftrightarrow> recs_ok allow True False rs \<and> nr_mb (hd rs)"

lemma rec_ok_wf: "rec_ok allow first inch r \<Longrightarrow> nr_wf r"
  by (simp add: rec_ok_def)

lemma recs_ok_msg_at: "recs_ok allow first inch rs \<Longrightarrow> me_last rs \<and> list_all nr_wf rs"
  by (induction rs arbitrary: first inch) (auto dest: rec_ok_wf split: if_splits)

section \<open>One record step\<close>

lemma ndef_type_chars_ok:
  "bytes_at m p bs \<Longrightarrow> ndef_type_chars m p (length bs) =
     Some (if \<forall>c \<in> set bs. NDEF_RTD_VALID_START \<le> c \<and> c \<le> NDEF_RTD_VALID_END then Inr ()
           else Inl NDEF_MSG_INVALID_TYPE)"
  by (induction bs arbitrary: p) (simp_all add: not_less linorder_not_le [symmetric])

lemma ndef_type_chars_safe: "p + n \<le> length m \<Longrightarrow> ndef_type_chars m p n \<noteq> None"
  by (induction n arbitrary: p) (auto simp: rd8_in)

text \<open>Validation reads the same fields as the traversal routines.\<close>

lemma validate_lens:
  assumes "ndef_validate_paylen m p_end h (p + 2) = Some (Inr (pl, p1))"
    and "ndef_validate_idlen m p_end h p1 = Some (Inr (il, p2))" and "rd8 m (p + 1) = Some t"
  shows "ndef_lens m h (p + 1) = Some (t, pl, il, p2)"
  using assms
  by (auto simp: ndef_validate_paylen_def ndef_validate_idlen_def ndef_lens_def bind_eq_Some_conv
      numeral_eq_Suc split: if_splits)

lemma validate_bounds_ok:
  "ndef_validate_bounds p_end msg_len pl t il p = Inr p' \<Longrightarrow>
     p' = p + unat pl + unat t + unat il \<and> p' \<le> p_end \<and> unat pl + unat t + unat il < 2 ^ 32"
proof -
  assume a: "ndef_validate_bounds p_end msg_len pl t il p = Inr p'"
  let ?b = "ndef_body_len pl t il"
  have nl: "\<not> ?b < pl" and p': "p' = p + unat ?b" "p' \<le> p_end"
    using a by (auto simp: ndef_validate_bounds_def Let_def split: if_splits)
  have u: "unat ?b = (unat pl + unat t + unat il) mod 2 ^ 32"
    by (simp add: ndef_body_len_def unat_word_ariths mod_add_left_eq)
  have lt: "unat pl < 2 ^ 32" using unsigned_less [of pl, where 'a = nat] by simp
  have "unat pl + unat t + unat il < 2 ^ 32"
  proof (rule ccontr)
    assume "\<not> unat pl + unat t + unat il < 2 ^ 32"
    then have "(unat pl + unat t + unat il) mod 2 ^ 32 = unat pl + unat t + unat il - 2 ^ 32"
      using lt unat_byte [of t] unat_byte [of il] by (simp add: mod_if)
    moreover have "unat pl + unat t + unat il - 2 ^ 32 < unat pl"
      using \<open>\<not> unat pl + unat t + unat il < 2 ^ 32\<close> unat_byte [of t] unat_byte [of il]
      by simp
    ultimately have "unat ?b < unat pl" using u by simp
    then show False using nl by (simp add: word_less_nat_alt)
  qed
  then show ?thesis using p' u by simp
qed

lemma validate_bounds_complete:
  assumes "unat pl + unat t + unat il < 2 ^ 32" "p + unat pl + unat t + unat il \<le> unat msg_len"
  shows "ndef_validate_bounds (unat msg_len) msg_len pl t il p = Inr (p + unat pl + unat t + unat il)"
proof -
  have u: "unat (ndef_body_len pl t il) = unat pl + unat t + unat il"
    using assms(1) by (simp add: ndef_body_len_def unat_word_ariths)
  show ?thesis
    using assms u by (simp add: ndef_validate_bounds_def Let_def word_less_nat_alt)
qed

lemma validate_rec_sound:
  assumes "ndef_validate_rec m p_end msg_len b count ch p = Some (Inr (h, ch', p'))" "p_end \<le> length m"
  shows "\<exists>r. nr_dec m p = Some (r, p') \<and> rec_ok b (count = 0) ch r \<and> nr_hdr r = h \<and> ch' = nr_cf r \<and> p' \<le> p_end"
  using assms(1)
proof (rule ndef_validate_rec_InrE)
  fix t pl il p1 p2
  assume rd: "rd8 m p = Some h" "rd8 m (p + 1) = Some t"
    and tnf: "h AND NDEF_TNF_MASK \<noteq> NDEF_TNF_MASK" and mb: "\<not> (count > 0 \<and> h AND NDEF_MB_MASK \<noteq> 0)"
    and cf: "\<not> (h AND NDEF_CF_MASK \<noteq> 0 \<and> h AND NDEF_MB_MASK \<noteq> 0 \<and> t = 0 \<and>
        h AND NDEF_TNF_MASK \<noteq> NDEF_TNF_UNKNOWN)"
    and pay: "ndef_validate_paylen m p_end h (p + 2) = Some (Inr (pl, p1))"
    and idl: "ndef_validate_idlen m p_end h p1 = Some (Inr (il, p2))"
    and chunk: "ndef_validate_chunk b h ch t il = Inr ch'"
    and vt: "ndef_validate_tnf h t il pl = Inr ()"
    and ty: "ndef_validate_type m p_end h t p2 = Some (Inr ())"
    and bd: "ndef_validate_bounds p_end msg_len pl t il p2 = Inr p'"
  note ls = validate_lens [OF pay idl rd(2)]
  note B = validate_bounds_ok [OF bd]
  define r where "r = \<lparr>nr_hdr = h, nr_type = take (unat t) (drop p2 m),
    nr_id = take (unat il) (drop (p2 + unat t) m),
    nr_pay = take (unat pl) (drop (p2 + unat t + unat il) m)\<rparr>"
  have dec: "nr_dec m p = Some (r, p')"
    using rd ls B assms(2) by (simp add: nr_dec_def rd_bytes_in r_def)
  have sel: "nr_hdr r = h" by (simp add: r_def)
  have len: "length (nr_type r) = unat t" "length (nr_id r) = unat il" "length (nr_pay r) = unat pl"
    using B assms(2) by (auto simp: r_def min_def)
  have nil: "nr_type r = [] \<longleftrightarrow> t = 0" "nr_id r = [] \<longleftrightarrow> il = 0" "nr_pay r = [] \<longleftrightarrow> pl = 0"
    using len by (simp_all add: unat_eq_0 flip: length_0_conv)
  have at: "bytes_at m p2 (nr_type r)"
    using rd_bytes_in [of p2 "unat t" m] B assms(2) by (simp add: rd_bytes_Some r_def)
  have chars: "nr_tnf r = NDEF_TNF_EXT \<or> nr_tnf r = NDEF_TNF_WKT \<longrightarrow>
        (\<forall>c \<in> set (nr_type r). NDEF_RTD_VALID_START \<le> c \<and> c \<le> NDEF_RTD_VALID_END)"
    using ty ndef_type_chars_ok [OF at] by (simp add: ndef_validate_type_def nr_tnf_def sel len split: if_splits)
  have ch': "ch' = nr_cf r" using chunk by (simp add: ndef_validate_chunk_def nr_cf_def sel split: if_splits)
  have il0: "nr_tnf r = NDEF_TNF_EMPTY \<longrightarrow> nr_il r"
    using idl by (simp add: ndef_validate_idlen_def nr_il_def nr_tnf_def sel split: if_splits)
  have tn: "nr_tnf r = h AND NDEF_TNF_MASK" by (simp add: nr_tnf_def sel)
  have cfr: "nr_cf r \<longleftrightarrow> h AND NDEF_CF_MASK \<noteq> 0" "nr_mb r \<longleftrightarrow> h AND NDEF_MB_MASK \<noteq> 0"
    by (simp_all add: nr_cf_def nr_mb_def sel)
  have ck: "(nr_cf r \<longrightarrow> b) \<and> (if ch then nr_type r = [] \<and> nr_id r = [] \<and> nr_tnf r = NDEF_TNF_UNCHANGED
      else nr_tnf r \<noteq> NDEF_TNF_UNCHANGED)"
    using chunk by (simp add: ndef_validate_chunk_def cfr nil tn split: if_splits)
  have vt': "(nr_tnf r = NDEF_TNF_EMPTY \<longrightarrow> nr_type r = [] \<and> nr_id r = [] \<and> nr_pay r = []) \<and>
     (nr_tnf r = NDEF_TNF_UNKNOWN \<longrightarrow> nr_type r = []) \<and> (nr_tnf r = NDEF_TNF_EXT \<longrightarrow> nr_type r \<noteq> [])"
    using vt by (simp add: ndef_validate_tnf_def nil tn split: if_splits)
  have hd: "nr_tnf r \<noteq> NDEF_TNF_RESERVED" "nr_mb r \<longrightarrow> count = 0"
    "nr_cf r \<and> nr_mb r \<and> nr_type r = [] \<longrightarrow> nr_tnf r = NDEF_TNF_UNKNOWN"
    using tnf mb cf by (auto simp: cfr tn nil)
  have "rec_ok b (count = 0) ch r"
    unfolding rec_ok_def using nr_enc_dec [OF dec] hd ck vt' chars il0 by blast
  then show ?thesis using dec ch' sel B by blast
qed

lemma validate_paylen_enc:
  assumes "nr_wf r" "bytes_at m p (nr_enc r)" "p + length (nr_enc r) \<le> p_end"
  shows "ndef_validate_paylen m p_end (nr_hdr r) (p + 2) =
    Some (Inr (of_nat (length (nr_pay r)), p + (if nr_sr r then 3 else 6)))"
proof -
  have sr: "nr_sr r \<Longrightarrow> (ucast (of_nat (length (nr_pay r)) :: u8) :: u32) = of_nat (length (nr_pay r))"
    using assms(1) by (intro ucast_of_nat_small) (simp add: nr_wf_def)
  have "\<not> nr_sr r \<Longrightarrow> p + 6 \<le> p_end"
    using assms(3) by (simp add: length_nr_enc length_nr_head)
  then show ?thesis
    using sr nr_enc_paylen_sr [OF assms(2)] nr_enc_paylen_lr [OF assms(2)]
    by (cases "nr_sr r") (simp_all add: ndef_validate_paylen_def nr_sr_def numeral_eq_Suc)
qed

lemma validate_idlen_enc:
  assumes "nr_wf r" "bytes_at m p (nr_enc r)" "p + length (nr_enc r) \<le> p_end"
    and "nr_tnf r = NDEF_TNF_EMPTY \<longrightarrow> nr_il r"
  shows "ndef_validate_idlen m p_end (nr_hdr r) (p + (if nr_sr r then 3 else 6)) =
    Some (Inr (of_nat (length (nr_id r)), p + length (nr_head r)))"
proof -
  have il: "\<not> nr_il r \<Longrightarrow> nr_id r = []" using assms(1) by (simp add: nr_wf_def)
  have "nr_il r \<Longrightarrow> p + (if nr_sr r then 3 else 6) + 1 \<le> p_end"
    using assms(3) by (simp add: length_nr_enc length_nr_head split: if_splits)
  then show ?thesis
    using il nr_enc_idlen [OF assms(2)] assms(4)
    by (cases "nr_il r") (simp_all add: ndef_validate_idlen_def nr_il_def nr_tnf_def length_nr_head)
qed
 
lemma rec_okD:
  assumes "rec_ok b first ch r"
  shows "nr_tnf r \<noteq> NDEF_TNF_RESERVED" "nr_mb r \<Longrightarrow> first" "nr_cf r \<Longrightarrow> b"
    "nr_cf r \<Longrightarrow> nr_mb r \<Longrightarrow> nr_type r = [] \<Longrightarrow> nr_tnf r = NDEF_TNF_UNKNOWN"
    "ch \<Longrightarrow> nr_type r = [] \<and> nr_id r = [] \<and> nr_tnf r = NDEF_TNF_UNCHANGED"
    "\<not> ch \<Longrightarrow> nr_tnf r \<noteq> NDEF_TNF_UNCHANGED"
    "nr_tnf r = NDEF_TNF_EMPTY \<Longrightarrow> nr_il r \<and> nr_type r = [] \<and> nr_id r = [] \<and> nr_pay r = []"
    "nr_tnf r = NDEF_TNF_UNKNOWN \<Longrightarrow> nr_type r = []" "nr_tnf r = NDEF_TNF_EXT \<Longrightarrow> nr_type r \<noteq> []"
    "nr_tnf r = NDEF_TNF_EXT \<or> nr_tnf r = NDEF_TNF_WKT \<Longrightarrow>
       \<forall>c \<in> set (nr_type r). NDEF_RTD_VALID_START \<le> c \<and> c \<le> NDEF_RTD_VALID_END"
  using assms unfolding rec_ok_def by metis+

lemma validate_rec_complete:
  assumes ok: "rec_ok b (count = 0) ch r" and at: "bytes_at m p (nr_enc r)"
    and le: "p + length (nr_enc r) \<le> unat msg_len"
  shows "ndef_validate_rec m (unat msg_len) msg_len b count ch p =
    Some (Inr (nr_hdr r, nr_cf r, p + length (nr_enc r)))"
proof -
  let ?t = "of_nat (length (nr_type r)) :: u8" and ?i = "of_nat (length (nr_id r)) :: u8"
    and ?l = "of_nat (length (nr_pay r)) :: u32"
  have wf: "nr_wf r" using ok by (rule rec_ok_wf)
  note L = nr_wf_lens(1-3) [OF wf]
  have nil: "?t = 0 \<longleftrightarrow> nr_type r = []" "?i = 0 \<longleftrightarrow> nr_id r = []" "?l = 0 \<longleftrightarrow> nr_pay r = []"
    using L by (simp_all flip: unat_eq_0 length_0_conv)
  have rd: "rd8 m p = Some (nr_hdr r)" "rd8 m (p + 1) = Some ?t"
    using nr_enc_hdr [OF at] nr_enc_typelen [OF at] by simp_all
  have p3: "p + 3 \<le> unat msg_len" using le nr_enc_min [of r] by simp
  have il: "nr_tnf r = NDEF_TNF_EMPTY \<longrightarrow> nr_il r" using rec_okD(7) [OF ok] by blast
  have tn: "nr_hdr r AND NDEF_TNF_MASK = nr_tnf r" "nr_hdr r AND NDEF_CF_MASK \<noteq> 0 \<longleftrightarrow> nr_cf r"
    "nr_hdr r AND NDEF_MB_MASK \<noteq> 0 \<longleftrightarrow> nr_mb r" by (simp_all add: nr_flag_defs)
  have chunk: "ndef_validate_chunk b (nr_hdr r) ch ?t ?i = Inr (nr_cf r)"
    unfolding ndef_validate_chunk_def tn nil using rec_okD(3,5,6) [OF ok] by simp
  have tnf: "ndef_validate_tnf (nr_hdr r) ?t ?i ?l = Inr ()"
    unfolding ndef_validate_tnf_def tn nil using rec_okD(7,8,9) [OF ok] by simp
  have ty: "ndef_validate_type m (unat msg_len) (nr_hdr r) ?t (p + length (nr_head r)) = Some (Inr ())"
    unfolding ndef_validate_type_def tn
    using rec_okD(10) [OF ok] le ndef_type_chars_ok [OF nr_enc_type [OF at]] L
    by (simp add: length_nr_enc)
  have bd: "ndef_validate_bounds (unat msg_len) msg_len ?l ?t ?i (p + length (nr_head r)) =
      Inr (p + length (nr_enc r))"
    using wf le validate_bounds_complete [of ?l ?t ?i "p + length (nr_head r)" msg_len]
    by (simp add: L nr_wf_def length_nr_enc add.commute add.left_commute)
  have g: "\<not> (nr_hdr r AND NDEF_TNF_MASK = NDEF_TNF_MASK)" "\<not> (count > 0 \<and> nr_hdr r AND NDEF_MB_MASK \<noteq> 0)"
    "\<not> (nr_hdr r AND NDEF_CF_MASK \<noteq> 0 \<and> nr_hdr r AND NDEF_MB_MASK \<noteq> 0 \<and> ?t = 0 \<and>
         nr_hdr r AND NDEF_TNF_MASK \<noteq> NDEF_TNF_UNKNOWN)"
    unfolding tn nil using rec_okD(1,2,4) [OF ok] by blast+
  show ?thesis
    using p3 g by (simp only: linorder_not_less [symmetric] ndef_validate_rec_def rd rget_simps rbind_simps if_False
        validate_paylen_enc [OF wf at le] validate_idlen_enc [OF wf at le il] prod.case
        chunk tnf ty bd simp_thms if_False)
qed

section \<open>The record loop\<close>

lemma validate_loop_sound:
  assumes "unat msg_len \<le> length m"
  shows "ndef_validate_loop m (unat msg_len) msg_len b count ch p = Some (Inr (h, p')) \<Longrightarrow>
    h AND NDEF_ME_MASK \<noteq> 0 \<Longrightarrow>
    \<exists>rs. recs_ok b (count = 0) ch rs \<and> bytes_at m p (msg_enc rs) \<and> p' = p + length (msg_enc rs)
      \<and> p' \<le> unat msg_len"
proof (induction "unat msg_len - p" arbitrary: count ch p rule: less_induct)
  case less
  have lt: "p < unat msg_len"
    using less.prems by (subst (asm) ndef_validate_loop.simps) (auto split: if_splits)
  obtain h0 ch0 p0 where v: "ndef_validate_rec m (unat msg_len) msg_len b count ch p = Some (Inr (h0, ch0, p0))"
    and rest: "(if h0 AND NDEF_ME_MASK \<noteq> 0 then Some (Inr (h0, p0))
       else ndef_validate_loop m (unat msg_len) msg_len b (count + 1) ch0 p0) = Some (Inr (h, p'))"
    using less.prems(1) lt by (subst (asm) ndef_validate_loop.simps) (auto split: option.splits sum.splits)
  obtain r where r: "nr_dec m p = Some (r, p0)" "rec_ok b (count = 0) ch r" "nr_hdr r = h0" "ch0 = nr_cf r"
    "p0 \<le> unat msg_len"
    using validate_rec_sound [OF v assms] by blast
  note enc = nr_enc_dec [OF r(1)]
  show ?case
  proof (cases "h0 AND NDEF_ME_MASK \<noteq> 0")
    case True
    then have "recs_ok b (count = 0) ch [r] \<and> bytes_at m p (msg_enc [r]) \<and> p' = p + length (msg_enc [r])
        \<and> p' \<le> unat msg_len"
      using rest r enc by (simp add: nr_me_def)
    then show ?thesis by blast
  next
    case False
    have "unat msg_len - p0 < unat msg_len - p"
      using lt enc nr_enc_min [of r] by simp
    then obtain rs where rs: "recs_ok b (count + 1 = 0) ch0 rs" "bytes_at m p0 (msg_enc rs)"
      "p' = p0 + length (msg_enc rs)" "p' \<le> unat msg_len"
      using less.hyps [of p0 "count + 1" ch0] rest False less.prems(2) by auto
    then have "recs_ok b (count = 0) ch (r # rs) \<and> bytes_at m p (msg_enc (r # rs)) \<and>
        p' = p + length (msg_enc (r # rs)) \<and> p' \<le> unat msg_len"
      using r enc False by (cases rs) (auto simp: nr_me_def bytes_at_append)
    then show ?thesis by blast
  qed
qed

lemma validate_loop_complete:
  "recs_ok b (count = 0) ch rs \<Longrightarrow> bytes_at m p (msg_enc rs) \<Longrightarrow>
     p + length (msg_enc rs) \<le> unat msg_len \<Longrightarrow>
     ndef_validate_loop m (unat msg_len) msg_len b count ch p =
       Some (Inr (nr_hdr (last rs), p + length (msg_enc rs)))"
proof (induction rs arbitrary: count ch p)
  case (Cons r rs)
  have ok: "rec_ok b (count = 0) ch r" and at: "bytes_at m p (nr_enc r)"
    and le: "p + length (nr_enc r) \<le> unat msg_len"
    using Cons.prems by (simp_all add: bytes_at_append)
  have lt: "p < unat msg_len" using le nr_enc_min [of r] by simp
  note v = validate_rec_complete [OF ok at le]
  show ?case
  proof (cases "rs = []")
    case True
    then show ?thesis
      using Cons.prems(1) lt v by (subst ndef_validate_loop.simps) (simp add: nr_me_def)
  next
    case False
    then have "ndef_validate_loop m (unat msg_len) msg_len b (count + 1) (nr_cf r) (p + length (nr_enc r)) =
        Some (Inr (nr_hdr (last rs), p + length (nr_enc r) + length (msg_enc rs)))"
      using Cons.prems by (intro Cons.IH) (simp_all add: bytes_at_append add.assoc)
    then show ?thesis
      using Cons.prems(1) lt v False by (subst ndef_validate_loop.simps) (simp add: nr_me_def add.assoc)
  qed
qed simp

lemma validate_rec_safe:
  assumes "p_end \<le> length m"
  shows "ndef_validate_rec m p_end msg_len b count ch p \<noteq> None"
proof -
  have 1: "p + 3 \<le> p_end \<Longrightarrow> \<exists>y. ndef_validate_paylen m p_end h (Suc (Suc p)) = Some y" for h p
    using assms by (simp add: ndef_validate_paylen_def rd_be32_def rd8_in)
  have 2: "\<exists>y. ndef_validate_idlen m p_end h p = Some y" for h p
    using assms by (simp add: ndef_validate_idlen_def rd8_in)
  have 3: "\<exists>y. ndef_validate_type m p_end h t p = Some y" for h t p
    using assms ndef_type_chars_safe [of p "unat t" m] by (simp add: ndef_validate_type_def)
  have "\<exists>y. ndef_validate_rec m p_end msg_len b count ch p = Some y"
    unfolding ndef_validate_rec_def using assms
    by (auto intro!: rbind_ex 1 2 3 simp: rd8_in)
  then show ?thesis by simp
qed

lemma validate_loop_safe:
  "p_end \<le> length m \<Longrightarrow> ndef_validate_loop m p_end msg_len b count ch p \<noteq> None"
proof (induction m p_end msg_len b count ch p rule: ndef_validate_loop.induct)
  case (1 m p_end msg_len b count ch p)
  then show ?case
    using validate_rec_safe [OF 1(2), of msg_len b count ch p]
    by (subst ndef_validate_loop.simps) (auto split: option.splits sum.splits)
qed

section \<open>Validation is exact and safe\<close>

lemma msg_at_take:
  assumes "msg_enc rs = take n m"
  shows "bytes_at m 0 (msg_enc rs)"
  using assms bytes_at_prefix [of "[]" "take n m" "drop n m"] by simp

text \<open>No error status is \<^verbatim>\<open>NDEF_OK\<close>.\<close>

lemma type_chars_not_ok: "ndef_type_chars m p n \<noteq> Some (Inl NDEF_OK)"
  by (induction n arbitrary: p) (auto simp: bind_eq_Some_conv)

lemma validate_parts_not_ok:
  "ndef_validate_paylen m e h p \<noteq> Some (Inl NDEF_OK)" "ndef_validate_idlen m e h p \<noteq> Some (Inl NDEF_OK)"
  "ndef_validate_chunk b h c t i \<noteq> Inl NDEF_OK" "ndef_validate_tnf h t i l \<noteq> Inl NDEF_OK"
  "ndef_validate_type m e h t p \<noteq> Some (Inl NDEF_OK)" "ndef_validate_bounds e ml l t i p \<noteq> Inl NDEF_OK"
  by (auto simp: ndef_validate_paylen_def ndef_validate_idlen_def ndef_validate_chunk_def type_chars_not_ok
      ndef_validate_tnf_def ndef_validate_type_def ndef_validate_bounds_def Let_def bind_eq_Some_conv)

lemma validate_rec_not_ok: "ndef_validate_rec m e ml b c ch p \<noteq> Some (Inl NDEF_OK)"
  by (auto simp: ndef_validate_rec_def rbind_Inl validate_parts_not_ok split: if_splits)

lemma validate_loop_not_ok: "ndef_validate_loop m e ml b c ch p \<noteq> Some (Inl NDEF_OK)"
proof (induction m e ml b c ch p rule: ndef_validate_loop.induct)
  case (1 m e ml b c ch p)
  then show ?case
    using validate_rec_not_ok [of m e ml b c ch p]
    by (subst ndef_validate_loop.simps) (auto split: option.splits sum.splits)
qed

lemma validate_ok_records:
  assumes "unat len \<le> length m" and "NDEF_MsgValidate (Some m) len b = Some NDEF_OK"
  shows "\<exists>rs. ndef_msg_ok b rs \<and> msg_enc rs = take (unat len) m"
proof -
  obtain b0 x where b0: "rd8 m 0 = Some b0" "b0 AND NDEF_MB_MASK \<noteq> 0"
    and x: "ndef_validate_loop m (unat len) len b 0 False 0 = Some x"
      "(case x of Inl e \<Rightarrow> Some e | Inr (h, p) \<Rightarrow> if h AND NDEF_ME_MASK = 0 then Some NDEF_MSG_NO_MSG_END
          else if p \<noteq> unat len then Some NDEF_MSG_LENGTH_MISMATCH else Some NDEF_OK) = Some NDEF_OK"
    using assms(2) by (auto simp: NDEF_MsgValidate_def bind_eq_Some_conv split: if_split_asm)
  obtain h p where loop: "ndef_validate_loop m (unat len) len b 0 False 0 = Some (Inr (h, p))"
    and h: "h AND NDEF_ME_MASK \<noteq> 0" and p: "p = unat len"
    using x validate_loop_not_ok [of m "unat len" len b 0 False 0]
    by (cases x) (auto split: if_split_asm)
  obtain rs where rs: "recs_ok b True False rs" "bytes_at m 0 (msg_enc rs)" "p = length (msg_enc rs)"
    using validate_loop_sound [OF assms(1) loop h] by auto
  then obtain r rs' where c: "rs = r # rs'" by (cases rs) auto
  have "nr_hdr r = b0"
    using rs(2) b0(1) nr_enc_hdr [of m 0 r] by (simp add: c bytes_at_append)
  then have "ndef_msg_ok b rs" using rs(1) b0(2) by (simp add: ndef_msg_ok_def c nr_mb_def)
  moreover have "msg_enc rs = take (unat len) m"
    using rs(2,3) p by (auto simp: bytes_at_iff_take c)
  ultimately show ?thesis by blast
qed

lemma records_validate_ok:
  assumes "ndef_msg_ok b rs" and "msg_enc rs = take (unat len) m" and "unat len \<le> length m"
  shows "NDEF_MsgValidate (Some m) len b = Some NDEF_OK"
proof -
  have ok: "recs_ok b True False rs" and mb: "nr_mb (hd rs)" using assms(1) by (simp_all add: ndef_msg_ok_def)
  then obtain r rs' where c: "rs = r # rs'" by (cases rs) auto
  have at: "bytes_at m 0 (msg_enc rs)" by (rule msg_at_take [OF assms(2)])
  have len: "length (msg_enc rs) = unat len" using assms(2,3) by simp
  have l3: "\<not> len < 3" using len nr_enc_min [of r] by (simp add: c word_less_nat_alt)
  have rd: "rd8 m 0 = Some (nr_hdr r)" using at nr_enc_hdr [of m 0 r] by (simp add: c bytes_at_append)
  have first: "nr_hdr r AND NDEF_MB_MASK \<noteq> 0" "nr_hdr r AND NDEF_TNF_MASK \<noteq> NDEF_TNF_UNCHANGED"
    using mb ok rec_okD(6) [of b True False r] by (simp_all add: c nr_mb_def nr_tnf_def)
  have loop: "ndef_validate_loop m (unat len) len b 0 False 0 = Some (Inr (nr_hdr (last rs), unat len))"
    using validate_loop_complete [of b 0 False rs m 0 len] ok at len by simp
  have "me_last rs \<Longrightarrow> nr_me (last rs)" for rs by (induction rs) (auto split: if_splits)
  then have "nr_hdr (last rs) AND NDEF_ME_MASK \<noteq> 0"
    using recs_ok_msg_at [OF ok] by (simp add: nr_me_def)
  then show ?thesis
    using l3 rd first loop by (simp add: NDEF_MsgValidate_def)
qed

text \<open>C17. \<^verbatim>\<open>NDEF_MsgValidate\<close> accepts a message exactly when its bytes are the encoding of a list of
  well-formed records that obey the structural rules (begin and end flags, chunk state, TNF rules,
  type characters, lengths), and that record list is unique.\<close>

theorem NDEF_MsgValidate_iff:
  assumes "unat len \<le> length m"
  shows "NDEF_MsgValidate (Some m) len b = Some NDEF_OK \<longleftrightarrow>
    (\<exists>!rs. ndef_msg_ok b rs \<and> msg_enc rs = take (unat len) m)"
proof -
  have "rs = rs'" if "ndef_msg_ok b rs \<and> msg_enc rs = take (unat len) m"
    "ndef_msg_ok b rs' \<and> msg_enc rs' = take (unat len) m" for rs rs'
    using that ndef_codec.enc_list_unique [of rs rs'] recs_ok_msg_at
    by (simp add: ndef_msg_ok_def msg_enc_def) blast
  then show ?thesis
    using validate_ok_records [OF assms] records_validate_ok [OF _ _ assms] by blast
qed

theorem NDEF_MsgValidate_iff_witness:
  "unat (6 :: u32) \<le> length ([0xD1, 1, 2, 0x54, 0x61, 0x62] :: mem) \<and>
   (\<exists>!rs. ndef_msg_ok False rs \<and> msg_enc rs = take (unat (6 :: u32)) [0xD1, 1, 2, 0x54, 0x61, 0x62])"
proof -
  have h: "unat (6 :: u32) \<le> length ([0xD1, 1, 2, 0x54, 0x61, 0x62] :: mem)" by simp
  have "NDEF_MsgValidate (Some [0xD1, 1, 2, 0x54, 0x61, 0x62]) 6 False = Some NDEF_OK" by code_simp
  then show ?thesis using NDEF_MsgValidate_iff [OF h, of False] h by blast
qed

text \<open>C18. For any bytes at all, \<^verbatim>\<open>NDEF_MsgValidate\<close> reads only the \<^verbatim>\<open>msg_len\<close> bytes it was given and
  returns a status: neither malformed lengths nor 32-bit overflow make it leave the message.\<close>

theorem NDEF_MsgValidate_safe:
  assumes "unat len \<le> length m"
  shows "\<exists>st. NDEF_MsgValidate (Some m) len b = Some st"
proof -
  obtain r where r: "ndef_validate_loop m (unat len) len b 0 False 0 = Some r"
    using validate_loop_safe [OF assms] by fast
  have "\<not> len < 3 \<Longrightarrow> rd8 m 0 = Some (m ! 0)"
    using assms by (intro rd8_in) (auto simp: word_less_nat_alt)
  then show ?thesis
    using r by (auto simp: NDEF_MsgValidate_def split: sum.split)
qed

theorem NDEF_MsgValidate_safe_witness:
  "unat (6 :: u32) \<le> length ([0xD1, 1, 2, 0x54, 0x61, 0x62] :: mem) \<and>
   (\<exists>st. NDEF_MsgValidate (Some [0xD1, 1, 2, 0x54, 0x61, 0x62]) 6 False = Some st)"
  using NDEF_MsgValidate_safe [of 6 "[0xD1, 1, 2, 0x54, 0x61, 0x62]" False] by simp

end
