(* ===== verification/NdefTraverse.thy ===== *)
theory NdefTraverse
  imports NdefValidate
begin

unbundle bit_operations_syntax

text \<open>
  The traversal, search and field-access routines of \<^verbatim>\<open>ndef_utils.cc\<close> on messages that
  \<^verbatim>\<open>NDEF_MsgValidate\<close> accepted: they compute the corresponding operations on the record list and
  never read outside the message.
\<close>

section \<open>Traversal of a validated message\<close>

lemma rec_off_Suc: "i < length rs \<Longrightarrow> rec_off rs (Suc i) = rec_off rs i + length (nr_enc (rs ! i))"
  by (simp add: rec_off_def take_Suc_conv_app_nth)

lemma msg_at_drop:
  "msg_at m p rs \<Longrightarrow> i < length rs \<Longrightarrow> msg_at m (p + rec_off rs i) (drop i rs)"
proof (induction rs arbitrary: p i)
  case (Cons r rs)
  then show ?case
    by (cases i) (auto simp: msg_at_Cons simp flip: add.assoc split: if_splits)
qed simp

lemma msg_at_nth:
  assumes "msg_at m p rs" "i < length rs"
  shows "nr_wf (rs ! i)" "bytes_at m (p + rec_off rs i) (nr_enc (rs ! i))"
    "nr_me (rs ! i) \<longleftrightarrow> Suc i = length rs"
proof -
  have "drop i rs = rs ! i # drop (Suc i) rs" using assms(2) by (simp add: Cons_nth_drop_Suc)
  then have "msg_at m (p + rec_off rs i) (rs ! i # drop (Suc i) rs)"
    using msg_at_drop [OF assms] by simp
  then show "nr_wf (rs ! i)" "bytes_at m (p + rec_off rs i) (nr_enc (rs ! i))"
    "nr_me (rs ! i) \<longleftrightarrow> Suc i = length rs"
    using assms(2) by (auto simp: msg_at_Cons split: if_splits)
qed

lemma GetNextRec_enc:
  assumes "nr_wf r" "bytes_at m p (nr_enc r)"
  shows "NDEF_MsgGetNextRec m p = Some (if nr_me r then None else Some (p + length (nr_enc r)))"
  using ndef_step_enc [OF assms] by (simp add: NDEF_MsgGetNextRec_def nr_me_def add.assoc)

lemma GetRecLength_enc:
  assumes "nr_wf r" "bytes_at m p (nr_enc r)"
  shows "NDEF_MsgGetRecLength m p = Some (of_nat (length (nr_enc r)))"
proof -
  have "ndef_body_len (of_nat (length (nr_pay r))) (of_nat (length (nr_type r))) (of_nat (length (nr_id r)))
      = of_nat (length (nr_pay r) + length (nr_type r) + length (nr_id r))"
    using nr_wf_lens(4) [OF assms(1)] by (metis unat_of_nat_u32 nr_wf_def assms(1) word_unat_eq_iff)
  then show ?thesis
    using ndef_step_enc(1,2) [OF assms]
    by (simp add: NDEF_MsgGetRecLength_def length_nr_enc length_nr_head nr_sr_def nr_il_def)
qed

lemma validated_msg_at:
  assumes "unat len \<le> length m" "NDEF_MsgValidate (Some m) len b = Some NDEF_OK"
  shows "\<exists>rs. ndef_msg_ok b rs \<and> msg_enc rs = take (unat len) m \<and> msg_at m 0 rs"
proof -
  obtain rs where "ndef_msg_ok b rs" "msg_enc rs = take (unat len) m"
    using validate_ok_records [OF assms] by blast
  then show ?thesis
    using msg_at_take [of rs "unat len" m] recs_ok_msg_at [of b True False rs]
    by (auto simp: msg_at_def ndef_msg_ok_def)
qed

text \<open>A message of two records, used to exercise the theorems below.\<close>

definition ndef_sample :: mem where
  "ndef_sample = [0x91, 1, 1, 0x54, 0x61, 0x51, 1, 1, 0x55, 0x62]"

lemma ndef_sample_valid: "NDEF_MsgValidate (Some ndef_sample) 10 False = Some NDEF_OK"
  by code_simp

lemma ndef_sample_length: "unat (10 :: u32) \<le> length ndef_sample"
  by (simp add: ndef_sample_def)

text \<open>C26. On a validated message with records \<open>rs\<close>, the traversal routines stay inside the message and
  return the record count, the offset of the last record, the offset of the record of any index
  (null for a negative or too large index), the length of each record and the offset of the next one
  (null after the last).\<close>

theorem ndef_traversal_ok:
  assumes "unat len \<le> length m" and "NDEF_MsgValidate (Some m) len b = Some NDEF_OK"
  shows "\<exists>rs. msg_enc rs = take (unat len) m \<and> ndef_msg_ok b rs \<and>
    NDEF_MsgGetNumRecs m = Some (length rs) \<and>
    NDEF_MsgGetLastRecInMsg m = Some (rec_off rs (length rs - 1)) \<and>
    (\<forall>i. NDEF_MsgGetRecByIndex m i =
       Some (if 0 \<le> i \<and> nat i < length rs then Some (rec_off rs (nat i)) else None)) \<and>
    (\<forall>i < length rs. NDEF_MsgGetRecLength m (rec_off rs i) = Some (of_nat (length (nr_enc (rs ! i)))) \<and>
       NDEF_MsgGetNextRec m (rec_off rs i) =
         Some (if Suc i < length rs then Some (rec_off rs (Suc i)) else None))"
proof -
  obtain rs where rs: "ndef_msg_ok b rs" "msg_enc rs = take (unat len) m" and at: "msg_at m 0 rs"
    using validated_msg_at [OF assms] by blast
  have "NDEF_MsgGetNumRecs m = Some (length rs)"
    using ndef_num_recs_loop_enc [OF at] by (simp add: NDEF_MsgGetNumRecs_def)
  moreover have "NDEF_MsgGetLastRecInMsg m = Some (rec_off rs (length rs - 1))"
    using ndef_last_rec_loop_enc [OF at] by (simp add: NDEF_MsgGetLastRecInMsg_def)
  moreover have "NDEF_MsgGetRecByIndex m i =
       Some (if 0 \<le> i \<and> nat i < length rs then Some (rec_off rs (nat i)) else None)" for i
    using ndef_by_index_loop_enc [OF at, of 0 i] ndef_by_index_loop_neg [OF at, of i 0]
    by (cases "0 \<le> i") (auto simp: NDEF_MsgGetRecByIndex_def)
  moreover have "NDEF_MsgGetRecLength m (rec_off rs i) = Some (of_nat (length (nr_enc (rs ! i)))) \<and>
       NDEF_MsgGetNextRec m (rec_off rs i) =
         Some (if Suc i < length rs then Some (rec_off rs (Suc i)) else None)" if "i < length rs" for i
    using msg_at_nth [OF at that] GetRecLength_enc GetNextRec_enc that
    by (auto simp: rec_off_Suc)
  ultimately show ?thesis using rs by blast
qed

theorem ndef_traversal_ok_witness:
  "unat (10 :: u32) \<le> length ndef_sample \<and> NDEF_MsgValidate (Some ndef_sample) 10 False = Some NDEF_OK \<and>
   (\<exists>rs. msg_enc rs = take (unat (10 :: u32)) ndef_sample \<and> NDEF_MsgGetNumRecs ndef_sample = Some (length rs))"
  using ndef_traversal_ok [OF ndef_sample_length ndef_sample_valid] ndef_sample_length ndef_sample_valid
  by blast

text \<open>C27. On a validated message, the searches by type (TNF and type bytes) and by ID, from the start or
  from behind a given record, return the offset of the first matching record and null if there is
  none, without leaving the message.\<close>

theorem ndef_search_ok:
  assumes "unat len \<le> length m" and "NDEF_MsgValidate (Some m) len b = Some NDEF_OK"
  shows "\<exists>rs. msg_enc rs = take (unat len) m \<and> ndef_msg_ok b rs \<and>
    (\<forall>t ty. NDEF_MsgGetFirstRecByType m t ty = Some (rec_find (\<lambda>r. nr_tnf r = t \<and> nr_type r = ty) rs)) \<and>
    (\<forall>ident. NDEF_MsgGetFirstRecById m ident = Some (rec_find (\<lambda>r. nr_id r = ident) rs)) \<and>
    (\<forall>i t ty. i < length rs \<longrightarrow> NDEF_MsgGetNextRecByType m (rec_off rs i) t ty =
       Some (map_option (\<lambda>n. rec_off rs (Suc i) + n)
         (rec_find (\<lambda>r. nr_tnf r = t \<and> nr_type r = ty) (drop (Suc i) rs)))) \<and>
    (\<forall>i ident. i < length rs \<longrightarrow> NDEF_MsgGetNextRecById m (rec_off rs i) ident =
       Some (map_option (\<lambda>n. rec_off rs (Suc i) + n)
         (rec_find (\<lambda>r. nr_id r = ident) (drop (Suc i) rs))))"
proof -
  obtain rs where rs: "ndef_msg_ok b rs" "msg_enc rs = take (unat len) m" and at: "msg_at m 0 rs"
    using validated_msg_at [OF assms] by blast
  have nxt: "NDEF_MsgGetNextRec m (rec_off rs i) = Some (if Suc i < length rs then Some (rec_off rs (Suc i)) else None)"
    if "i < length rs" for i
    using msg_at_nth [OF at that] GetNextRec_enc that by (auto simp: rec_off_Suc)
  have rest: "msg_at m (rec_off rs (Suc i)) (drop (Suc i) rs)" if "Suc i < length rs" for i
    using msg_at_drop [OF at that] by simp
  have "NDEF_MsgGetNextRecByType m (rec_off rs i) t ty = Some (map_option (\<lambda>n. rec_off rs (Suc i) + n)
         (rec_find (\<lambda>r. nr_tnf r = t \<and> nr_type r = ty) (drop (Suc i) rs)))" if "i < length rs" for i t ty
    using nxt [OF that] ndef_by_type_loop_enc [OF rest] by (auto simp: NDEF_MsgGetNextRecByType_def)
  moreover have "NDEF_MsgGetNextRecById m (rec_off rs i) ident = Some (map_option (\<lambda>n. rec_off rs (Suc i) + n)
         (rec_find (\<lambda>r. nr_id r = ident) (drop (Suc i) rs)))" if "i < length rs" for i ident
    using nxt [OF that] ndef_by_id_loop_enc [OF rest] by (auto simp: NDEF_MsgGetNextRecById_def)
  moreover have "NDEF_MsgGetFirstRecByType m t ty = Some (rec_find (\<lambda>r. nr_tnf r = t \<and> nr_type r = ty) rs)" for t ty
    using ndef_by_type_loop_enc [OF at] by (simp add: NDEF_MsgGetFirstRecByType_def option.map_ident)
  moreover have "NDEF_MsgGetFirstRecById m ident = Some (rec_find (\<lambda>r. nr_id r = ident) rs)" for ident
    using ndef_by_id_loop_enc [OF at] by (simp add: NDEF_MsgGetFirstRecById_def option.map_ident)
  ultimately show ?thesis using rs by blast
qed

theorem ndef_search_ok_witness:
  "unat (10 :: u32) \<le> length ndef_sample \<and> NDEF_MsgValidate (Some ndef_sample) 10 False = Some NDEF_OK \<and>
   (\<exists>rs. msg_enc rs = take (unat (10 :: u32)) ndef_sample \<and>
      NDEF_MsgGetFirstRecByType ndef_sample 1 [0x55] =
        Some (rec_find (\<lambda>r. nr_tnf r = 1 \<and> nr_type r = [0x55]) rs))"
  using ndef_search_ok [OF ndef_sample_length ndef_sample_valid] ndef_sample_length ndef_sample_valid
  by blast

text \<open>\<open>field_at m q bs\<close>: the returned pointer \<open>q\<close> is null for an empty field and points at its bytes
  otherwise.\<close>
definition field_at :: "mem \<Rightarrow> nat option \<Rightarrow> u8 list \<Rightarrow> bool" where
  "field_at m q bs \<longleftrightarrow> (case q of None \<Rightarrow> bs = [] | Some p \<Rightarrow> bs \<noteq> [] \<and> bytes_at m p bs)"

lemma RecGetType_enc:
  assumes "nr_wf r" "bytes_at m p (nr_enc r)"
  shows "NDEF_RecGetType m p = Some (if nr_type r = [] then None else Some (p + length (nr_head r)),
    nr_tnf r, of_nat (length (nr_type r)))"
proof -
  have "(of_nat (length (nr_type r)) :: u8) = 0 \<longleftrightarrow> nr_type r = []"
    using nr_wf_lens(1) [OF assms(1)] by (simp flip: unat_eq_0 length_0_conv)
  then show ?thesis
    using nr_enc_hdr [OF assms(2)] nr_enc_typelen [OF assms(2)]
    by (simp add: NDEF_RecGetType_def length_nr_head nr_flag_defs)
qed

lemma RecGetId_enc:
  assumes "nr_wf r" "bytes_at m p (nr_enc r)"
  shows "NDEF_RecGetId m p = Some (if nr_id r = [] then None
      else Some (p + length (nr_head r) + length (nr_type r)), of_nat (length (nr_id r)))"
proof -
  have nil: "(of_nat (length (nr_id r)) :: u8) = 0 \<longleftrightarrow> nr_id r = []"
    using nr_wf_lens(2) [OF assms(1)] by (simp flip: unat_eq_0 length_0_conv)
  have il: "\<not> nr_il r \<Longrightarrow> nr_id r = []" using assms(1) by (simp add: nr_wf_def)
  show ?thesis
    using nr_enc_hdr [OF assms(2)] nr_enc_typelen [OF assms(2)] nr_enc_idlen [OF assms(2)] nil il nr_wf_lens(1) [OF assms(1)]
    by (cases "nr_il r"; cases "nr_sr r") (simp_all add: NDEF_RecGetId_def length_nr_head nr_sr_def nr_il_def)
qed

lemma RecGetPayload_enc:
  assumes "nr_wf r" "bytes_at m p (nr_enc r)"
  shows "NDEF_RecGetPayload m p = Some (if nr_pay r = [] then None
      else Some (p + length (nr_head r) + length (nr_type r) + length (nr_id r)), of_nat (length (nr_pay r)))"
proof -
  have nil: "(of_nat (length (nr_pay r)) :: u32) = 0 \<longleftrightarrow> nr_pay r = []"
    using nr_wf_lens(3) [OF assms(1)] by (simp flip: unat_eq_0 length_0_conv)
  show ?thesis
    using ndef_step_enc(1,2) [OF assms] nil nr_wf_lens(1,2) [OF assms(1)]
    by (simp add: NDEF_RecGetPayload_def)
qed

text \<open>On a validated message, \<^verbatim>\<open>NDEF_RecGetType\<close>, \<^verbatim>\<open>NDEF_RecGetId\<close> and \<^verbatim>\<open>NDEF_RecGetPayload\<close> return the
  TNF, the exact field lengths and a pointer to the field's bytes (null for an empty field) of every
  record.\<close>

theorem ndef_fields_ok:
  assumes "unat len \<le> length m" and "NDEF_MsgValidate (Some m) len b = Some NDEF_OK"
  shows "\<exists>rs. msg_enc rs = take (unat len) m \<and> ndef_msg_ok b rs \<and>
    (\<forall>i < length rs. \<exists>pt pi pp.
       NDEF_RecGetType m (rec_off rs i) = Some (pt, nr_tnf (rs ! i), of_nat (length (nr_type (rs ! i)))) \<and>
       NDEF_RecGetId m (rec_off rs i) = Some (pi, of_nat (length (nr_id (rs ! i)))) \<and>
       NDEF_RecGetPayload m (rec_off rs i) = Some (pp, of_nat (length (nr_pay (rs ! i)))) \<and>
       field_at m pt (nr_type (rs ! i)) \<and> field_at m pi (nr_id (rs ! i)) \<and> field_at m pp (nr_pay (rs ! i)))"
proof -
  obtain rs where rs: "ndef_msg_ok b rs" "msg_enc rs = take (unat len) m" and at: "msg_at m 0 rs"
    using validated_msg_at [OF assms] by blast
  have "\<exists>pt pi pp.
       NDEF_RecGetType m (rec_off rs i) = Some (pt, nr_tnf (rs ! i), of_nat (length (nr_type (rs ! i)))) \<and>
       NDEF_RecGetId m (rec_off rs i) = Some (pi, of_nat (length (nr_id (rs ! i)))) \<and>
       NDEF_RecGetPayload m (rec_off rs i) = Some (pp, of_nat (length (nr_pay (rs ! i)))) \<and>
       field_at m pt (nr_type (rs ! i)) \<and> field_at m pi (nr_id (rs ! i)) \<and> field_at m pp (nr_pay (rs ! i))"
    if i: "i < length rs" for i
  proof -
    have w: "nr_wf (rs ! i)" "bytes_at m (rec_off rs i) (nr_enc (rs ! i))"
      using msg_at_nth [OF at i] by simp_all
    show ?thesis
      using nr_enc_type [OF w(2)] nr_enc_id [OF w(2)] nr_enc_pay [OF w(2)]
      by (simp add: RecGetType_enc [OF w] RecGetId_enc [OF w] RecGetPayload_enc [OF w] field_at_def)
  qed
  then show ?thesis using rs by blast
qed

theorem ndef_fields_ok_witness:
  "unat (10 :: u32) \<le> length ndef_sample \<and> NDEF_MsgValidate (Some ndef_sample) 10 False = Some NDEF_OK \<and>
   (\<exists>rs. msg_enc rs = take (unat (10 :: u32)) ndef_sample \<and> (\<forall>i < length rs. \<exists>pp.
      NDEF_RecGetPayload ndef_sample (rec_off rs i) = Some (pp, of_nat (length (nr_pay (rs ! i)))) \<and>
      field_at ndef_sample pp (nr_pay (rs ! i))))"
  using ndef_fields_ok [OF ndef_sample_length ndef_sample_valid] ndef_sample_length ndef_sample_valid
  by blast

end
