(* ===== verification/NdefEdit.thy ===== *)
theory NdefEdit
  imports NdefTraverse
begin

unbundle bit_operations_syntax

text \<open>
  The routines of \<^verbatim>\<open>ndef_utils.cc\<close> that build and edit messages in place. Each theorem says that
  the bytes the routine leaves behind are the encoding of the edited record list, that the reported
  size is its length and that nothing outside the buffer is touched.
\<close>

section \<open>Moving memory\<close>

lemma shiftdown_nth:
  "p + len + s \<le> length m \<Longrightarrow> \<exists>m'. shiftdown m p len s = Some m' \<and> length m' = length m \<and>
     (\<forall>i < length m. m' ! i = (if p + s \<le> i \<and> i < p + s + len then m ! (i - s) else m ! i))"
proof (induction len arbitrary: m)
  case (Suc len)
  let ?m = "m[p + len + s := m ! (p + len)]"
  have w: "wr8 m (p + len + s) (m ! (p + len)) = Some ?m" "rd8 m (p + len) = Some (m ! (p + len))"
    using Suc.prems by (simp_all add: wr8_in rd8_in)
  obtain m' where m': "shiftdown ?m p len s = Some m'" "length m' = length m"
    "\<And>i. i < length m \<Longrightarrow> m' ! i = (if p + s \<le> i \<and> i < p + s + len then ?m ! (i - s) else ?m ! i)"
    using Suc.IH [of ?m] Suc.prems by auto
  have "m' ! i = (if p + s \<le> i \<and> i < p + s + Suc len then m ! (i - s) else m ! i)" if "i < length m" for i
  proof (cases "i = p + len + s")
    case True
    then show ?thesis using m'(3) [OF that] that by simp
  next
    case False
    then show ?thesis using m'(3) [OF that] that Suc.prems by (auto simp: nth_list_update)
  qed
  then show ?case using m' w by auto
qed auto

lemma shiftup_nth:
  "d \<le> s \<Longrightarrow> s + len \<le> length m \<Longrightarrow> \<exists>m'. shiftup m d s len = Some m' \<and> length m' = length m \<and>
     (\<forall>i < length m. m' ! i = (if d \<le> i \<and> i < d + len then m ! (i - d + s) else m ! i))"
proof (induction len arbitrary: m d s)
  case (Suc len)
  let ?m = "m[d := m ! s]"
  have w: "wr8 m d (m ! s) = Some ?m" "rd8 m s = Some (m ! s)"
    using Suc.prems by (simp_all add: wr8_in rd8_in)
  obtain m' where m': "shiftup ?m (Suc d) (Suc s) len = Some m'" "length m' = length m"
    "\<And>i. i < length m \<Longrightarrow> m' ! i = (if Suc d \<le> i \<and> i < Suc d + len then ?m ! (i - Suc d + Suc s) else ?m ! i)"
    using Suc.IH [of "Suc d" "Suc s" ?m] Suc.prems by auto
  have "m' ! i = (if d \<le> i \<and> i < d + Suc len then m ! (i - d + s) else m ! i)" if i: "i < length m" for i
  proof (cases "i = d")
    case True
    then show ?thesis using m'(3) [OF i] i by simp
  next
    case False
    have "Suc d \<le> i \<Longrightarrow> i - Suc d + Suc s = i - d + s \<and> i - d + s \<noteq> d" using Suc.prems(1) by auto
    then show ?thesis using m'(3) [OF i] i False by (auto simp: nth_list_update)
  qed
  then show ?case using m' w by auto
qed auto

text \<open>The moved bytes and the bytes that stay, for both directions.\<close>

lemma shiftdown_ex: "p + len + s \<le> length m \<Longrightarrow> \<exists>m'. shiftdown m p len s = Some m' \<and> length m' = length m"
  using shiftdown_nth by blast

lemma shiftdown_moved:
  assumes "shiftdown m p len s = Some m'" "p + len + s \<le> length m"
    "bytes_at m q bs" "p \<le> q" "q + length bs \<le> p + len"
  shows "bytes_at m' (q + s) bs"
  using shiftdown_nth [OF assms(2)] assms
  by (auto simp: bytes_at_iff_nth)

lemma shiftdown_frame:
  assumes "shiftdown m p len s = Some m'" "p + len + s \<le> length m"
    "bytes_at m q bs" "q + length bs \<le> p + s \<or> p + len + s \<le> q"
  shows "bytes_at m' q bs"
  using shiftdown_nth [OF assms(2)] assms
  by (auto simp: bytes_at_iff_nth)

lemma shiftup_ex: "d \<le> s \<Longrightarrow> s + len \<le> length m \<Longrightarrow> \<exists>m'. shiftup m d s len = Some m' \<and> length m' = length m"
  using shiftup_nth by blast

lemma shiftup_moved:
  assumes "shiftup m d s len = Some m'" "d \<le> s" "s + len \<le> length m"
    "bytes_at m q bs" "s \<le> q" "q + length bs \<le> s + len"
  shows "bytes_at m' (q - s + d) bs"
  using shiftup_nth [OF assms(2,3)] assms
  by (auto simp: bytes_at_iff_nth)

lemma shiftup_frame:
  assumes "shiftup m d s len = Some m'" "d \<le> s" "s + len \<le> length m"
    "bytes_at m q bs" "q + length bs \<le> d \<or> d + len \<le> q"
  shows "bytes_at m' q bs"
  using shiftup_nth [OF assms(2,3)] assms
  by (auto simp: bytes_at_iff_nth)

section \<open>Overwriting, inserting and deleting\<close>

lemma wr_over:
  assumes "bytes_at m 0 (P @ xs @ S)" "p = length P" "length xs = length new"
  shows "\<exists>m'. wr_bytes m p new = Some m' \<and> length m' = length m \<and> bytes_at m' 0 (P @ new @ S)"
proof (cases "new = []")
  case False
  have le: "length P + length new \<le> length m"
    using bytes_at_length [of m 0 "P @ xs @ S"] assms(1,3) False by (cases xs) auto
  then obtain m' where m': "wr_bytes m p new = Some m'" using wr_bytes_ex assms(2) by blast
  have b: "bytes_at m 0 P" "bytes_at m (length P + length new) S"
    using assms by (auto simp: bytes_at_append)
  have "bytes_at m' 0 P" "bytes_at m' (length P + length new) S"
    using wr_bytes_frame [OF m' b(1)] wr_bytes_frame [OF m' b(2)] assms(2) by simp_all
  then show ?thesis
    using m' wr_bytes_length [OF m'] wr_bytes_at [OF m'] assms(2) by (auto simp: bytes_at_append)
qed (use assms in simp)

lemma wr8_over:
  assumes "bytes_at m 0 (P @ x # S)" "p = length P"
  shows "\<exists>m'. wr8 m p b = Some m' \<and> length m' = length m \<and> bytes_at m' 0 (P @ b # S)"
proof -
  have "p < length m" using assms bytes_at_length [of m 0 "P @ x # S"] by auto
  then show ?thesis using wr_over [of m P "[x]" S p "[b]"] assms by (simp add: wr8_is_wr_bytes)
qed

lemma rd8_mid: "bytes_at m 0 (P @ x # S) \<Longrightarrow> p = length P \<Longrightarrow> rd8 m p = Some x"
  by (simp add: bytes_at_append)

lemma shiftdown_insert:
  assumes "bytes_at m 0 (P @ S)" "p = length P" "n = length S" "length P + length S + s \<le> length m"
  shows "\<exists>m' G. shiftdown m p n s = Some m' \<and> length m' = length m \<and> length G = s \<and> bytes_at m' 0 (P @ G @ S)"
proof -
  have le: "p + n + s \<le> length m" using assms by simp
  obtain m' where m': "shiftdown m p n s = Some m'" "length m' = length m"
    using shiftdown_ex [OF le] by blast
  have b: "bytes_at m 0 P" "bytes_at m (length P) S" using assms(1) by (simp_all add: bytes_at_append)
  have 1: "bytes_at m' 0 P" "bytes_at m' (length P + s) S"
    using shiftdown_frame [OF m'(1) le b(1)] shiftdown_moved [OF m'(1) le b(2)] assms by simp_all
  have "bytes_at m' (length P) (take s (drop (length P) m'))"
    using rd_bytes_in [of "length P" s m'] le m'(2) assms(2) by (simp add: rd_bytes_Some)
  moreover obtain G where G: "G = take s (drop (length P) m')" by simp
  moreover have lG: "length G = s" unfolding G using le m'(2) assms(2) by simp
  ultimately have "bytes_at m' 0 (P @ G @ S)" using 1 by (simp add: bytes_at_append)
  then show ?thesis using m' lG by blast
qed

lemma shiftup_delete:
  assumes "bytes_at m 0 (P @ G @ S)" "d = length P" "s = length P + length G" "n = length S"
  shows "\<exists>m'. shiftup m d s n = Some m' \<and> length m' = length m \<and> bytes_at m' 0 (P @ S)"
proof (cases "S = []")
  case False
  have le: "d \<le> s" "s + n \<le> length m"
    using assms bytes_at_length [of m 0 "P @ G @ S"] False by auto
  obtain m' where m': "shiftup m d s n = Some m'" "length m' = length m"
    using shiftup_ex [OF le] by blast
  have b: "bytes_at m 0 P" "bytes_at m s S" using assms(1,3) by (simp_all add: bytes_at_append)
  have "bytes_at m' 0 P" "bytes_at m' d S"
    using shiftup_frame [OF m'(1) le b(1)] shiftup_moved [OF m'(1) le b(2)] assms by simp_all
  then show ?thesis using m' assms(2) by (auto simp: bytes_at_append)
qed (use assms in \<open>simp add: bytes_at_append\<close>)

lemma unat_sub_of_nat: "p \<le> unat (c :: u32) \<Longrightarrow> unat (c - of_nat p) = unat c - p"
proof -
  assume a: "p \<le> unat c"
  have "unat c < 2 ^ 32" using unsigned_less [of c, where 'a = nat] by simp
  then have "unat (of_nat p :: u32) = p" using a by (intro unat_of_nat_u32) simp
  then show ?thesis using a unat_sub [of "of_nat p" c] by (simp add: word_le_nat_alt)
qed

section \<open>Adding a record\<close>

definition nr_new :: "bool \<Rightarrow> u8 \<Rightarrow> u8 list \<Rightarrow> u8 list \<Rightarrow> u8 list \<Rightarrow> ndef_rec" where
  "nr_new first tnf ty ident pay = \<lparr>nr_hdr = tnf OR (if first then NDEF_MB_MASK OR NDEF_ME_MASK else NDEF_ME_MASK)
      OR (if length pay < 256 then NDEF_SR_MASK else 0) OR (if ident \<noteq> [] then NDEF_IL_MASK else 0),
    nr_type = ty, nr_id = ident, nr_pay = pay\<rparr>"

definition nr_clear_me :: "ndef_rec \<Rightarrow> ndef_rec" where
  "nr_clear_me r = r\<lparr>nr_hdr := nr_hdr r AND NOT NDEF_ME_MASK\<rparr>"

definition rs_add :: "ndef_rec list \<Rightarrow> u8 \<Rightarrow> u8 list \<Rightarrow> u8 list \<Rightarrow> u8 list \<Rightarrow> ndef_rec list" where
  "rs_add rs tnf ty ident pay = (if rs = [] then [] else butlast rs @ [nr_clear_me (last rs)])
     @ [nr_new (rs = []) tnf ty ident pay]"

lemma tnf_cases: "(t :: u8) \<le> 7 \<Longrightarrow> t = 0 \<or> t = 1 \<or> t = 2 \<or> t = 3 \<or> t = 4 \<or> t = 5 \<or> t = 6 \<or> t = 7"
proof -
  assume "t \<le> 7"
  then have "unat t \<le> 7" by (simp add: word_le_nat_alt)
  then have "unat t = 0 \<or> unat t = 1 \<or> unat t = 2 \<or> unat t = 3 \<or> unat t = 4 \<or> unat t = 5 \<or> unat t = 6 \<or> unat t = 7"
    by linarith
  then show ?thesis by (simp add: word_unat_eq_iff)
qed

lemma nr_new_flags:
  assumes "t \<le> NDEF_TNF_RESERVED"
  shows "nr_sr (nr_new f t ty i pay) \<longleftrightarrow> length pay < 256" "nr_il (nr_new f t ty i pay) \<longleftrightarrow> i \<noteq> []"
    "nr_me (nr_new f t ty i pay)" "nr_mb (nr_new f t ty i pay) \<longleftrightarrow> f" "\<not> nr_cf (nr_new f t ty i pay)"
    "nr_tnf (nr_new f t ty i pay) = t"
  using tnf_cases [OF assms] by (auto simp: nr_flag_defs nr_new_def)

lemma nr_clear_me_flags:
  "nr_sr (nr_clear_me r) = nr_sr r" "nr_il (nr_clear_me r) = nr_il r" "\<not> nr_me (nr_clear_me r)"
  "nr_mb (nr_clear_me r) = nr_mb r" "nr_cf (nr_clear_me r) = nr_cf r" "nr_tnf (nr_clear_me r) = nr_tnf r"
  "nr_type (nr_clear_me r) = nr_type r" "nr_id (nr_clear_me r) = nr_id r" "nr_pay (nr_clear_me r) = nr_pay r"
  by (simp_all add: nr_flag_defs nr_clear_me_def and.assoc)


text \<open>Extending the written prefix of a buffer.\<close>

definition srcp_has :: "srcp \<Rightarrow> u8 list \<Rightarrow> bool" where
  "srcp_has src bs \<longleftrightarrow> (if bs = [] then True else case src of None \<Rightarrow> False | Some (sm, sp) \<Rightarrow> bytes_at sm sp bs)"

lemma copy_in_has: "srcp_has src bs \<Longrightarrow> ndef_copy_in m p src (length bs) = wr_bytes m p bs"
  by (cases "bs = []") (auto simp: srcp_has_def ndef_copy_in_def rd_bytes_at wr_bytes_def split: option.splits)

lemma copy_opt_has: "srcp_has src bs \<Longrightarrow> ndef_copy_opt m p src (length bs) = wr_bytes m p bs"
  using copy_in_has [of src bs m p]
  by (auto simp: ndef_copy_opt_def srcp_has_def wr_bytes_def split: option.splits if_splits)

lemma set_bits_last:
  assumes "bytes_at m 0 (X @ [h])" "p = length X"
  shows "\<exists>m'. ndef_set_bits m p k = Some m' \<and> length m' = length m \<and> bytes_at m' 0 (X @ [h OR k])"
proof -
  have "rd8 m p = Some h" "bytes_at m 0 X" using assms by (simp_all add: bytes_at_append)
  then show ?thesis
    using wr8_snoc [of m X p "h OR k"] assms(2) by (auto simp: ndef_set_bits_def rd8_Some rd8_in)
qed

lemma clear_bits_at:
  assumes "bytes_at m p (h # bs)"
  shows "\<exists>m'. ndef_clear_bits m p k = Some m' \<and> length m' = length m \<and> bytes_at m' p ((h AND NOT k) # bs) \<and>
    (\<forall>q cs. bytes_at m q cs \<and> (p < q \<or> q + length cs \<le> p) \<longrightarrow> bytes_at m' q cs)"
proof -
  have rd: "rd8 m p = Some h" using assms by simp
  then have "p < length m" by (simp add: rd8_Some)
  then obtain m' where m': "wr8 m p (h AND NOT k) = Some m'" using wr8_ex by blast
  then show ?thesis
    using rd wr8_length [OF m'] wr8_at [OF m'] wr8_frame [OF m'] assms
    by (auto simp: ndef_clear_bits_def)
qed

lemma nr_head_clear_me: "nr_head (nr_clear_me r) = (nr_hdr r AND NOT NDEF_ME_MASK) # tl (nr_head r)"
  by (simp add: nr_head_def nr_clear_me_flags) (simp add: nr_clear_me_def)

lemma nr_enc_clear_me: "nr_enc (nr_clear_me r) = (nr_hdr r AND NOT NDEF_ME_MASK) # tl (nr_enc r)"
  by (simp add: nr_enc_def nr_head_clear_me nr_clear_me_flags) (simp add: nr_head_def)

lemma nr_enc_hd: "nr_enc r = nr_hdr r # tl (nr_enc r)"
  by (simp add: nr_enc_def nr_head_def)

lemma length_nr_enc_clear_me [simp]: "length (nr_enc (nr_clear_me r)) = length (nr_enc r)"
  by (subst nr_enc_hd [of r]) (simp add: nr_enc_clear_me)

lemma rec_off_last: "rs \<noteq> [] \<Longrightarrow> rec_off rs (length rs - 1) = length (msg_enc (butlast rs))"
  by (simp add: rec_off_def butlast_conv_take)

lemma nr_new_sel [simp]: "nr_type (nr_new f t ty i pay) = ty" "nr_id (nr_new f t ty i pay) = i"
  "nr_pay (nr_new f t ty i pay) = pay" "nr_hdr (nr_new f t ty i pay) =
     t OR (if f then NDEF_MB_MASK OR NDEF_ME_MASK else NDEF_ME_MASK)
      OR (if length pay < 256 then NDEF_SR_MASK else 0) OR (if i \<noteq> [] then NDEF_IL_MASK else 0)"
  by (simp_all add: nr_new_def)

text \<open>The header of the new record, written behind the old message.\<close>

lemma add_rec_header:
  assumes rs: "rs = [] \<or> msg_at m 0 rs" and len: "length (msg_enc rs) < length m"
    and cur: "unat cur = length (msg_enc rs)"
  shows "\<exists>m1. (if cur = 0 then wr8 m (unat cur) (t OR NDEF_MB_MASK OR NDEF_ME_MASK)
      else do { pLast \<leftarrow> NDEF_MsgGetLastRecInMsg m; m' \<leftarrow> ndef_clear_bits m pLast NDEF_ME_MASK;
                wr8 m' (unat cur) (t OR NDEF_ME_MASK) }) = Some m1 \<and> length m1 = length m \<and>
    bytes_at m1 0 (msg_enc (if rs = [] then [] else butlast rs @ [nr_clear_me (last rs)])
      @ [t OR (if rs = [] then NDEF_MB_MASK OR NDEF_ME_MASK else NDEF_ME_MASK)])"
proof (cases "rs = []")
  case True
  then show ?thesis
    using wr8_snoc [of m "[]" 0] len cur by (simp add: unat_eq_0)
next
  case False
  have split: "msg_enc rs = msg_enc (butlast rs) @ nr_enc (last rs)"
    using False by (metis append_butlast_last_id msg_enc_simps append_Nil2)
  have at: "msg_at m 0 rs" using rs False by simp
  have last: "NDEF_MsgGetLastRecInMsg m = Some (length (msg_enc (butlast rs)))"
    using ndef_last_rec_loop_enc [OF at] rec_off_last [OF False] by (simp add: NDEF_MsgGetLastRecInMsg_def)
  have b: "bytes_at m 0 (msg_enc (butlast rs))" "bytes_at m (length (msg_enc (butlast rs))) (nr_enc (last rs))"
    using at by (simp_all add: msg_at_def split bytes_at_append)
  obtain m' where m': "ndef_clear_bits m (length (msg_enc (butlast rs))) NDEF_ME_MASK = Some m'"
    "length m' = length m" "bytes_at m' (length (msg_enc (butlast rs))) (nr_enc (nr_clear_me (last rs)))"
    "bytes_at m' 0 (msg_enc (butlast rs))"
    using clear_bits_at [of m "length (msg_enc (butlast rs))" "nr_hdr (last rs)" "tl (nr_enc (last rs))" NDEF_ME_MASK]
      b nr_enc_hd [of "last rs"] by (auto simp: nr_enc_clear_me)
  then have "bytes_at m' 0 (msg_enc (butlast rs @ [nr_clear_me (last rs)]))"
    by (simp add: bytes_at_append)
  from wr8_snoc [OF this, of "unat cur" "t OR NDEF_ME_MASK"] show ?thesis
    using False m' last cur len split nr_enc_min [of "last rs"]
    by (auto simp: unat_eq_0 [symmetric] simp del: unat_eq_0)
qed

lemma add_header_ok:
  assumes rs: "rs = [] \<or> msg_at m 0 rs" and len: "length (msg_enc rs) < length m"
    and cur: "unat cur = length (msg_enc rs)"
  defines "P \<equiv> msg_enc (if rs = [] then [] else butlast rs @ [nr_clear_me (last rs)])"
  assumes lenP: "length P = length (msg_enc rs)"
  shows "\<exists>m3. ndef_add_header m cur t (if length pay < 256 then 1 else 4) (if ident = [] then 0 else 1) = Some m3
    \<and> length m3 = length m \<and> bytes_at m3 0 (P @ [nr_hdr (nr_new (rs = []) t ty ident pay)])"
proof -
  let ?h = "t OR (if rs = [] then NDEF_MB_MASK OR NDEF_ME_MASK else NDEF_ME_MASK)"
  let ?h2 = "?h OR (if length pay < 256 then NDEF_SR_MASK else 0)"
  obtain m1 where m1: "(if cur = 0 then wr8 m (unat cur) (t OR NDEF_MB_MASK OR NDEF_ME_MASK)
      else do { pLast \<leftarrow> NDEF_MsgGetLastRecInMsg m; m' \<leftarrow> ndef_clear_bits m pLast NDEF_ME_MASK;
                wr8 m' (unat cur) (t OR NDEF_ME_MASK) }) = Some m1" "length m1 = length m"
    "bytes_at m1 0 (P @ [?h])"
    using add_rec_header [OF rs len cur, of t] unfolding P_def by blast
  obtain m2 where m2: "(if length pay < 256 then ndef_set_bits m1 (unat cur) NDEF_SR_MASK else Some m1) = Some m2"
    "length m2 = length m" "bytes_at m2 0 (P @ [?h2])"
    using set_bits_last [OF m1(3), of "unat cur" NDEF_SR_MASK] cur lenP m1(2,3)
    by (cases "length pay < 256") (auto simp: or.assoc)
  obtain m3 where m3: "(if ident = [] then Some m2 else ndef_set_bits m2 (unat cur) NDEF_IL_MASK) = Some m3"
    "length m3 = length m" "bytes_at m3 0 (P @ [nr_hdr (nr_new (rs = []) t ty ident pay)])"
    using set_bits_last [OF m2(3), of "unat cur" NDEF_IL_MASK] cur lenP m2(2,3)
    by (cases "ident = []") (auto simp: or.assoc)
  have "ndef_add_header m cur t (if length pay < 256 then 1 else 4) (if ident = [] then 0 else 1) = Some m3"
    unfolding ndef_add_header_def Let_def m1(1) using m2(1) m3(1) by (auto split: if_splits)
  then show ?thesis using m3 by blast
qed

text \<open>The record behind its header byte: type length, payload length, ID length, type, ID, payload.\<close>

lemma add_rec_body:
  assumes at: "bytes_at m3 0 (P @ [nr_hdr r])" and n: "n = length P"
    and wf: "nr_wf r" and fit: "length P + length (nr_enc r) \<le> length m3"
    and sr: "nr_sr r \<longleftrightarrow> length (nr_pay r) < 256" and il: "nr_il r \<longleftrightarrow> nr_id r \<noteq> []"
    and src: "srcp_has p_type (nr_type r)" "srcp_has p_id (nr_id r)" "srcp_has p_pay (nr_pay r)"
  shows "\<exists>m9. ndef_add_fields m3 n (if length (nr_pay r) < 256 then 1 else 4)
       (if nr_id r = [] then 0 else 1) p_type (of_nat (length (nr_type r)))
       p_id (of_nat (length (nr_id r))) p_pay (of_nat (length (nr_pay r))) = Some m9
     \<and> length m9 = length m3 \<and> bytes_at m9 0 (P @ nr_enc r)"
proof -
  let ?L = "if nr_sr r then [of_nat (length (nr_pay r))] else be32_bytes (of_nat (length (nr_pay r)))"
  let ?I = "if nr_il r then [of_nat (length (nr_id r)) :: u8] else []"
  have enc: "nr_enc r = [nr_hdr r, of_nat (length (nr_type r))] @ ?L @ ?I @ nr_type r @ nr_id r @ nr_pay r"
    by (simp add: nr_enc_def nr_head_def)
  have fit': "length P + (2 + length ?L + length ?I + length (nr_type r) + length (nr_id r) + length (nr_pay r)) \<le> length m3"
    using fit by (cases "nr_sr r"; cases "nr_il r") (simp_all add: enc)
  obtain m4 where m4: "wr8 m3 (n + 1) (of_nat (length (nr_type r))) = Some m4" "length m4 = length m3"
    "bytes_at m4 0 (P @ [nr_hdr r, of_nat (length (nr_type r))])"
    using wr8_snoc [OF at, of "n + 1" "of_nat (length (nr_type r))"] n fit' by auto
  obtain m5 where m5: "(if nr_sr r then wr8 m4 (n + 2) (of_nat (length (nr_pay r)))
      else wr_be32 m4 (n + 2) (of_nat (length (nr_pay r)))) = Some m5" "length m5 = length m3"
    "bytes_at m5 0 (P @ [nr_hdr r, of_nat (length (nr_type r))] @ ?L)"
    using wr_snoc [OF m4(3), of "n + 2" ?L] n fit' m4(2)
    by (cases "nr_sr r") (auto simp: wr_be32_def wr8_is_wr_bytes)
  define p1 where "p1 = (if nr_sr r then n + 3 else n + 6)"
  obtain m6 where m6: "(if nr_il r then wr8 m5 p1 (of_nat (length (nr_id r))) else Some m5) = Some m6"
    "length m6 = length m3" "bytes_at m6 0 (P @ [nr_hdr r, of_nat (length (nr_type r))] @ ?L @ ?I)"
    using wr_snoc [OF m5(3), of p1 ?I] n fit' m5(2)
    by (cases "nr_il r"; cases "nr_sr r") (auto simp: wr8_is_wr_bytes p1_def wr_bytes_def)
  define p2 where "p2 = (if nr_il r then p1 + 1 else p1)"
  let ?H = "P @ [nr_hdr r, of_nat (length (nr_type r))] @ ?L @ ?I"
  have p2: "p2 = length ?H" by (simp add: p2_def p1_def n)
  have fit2: "length ?H + length (nr_type r) + length (nr_id r) + length (nr_pay r) \<le> length m3"
    using fit' by simp
  obtain m7 where m7: "wr_bytes m6 p2 (nr_type r) = Some m7" "length m7 = length m3"
    "bytes_at m7 0 (?H @ nr_type r)"
    using wr_snoc [OF m6(3) p2, of "nr_type r"] fit2 m6(2) by auto
  obtain m8 where m8: "wr_bytes m7 (p2 + length (nr_type r)) (nr_id r) = Some m8" "length m8 = length m3"
    "bytes_at m8 0 ((?H @ nr_type r) @ nr_id r)"
    using wr_snoc [OF m7(3), of "p2 + length (nr_type r)" "nr_id r"] fit2 m7(2) p2 by auto
  obtain m9 where m9: "wr_bytes m8 (p2 + length (nr_type r) + length (nr_id r)) (nr_pay r) = Some m9"
    "length m9 = length m3" "bytes_at m9 0 (P @ nr_enc r)"
    using wr_snoc [OF m8(3), of "p2 + length (nr_type r) + length (nr_id r)" "nr_pay r"] fit2 m8(2) p2
    by (auto simp: enc)
  note u = nr_wf_lens(1-3) [OF wf]
  have z: "(of_nat (length (nr_type r)) :: u8) = 0 \<longleftrightarrow> nr_type r = []"
    "(of_nat (length (nr_id r)) :: u8) = 0 \<longleftrightarrow> nr_id r = []"
    using u by (simp_all flip: unat_eq_0 length_0_conv)
  have "ndef_add_fields m3 n (if length (nr_pay r) < 256 then 1 else 4)
       (if nr_id r = [] then 0 else 1) p_type (of_nat (length (nr_type r)))
       p_id (of_nat (length (nr_id r))) p_pay (of_nat (length (nr_pay r))) = Some m9"
    using m4(1) m5(1) m6(1) m7(1) m8(1) m9(1) sr il
    by (cases "nr_sr r"; cases "nr_il r")
      (auto simp: ndef_add_fields_def p1_def p2_def u z ucast_of_nat_u32_u8 add.assoc
        copy_opt_has [OF src(1)] copy_opt_has [OF src(2)] copy_opt_has [OF src(3)])
  then show ?thesis using m9 by blast
qed


lemma me_last_snoc: "me_last (xs @ [x]) \<longleftrightarrow> (\<forall>y \<in> set xs. \<not> nr_me y) \<and> nr_me x"
  by (induction xs) auto

lemma me_last_split: "me_last rs \<Longrightarrow> (\<forall>y \<in> set (butlast rs). \<not> nr_me y) \<and> nr_me (last rs)"
  using me_last_snoc [of "butlast rs" "last rs"] by (cases "rs = []") auto

lemma nr_wf_clear_me [simp]: "nr_wf (nr_clear_me r) = nr_wf r"
  by (simp add: nr_wf_def nr_clear_me_flags)

lemma rs_add_ok:
  assumes "rs = [] \<or> me_last rs \<and> list_all nr_wf rs" "t \<le> NDEF_TNF_RESERVED" "length ty < 256"
    "length ident < 256" "length pay + length ty + length ident < 2 ^ 32"
  shows "me_last (rs_add rs t ty ident pay)" "list_all nr_wf (rs_add rs t ty ident pay)"
proof -
  have new: "nr_wf (nr_new f t ty ident pay)" for f
    using assms(3-5) nr_new_flags [OF assms(2)] by (simp add: nr_wf_def)
  show "me_last (rs_add rs t ty ident pay)"
    using assms(1) me_last_split [of rs] nr_new_flags(3) [OF assms(2)]
    by (auto simp: rs_add_def me_last_snoc nr_clear_me_flags simp flip: append_assoc simp del: append_assoc)
  have "rs \<noteq> [] \<Longrightarrow> list_all nr_wf (butlast rs) \<and> nr_wf (last rs)"
    using assms(1) by (auto simp: list_all_iff dest: in_set_butlastD)
  then show "list_all nr_wf (rs_add rs t ty ident pay)"
    using new by (auto simp: rs_add_def)
qed

lemma add_rec_msg:
  assumes rs: "rs = [] \<or> msg_at m 0 rs" and cur: "unat cur = length (msg_enc rs)"
    and mx: "unat max_size \<le> length m" and t: "tnf \<le> NDEF_TNF_RESERVED"
    and ty: "length ty < 256" and ident: "length ident < 256"
    and size: "length (msg_enc (rs_add rs tnf ty ident pay)) < 2 ^ 32"
    and src: "srcp_has p_type ty" "srcp_has p_id ident" "srcp_has p_payload pay"
  shows "let rs' = rs_add rs tnf ty ident pay;
             res = NDEF_MsgAddRec m max_size cur tnf p_type (of_nat (length ty)) p_id
               (of_nat (length ident)) p_payload (of_nat (length pay))
         in if length (msg_enc rs') \<le> unat max_size
            then \<exists>m'. res = Some (NDEF_OK, m', of_nat (length (msg_enc rs'))) \<and> length m' = length m \<and>
                   msg_at m' 0 rs'
            else res = Some (NDEF_MSG_INSUFFICIENT_MEM, m, cur)"
proof -
  define r where "r = nr_new (rs = []) tnf ty ident pay"
  define P where "P = msg_enc (if rs = [] then [] else butlast rs @ [nr_clear_me (last rs)])"
  define tl :: u8 where "tl = of_nat (length ty)"
  define il :: u8 where "il = of_nat (length ident)"
  define pl :: u32 where "pl = of_nat (length pay)"
  have psz: "length pay + length ty + length ident < 2 ^ 32"
    using size by (simp add: rs_add_def length_nr_enc)
  have u: "unat tl = length ty" "unat il = length ident" "unat pl = length pay"
    using ty ident psz by (simp_all add: tl_def il_def pl_def unat_of_nat_u8 unat_of_nat_u32)
  have z: "tl = 0 \<longleftrightarrow> ty = []" "il = 0 \<longleftrightarrow> ident = []" "pl < 256 \<longleftrightarrow> length pay < 256"
    using u by (simp_all add: word_less_nat_alt flip: unat_eq_0 length_0_conv)
  have fl: "nr_sr r \<longleftrightarrow> length (nr_pay r) < 256" "nr_il r \<longleftrightarrow> nr_id r \<noteq> []"
    using nr_new_flags [OF t] by (simp_all add: r_def)
  have sel: "nr_type r = ty" "nr_id r = ident" "nr_pay r = pay" by (simp_all add: r_def)
  have ok: "me_last (rs_add rs tnf ty ident pay)" "list_all nr_wf (rs_add rs tnf ty ident pay)"
    using rs_add_ok [of rs tnf ty ident pay] rs t ty ident psz by (auto simp: msg_at_def)
  have wf: "nr_wf r" using ok(2) by (simp add: rs_add_def r_def)
  have enc: "msg_enc (rs_add rs tnf ty ident pay) = P @ nr_enc r" by (simp add: rs_add_def P_def r_def)
  have lenP: "length P = length (msg_enc rs)"
    by (cases "rs = []") (simp_all add: P_def, metis append_butlast_last_id length_append msg_enc_simps append_Nil2)
  define recSize :: u32 where "recSize = pl + 2 + ucast tl + (if pl < 256 then 1 else 4) +
      (if il = 0 then 0 else 1) + ucast il"
  have rsz: "recSize = of_nat (length (nr_enc r))"
    by (simp add: recSize_def z length_nr_enc length_nr_head fl sel)
      (simp add: tl_def il_def pl_def ucast_of_nat_small ty ident)
  have "length (msg_enc rs) + length (nr_enc r) < 2 ^ 32"
    using size lenP by (simp add: enc)
  then have tot: "unat (cur + recSize) = length (P @ nr_enc r)" "cur + recSize = of_nat (length (P @ nr_enc r))"
    using cur lenP by (simp_all add: rsz unat_of_nat_u32 word_unat_eq_iff unat_word_ariths)
  have fits: "cur + recSize > max_size \<longleftrightarrow> \<not> length (P @ nr_enc r) \<le> unat max_size"
    using tot(1) by (auto simp: word_less_nat_alt)
  have tnf': "(if tnf > NDEF_TNF_RESERVED then NDEF_TNF_UNKNOWN else tnf) = tnf"
    "(if tnf > NDEF_TNF_RESERVED then 0 else tl) = tl"
    using t by auto
  show ?thesis
  proof (cases "length (P @ nr_enc r) \<le> unat max_size")
    case False
    then show ?thesis
      using fits by (simp add: Let_def NDEF_MsgAddRec_def tnf' enc flip: tl_def il_def pl_def recSize_def)
  next
    case True
    then have len: "length (msg_enc rs) < length m" "length P + length (nr_enc r) \<le> length m"
      using mx lenP nr_enc_min [of r] by simp_all
    obtain m3 where m3: "ndef_add_header m cur tnf (if length pay < 256 then 1 else 4)
        (if ident = [] then 0 else 1) = Some m3" "length m3 = length m" "bytes_at m3 0 (P @ [nr_hdr r])"
      using add_header_ok [OF rs len(1) cur, of tnf pay ident ty] lenP unfolding P_def r_def by blast
    obtain m9 where m9: "ndef_add_fields m3 (unat cur) (if length pay < 256 then 1 else 4)
        (if ident = [] then 0 else 1) p_type tl p_id il p_payload pl = Some m9"
      "length m9 = length m3" "bytes_at m9 0 (P @ nr_enc r)"
      using add_rec_body [OF m3(3) _ wf _ fl, of "unat cur" p_type p_id p_payload] src len(2) m3(2) cur lenP
      unfolding sel tl_def il_def pl_def by auto
    have "NDEF_MsgAddRec m max_size cur tnf p_type tl p_id il p_payload pl =
        Some (NDEF_OK, m9, cur + recSize)"
      unfolding NDEF_MsgAddRec_def Let_def tnf' recSize_def [symmetric] unfolding z
      using m3(1) m9(1) True fits by simp
    then show ?thesis
      using True m9 m3(2) ok by (simp add: Let_def enc tot(2) msg_at_def flip: tl_def il_def pl_def)
  qed
qed



end
