(* ===== verification/NdefUpdate.thy ===== *)
theory NdefUpdate
  imports NdefEdit
begin

unbundle bit_operations_syntax

text \<open>
  In-place updates of an NDEF message: appending to a payload, removing a record, and the copy that
  joins chunked payloads. Each is shown to compute the matching operation on the record list.
\<close>

section \<open>Appending to a payload\<close>

definition nr_append :: "ndef_rec \<Rightarrow> u8 list \<Rightarrow> ndef_rec" where
  "nr_append r add = r\<lparr>nr_pay := nr_pay r @ add,
     nr_hdr := (if length (nr_pay r @ add) > 255 then nr_hdr r AND NOT NDEF_SR_MASK else nr_hdr r)\<rparr>"

definition nr_tail :: "ndef_rec \<Rightarrow> u8 list" where
  "nr_tail r = (if nr_il r then [of_nat (length (nr_id r))] else []) @ nr_type r @ nr_id r @ nr_pay r"

definition paylen_fld :: "nat \<Rightarrow> u8 list" where
  "paylen_fld n = (if n < 256 then [of_nat n] else be32_bytes (of_nat n))"

lemma length_paylen_fld: "length (paylen_fld n) = (if n < 256 then 1 else 4)"
  by (simp add: paylen_fld_def)

lemma nr_enc_fields:
  assumes "nr_sr r \<longleftrightarrow> length (nr_pay r) < 256"
  shows "nr_enc r = [nr_hdr r, of_nat (length (nr_type r))] @ paylen_fld (length (nr_pay r)) @ nr_tail r"
  using assms by (simp add: nr_enc_def nr_head_def nr_tail_def paylen_fld_def)

lemma nr_append_flags:
  "nr_il (nr_append r add) = nr_il r" "nr_me (nr_append r add) = nr_me r" "nr_mb (nr_append r add) = nr_mb r"
  "nr_type (nr_append r add) = nr_type r" "nr_id (nr_append r add) = nr_id r"
  "nr_pay (nr_append r add) = nr_pay r @ add" "nr_cf (nr_append r add) = nr_cf r" "nr_tnf (nr_append r add) = nr_tnf r"
  by (simp_all add: nr_flag_defs nr_append_def and.assoc)

lemma nr_append_sr:
  "nr_sr r \<longleftrightarrow> length (nr_pay r) < 256 \<Longrightarrow> nr_sr (nr_append r add) \<longleftrightarrow> length (nr_pay (nr_append r add)) < 256"
  by (auto simp: nr_append_def nr_sr_def and.assoc)

lemma store_paylen_over:
  assumes "bytes_at m 0 (P @ old @ S)" "p = length P" "length old = length (paylen_fld n)" "n < 2 ^ 32"
  shows "\<exists>m'. ndef_store_paylen m p (of_nat n) = Some m' \<and> length m' = length m \<and> bytes_at m' 0 (P @ paylen_fld n @ S)"
proof (cases "n < 256")
  case True
  then obtain x where x: "old = [x]" using assms(3) by (auto simp: paylen_fld_def length_Suc_conv)
  have "\<not> (of_nat n :: u32) > 255" using True assms(4) by (simp add: word_less_nat_alt unat_of_nat_u32)
  then show ?thesis
    using wr8_over [of m P x S p "of_nat n"] assms(1,2) True
    by (simp add: ndef_store_paylen_def x paylen_fld_def ucast_of_nat_u32_u8)
next
  case False
  then have "(of_nat n :: u32) > 255" using assms(4) by (simp add: word_less_nat_alt unat_of_nat_u32)
  then show ?thesis
    using wr_over [OF assms(1,2,3)] False by (simp add: ndef_store_paylen_def wr_be32_def paylen_fld_def)
qed

text \<open>The first half of the routine: widen the length field where needed and store the new length.\<close>

lemma clear_bits_over:
  assumes "bytes_at m 0 (P @ h # S)" "p = length P"
  shows "\<exists>m'. ndef_clear_bits m p k = Some m' \<and> length m' = length m \<and> bytes_at m' 0 (P @ (h AND NOT k) # S)"
  using wr8_over [OF assms, of "h AND NOT k"] rd8_mid [OF assms] by (simp add: ndef_clear_bits_def)

lemma append_width:
  assumes at: "bytes_at m 0 (P @ nr_enc r @ S)" and wf: "nr_wf r" and p: "p = length P"
    and sr: "nr_sr r \<longleftrightarrow> length (nr_pay r) < 256" and cur: "unat (cur :: u32) = length (P @ nr_enc r @ S)"
    and grow: "length (nr_pay r) < 256 \<and> length (nr_pay r @ add) > 255 \<Longrightarrow> length (P @ nr_enc r @ S) + 3 \<le> length m"
    and n: "n = length (nr_pay r @ add)" "n < 2 ^ 32"
  defines "incr \<equiv> length (nr_pay r) < 256 \<and> n > 255"
  shows "\<exists>m1 m2 m3. (if incr then shiftdown m (p + 3) (unat (cur - of_nat (p + 2) - 1)) 3 else Some m) = Some m1 \<and>
     (if n > 255 then ndef_clear_bits m1 p NDEF_SR_MASK else Some m1) = Some m2 \<and>
     ndef_store_paylen m2 (p + 2) (of_nat n) = Some m3 \<and> length m3 = length m \<and>
     bytes_at m3 0 (P @ [nr_hdr (nr_append r add), of_nat (length (nr_type r))] @ paylen_fld n @ nr_tail r @ S)"
proof -
  let ?t = "of_nat (length (nr_type r)) :: u8"
  have at': "bytes_at m 0 ((P @ [nr_hdr r, ?t] @ paylen_fld (length (nr_pay r))) @ nr_tail r @ S)"
    using at by (simp add: nr_enc_fields [OF sr])
  have c: "cur - of_nat (p + 2) - 1 = cur - of_nat (p + 3)" by (simp add: algebra_simps)
  have "unat (cur - of_nat (p + 3)) = length (nr_tail r @ S)" if incr
    using that cur unat_sub_of_nat [of "p + 3" cur] p
    by (simp add: nr_enc_fields [OF sr] incr_def length_paylen_fld)
  then obtain m1 old where m1: "(if incr then shiftdown m (p + 3) (unat (cur - of_nat (p + 2) - 1)) 3 else Some m) = Some m1"
    "length m1 = length m" "bytes_at m1 0 (P @ nr_hdr r # [?t] @ old @ nr_tail r @ S)" "length old = length (paylen_fld n)"
  proof (cases incr)
    case True
    then have fld: "paylen_fld (length (nr_pay r)) = [of_nat (length (nr_pay r))]" and l: "length (paylen_fld n) = 4"
      by (simp_all add: paylen_fld_def incr_def)
    have "\<exists>m' G. shiftdown m (p + 3) (unat (cur - of_nat (p + 2) - 1)) 3 = Some m' \<and> length m' = length m \<and> length G = 3 \<and>
       bytes_at m' 0 ((P @ [nr_hdr r, ?t] @ paylen_fld (length (nr_pay r))) @ G @ nr_tail r @ S)"
      using True at' p grow n(1) \<open>incr \<Longrightarrow> _\<close> unfolding c
      by (intro shiftdown_insert) (auto simp: nr_enc_fields [OF sr] fld incr_def)
    then obtain m' G where "shiftdown m (p + 3) (unat (cur - of_nat (p + 2) - 1)) 3 = Some m'" "length m' = length m"
      "length G = 3" "bytes_at m' 0 (P @ nr_hdr r # [?t] @ (of_nat (length (nr_pay r)) # G) @ nr_tail r @ S)"
      unfolding fld by auto
    then show thesis using that [of m' "of_nat (length (nr_pay r)) # G"] True l by simp
  next
    case False
    then show thesis
      using that [of m "paylen_fld (length (nr_pay r))"] at' n(1) by (auto simp: incr_def length_paylen_fld)
  qed
  obtain m2 where m2: "(if n > 255 then ndef_clear_bits m1 p NDEF_SR_MASK else Some m1) = Some m2"
    "length m2 = length m" "bytes_at m2 0 ((P @ [nr_hdr (nr_append r add), ?t]) @ old @ nr_tail r @ S)"
    using clear_bits_over [OF m1(3) p, of NDEF_SR_MASK] m1(2,3) n(1)
    by (cases "n > 255") (auto simp: nr_append_def)
  show ?thesis
    using m1(1) m2 store_paylen_over [OF m2(3) _ m1(4) n(2), of "p + 2"] p by auto
qed


lemma splice_in:
  assumes atH: "bytes_at m 0 (H @ S)" and q: "q = length H" and c: "S \<noteq> [] \<Longrightarrow> c = length S"
    and fit: "length H + length S + length add \<le> length m"
  shows "\<exists>m4 m5. (if S = [] then Some m else shiftdown m q c (length add)) = Some m4 \<and>
    wr_bytes m4 q add = Some m5 \<and> length m5 = length m \<and> bytes_at m5 0 (H @ add @ S)"
proof (cases "S = []")
  case True
  then show ?thesis using wr_snoc [of m H q add] atH q fit by auto
next
  case False
  then obtain m4 G where m4: "shiftdown m q c (length add) = Some m4" "length m4 = length m"
    "length G = length add" "bytes_at m4 0 (H @ G @ S)"
    using shiftdown_insert [OF atH q _ fit, of c] c by auto
  then show ?thesis using wr_over [OF m4(4) q m4(3)] False by auto
qed

lemma append_payload_ok:
  assumes at: "bytes_at m 0 (P @ nr_enc r @ S)" and wf: "nr_wf r" and p: "p = length P"
    and sr: "nr_sr r \<longleftrightarrow> length (nr_pay r) < 256" and me: "nr_me r \<longleftrightarrow> S = []"
    and cur: "unat cur = length (P @ nr_enc r @ S)" and mx: "unat max_size \<le> length m"
    and grow: "length (nr_pay r) < 256 \<and> length (nr_pay r @ add) > 255 \<Longrightarrow> S = []"
    and size: "length (P @ nr_enc (nr_append r add) @ S) < 2 ^ 32" and src: "srcp_has p_add add"
  defines "E \<equiv> P @ nr_enc (nr_append r add) @ S"
  defines "res \<equiv> NDEF_MsgAppendPayload m max_size cur p p_add (of_nat (length add))"
  shows "if length E \<le> unat max_size
     then \<exists>m'. res = Some (NDEF_OK, m', of_nat (length E)) \<and> length m' = length m \<and> bytes_at m' 0 E
     else res = Some (NDEF_MSG_INSUFFICIENT_MEM, m, cur)"
proof -
  define n where "n = length (nr_pay r @ add)"
  define incr where "incr \<longleftrightarrow> length (nr_pay r) < 256 \<and> n > 255"
  note sr' = nr_append_sr [OF sr, of add]
  have tail: "nr_tail (nr_append r add) = nr_tail r @ add"
    by (simp add: nr_tail_def nr_append_flags)
  have E: "E = P @ [nr_hdr (nr_append r add), of_nat (length (nr_type r))] @ paylen_fld n @ nr_tail r @ add @ S"
    by (simp add: E_def nr_enc_fields [OF sr'] tail nr_append_flags n_def)
  have n: "n < 2 ^ 32" using size by (simp add: n_def length_nr_enc nr_append_flags)
  have lens: "unat (of_nat (length (nr_pay r)) :: u32) = length (nr_pay r)" "unat (of_nat (length add) :: u32) = length add"
    "unat (of_nat n :: u32) = n"
    using n by (simp_all add: unat_of_nat_u32 n_def del: of_nat_add)
  have sum: "of_nat (length (nr_pay r)) + of_nat (length add) = (of_nat n :: u32)" by (simp add: n_def)
  have incr': "((of_nat (length (nr_pay r)) :: u32) < 256 \<and> (of_nat n :: u32) > 255) = incr"
    by (simp add: word_less_nat_alt lens incr_def)
  have n255: "((of_nat n :: u32) > 255) = (n > 255)" by (simp add: word_less_nat_alt lens)
  have incr2: "((of_nat (length (nr_pay r)) :: u32) < 256 \<and> n > 255) = incr"
    using incr' n255 by blast
  have lE: "length E = length (P @ nr_enc r @ S) + length add + (if incr then 3 else 0)"
    by (simp add: E nr_enc_fields [OF sr] length_paylen_fld incr_def n_def)
  have tot: "unat (cur + of_nat (length add) + (if incr then 3 else 0)) = length E"
    "cur + of_nat (length add) + (if incr then 3 else 0) = of_nat (length E)"
    using cur size [folded E_def] lE
    by (cases incr; simp add: unat_of_nat_u32 word_unat_eq_iff unat_word_ariths lens)+
  have pl: "p + length (nr_head r) + length (nr_type r) + length (nr_id r) + length (nr_pay r) = length (P @ nr_enc r)"
    by (simp add: p length_nr_enc)
  note rd = ndef_step_enc(1,2) [OF wf, of m p]
  have rdp: "bytes_at m p (nr_enc r)" using at p by (simp add: bytes_at_append)
  note wl = nr_wf_lens(1,2) [OF wf]
  show ?thesis
  proof (cases "length E \<le> unat max_size")
    case False
    then have "cur + of_nat (length add) + (if incr then 3 else 0) > max_size"
      using tot(1) by (simp add: word_less_nat_alt)
    then show ?thesis
      using False rd [OF rdp] by (simp add: res_def NDEF_MsgAppendPayload_def sum incr')
  next
    case True
    then have fits: "\<not> cur + of_nat (length add) + (if incr then 3 else 0) > max_size"
      using tot(1) by (simp add: word_less_nat_alt)
    have room: "length (P @ nr_enc r @ S) + 3 \<le> length m"
      if "length (nr_pay r) < 256 \<and> length (nr_pay r @ add) > 255"
      using that True mx lE by (simp add: incr_def n_def)
    obtain m1 m2 m3 where w:
      "(if incr then shiftdown m (p + 3) (unat (cur - of_nat (p + 2) - 1)) 3 else Some m) = Some m1"
      "(if n > 255 then ndef_clear_bits m1 p NDEF_SR_MASK else Some m1) = Some m2"
      "ndef_store_paylen m2 (p + 2) (of_nat n) = Some m3" and l3: "length m3 = length m"
      and at3: "bytes_at m3 0 (P @ [nr_hdr (nr_append r add), of_nat (length (nr_type r))] @ paylen_fld n @ nr_tail r @ S)"
      using append_width [OF at wf p sr cur room n_def n] unfolding incr_def by blast
    define q where "q = length (P @ nr_enc r) + (if incr then 3 else 0)"
    define H where "H = P @ [nr_hdr (nr_append r add), of_nat (length (nr_type r))] @ paylen_fld n @ nr_tail r"
    have q: "q = length H" by (simp add: q_def H_def nr_enc_fields [OF sr] length_paylen_fld incr_def n_def)
    have atH: "bytes_at m3 0 (H @ S)" using at3 by (simp add: H_def)
    have h3: "rd8 m3 p = Some (nr_hdr (nr_append r add))" using at3 p by (simp add: bytes_at_append)
    have fitH: "length H + length S + length add \<le> length m3"
      using True mx l3 by (simp add: E H_def)
    have cq: "unat (cur - of_nat q) = length S" if "S \<noteq> []"
      using that grow cur unat_sub_of_nat [of q cur] by (auto simp: q_def incr_def n_def)
    obtain m4 m5 where m4: "(if S = [] then Some m3 else shiftdown m3 q (unat (cur - of_nat q)) (length add)) = Some m4"
      "wr_bytes m4 q add = Some m5" and m5: "length m5 = length m" "bytes_at m5 0 E"
      using splice_in [OF atH q cq fitH] l3 by (auto simp: E H_def)
    have me': "(nr_hdr (nr_append r add) AND NDEF_ME_MASK = 0) = (S \<noteq> [])"
      using me nr_append_flags(2) [of r add] unfolding nr_me_def by blast
    have "res = Some (NDEF_OK, m5, cur + of_nat (length add) + (if incr then 3 else 0))"
      unfolding res_def NDEF_MsgAppendPayload_def
      using rd [OF rdp] fits w h3 m4 [unfolded q_def] me' pl
      by (cases incr; cases "S = []") (simp_all add: Let_def sum incr2 n255 wl lens copy_in_has [OF src] numeral_3_eq_3 q_def
        del: of_nat_add of_nat_Suc)
    then show ?thesis using True m5 tot(2) by simp
  qed
qed


lemma nr_append_wf:
  "nr_wf r \<Longrightarrow> nr_sr r \<longleftrightarrow> length (nr_pay r) < 256 \<Longrightarrow>
   length (nr_pay r) + length add + length (nr_type r) + length (nr_id r) < 2 ^ 32 \<Longrightarrow> nr_wf (nr_append r add)"
  using nr_append_sr [of r add] by (auto simp: nr_wf_def nr_append_flags)

lemma me_last_swap: "nr_me r = nr_me r' \<Longrightarrow> me_last (as @ r # bs) = me_last (as @ r' # bs)"
  by (induction as) auto

lemma me_last_mid: "me_last (as @ r # bs) \<Longrightarrow> nr_me r \<longleftrightarrow> bs = []"
  by (induction as) (auto split: if_splits)

lemma append_payload_msg:
  assumes at: "msg_at m 0 (as @ r # bs)" and cur: "unat cur = length (msg_enc (as @ r # bs))"
    and sr: "nr_sr r \<longleftrightarrow> length (nr_pay r) < 256" and mx: "unat max_size \<le> length m"
    and grow: "length (nr_pay r) < 256 \<and> length (nr_pay r @ add) > 255 \<Longrightarrow> bs = []"
    and size: "length (msg_enc (as @ nr_append r add # bs)) < 2 ^ 32" and src: "srcp_has p_add add"
  shows "let rs' = as @ nr_append r add # bs;
             res = NDEF_MsgAppendPayload m max_size cur (length (msg_enc as)) p_add (of_nat (length add))
         in if length (msg_enc rs') \<le> unat max_size
            then \<exists>m'. res = Some (NDEF_OK, m', of_nat (length (msg_enc rs'))) \<and> length m' = length m \<and>
                   msg_at m' 0 rs'
            else res = Some (NDEF_MSG_INSUFFICIENT_MEM, m, cur)"
proof -
  have wf: "list_all nr_wf as" "nr_wf r" "list_all nr_wf bs" and me: "me_last (as @ r # bs)"
    and b: "bytes_at m 0 (msg_enc as @ nr_enc r @ msg_enc bs)"
    using at by (simp_all add: msg_at_def)
  have S: "msg_enc bs = [] \<longleftrightarrow> bs = []" by (cases bs) simp_all
  have "nr_wf (nr_append r add)" using nr_append_wf [OF wf(2) sr] size by (simp add: length_nr_enc nr_append_flags)
  then have ok: "msg_at m' 0 (as @ nr_append r add # bs) \<longleftrightarrow>
      bytes_at m' 0 (msg_enc as @ nr_enc (nr_append r add) @ msg_enc bs)" for m'
    using wf me me_last_swap [of "nr_append r add" r] by (simp add: msg_at_def nr_append_flags)
  show ?thesis
    using append_payload_ok [OF b wf(2) refl sr _ _ mx _ _ src, of cur]
      me_last_mid [OF me] S cur grow size
    unfolding Let_def ok by (simp split: if_splits)
qed



text \<open>The records of \<open>ndef_sample\<close>.\<close>

definition sample_r0 :: ndef_rec where
  "sample_r0 = \<lparr>nr_hdr = 0x91, nr_type = [0x54], nr_id = [], nr_pay = [0x61]\<rparr>"

definition sample_r1 :: ndef_rec where
  "sample_r1 = \<lparr>nr_hdr = 0x51, nr_type = [0x55], nr_id = [], nr_pay = [0x62]\<rparr>"

lemmas sample_defs = sample_r0_def sample_r1_def ndef_sample_def

lemma sample_enc: "nr_enc sample_r0 = [0x91, 1, 1, 0x54, 0x61]" "nr_enc sample_r1 = [0x51, 1, 1, 0x55, 0x62]"
  by (simp_all add: sample_defs nr_enc_def nr_head_def nr_flag_defs)

lemma sample_wf: "nr_wf sample_r0" "nr_wf sample_r1" "\<not> nr_me sample_r0" "nr_me sample_r1"
  "nr_sr sample_r0" "nr_sr sample_r1" "nr_mb sample_r0" "\<not> nr_mb sample_r1"
  by (simp_all add: sample_defs nr_wf_def nr_flag_defs)

lemma sample_at: "msg_at (ndef_sample @ zs) 0 [sample_r0, sample_r1]"
  by (simp add: msg_at_Cons sample_wf sample_enc) (simp add: ndef_sample_def rd8_def)


section \<open>Removing a record\<close>

definition nr_set :: "u8 \<Rightarrow> ndef_rec \<Rightarrow> ndef_rec" where
  "nr_set k r = r\<lparr>nr_hdr := nr_hdr r OR k\<rparr>"

text \<open>Without record \<open>i\<close>: the next record becomes the first one, or the previous one the last.\<close>

definition rs_remove :: "nat \<Rightarrow> ndef_rec list \<Rightarrow> ndef_rec list" where
  "rs_remove i rs = (if i = 0 then (case tl rs of [] \<Rightarrow> [] | r # rs' \<Rightarrow> nr_set NDEF_MB_MASK r # rs')
     else if Suc i = length rs then take (i - 1) rs @ [nr_set NDEF_ME_MASK (rs ! (i - 1))]
     else take i rs @ drop (Suc i) rs)"

lemma nr_set_flags:
  "nr_sr (nr_set NDEF_MB_MASK r) = nr_sr r" "nr_il (nr_set NDEF_MB_MASK r) = nr_il r" "nr_me (nr_set NDEF_MB_MASK r) = nr_me r"
  "nr_mb (nr_set NDEF_MB_MASK r)" "nr_sr (nr_set NDEF_ME_MASK r) = nr_sr r" "nr_il (nr_set NDEF_ME_MASK r) = nr_il r"
  "nr_mb (nr_set NDEF_ME_MASK r) = nr_mb r" "nr_me (nr_set NDEF_ME_MASK r)"
  by (simp_all add: nr_flag_defs nr_set_def bit.conj_disj_distrib2)

lemma set_bits_over:
  assumes "bytes_at m 0 (P @ h # S)" "p = length P"
  shows "\<exists>m'. ndef_set_bits m p k = Some m' \<and> length m' = length m \<and> bytes_at m' 0 (P @ (h OR k) # S)"
  using wr8_over [OF assms, of "h OR k"] rd8_mid [OF assms] by (simp add: ndef_set_bits_def)

lemma nr_set_sel [simp]: "nr_type (nr_set k r) = nr_type r" "nr_id (nr_set k r) = nr_id r" "nr_pay (nr_set k r) = nr_pay r"
  "nr_hdr (nr_set k r) = nr_hdr r OR k"
  by (simp_all add: nr_set_def)

lemma nr_enc_set:
  "k = NDEF_MB_MASK \<or> k = NDEF_ME_MASK \<Longrightarrow> nr_enc (nr_set k r) = (nr_hdr r OR k) # tl (nr_enc r)"
  by (auto simp: nr_enc_def nr_head_def nr_set_flags)

lemma nr_set_wf: "k = NDEF_MB_MASK \<or> k = NDEF_ME_MASK \<Longrightarrow> nr_wf (nr_set k r) = nr_wf r"
  by (auto simp: nr_wf_def nr_set_flags)

lemma set_rec_bits:
  assumes "bytes_at m 0 (P @ nr_enc r @ S)" "p = length P" "k = NDEF_MB_MASK \<or> k = NDEF_ME_MASK"
  shows "\<exists>m'. ndef_set_bits m p k = Some m' \<and> length m' = length m \<and> bytes_at m' 0 (P @ nr_enc (nr_set k r) @ S)"
proof -
  have "bytes_at m 0 (P @ nr_hdr r # tl (nr_enc r) @ S)"
    using assms(1) by (subst (asm) nr_enc_hd) simp
  from set_bits_over [OF this assms(2), of k] show ?thesis by (simp add: nr_enc_set [OF assms(3)])
qed

lemma length_nr_enc_set: "k = NDEF_MB_MASK \<or> k = NDEF_ME_MASK \<Longrightarrow> length (nr_enc (nr_set k r)) = length (nr_enc r)"
  by (auto simp: length_nr_enc length_nr_head nr_set_flags)

lemma of_nat_unat_u32: "unat (c :: u32) = n \<Longrightarrow> c = of_nat n"
  by auto

lemma by_index_enc:
  "msg_at m 0 rs \<Longrightarrow> NDEF_MsgGetRecByIndex m i =
     Some (if 0 \<le> i \<and> nat i < length rs then Some (rec_off rs (nat i)) else None)"
  using ndef_by_index_loop_enc [of m 0 rs 0 i] ndef_by_index_loop_neg [of m 0 rs i 0]
  by (cases "0 \<le> i") (auto simp: NDEF_MsgGetRecByIndex_def)

lemma msg_split: "i < length rs \<Longrightarrow> msg_enc rs = msg_enc (take i rs) @ nr_enc (rs ! i) @ msg_enc (drop (Suc i) rs)"
  by (metis id_take_nth_drop msg_enc_simps(2,3))

lemma remove_first:
  assumes at: "msg_at m 0 (r # r1 # rs)" and cur: "unat cur = length (msg_enc (r # r1 # rs))" and mb: "nr_mb r"
  shows "\<exists>m'. NDEF_MsgRemoveRec m cur 0 = Some (NDEF_OK, m', of_nat (length (msg_enc (nr_set NDEF_MB_MASK r1 # rs))))
    \<and> length m' = length m \<and> bytes_at m' 0 (msg_enc (nr_set NDEF_MB_MASK r1 # rs))"
proof -
  let ?n = "length (nr_enc r)"
  have b: "bytes_at m 0 (nr_enc r @ nr_enc r1 @ msg_enc rs)" using at by (simp add: msg_at_def)
  obtain m1 where m1: "ndef_set_bits m ?n NDEF_MB_MASK = Some m1" "length m1 = length m"
    "bytes_at m1 0 ([] @ nr_enc r @ msg_enc (nr_set NDEF_MB_MASK r1 # rs))"
    using set_rec_bits [OF b refl, of NDEF_MB_MASK] by auto
  have c: "unat (cur - of_nat ?n) = length (msg_enc (nr_set NDEF_MB_MASK r1 # rs))"
    using cur unat_sub_of_nat [of ?n cur] length_nr_enc_set [of NDEF_MB_MASK r1] by simp
  note c2 = of_nat_unat_u32 [OF c]
  have c3: "unat (of_nat (length (nr_enc (nr_set NDEF_MB_MASK r1)) + length (msg_enc rs)) :: u32) =
      length (nr_enc (nr_set NDEF_MB_MASK r1)) + length (msg_enc rs)"
    using c unfolding c2 by (simp del: of_nat_add)
  obtain m2 where "shiftup m1 0 ?n (length (msg_enc (nr_set NDEF_MB_MASK r1 # rs))) = Some m2"
    "length m2 = length m" "bytes_at m2 0 (msg_enc (nr_set NDEF_MB_MASK r1 # rs))"
    using shiftup_delete [OF m1(3), of 0 ?n] m1(2) by auto
  then show ?thesis
    using m1(1) by_index_enc [OF at] nr_enc_hdr [of m 0 r] b mb
    by (simp add: NDEF_MsgRemoveRec_def nr_mb_def bytes_at_append Let_def c2 c3 del: of_nat_add)
qed


lemma remove_last:
  assumes at: "msg_at m 0 (as @ [r, l])" and cur: "unat cur = length (msg_enc (as @ [r, l]))"
    and mb: "\<not> nr_mb l"
  shows "\<exists>m'. NDEF_MsgRemoveRec m cur (int (length as) + 1) =
      Some (NDEF_OK, m', of_nat (length (msg_enc (as @ [nr_set NDEF_ME_MASK r]))))
    \<and> length m' = length m \<and> bytes_at m' 0 (msg_enc (as @ [nr_set NDEF_ME_MASK r]))"
proof -
  have b: "bytes_at m 0 (msg_enc as @ nr_enc r @ nr_enc l)" using at by (simp add: msg_at_def)
  obtain m1 where m1: "ndef_set_bits m (length (msg_enc as)) NDEF_ME_MASK = Some m1" "length m1 = length m"
    "bytes_at m1 0 (msg_enc as @ nr_enc (nr_set NDEF_ME_MASK r) @ nr_enc l)"
    using set_rec_bits [OF b refl, of NDEF_ME_MASK] by auto
  have me: "nr_me l" using at me_last_mid [of "as @ [r]" l "[]"] by (simp add: msg_at_def)
  have ix: "NDEF_MsgGetRecByIndex m (int (length as) + 1) = Some (Some (length (msg_enc as @ nr_enc r)))"
    "NDEF_MsgGetRecByIndex m (int (length as)) = Some (Some (length (msg_enc as)))"
    using by_index_enc [OF at] by (simp_all add: rec_off_def nat_add_distrib)
  have "rd8 m (length (msg_enc as @ nr_enc r)) = Some (nr_hdr l)"
    using nr_enc_hdr [of m _ l] b by (simp add: bytes_at_append)
  then show ?thesis
    using m1 ix me mb length_nr_enc_set [of NDEF_ME_MASK r]
    by (simp add: NDEF_MsgRemoveRec_def nr_mb_def nr_me_def bytes_at_append)
qed

lemma remove_mid:
  assumes at: "msg_at m 0 (as @ r # bs)" and cur: "unat cur = length (msg_enc (as @ r # bs))"
    and mb: "\<not> nr_mb r" and bs: "bs \<noteq> []"
  shows "\<exists>m'. NDEF_MsgRemoveRec m cur (int (length as)) = Some (NDEF_OK, m', of_nat (length (msg_enc (as @ bs))))
    \<and> length m' = length m \<and> bytes_at m' 0 (msg_enc (as @ bs))"
proof -
  let ?p = "length (msg_enc as)" and ?q = "length (msg_enc as) + length (nr_enc r)"
  have b: "bytes_at m 0 (msg_enc as @ nr_enc r @ msg_enc bs)" using at by (simp add: msg_at_def)
  have me: "\<not> nr_me r" using at me_last_mid [of as r bs] bs by (simp add: msg_at_def)
  have ix: "NDEF_MsgGetRecByIndex m (int (length as)) = Some (Some ?p)"
    using by_index_enc [OF at] by (simp add: rec_off_def)
  have r: "nr_wf r" "bytes_at m ?p (nr_enc r)" using at b by (simp_all add: msg_at_def bytes_at_append)
  have c: "unat (cur - of_nat ?q) = length (msg_enc bs)" using cur unat_sub_of_nat [of ?q cur] by simp
  have "unat (cur - of_nat (length (nr_enc r))) = length (msg_enc (as @ bs))"
    using cur unat_sub_of_nat [of "length (nr_enc r)" cur] by simp
  note c2 = of_nat_unat_u32 [OF this]
  obtain m1 where m1: "shiftup m ?p ?q (length (msg_enc bs)) = Some m1" "length m1 = length m"
    "bytes_at m1 0 (msg_enc as @ msg_enc bs)"
    using shiftup_delete [OF b refl refl refl] by auto
  then show ?thesis
    using ix GetNextRec_enc [OF r] nr_enc_hdr [OF r(2)] me mb
    by (simp add: NDEF_MsgRemoveRec_def nr_mb_def nr_me_def c c2 del: of_nat_add)
qed


lemma rs_remove_ok:
  assumes "me_last rs" "list_all nr_wf rs" "i < length rs" "rs_remove i rs \<noteq> []"
  shows "me_last (rs_remove i rs) \<and> list_all nr_wf (rs_remove i rs)"
proof -
  have wf: "list_all nr_wf (take i rs)" "list_all nr_wf (drop (Suc i) rs)" "list_all nr_wf (take (i - 1) rs)" "nr_wf (rs ! (i - 1))"
    using assms(2,3) by (auto simp: list_all_iff dest: in_set_takeD in_set_dropD)
  have me: "\<forall>y \<in> set (butlast rs). \<not> nr_me y" "nr_me (last rs)" using me_last_split [OF assms(1)] by simp_all
  consider (first) "i = 0" | (last) "0 < i" "Suc i = length rs" | (mid) "0 < i" "Suc i < length rs" using assms(3) by linarith
  then show ?thesis
  proof cases
    case first
    then show ?thesis
      using assms by (cases rs; cases "tl rs") (auto simp: rs_remove_def nr_set_wf nr_set_flags split: if_splits)
  next
    case last
    have "\<forall>y \<in> set (take (i - 1) rs). \<not> nr_me y"
      using me(1) last by (metis butlast_conv_take diff_Suc_1 diff_le_self in_set_takeD set_take_subset_set_take subset_iff)
    then show ?thesis using last wf by (simp add: rs_remove_def me_last_snoc nr_set_flags nr_set_wf)
  next
    case mid
    obtain as r b bs where rs: "rs = as @ r # b # bs" "length as = i"
      using mid(2) assms(3) by (metis Cons_nth_drop_Suc append_take_drop_id length_take min.absorb4)
    have "me_last (as @ r # b # bs) \<Longrightarrow> me_last (as @ b # bs)" by (induction as) (auto split: if_splits)
    then show ?thesis using mid rs assms(1) wf by (simp add: rs_remove_def)
  qed
qed

text \<open>\<^verbatim>\<open>NDEF_MsgRemoveRec\<close> on a message whose MB bit is on the first record only: for an index in range
  the buffer then holds the other records, the next record marked as first or the previous one as last
  where needed, and the new size is returned with \<^verbatim>\<open>NDEF_OK\<close>; for any other index, a negative one
  included, the status is \<^verbatim>\<open>NDEF_REC_NOT_FOUND\<close> and nothing changes.\<close>

theorem NDEF_MsgRemoveRec_ok:
  assumes at: "msg_at m 0 rs" and cur: "unat cur = length (msg_enc rs)"
    and mb: "\<forall>i < length rs. nr_mb (rs ! i) \<longleftrightarrow> i = 0"
  shows "if 0 \<le> idx \<and> nat idx < length rs
    then \<exists>m'. NDEF_MsgRemoveRec m cur idx = Some (NDEF_OK, m', of_nat (length (msg_enc (rs_remove (nat idx) rs)))) \<and>
      length m' = length m \<and> (rs_remove (nat idx) rs = [] \<or> msg_at m' 0 (rs_remove (nat idx) rs))
    else NDEF_MsgRemoveRec m cur idx = Some (NDEF_REC_NOT_FOUND, m, cur)"
proof (cases "0 \<le> idx \<and> nat idx < length rs")
  case False
  have "NDEF_MsgGetRecByIndex m idx = Some None" using by_index_enc [OF at, of idx] False by simp
  then show ?thesis unfolding if_not_P [OF False] by (simp add: NDEF_MsgRemoveRec_def)
next
  case True
  define i where "i = nat idx"
  have i: "idx = int i" "i < length rs" using True by (simp_all add: i_def)
  have "\<exists>m'. NDEF_MsgRemoveRec m cur idx = Some (NDEF_OK, m', of_nat (length (msg_enc (rs_remove i rs)))) \<and>
      length m' = length m \<and> bytes_at m' 0 (msg_enc (rs_remove i rs))"
  proof -
    consider (one) "i = 0" "length rs = 1" | (first) "i = 0" "length rs > 1" | (last) "0 < i" "Suc i = length rs"
      | (mid) "0 < i" "Suc i < length rs" using i(2) by linarith
    then show ?thesis
    proof cases
      case one
      then obtain r where r: "rs = [r]" by (auto simp: length_Suc_conv)
      then have b: "rd8 m 0 = Some (nr_hdr r)" using at nr_enc_hdr [of m 0 r] by (simp add: msg_at_def)
      show ?thesis
        using one r mb b i by_index_enc [OF at] by (simp add: NDEF_MsgRemoveRec_def rs_remove_def nr_mb_def)
    next
      case first
      then obtain r r1 rs' where r: "rs = r # r1 # rs'" by (cases rs; cases "tl rs") auto
      then show ?thesis using remove_first [of m r r1 rs' cur] at cur mb first i by (auto simp: rs_remove_def)
    next
      case last
      define as where "as = take (i - 1) rs"
      have "rs = take (i - 1) rs @ rs ! (i - 1) # drop i rs" "drop i rs = [rs ! i]"
        using last id_take_nth_drop [of "i - 1" rs] by (simp_all add: Cons_nth_drop_Suc [symmetric])
      then have rs: "rs = as @ [rs ! (i - 1), rs ! i]" by (simp add: as_def)
      have las: "length as = i - 1" using i(2) by (simp add: as_def)
      have "msg_at m 0 (as @ [rs ! (i - 1), rs ! i])" "unat cur = length (msg_enc (as @ [rs ! (i - 1), rs ! i]))"
        using at cur rs by simp_all
      from remove_last [OF this] show ?thesis
        using mb last i las by (simp add: rs_remove_def as_def)
    next
      case mid
      have rs: "rs = take i rs @ rs ! i # drop (Suc i) rs" using i(2) by (rule id_take_nth_drop)
      have "length (take i rs) = i" using i(2) by simp
      then show ?thesis
        using remove_mid [of m "take i rs" "rs ! i" "drop (Suc i) rs" cur] at cur mb mid i rs [symmetric]
        by (simp add: rs_remove_def)
    qed
  qed
  then show ?thesis
    using True rs_remove_ok [of rs i] i(2) at unfolding i_def [symmetric] by (auto simp: msg_at_def)
qed


theorem NDEF_MsgRemoveRec_ok_witness:
  "\<exists>m'. NDEF_MsgRemoveRec ndef_sample 10 0 = Some (NDEF_OK, m', 5) \<and> msg_at m' 0 [nr_set NDEF_MB_MASK sample_r1]"
proof -
  have mb: "\<forall>i < length [sample_r0, sample_r1]. nr_mb ([sample_r0, sample_r1] ! i) \<longleftrightarrow> i = 0"
    by (simp add: All_less_Suc2 sample_wf)
  show ?thesis
    using NDEF_MsgRemoveRec_ok [of ndef_sample "[sample_r0, sample_r1]" 10 0] sample_at [of "[]"] mb
      length_nr_enc_set [of NDEF_MB_MASK sample_r1]
    by (auto simp: sample_enc rs_remove_def)
qed

section \<open>Joining chunked payloads\<close>

text \<open>One source record: a continuation chunk extends the last payload, any other record is added.\<close>

definition rs_join :: "ndef_rec list \<Rightarrow> ndef_rec \<Rightarrow> ndef_rec list" where
  "rs_join acc r = (if nr_tnf r = NDEF_TNF_UNCHANGED
     then if nr_pay r = [] then acc else butlast acc @ [nr_append (last acc) (nr_pay r)]
     else rs_add acc (nr_tnf r) (nr_type r) (nr_id r) (nr_pay r))"

definition canonical :: "ndef_rec \<Rightarrow> bool" where
  "canonical r \<longleftrightarrow> (nr_sr r \<longleftrightarrow> length (nr_pay r) < 256)"

lemma nr_tnf_le: "nr_tnf r \<le> NDEF_TNF_RESERVED"
  by (simp add: nr_tnf_def word_and_le1)

lemma rs_join_canonical:
  assumes "acc \<noteq> [] \<Longrightarrow> canonical (last acc)" "nr_tnf r = NDEF_TNF_UNCHANGED \<Longrightarrow> acc \<noteq> []"
  shows "rs_join acc r \<noteq> []" "canonical (last (rs_join acc r))"
  using assms nr_append_sr [of "last acc" "nr_pay r"] nr_new_flags(1) [OF nr_tnf_le [of r]]
  by (auto simp: rs_join_def rs_add_def canonical_def)

lemma length_nr_new: "nr_wf r \<Longrightarrow> length (nr_enc (nr_new f (nr_tnf r) (nr_type r) (nr_id r) (nr_pay r))) \<le> length (nr_enc r)"
  using nr_new_flags(1,2) [OF nr_tnf_le [of r], of f "nr_type r" "nr_id r" "nr_pay r"]
  by (auto simp: length_nr_enc length_nr_head nr_wf_def)

lemma length_nr_append: "canonical r \<Longrightarrow> length (nr_enc (nr_append r add)) \<le> length (nr_enc r) + length add + 3"
  using nr_append_sr [of r add] by (simp add: length_nr_enc length_nr_head nr_append_flags canonical_def)

lemma msg_enc_butlast: "acc \<noteq> [] \<Longrightarrow> length (msg_enc acc) = length (msg_enc (butlast acc)) + length (nr_enc (last acc))"
  by (metis append_butlast_last_id length_append msg_enc_simps append_Nil2)

lemma rs_join_length:
  assumes "acc \<noteq> [] \<Longrightarrow> canonical (last acc)" "nr_wf r" "nr_tnf r = NDEF_TNF_UNCHANGED \<Longrightarrow> acc \<noteq> []"
  shows "length (msg_enc (rs_join acc r)) \<le> length (msg_enc acc) + length (nr_enc r)"
proof (cases "nr_tnf r = NDEF_TNF_UNCHANGED")
  case True
  have "length (nr_enc r) \<ge> length (nr_pay r) + 3" by (simp add: length_nr_enc length_nr_head)
  then show ?thesis
    using True assms length_nr_append [of "last acc" "nr_pay r"] msg_enc_butlast [of acc]
    by (auto simp: rs_join_def)
next
  case False
  then show ?thesis
    using length_nr_new [OF assms(2), of "acc = []"] msg_enc_butlast [of acc]
    by (auto simp: rs_join_def rs_add_def)
qed

text \<open>What the copy loop keeps: the records written so far, the size, the offset of the last record.\<close>

definition dechunk_inv :: "mem \<Rightarrow> ndef_rec list \<Rightarrow> u32 \<Rightarrow> nat \<Rightarrow> bool" where
  "dechunk_inv dest acc out prev \<longleftrightarrow> unat out = length (msg_enc acc) \<and>
     (acc \<noteq> [] \<longrightarrow> msg_at dest 0 acc \<and> canonical (last acc) \<and> prev = length (msg_enc (butlast acc)))"

lemma srcp_has_field:
  "bytes_at src q bs \<Longrightarrow> srcp_has (map_option (Pair src) (if bs = [] then None else Some q)) bs"
  by (simp add: srcp_has_def)

lemma dechunk_add:
  assumes inv: "dechunk_inv dest acc out prev" and r: "nr_wf r" "bytes_at src p (nr_enc r)"
    and fit: "length (msg_enc acc) + length (nr_enc r) \<le> unat mx" "unat mx \<le> length dest"
  defines "h \<equiv> p + length (nr_head r)"
  defines "acc' \<equiv> rs_add acc (nr_tnf r) (nr_type r) (nr_id r) (nr_pay r)"
  shows "\<exists>d'. NDEF_MsgAddRec dest mx out (nr_tnf r)
       (map_option (Pair src) (if nr_type r = [] then None else Some h)) (of_nat (length (nr_type r)))
       (map_option (Pair src) (if nr_id r = [] then None else Some (h + length (nr_type r)))) (of_nat (length (nr_id r)))
       (map_option (Pair src) (if nr_pay r = [] then None else Some (h + length (nr_type r) + length (nr_id r))))
       (of_nat (length (nr_pay r))) = Some (NDEF_OK, d', of_nat (length (msg_enc acc')))
     \<and> length d' = length dest \<and> dechunk_inv d' acc' (of_nat (length (msg_enc acc'))) (unat out)"
proof -
  have le: "length (msg_enc acc') \<le> length (msg_enc acc) + length (nr_enc r)"
    using length_nr_new [OF r(1), of "acc = []"] msg_enc_butlast [of acc] by (auto simp: acc'_def rs_add_def)
  have lt: "length (msg_enc acc') < 2 ^ 32"
    using le fit(1) unsigned_less [of mx, where 'a = nat] by simp
  have src: "srcp_has (map_option (Pair src) (if nr_type r = [] then None else Some h)) (nr_type r)"
    "srcp_has (map_option (Pair src) (if nr_id r = [] then None else Some (h + length (nr_type r)))) (nr_id r)"
    "srcp_has (map_option (Pair src) (if nr_pay r = [] then None else Some (h + length (nr_type r) + length (nr_id r)))) (nr_pay r)"
    using nr_enc_type [OF r(2)] nr_enc_id [OF r(2)] nr_enc_pay [OF r(2)] unfolding h_def
    by (intro srcp_has_field; simp)+
  have acc: "acc = [] \<or> msg_at dest 0 acc" "unat out = length (msg_enc acc)" using inv by (auto simp: dechunk_inv_def)
  have wl: "length (nr_type r) < 256" "length (nr_id r) < 256" using r(1) by (simp_all add: nr_wf_def)
  have last: "canonical (last acc')" "butlast acc' = (if acc = [] then [] else butlast acc @ [nr_clear_me (last acc)])"
    using nr_new_flags(1) [OF nr_tnf_le [of r]] by (simp_all add: acc'_def rs_add_def canonical_def)
  have "length (msg_enc (butlast acc')) = unat out"
    using last(2) acc(2) msg_enc_butlast [of acc] by simp
  then show ?thesis
    using add_rec_msg [OF acc fit(2) nr_tnf_le wl lt [unfolded acc'_def] src] le fit(1) last(1) lt
    by (auto simp: Let_def dechunk_inv_def unat_of_nat_u32 acc'_def simp del: of_nat_add)
qed

lemma dechunk_join:
  assumes inv: "dechunk_inv dest acc out prev" and r: "nr_wf r" "bytes_at src p (nr_enc r)"
    and fit: "length (msg_enc acc) + length (nr_enc r) \<le> unat mx" "unat mx \<le> length dest"
    and ne: "acc \<noteq> []" "nr_pay r \<noteq> []"
  defines "acc' \<equiv> butlast acc @ [nr_append (last acc) (nr_pay r)]"
  shows "\<exists>d'. NDEF_MsgAppendPayload dest mx out prev
       (Some (src, p + length (nr_head r) + length (nr_type r) + length (nr_id r))) (of_nat (length (nr_pay r)))
       = Some (NDEF_OK, d', of_nat (length (msg_enc acc')))
     \<and> length d' = length dest \<and> dechunk_inv d' acc' (of_nat (length (msg_enc acc'))) prev"
proof -
  have acc: "msg_at dest 0 (butlast acc @ [last acc])" "unat out = length (msg_enc (butlast acc @ [last acc]))"
    "canonical (last acc)" and prev: "prev = length (msg_enc (butlast acc))"
    using inv ne(1) by (auto simp: dechunk_inv_def)
  have "length (nr_enc r) \<ge> length (nr_pay r) + 3" by (simp add: length_nr_enc length_nr_head)
  then have le: "length (msg_enc acc') \<le> length (msg_enc acc) + length (nr_enc r)"
    using length_nr_append [OF acc(3), of "nr_pay r"] msg_enc_butlast [OF ne(1)] by (simp add: acc'_def)
  have lt: "length (msg_enc acc') < 2 ^ 32"
    using le fit(1) unsigned_less [of mx, where 'a = nat] by simp
  have src: "srcp_has (Some (src, p + length (nr_head r) + length (nr_type r) + length (nr_id r))) (nr_pay r)"
    using nr_enc_pay [OF r(2)] by (simp add: srcp_has_def)
  show ?thesis
    using append_payload_msg [OF acc(1,2) acc(3) [unfolded canonical_def] fit(2) _ lt [unfolded acc'_def] src]
      le fit(1) lt prev nr_append_sr [OF acc(3) [unfolded canonical_def], of "nr_pay r"]
    by (auto simp: Let_def dechunk_inv_def unat_of_nat_u32 canonical_def acc'_def simp del: of_nat_add)
qed


lemma dechunk_loop_ok:
  "msg_at src p rs \<Longrightarrow> recs_ok True first inch rs \<Longrightarrow> dechunk_inv dest acc out prev \<Longrightarrow> inch \<longrightarrow> acc \<noteq> [] \<Longrightarrow>
   length (msg_enc acc) + length (msg_enc rs) \<le> unat mx \<Longrightarrow> unat mx \<le> length dest \<Longrightarrow>
   \<exists>d' prev'. ndef_dechunk_loop src mx p dest out prev = Some (NDEF_OK, d', of_nat (length (msg_enc (foldl rs_join acc rs))))
     \<and> length d' = length dest \<and> foldl rs_join acc rs \<noteq> [] \<and>
     dechunk_inv d' (foldl rs_join acc rs) (of_nat (length (msg_enc (foldl rs_join acc rs)))) prev' \<and>
     length (msg_enc (foldl rs_join acc rs)) \<le> length (msg_enc acc) + length (msg_enc rs)"
proof (induction rs arbitrary: p first inch dest acc out prev)
  case (Cons r rs)
  have r: "nr_wf r" "bytes_at src p (nr_enc r)" using Cons.prems(1) by (simp_all add: msg_at_Cons)
  have unch: "nr_tnf r = NDEF_TNF_UNCHANGED \<Longrightarrow> acc \<noteq> []"
    using Cons.prems(2,4) by (auto simp: rec_ok_def split: if_splits)
  have can: "acc \<noteq> [] \<Longrightarrow> canonical (last acc)" using Cons.prems(3) by (simp add: dechunk_inv_def)
  have fit: "length (msg_enc acc) + length (nr_enc r) \<le> unat mx" using Cons.prems(5) by simp
  let ?acc = "rs_join acc r"
  have out: "unat out = length (msg_enc acc)" using Cons.prems(3) by (simp add: dechunk_inv_def)
  obtain d' prev' where d': "(if nr_tnf r = NDEF_TNF_UNCHANGED
        then case (if nr_pay r = [] then None else Some (p + length (nr_head r) + length (nr_type r) + length (nr_id r))) of
            None \<Rightarrow> Some (NDEF_OK, dest, out, prev)
          | Some q \<Rightarrow> do {
              (st, d, ol) \<leftarrow> NDEF_MsgAppendPayload dest mx out prev (Some (src, q)) (of_nat (length (nr_pay r)));
              Some (st, d, ol, prev) }
        else do {
          (st, d, ol) \<leftarrow> NDEF_MsgAddRec dest mx out (nr_tnf r)
            (map_option (Pair src) (if nr_type r = [] then None else Some (p + length (nr_head r)))) (of_nat (length (nr_type r)))
            (map_option (Pair src) (if nr_id r = [] then None else Some (p + length (nr_head r) + length (nr_type r)))) (of_nat (length (nr_id r)))
            (map_option (Pair src) (if nr_pay r = [] then None else Some (p + length (nr_head r) + length (nr_type r) + length (nr_id r)))) (of_nat (length (nr_pay r)));
          Some (st, d, ol, unat out) }) = Some (NDEF_OK, d', of_nat (length (msg_enc ?acc)), prev')"
    "length d' = length dest" "dechunk_inv d' ?acc (of_nat (length (msg_enc ?acc))) prev'"
    using dechunk_add [OF Cons.prems(3) r fit Cons.prems(6)] dechunk_join [OF Cons.prems(3) r fit Cons.prems(6)]
      unch Cons.prems(3) of_nat_unat_u32 [OF out]
    by (cases "nr_tnf r = NDEF_TNF_UNCHANGED"; cases "nr_pay r = []") (auto simp: rs_join_def)
  note step = ndef_dechunk_loop.simps [of src mx p dest out prev, unfolded RecGetType_enc [OF r] RecGetId_enc [OF r]
      RecGetPayload_enc [OF r] GetNextRec_enc [OF r]]
  have eq: "ndef_dechunk_loop src mx p dest out prev = (if nr_me r then Some (NDEF_OK, d', of_nat (length (msg_enc ?acc)))
     else ndef_dechunk_loop src mx (p + length (nr_enc r)) d' (of_nat (length (msg_enc ?acc))) prev')"
    unfolding step using d'(1) by simp
  have acc: "?acc \<noteq> []" "length (msg_enc ?acc) \<le> length (msg_enc acc) + length (nr_enc r)"
    using rs_join_canonical(1) [OF can unch] rs_join_length [OF can r(1) unch] by simp_all
  show ?case
  proof (cases "rs = []")
    case True
    then show ?thesis using eq d' acc Cons.prems(1) by (auto simp: msg_at_Cons)
  next
    case False
    then have "msg_at src (p + length (nr_enc r)) rs" "recs_ok True False (nr_cf r) rs" "\<not> nr_me r"
      using Cons.prems(1,2) by (simp_all add: msg_at_Cons)
    then show ?thesis
      using Cons.IH [OF _ _ d'(3)] acc Cons.prems(5,6) d'(2) eq by fastforce
  qed
qed simp


lemma rs_join_content:
  assumes "nr_tnf r = NDEF_TNF_UNCHANGED \<Longrightarrow> acc \<noteq> []"
  shows "list_all (\<lambda>r. \<not> nr_cf r) acc \<Longrightarrow> list_all (\<lambda>r. \<not> nr_cf r) (rs_join acc r)"
    and "concat (map nr_pay (rs_join acc r)) = concat (map nr_pay acc) @ nr_pay r"
proof -
  have split: "acc \<noteq> [] \<Longrightarrow> acc = butlast acc @ [last acc]" by simp
  show "list_all (\<lambda>r. \<not> nr_cf r) acc \<Longrightarrow> list_all (\<lambda>r. \<not> nr_cf r) (rs_join acc r)"
    using nr_new_flags(5) [OF nr_tnf_le [of r]] assms
    by (auto simp: rs_join_def rs_add_def list_all_iff nr_clear_me_flags nr_append_flags dest: in_set_butlastD)
  have "acc \<noteq> [] \<Longrightarrow> concat (map nr_pay acc) = concat (map nr_pay (butlast acc)) @ nr_pay (last acc)"
    by (subst split) (simp_all del: append_butlast_last_id)
  then show "concat (map nr_pay (rs_join acc r)) = concat (map nr_pay acc) @ nr_pay r"
    using assms by (auto simp: rs_join_def rs_add_def nr_clear_me_flags nr_append_flags)
qed

lemma dechunk_content:
  "recs_ok True first inch rs \<Longrightarrow> inch \<longrightarrow> acc \<noteq> [] \<Longrightarrow> list_all (\<lambda>r. \<not> nr_cf r) acc \<Longrightarrow>
   list_all (\<lambda>r. \<not> nr_cf r) (foldl rs_join acc rs) \<and>
   concat (map nr_pay (foldl rs_join acc rs)) = concat (map nr_pay acc) @ concat (map nr_pay rs)"
proof (induction rs arbitrary: first inch acc)
  case (Cons r rs)
  have unch: "nr_tnf r = NDEF_TNF_UNCHANGED \<Longrightarrow> acc \<noteq> []"
    using Cons.prems(1,2) by (auto simp: rec_ok_def split: if_splits)
  have ne: "rs_join acc r \<noteq> []" using unch by (auto simp: rs_join_def rs_add_def)
  show ?case
    using Cons.IH [of False "nr_cf r" "rs_join acc r"] Cons.prems rs_join_content [OF unch] ne
    by (cases "rs = []") auto
qed simp

text \<open>C19. \<^verbatim>\<open>NDEF_MsgCopyAndDechunk\<close> of a valid, possibly chunked, message into a buffer of the same size always
  succeeds: the destination holds the records with every chunked payload joined, no record has the
  chunk flag, the payload bytes are those of the source in order, and the result is not longer than
  the source, so the copy never runs out of room.\<close>

theorem NDEF_MsgCopyAndDechunk_ok:
  assumes len: "unat len \<le> length src" and ok: "NDEF_MsgValidate (Some src) len True = Some NDEF_OK"
    and room: "unat len \<le> length dest"
  shows "\<exists>rs d'. ndef_msg_ok True rs \<and> msg_enc rs = take (unat len) src \<and>
    NDEF_MsgCopyAndDechunk src len dest = Some (NDEF_OK, d', Some (of_nat (length (msg_enc (foldl rs_join [] rs))))) \<and>
    length d' = length dest \<and> msg_at d' 0 (foldl rs_join [] rs) \<and>
    length (msg_enc (foldl rs_join [] rs)) \<le> unat len \<and> list_all (\<lambda>r. \<not> nr_cf r) (foldl rs_join [] rs) \<and>
    concat (map nr_pay (foldl rs_join [] rs)) = concat (map nr_pay rs)"
proof -
  obtain rs where rs: "ndef_msg_ok True rs" "msg_enc rs = take (unat len) src" and at: "msg_at src 0 rs"
    using validated_msg_at [OF len ok] by blast
  have r: "recs_ok True True False rs" using rs(1) by (simp add: ndef_msg_ok_def)
  have l: "length (msg_enc rs) = unat len" using rs(2) len by simp
  obtain d where d: "wr_bytes dest 0 (replicate (unat len) 0) = Some d" "length d = length dest"
    using wr_bytes_ex [of 0 "replicate (unat len) 0" dest] wr_bytes_length room by fastforce
  have inv: "dechunk_inv d [] 0 0" by (simp add: dechunk_inv_def)
  obtain d' prev' where "ndef_dechunk_loop src len 0 d 0 0 = Some (NDEF_OK, d', of_nat (length (msg_enc (foldl rs_join [] rs))))"
    "length d' = length d" "msg_at d' 0 (foldl rs_join [] rs)" "length (msg_enc (foldl rs_join [] rs)) \<le> unat len"
    using dechunk_loop_ok [OF at r inv] l room d(2) by (auto simp: dechunk_inv_def)
  then show ?thesis
    using dechunk_content [OF r, of "[]"] ok d rs
    by (auto simp: NDEF_MsgCopyAndDechunk_def NDEF_MsgInit_def)
qed

text \<open>A message whose only payload comes in two chunks.\<close>

definition chunk_sample :: mem where
  "chunk_sample = [0xB1, 1, 1, 0x54, 0x61, 0x56, 0, 2, 0x62, 0x63]"

theorem NDEF_MsgCopyAndDechunk_ok_witness:
  "NDEF_MsgValidate (Some chunk_sample) 10 True = Some NDEF_OK \<and>
   (\<exists>rs d'. msg_enc rs = chunk_sample \<and> msg_at d' 0 (foldl rs_join [] rs) \<and>
    NDEF_MsgCopyAndDechunk chunk_sample 10 (replicate 10 0) =
      Some (NDEF_OK, d', Some (of_nat (length (msg_enc (foldl rs_join [] rs))))))"
proof -
  have 1: "NDEF_MsgValidate (Some chunk_sample) 10 True = Some NDEF_OK" by code_simp
  have 2: "unat (10 :: u32) \<le> length chunk_sample" "unat (10 :: u32) \<le> length (replicate 10 0 :: mem)"
    "take (unat (10 :: u32)) chunk_sample = chunk_sample"
    by (simp_all add: chunk_sample_def)
  show ?thesis
    using NDEF_MsgCopyAndDechunk_ok [OF 2(1) 1 2(2)] 1 2(3) by auto
qed

end
