(* ===== verification/NdefFindings.thy ===== *)
theory NdefFindings
  imports NdefModel
begin

text \<open>
  Inputs on which the editing routines of \<^verbatim>\<open>ndef_utils.cc\<close> do not do what they mean to. Each message
  below is accepted by \<^verbatim>\<open>NDEF_MsgValidate\<close>; the cases are exactly those the hypotheses of the
  correctness theorems in \<open>NdefUpdate\<close> exclude, or routines that have no such theorem.
\<close>

text \<open>Two records: an empty payload, then four payload bytes.\<close>

definition widen_msg :: mem where
  "widen_msg = [0x91, 1, 0, 0x54, 0x51, 1, 4, 0x55, 1, 2, 3, 4]"

text \<open>\<^verbatim>\<open>NDEF_MsgAppendPayload\<close> on a record that is not the last one, growing from below 256 bytes to 256
  or more: the routine reports success and the right size, but the records behind it are moved with
  the size from before the length field was widened, so the next record loses its last bytes.\<close>

theorem append_widen_corrupts_next:
  "NDEF_MsgValidate (Some widen_msg) 12 False = Some NDEF_OK \<and>
   (case NDEF_MsgAppendPayload (widen_msg @ replicate 300 0) 312 12 0 (Some (replicate 256 7, 0)) 256 of
      Some (NDEF_OK, m', n) \<Rightarrow> n = 271 \<and> NDEF_MsgGetRecByIndex m' 1 = Some (Some 263) \<and>
        rd_bytes m' 263 8 \<noteq> rd_bytes widen_msg 4 8
    | _ \<Rightarrow> False)"
  by code_simp

text \<open>\<^verbatim>\<open>NDEF_MsgCopyAndDechunk\<close> of a valid message with an empty record reports success, but the copy has
  no ID length field and is rejected by \<^verbatim>\<open>NDEF_MsgValidate\<close>: \<^verbatim>\<open>NDEF_MsgAddRec\<close> drops the zero ID
  length that an empty record must have.\<close>

theorem dechunk_empty_invalid:
  "NDEF_MsgValidate (Some [0xD8, 0, 0, 0]) 4 True = Some NDEF_OK \<and>
   NDEF_MsgCopyAndDechunk [0xD8, 0, 0, 0] 4 [0, 0, 0, 0] = Some (NDEF_OK, [0xD0, 0, 0, 0], Some 3) \<and>
   NDEF_MsgValidate (Some [0xD0, 0, 0, 0]) 3 True = Some NDEF_MSG_INVALID_EMPTY_REC"
  by code_simp

text \<open>One long-form record with 256 payload bytes.\<close>

definition long_msg :: mem where
  "long_msg = [0xC1, 1, 0, 0, 1, 0, 0x54] @ replicate 256 7"

text \<open>Shrinking the payload of a long-form record below 256 bytes with \<^verbatim>\<open>NDEF_MsgReplacePayload\<close>, and removing
  a one-byte ID with \<^verbatim>\<open>NDEF_MsgReplaceId\<close>, read past the end of a buffer that is exactly as long as
  the message: the byte counts of the two \<^verbatim>\<open>shiftup\<close> calls are too large.\<close>

theorem replace_reads_past_end:
  "NDEF_MsgValidate (Some long_msg) 263 False = Some NDEF_OK \<and>
   NDEF_MsgReplacePayload long_msg 263 263 0 (Some ([1], 0)) 1 = None \<and>
   NDEF_MsgValidate (Some [0xD9, 1, 1, 1, 0x54, 0x61, 0x62]) 7 False = Some NDEF_OK \<and>
   NDEF_MsgReplaceId [0xD9, 1, 1, 1, 0x54, 0x61, 0x62] 7 7 0 None 0 = None"
  by code_simp

end
