(* ===== verification/GkiBuffer.thy ===== *)
theory GkiBuffer
  imports NfcPrelude
begin

unbundle bit_operations_syntax

text \<open>
  The buffer manager of the kernel interface (\<^verbatim>\<open>gki/common/gki_buffer.cc\<close>), in the configuration the
  Android build compiles: \<^verbatim>\<open>DYN_ALLOC\<close> (buffers come from \<^verbatim>\<open>malloc\<close>) with the corruption check.
  Pointers are addresses (0 is null); a header lives at an address of the heap and the pointer a client
  holds is \<^verbatim>\<open>BUFFER_HDR_SIZE\<close> behind it. Reading a header through an address where no buffer is, is
  undefined behaviour and yields \<open>None\<close>. \<^verbatim>\<open>GKI_disable\<close> and \<^verbatim>\<open>GKI_enable\<close> bracket the critical section, so each
  operation is one atomic step; \<^verbatim>\<open>GKI_exception\<close> only logs and appends its code to \<open>g_exc\<close>.
\<close>

section \<open>State\<close>

abbreviation (input) "BUFFER_HDR_SIZE \<equiv> 16 :: nat"
abbreviation (input) "BUFFER_PADDING_SIZE \<equiv> 20 :: nat"
abbreviation (input) "MAGIC_NO \<equiv> 0xDDBADDBA :: u32"
abbreviation (input) "BUF_STATUS_FREE \<equiv> 0 :: u8"
abbreviation (input) "BUF_STATUS_UNLINKED \<equiv> 1 :: u8"
abbreviation (input) "BUF_STATUS_QUEUED \<equiv> 2 :: u8"
abbreviation (input) "GKI_NUM_TOTAL_BUF_POOLS \<equiv> 10 :: nat"
abbreviation (input) "GKI_MAX_TASKS \<equiv> 14 :: nat"
abbreviation (input) "NUM_TASK_MBOX \<equiv> 4 :: nat"
abbreviation (input) "GKI_INVALID_TASK \<equiv> 0xF0 :: u8"
abbreviation (input) "GKI_INVALID_POOL \<equiv> 0xFF :: u8"
abbreviation (input) "TASK_DEAD \<equiv> 0 :: u8"
abbreviation (input) "MAX_USER_BUF_SIZE \<equiv> 0xFFFF - BUFFER_PADDING_SIZE"

abbreviation (input) "GKI_ERROR_BUF_CORRUPTED \<equiv> 0xFFFF :: u16"
abbreviation (input) "GKI_ERROR_FREEBUF_BAD_QID \<equiv> 0xFFFD :: u16"
abbreviation (input) "GKI_ERROR_FREEBUF_BUF_LINKED \<equiv> 0xFFFC :: u16"
abbreviation (input) "GKI_ERROR_SEND_MSG_BAD_DEST \<equiv> 0xFFFB :: u16"
abbreviation (input) "GKI_ERROR_SEND_MSG_BUF_LINKED \<equiv> 0xFFFA :: u16"
abbreviation (input) "GKI_ERROR_ENQUEUE_BUF_LINKED \<equiv> 0xFFF9 :: u16"
abbreviation (input) "GKI_ERROR_DELETE_POOL_BAD_QID \<equiv> 0xFFF8 :: u16"
abbreviation (input) "GKI_ERROR_BUF_SIZE_ZERO \<equiv> 0xFFF6 :: u16"

text \<open>A buffer: the header fields, the user area and the guard word behind it.\<close>

record buffer_hdr =
  bh_next :: nat
  bh_q_id :: u8
  bh_task_id :: u8
  bh_status :: u8
  bh_Type :: u8
  bh_size :: u16
  bh_data :: "u8 list"
  bh_magic :: u32

record free_queue =
  fq_first :: nat
  fq_last :: nat
  fq_size :: u16
  fq_total :: u16
  fq_cur_cnt :: u16
  fq_max_cnt :: u16

record buffer_q =
  bq_first :: nat
  bq_last :: nat
  bq_count :: u16

type_synonym heap = "nat \<rightharpoonup> buffer_hdr"

record gki =
  g_heap :: heap
  g_freeq :: "nat \<Rightarrow> free_queue"
  OSTaskQFirst :: "nat \<times> nat \<Rightarrow> nat"
  OSTaskQLast :: "nat \<times> nat \<Rightarrow> nat"
  OSRdyTbl :: "nat \<Rightarrow> u8"
  OSWaitEvt :: "nat \<Rightarrow> u16"
  pool_start :: "nat \<Rightarrow> nat"
  pool_end :: "nat \<Rightarrow> nat"
  pool_size :: "nat \<Rightarrow> u16"
  pool_access_mask :: u16
  pool_list :: "nat list"
  curr_total_no_of_pools :: nat
  g_exc :: "u16 list"

definition GKI_exception :: "u16 \<Rightarrow> gki \<Rightarrow> gki" where
  "GKI_exception code g = g\<lparr>g_exc := g_exc g @ [code]\<rparr>"

text \<open>The header address behind a client pointer; an address below the header size is wild.\<close>

definition hdr_of :: "nat \<Rightarrow> nat option" where
  "hdr_of p_buf = (if p_buf \<le> BUFFER_HDR_SIZE then None else Some (p_buf - BUFFER_HDR_SIZE))"

definition rd_hdr :: "heap \<Rightarrow> nat \<Rightarrow> buffer_hdr option" where
  "rd_hdr h p_buf = do { a \<leftarrow> hdr_of p_buf; h a }"

definition upd_hdr :: "heap \<Rightarrow> nat \<Rightarrow> (buffer_hdr \<Rightarrow> buffer_hdr) \<Rightarrow> heap option" where
  "upd_hdr h a f = do { b \<leftarrow> h a; Some (h(a \<mapsto> f b)) }"

definition ALIGN_POOL :: "nat \<Rightarrow> nat" where
  "ALIGN_POOL n = (n + 3) div 4 * 4"

section \<open>Initialisation and pools\<close>

definition empty_freeq :: free_queue where
  "empty_freeq = \<lparr>fq_first = 0, fq_last = 0, fq_size = 0, fq_total = 0, fq_cur_cnt = 0, fq_max_cnt = 0\<rparr>"

text \<open>The header loop of \<^verbatim>\<open>gki_init_free_queue\<close>: every header is linked to the address one element further;
  the caller cuts the last link. Fields the loop does not write are those of the new memory, taken as zero.\<close>

fun init_hdrs :: "heap \<Rightarrow> u8 \<Rightarrow> nat \<Rightarrow> nat \<Rightarrow> nat \<Rightarrow> nat \<Rightarrow> heap" where
  "init_hdrs h qid tempsize act_size hdr 0 = h"
| "init_hdrs h qid tempsize act_size hdr (Suc n) =
     init_hdrs (h(hdr \<mapsto> \<lparr>bh_next = hdr + act_size, bh_q_id = qid, bh_task_id = GKI_INVALID_TASK,
        bh_status = BUF_STATUS_FREE, bh_Type = 0, bh_size = 0, bh_data = replicate tempsize 0, bh_magic = MAGIC_NO\<rparr>))
       qid tempsize act_size (hdr + act_size) n"

definition gki_init_free_queue :: "u8 \<Rightarrow> u16 \<Rightarrow> u16 \<Rightarrow> nat \<Rightarrow> gki \<Rightarrow> gki" where
  "gki_init_free_queue qid sz tot p_mem g =
     (let tempsize = ALIGN_POOL (unat sz);
          act_size = (of_nat (tempsize + BUFFER_PADDING_SIZE) :: u16);
          i = unat qid;
          g = (if p_mem \<noteq> 0 then g\<lparr>pool_start := (pool_start g)(i := p_mem),
                 pool_end := (pool_end g)(i := p_mem + unat act_size * unat tot)\<rparr> else g);
          g = g\<lparr>pool_size := (pool_size g)(i := act_size),
                g_freeq := (g_freeq g)(i := (g_freeq g i)\<lparr>fq_size := of_nat tempsize, fq_total := tot,
                   fq_cur_cnt := 0, fq_max_cnt := 0\<rparr>)\<rparr>
      in if p_mem \<noteq> 0
         then let h = init_hdrs (g_heap g) qid tempsize (unat act_size) p_mem (unat tot);
                  p_last = p_mem + unat act_size * (unat tot - 1);
                  h' = (case h p_last of Some b \<Rightarrow> h(p_last \<mapsto> b\<lparr>bh_next := 0\<rparr>) | None \<Rightarrow> h)
              in g\<lparr>g_heap := h', g_freeq := (g_freeq g)(i := (g_freeq g i)\<lparr>fq_first := p_mem, fq_last := p_last\<rparr>)\<rparr>
         else g)"

definition gki_buffer_init :: "gki \<Rightarrow> gki" where
  "gki_buffer_init g = g\<lparr>
     OSTaskQFirst := (\<lambda>(tt, mb). if tt < GKI_MAX_TASKS \<and> mb < NUM_TASK_MBOX then 0 else OSTaskQFirst g (tt, mb)),
     OSTaskQLast := (\<lambda>(tt, mb). if tt < GKI_MAX_TASKS \<and> mb < NUM_TASK_MBOX then 0 else OSTaskQLast g (tt, mb)),
     pool_start := (\<lambda>tt. if tt < GKI_NUM_TOTAL_BUF_POOLS then 0 else pool_start g tt),
     pool_end := (\<lambda>tt. if tt < GKI_NUM_TOTAL_BUF_POOLS then 0 else pool_end g tt),
     pool_size := (\<lambda>tt. if tt < GKI_NUM_TOTAL_BUF_POOLS then 0 else pool_size g tt),
     g_freeq := (\<lambda>tt. if tt < GKI_NUM_TOTAL_BUF_POOLS then empty_freeq else g_freeq g tt),
     pool_access_mask := 0xFFF0,
     curr_total_no_of_pools := 0\<rparr>"

definition GKI_init_q :: "buffer_q \<Rightarrow> buffer_q" where
  "GKI_init_q q = q\<lparr>bq_first := 0, bq_last := 0, bq_count := 0\<rparr>"

section \<open>Allocation\<close>

text \<open>\<open>os_malloc\<close> is the C library's allocator: the address of a free block, or 0. When it fails the
  process is aborted, which is \<open>None\<close>. \<open>tid\<close> is the task of the running thread.\<close>

definition GKI_getbuf :: "(heap \<Rightarrow> nat \<Rightarrow> nat) \<Rightarrow> u8 \<Rightarrow> u16 \<Rightarrow> gki \<Rightarrow> (nat \<times> gki) option" where
  "GKI_getbuf os_malloc tid sz g =
     (if sz = 0 \<or> unat sz > 0xFFFF - 3 then Some (0, g)
      else let sz = (of_nat (ALIGN_POOL (unat sz)) :: u16);
               total_sz = unat sz + BUFFER_PADDING_SIZE;
               p_hdr = os_malloc (g_heap g) total_sz
           in if p_hdr = 0 then None
              else let b = \<lparr>bh_next = 0, bh_q_id = 0, bh_task_id = tid, bh_status = BUF_STATUS_UNLINKED,
                            bh_Type = 0, bh_size = sz, bh_data = replicate (unat sz) 0, bh_magic = MAGIC_NO\<rparr>;
                       Q = g_freeq g 0;
                       c = fq_cur_cnt Q + 1;
                       Q' = Q\<lparr>fq_cur_cnt := c, fq_max_cnt := (if c > fq_max_cnt Q then c else fq_max_cnt Q)\<rparr>
                   in Some (p_hdr + BUFFER_HDR_SIZE,
                            g\<lparr>g_heap := (g_heap g)(p_hdr \<mapsto> b), g_freeq := (g_freeq g)(0 := Q')\<rparr>))"

definition GKI_getpoolbuf :: "(heap \<Rightarrow> nat \<Rightarrow> nat) \<Rightarrow> u8 \<Rightarrow> u8 \<Rightarrow> gki \<Rightarrow> (nat \<times> gki) option" where
  "GKI_getpoolbuf os_malloc tid pool_id g =
     (if pool_id = 2 then GKI_getbuf os_malloc tid 660 g
      else if pool_id = 3 then GKI_getbuf os_malloc tid 0xFFB0 g
      else Some (0, g))"

definition GKI_get_buf_size :: "heap \<Rightarrow> nat \<Rightarrow> u16 option" where
  "GKI_get_buf_size h p_buf = map_option bh_size (rd_hdr h p_buf)"

definition gki_chk_buf_damage :: "heap \<Rightarrow> nat \<Rightarrow> bool option" where
  "gki_chk_buf_damage h p_buf = do {
     sz \<leftarrow> GKI_get_buf_size h p_buf;
     if odd (p_buf + unat sz) then Some True
     else do { b \<leftarrow> rd_hdr h p_buf; Some (bh_magic b \<noteq> MAGIC_NO) } }"

definition GKI_freebuf :: "nat \<Rightarrow> gki \<Rightarrow> gki option" where
  "GKI_freebuf p_buf g = do {
     damaged \<leftarrow> (if p_buf = 0 then Some True else gki_chk_buf_damage (g_heap g) p_buf);
     if damaged then Some (GKI_exception GKI_ERROR_BUF_CORRUPTED g)
     else do {
       p_hdr \<leftarrow> hdr_of p_buf;
       b \<leftarrow> g_heap g p_hdr;
       if bh_status b \<noteq> BUF_STATUS_UNLINKED then Some (GKI_exception GKI_ERROR_FREEBUF_BUF_LINKED g)
       else if unat (bh_q_id b) \<ge> GKI_NUM_TOTAL_BUF_POOLS then Some (GKI_exception GKI_ERROR_FREEBUF_BAD_QID g)
       else let i = unat (bh_q_id b); Q = g_freeq g i;
                Q' = (if fq_cur_cnt Q > 0 then Q\<lparr>fq_cur_cnt := fq_cur_cnt Q - 1\<rparr> else Q)
            in Some (g\<lparr>g_freeq := (g_freeq g)(i := Q'), g_heap := (g_heap g)(p_hdr := None)\<rparr>) } }"

section \<open>Mailboxes\<close>

definition GKI_send_event :: "u8 \<Rightarrow> u16 \<Rightarrow> gki \<Rightarrow> u8 \<times> gki" where
  "GKI_send_event task_id event g =
     (if unat task_id < GKI_MAX_TASKS
      then (0, g\<lparr>OSWaitEvt := (OSWaitEvt g)(unat task_id := OSWaitEvt g (unat task_id) OR event)\<rparr>)
      else (1, g))"

definition EVENT_MASK :: "u8 \<Rightarrow> u16" where
  "EVENT_MASK evt = push_bit (unat evt) 1"

definition GKI_send_msg :: "u8 \<Rightarrow> u8 \<Rightarrow> nat \<Rightarrow> gki \<Rightarrow> gki option" where
  "GKI_send_msg task_id mbox msg g =
     (let k = (unat task_id, unat mbox) in
      if unat task_id \<ge> GKI_MAX_TASKS \<or> unat mbox \<ge> NUM_TASK_MBOX \<or> OSRdyTbl g (unat task_id) = TASK_DEAD
      then GKI_freebuf msg (GKI_exception GKI_ERROR_SEND_MSG_BAD_DEST g)
      else do {
        damaged \<leftarrow> gki_chk_buf_damage (g_heap g) msg;
        if damaged then Some (GKI_exception GKI_ERROR_BUF_CORRUPTED g)
        else do {
          p_hdr \<leftarrow> hdr_of msg;
          b \<leftarrow> g_heap g p_hdr;
          if bh_status b \<noteq> BUF_STATUS_UNLINKED then Some (GKI_exception GKI_ERROR_SEND_MSG_BUF_LINKED g)
          else do {
            h1 \<leftarrow> (if OSTaskQFirst g k \<noteq> 0 then upd_hdr (g_heap g) (OSTaskQLast g k) (\<lambda>b. b\<lparr>bh_next := p_hdr\<rparr>)
                  else Some (g_heap g));
            h2 \<leftarrow> upd_hdr h1 p_hdr (\<lambda>b. b\<lparr>bh_next := 0, bh_status := BUF_STATUS_QUEUED, bh_task_id := task_id\<rparr>);
            let g = g\<lparr>g_heap := h2,
                OSTaskQFirst := (if OSTaskQFirst g k \<noteq> 0 then OSTaskQFirst g else (OSTaskQFirst g)(k := p_hdr)),
                OSTaskQLast := (OSTaskQLast g)(k := p_hdr)\<rparr>;
            Some (snd (GKI_send_event task_id (EVENT_MASK mbox) g)) } } })"

definition GKI_read_mbox :: "u8 \<Rightarrow> u8 \<Rightarrow> gki \<Rightarrow> (nat \<times> gki) option" where
  "GKI_read_mbox tid mbox g =
     (let k = (unat tid, unat mbox) in
      if unat tid \<ge> GKI_MAX_TASKS \<or> unat mbox \<ge> NUM_TASK_MBOX then Some (0, g)
      else if OSTaskQFirst g k \<noteq> 0
      then do {
        let p_hdr = OSTaskQFirst g k;
        b \<leftarrow> g_heap g p_hdr;
        h \<leftarrow> upd_hdr (g_heap g) p_hdr (\<lambda>b. b\<lparr>bh_next := 0, bh_status := BUF_STATUS_UNLINKED\<rparr>);
        Some (p_hdr + BUFFER_HDR_SIZE, g\<lparr>g_heap := h, OSTaskQFirst := (OSTaskQFirst g)(k := bh_next b)\<rparr>) }
      else Some (0, g))"

section \<open>Application queues\<close>

text \<open>The shared guards of \<^verbatim>\<open>GKI_enqueue\<close> and \<^verbatim>\<open>GKI_enqueue_head\<close>: a damaged or a linked buffer is
  refused (\<open>Inl\<close> of the exception), otherwise the header address is returned.\<close>

definition gki_enqueue_check :: "heap \<Rightarrow> nat \<Rightarrow> (u16 + nat) option" where
  "gki_enqueue_check h p_buf = do {
     damaged \<leftarrow> gki_chk_buf_damage h p_buf;
     if damaged then Some (Inl GKI_ERROR_BUF_CORRUPTED)
     else do {
       p_hdr \<leftarrow> hdr_of p_buf;
       b \<leftarrow> h p_hdr;
       if bh_status b \<noteq> BUF_STATUS_UNLINKED then Some (Inl GKI_ERROR_ENQUEUE_BUF_LINKED)
       else Some (Inr p_hdr) } }"

definition GKI_enqueue :: "nat \<Rightarrow> gki \<times> buffer_q \<Rightarrow> (gki \<times> buffer_q) option" where
  "GKI_enqueue p_buf gq = (case gq of (g, q) \<Rightarrow> do {
     r \<leftarrow> gki_enqueue_check (g_heap g) p_buf;
     case r of Inl e \<Rightarrow> Some (GKI_exception e g, q)
     | Inr p_hdr \<Rightarrow> do {
         h1 \<leftarrow> (if bq_first q \<noteq> 0
               then do { p_last_hdr \<leftarrow> hdr_of (bq_last q); upd_hdr (g_heap g) p_last_hdr (\<lambda>b. b\<lparr>bh_next := p_hdr\<rparr>) }
               else Some (g_heap g));
         h2 \<leftarrow> upd_hdr h1 p_hdr (\<lambda>b. b\<lparr>bh_next := 0, bh_status := BUF_STATUS_QUEUED\<rparr>);
         Some (g\<lparr>g_heap := h2\<rparr>, q\<lparr>bq_first := (if bq_first q \<noteq> 0 then bq_first q else p_buf),
                                bq_last := p_buf, bq_count := bq_count q + 1\<rparr>) } })"

definition GKI_enqueue_head :: "nat \<Rightarrow> gki \<times> buffer_q \<Rightarrow> (gki \<times> buffer_q) option" where
  "GKI_enqueue_head p_buf gq = (case gq of (g, q) \<Rightarrow> do {
     r \<leftarrow> gki_enqueue_check (g_heap g) p_buf;
     case r of Inl e \<Rightarrow> Some (GKI_exception e g, q)
     | Inr p_hdr \<Rightarrow> do {
         nxt \<leftarrow> (if bq_first q \<noteq> 0 then hdr_of (bq_first q) else Some 0);
         h \<leftarrow> upd_hdr (g_heap g) p_hdr (\<lambda>b. b\<lparr>bh_next := nxt, bh_status := BUF_STATUS_QUEUED\<rparr>);
         Some (g\<lparr>g_heap := h\<rparr>, q\<lparr>bq_first := p_buf,
            bq_last := (if bq_first q \<noteq> 0 then bq_last q else p_buf), bq_count := bq_count q + 1\<rparr>) } })"

text \<open>The queue control block is passed by value, so the null queue pointer that \<^verbatim>\<open>GKI_dequeue\<close> answers with
  null does not arise here.\<close>

definition GKI_dequeue :: "gki \<times> buffer_q \<Rightarrow> (nat \<times> gki \<times> buffer_q) option" where
  "GKI_dequeue gq = (case gq of (g, q) \<Rightarrow>
     if bq_count q = 0 then Some (0, g, q)
     else do {
       p_hdr \<leftarrow> hdr_of (bq_first q);
       b \<leftarrow> g_heap g p_hdr;
       h \<leftarrow> upd_hdr (g_heap g) p_hdr (\<lambda>b. b\<lparr>bh_next := 0, bh_status := BUF_STATUS_UNLINKED\<rparr>);
       let q' = (if bh_next b \<noteq> 0 then q\<lparr>bq_first := bh_next b + BUFFER_HDR_SIZE\<rparr>
                 else q\<lparr>bq_first := 0, bq_last := 0\<rparr>);
       Some (p_hdr + BUFFER_HDR_SIZE, g\<lparr>g_heap := h\<rparr>, q'\<lparr>bq_count := bq_count q - 1\<rparr>) })"

text \<open>The search of \<^verbatim>\<open>GKI_remove_from_queue\<close> for the header before the given one; 0 when the list ends.
  On a cyclic list the loop does not end.\<close>

partial_function (option) gki_find_prev :: "heap \<Rightarrow> nat \<Rightarrow> nat \<Rightarrow> nat option" where
  "gki_find_prev h p_buf_hdr p_prev =
     (if p_prev = 0 then Some 0
      else Option.bind (h p_prev) (\<lambda>b. if bh_next b = p_buf_hdr then Some p_prev
        else gki_find_prev h p_buf_hdr (bh_next b)))"

declare gki_find_prev.simps [code]

definition GKI_remove_from_queue :: "nat \<Rightarrow> gki \<times> buffer_q \<Rightarrow> (nat \<times> gki \<times> buffer_q) option" where
  "GKI_remove_from_queue p_buf gq = (case gq of (g, q) \<Rightarrow>
     if p_buf = bq_first q then GKI_dequeue (g, q)
     else do {
       p_buf_hdr \<leftarrow> hdr_of p_buf;
       p_first_hdr \<leftarrow> hdr_of (bq_first q);
       p_prev \<leftarrow> gki_find_prev (g_heap g) p_buf_hdr p_first_hdr;
       if p_prev = 0 then Some (0, g, q)
       else do {
         b \<leftarrow> g_heap g p_buf_hdr;
         h1 \<leftarrow> upd_hdr (g_heap g) p_prev (\<lambda>pb. pb\<lparr>bh_next := bh_next b\<rparr>);
         h2 \<leftarrow> upd_hdr h1 p_buf_hdr (\<lambda>b. b\<lparr>bh_next := 0, bh_status := BUF_STATUS_UNLINKED\<rparr>);
         Some (p_buf, g\<lparr>g_heap := h2\<rparr>,
           q\<lparr>bq_last := (if p_buf = bq_last q then p_prev + BUFFER_HDR_SIZE else bq_last q),
             bq_count := bq_count q - 1\<rparr>) } })"

definition GKI_getfirst :: "buffer_q \<Rightarrow> nat" where "GKI_getfirst q = bq_first q"
definition GKI_getlast :: "buffer_q \<Rightarrow> nat" where "GKI_getlast q = bq_last q"

definition GKI_getnext :: "heap \<Rightarrow> nat \<Rightarrow> nat option" where
  "GKI_getnext h p_buf = do {
     b \<leftarrow> rd_hdr h p_buf;
     Some (if bh_next b \<noteq> 0 then bh_next b + BUFFER_HDR_SIZE else 0) }"

definition GKI_queue_is_empty :: "buffer_q \<Rightarrow> bool" where
  "GKI_queue_is_empty q \<longleftrightarrow> bq_count q = 0"

end
