(* ===== verification/FifoSpec.thy ===== *)
theory FifoSpec
  imports NfcPrelude
begin

text \<open>
  The contract of a first-in first-out queue, stated once for every queue of the stack: the buffer
  queues and mailboxes of the kernel interface, the byte ring buffer and the JNI data queue. A concrete
  state \<open>s\<close> represents a list of elements; an operation may fail only by undefined behaviour (\<open>None\<close>), which
  the laws exclude.
\<close>

fun put_all :: "('a \<Rightarrow> 's \<Rightarrow> 's option) \<Rightarrow> 'a list \<Rightarrow> 's \<Rightarrow> 's option" where
  "put_all put [] s = Some s"
| "put_all put (a # as) s = do { s' \<leftarrow> put a s; put_all put as s' }"

fun get_n :: "('s \<Rightarrow> ('a option \<times> 's) option) \<Rightarrow> nat \<Rightarrow> 's \<Rightarrow> ('a list \<times> 's) option" where
  "get_n get 0 s = Some ([], s)"
| "get_n get (Suc n) s = do {
     (a, s') \<leftarrow> get s;
     (as, s'') \<leftarrow> get_n get n s';
     Some (case a of None \<Rightarrow> as | Some x \<Rightarrow> x # as, s'') }"

locale fifo =
  fixes rep :: "'s \<Rightarrow> 'a list \<Rightarrow> bool"
    and accepts :: "'a list \<Rightarrow> 's \<Rightarrow> bool"
    and put :: "'a \<Rightarrow> 's \<Rightarrow> 's option"
    and get :: "'s \<Rightarrow> ('a option \<times> 's) option"
  assumes put_rep: "rep s xs \<Longrightarrow> accepts (a # as) s \<Longrightarrow> \<exists>s'. put a s = Some s' \<and> rep s' (xs @ [a]) \<and> accepts as s'"
    and get_rep: "rep s (x # xs) \<Longrightarrow> \<exists>s'. get s = Some (Some x, s') \<and> rep s' xs"
    and get_empty: "rep s [] \<Longrightarrow> get s = Some (None, s)"
begin

lemma put_all_rep: "rep s xs \<Longrightarrow> accepts as s \<Longrightarrow> \<exists>s'. put_all put as s = Some s' \<and> rep s' (xs @ as)"
proof (induction as arbitrary: s xs)
  case (Cons a as)
  obtain s' where s': "put a s = Some s'" "rep s' (xs @ [a])" "accepts as s'" using put_rep [OF Cons.prems] by blast
  then show ?case using Cons.IH [OF s'(2,3)] by auto
qed simp

lemma get_n_rep: "rep s (xs @ ys) \<Longrightarrow> \<exists>s'. get_n get (length xs) s = Some (xs, s') \<and> rep s' ys"
proof (induction xs arbitrary: s)
  case (Cons x xs)
  obtain s' where s': "get s = Some (Some x, s')" "rep s' (xs @ ys)" using get_rep [of s x "xs @ ys"] Cons.prems by auto
  then show ?case using Cons.IH [OF s'(2)] by auto
qed simp

text \<open>What is put in comes out, all of it, in the same order, behind what was there.\<close>

lemma fifo_order:
  assumes "rep s xs" "accepts as s"
  shows "\<exists>s' s''. put_all put as s = Some s' \<and> get_n get (length xs + length as) s' = Some (xs @ as, s'') \<and>
    rep s'' [] \<and> get s'' = Some (None, s'')"
proof -
  obtain s' where s': "put_all put as s = Some s'" "rep s' (xs @ as)" using put_all_rep [OF assms] by blast
  then obtain s'' where s'': "get_n get (length xs + length as) s' = Some (xs @ as, s'')" "rep s'' []"
    using get_n_rep [of s' "xs @ as" "[]"] by auto
  then show ?thesis using s' get_empty by blast
qed

text \<open>Two lists represented by the same state are equal.\<close>

lemma rep_unique: "rep s xs \<Longrightarrow> rep s ys \<Longrightarrow> xs = ys"
proof (induction xs arbitrary: s ys)
  case Nil
  show ?case
  proof (cases ys)
    case (Cons y ys')
    then show ?thesis using Nil get_empty [of s] get_rep [of s y ys'] by auto
  qed simp
next
  case (Cons x xs)
  obtain s' where s': "get s = Some (Some x, s')" "rep s' xs" using get_rep [OF Cons.prems(1)] by blast
  show ?case
  proof (cases ys)
    case Nil
    then show ?thesis using s' get_empty [of s] Cons.prems(2) by auto
  next
    case (Cons y ys')
    then show ?thesis using s' get_rep [of s y ys'] Cons.IH Cons.prems(2) by auto
  qed
qed

end

end
