(* ===== verification/GkiQueue.thy ===== *)
theory GkiQueue
  imports GkiBuffer FifoSpec
begin

unbundle bit_operations_syntax

text \<open>
  The linked queues of \<^verbatim>\<open>gki_buffer.cc\<close> as lists of buffers: the application queues (\<^verbatim>\<open>BUFFER_Q\<close>) and the
  task mailboxes meet the FIFO contract, removal from the middle is list removal, a buffer is never on
  two queues, and operations on one queue leave every other queue alone.
\<close>

section \<open>Linked segments of the heap\<close>

text \<open>\<open>qseg h xs e\<close>: the buffers \<open>xs\<close> (client pointers) are queued, each linked to the next, the last to
  the header address \<open>e\<close>.\<close>

fun qseg :: "heap \<Rightarrow> nat list \<Rightarrow> nat \<Rightarrow> bool" where
  "qseg h [] e = True"
| "qseg h (x # xs) e = (BUFFER_HDR_SIZE < x \<and>
     (\<exists>b. h (x - BUFFER_HDR_SIZE) = Some b \<and> bh_status b = BUF_STATUS_QUEUED \<and>
          bh_next b = (if xs = [] then e else hd xs - BUFFER_HDR_SIZE)) \<and> qseg h xs e)"

lemma qseg_append: "qseg h (xs @ ys) e \<longleftrightarrow> qseg h xs (if ys = [] then e else hd ys - BUFFER_HDR_SIZE) \<and> qseg h ys e"
  by (induction xs) (auto simp: hd_append)

lemma qseg_frame: "a + BUFFER_HDR_SIZE \<notin> set xs \<Longrightarrow> qseg (h(a := v)) xs e = qseg h xs e"
  by (induction xs) auto

lemma qseg_mem: "qseg h xs e \<Longrightarrow> x \<in> set xs \<Longrightarrow> BUFFER_HDR_SIZE < x \<and> (\<exists>b. h (x - BUFFER_HDR_SIZE) = Some b \<and> bh_status b = BUF_STATUS_QUEUED)"
  by (induction xs) auto

lemma qseg_hd: "qseg h xs e \<Longrightarrow> xs \<noteq> [] \<Longrightarrow> BUFFER_HDR_SIZE < hd xs"
  by (cases xs) auto

lemma qseg_relink:
  assumes "qseg h (xs @ [x]) e" "h (x - BUFFER_HDR_SIZE) = Some b" "x \<notin> set xs"
  shows "qseg (h(x - BUFFER_HDR_SIZE \<mapsto> b\<lparr>bh_next := e'\<rparr>)) (xs @ [x]) e'"
proof -
  have "BUFFER_HDR_SIZE < x" using assms(1) by (simp add: qseg_append)
  then have "x - BUFFER_HDR_SIZE + BUFFER_HDR_SIZE \<notin> set xs" using assms(3) by simp
  then show ?thesis using assms by (auto simp: qseg_append qseg_frame)
qed

text \<open>A buffer a client may pass to a queue operation: allocated, undamaged and not linked.\<close>

definition buf_ready :: "heap \<Rightarrow> nat \<Rightarrow> bool" where
  "buf_ready h p \<longleftrightarrow> BUFFER_HDR_SIZE < p \<and> (\<exists>b. h (p - BUFFER_HDR_SIZE) = Some b \<and>
     bh_status b = BUF_STATUS_UNLINKED \<and> bh_magic b = MAGIC_NO \<and> even (p + unat (bh_size b)))"

lemma buf_ready_hdr:
  assumes "buf_ready h p"
  obtains b where "hdr_of p = Some (p - BUFFER_HDR_SIZE)" "h (p - BUFFER_HDR_SIZE) = Some b"
    "bh_status b = BUF_STATUS_UNLINKED" "gki_chk_buf_damage h p = Some False" "BUFFER_HDR_SIZE < p"
  using assms by (auto simp: buf_ready_def hdr_of_def gki_chk_buf_damage_def GKI_get_buf_size_def rd_hdr_def)

lemma ready_not_queued: "qseg h xs e \<Longrightarrow> buf_ready h p \<Longrightarrow> p \<notin> set xs"
  using qseg_mem [of h xs e p] by (auto simp: buf_ready_def)

lemma buf_ready_frame: "p \<noteq> a + BUFFER_HDR_SIZE \<Longrightarrow> buf_ready (h(a := v)) p = buf_ready h p"
  by (auto simp: buf_ready_def)

lemma enqueue_check_ready: "buf_ready h p \<Longrightarrow> gki_enqueue_check h p = Some (Inr (p - BUFFER_HDR_SIZE))"
  by (erule buf_ready_hdr) (simp add: gki_enqueue_check_def)

lemma hdr_of_gt: "BUFFER_HDR_SIZE < p \<Longrightarrow> hdr_of p = Some (p - BUFFER_HDR_SIZE)"
  by (simp add: hdr_of_def)

section \<open>Application queues\<close>

definition qrep :: "gki \<times> buffer_q \<Rightarrow> nat list \<Rightarrow> bool" where
  "qrep gq xs \<longleftrightarrow> distinct xs \<and> unat (bq_count (snd gq)) = length xs \<and>
     bq_first (snd gq) = (if xs = [] then 0 else hd xs) \<and> bq_last (snd gq) = (if xs = [] then 0 else last xs) \<and>
     qseg (g_heap (fst gq)) xs 0"

definition q_accepts :: "nat list \<Rightarrow> gki \<times> buffer_q \<Rightarrow> bool" where
  "q_accepts as gq \<longleftrightarrow> distinct as \<and> (\<forall>p \<in> set as. buf_ready (g_heap (fst gq)) p) \<and>
     unat (bq_count (snd gq)) + length as < 2 ^ 16"

definition q_get :: "gki \<times> buffer_q \<Rightarrow> (nat option \<times> gki \<times> buffer_q) option" where
  "q_get gq = map_option (\<lambda>(p, s). (if p = 0 then None else Some p, s)) (GKI_dequeue gq)"

lemma unat_inc_u16: "unat (c :: u16) + 1 < 2 ^ 16 \<Longrightarrow> unat (c + 1) = unat c + 1"
  by (simp add: unat_word_ariths)

lemma unat_dec_u16: "unat (c :: u16) = Suc n \<Longrightarrow> unat (c - 1) = n"
proof -
  assume a: "unat c = Suc n"
  then have "(1 :: u16) \<le> c" by (simp add: word_le_nat_alt)
  then show ?thesis using a unat_sub [of 1 c] by simp
qed

lemma enqueue_rep:
  assumes rep: "qrep (g, q) xs" and ready: "buf_ready (g_heap g) p" and room: "length xs + 1 < 2 ^ 16"
  shows "\<exists>g' q'. GKI_enqueue p (g, q) = Some (g', q') \<and> qrep (g', q') (xs @ [p]) \<and>
    unat (bq_count q') = Suc (length xs) \<and>
    (\<forall>ys e. qseg (g_heap g) ys e \<and> set ys \<inter> set xs = {} \<longrightarrow> qseg (g_heap g') ys e) \<and>
    (\<forall>r. buf_ready (g_heap g) r \<and> r \<noteq> p \<longrightarrow> buf_ready (g_heap g') r)"
proof -
  obtain b where b: "g_heap g (p - BUFFER_HDR_SIZE) = Some b" "BUFFER_HDR_SIZE < p"
    using ready by (auto simp: buf_ready_def)
  have pn: "p \<notin> set xs" using ready_not_queued [OF _ ready] rep by (auto simp: qrep_def)
  have pe: "p - BUFFER_HDR_SIZE + BUFFER_HDR_SIZE = p" using b(2) by simp
  define b' where "b' = b\<lparr>bh_next := 0, bh_status := BUF_STATUS_QUEUED\<rparr>"
  have cnt: "unat (bq_count q + 1) = Suc (length xs)"
    using rep room unat_inc_u16 [of "bq_count q"] by (simp add: qrep_def)
  show ?thesis
  proof (cases "xs = []")
    case True
    then show ?thesis
      using rep ready cnt b pe ready_not_queued [OF _ ready] buf_ready_frame [of _ "p - BUFFER_HDR_SIZE"]
      by (auto simp: GKI_enqueue_def enqueue_check_ready upd_hdr_def qrep_def qseg_frame)
  next
    case False
    define l where "l = last xs"
    have xs: "xs = butlast xs @ [l]" using False by (simp add: l_def)
    have seg: "qseg (g_heap g) (butlast xs @ [l]) 0" using rep xs by (simp add: qrep_def)
    obtain c where c: "g_heap g (l - BUFFER_HDR_SIZE) = Some c" "BUFFER_HDR_SIZE < l"
      using seg by (auto simp: qseg_append)
    have lp: "l \<noteq> p" "l \<notin> set (butlast xs)" "l \<in> set xs"
      using pn False rep xs distinct_butlast [of xs] by (auto simp: l_def qrep_def) (metis distinct.simps(2) distinct1_rotate rotate1.simps(2) xs l_def)
    have le: "l - BUFFER_HDR_SIZE + BUFFER_HDR_SIZE = l" using c(2) by simp
    have ne: "p - BUFFER_HDR_SIZE \<noteq> l - BUFFER_HDR_SIZE" using lp(1) b(2) c(2) by simp
    define h1 where "h1 = (g_heap g)(l - BUFFER_HDR_SIZE \<mapsto> c\<lparr>bh_next := p - BUFFER_HDR_SIZE\<rparr>)"
    define h2 where "h2 = h1(p - BUFFER_HDR_SIZE \<mapsto> b')"
    have "qseg h1 (butlast xs @ [l]) (p - BUFFER_HDR_SIZE)"
      unfolding h1_def by (rule qseg_relink [OF seg c(1) lp(2)])
    then have "qseg h2 xs (p - BUFFER_HDR_SIZE)"
      unfolding h2_def using pn pe xs by (simp add: qseg_frame)
    then have s2: "qseg h2 (xs @ [p]) 0" using b(2) by (simp add: qseg_append h2_def b'_def)
    have hd0: "bq_first q \<noteq> 0" using qseg_hd [of "g_heap g" xs 0] rep False by (simp add: qrep_def)
    have run: "GKI_enqueue p (g, q) = Some (g\<lparr>g_heap := h2\<rparr>, q\<lparr>bq_last := p, bq_count := bq_count q + 1\<rparr>)"
      using rep False c b ready ne hd0
      by (simp add: GKI_enqueue_def enqueue_check_ready qrep_def hdr_of_gt upd_hdr_def h1_def h2_def b'_def l_def [symmetric])
    have "qseg h2 ys e" if "qseg (g_heap g) ys e" "set ys \<inter> set xs = {}" for ys e
    proof -
      have "l \<notin> set ys" "p \<notin> set ys" using that lp(3) ready_not_queued [OF that(1) ready] by auto
      then show ?thesis using that(1) le pe by (simp add: h2_def h1_def qseg_frame)
    qed
    moreover have "buf_ready h2 r" if "buf_ready (g_heap g) r" "r \<noteq> p" for r
    proof -
      have "r \<noteq> l" using ready_not_queued [OF seg that(1)] by auto
      then show ?thesis using that pe le unfolding h2_def h1_def by (simp add: buf_ready_frame)
    qed
    ultimately show ?thesis using run s2 rep pn cnt False by (auto simp: qrep_def)
  qed
qed

lemma dequeue_rep:
  assumes "qrep (g, q) (x # xs)"
  shows "\<exists>g' q'. GKI_dequeue (g, q) = Some (x, g', q') \<and> qrep (g', q') xs \<and>
    (\<forall>ys e. qseg (g_heap g) ys e \<and> x \<notin> set ys \<longrightarrow> qseg (g_heap g') ys e) \<and>
    (\<forall>b. g_heap g (x - BUFFER_HDR_SIZE) = Some b \<longrightarrow>
       g_heap g' = (g_heap g)(x - BUFFER_HDR_SIZE \<mapsto> b\<lparr>bh_next := 0, bh_status := BUF_STATUS_UNLINKED\<rparr>))"
proof -
  obtain b where b: "g_heap g (x - BUFFER_HDR_SIZE) = Some b" "BUFFER_HDR_SIZE < x"
    "bh_next b = (if xs = [] then 0 else hd xs - BUFFER_HDR_SIZE)" and seg: "qseg (g_heap g) xs 0"
    and q: "bq_first q = x" "unat (bq_count q) = Suc (length xs)" "bq_last q = last (x # xs)" "distinct (x # xs)"
    using assms by (auto simp: qrep_def)
  have xe: "x - BUFFER_HDR_SIZE + BUFFER_HDR_SIZE = x" using b(2) by simp
  have c: "bq_count q \<noteq> 0" using q(2) by auto
  have hd: "xs \<noteq> [] \<Longrightarrow> BUFFER_HDR_SIZE < hd xs" using qseg_hd [OF seg] .
  let ?h = "(g_heap g)(x - BUFFER_HDR_SIZE \<mapsto> b\<lparr>bh_next := 0, bh_status := BUF_STATUS_UNLINKED\<rparr>)"
  let ?q = "q\<lparr>bq_first := (if xs = [] then 0 else hd xs), bq_last := (if xs = [] then 0 else last xs), bq_count := bq_count q - 1\<rparr>"
  have run: "GKI_dequeue (g, q) = Some (x, g\<lparr>g_heap := ?h\<rparr>, ?q)"
    using b q c hd xe by (cases "xs = []") (auto simp: GKI_dequeue_def hdr_of_gt upd_hdr_def Let_def)
  have "qseg ?h ys e" if "qseg (g_heap g) ys e" "x \<notin> set ys" for ys e
    using that xe by (simp add: qseg_frame)
  moreover have "qrep (g\<lparr>g_heap := ?h\<rparr>, ?q) xs"
    using seg q xe unat_dec_u16 [OF q(2)] by (simp add: qrep_def qseg_frame)
  ultimately show ?thesis using run b(1) by auto
qed

interpretation gki_q: fifo qrep q_accepts GKI_enqueue q_get
proof unfold_locales
  fix s xs a as assume rep: "qrep s xs" and acc: "q_accepts (a # as) s"
  obtain g q where s: "s = (g, q)" by fastforce
  have "buf_ready (g_heap g) a" "length xs + 1 < 2 ^ 16" using acc rep by (auto simp: s q_accepts_def qrep_def)
  from enqueue_rep [OF rep [unfolded s] this] obtain g' q' where
    e: "GKI_enqueue a (g, q) = Some (g', q')" "qrep (g', q') (xs @ [a])" "unat (bq_count q') = Suc (length xs)"
    "\<And>r. buf_ready (g_heap g) r \<Longrightarrow> r \<noteq> a \<Longrightarrow> buf_ready (g_heap g') r" by blast
  then have "q_accepts as (g', q')" using acc rep by (auto simp: s q_accepts_def qrep_def)
  then show "\<exists>s'. GKI_enqueue a s = Some s' \<and> qrep s' (xs @ [a]) \<and> q_accepts as s'" using e s by blast
next
  fix s x xs assume rep: "qrep s (x # xs)"
  obtain g q where s: "s = (g, q)" by fastforce
  have "x \<noteq> 0" using rep by (simp add: qrep_def)
  then show "\<exists>s'. q_get s = Some (Some x, s') \<and> qrep s' xs"
    using dequeue_rep [OF rep [unfolded s]] by (auto simp: q_get_def s)
next
  fix s assume "qrep s []"
  then show "q_get s = Some (None, s)" by (cases s) (simp add: q_get_def GKI_dequeue_def qrep_def unat_eq_0)
qed

section \<open>Removal from the middle\<close>

lemma find_prev_hit:
  "qseg h (xs @ [x]) (p - BUFFER_HDR_SIZE) \<Longrightarrow> BUFFER_HDR_SIZE < p \<Longrightarrow> p \<notin> set (xs @ [x]) \<Longrightarrow>
   gki_find_prev h (p - BUFFER_HDR_SIZE) (hd (xs @ [x]) - BUFFER_HDR_SIZE) = Some (x - BUFFER_HDR_SIZE)"
proof (induction xs)
  case Nil
  then show ?case by (subst gki_find_prev.simps) auto
next
  case (Cons y xs)
  have "BUFFER_HDR_SIZE < hd (xs @ [x])" using qseg_hd [of h "xs @ [x]" "p - BUFFER_HDR_SIZE"] Cons.prems(1) by simp
  moreover have "hd (xs @ [x]) \<noteq> p" using Cons.prems(3) by (cases xs) auto
  ultimately have "hd (xs @ [x]) - BUFFER_HDR_SIZE \<noteq> p - BUFFER_HDR_SIZE" using Cons.prems(2) by simp
  then show ?case using Cons by (subst gki_find_prev.simps) auto
qed

lemma find_prev_miss:
  "qseg h xs 0 \<Longrightarrow> xs \<noteq> [] \<Longrightarrow> BUFFER_HDR_SIZE < p \<Longrightarrow> p \<notin> set xs \<Longrightarrow>
   gki_find_prev h (p - BUFFER_HDR_SIZE) (hd xs - BUFFER_HDR_SIZE) = Some 0"
proof (induction xs)
  case (Cons y xs)
  show ?case
  proof (cases "xs = []")
    case True
    then show ?thesis using Cons.prems by (subst gki_find_prev.simps, simp, subst gki_find_prev.simps) auto
  next
    case False
    have "BUFFER_HDR_SIZE < hd xs" "hd xs \<noteq> p" using qseg_hd [of h xs 0] Cons.prems False by auto
    then have "hd xs - BUFFER_HDR_SIZE \<noteq> p - BUFFER_HDR_SIZE" using Cons.prems(3) by simp
    then show ?thesis using Cons False by (subst gki_find_prev.simps) auto
  qed
qed simp

lemma remove_mid_rep:
  assumes rep: "qrep (g, q) (xs @ x # p # ys)"
  shows "\<exists>g' q'. GKI_remove_from_queue p (g, q) = Some (p, g', q') \<and> qrep (g', q') (xs @ x # ys)"
proof -
  have d: "distinct (xs @ x # p # ys)" and seg: "qseg (g_heap g) (xs @ x # p # ys) 0"
    and q: "unat (bq_count q) = Suc (length (xs @ x # ys))" "bq_first q = hd (xs @ [x])" "bq_last q = (if ys = [] then p else last ys)"
    using rep by (auto simp: qrep_def hd_append)
  have s1: "qseg (g_heap g) (xs @ [x]) (p - BUFFER_HDR_SIZE)" and sp: "qseg (g_heap g) (p # ys) 0"
    using seg by (auto simp: qseg_append)
  obtain b where b: "g_heap g (p - BUFFER_HDR_SIZE) = Some b" "BUFFER_HDR_SIZE < p"
    "bh_next b = (if ys = [] then 0 else hd ys - BUFFER_HDR_SIZE)" and sy: "qseg (g_heap g) ys 0" using sp by auto
  obtain c where c: "g_heap g (x - BUFFER_HDR_SIZE) = Some c" "BUFFER_HDR_SIZE < x" using s1 by (auto simp: qseg_append)
  have hd: "BUFFER_HDR_SIZE < bq_first q" "bq_first q \<noteq> p"
    using qseg_hd [OF s1] q(2) d by (auto simp: hd_append)
  have ne: "x - BUFFER_HDR_SIZE \<noteq> p - BUFFER_HDR_SIZE" using d b(2) c(2) by auto
  have e: "x - BUFFER_HDR_SIZE + BUFFER_HDR_SIZE = x" "p - BUFFER_HDR_SIZE + BUFFER_HDR_SIZE = p" using b(2) c(2) by simp_all
  define h1 where "h1 = (g_heap g)(x - BUFFER_HDR_SIZE \<mapsto> c\<lparr>bh_next := bh_next b\<rparr>)"
  define h2 where "h2 = h1(p - BUFFER_HDR_SIZE \<mapsto> b\<lparr>bh_next := 0, bh_status := BUF_STATUS_UNLINKED\<rparr>)"
  have fp: "gki_find_prev (g_heap g) (p - BUFFER_HDR_SIZE) (bq_first q - BUFFER_HDR_SIZE) = Some (x - BUFFER_HDR_SIZE)"
    using find_prev_hit [OF s1 b(2)] d q(2) by auto
  have run: "GKI_remove_from_queue p (g, q) = Some (p, g\<lparr>g_heap := h2\<rparr>,
      q\<lparr>bq_last := (if p = bq_last q then x else bq_last q), bq_count := bq_count q - 1\<rparr>)"
    using hd fp b c ne e by (simp add: GKI_remove_from_queue_def hdr_of_gt upd_hdr_def h1_def h2_def)
  have "qseg h1 (xs @ [x]) (bh_next b)" unfolding h1_def using d by (intro qseg_relink [OF s1 c(1)]) auto
  then have "qseg h2 (xs @ [x]) (bh_next b)" unfolding h2_def using d e by (subst qseg_frame) auto
  moreover have "qseg h2 ys 0" unfolding h2_def h1_def using sy d e by (subst qseg_frame, simp, subst qseg_frame) auto
  ultimately have "qseg h2 ((xs @ [x]) @ ys) 0" using b(3) by (simp only: qseg_append simp_thms)
  then show ?thesis
    using run d q unat_dec_u16 [OF q(1)] by (auto simp: qrep_def hd_append split: if_splits)
qed

text \<open>\<^verbatim>\<open>GKI_remove_from_queue\<close> on a non-empty well-formed queue takes exactly the given buffer out of the list,
  wherever it stands, marks it unlinked and returns it; for a buffer that is not on the queue it returns
  null and changes nothing. The search always ends.\<close>

theorem GKI_remove_from_queue_ok:
  assumes "qrep (g, q) xs" "xs \<noteq> []" "BUFFER_HDR_SIZE < p"
  shows "if p \<in> set xs
    then \<exists>g' q'. GKI_remove_from_queue p (g, q) = Some (p, g', q') \<and> qrep (g', q') (remove1 p xs)
    else GKI_remove_from_queue p (g, q) = Some (0, g, q)"
proof (cases "p \<in> set xs")
  case True
  show ?thesis
  proof (cases "hd xs = p")
    case True
    then obtain ys where xs: "xs = p # ys" using assms(2) by (cases xs) auto
    then have "bq_first q = p" using assms(1) by (simp add: qrep_def)
    then show ?thesis using dequeue_rep [of g q p ys] assms(1) xs by (auto simp: GKI_remove_from_queue_def)
  next
    case False
    obtain as bs where s: "xs = as @ p # bs" "p \<notin> set as" using True split_list_first [of p xs] by blast
    with False have "as \<noteq> []" by auto
    then obtain as' x where a: "as = as' @ [x]" by (cases as rule: rev_cases) auto
    then show ?thesis using remove_mid_rep [of g q as' x p bs] assms(1) s by (auto simp: remove1_append)
  qed
next
  case False
  have seg: "qseg (g_heap g) xs 0" and f: "bq_first q = hd xs" using assms(1,2) by (simp_all add: qrep_def)
  have "bq_first q \<noteq> p" using f False assms(2) by auto
  then show ?thesis
    using False find_prev_miss [OF seg assms(2,3) False] qseg_hd [OF seg assms(2)] f assms(3)
    by (simp add: GKI_remove_from_queue_def hdr_of_gt)
qed

section \<open>Mailboxes\<close>

text \<open>\<^verbatim>\<open>OSTaskQLast\<close> is only meaningful while the mailbox is not empty: \<^verbatim>\<open>GKI_read_mbox\<close> does not reset it.\<close>

definition mrep :: "u8 \<Rightarrow> u8 \<Rightarrow> gki \<Rightarrow> nat list \<Rightarrow> bool" where
  "mrep t mb g xs \<longleftrightarrow> unat t < GKI_MAX_TASKS \<and> unat mb < NUM_TASK_MBOX \<and> OSRdyTbl g (unat t) \<noteq> TASK_DEAD \<and>
     distinct xs \<and> qseg (g_heap g) xs 0 \<and>
     OSTaskQFirst g (unat t, unat mb) = (if xs = [] then 0 else hd xs - BUFFER_HDR_SIZE) \<and>
     (xs \<noteq> [] \<longrightarrow> OSTaskQLast g (unat t, unat mb) = last xs - BUFFER_HDR_SIZE)"

definition m_accepts :: "nat list \<Rightarrow> gki \<Rightarrow> bool" where
  "m_accepts as g \<longleftrightarrow> distinct as \<and> (\<forall>p \<in> set as. buf_ready (g_heap g) p)"

definition m_get :: "u8 \<Rightarrow> u8 \<Rightarrow> gki \<Rightarrow> (nat option \<times> gki) option" where
  "m_get t mb g = map_option (\<lambda>(p, s). (if p = 0 then None else Some p, s)) (GKI_read_mbox t mb g)"

lemma send_msg_rep:
  assumes rep: "mrep t mb g xs" and ready: "buf_ready (g_heap g) p"
  shows "\<exists>g'. GKI_send_msg t mb p g = Some g' \<and> mrep t mb g' (xs @ [p]) \<and>
    OSWaitEvt g' (unat t) = OSWaitEvt g (unat t) OR EVENT_MASK mb \<and>
    (\<forall>r. buf_ready (g_heap g) r \<and> r \<noteq> p \<longrightarrow> buf_ready (g_heap g') r)"
proof -
  let ?k = "(unat t, unat mb)"
  obtain b where b: "hdr_of p = Some (p - BUFFER_HDR_SIZE)" "g_heap g (p - BUFFER_HDR_SIZE) = Some b"
    "bh_status b = BUF_STATUS_UNLINKED" "gki_chk_buf_damage (g_heap g) p = Some False" "BUFFER_HDR_SIZE < p"
    using ready by (rule buf_ready_hdr)
  have t: "unat t < GKI_MAX_TASKS" "unat mb < NUM_TASK_MBOX" "OSRdyTbl g (unat t) \<noteq> TASK_DEAD"
    and seg: "qseg (g_heap g) xs 0" and d: "distinct xs" using rep by (simp_all add: mrep_def)
  have pn: "p \<notin> set xs" by (rule ready_not_queued [OF seg ready])
  have pe: "p - BUFFER_HDR_SIZE + BUFFER_HDR_SIZE = p" using b(5) by simp
  let ?new = "\<lambda>h. h(p - BUFFER_HDR_SIZE \<mapsto> b\<lparr>bh_next := 0, bh_status := BUF_STATUS_QUEUED, bh_task_id := t\<rparr>)"
  obtain h1 where h1: "(if OSTaskQFirst g ?k \<noteq> 0 then upd_hdr (g_heap g) (OSTaskQLast g ?k) (\<lambda>b. b\<lparr>bh_next := p - BUFFER_HDR_SIZE\<rparr>)
      else Some (g_heap g)) = Some h1" "h1 (p - BUFFER_HDR_SIZE) = Some b"
    "qseg h1 xs (p - BUFFER_HDR_SIZE)" "\<And>r. buf_ready (g_heap g) r \<Longrightarrow> buf_ready h1 r"
  proof (cases "xs = []")
    case True
    then show thesis using that [of "g_heap g"] rep b by (simp add: mrep_def)
  next
    case False
    define l where "l = last xs"
    have xs: "xs = butlast xs @ [l]" using False by (simp add: l_def)
    then have l: "l \<in> set xs" "l \<notin> set (butlast xs)" using d by (metis in_set_conv_decomp, metis distinct_append distinct.simps(2) disjoint_iff list.set_intros(1))
    obtain c where c: "g_heap g (l - BUFFER_HDR_SIZE) = Some c" "BUFFER_HDR_SIZE < l" using qseg_mem [OF seg l(1)] by blast
    have le: "l - BUFFER_HDR_SIZE + BUFFER_HDR_SIZE = l" using c(2) by simp
    have ne: "p - BUFFER_HDR_SIZE \<noteq> l - BUFFER_HDR_SIZE" using l(1) pn b(5) c(2) le pe by metis
    have "qseg ((g_heap g)(l - BUFFER_HDR_SIZE \<mapsto> c\<lparr>bh_next := p - BUFFER_HDR_SIZE\<rparr>)) xs (p - BUFFER_HDR_SIZE)"
      using qseg_relink [of "g_heap g" "butlast xs" l 0 c] seg xs c(1) l(2) by simp
    moreover have "buf_ready ((g_heap g)(l - BUFFER_HDR_SIZE \<mapsto> c\<lparr>bh_next := p - BUFFER_HDR_SIZE\<rparr>)) r" if "buf_ready (g_heap g) r" for r
      using that ready_not_queued [OF seg that] l(1) le by (subst buf_ready_frame) auto
    ultimately show thesis
      using that [of "(g_heap g)(l - BUFFER_HDR_SIZE \<mapsto> c\<lparr>bh_next := p - BUFFER_HDR_SIZE\<rparr>)"] False rep c b ne
        qseg_hd [OF seg False] by (auto simp: mrep_def upd_hdr_def l_def)
  qed
  define g' where "g' = snd (GKI_send_event t (EVENT_MASK mb) (g\<lparr>g_heap := ?new h1,
      OSTaskQFirst := (if OSTaskQFirst g ?k \<noteq> 0 then OSTaskQFirst g else (OSTaskQFirst g)(?k := p - BUFFER_HDR_SIZE)),
      OSTaskQLast := (OSTaskQLast g)(?k := p - BUFFER_HDR_SIZE)\<rparr>))"
  have run: "GKI_send_msg t mb p g = Some g'"
    unfolding GKI_send_msg_def Let_def using t b h1(1,2) by (simp add: upd_hdr_def g'_def)
  have "qseg (?new h1) (xs @ [p]) 0" using h1(3) pn pe b(5) by (simp add: qseg_append qseg_frame)
  moreover have "buf_ready (?new h1) r" if "buf_ready (g_heap g) r" "r \<noteq> p" for r
    using h1(4) [OF that(1)] that(2) pe by (simp add: buf_ready_frame)
  ultimately show ?thesis
    using run rep pn t qseg_hd [OF seg] b(5)
    by (auto simp: mrep_def g'_def GKI_send_event_def split: if_splits)
qed

lemma read_mbox_rep:
  assumes "mrep t mb g (x # xs)"
  shows "\<exists>g'. GKI_read_mbox t mb g = Some (x, g') \<and> mrep t mb g' xs"
proof -
  obtain b where b: "g_heap g (x - BUFFER_HDR_SIZE) = Some b" "BUFFER_HDR_SIZE < x"
    "bh_next b = (if xs = [] then 0 else hd xs - BUFFER_HDR_SIZE)" and seg: "qseg (g_heap g) xs 0" and x: "x \<notin> set xs"
    using assms by (auto simp: mrep_def)
  have "x - BUFFER_HDR_SIZE + BUFFER_HDR_SIZE = x" using b(2) by simp
  then show ?thesis
    using assms b seg x by (auto simp: GKI_read_mbox_def mrep_def upd_hdr_def Let_def qseg_frame split: if_splits)
qed

interpretation gki_mbox: fifo "mrep t mb" m_accepts "GKI_send_msg t mb" "m_get t mb" for t mb
proof unfold_locales
  fix g xs a as assume rep: "mrep t mb g xs" and acc: "m_accepts (a # as) g"
  then obtain g' where "GKI_send_msg t mb a g = Some g'" "mrep t mb g' (xs @ [a])"
    "\<And>r. buf_ready (g_heap g) r \<Longrightarrow> r \<noteq> a \<Longrightarrow> buf_ready (g_heap g') r"
    using send_msg_rep [OF rep, of a] by (auto simp: m_accepts_def)
  then show "\<exists>s'. GKI_send_msg t mb a g = Some s' \<and> mrep t mb s' (xs @ [a]) \<and> m_accepts as s'"
    using acc by (auto simp: m_accepts_def)
next
  fix g x xs assume rep: "mrep t mb g (x # xs)"
  have "x \<noteq> 0" using rep by (simp add: mrep_def)
  then show "\<exists>s'. m_get t mb g = Some (Some x, s') \<and> mrep t mb s' xs"
    using read_mbox_rep [OF rep] by (auto simp: m_get_def)
next
  fix g assume "mrep t mb g []"
  then show "m_get t mb g = Some (None, g)" by (auto simp: m_get_def GKI_read_mbox_def mrep_def)
qed

section \<open>Properties\<close>

text \<open>C30. An application queue is a FIFO: enqueueing any sequence of distinct, undamaged, unlinked buffers behind
  the queue's contents and then dequeueing as many times returns the old contents followed by the new
  buffers, in order, and leaves an empty queue, for which \<^verbatim>\<open>GKI_dequeue\<close> returns null.\<close>

theorem gki_queue_fifo:
  assumes "qrep (g, q) xs" "q_accepts as (g, q)"
  shows "\<exists>s' s''. put_all GKI_enqueue as (g, q) = Some s' \<and>
    get_n q_get (length xs + length as) s' = Some (xs @ as, s'') \<and> qrep s'' [] \<and> GKI_dequeue s'' = Some (0, s'')"
proof -
  obtain s' s'' where "put_all GKI_enqueue as (g, q) = Some s'"
    "get_n q_get (length xs + length as) s' = Some (xs @ as, s'')" "qrep s'' []"
    using gki_q.fifo_order [OF assms] by blast
  then show ?thesis by (cases s'') (auto simp: GKI_dequeue_def qrep_def unat_eq_0)
qed

text \<open>A task mailbox is a FIFO: messages sent to a living task are delivered by \<^verbatim>\<open>GKI_read_mbox\<close> once each,
  in the order they were sent, behind the messages already waiting, and an empty mailbox reads null.\<close>

theorem gki_mailbox_fifo:
  assumes "mrep t mb g xs" "m_accepts as g"
  shows "\<exists>g' g''. put_all (GKI_send_msg t mb) as g = Some g' \<and>
    get_n (m_get t mb) (length xs + length as) g' = Some (xs @ as, g'') \<and> mrep t mb g'' [] \<and>
    GKI_read_mbox t mb g'' = Some (0, g'')"
proof -
  obtain g' g'' where "put_all (GKI_send_msg t mb) as g = Some g'"
    "get_n (m_get t mb) (length xs + length as) g' = Some (xs @ as, g'')" "mrep t mb g'' []"
    using gki_mbox.fifo_order [OF assms] by blast
  then show ?thesis by (auto simp: GKI_read_mbox_def mrep_def)
qed

text \<open>A buffer on a queue that is not damaged.\<close>

definition buf_queued :: "heap \<Rightarrow> nat \<Rightarrow> bool" where
  "buf_queued h p \<longleftrightarrow> BUFFER_HDR_SIZE < p \<and> (\<exists>b. h (p - BUFFER_HDR_SIZE) = Some b \<and>
     bh_status b = BUF_STATUS_QUEUED \<and> bh_magic b = MAGIC_NO \<and> even (p + unat (bh_size b)))"

text \<open>A buffer is on at most one queue: an unlinked buffer put on one of two disjoint queues leaves the other queue
  as it was and the queues disjoint, while a buffer that is on either of them is refused by
  \<^verbatim>\<open>GKI_enqueue\<close>, \<^verbatim>\<open>GKI_enqueue_head\<close> and \<^verbatim>\<open>GKI_freebuf\<close>, which only raise the matching exception.\<close>

theorem gki_queue_exclusive:
  assumes q1: "qrep (g, q1) xs" and q2: "qrep (g, q2) ys" and dis: "set xs \<inter> set ys = {}"
    and room: "length xs + 1 < 2 ^ 16"
  shows "(buf_ready (g_heap g) p \<longrightarrow> (\<exists>g' q1'. GKI_enqueue p (g, q1) = Some (g', q1') \<and> qrep (g', q1') (xs @ [p]) \<and>
      qrep (g', q2) ys \<and> set (xs @ [p]) \<inter> set ys = {})) \<and>
    (buf_queued (g_heap g) p \<longrightarrow>
      GKI_enqueue p (g, q1) = Some (GKI_exception GKI_ERROR_ENQUEUE_BUF_LINKED g, q1) \<and>
      GKI_enqueue_head p (g, q1) = Some (GKI_exception GKI_ERROR_ENQUEUE_BUF_LINKED g, q1) \<and>
      GKI_freebuf p g = Some (GKI_exception GKI_ERROR_FREEBUF_BUF_LINKED g))"
proof (intro conjI impI)
  assume ready: "buf_ready (g_heap g) p"
  have "p \<notin> set ys" using ready_not_queued [OF _ ready] q2 by (auto simp: qrep_def)
  then show "\<exists>g' q1'. GKI_enqueue p (g, q1) = Some (g', q1') \<and> qrep (g', q1') (xs @ [p]) \<and>
      qrep (g', q2) ys \<and> set (xs @ [p]) \<inter> set ys = {}"
    using enqueue_rep [OF q1 ready room] q2 dis by (fastforce simp: qrep_def)
next
  assume "buf_queued (g_heap g) p"
  then show "GKI_enqueue p (g, q1) = Some (GKI_exception GKI_ERROR_ENQUEUE_BUF_LINKED g, q1)"
    "GKI_enqueue_head p (g, q1) = Some (GKI_exception GKI_ERROR_ENQUEUE_BUF_LINKED g, q1)"
    "GKI_freebuf p g = Some (GKI_exception GKI_ERROR_FREEBUF_BUF_LINKED g)"
    by (auto simp: buf_queued_def GKI_enqueue_def GKI_enqueue_head_def GKI_freebuf_def gki_enqueue_check_def hdr_of_def
        gki_chk_buf_damage_def GKI_get_buf_size_def rd_hdr_def)
qed

end
