(* ===== verification/GkiPool.thy ===== *)
theory GkiPool
  imports GkiBuffer
begin

unbundle bit_operations_syntax

text \<open>
  The pool table of \<^verbatim>\<open>gki_buffer.cc\<close>: pools created and deleted at run time, kept in \<^verbatim>\<open>pool_list\<close> in
  the order of their buffer size. The invariant says that the first \<^verbatim>\<open>curr_total_no_of_pools\<close> entries
  list every pool with memory exactly once, sorted by size; creation and deletion preserve it.
\<close>

section \<open>Operations\<close>

definition find_pool_addr :: "gki \<Rightarrow> nat \<Rightarrow> nat option" where
  "find_pool_addr g p_ua = List.find (\<lambda>xx. p_ua > pool_start g xx \<and> p_ua < pool_end g xx) [0..<GKI_NUM_TOTAL_BUF_POOLS]"

definition GKI_find_buf_start :: "nat \<Rightarrow> gki \<Rightarrow> nat \<times> gki" where
  "GKI_find_buf_start p_ua g = (case find_pool_addr g p_ua of
     Some xx \<Rightarrow> let yy = (of_nat (p_ua - pool_start g xx) :: u32); sz = unat (pool_size g xx)
               in (pool_start g xx + unat yy div sz * sz + BUFFER_HDR_SIZE, g)
   | None \<Rightarrow> (0, GKI_exception GKI_ERROR_BUF_SIZE_ZERO g))"

definition GKI_set_pool_permission :: "u8 \<Rightarrow> u8 \<Rightarrow> gki \<Rightarrow> u8 \<times> gki" where
  "GKI_set_pool_permission pool_id permission g =
     (if unat pool_id < GKI_NUM_TOTAL_BUF_POOLS
      then (0, g\<lparr>pool_access_mask := (if permission = 1
              then pool_access_mask g OR push_bit (unat pool_id) 1
              else pool_access_mask g AND NOT (push_bit (unat pool_id) 1))\<rparr>)
      else (GKI_INVALID_POOL, g))"

text \<open>The first position whose pool is at least as large; the number of pools if there is none.\<close>

fun pool_pos :: "(nat \<Rightarrow> free_queue) \<Rightarrow> nat \<Rightarrow> nat list \<Rightarrow> nat" where
  "pool_pos fq pool_id [] = 0"
| "pool_pos fq pool_id (x # xs) = (if fq_size (fq pool_id) \<le> fq_size (fq x) then 0 else Suc (pool_pos fq pool_id xs))"

text \<open>The loop that moves the entries from \<open>i\<close> on one place up, from the end downwards. A write behind
  the array is \<open>None\<close>.\<close>

fun pool_shift :: "nat list \<Rightarrow> nat \<Rightarrow> nat \<Rightarrow> nat list option" where
  "pool_shift xs i j = (if j > i then if j < length xs then pool_shift (xs[j := xs ! (j - 1)]) i (j - 1) else None
     else Some xs)"

declare pool_shift.simps [simp del]

definition gki_add_to_pool_list :: "nat \<Rightarrow> gki \<Rightarrow> gki option" where
  "gki_add_to_pool_list pool_id g = (let n = curr_total_no_of_pools g; xs = pool_list g;
       i = pool_pos (g_freeq g) pool_id (take n xs)
     in do {
       xs' \<leftarrow> pool_shift xs i n;
       if i < length xs' then Some (g\<lparr>pool_list := xs'[i := pool_id]\<rparr>) else None })"

fun pool_find :: "nat \<Rightarrow> nat list \<Rightarrow> nat" where
  "pool_find pool_id [] = 0"
| "pool_find pool_id (x # xs) = (if pool_id = x then 0 else Suc (pool_find pool_id xs))"

function pool_close :: "nat list \<Rightarrow> nat \<Rightarrow> nat \<Rightarrow> nat list option" where
  "pool_close xs n i = (if Suc i < n then if Suc i < length xs then pool_close (xs[i := xs ! Suc i]) n (Suc i) else None
     else Some xs)"
  by pat_completeness auto
termination by (relation "measure (\<lambda>(xs, n, i). n - i)") auto

declare pool_close.simps [simp del]

definition gki_remove_from_pool_list :: "nat \<Rightarrow> gki \<Rightarrow> gki option" where
  "gki_remove_from_pool_list pool_id g = (let n = curr_total_no_of_pools g; xs = pool_list g in do {
     xs' \<leftarrow> pool_close xs n (pool_find pool_id (take n xs));
     Some (g\<lparr>pool_list := xs'\<rparr>) })"

definition GKI_poolcount :: "u8 \<Rightarrow> gki \<Rightarrow> u16" where
  "GKI_poolcount pool_id g = (if unat pool_id \<ge> GKI_NUM_TOTAL_BUF_POOLS then 0 else fq_total (g_freeq g (unat pool_id)))"

definition GKI_poolfreecount :: "u8 \<Rightarrow> gki \<Rightarrow> u16" where
  "GKI_poolfreecount pool_id g = (if unat pool_id \<ge> GKI_NUM_TOTAL_BUF_POOLS then 0
     else let Q = g_freeq g (unat pool_id) in fq_total Q - fq_cur_cnt Q)"

definition GKI_change_buf_owner :: "nat \<Rightarrow> u8 \<Rightarrow> gki \<Rightarrow> gki option" where
  "GKI_change_buf_owner p_buf task_id g = do {
     a \<leftarrow> hdr_of p_buf;
     h \<leftarrow> upd_hdr (g_heap g) a (\<lambda>b. b\<lparr>bh_task_id := task_id\<rparr>);
     Some (g\<lparr>g_heap := h\<rparr>) }"

definition find_unused_pool :: "gki \<Rightarrow> nat" where
  "find_unused_pool g = (case List.find (\<lambda>xx. pool_start g xx = 0) [0..<GKI_NUM_TOTAL_BUF_POOLS] of
     Some xx \<Rightarrow> xx | None \<Rightarrow> GKI_NUM_TOTAL_BUF_POOLS)"

definition GKI_create_pool ::
  "(heap \<Rightarrow> nat \<Rightarrow> nat) \<Rightarrow> u16 \<Rightarrow> u16 \<Rightarrow> u8 \<Rightarrow> nat \<Rightarrow> gki \<Rightarrow> (u8 \<times> gki) option" where
  "GKI_create_pool os_malloc sz count permission p_mem_pool g =
     (if unat sz > MAX_USER_BUF_SIZE then Some (GKI_INVALID_POOL, g)
      else let xx = find_unused_pool g in
        if xx = GKI_NUM_TOTAL_BUF_POOLS then Some (GKI_INVALID_POOL, g)
        else let mem_needed = (of_nat ((ALIGN_POOL (unat sz) + BUFFER_PADDING_SIZE) * unat count) :: u32);
                 p_mem = (if p_mem_pool = 0 then os_malloc (g_heap g) (unat mem_needed) else p_mem_pool)
             in if p_mem \<noteq> 0
                then do {
                  g1 \<leftarrow> gki_add_to_pool_list xx (gki_init_free_queue (of_nat xx) sz count p_mem g);
                  let g2 = snd (GKI_set_pool_permission (of_nat xx) permission g1);
                  Some (of_nat xx, g2\<lparr>curr_total_no_of_pools := Suc (curr_total_no_of_pools g2)\<rparr>) }
                else Some (GKI_INVALID_POOL, g))"

definition GKI_delete_pool :: "u8 \<Rightarrow> gki \<Rightarrow> gki option" where
  "GKI_delete_pool pool_id g = (let i = unat pool_id in
     if i \<ge> GKI_NUM_TOTAL_BUF_POOLS \<or> pool_start g i = 0 then Some g
     else if fq_cur_cnt (g_freeq g i) = 0
     then do {
       let g1 = g\<lparr>g_freeq := (g_freeq g)(i := empty_freeq),
                  g_heap := (\<lambda>a. if pool_start g i \<le> a \<and> a < pool_end g i then None else g_heap g a),
                  pool_start := (pool_start g)(i := 0), pool_end := (pool_end g)(i := 0), pool_size := (pool_size g)(i := 0)\<rparr>;
       g2 \<leftarrow> gki_remove_from_pool_list i g1;
       Some (g2\<lparr>curr_total_no_of_pools := curr_total_no_of_pools g2 - 1\<rparr>) }
     else Some (GKI_exception GKI_ERROR_DELETE_POOL_BAD_QID g))"

definition GKI_get_pool_bufsize :: "u8 \<Rightarrow> u16" where
  "GKI_get_pool_bufsize pool_id = (if pool_id = 0 then 268 else if pool_id = 1 then 128
     else if pool_id = 2 then 660 else if pool_id = 3 then 0xFFB0 else 0)"

definition GKI_poolutilization :: "u8 \<Rightarrow> gki \<Rightarrow> u16" where
  "GKI_poolutilization pool_id g = (if unat pool_id \<ge> GKI_NUM_TOTAL_BUF_POOLS then 100
     else let Q = g_freeq g (unat pool_id) in
       if fq_total Q = 0 then 100 else of_nat (unat (fq_cur_cnt Q) * 100 div unat (fq_total Q)))"

section \<open>The pool list as a sorted list\<close>

definition pool_ins :: "(nat \<Rightarrow> free_queue) \<Rightarrow> nat \<Rightarrow> nat list \<Rightarrow> nat list" where
  "pool_ins fq p xs = (let i = pool_pos fq p xs in take i xs @ p # drop i xs)"

lemma pool_pos_le: "pool_pos fq p xs \<le> length xs"
  by (induction xs) auto

lemma pool_ins_simps [simp]: "pool_ins fq p [] = [p]"
  "pool_ins fq p (x # xs) = (if fq_size (fq p) \<le> fq_size (fq x) then p # x # xs else x # pool_ins fq p xs)"
  by (simp_all add: pool_ins_def Let_def)

lemma set_pool_ins [simp]: "set (pool_ins fq p xs) = insert p (set xs)"
  by (induction xs) auto

lemma sorted_pool_ins:
  "sorted_wrt (\<lambda>a b. fq_size (fq a) \<le> fq_size (fq b)) xs \<Longrightarrow>
   sorted_wrt (\<lambda>a b. fq_size (fq a) \<le> fq_size (fq b)) (pool_ins fq p xs)"
  by (induction xs) (fastforce intro: order_trans)+

lemma distinct_pool_ins: "distinct xs \<Longrightarrow> p \<notin> set xs \<Longrightarrow> distinct (pool_ins fq p xs)"
  by (induction xs) auto

lemma pool_shift_spec:
  "i \<le> j \<Longrightarrow> j < length xs \<Longrightarrow> \<exists>ys. pool_shift xs i j = Some ys \<and> length ys = length xs \<and>
     (\<forall>k < length xs. ys ! k = (if i < k \<and> k \<le> j then xs ! (k - 1) else xs ! k))"
proof (induction "j - i" arbitrary: xs j)
  case 0
  then show ?case by (subst pool_shift.simps) auto
next
  case (Suc d)
  let ?xs = "xs[j := xs ! (j - 1)]"
  obtain ys where ys: "pool_shift ?xs i (j - 1) = Some ys" "length ys = length xs"
    "\<And>k. k < length xs \<Longrightarrow> ys ! k = (if i < k \<and> k \<le> j - 1 then ?xs ! (k - 1) else ?xs ! k)"
  proof -
    have "d = j - 1 - i" "i \<le> j - 1" "j - 1 < length ?xs" using Suc.hyps(2) Suc.prems by simp_all
    from Suc.hyps(1) [OF this] show thesis using that by auto
  qed
  have "ys ! k = (if i < k \<and> k \<le> j then xs ! (k - 1) else xs ! k)" if "k < length xs" for k
    using ys(3) [OF that] that Suc.hyps(2) by (auto simp: nth_list_update)
  then show ?case using ys Suc.hyps(2) Suc.prems by (subst pool_shift.simps) auto
qed

lemma add_to_pool_list_ok:
  assumes "curr_total_no_of_pools g < length (pool_list g)"
  shows "\<exists>g'. gki_add_to_pool_list p g = Some g' \<and> length (pool_list g') = length (pool_list g) \<and>
    g' = g\<lparr>pool_list := pool_list g'\<rparr> \<and>
    take (Suc (curr_total_no_of_pools g)) (pool_list g') = pool_ins (g_freeq g) p (take (curr_total_no_of_pools g) (pool_list g))"
proof -
  define n where "n = curr_total_no_of_pools g"
  define xs where "xs = pool_list g"
  define i where "i = pool_pos (g_freeq g) p (take n xs)"
  have i: "i \<le> n" "n < length xs" using pool_pos_le [of "g_freeq g" p "take n xs"] assms by (simp_all add: i_def n_def xs_def)
  obtain ys where ys: "pool_shift xs i n = Some ys" "length ys = length xs"
    "\<And>k. k < length xs \<Longrightarrow> ys ! k = (if i < k \<and> k \<le> n then xs ! (k - 1) else xs ! k)"
    using pool_shift_spec [OF i] by blast
  have "take (Suc n) (ys[i := p]) = take i (take n xs) @ p # drop i (take n xs)"
    using i ys(2) by (intro nth_equalityI) (auto simp: nth_append nth_Cons ys(3) nth_list_update split: nat.splits
        intro!: arg_cong [where f = "nth xs"])
  then show ?thesis
    using i ys unfolding n_def [symmetric] xs_def [symmetric]
    by (auto simp: gki_add_to_pool_list_def Let_def pool_ins_def i_def n_def [symmetric] xs_def [symmetric])
qed

lemma pool_close_spec:
  "i < n \<Longrightarrow> n \<le> length xs \<Longrightarrow> \<exists>ys. pool_close xs n i = Some ys \<and> length ys = length xs \<and>
     (\<forall>k < length xs. ys ! k = (if i \<le> k \<and> Suc k < n then xs ! Suc k else xs ! k))"
proof (induction "n - i" arbitrary: xs i)
  case (Suc d)
  show ?case
  proof (cases "Suc i < n")
    case True
    let ?xs = "xs[i := xs ! Suc i]"
    obtain ys where ys: "pool_close ?xs n (Suc i) = Some ys" "length ys = length xs"
      "\<And>k. k < length xs \<Longrightarrow> ys ! k = (if Suc i \<le> k \<and> Suc k < n then ?xs ! Suc k else ?xs ! k)"
    proof -
      have "d = n - Suc i" "n \<le> length ?xs" using Suc.hyps(2) Suc.prems by simp_all
      from Suc.hyps(1) [OF this(1) True this(2)] show thesis using that by auto
    qed
    have "ys ! k = (if i \<le> k \<and> Suc k < n then xs ! Suc k else xs ! k)" if "k < length xs" for k
      using ys(3) [OF that] that True by (cases "k = i") (auto simp: nth_list_update)
    then show ?thesis using ys True Suc.prems by (subst pool_close.simps) auto
  next
    case False
    then show ?thesis using Suc.prems by (subst pool_close.simps) auto
  qed
qed simp

lemma pool_find_in: "p \<in> set xs \<Longrightarrow> pool_find p xs < length xs \<and> xs ! pool_find p xs = p"
  by (induction xs) auto

lemma remove1_pool_find: "p \<in> set xs \<Longrightarrow> remove1 p xs = take (pool_find p xs) xs @ drop (Suc (pool_find p xs)) xs"
  by (induction xs) auto

lemma remove_from_pool_list_ok:
  assumes "curr_total_no_of_pools g \<le> length (pool_list g)" "p \<in> set (take (curr_total_no_of_pools g) (pool_list g))"
  shows "\<exists>g'. gki_remove_from_pool_list p g = Some g' \<and> length (pool_list g') = length (pool_list g) \<and>
    g' = g\<lparr>pool_list := pool_list g'\<rparr> \<and>
    take (curr_total_no_of_pools g - 1) (pool_list g') = remove1 p (take (curr_total_no_of_pools g) (pool_list g))"
proof -
  define n where "n = curr_total_no_of_pools g"
  define xs where "xs = pool_list g"
  define i where "i = pool_find p (take n xs)"
  have i: "i < n" "n \<le> length xs"
    using pool_find_in [OF assms(2)] assms(1) by (simp_all add: i_def n_def xs_def)
  obtain ys where ys: "pool_close xs n i = Some ys" "length ys = length xs"
    "\<And>k. k < length xs \<Longrightarrow> ys ! k = (if i \<le> k \<and> Suc k < n then xs ! Suc k else xs ! k)"
    using pool_close_spec [OF i] by blast
  have "take (n - 1) ys = take i (take n xs) @ drop (Suc i) (take n xs)"
    using i ys(2) by (intro nth_equalityI) (auto simp: nth_append ys(3))
  then show ?thesis
    using i ys remove1_pool_find [OF assms(2)] unfolding n_def [symmetric] xs_def [symmetric]
    by (auto simp: gki_remove_from_pool_list_def Let_def i_def n_def [symmetric] xs_def [symmetric])
qed

section \<open>The pool table invariant\<close>

definition active_pools :: "gki \<Rightarrow> nat list" where
  "active_pools g = take (curr_total_no_of_pools g) (pool_list g)"

definition pools_ok :: "gki \<Rightarrow> bool" where
  "pools_ok g \<longleftrightarrow> length (pool_list g) = GKI_NUM_TOTAL_BUF_POOLS \<and> curr_total_no_of_pools g \<le> GKI_NUM_TOTAL_BUF_POOLS \<and>
     distinct (active_pools g) \<and>
     sorted_wrt (\<lambda>a b. fq_size (g_freeq g a) \<le> fq_size (g_freeq g b)) (active_pools g) \<and>
     (\<forall>i. i \<in> set (active_pools g) \<longleftrightarrow> i < GKI_NUM_TOTAL_BUF_POOLS \<and> pool_start g i \<noteq> 0)"

lemma init_free_queue_sel:
  assumes "p_mem \<noteq> 0"
  shows "pool_start (gki_init_free_queue qid sz n p_mem g) = (pool_start g)(unat qid := p_mem)"
    "pool_list (gki_init_free_queue qid sz n p_mem g) = pool_list g"
    "curr_total_no_of_pools (gki_init_free_queue qid sz n p_mem g) = curr_total_no_of_pools g"
    "i \<noteq> unat qid \<Longrightarrow> g_freeq (gki_init_free_queue qid sz n p_mem g) i = g_freeq g i"
  using assms by (simp_all add: gki_init_free_queue_def Let_def)

lemma set_pool_permission_sel:
  "pool_start (snd (GKI_set_pool_permission i p g)) = pool_start g"
  "pool_list (snd (GKI_set_pool_permission i p g)) = pool_list g"
  "curr_total_no_of_pools (snd (GKI_set_pool_permission i p g)) = curr_total_no_of_pools g"
  "g_freeq (snd (GKI_set_pool_permission i p g)) = g_freeq g"
  by (simp_all add: GKI_set_pool_permission_def)

lemma find_unused_pool_spec:
  "find_unused_pool g = GKI_NUM_TOTAL_BUF_POOLS \<or>
   find_unused_pool g < GKI_NUM_TOTAL_BUF_POOLS \<and> pool_start g (find_unused_pool g) = 0"
  by (auto simp: find_unused_pool_def find_Some_iff split: option.splits)

lemma sorted_wrt_key_cong:
  "(\<And>x. x \<in> set xs \<Longrightarrow> f x = f' x) \<Longrightarrow> sorted_wrt (\<lambda>a b. f a \<le> f b) xs = sorted_wrt (\<lambda>a b. f' a \<le> f' b) xs"
  by (induction xs) auto

lemma sorted_wrt_remove1: "sorted_wrt P xs \<Longrightarrow> sorted_wrt P (remove1 x xs)"
  by (induction xs) (use set_remove1_subset in fastforce)+

lemma pools_ok_insert:
  assumes ok: "pools_ok g" and xx: "xx < GKI_NUM_TOTAL_BUF_POOLS" "pool_start g xx = 0" "unat qid = xx" and mem: "p_mem \<noteq> 0"
  shows "\<exists>g1. gki_add_to_pool_list xx (gki_init_free_queue qid sz n p_mem g) = Some g1 \<and>
    pools_ok ((snd (GKI_set_pool_permission qid perm g1))\<lparr>curr_total_no_of_pools := Suc (curr_total_no_of_pools (snd (GKI_set_pool_permission qid perm g1)))\<rparr>)"
proof -
  let ?g = "gki_init_free_queue qid sz n p_mem g"
  note sel = init_free_queue_sel [OF mem, where qid = qid and sz = sz and n = n and g = g]
  have xs: "distinct (active_pools g)" "\<And>i. i \<in> set (active_pools g) \<longleftrightarrow> i < GKI_NUM_TOTAL_BUF_POOLS \<and> pool_start g i \<noteq> 0"
    "length (pool_list g) = GKI_NUM_TOTAL_BUF_POOLS" "curr_total_no_of_pools g \<le> GKI_NUM_TOTAL_BUF_POOLS"
    using ok by (simp_all add: pools_ok_def)
  have "card (set (active_pools g)) < GKI_NUM_TOTAL_BUF_POOLS"
  proof -
    have "set (active_pools g) \<subseteq> {..<GKI_NUM_TOTAL_BUF_POOLS} - {xx}"
    proof
      fix i assume "i \<in> set (active_pools g)"
      then show "i \<in> {..<GKI_NUM_TOTAL_BUF_POOLS} - {xx}" using xs(2) [of i] xx(2) by auto
    qed
    then have "card (set (active_pools g)) \<le> card ({..<GKI_NUM_TOTAL_BUF_POOLS} - {xx})" by (intro card_mono) simp_all
    then show ?thesis using xx(1) by simp
  qed
  then have lt: "curr_total_no_of_pools g < GKI_NUM_TOTAL_BUF_POOLS"
    using xs(1,3,4) by (simp add: distinct_card active_pools_def)
  obtain g1 where g1: "gki_add_to_pool_list xx ?g = Some g1" "length (pool_list g1) = GKI_NUM_TOTAL_BUF_POOLS"
    "g1 = ?g\<lparr>pool_list := pool_list g1\<rparr>"
    "take (Suc (curr_total_no_of_pools g)) (pool_list g1) = pool_ins (g_freeq ?g) xx (active_pools g)"
    using add_to_pool_list_ok [of ?g xx] lt xs(3) sel(2,3) by (auto simp: active_pools_def)
  have g1': "g_freeq g1 = g_freeq ?g" "pool_start g1 = pool_start ?g" "curr_total_no_of_pools g1 = curr_total_no_of_pools g"
    by (subst g1(3), simp add: sel)+
  have new: "xx \<notin> set (active_pools g)" using xs(2) xx(2) by simp
  have key: "fq_size (g_freeq ?g x) = fq_size (g_freeq g x)" if "x \<in> set (active_pools g)" for x
    by (subst sel(4)) (use that new xx(3) in auto)
  have "sorted_wrt (\<lambda>a b. fq_size (g_freeq g a) \<le> fq_size (g_freeq g b)) (active_pools g)"
    using ok by (simp add: pools_ok_def)
  then have "sorted_wrt (\<lambda>a b. fq_size (g_freeq ?g a) \<le> fq_size (g_freeq ?g b)) (active_pools g)"
    using sorted_wrt_key_cong [of "active_pools g" "\<lambda>a. fq_size (g_freeq ?g a)" "\<lambda>a. fq_size (g_freeq g a)"] key
    by blast
  from sorted_pool_ins [OF this, of xx] show ?thesis
    using g1(1,2,4) lt new xs(1,2) xx distinct_pool_ins [OF xs(1) new] mem
    by (auto simp: pools_ok_def active_pools_def set_pool_permission_sel g1' sel)
qed

lemma pools_ok_remove:
  assumes ok: "pools_ok g" and i: "i < GKI_NUM_TOTAL_BUF_POOLS" "pool_start g i \<noteq> 0"
  defines "g1 \<equiv> g\<lparr>g_freeq := (g_freeq g)(i := empty_freeq),
       g_heap := (\<lambda>a. if pool_start g i \<le> a \<and> a < pool_end g i then None else g_heap g a),
       pool_start := (pool_start g)(i := 0), pool_end := (pool_end g)(i := 0), pool_size := (pool_size g)(i := 0)\<rparr>"
  shows "\<exists>g2. gki_remove_from_pool_list i g1 = Some g2 \<and>
    pools_ok (g2\<lparr>curr_total_no_of_pools := curr_total_no_of_pools g2 - 1\<rparr>)"
proof -
  have xs: "distinct (active_pools g)" "\<And>i. i \<in> set (active_pools g) \<longleftrightarrow> i < GKI_NUM_TOTAL_BUF_POOLS \<and> pool_start g i \<noteq> 0"
    "length (pool_list g) = GKI_NUM_TOTAL_BUF_POOLS" "curr_total_no_of_pools g \<le> GKI_NUM_TOTAL_BUF_POOLS"
    "sorted_wrt (\<lambda>a b. fq_size (g_freeq g a) \<le> fq_size (g_freeq g b)) (active_pools g)"
    using ok by (simp_all add: pools_ok_def)
  have mem: "i \<in> set (active_pools g)" using xs(2) i by simp
  obtain g2 where g2: "gki_remove_from_pool_list i g1 = Some g2" "length (pool_list g2) = GKI_NUM_TOTAL_BUF_POOLS"
    "g2 = g1\<lparr>pool_list := pool_list g2\<rparr>"
    "take (curr_total_no_of_pools g - 1) (pool_list g2) = remove1 i (active_pools g)"
    using remove_from_pool_list_ok [of g1 i] xs(3,4) mem by (auto simp: g1_def active_pools_def)
  have g2': "g_freeq g2 = (g_freeq g)(i := empty_freeq)" "pool_start g2 = (pool_start g)(i := 0)"
    "curr_total_no_of_pools g2 = curr_total_no_of_pools g"
    by (subst g2(3), simp add: g1_def)+
  have sub: "set (remove1 i (active_pools g)) = set (active_pools g) - {i}" using xs(1) by simp
  have "sorted_wrt (\<lambda>a b. fq_size (g_freeq g a) \<le> fq_size (g_freeq g b)) (remove1 i (active_pools g))"
    using xs(5) by (rule sorted_wrt_remove1)
  then have "sorted_wrt (\<lambda>a b. fq_size (g_freeq g2 a) \<le> fq_size (g_freeq g2 b)) (remove1 i (active_pools g))"
    by (subst sorted_wrt_key_cong [where f' = "\<lambda>a. fq_size (g_freeq g a)"]) (auto simp: g2' sub)
  then show ?thesis
    using g2(1,2,4) xs sub by (auto simp: pools_ok_def active_pools_def g2')
qed

text \<open>C36. Pool table invariant: start-up establishes it, and creating or deleting a pool, for any arguments, any
  allocator and on every branch, never writes outside \<^verbatim>\<open>pool_list\<close> and keeps the first
  \<^verbatim>\<open>curr_total_no_of_pools\<close> entries a duplicate-free list, sorted by buffer size, of exactly the pools
  that have memory.\<close>

theorem gki_pools_invariant:
  "(length (pool_list g) = GKI_NUM_TOTAL_BUF_POOLS \<longrightarrow> pools_ok (gki_buffer_init g)) \<and>
   (pools_ok g \<longrightarrow> (\<exists>r g'. GKI_create_pool os_malloc sz count perm p_mem g = Some (r, g') \<and> pools_ok g')) \<and>
   (pools_ok g \<longrightarrow> (\<exists>g'. GKI_delete_pool pool_id g = Some g' \<and> pools_ok g'))"
proof (intro conjI impI)
  assume "length (pool_list g) = GKI_NUM_TOTAL_BUF_POOLS"
  then show "pools_ok (gki_buffer_init g)"
    by (auto simp: pools_ok_def gki_buffer_init_def active_pools_def)
next
  assume ok: "pools_ok g"
  let ?xx = "find_unused_pool g"
  let ?m = "if p_mem = 0 then os_malloc (g_heap g) (unat (of_nat ((ALIGN_POOL (unat sz) + BUFFER_PADDING_SIZE) * unat count) :: u32)) else p_mem"
  show "\<exists>r g'. GKI_create_pool os_malloc sz count perm p_mem g = Some (r, g') \<and> pools_ok g'"
  proof (cases "unat sz > MAX_USER_BUF_SIZE \<or> ?xx = GKI_NUM_TOTAL_BUF_POOLS \<or> ?m = 0")
    case True
    then show ?thesis using ok by (auto simp: GKI_create_pool_def Let_def)
  next
    case False
    then have xx: "?xx < GKI_NUM_TOTAL_BUF_POOLS" "pool_start g ?xx = 0" "?m \<noteq> 0"
      using find_unused_pool_spec [of g] by auto
    have q: "unat (of_nat ?xx :: u8) = ?xx" using xx(1) by (simp add: unat_of_nat_u8)
    obtain g1 where "gki_add_to_pool_list ?xx (gki_init_free_queue (of_nat ?xx) sz count ?m g) = Some g1"
      "pools_ok ((snd (GKI_set_pool_permission (of_nat ?xx) perm g1))\<lparr>curr_total_no_of_pools := Suc (curr_total_no_of_pools (snd (GKI_set_pool_permission (of_nat ?xx) perm g1)))\<rparr>)"
      using pools_ok_insert [OF ok xx(1,2) q xx(3), of sz count perm] by blast
    then show ?thesis using False by (simp add: GKI_create_pool_def Let_def del: of_nat_add of_nat_mult)
  qed
next
  assume ok: "pools_ok g"
  show "\<exists>g'. GKI_delete_pool pool_id g = Some g' \<and> pools_ok g'"
    using pools_ok_remove [OF ok, of "unat pool_id"] ok
    by (auto simp: GKI_delete_pool_def Let_def GKI_exception_def pools_ok_def active_pools_def)
qed

end
