(* ===== verification/GkiAlloc.thy ===== *)
theory GkiAlloc
  imports GkiQueue GkiPool
begin

unbundle bit_operations_syntax

text \<open>
  Allocation of buffers, its round trip with \<^verbatim>\<open>GKI_freebuf\<close>, concrete instances of the theorems on
  queues, mailboxes and pools, and two inputs on which \<^verbatim>\<open>gki_buffer.cc\<close> goes wrong.
\<close>

section \<open>Allocation\<close>

text \<open>The documented behaviour of \<^verbatim>\<open>malloc\<close>: null, or an address that is not in use, aligned to 8 bytes.\<close>

definition malloc_spec :: "(heap \<Rightarrow> nat \<Rightarrow> nat) \<Rightarrow> bool" where
  "malloc_spec os_malloc \<longleftrightarrow> (\<forall>h n. os_malloc h n \<noteq> 0 \<longrightarrow> h (os_malloc h n) = None \<and> os_malloc h n mod 8 = 0)"

lemma ALIGN_POOL_bounds: "n \<le> ALIGN_POOL n" "ALIGN_POOL n < n + 4" "ALIGN_POOL n mod 4 = 0"
  by (simp_all add: ALIGN_POOL_def)

lemma align_size:
  assumes "unat (sz :: u16) \<le> 0xFFFC"
  shows "unat (of_nat (ALIGN_POOL (unat sz)) :: u16) = ALIGN_POOL (unat sz)"
proof -
  have "ALIGN_POOL (unat sz) \<le> 0xFFFC"
    using assms by (simp add: ALIGN_POOL_def)
  then show ?thesis by (simp add: unat_of_nat)
qed

text \<open>\<^verbatim>\<open>GKI_getbuf\<close> with a valid size and memory available returns a zeroed, unlinked, undamaged buffer of the
  requested size rounded up to a multiple of four, at an address that was not in use, and leaves every
  queue alone; freeing it restores the heap and the allocation count and raises no exception. For size
  0, or a size whose rounding would overflow 16 bits, it returns null and changes nothing.\<close>

theorem GKI_getbuf_freebuf:
  assumes ms: "malloc_spec os_malloc"
    and avail: "\<And>n. os_malloc (g_heap g) n \<noteq> 0" and cnt: "unat (fq_cur_cnt (g_freeq g 0)) < 0xFFFF"
  shows "if sz = 0 \<or> unat sz > 0xFFFC then GKI_getbuf os_malloc tid sz g = Some (0, g)
    else \<exists>p g' b g''. GKI_getbuf os_malloc tid sz g = Some (p, g') \<and> buf_ready (g_heap g') p \<and>
      rd_hdr (g_heap g) p = None \<and> rd_hdr (g_heap g') p = Some b \<and> bh_task_id b = tid \<and>
      bh_data b = replicate (unat (bh_size b)) 0 \<and> unat sz \<le> unat (bh_size b) \<and> unat (bh_size b) < unat sz + 4 \<and>
      (\<forall>ys e. qseg (g_heap g) ys e \<longrightarrow> p \<notin> set ys \<and> qseg (g_heap g') ys e) \<and>
      GKI_freebuf p g' = Some g'' \<and> g_heap g'' = g_heap g \<and> g_exc g'' = g_exc g \<and>
      fq_cur_cnt (g_freeq g'' 0) = fq_cur_cnt (g_freeq g 0)"
proof (cases "sz = 0 \<or> unat sz > 0xFFFC")
  case True
  then show ?thesis by (auto simp: GKI_getbuf_def)
next
  case False
  define s :: u16 where "s = of_nat (ALIGN_POOL (unat sz))"
  have us: "unat s = ALIGN_POOL (unat sz)" using align_size [of sz] False by (simp add: s_def)
  define a where "a = os_malloc (g_heap g) (unat s + BUFFER_PADDING_SIZE)"
  have a: "a \<noteq> 0" "g_heap g a = None" "a mod 8 = 0" using ms avail by (simp_all add: malloc_spec_def a_def)
  define b where "b = \<lparr>bh_next = 0, bh_q_id = 0, bh_task_id = tid, bh_status = BUF_STATUS_UNLINKED,
      bh_Type = 0, bh_size = s, bh_data = replicate (unat s) 0, bh_magic = MAGIC_NO\<rparr>"
  define Q where "Q = (g_freeq g 0)\<lparr>fq_cur_cnt := fq_cur_cnt (g_freeq g 0) + 1, fq_max_cnt :=
      (if fq_cur_cnt (g_freeq g 0) + 1 > fq_max_cnt (g_freeq g 0) then fq_cur_cnt (g_freeq g 0) + 1 else fq_max_cnt (g_freeq g 0))\<rparr>"
  define g' where "g' = g\<lparr>g_heap := (g_heap g)(a \<mapsto> b), g_freeq := (g_freeq g)(0 := Q)\<rparr>"
  have run: "GKI_getbuf os_malloc tid sz g = Some (a + BUFFER_HDR_SIZE, g')"
    using False a(1) by (simp add: GKI_getbuf_def Let_def s_def [symmetric] a_def [symmetric] b_def g'_def Q_def)
  have even: "even (a + BUFFER_HDR_SIZE + unat s)"
    using a(3) ALIGN_POOL_bounds(3) [of "unat sz"] unfolding us by presburger
  have ready: "buf_ready (g_heap g') (a + BUFFER_HDR_SIZE)" using a(1) even by (simp add: buf_ready_def g'_def b_def)
  have seg: "a + BUFFER_HDR_SIZE \<notin> set ys" "qseg (g_heap g') ys e" if "qseg (g_heap g) ys e" for ys e
  proof -
    show n: "a + BUFFER_HDR_SIZE \<notin> set ys" using qseg_mem [OF that, of "a + BUFFER_HDR_SIZE"] a(2) by auto
    show "qseg (g_heap g') ys e" using that n by (simp add: g'_def qseg_frame)
  qed
  have nz: "fq_cur_cnt (g_freeq g 0) + 1 > 0"
    using cnt by (simp add: word_less_nat_alt unat_word_ariths)
  obtain c where c: "hdr_of (a + BUFFER_HDR_SIZE) = Some a" "gki_chk_buf_damage (g_heap g') (a + BUFFER_HDR_SIZE) = Some False"
    using buf_ready_hdr [OF ready] by auto
  have h: "g_heap g' a = Some b" by (simp add: g'_def)
  have "\<exists>g''. GKI_freebuf (a + BUFFER_HDR_SIZE) g' = Some g'' \<and> g_heap g'' = g_heap g \<and> g_exc g'' = g_exc g \<and>
      fq_cur_cnt (g_freeq g'' 0) = fq_cur_cnt (g_freeq g 0)"
    using c h nz a(2) by (simp add: GKI_freebuf_def b_def) (auto simp: g'_def Q_def Let_def)
  then show ?thesis
    using False run ready seg a ALIGN_POOL_bounds(1,2) [of "unat sz"] h c(1)
    by (auto simp: rd_hdr_def b_def us)
qed

section \<open>Instances\<close>

text \<open>A system with every task alive and nothing allocated, and an allocator with one address.\<close>

definition gki_boot :: gki where
  "gki_boot = gki_buffer_init \<lparr>g_heap = Map.empty, g_freeq = (\<lambda>_. empty_freeq), OSTaskQFirst = (\<lambda>_. 0), OSTaskQLast = (\<lambda>_. 0),
     OSRdyTbl = (\<lambda>_. 1), OSWaitEvt = (\<lambda>_. 0), pool_start = (\<lambda>_. 0), pool_end = (\<lambda>_. 0), pool_size = (\<lambda>_. 0),
     pool_access_mask = 0, pool_list = replicate 10 0, curr_total_no_of_pools = 0, g_exc = []\<rparr>"

definition one_malloc :: "heap \<Rightarrow> nat \<Rightarrow> nat" where
  "one_malloc h n = (if h 4096 = None then 4096 else 0)"

lemma one_malloc_spec: "malloc_spec one_malloc"
  by (simp add: malloc_spec_def one_malloc_def)

lemma gki_boot_heap [simp]: "g_heap gki_boot = Map.empty"
  by (simp add: gki_boot_def gki_buffer_init_def)

theorem GKI_getbuf_freebuf_witness:
  "malloc_spec one_malloc \<and> (\<exists>p g' g''. GKI_getbuf one_malloc 0 10 gki_boot = Some (p, g') \<and> buf_ready (g_heap g') p \<and>
     GKI_freebuf p g' = Some g'' \<and> g_heap g'' = Map.empty)"
proof -
  have avail: "\<And>n. one_malloc (g_heap gki_boot) n \<noteq> 0" by (simp add: one_malloc_def)
  have cnt: "unat (fq_cur_cnt (g_freeq gki_boot 0)) < 0xFFFF"
    by (simp add: gki_boot_def gki_buffer_init_def empty_freeq_def)
  show ?thesis
    using GKI_getbuf_freebuf [OF one_malloc_spec avail cnt, of 10 0] one_malloc_spec by auto
qed

text \<open>Three allocated buffers.\<close>

definition gki_three :: gki where
  "gki_three = (let b = \<lparr>bh_next = 0, bh_q_id = 0, bh_task_id = 0, bh_status = BUF_STATUS_UNLINKED, bh_Type = 0,
       bh_size = 4, bh_data = replicate 4 0, bh_magic = MAGIC_NO\<rparr>
     in gki_boot\<lparr>g_heap := [1000 \<mapsto> b, 2000 \<mapsto> b, 3000 \<mapsto> b]\<rparr>)"

definition q_empty :: buffer_q where "q_empty = \<lparr>bq_first = 0, bq_last = 0, bq_count = 0\<rparr>"

lemma three_ready: "buf_ready (g_heap gki_three) 1016" "buf_ready (g_heap gki_three) 2016" "buf_ready (g_heap gki_three) 3016"
  by (simp_all add: gki_three_def buf_ready_def Let_def)

lemma q_empty_rep: "qrep (g, q_empty) []"
  by (simp add: qrep_def q_empty_def)

lemma three_accepts: "q_accepts [1016, 2016, 3016] (gki_three, q_empty)" "m_accepts [1016, 2016, 3016] gki_three"
  by (simp_all add: q_accepts_def m_accepts_def three_ready q_empty_def)

theorem gki_queue_fifo_witness:
  "\<exists>s' s''. put_all GKI_enqueue [1016, 2016, 3016] (gki_three, q_empty) = Some s' \<and>
     get_n q_get 3 s' = Some ([1016, 2016, 3016], s'')"
  using gki_queue_fifo [OF q_empty_rep three_accepts(1)] by (auto simp: numeral_3_eq_3)

lemma three_mbox: "mrep 2 1 gki_three []"
  by (simp add: mrep_def gki_three_def gki_boot_def gki_buffer_init_def Let_def)

theorem gki_mailbox_fifo_witness:
  "\<exists>g' g''. put_all (GKI_send_msg 2 1) [1016, 2016, 3016] gki_three = Some g' \<and>
     get_n (m_get 2 1) 3 g' = Some ([1016, 2016, 3016], g'')"
  using gki_mailbox_fifo [OF three_mbox three_accepts(2)] by (auto simp: numeral_3_eq_3)

theorem gki_queue_exclusive_witness:
  "buf_ready (g_heap gki_three) 1016 \<and> (\<exists>g' q1'. GKI_enqueue 1016 (gki_three, q_empty) = Some (g', q1') \<and> qrep (g', q1') [1016] \<and>
     qrep (g', q_empty) [])"
  using gki_queue_exclusive [OF q_empty_rep q_empty_rep, of gki_three 1016] three_ready(1) by auto

theorem GKI_remove_from_queue_ok_witness:
  "\<exists>g q g' q'. put_all GKI_enqueue [1016, 2016, 3016] (gki_three, q_empty) = Some (g, q) \<and>
     GKI_remove_from_queue 2016 (g, q) = Some (2016, g', q') \<and> qrep (g', q') [1016, 3016]"
proof -
  obtain g q where s: "put_all GKI_enqueue [1016, 2016, 3016] (gki_three, q_empty) = Some (g, q)" "qrep (g, q) [1016, 2016, 3016]"
    using gki_q.put_all_rep [OF q_empty_rep three_accepts(1)] by auto
  then show ?thesis using GKI_remove_from_queue_ok [OF s(2), of 2016] by auto
qed

theorem gki_pools_invariant_witness:
  "pools_ok gki_boot \<and> (\<exists>r g'. GKI_create_pool one_malloc 100 2 0 0 gki_boot = Some (r, g') \<and> pools_ok g')"
proof -
  have "pools_ok gki_boot"
    unfolding gki_boot_def using gki_pools_invariant [where os_malloc = one_malloc] by simp
  then show ?thesis using gki_pools_invariant [of gki_boot one_malloc] by blast
qed

section \<open>Two defects\<close>

text \<open>\<^verbatim>\<open>GKI_remove_from_queue\<close> on an empty queue, asked for any allocated buffer, has no defined result: the header address
  of a null first pointer is computed and dereferenced, because only \<^verbatim>\<open>GKI_dequeue\<close> tests the count.\<close>

theorem remove_from_empty_queue_undefined:
  "qrep (gki_three, q_empty) [] \<and> buf_ready (g_heap gki_three) 1016 \<and>
   GKI_remove_from_queue 1016 (gki_three, q_empty) = None"
  using three_ready(1) by (simp add: q_empty_rep) (simp add: GKI_remove_from_queue_def q_empty_def hdr_of_def)

text \<open>\<^verbatim>\<open>GKI_create_pool\<close> accepts a buffer size of 65515 bytes, the documented maximum that leaves room for the header;
  the element size then wraps to 0, so that the pool is empty (start and end are equal) although it is
  reported as created with all its buffers free.\<close>

theorem create_pool_size_wraps:
  "case GKI_create_pool one_malloc 65515 2 0 4096 gki_boot of
     Some (r, g') \<Rightarrow> r = 0 \<and> pool_size g' 0 = 0 \<and> pool_start g' 0 = 4096 \<and> pool_end g' 0 = 4096 \<and> GKI_poolfreecount 0 g' = 2
   | None \<Rightarrow> False"
proof -
  have u: "find_unused_pool gki_boot = 0"
    by (simp add: find_unused_pool_def gki_boot_def gki_buffer_init_def upt_rec)
  have w: "ALIGN_POOL 65515 = 65516"
    by (simp add: ALIGN_POOL_def)
  let ?g = "gki_init_free_queue 0 65515 2 4096 gki_boot"
  have s: "pool_start ?g 0 = 4096" "pool_end ?g 0 = 4096" "pool_size ?g 0 = 0" "fq_total (g_freeq ?g 0) = 2" "fq_cur_cnt (g_freeq ?g 0) = 0"
    using w by (simp_all add: gki_init_free_queue_def Let_def)
  have "curr_total_no_of_pools ?g < length (pool_list ?g)"
    by (simp add: init_free_queue_sel) (simp add: gki_boot_def gki_buffer_init_def)
  then obtain g1 where g1: "gki_add_to_pool_list 0 ?g = Some g1" "g1 = ?g\<lparr>pool_list := pool_list g1\<rparr>"
    using add_to_pool_list_ok [of ?g 0] by blast
  have s1: "pool_start g1 0 = 4096" "pool_end g1 0 = 4096" "pool_size g1 0 = 0" "fq_total (g_freeq g1 0) = 2" "fq_cur_cnt (g_freeq g1 0) = 0"
    by (subst g1(2), simp add: s)+
  show ?thesis
    using g1(1) s1 u w by (simp add: GKI_create_pool_def Let_def GKI_set_pool_permission_def GKI_poolfreecount_def)
qed

end
