(* ===== verification/GkiTimerList.thy ===== *)
theory GkiTimerList
  imports NfcPrelude
begin

text \<open>
  The timer lists of \<^verbatim>\<open>gki/common/gki_time.cc\<close>: doubly linked lists of entries in which each entry stores its
  ticks relative to the entry before it. The client's view of a list is the sequence of timers with
  their remaining ticks; adding, removing and updating are shown to act on that view and to keep the
  links intact. Entries live at addresses (0 is null); following a pointer to no entry is \<open>None\<close>. The
  callback and event fields of an entry belong to the client and are not used here.
\<close>

section \<open>State\<close>

abbreviation (input) "GKI_UNUSED_LIST_ENTRY \<equiv> - 2147483648 :: int"

record tle =
  te_next :: nat
  te_prev :: nat
  te_ticks :: int
  te_in_use :: bool

record tlq =
  tq_first :: nat
  tq_last :: nat
  tq_last_ticks :: int

type_synonym tstore = "nat \<rightharpoonup> tle"

definition tupd :: "tstore \<Rightarrow> nat \<Rightarrow> (tle \<Rightarrow> tle) \<Rightarrow> tstore option" where
  "tupd st a f = do { e \<leftarrow> st a; Some (st(a \<mapsto> f e)) }"

section \<open>Operations\<close>

abbreviation (input) "GKI_MAX_TIMER_QUEUES \<equiv> 3 :: nat"

definition timer_queues_init :: "nat list" where "timer_queues_init = replicate GKI_MAX_TIMER_QUEUES 0"
definition GKI_timer_queue_empty :: "nat list \<Rightarrow> bool" where "GKI_timer_queue_empty tqs \<longleftrightarrow> list_all (\<lambda>t. t = 0) tqs"

definition GKI_init_timer_list :: "tlq \<Rightarrow> tlq" where
  "GKI_init_timer_list q = q\<lparr>tq_first := 0, tq_last := 0, tq_last_ticks := 0\<rparr>"

definition GKI_init_timer_list_entry :: "nat \<Rightarrow> tstore \<Rightarrow> tstore option" where
  "GKI_init_timer_list_entry p st =
     tupd st p (\<lambda>e. e\<lparr>te_next := 0, te_prev := 0, te_ticks := GKI_UNUSED_LIST_ENTRY, te_in_use := False\<rparr>)"

text \<open>The two loops of \<^verbatim>\<open>GKI_update_timer_list\<close>: past the entries that had timed out before, then through
  the entries the elapsed ticks reach.\<close>

partial_function (option) tl_skip :: "tstore \<Rightarrow> nat \<Rightarrow> nat \<Rightarrow> (nat \<times> nat) option" where
  "tl_skip st num p = (if p = 0 then Some (num, p)
     else Option.bind (st p) (\<lambda>e. if te_ticks e \<le> 0 then tl_skip st (Suc num) (te_next e) else Some (num, p)))"

partial_function (option) tl_dec :: "tstore \<Rightarrow> nat \<Rightarrow> int \<Rightarrow> nat \<Rightarrow> (tstore \<times> nat) option" where
  "tl_dec st num rem p = (if p = 0 \<or> rem \<le> 0 then Some (st, num)
     else Option.bind (st p) (\<lambda>e. let t = te_ticks e - rem in
       tl_dec (st(p \<mapsto> e\<lparr>te_ticks := (if t \<le> 0 then 0 else t)\<rparr>)) (if t \<le> 0 then Suc num else num)
         (rem - te_ticks e) (te_next e)))"

declare tl_skip.simps [code] tl_dec.simps [code]

definition GKI_update_timer_list :: "int \<Rightarrow> tstore \<times> tlq \<Rightarrow> (u16 \<times> tstore \<times> tlq) option" where
  "GKI_update_timer_list n sq = (case sq of (st, q) \<Rightarrow> do {
     (num, p) \<leftarrow> tl_skip st 0 (tq_first q);
     (st', num) \<leftarrow> tl_dec st num n p;
     let l = (if tq_last_ticks q > 0 then max 0 (tq_last_ticks q - n) else tq_last_ticks q);
     Some (of_nat num, st', q\<lparr>tq_last_ticks := l\<rparr>) })"

definition GKI_timer_list_empty :: "tlq \<Rightarrow> bool" where "GKI_timer_list_empty q \<longleftrightarrow> tq_first q = 0"
definition GKI_timer_list_first :: "tlq \<Rightarrow> nat" where "GKI_timer_list_first q = tq_first q"

partial_function (option) tl_sum :: "tstore \<Rightarrow> nat \<Rightarrow> u32 \<Rightarrow> nat \<Rightarrow> u32 option" where
  "tl_sum st tgt acc p = (if p = 0 then Some 0
     else Option.bind (st p) (\<lambda>e. if p = tgt then Some (acc + of_int (te_ticks e))
       else tl_sum st tgt (acc + of_int (te_ticks e)) (te_next e)))"

declare tl_sum.simps [code]

definition GKI_get_remaining_ticks :: "nat \<Rightarrow> tstore \<times> tlq \<Rightarrow> u32 option" where
  "GKI_get_remaining_ticks p_target sq = (case sq of (st, q) \<Rightarrow> do {
     e \<leftarrow> st p_target;
     if te_in_use e then tl_sum st p_target 0 (tq_first q) else Some 0 })"

text \<open>The search of \<^verbatim>\<open>GKI_add_to_timer_list\<close>: the entry to insert in front of, and the ticks relative to the entry
  before it.\<close>

partial_function (option) tl_find :: "tstore \<Rightarrow> int \<Rightarrow> nat \<Rightarrow> (nat \<times> int) option" where
  "tl_find st t p = Option.bind (st p) (\<lambda>e. if t > te_ticks e
     then tl_find st (if te_ticks e > 0 then t - te_ticks e else t) (te_next e) else Some (p, t))"

declare tl_find.simps [code]

text \<open>The registration of a list (by its address) in \<^verbatim>\<open>timer_queues\<close>, and its removal.\<close>

fun reg_free :: "nat list \<Rightarrow> nat \<Rightarrow> nat list" where
  "reg_free [] qa = []"
| "reg_free (x # xs) qa = (if x = 0 then qa # xs else x # reg_free xs qa)"

definition tl_register :: "nat \<Rightarrow> nat list \<Rightarrow> nat list" where
  "tl_register qa tqs = (if qa \<in> set tqs then tqs else reg_free tqs qa)"

fun tl_unregister :: "nat \<Rightarrow> nat list \<Rightarrow> nat list" where
  "tl_unregister qa [] = []"
| "tl_unregister qa (x # xs) = (if x = qa then 0 # xs else x # tl_unregister qa xs)"

definition GKI_add_to_timer_list ::
  "nat \<Rightarrow> nat \<Rightarrow> nat list \<times> tstore \<times> tlq \<Rightarrow> (nat list \<times> tstore \<times> tlq) option" where
  "GKI_add_to_timer_list qa p s = (case s of (tqs, st, q) \<Rightarrow>
     if p = 0 \<or> qa = 0 then Some s
     else do {
       e \<leftarrow> st p;
       if te_ticks e \<ge> 0 then do {
         (st', q') \<leftarrow>
           (if te_ticks e \<ge> tq_last_ticks q
            then do {
              st1 \<leftarrow> (if tq_first q = 0 then Some st
                     else do { st1 \<leftarrow> (if tq_last q \<noteq> 0 then tupd st (tq_last q) (\<lambda>e. e\<lparr>te_next := p\<rparr>) else Some st);
                               tupd st1 p (\<lambda>e. e\<lparr>te_prev := tq_last q\<rparr>) });
              st2 \<leftarrow> tupd st1 p (\<lambda>e. e\<lparr>te_next := 0, te_ticks := te_ticks e - tq_last_ticks q\<rparr>);
              Some (st2, q\<lparr>tq_first := (if tq_first q = 0 then p else tq_first q), tq_last := p, tq_last_ticks := te_ticks e\<rparr>) }
            else do {
              (p_temp, t) \<leftarrow> tl_find st (te_ticks e) (tq_first q);
              st1 \<leftarrow> tupd st p (\<lambda>e. e\<lparr>te_ticks := t\<rparr>);
              (st2, q2) \<leftarrow>
                (if p_temp = tq_first q
                 then do { st2 \<leftarrow> tupd st1 p (\<lambda>e. e\<lparr>te_next := tq_first q\<rparr>);
                           st3 \<leftarrow> tupd st2 (tq_first q) (\<lambda>e. e\<lparr>te_prev := p\<rparr>);
                           Some (st3, q\<lparr>tq_first := p\<rparr>) }
                 else do { et \<leftarrow> st1 p_temp;
                           st2 \<leftarrow> tupd st1 (te_prev et) (\<lambda>e. e\<lparr>te_next := p\<rparr>);
                           st3 \<leftarrow> tupd st2 p (\<lambda>e. e\<lparr>te_prev := te_prev et\<rparr>);
                           st4 \<leftarrow> tupd st3 p_temp (\<lambda>e. e\<lparr>te_prev := p\<rparr>);
                           st5 \<leftarrow> tupd st4 p (\<lambda>e. e\<lparr>te_next := p_temp\<rparr>);
                           Some (st5, q) });
              st6 \<leftarrow> tupd st2 p_temp (\<lambda>e. e\<lparr>te_ticks := te_ticks e - t\<rparr>);
              Some (st6, q2) });
         st'' \<leftarrow> tupd st' p (\<lambda>e. e\<lparr>te_in_use := True\<rparr>);
         Some (tl_register qa tqs, st'', q') }
       else Some s })"

text \<open>The unlinking part of \<^verbatim>\<open>GKI_remove_from_timer_list\<close>; \<open>Inl\<close> is the early return on a broken chain.\<close>

definition tl_unlink :: "nat \<Rightarrow> tle \<Rightarrow> tstore \<times> tlq \<Rightarrow> (tstore \<times> tlq + tstore \<times> tlq) option" where
  "tl_unlink p e sq = (case sq of (st, q) \<Rightarrow>
     if tq_first q = p
     then do { st1 \<leftarrow> (if te_next e \<noteq> 0 then tupd st (te_next e) (\<lambda>e. e\<lparr>te_prev := 0\<rparr>) else Some st);
               Some (Inr (st1, q\<lparr>tq_first := te_next e, tq_last := (if tq_last q = p then 0 else tq_last q)\<rparr>)) }
     else if tq_last q = p
     then do { st1 \<leftarrow> (if te_prev e \<noteq> 0 then tupd st (te_prev e) (\<lambda>e. e\<lparr>te_next := 0\<rparr>) else Some st);
               Some (Inr (st1, q\<lparr>tq_last := te_prev e\<rparr>)) }
     else if te_next e = 0 then Some (Inl (st, q))
     else do {
       en \<leftarrow> st (te_next e);
       if te_prev en \<noteq> p then Some (Inl (st, q))
       else do {
         st1 \<leftarrow> tupd st (te_next e) (\<lambda>n. n\<lparr>te_prev := te_prev e\<rparr>);
         if te_prev e = 0 then Some (Inl (st1, q))
         else do {
           ep \<leftarrow> st1 (te_prev e);
           if te_next ep \<noteq> p then Some (Inl (st1, q))
           else do { st2 \<leftarrow> tupd st1 (te_prev e) (\<lambda>n. n\<lparr>te_next := te_next e\<rparr>); Some (Inr (st2, q)) } } } })"

definition GKI_remove_from_timer_list ::
  "nat \<Rightarrow> nat \<Rightarrow> nat list \<times> tstore \<times> tlq \<Rightarrow> (nat list \<times> tstore \<times> tlq) option" where
  "GKI_remove_from_timer_list qa p s = (case s of (tqs, st, q) \<Rightarrow>
     if p = 0 then Some s
     else do {
       e \<leftarrow> st p;
       if \<not> te_in_use e \<or> tq_first q = 0 then Some s
       else do {
         (st1, q1) \<leftarrow> (if te_next e \<noteq> 0
             then do { st1 \<leftarrow> tupd st (te_next e) (\<lambda>n. n\<lparr>te_ticks := te_ticks n + te_ticks e\<rparr>); Some (st1, q) }
             else Some (st, q\<lparr>tq_last_ticks := tq_last_ticks q - te_ticks e\<rparr>));
         r \<leftarrow> tl_unlink p e (st1, q1);
         case r of Inl (st2, q2) \<Rightarrow> Some (tqs, st2, q2)
         | Inr (st2, q2) \<Rightarrow> do {
             st3 \<leftarrow> tupd st2 p (\<lambda>e. e\<lparr>te_next := 0, te_prev := 0, te_ticks := GKI_UNUSED_LIST_ENTRY, te_in_use := False\<rparr>);
             if tq_first q2 = 0 \<and> tq_last q2 = 0
             then Some (tl_unregister qa tqs, st3, q2\<lparr>tq_last_ticks := 0\<rparr>)
             else Some (tqs, st3, q2) } } })"

end
