(* ===== verification/GkiTimerListProofs.thy ===== *)
theory GkiTimerListProofs
  imports GkiTimerList
begin

text \<open>
  Correctness of the timer lists: the linked representation, the client's view \<open>tabs\<close> (timers with their
  remaining ticks) and the theorems on update, addition, removal and query.
\<close>

section \<open>Linked segments\<close>

fun tseg :: "tstore \<Rightarrow> nat \<Rightarrow> nat list \<Rightarrow> nat \<Rightarrow> bool" where
  "tseg st p [] n = True"
| "tseg st p (x # xs) n = (x \<noteq> 0 \<and> (\<exists>e. st x = Some e \<and> te_prev e = p \<and> te_next e = (if xs = [] then n else hd xs) \<and>
     te_in_use e \<and> 0 \<le> te_ticks e) \<and> tseg st x xs n)"

definition tk :: "tstore \<Rightarrow> nat \<Rightarrow> int" where
  "tk st x = te_ticks (the (st x))"

abbreviation deltas :: "tstore \<Rightarrow> nat list \<Rightarrow> int list" where
  "deltas st xs \<equiv> map (tk st) xs"

definition trep :: "tstore \<times> tlq \<Rightarrow> nat list \<Rightarrow> bool" where
  "trep sq xs \<longleftrightarrow> distinct xs \<and> tseg (fst sq) 0 xs 0 \<and>
     tq_first (snd sq) = (if xs = [] then 0 else hd xs) \<and> tq_last (snd sq) = (if xs = [] then 0 else last xs) \<and>
     tq_last_ticks (snd sq) = sum_list (deltas (fst sq) xs)"

fun accum :: "int \<Rightarrow> int list \<Rightarrow> int list" where
  "accum a [] = []"
| "accum a (d # ds) = (a + d) # accum (a + d) ds"

text \<open>The timers of the list with the ticks each has left.\<close>

definition tabs :: "tstore \<Rightarrow> nat list \<Rightarrow> (nat \<times> int) list" where
  "tabs st xs = zip xs (accum 0 (deltas st xs))"

lemma tseg_append: "tseg st p (xs @ ys) n \<longleftrightarrow>
    tseg st p xs (if ys = [] then n else hd ys) \<and> tseg st (if xs = [] then p else last xs) ys n"
  by (induction xs arbitrary: p) (auto simp: hd_append)

lemma tseg_frame: "a \<notin> set xs \<Longrightarrow> tseg (st(a := v)) p xs n = tseg st p xs n"
  by (induction xs arbitrary: p) auto

lemma tk_frame: "a \<notin> set xs \<Longrightarrow> deltas (st(a := v)) xs = deltas st xs"
  by (auto simp: tk_def)

lemma tseg_mem: "tseg st p xs n \<Longrightarrow> x \<in> set xs \<Longrightarrow> x \<noteq> 0 \<and> (\<exists>e. st x = Some e \<and> te_in_use e \<and> 0 \<le> te_ticks e)"
  by (induction xs arbitrary: p) auto

lemma tseg_nonneg: "tseg st p xs n \<Longrightarrow> list_all (\<lambda>d. 0 \<le> d) (deltas st xs)"
  by (induction xs arbitrary: p) (auto simp: tk_def)

lemma tseg_set_next:
  assumes "tseg st p (xs @ [x]) n" "st x = Some e" "x \<notin> set xs"
  shows "tseg (st(x \<mapsto> e\<lparr>te_next := n'\<rparr>)) p (xs @ [x]) n'"
  using assms by (auto simp: tseg_append tseg_frame)

lemma tseg_set_head:
  assumes "tseg st p (x # xs) n" "st x = Some e" "x \<notin> set xs" "0 \<le> d"
  shows "tseg (st(x \<mapsto> e\<lparr>te_prev := p', te_ticks := d\<rparr>)) p' (x # xs) n"
  using assms by (auto simp: tseg_frame)

lemma length_accum [simp]: "length (accum a ds) = length ds"
  by (induction ds arbitrary: a) auto

lemma accum_append: "accum a (xs @ ys) = accum a xs @ accum (a + sum_list xs) ys"
  by (induction xs arbitrary: a) (auto simp: add.assoc)

lemma accum_shift: "accum (a + b) ds = map (\<lambda>x. x + b) (accum a ds)"
proof (induction ds arbitrary: a)
  case (Cons d ds)
  have "a + b + d = (a + d) + b" by simp
  then have "accum (a + b) (d # ds) = (a + d + b) # accum ((a + d) + b) ds" by (simp only: accum.simps)
  then show ?case by (simp add: Cons)
qed simp

lemma accum_ge: "list_all (\<lambda>d. 0 \<le> d) ds \<Longrightarrow> r \<in> set (accum a ds) \<Longrightarrow> a \<le> r"
  by (induction ds arbitrary: a) fastforce+

lemma accum_le: "list_all (\<lambda>d. 0 \<le> d) ds \<Longrightarrow> r \<in> set (accum a ds) \<Longrightarrow> r \<le> a + sum_list ds"
proof (induction ds arbitrary: a)
  case (Cons d ds)
  have "0 \<le> sum_list ds" using Cons.prems(1) by (auto simp: list_all_iff intro!: sum_list_nonneg)
  then show ?case using Cons.IH [of "a + d"] Cons.prems by auto
qed simp

section \<open>Update\<close>

fun dec :: "int \<Rightarrow> int list \<Rightarrow> int list" where
  "dec r [] = []"
| "dec r (d # ds) = (if r > 0 then max 0 (d - r) # dec (r - d) ds else d # ds)"

lemma dec_nonpos [simp]: "r \<le> 0 \<Longrightarrow> dec r ds = ds"
  by (cases ds) auto

lemma accum_dec:
  "list_all (\<lambda>d. 0 \<le> d) ds \<Longrightarrow> 0 \<le> r \<Longrightarrow> accum 0 (dec r ds) = map (\<lambda>x. max 0 (x - r)) (accum 0 ds)"
proof (induction ds arbitrary: r)
  case (Cons d ds)
  have d: "0 \<le> d" "list_all (\<lambda>d. 0 \<le> d) ds" using Cons.prems by auto
  have ge: "x \<in> set (accum d ds) \<Longrightarrow> d \<le> x" for x using accum_ge [OF d(2)] .
  show ?case
  proof (cases "d < r")
    case True
    then have "accum 0 (dec r (d # ds)) = 0 # map (\<lambda>x. max 0 (x - (r - d))) (accum 0 ds)"
      using Cons.IH [of "r - d"] d by simp
    moreover have "accum d ds = map (\<lambda>x. x + d) (accum 0 ds)" using accum_shift [of 0 d ds] by simp
    ultimately show ?thesis using True by (simp add: algebra_simps)
  next
    case False
    have "accum (d - r) ds = map (\<lambda>x. x + - r) (accum d ds)" using accum_shift [of d "- r" ds] by simp
    moreover have "map (\<lambda>x. x + - r) (accum d ds) = map (\<lambda>x. max 0 (x - r)) (accum d ds)"
      using False ge by (intro map_cong) (auto simp: max_def not_less dest: ge)
    moreover have "dec r (d # ds) = (d - r) # ds" using False Cons.prems(2) by (cases "r = 0") auto
    ultimately show ?thesis using False by (simp add: max_def)
  qed
qed simp

lemma sum_dec: "list_all (\<lambda>d. 0 \<le> d) ds \<Longrightarrow> 0 \<le> r \<Longrightarrow> sum_list (dec r ds) = max 0 (sum_list ds - r)"
proof (induction ds arbitrary: r)
  case (Cons d ds)
  have s: "0 \<le> sum_list ds" "0 \<le> d" using Cons.prems(1) by (auto simp: list_all_iff intro!: sum_list_nonneg)
  show ?case
    using Cons.IH [of "r - d"] Cons.prems s by (cases "d < r") (auto simp: max_def)
qed simp

lemma tl_dec_spec:
  "tseg st p xs 0 \<Longrightarrow> distinct xs \<Longrightarrow> q = (if xs = [] then 0 else hd xs) \<Longrightarrow>
   \<exists>st' c. tl_dec st num r q = Some (st', c) \<and> tseg st' p xs 0 \<and> deltas st' xs = dec r (deltas st xs) \<and>
     (\<forall>a. a \<notin> set xs \<longrightarrow> st' a = st a)"
proof (induction xs arbitrary: st p num r q)
  case Nil
  then show ?case by (subst tl_dec.simps) auto
next
  case (Cons x xs)
  obtain e where e: "st x = Some e" "te_prev e = p" "te_next e = (if xs = [] then 0 else hd xs)" "te_in_use e" "0 \<le> te_ticks e"
    and x: "x \<noteq> 0" "x \<notin> set xs" "distinct xs" "tseg st x xs 0" using Cons.prems by auto
  show ?case
  proof (cases "r \<le> 0")
    case True
    then show ?thesis using Cons.prems by (subst tl_dec.simps) auto
  next
    case False
    define st1 where "st1 = st(x \<mapsto> e\<lparr>te_ticks := (if te_ticks e - r \<le> 0 then 0 else te_ticks e - r)\<rparr>)"
    have "tseg st1 x xs 0" using x by (simp add: st1_def tseg_frame)
    from Cons.IH [OF this x(3) e(3), of "if te_ticks e - r \<le> 0 then Suc num else num" "r - te_ticks e"]
    obtain st' c where IH: "tl_dec st1 (if te_ticks e - r \<le> 0 then Suc num else num) (r - te_ticks e) (te_next e) = Some (st', c)"
      "tseg st' x xs 0" "deltas st' xs = dec (r - te_ticks e) (deltas st1 xs)" "\<forall>a. a \<notin> set xs \<longrightarrow> st' a = st1 a"
      by blast
    have run: "tl_dec st num r q = Some (st', c)"
      using IH(1) False e(1) x(1) Cons.prems(3) by (subst tl_dec.simps) (simp add: st1_def Let_def)
    have sx: "st' x = st1 x" using IH(4) x(2) by simp
    have dl: "deltas st1 xs = deltas st xs" using x(2) unfolding st1_def by (rule tk_frame)
    have "tk st' x = max 0 (tk st x - r)" using sx e(1) by (simp add: tk_def st1_def max_def)
    moreover have "tk st x = te_ticks e" using e(1) by (simp add: tk_def)
    ultimately have "deltas st' (x # xs) = dec r (deltas st (x # xs))" using IH(3) [unfolded dl] False by simp
    moreover have "tseg st' p (x # xs) 0" using IH(2) sx e x(1) by (auto simp: st1_def)
    moreover have "\<forall>a. a \<notin> set (x # xs) \<longrightarrow> st' a = st a" using IH(4) by (simp add: st1_def)
    ultimately show ?thesis using run by blast
  qed
qed

lemma tl_skip_dec:
  "tseg st p xs 0 \<Longrightarrow> q = (if xs = [] then 0 else hd xs) \<Longrightarrow>
   \<exists>c as bs. tl_skip st num q = Some (c, if bs = [] then 0 else hd bs) \<and> xs = as @ bs \<and> list_all (\<lambda>d. d = 0) (deltas st as)"
proof (induction xs arbitrary: p num q)
  case Nil
  have "tl_skip st num q = Some (num, 0)" using Nil by (subst tl_skip.simps) simp
  then show ?case by (intro exI [of _ num] exI [of _ "[]"]) simp
next
  case (Cons x xs)
  obtain e where e: "st x = Some e" "te_next e = (if xs = [] then 0 else hd xs)" "0 \<le> te_ticks e" and x: "x \<noteq> 0" "tseg st x xs 0"
    using Cons.prems by auto
  show ?case
  proof (cases "te_ticks e \<le> 0")
    case True
    obtain c as bs where IH: "tl_skip st (Suc num) (te_next e) = Some (c, if bs = [] then 0 else hd bs)" "xs = as @ bs"
      "list_all (\<lambda>d. d = 0) (deltas st as)" using Cons.IH [OF x(2) e(2), of "Suc num"] by blast
    have "tl_skip st num q = Some (c, if bs = [] then 0 else hd bs)"
      using IH(1) True e(1) x(1) Cons.prems(2) by (subst tl_skip.simps) simp
    moreover have "x # xs = (x # as) @ bs" using IH(2) by simp
    moreover have "tk st x = 0" using True e by (simp add: tk_def)
    then have "list_all (\<lambda>d. d = 0) (deltas st (x # as))" using IH(3) by simp
    ultimately show ?thesis by (rule_tac exI [of _ c], rule_tac exI [of _ "x # as"], rule_tac exI [of _ bs]) (intro conjI)
  next
    case False
    have "tl_skip st num q = Some (num, x)" using False e(1) x(1) Cons.prems(2) by (subst tl_skip.simps) simp
    moreover have "list_all (\<lambda>d. d = 0) (deltas st [])" by simp
    moreover have "x # xs = [] @ (x # xs)" by simp
    ultimately show ?thesis by (rule_tac exI [of _ num], rule_tac exI [of _ "[]"], rule_tac exI [of _ "x # xs"]) simp
  qed
qed

lemma dec_zeros: "list_all (\<lambda>d. d = 0) as \<Longrightarrow> dec r (as @ bs) = as @ dec r bs"
  by (induction as) auto

lemma update_rep:
  assumes rep: "trep (st, q) xs" and n: "0 \<le> n"
  shows "\<exists>c st' q'. GKI_update_timer_list n (st, q) = Some (c, st', q') \<and> trep (st', q') xs \<and>
    tabs st' xs = map (\<lambda>(x, r). (x, max 0 (r - n))) (tabs st xs) \<and> (\<forall>a. a \<notin> set xs \<longrightarrow> st' a = st a)"
proof -
  have seg: "tseg st 0 xs 0" and d: "distinct xs" and q: "tq_first q = (if xs = [] then 0 else hd xs)"
    "tq_last_ticks q = sum_list (deltas st xs)" using rep by (simp_all add: trep_def)
  note nn = tseg_nonneg [OF seg]
  obtain c as bs where sk: "tl_skip st 0 (tq_first q) = Some (c, if bs = [] then 0 else hd bs)" "xs = as @ bs"
    "list_all (\<lambda>d. d = 0) (deltas st as)" using tl_skip_dec [OF seg q(1), of 0] by blast
  have segb: "tseg st (if as = [] then 0 else last as) bs 0" using seg sk(2) by (simp add: tseg_append)
  obtain st' c' where dc: "tl_dec st c n (if bs = [] then 0 else hd bs) = Some (st', c')"
    "tseg st' (if as = [] then 0 else last as) bs 0" "deltas st' bs = dec n (deltas st bs)" "\<forall>a. a \<notin> set bs \<longrightarrow> st' a = st a"
    using tl_dec_spec [OF segb _ refl] d sk(2) by fastforce
  have fr: "st' a = st a" if "a \<in> set as" for a using dc(4) that d sk(2) by auto
  have das: "deltas st' as = deltas st as" using fr by (simp add: tk_def)
  have "tseg st' p as m = tseg st p as m" for p m using fr by (induction as arbitrary: p) auto
  then have seg': "tseg st' 0 xs 0" using seg dc(2) sk(2) by (simp add: tseg_append)
  have dl: "deltas st' xs = dec n (deltas st xs)" using das dc(3) sk(2,3) dec_zeros [OF sk(3)] by simp
  let ?q = "q\<lparr>tq_last_ticks := (if tq_last_ticks q > 0 then max 0 (tq_last_ticks q - n) else tq_last_ticks q)\<rparr>"
  have "0 \<le> sum_list (deltas st xs)" using nn by (auto simp: list_all_iff intro!: sum_list_nonneg)
  then have "trep (st', ?q) xs"
    using rep seg' dl sum_dec [OF nn n] n by (auto simp: trep_def max_def)
  moreover have "GKI_update_timer_list n (st, q) = Some (of_nat c', st', ?q)"
    using sk(1) dc(1) by (simp add: GKI_update_timer_list_def)
  moreover have "tabs st' xs = map (\<lambda>(x, r). (x, max 0 (r - n))) (tabs st xs)"
    using accum_dec [OF nn n] dl by (simp add: tabs_def zip_map2)
  ultimately show ?thesis using dc(4) sk(2) by auto
qed

text \<open>C34. \<^verbatim>\<open>GKI_update_timer_list\<close> with \<open>n\<close> elapsed units always returns, keeps the list well linked and in the
  same order, and takes \<open>n\<close> off the remaining ticks of every timer, not below zero.\<close>

theorem GKI_update_timer_list_ok:
  assumes "trep (st, q) xs" and "0 \<le> n"
  shows "\<exists>c st' q'. GKI_update_timer_list n (st, q) = Some (c, st', q') \<and> trep (st', q') xs \<and>
    tabs st' xs = map (\<lambda>(x, r). (x, max 0 (r - n))) (tabs st xs) \<and> (\<forall>a. a \<notin> set xs \<longrightarrow> st' a = st a)"
  using assms by (rule update_rep)

section \<open>Addition\<close>

lemma last_notin_butlast: "distinct xs \<Longrightarrow> xs \<noteq> [] \<Longrightarrow> last xs \<notin> set (butlast xs)"
  by (cases xs rule: rev_cases) auto

lemma tseg_cong: "(\<And>x. x \<in> set xs \<Longrightarrow> st' x = st x) \<Longrightarrow> tseg st' p xs n = tseg st p xs n"
  by (induction xs arbitrary: p) auto

lemma deltas_cong: "(\<And>x. x \<in> set xs \<Longrightarrow> st' x = st x) \<Longrightarrow> deltas st' xs = deltas st xs"
  by (simp add: tk_def)

text \<open>A segment whose last entry gets a new successor.\<close>

lemma tseg_relink:
  assumes "tseg st p xs n" "distinct xs" "xs \<noteq> [] \<Longrightarrow> st' (last xs) = map_option (te_next_update (\<lambda>_. n')) (st (last xs))"
    "\<And>x. x \<in> set (butlast xs) \<Longrightarrow> st' x = st x"
  shows "tseg st' p xs n'"
proof (cases xs rule: rev_cases)
  case (snoc ys y)
  have "tseg st' p ys y = tseg st p ys y" using assms(4) snoc by (intro tseg_cong) simp
  then show ?thesis using assms snoc by (auto simp: tseg_append)
qed simp

lemma deltas_relink:
  assumes "distinct xs" "xs \<noteq> [] \<Longrightarrow> st' (last xs) = map_option (te_next_update (\<lambda>_. n')) (st (last xs))"
    "\<And>x. x \<in> set (butlast xs) \<Longrightarrow> st' x = st x" "\<And>x. x \<in> set xs \<Longrightarrow> st x \<noteq> None"
  shows "deltas st' xs = deltas st xs"
proof (cases xs rule: rev_cases)
  case (snoc ys y)
  have "deltas st' ys = deltas st ys" using assms(3) snoc by (intro deltas_cong) simp
  moreover obtain e where "st y = Some e" using assms(4) [of y] snoc by auto
  ultimately show ?thesis using assms(2) snoc by (simp add: tk_def)
qed simp

lemma tl_find_spec:
  "tseg st p xs 0 \<Longrightarrow> t < sum_list (deltas st xs) \<Longrightarrow> 0 \<le> t \<Longrightarrow>
   \<exists>as y bs. xs = as @ y # bs \<and> tl_find st t (hd xs) = Some (y, t - sum_list (deltas st as)) \<and>
     list_all (\<lambda>r. r < t) (accum 0 (deltas st as)) \<and> t - sum_list (deltas st as) \<le> tk st y \<and> sum_list (deltas st as) \<le> t"
proof (induction xs arbitrary: p t)
  case (Cons x xs)
  obtain e where e: "st x = Some e" "te_next e = (if xs = [] then 0 else hd xs)" "0 \<le> te_ticks e" and x: "tseg st x xs 0"
    using Cons.prems by auto
  have tk: "tk st x = te_ticks e" using e by (simp add: tk_def)
  show ?case
  proof (cases "t > te_ticks e")
    case False
    then have "tl_find st t x = Some (x, t)" using e by (subst tl_find.simps) simp
    then show ?thesis using False tk Cons.prems(3) by (rule_tac exI [of _ "[]"]) simp
  next
    case True
    have ne: "xs \<noteq> []" using Cons.prems(2) True tk by auto
    obtain as y bs where IH: "xs = as @ y # bs" "tl_find st (t - te_ticks e) (hd xs) = Some (y, t - te_ticks e - sum_list (deltas st as))"
      "list_all (\<lambda>r. r < t - te_ticks e) (accum 0 (deltas st as))" "t - te_ticks e - sum_list (deltas st as) \<le> tk st y"
      "sum_list (deltas st as) \<le> t - te_ticks e"
      using Cons.IH [OF x, of "t - te_ticks e"] Cons.prems(2) True tk by auto
    have "tl_find st t x = Some (y, t - (te_ticks e + sum_list (deltas st as)))"
      using IH(2) True e ne by (subst tl_find.simps) (auto simp: algebra_simps)
    moreover have "list_all (\<lambda>r. r < t) (accum 0 (deltas st (x # as)))"
      using IH(3) True tk accum_shift [of 0 "te_ticks e" "deltas st as"] by (auto simp: list_all_iff)
    moreover have "x # xs = (x # as) @ y # bs" using IH(1) by simp
    ultimately show ?thesis using IH(4,5) tk
      by (rule_tac exI [of _ "x # as"], rule_tac exI [of _ y], rule_tac exI [of _ bs]) (simp add: algebra_simps)
  qed
qed simp

text \<open>The specification of an addition: behind the timers that are due no later when there is none due
  later, otherwise before the first that is not due earlier.\<close>

definition tins :: "nat \<Rightarrow> int \<Rightarrow> (nat \<times> int) list \<Rightarrow> (nat \<times> int) list" where
  "tins p t v = (if list_all (\<lambda>(x, r). r \<le> t) v then v @ [(p, t)]
     else takeWhile (\<lambda>(x, r). r < t) v @ (p, t) # dropWhile (\<lambda>(x, r). r < t) v)"

lemma zip_all_snd: "length xs = length rs \<Longrightarrow> list_all (\<lambda>(x, r). P r) (zip xs rs) = list_all P rs"
  by (induction xs rs rule: list_induct2) auto

lemma accum_all_le:
  assumes "list_all (\<lambda>d. 0 \<le> d) ds" "0 \<le> t"
  shows "list_all (\<lambda>r. r \<le> t) (accum 0 ds) \<longleftrightarrow> sum_list ds \<le> t"
proof (cases ds rule: rev_cases)
  case (snoc ys y)
  then show ?thesis using accum_le [OF assms(1), of _ 0] by (fastforce simp: accum_append list_all_iff)
qed (use assms in simp)

lemma tins_tabs:
  assumes "tseg st p0 xs 0" "0 \<le> t"
  shows "sum_list (deltas st xs) \<le> t \<Longrightarrow> tins p t (tabs st xs) = tabs st xs @ [(p, t)]"
    "xs = as @ y # bs \<Longrightarrow> t < sum_list (deltas st xs) \<Longrightarrow> list_all (\<lambda>r. r < t) (accum 0 (deltas st as)) \<Longrightarrow>
      t - sum_list (deltas st as) \<le> tk st y \<Longrightarrow>
      tins p t (tabs st xs) = tabs st as @ (p, t) # zip (y # bs) (accum (sum_list (deltas st as)) (deltas st (y # bs)))"
proof -
  have all: "list_all (\<lambda>(x, r). r \<le> t) (tabs st xs) \<longleftrightarrow> sum_list (deltas st xs) \<le> t"
    using accum_all_le [OF tseg_nonneg [OF assms(1)] assms(2)] by (simp add: tabs_def zip_all_snd)
  show "sum_list (deltas st xs) \<le> t \<Longrightarrow> tins p t (tabs st xs) = tabs st xs @ [(p, t)]" using all by (simp add: tins_def)
  assume xs: "xs = as @ y # bs" "t < sum_list (deltas st xs)" and lt: "list_all (\<lambda>r. r < t) (accum 0 (deltas st as))"
    and y: "t - sum_list (deltas st as) \<le> tk st y"
  have v: "tabs st xs = tabs st as @ zip (y # bs) (accum (sum_list (deltas st as)) (deltas st (y # bs)))"
    using xs(1) by (simp add: tabs_def accum_append)
  have "list_all (\<lambda>(x, r). r < t) (tabs st as)" using lt by (simp add: tabs_def zip_all_snd)
  then have "takeWhile (\<lambda>(x, r). r < t) (tabs st xs) = tabs st as"
    "dropWhile (\<lambda>(x, r). r < t) (tabs st xs) = zip (y # bs) (accum (sum_list (deltas st as)) (deltas st (y # bs)))"
    using y unfolding v by (auto simp: takeWhile_append2 dropWhile_append2 list_all_iff)
  then show "tins p t (tabs st xs) = tabs st as @ (p, t) # zip (y # bs) (accum (sum_list (deltas st as)) (deltas st (y # bs)))"
    using all xs(2) by (simp add: tins_def)
qed

lemma tabs_append: "tabs st (xs @ ys) = tabs st xs @ zip ys (accum (sum_list (deltas st xs)) (deltas st ys))"
  by (simp add: tabs_def accum_append)

lemma tabs_cong: "deltas st' xs = deltas st xs \<Longrightarrow> tabs st' xs = tabs st xs"
  unfolding tabs_def by (rule arg_cong)

lemma trep_append_entry:
  assumes rep: "trep (st, q) xs" and p: "p \<noteq> 0" "p \<notin> set xs" and t: "sum_list (deltas st xs) \<le> t"
    and ep: "st' p = Some ep" "te_prev ep = (if xs = [] then 0 else last xs)" "te_next ep = 0" "te_in_use ep"
      "te_ticks ep = t - sum_list (deltas st xs)"
    and l: "xs \<noteq> [] \<Longrightarrow> st' (last xs) = map_option (te_next_update (\<lambda>_. p)) (st (last xs))"
    and fr: "\<And>x. x \<in> set (butlast xs) \<Longrightarrow> st' x = st x"
    and q': "tq_first q' = (if xs = [] then p else hd xs)" "tq_last q' = p" "tq_last_ticks q' = t"
  shows "trep (st', q') (xs @ [p]) \<and> tabs st' (xs @ [p]) = tabs st xs @ [(p, t)]"
proof -
  have seg: "tseg st 0 xs 0" "distinct xs" using rep by (simp_all add: trep_def)
  have dl: "deltas st' xs = deltas st xs"
    by (rule deltas_relink [where n' = p]) (use seg(2) l fr tseg_mem [OF seg(1)] in auto)
  have "tseg st' 0 xs p" by (rule tseg_relink [OF seg]) (use l fr in auto)
  then have "tseg st' 0 (xs @ [p]) 0" using ep p(1) t by (auto simp: tseg_append)
  moreover have tk: "tk st' p = t - sum_list (deltas st xs)" using ep by (simp add: tk_def)
  ultimately have "trep (st', q') (xs @ [p])" using seg(2) p(2) q' arg_cong [OF dl, of sum_list] by (auto simp: trep_def hd_append)
  moreover have "tabs st' (xs @ [p]) = tabs st xs @ [(p, t)]"
    using tk arg_cong [OF dl, of sum_list] tabs_cong [OF dl] by (simp add: tabs_append)
  ultimately show ?thesis ..
qed

lemma trep_insert_entry:
  assumes rep: "trep (st, q) (as @ y # bs)" and p: "p \<noteq> 0" "p \<notin> set (as @ y # bs)"
    and t: "sum_list (deltas st as) \<le> t" "t - sum_list (deltas st as) \<le> tk st y"
    and ep: "st' p = Some ep" "te_prev ep = (if as = [] then 0 else last as)" "te_next ep = y" "te_in_use ep"
      "te_ticks ep = t - sum_list (deltas st as)"
    and ey: "st y = Some ey" "st' y = Some (ey\<lparr>te_prev := p, te_ticks := te_ticks ey - (t - sum_list (deltas st as))\<rparr>)"
    and l: "as \<noteq> [] \<Longrightarrow> st' (last as) = map_option (te_next_update (\<lambda>_. p)) (st (last as))"
    and fr: "\<And>x. x \<in> set (butlast as) \<union> set bs \<Longrightarrow> st' x = st x"
    and q': "q' = q\<lparr>tq_first := (if as = [] then p else tq_first q)\<rparr>"
  shows "trep (st', q') (as @ p # y # bs) \<and>
    tabs st' (as @ p # y # bs) = tabs st as @ (p, t) # zip (y # bs) (accum (sum_list (deltas st as)) (deltas st (y # bs)))"
proof -
  have seg: "tseg st 0 as y" "tseg st (if as = [] then 0 else last as) (y # bs) 0" "distinct as" "distinct (as @ y # bs)"
    using rep by (auto simp: trep_def tseg_append)
  have tky: "tk st y = te_ticks ey" using ey by (simp add: tk_def)
  have fra: "\<And>x. x \<in> set (butlast as) \<Longrightarrow> st' x = st x" and frb: "\<And>x. x \<in> set bs \<Longrightarrow> st' x = st x" using fr by auto
  have dl: "deltas st' as = deltas st as"
    by (rule deltas_relink [where n' = p]) (use seg(3) l fra tseg_mem [OF seg(1)] in auto)
  have dlb: "deltas st' bs = deltas st bs" by (rule deltas_cong) (rule frb)
  have "tseg st' 0 as p" by (rule tseg_relink [OF seg(1,3)]) (use l fra in auto)
  moreover have "tseg st' y bs 0" using seg(2) tseg_cong [of bs st' st y 0] frb by auto
  ultimately have "tseg st' 0 (as @ p # y # bs) 0" using seg(2) ep ey p t tky by (auto simp: tseg_append)
  moreover have tk: "tk st' p = t - sum_list (deltas st as)" "tk st' y = tk st y - (t - sum_list (deltas st as))"
    using ep ey by (simp_all add: tk_def)
  ultimately have "trep (st', q') (as @ p # y # bs)"
    using seg(4) p(2) q' rep arg_cong [OF dl, of sum_list] arg_cong [OF dlb, of sum_list] by (auto simp: trep_def)
  moreover have "tabs st' (as @ p # y # bs) = tabs st as @ (p, t) # zip (y # bs) (accum (sum_list (deltas st as)) (deltas st (y # bs)))"
    unfolding tabs_append list.map arg_cong [OF dl, of sum_list] tabs_cong [OF dl] tk dlb by (simp add: add.commute)
  ultimately show ?thesis ..
qed

lemma add_rep:
  assumes rep: "trep (st, q) xs" and a: "p \<noteq> 0" "qa \<noteq> 0" "p \<notin> set xs"
    and e: "st p = Some e" "te_prev e = 0" "te_ticks e = t" "0 \<le> t"
  shows "\<exists>st' q' xs'. GKI_add_to_timer_list qa p (tqs, st, q) = Some (tl_register qa tqs, st', q') \<and>
    trep (st', q') xs' \<and> tabs st' xs' = tins p t (tabs st xs) \<and> (\<forall>x. x \<notin> set xs \<union> {p} \<longrightarrow> st' x = st x)"
proof -
  have seg: "tseg st 0 xs 0" "distinct xs" and q: "tq_first q = (if xs = [] then 0 else hd xs)" "tq_last q = (if xs = [] then 0 else last xs)"
    "tq_last_ticks q = sum_list (deltas st xs)" using rep by (simp_all add: trep_def)
  show ?thesis
  proof (cases "t \<ge> tq_last_ticks q")
    case True
    define q' where "q' = q\<lparr>tq_first := (if tq_first q = 0 then p else tq_first q), tq_last := p, tq_last_ticks := t\<rparr>"
    define ep where "ep = e\<lparr>te_prev := (if xs = [] then 0 else last xs), te_next := 0, te_ticks := t - tq_last_ticks q, te_in_use := True\<rparr>"
    define st' where "st' = (if xs = [] then st else st(last xs := map_option (te_next_update (\<lambda>_. p)) (st (last xs))))(p \<mapsto> ep)"
    have hd0: "xs \<noteq> [] \<Longrightarrow> hd xs \<noteq> 0 \<and> last xs \<noteq> 0 \<and> p \<noteq> last xs \<and> (\<exists>el. st (last xs) = Some el)"
      using tseg_mem [OF seg(1), of "hd xs"] tseg_mem [OF seg(1), of "last xs"] a(3) by auto
    have run: "GKI_add_to_timer_list qa p (tqs, st, q) = Some (tl_register qa tqs, st', q')"
      using True a e q hd0 by (cases "xs = []") (auto simp: GKI_add_to_timer_list_def tupd_def st'_def ep_def q'_def)
    have "trep (st', q') (xs @ [p]) \<and> tabs st' (xs @ [p]) = tabs st xs @ [(p, t)]"
      using True a q hd0 in_set_butlastD [of _ xs] last_notin_butlast [OF seg(2)]
      by (intro trep_append_entry [OF rep, where ep = ep]; cases "xs = []") (auto simp: st'_def ep_def q'_def)
    then show ?thesis using run tins_tabs(1) [OF seg(1) e(4)] True q(3) by (fastforce simp: st'_def)
  next
    case False
    obtain as y bs where fd: "xs = as @ y # bs" "tl_find st t (hd xs) = Some (y, t - sum_list (deltas st as))"
      "list_all (\<lambda>r. r < t) (accum 0 (deltas st as))" "t - sum_list (deltas st as) \<le> tk st y" "sum_list (deltas st as) \<le> t"
      using tl_find_spec [OF seg(1), of t] False q(3) e(4) by auto
    define d where "d = t - sum_list (deltas st as)"
    have "tseg st (if as = [] then 0 else last as) (y # bs) 0" using seg(1) fd(1) by (simp add: tseg_append)
    then obtain ey where ey: "st y = Some ey" "te_prev ey = (if as = [] then 0 else last as)" "y \<noteq> 0" by auto
    define ep where "ep = e\<lparr>te_ticks := d, te_prev := (if as = [] then 0 else last as), te_next := y, te_in_use := True\<rparr>"
    define st' where "st' = (if as = [] then st else st(last as := map_option (te_next_update (\<lambda>_. p)) (st (last as))))
      (y \<mapsto> ey\<lparr>te_prev := p, te_ticks := te_ticks ey - d\<rparr>, p \<mapsto> ep)"
    define q' where "q' = q\<lparr>tq_first := (if as = [] then p else tq_first q)\<rparr>"
    have la: "as \<noteq> [] \<Longrightarrow> hd xs = hd as \<and> y \<noteq> hd as \<and> last as \<notin> set (y # bs) \<and> p \<noteq> last as \<and> last as \<noteq> 0 \<and> (\<exists>el. st (last as) = Some el)"
      using tseg_mem [OF seg(1), of "last as"] a(3) seg(2) fd(1) by (auto dest: hd_in_set last_in_set)
    have py: "p \<noteq> y" using a(3) fd(1) by auto
    have run: "GKI_add_to_timer_list qa p (tqs, st, q) = Some (tl_register qa tqs, st', q')"
      using False a e q fd(1,2) la ey py
      by (cases "as = []") (auto simp: GKI_add_to_timer_list_def tupd_def st'_def ep_def q'_def d_def fun_upd_twist)
    have "trep (st', q') (as @ p # y # bs) \<and>
      tabs st' (as @ p # y # bs) = tabs st as @ (p, t) # zip (y # bs) (accum (sum_list (deltas st as)) (deltas st (y # bs)))"
      using fd a(1,3) rep la ey py in_set_butlastD [of _ as] last_notin_butlast seg(2)
      by (intro trep_insert_entry [where ep = ep and ey = ey and q = q]; cases "as = []") (auto simp: st'_def ep_def q'_def d_def)
    then show ?thesis using run tins_tabs(2) [OF seg(1) e(4) fd(1) _ fd(3,4)] False q(3) fd(1) by (fastforce simp: st'_def)
  qed
qed


section \<open>Removal\<close>

lemma tabs_remove:
  assumes "distinct (as @ p # bs)" "deltas st' as = deltas st as"
    "deltas st' bs = (case deltas st bs of [] \<Rightarrow> [] | d # ds \<Rightarrow> (d + tk st p) # ds)"
  shows "tabs st' (as @ bs) = filter (\<lambda>(x, r). x \<noteq> p) (tabs st (as @ p # bs))"
proof -
  have keep: "filter (\<lambda>(x, r). x \<noteq> p) (zip xs rs) = zip xs rs" if "p \<notin> set xs" for xs and rs :: "int list"
    using that by (auto simp: filter_id_conv dest: set_zip_leftD)
  have "accum s (deltas st' bs) = accum (s + tk st p) (deltas st bs)" for s
    using assms(3) by (cases "deltas st bs") (auto simp: algebra_simps)
  then show ?thesis
    using assms(1) tabs_cong [OF assms(2)] arg_cong [OF assms(2), of sum_list] keep [of as] keep [of bs]
    unfolding tabs_append by (simp add: tabs_def)
qed

text \<open>The list without an entry, its ticks passed on to the entry behind it.\<close>

lemma trep_remove_entry:
  assumes rep: "trep (st, q) (as @ p # bs)"
    and l: "as \<noteq> [] \<Longrightarrow> st' (last as) = map_option (te_next_update (\<lambda>_. if bs = [] then 0 else hd bs)) (st (last as))"
    and n: "bs \<noteq> [] \<Longrightarrow> st' (hd bs) = map_option (\<lambda>n. n\<lparr>te_ticks := te_ticks n + tk st p, te_prev := (if as = [] then 0 else last as)\<rparr>) (st (hd bs))"
    and fr: "\<And>x. x \<in> set (butlast as) \<union> set (List.tl bs) \<Longrightarrow> st' x = st x"
    and q': "tq_first q' = (if as @ bs = [] then 0 else hd (as @ bs))" "tq_last q' = (if as @ bs = [] then 0 else last (as @ bs))"
      "tq_last_ticks q' = tq_last_ticks q - (if bs = [] then tk st p else 0)"
  shows "trep (st', q') (as @ bs) \<and> tabs st' (as @ bs) = filter (\<lambda>(x, r). x \<noteq> p) (tabs st (as @ p # bs))"
proof -
  have seg: "tseg st 0 as p" "tseg st p bs 0" "distinct as" "distinct (as @ p # bs)" "0 \<le> tk st p"
    using rep by (auto simp: trep_def tseg_append tk_def)
  have dl: "deltas st' as = deltas st as"
    by (rule deltas_relink [where n' = "if bs = [] then 0 else hd bs"]) (use seg(3) l fr tseg_mem [OF seg(1)] in auto)
  have sega: "tseg st' 0 as (if bs = [] then 0 else hd bs)"
    by (rule tseg_relink [OF seg(1,3)]) (use l fr in auto)
  have b: "tseg st' (if as = [] then 0 else last as) bs 0 \<and>
    deltas st' bs = (case deltas st bs of [] \<Rightarrow> [] | d # ds \<Rightarrow> (d + tk st p) # ds)"
  proof (cases bs)
    case (Cons y ys)
    have "tseg st' y ys 0 = tseg st y ys 0" by (rule tseg_cong) (use fr Cons in auto)
    moreover have "deltas st' ys = deltas st ys" by (rule deltas_cong) (use fr Cons in auto)
    ultimately show ?thesis using n seg(2,5) Cons by (auto simp: tk_def)
  qed simp
  have "sum_list (deltas st' bs) = sum_list (deltas st bs) + (if bs = [] then 0 else tk st p)"
    unfolding conjunct2 [OF b] by (cases bs) simp_all
  then have "trep (st', q') (as @ bs)" using rep seg(4) sega b q' arg_cong [OF dl, of sum_list]
    by (auto simp: trep_def tseg_append)
  then show ?thesis using tabs_remove [OF seg(4) dl conjunct2 [OF b]] by simp
qed

lemma remove_rep:
  assumes rep: "trep (st, q) xs" and p: "p \<in> set xs"
  shows "\<exists>st' q' e'. GKI_remove_from_timer_list qa p (tqs, st, q) = Some (if xs = [p] then tl_unregister qa tqs else tqs, st', q') \<and>
    trep (st', q') (remove1 p xs) \<and> tabs st' (remove1 p xs) = filter (\<lambda>(x, r). x \<noteq> p) (tabs st xs) \<and>
    st' p = Some e' \<and> \<not> te_in_use e' \<and> te_prev e' = 0 \<and> te_next e' = 0 \<and> te_ticks e' = GKI_UNUSED_LIST_ENTRY \<and>
    (\<forall>x. x \<notin> set xs \<longrightarrow> st' x = st x)"
proof -
  obtain as bs where xs: "xs = as @ p # bs" using p by (meson split_list)
  have seg: "tseg st 0 as p" "tseg st p bs 0" "distinct (as @ p # bs)"
    and q: "tq_first q = hd (as @ [p])" "tq_last q = last (p # bs)" "tq_last_ticks q = sum_list (deltas st xs)"
    using rep xs by (auto simp: trep_def tseg_append hd_append)
  obtain e where e: "st p = Some e" "te_prev e = (if as = [] then 0 else last as)" "te_next e = (if bs = [] then 0 else hd bs)"
    "te_in_use e" "p \<noteq> 0" using rep xs by (auto simp: trep_def tseg_append)
  have rm: "remove1 p xs = as @ bs" using seg(3) xs by (simp add: remove1_append)
  have tkp: "tk st p = te_ticks e" using e by (simp add: tk_def)
  have la: "as \<noteq> [] \<Longrightarrow> \<exists>el. st (last as) = Some el \<and> te_next el = p \<and> last as \<noteq> 0 \<and> last as \<notin> set (p # bs)"
    using seg by (cases as rule: rev_cases) (auto simp: tseg_append hd_append split: if_splits)
  have ha: "as \<noteq> [] \<Longrightarrow> hd as \<noteq> p \<and> hd as \<noteq> 0" using tseg_mem [OF seg(1)] seg(3) by (cases as) auto
  have nb: "bs \<noteq> [] \<Longrightarrow> \<exists>en. st (hd bs) = Some en \<and> te_prev en = p \<and> hd bs \<noteq> 0 \<and> hd bs \<notin> set (p # as) \<and> last bs \<noteq> p"
    using seg last_in_set [of bs] by (cases bs) auto
  define q' where "q' = q\<lparr>tq_first := (if as @ bs = [] then 0 else hd (as @ bs)), tq_last := (if as @ bs = [] then 0 else last (as @ bs)),
    tq_last_ticks := tq_last_ticks q - (if bs = [] then tk st p else 0)\<rparr>"
  define st1 where "st1 = (if bs = [] then st else st(hd bs := map_option (\<lambda>n. n\<lparr>te_ticks := te_ticks n + tk st p, te_prev := (if as = [] then 0 else last as)\<rparr>) (st (hd bs))))"
  define st2 where "st2 = (if as = [] then st1 else st1(last as := map_option (te_next_update (\<lambda>_. if bs = [] then 0 else hd bs)) (st (last as))))"
  define st' where "st' = st2(p \<mapsto> e\<lparr>te_next := 0, te_prev := 0, te_ticks := GKI_UNUSED_LIST_ENTRY, te_in_use := False\<rparr>)"
  have one: "xs = [p] \<longleftrightarrow> as = [] \<and> bs = []" "as = [] \<Longrightarrow> bs = [] \<Longrightarrow> tq_last_ticks q = te_ticks e"
    using xs q(3) tkp by (auto simp: append_eq_Cons_conv)
  note defs = st'_def st2_def st1_def q'_def
  have run: "GKI_remove_from_timer_list qa p (tqs, st, q) = Some (if xs = [p] then tl_unregister qa tqs else tqs, st', q')"
    using e q(1,2) la nb ha one tkp
    by (cases "as = []"; cases "bs = []") (auto simp: GKI_remove_from_timer_list_def tl_unlink_def tupd_def defs fun_upd_twist)
  have "trep (st', q') (as @ bs) \<and> tabs st' (as @ bs) = filter (\<lambda>(x, r). x \<noteq> p) (tabs st (as @ p # bs))"
    using rep xs la nb seg(3) in_set_butlastD [of _ as] last_notin_butlast list.set_sel(2) [of bs]
    by (intro trep_remove_entry [where q = q]; cases "as = []"; cases bs) (auto simp: defs)
  then show ?thesis using run rm xs by (auto simp: defs)
qed

text \<open>C33. \<^verbatim>\<open>GKI_remove_from_timer_list\<close> on an entry of the list always returns: the entry is taken out and reset, every
  other timer keeps its remaining ticks and its place, the links stay intact, and the list is
  unregistered exactly when it becomes empty.\<close>

theorem GKI_remove_from_timer_list_ok:
  assumes "trep (st, q) xs" and "p \<in> set xs"
  shows "\<exists>st' q' e'. GKI_remove_from_timer_list qa p (tqs, st, q) = Some (if xs = [p] then tl_unregister qa tqs else tqs, st', q') \<and>
    trep (st', q') (remove1 p xs) \<and> tabs st' (remove1 p xs) = filter (\<lambda>(x, r). x \<noteq> p) (tabs st xs) \<and>
    st' p = Some e' \<and> \<not> te_in_use e' \<and> te_prev e' = 0 \<and> te_next e' = 0 \<and> te_ticks e' = GKI_UNUSED_LIST_ENTRY \<and>
    (\<forall>x. x \<notin> set xs \<longrightarrow> st' x = st x)"
  using assms by (rule remove_rep)

section \<open>Query\<close>

lemma tl_sum_spec:
  "tseg st p0 (as @ p # bs) 0 \<Longrightarrow> p \<notin> set as \<Longrightarrow>
   tl_sum st p acc (hd (as @ [p])) = Some (acc + of_int (sum_list (deltas st as) + tk st p))"
proof (induction as arbitrary: p0 acc)
  case Nil
  then show ?case by (subst tl_sum.simps) (auto simp: tk_def)
next
  case (Cons x as)
  obtain e where e: "st x = Some e" "te_next e = hd (as @ [p])" "x \<noteq> 0" "tseg st x (as @ p # bs) 0" using Cons.prems by (auto simp: hd_append)
  then have "tl_sum st p acc x = tl_sum st p (acc + of_int (te_ticks e)) (hd (as @ [p]))"
    using Cons.prems(2) by (subst tl_sum.simps) simp
  then show ?case using Cons.IH [OF e(4)] Cons.prems(2) e(1) by (simp add: tk_def algebra_simps)
qed

text \<open>\<^verbatim>\<open>GKI_get_remaining_ticks\<close> returns, for every timer of the list, the ticks the client's view gives it
  (as an unsigned 32-bit value).\<close>

theorem GKI_get_remaining_ticks_ok:
  assumes rep: "trep (st, q) xs"
  shows "\<forall>(p, r) \<in> set (tabs st xs). GKI_get_remaining_ticks p (st, q) = Some (of_int r)"
proof -
  have seg: "tseg st 0 xs 0" "distinct xs" "tq_first q = (if xs = [] then 0 else hd xs)" using rep by (simp_all add: trep_def)
  have "GKI_get_remaining_ticks p (st, q) = Some (of_int r)" if v: "(p, r) \<in> set (tabs st xs)" for p r
  proof -
    have "p \<in> set xs" using v by (auto simp: tabs_def dest: set_zip_leftD)
    then obtain as bs where xs: "xs = as @ p # bs" by (meson split_list)
    have d: "p \<notin> set as" "p \<notin> set bs" using seg(2) xs by auto
    have "r = sum_list (deltas st as) + tk st p"
      using v d by (auto simp: xs tabs_def accum_append dest: set_zip_leftD)
    moreover obtain e where "st p = Some e" "te_in_use e" using seg(1) xs by (auto simp: tseg_append)
    moreover have "tq_first q = hd (as @ [p])" using seg(3) xs by (simp add: hd_append)
    ultimately show ?thesis using tl_sum_spec [of st 0 as p bs 0] seg(1) xs d by (simp add: GKI_get_remaining_ticks_def)
  qed
  then show ?thesis by auto
qed

section \<open>An example list\<close>

text \<open>Two running timers, due in 5 and in 8 ticks, and an initialised entry with 6 ticks.\<close>

definition ex_tst :: tstore where
  "ex_tst = [11 \<mapsto> \<lparr>te_next = 12, te_prev = 0, te_ticks = 5, te_in_use = True\<rparr>,
     12 \<mapsto> \<lparr>te_next = 0, te_prev = 11, te_ticks = 3, te_in_use = True\<rparr>,
     13 \<mapsto> \<lparr>te_next = 0, te_prev = 0, te_ticks = 6, te_in_use = False\<rparr>]"

definition ex_tq :: tlq where
  "ex_tq = \<lparr>tq_first = 11, tq_last = 12, tq_last_ticks = 8\<rparr>"

lemma ex_trep: "trep (ex_tst, ex_tq) [11, 12]"
  by (simp add: trep_def ex_tst_def ex_tq_def tk_def)

lemma ex_tabs: "tabs ex_tst [11, 12] = [(11, 5), (12, 8)]"
  by (simp add: tabs_def ex_tst_def tk_def)

theorem GKI_update_timer_list_ok_witness:
  "\<exists>c st' q'. GKI_update_timer_list 6 (ex_tst, ex_tq) = Some (c, st', q') \<and> trep (st', q') [11, 12] \<and> tabs st' [11, 12] = [(11, 0), (12, 2)]"
  using GKI_update_timer_list_ok [OF ex_trep, of 6] by (auto simp: ex_tabs)


theorem GKI_remove_from_timer_list_ok_witness:
  "\<exists>st' q'. GKI_remove_from_timer_list 9 11 ([9, 0], ex_tst, ex_tq) = Some ([9, 0], st', q') \<and> trep (st', q') [12] \<and> tabs st' [12] = [(12, 8)]"
  using GKI_remove_from_timer_list_ok [OF ex_trep, of 11 9 "[9, 0]"] by (auto simp: ex_tabs)

theorem GKI_get_remaining_ticks_ok_witness:
  "GKI_get_remaining_ticks 12 (ex_tst, ex_tq) = Some 8"
  using GKI_get_remaining_ticks_ok [OF ex_trep] by (simp add: ex_tabs)

text \<open>The return value of \<^verbatim>\<open>GKI_update_timer_list\<close>, documented as the number of timers that have expired, misses a
  timer that is due on the very tick another one is: with two timers due in 5 ticks, an update by 5 leaves both
  with no ticks left and returns 1.\<close>

theorem update_timer_list_undercounts:
  "\<exists>st q st' q'. trep (st, q) [1, 2] \<and> tabs st [1, 2] = [(1, 5), (2, 5)] \<and>
     GKI_update_timer_list 5 (st, q) = Some (1, st', q') \<and> tabs st' [1, 2] = [(1, 0), (2, 0)]"
proof -
  define st :: tstore where "st = [1 \<mapsto> \<lparr>te_next = 2, te_prev = 0, te_ticks = 5, te_in_use = True\<rparr>,
     2 \<mapsto> \<lparr>te_next = 0, te_prev = 1, te_ticks = 0, te_in_use = True\<rparr>]"
  define q where "q = \<lparr>tq_first = 1, tq_last = 2, tq_last_ticks = 5\<rparr>"
  define st' where "st' = st(1 \<mapsto> \<lparr>te_next = 2, te_prev = 0, te_ticks = 0, te_in_use = True\<rparr>)"
  have "trep (st, q) [1, 2]" "tabs st [1, 2] = [(1, 5), (2, 5)]" "tabs st' [1, 2] = [(1, 0), (2, 0)]"
    by (simp_all add: trep_def tabs_def tk_def st_def q_def st'_def)
  moreover have "tl_skip st 0 1 = Some (0, 1)" by (subst tl_skip.simps) (simp add: st_def)
  then have "GKI_update_timer_list 5 (st, q) = Some (1, st', q\<lparr>tq_last_ticks := 0\<rparr>)"
    by (simp add: GKI_update_timer_list_def q_def tl_dec.simps st_def st'_def)
  ultimately show ?thesis by blast
qed

end
