(* ===== verification/NfaPtim.thy ===== *)
theory NfaPtim
  imports GkiTimer GkiTimerListProofs
begin

text \<open>
  The protocol timers of \<^verbatim>\<open>nfa/sys/nfa_sys_ptim.cc\<close>, a client of both the task timers and the timer lists: one
  periodic task timer drives a list of timers in milliseconds, and an expired timer is reported by its
  callback or by a message with its event. \<^verbatim>\<open>GKI_getbuf\<close> never returns null for the size of a message
  header (it aborts), so every such message is sent; the events sent to the task's mailbox are logged in
  \<open>n_sent\<close>. The callback of a timer is the function its owner registered, a parameter of the
  definitions.
\<close>

section \<open>State and operations\<close>

record ptim =
  timer_queue :: tlq
  queue_addr :: nat
  period :: int
  last_gki_ticks :: u32
  timer_id :: u8

record nfa_tm =
  n_tm :: gki_tm
  n_tqs :: "nat list"
  n_st :: tstore
  n_cb :: ptim
  n_cback :: "nat \<Rightarrow> bool"
  n_event :: "nat \<Rightarrow> u16"
  n_sent :: "u16 list"

definition GKI_TICKS_TO_MS :: "int \<Rightarrow> int" where "GKI_TICKS_TO_MS x = x * (1000 div 100)"
definition GKI_MS_TO_TICKS :: "int \<Rightarrow> int" where "GKI_MS_TO_TICKS x = x div (1000 div 100)"

definition nfa_sys_ptim_init :: "u16 \<Rightarrow> u8 \<Rightarrow> ptim \<Rightarrow> ptim" where
  "nfa_sys_ptim_init per tmid cb = cb\<lparr>timer_queue := GKI_init_timer_list (timer_queue cb), period := uint per, timer_id := tmid\<rparr>"

definition ptim_elapsed :: "u32 \<Rightarrow> u32 \<Rightarrow> int" where
  "ptim_elapsed new_ticks_count lst = sint (if new_ticks_count \<ge> lst then new_ticks_count - lst else (0xffffffff - lst) + new_ticks_count + 1)"

definition ptim_remove :: "nat \<Rightarrow> nfa_tm \<Rightarrow> nfa_tm option" where
  "ptim_remove p s = do {
     (tqs, st, q) \<leftarrow> GKI_remove_from_timer_list (queue_addr (n_cb s)) p (n_tqs s, n_st s, timer_queue (n_cb s));
     Some (s\<lparr>n_tqs := tqs, n_st := st, n_cb := (n_cb s)\<lparr>timer_queue := q\<rparr>\<rparr>) }"

definition ptim_stop_if_empty :: "u8 \<Rightarrow> nfa_tm \<Rightarrow> nfa_tm" where
  "ptim_stop_if_empty tid s = (if GKI_timer_list_empty (timer_queue (n_cb s))
     then s\<lparr>n_tm := GKI_stop_timer tid (timer_id (n_cb s)) (n_tm s)\<rparr> else s)"

text \<open>The loop over the expired timers. A callback may start timers again, so it need not end.\<close>

partial_function (option) ptim_fire :: "(nat \<Rightarrow> nfa_tm \<Rightarrow> nfa_tm option) \<Rightarrow> nfa_tm \<Rightarrow> nfa_tm option" where
  "ptim_fire cback s =
     (if GKI_timer_list_empty (timer_queue (n_cb s)) then Some s
      else Option.bind (n_st s (GKI_timer_list_first (timer_queue (n_cb s)))) (\<lambda>e.
        if te_ticks e \<le> 0
        then Option.bind (ptim_remove (GKI_timer_list_first (timer_queue (n_cb s))) s) (\<lambda>s'.
          let p = GKI_timer_list_first (timer_queue (n_cb s)) in
          Option.bind (if n_cback s' p then cback p s'
             else Some (if n_event s' p \<noteq> 0 then s'\<lparr>n_sent := n_sent s' @ [n_event s' p]\<rparr> else s')) (ptim_fire cback))
        else Some s))"

declare ptim_fire.simps [code]

definition nfa_sys_ptim_timer_update :: "(nat \<Rightarrow> nfa_tm \<Rightarrow> nfa_tm option) \<Rightarrow> u8 \<Rightarrow> nfa_tm \<Rightarrow> nfa_tm option" where
  "nfa_sys_ptim_timer_update cback tid s = do {
     let new_ticks_count = GKI_get_tick_count (n_tm s);
     let period_in_ticks = ptim_elapsed new_ticks_count (last_gki_ticks (n_cb s));
     (c, st, q) \<leftarrow> GKI_update_timer_list (GKI_TICKS_TO_MS period_in_ticks) (n_st s, timer_queue (n_cb s));
     s \<leftarrow> ptim_fire cback (s\<lparr>n_st := st, n_cb := (n_cb s)\<lparr>timer_queue := q, last_gki_ticks := new_ticks_count\<rparr>\<rparr>);
     Some (ptim_stop_if_empty tid s) }"

definition nfa_sys_ptim_start_timer :: "u8 \<Rightarrow> nat \<Rightarrow> u16 \<Rightarrow> int \<Rightarrow> nfa_tm \<Rightarrow> nfa_tm option" where
  "nfa_sys_ptim_start_timer tid p typ timeout s = do {
     let s = (if GKI_timer_list_empty (timer_queue (n_cb s))
              then s\<lparr>n_cb := (n_cb s)\<lparr>last_gki_ticks := GKI_get_tick_count (n_tm s)\<rparr>,
                     n_tm := GKI_start_timer tid (timer_id (n_cb s)) (GKI_MS_TO_TICKS (period (n_cb s))) True (n_tm s)\<rparr>
              else s);
     s \<leftarrow> ptim_remove p s;
     st \<leftarrow> tupd (n_st s) p (\<lambda>e. e\<lparr>te_ticks := timeout\<rparr>);
     (tqs, st, q) \<leftarrow> GKI_add_to_timer_list (queue_addr (n_cb s)) p (n_tqs s, st, timer_queue (n_cb s));
     Some (s\<lparr>n_tqs := tqs, n_st := st, n_cb := (n_cb s)\<lparr>timer_queue := q\<rparr>, n_event := (n_event s)(p := typ)\<rparr>) }"

definition nfa_sys_ptim_stop_timer :: "u8 \<Rightarrow> nat \<Rightarrow> nfa_tm \<Rightarrow> nfa_tm option" where
  "nfa_sys_ptim_stop_timer tid p s = do { s \<leftarrow> ptim_remove p s; Some (ptim_stop_if_empty tid s) }"

section \<open>The client's view\<close>

text \<open>The list of running protocol timers with the milliseconds they have left.\<close>

definition ptim_rep :: "nfa_tm \<Rightarrow> nat list \<Rightarrow> bool" where
  "ptim_rep s xs \<longleftrightarrow> trep (n_st s, timer_queue (n_cb s)) xs"

definition ptim_view :: "nfa_tm \<Rightarrow> nat list \<Rightarrow> (nat \<times> int) list" where
  "ptim_view s xs = tabs (n_st s) xs"

lemma ptim_elapsed_eq: "ptim_elapsed n l = sint (n - l)"
proof -
  have "(0xffffffff :: u32) = - 1" by simp
  then have "(0xffffffff :: u32) - l + n + 1 = n - l" by (simp only:) simp
  then show ?thesis unfolding ptim_elapsed_def by (simp only: if_cancel)
qed

lemma sint_small: "unat (w :: u32) < 2 ^ 31 \<Longrightarrow> sint w = int (unat w)"
proof -
  assume "unat w < 2 ^ 31"
  then have "int (unat w) < int (2 ^ 31)" by (simp only: of_nat_less_iff)
  then have "uint w < 2 ^ 31" by simp
  moreover have "- (2 ^ 31) \<le> uint w" by (rule order_trans [OF _ uint_ge_0]) simp
  ultimately have "signed_take_bit 31 (uint w) = uint w" by (intro signed_take_bit_int_eq_self) simp_all
  then show ?thesis by (simp add: sint_uint)
qed

lemma trep_first: "trep (st, q) xs \<Longrightarrow> tq_first q = (if xs = [] then 0 else hd xs)"
  by (simp add: trep_def)

lemma trep_hd:
  assumes "trep (st, q) (x # xs)"
  obtains e where "st x = Some e" "te_ticks e = snd (hd (tabs st (x # xs)))" "x \<noteq> 0" "x \<notin> set xs"
  using assms by (auto simp: trep_def tabs_def tk_def)

lemma tabs_fst: "map fst (tabs st xs) = xs"
  by (simp add: tabs_def)

lemma tabs_Cons: "tabs st (x # xs) = (x, tk st x) # zip xs (accum (tk st x) (deltas st xs))"
  by (simp add: tabs_def)

lemma tabs_hd_le:
  assumes "tseg st p (x # xs) 0" "(y, r) \<in> set (tabs st (x # xs))"
  shows "tk st x \<le> r"
proof -
  have "list_all (\<lambda>d. 0 \<le> d) (deltas st xs)" using tseg_nonneg [OF assms(1)] by simp
  then show ?thesis using assms(2) accum_ge [of "deltas st xs" r "tk st x"] by (auto simp: tabs_Cons dest: set_zip_rightD)
qed

text \<open>The loop ends when no callback is involved: it removes the expired timers in order and reports
  their events.\<close>

lemma ptim_fire_spec:
  assumes "ptim_rep s xs" "\<forall>(x, r) \<in> set (ptim_view s xs). r \<le> 0 \<longrightarrow> \<not> n_cback s x"
  shows "\<exists>s' xs'. ptim_fire cback s = Some s' \<and> ptim_rep s' xs' \<and>
     ptim_view s' xs' = filter (\<lambda>(x, r). 0 < r) (ptim_view s xs) \<and>
     n_sent s' = n_sent s @ filter (\<lambda>e. e \<noteq> 0) (map (\<lambda>(x, r). n_event s x) (filter (\<lambda>(x, r). r \<le> 0) (ptim_view s xs))) \<and>
     n_tm s' = n_tm s \<and> last_gki_ticks (n_cb s') = last_gki_ticks (n_cb s) \<and> timer_id (n_cb s') = timer_id (n_cb s)"
  using assms
proof (induction xs arbitrary: s)
  case Nil
  then have "ptim_fire cback s = Some s" by (subst ptim_fire.simps) (simp add: ptim_rep_def trep_first GKI_timer_list_empty_def)
  then show ?case using Nil by (auto simp: ptim_view_def tabs_def)
next
  case (Cons x xs)
  note rep = Cons.prems(1) [unfolded ptim_rep_def]
  obtain e where e: "n_st s x = Some e" "te_ticks e = tk (n_st s) x" "x \<noteq> 0" "x \<notin> set xs"
    using trep_hd [OF rep] by (metis list.sel(1) snd_conv tabs_Cons)
  have first: "GKI_timer_list_first (timer_queue (n_cb s)) = x" "\<not> GKI_timer_list_empty (timer_queue (n_cb s))"
    using trep_first [OF rep] e(3) by (simp_all add: GKI_timer_list_first_def GKI_timer_list_empty_def)
  have seg: "tseg (n_st s) 0 (x # xs) 0" using rep by (simp add: trep_def)
  show ?case
  proof (cases "te_ticks e \<le> 0")
    case False
    then have "ptim_fire cback s = Some s" using first e(1) by (subst ptim_fire.simps) simp
    moreover have "filter (\<lambda>(x, r). 0 < r) (ptim_view s (x # xs)) = ptim_view s (x # xs)"
      "filter (\<lambda>(x, r). r \<le> 0) (ptim_view s (x # xs)) = []"
      using tabs_hd_le [OF seg] False e(2) by (fastforce simp: ptim_view_def filter_id_conv filter_empty_conv)+
    ultimately show ?thesis using Cons.prems(1) by (intro exI [of _ s] exI [of _ "x # xs"]) simp
  next
    case True
    obtain tqs st' q' where rm: "GKI_remove_from_timer_list (queue_addr (n_cb s)) x (n_tqs s, n_st s, timer_queue (n_cb s)) = Some (tqs, st', q')"
      "trep (st', q') xs" "tabs st' xs = filter (\<lambda>(y, r). y \<noteq> x) (tabs (n_st s) (x # xs))"
      using remove_rep [OF rep, of x "queue_addr (n_cb s)" "n_tqs s"] by auto
    define s1 where "s1 = s\<lparr>n_tqs := tqs, n_st := st', n_cb := (n_cb s)\<lparr>timer_queue := q'\<rparr>\<rparr>"
    define s2 where "s2 = (if n_event s x \<noteq> 0 then s1\<lparr>n_sent := n_sent s1 @ [n_event s x]\<rparr> else s1)"
    have cb: "\<not> n_cback s x" using Cons.prems(2) True e(2) by (auto simp: ptim_view_def tabs_Cons)
    have step: "ptim_fire cback s = ptim_fire cback s2"
      using first e(1) True rm(1) cb
      by (subst ptim_fire.simps) (simp add: ptim_remove_def s2_def s1_def)
    have tl: "tabs st' xs = zip xs (accum (tk (n_st s) x) (deltas (n_st s) xs))"
      using rm(3) e(4) by (auto simp: tabs_Cons filter_id_conv dest: set_zip_leftD)
    have s2: "n_st s2 = st'" "n_cb s2 = (n_cb s)\<lparr>timer_queue := q'\<rparr>" "n_cback s2 = n_cback s" "n_event s2 = n_event s" "n_tm s2 = n_tm s"
      "n_sent s2 = n_sent s @ filter (\<lambda>e. e \<noteq> 0) [n_event s x]"
      by (simp_all add: s2_def s1_def)
    have "ptim_rep s2 xs" using rm(2) s2 by (simp add: ptim_rep_def)
    moreover have v: "ptim_view s (x # xs) = (x, te_ticks e) # ptim_view s2 xs" using tl s2 e(2) by (simp add: ptim_view_def tabs_Cons)
    ultimately have "\<exists>s' xs'. ptim_fire cback s2 = Some s' \<and> ptim_rep s' xs' \<and>
       ptim_view s' xs' = filter (\<lambda>(x, r). 0 < r) (ptim_view s2 xs) \<and>
       n_sent s' = n_sent s2 @ filter (\<lambda>e. e \<noteq> 0) (map (\<lambda>(x, r). n_event s2 x) (filter (\<lambda>(x, r). r \<le> 0) (ptim_view s2 xs))) \<and>
       n_tm s' = n_tm s2 \<and> last_gki_ticks (n_cb s') = last_gki_ticks (n_cb s2) \<and> timer_id (n_cb s') = timer_id (n_cb s2)"
      using Cons.prems(2) s2(3) by (intro Cons.IH) auto
    then show ?thesis unfolding step using v True s2 by auto
  qed
qed

section \<open>Theorems\<close>

text \<open>C35. A protocol timer update, with \<open>n\<close> ticks since the last one (the tick counter may have wrapped around in
  between), always returns when the timers that are due have no callback: exactly the timers with at most
  \<open>10 n\<close> milliseconds left are removed and their events are sent in the order in which they were due, every
  other timer has \<open>10 n\<close> milliseconds less, and the task timer is stopped when no timer is left.\<close>

theorem nfa_sys_ptim_timer_update_ok:
  assumes "ptim_rep s xs" and "n = unat (OSTicks (n_tm s) - last_gki_ticks (n_cb s))" "10 * n < 2 ^ 31"
    and "\<forall>(x, r) \<in> set (ptim_view s xs). r \<le> 10 * int n \<longrightarrow> \<not> n_cback s x"
  shows "\<exists>s' xs'. nfa_sys_ptim_timer_update cback tid s = Some s' \<and> ptim_rep s' xs' \<and>
    ptim_view s' xs' = map (\<lambda>(x, r). (x, r - 10 * int n)) (filter (\<lambda>(x, r). 10 * int n < r) (ptim_view s xs)) \<and>
    n_sent s' = n_sent s @ filter (\<lambda>e. e \<noteq> 0) (map (\<lambda>(x, r). n_event s x) (filter (\<lambda>(x, r). r \<le> 10 * int n) (ptim_view s xs))) \<and>
    last_gki_ticks (n_cb s') = OSTicks (n_tm s) \<and>
    n_tm s' = (if xs' = [] then GKI_stop_timer tid (timer_id (n_cb s)) (n_tm s) else n_tm s)"
proof -
  let ?n = "10 * int n"
  have "ptim_elapsed (GKI_get_tick_count (n_tm s)) (last_gki_ticks (n_cb s)) = int n"
    using assms(2,3) sint_small [of "OSTicks (n_tm s) - last_gki_ticks (n_cb s)"] by (simp add: ptim_elapsed_eq GKI_get_tick_count_def)
  then have el: "GKI_TICKS_TO_MS (ptim_elapsed (GKI_get_tick_count (n_tm s)) (last_gki_ticks (n_cb s))) = ?n"
    by (simp add: GKI_TICKS_TO_MS_def)
  obtain c st' q' where up: "GKI_update_timer_list ?n (n_st s, timer_queue (n_cb s)) = Some (c, st', q')" "trep (st', q') xs"
    "tabs st' xs = map (\<lambda>(x, r). (x, max 0 (r - ?n))) (tabs (n_st s) xs)"
    using update_rep [OF assms(1) [unfolded ptim_rep_def], of ?n] by auto
  define s1 where "s1 = s\<lparr>n_st := st', n_cb := (n_cb s)\<lparr>timer_queue := q', last_gki_ticks := GKI_get_tick_count (n_tm s)\<rparr>\<rparr>"
  have v: "ptim_view s1 xs = map (\<lambda>(x, r). (x, max 0 (r - ?n))) (ptim_view s xs)" using up(3) by (simp add: ptim_view_def s1_def)
  have s1: "ptim_rep s1 xs" "\<forall>(x, r) \<in> set (ptim_view s1 xs). r \<le> 0 \<longrightarrow> \<not> n_cback s1 x"
    using up(2) assms(4) unfolding v by (auto simp: ptim_rep_def s1_def)
  have f: "filter (\<lambda>(x, r). 0 < r) (map (\<lambda>(x, r). (x, max 0 (r - ?n))) v) = map (\<lambda>(x, r). (x, r - ?n)) (filter (\<lambda>(x, r). ?n < r) v)"
    "map (\<lambda>(x, r). g x) (filter (\<lambda>(x, r). r \<le> 0) (map (\<lambda>(x, r). (x, max 0 (r - ?n))) v)) = map (\<lambda>(x, r). g x) (filter (\<lambda>(x, r). r \<le> ?n) v)"
    for v :: "(nat \<times> int) list" and g :: "nat \<Rightarrow> u16" by (induction v) auto
  obtain s2 xs' where s2: "ptim_fire cback s1 = Some s2" "ptim_rep s2 xs'"
     "ptim_view s2 xs' = map (\<lambda>(x, r). (x, r - ?n)) (filter (\<lambda>(x, r). ?n < r) (ptim_view s xs))"
     "n_sent s2 = n_sent s @ filter (\<lambda>e. e \<noteq> 0) (map (\<lambda>(x, r). n_event s x) (filter (\<lambda>(x, r). r \<le> ?n) (ptim_view s xs)))"
     "n_tm s2 = n_tm s" "last_gki_ticks (n_cb s2) = OSTicks (n_tm s)" "timer_id (n_cb s2) = timer_id (n_cb s)"
    using ptim_fire_spec [OF s1, of cback] unfolding v f by (auto simp: s1_def GKI_get_tick_count_def)
  have "GKI_timer_list_empty (timer_queue (n_cb s2)) \<longleftrightarrow> xs' = []"
    using s2(2) tseg_mem [of "n_st s2" 0 xs' 0 "hd xs'"] by (auto simp: ptim_rep_def trep_def GKI_timer_list_empty_def)
  moreover have "nfa_sys_ptim_timer_update cback tid s = Some (ptim_stop_if_empty tid s2)"
    using el up(1) s2(1) by (simp add: nfa_sys_ptim_timer_update_def s1_def)
  ultimately show ?thesis using s2
    by (rule_tac exI [of _ "ptim_stop_if_empty tid s2"], rule_tac exI [of _ xs']) (auto simp: ptim_stop_if_empty_def ptim_rep_def ptim_view_def)
qed

lemma ptim_remove_spec:
  assumes "ptim_rep s xs" "n_st s p = Some e" "p \<noteq> 0" "p \<notin> set xs \<Longrightarrow> \<not> te_in_use e \<and> te_prev e = 0"
  shows "\<exists>s' xs' e'. ptim_remove p s = Some s' \<and> ptim_rep s' xs' \<and> ptim_view s' xs' = filter (\<lambda>(x, r). x \<noteq> p) (ptim_view s xs) \<and>
    n_st s' p = Some e' \<and> te_prev e' = 0 \<and> p \<notin> set xs' \<and> n_tm s' = n_tm s \<and> n_event s' = n_event s \<and> n_sent s' = n_sent s \<and>
    n_cb s' = (n_cb s)\<lparr>timer_queue := timer_queue (n_cb s')\<rparr>"
proof (cases "p \<in> set xs")
  case True
  have "distinct xs" using assms(1) by (simp add: ptim_rep_def trep_def)
  then show ?thesis
    using remove_rep [OF assms(1) [unfolded ptim_rep_def] True, of "queue_addr (n_cb s)" "n_tqs s"]
    by (fastforce simp: ptim_remove_def ptim_rep_def ptim_view_def)
next
  case False
  then have "ptim_remove p s = Some s" using assms by (simp add: ptim_remove_def GKI_remove_from_timer_list_def)
  moreover have "filter (\<lambda>(x, r). x \<noteq> p) (ptim_view s xs) = ptim_view s xs"
    using False by (auto simp: ptim_view_def tabs_def filter_id_conv dest: set_zip_leftD)
  ultimately show ?thesis using assms False by (intro exI [of _ s] exI [of _ xs]) simp
qed

text \<open>Starting a protocol timer of \<open>timeout\<close> milliseconds, whether it is running or not, always returns: the timer
  then has exactly that many milliseconds left and the given event, at its place in the order, and every
  other timer keeps what it had left. When no timer was running, the task timer is started and the
  elapsed ticks are counted from now.\<close>

theorem nfa_sys_ptim_start_timer_ok:
  assumes "ptim_rep s xs" "n_st s p = Some e" "p \<noteq> 0" "queue_addr (n_cb s) \<noteq> 0" "0 \<le> timeout"
    and "p \<notin> set xs \<Longrightarrow> \<not> te_in_use e \<and> te_prev e = 0"
  shows "\<exists>s' xs'. nfa_sys_ptim_start_timer tid p typ timeout s = Some s' \<and> ptim_rep s' xs' \<and>
    ptim_view s' xs' = tins p timeout (filter (\<lambda>(x, r). x \<noteq> p) (ptim_view s xs)) \<and>
    n_event s' = (n_event s)(p := typ) \<and> n_sent s' = n_sent s \<and>
    (if xs = [] then n_tm s' = GKI_start_timer tid (timer_id (n_cb s)) (GKI_MS_TO_TICKS (period (n_cb s))) True (n_tm s) \<and>
       last_gki_ticks (n_cb s') = OSTicks (n_tm s)
     else n_tm s' = n_tm s \<and> last_gki_ticks (n_cb s') = last_gki_ticks (n_cb s))"
proof -
  define s0 where "s0 = (if xs = [] then s\<lparr>n_cb := (n_cb s)\<lparr>last_gki_ticks := GKI_get_tick_count (n_tm s)\<rparr>,
     n_tm := GKI_start_timer tid (timer_id (n_cb s)) (GKI_MS_TO_TICKS (period (n_cb s))) True (n_tm s)\<rparr> else s)"
  have em: "GKI_timer_list_empty (timer_queue (n_cb s)) \<longleftrightarrow> xs = []"
    using assms(1) tseg_mem [of "n_st s" 0 xs 0 "hd xs"] by (auto simp: ptim_rep_def trep_def GKI_timer_list_empty_def)
  have s0: "ptim_rep s0 xs" "n_st s0 p = Some e" "ptim_view s0 xs = ptim_view s xs" "queue_addr (n_cb s0) = queue_addr (n_cb s)"
    using assms by (auto simp: s0_def ptim_rep_def ptim_view_def)
  obtain s1 xs1 e1 where s1: "ptim_remove p s0 = Some s1" "ptim_rep s1 xs1" "ptim_view s1 xs1 = filter (\<lambda>(x, r). x \<noteq> p) (ptim_view s xs)"
    "n_st s1 p = Some e1" "te_prev e1 = 0" "p \<notin> set xs1" "n_tm s1 = n_tm s0" "n_event s1 = n_event s0" "n_sent s1 = n_sent s0"
    "n_cb s1 = (n_cb s0)\<lparr>timer_queue := timer_queue (n_cb s1)\<rparr>"
    using ptim_remove_spec [OF s0(1,2) assms(3,6)] s0(3) by auto
  define st where "st = (n_st s1)(p \<mapsto> e1\<lparr>te_ticks := timeout\<rparr>)"
  have dl: "deltas st xs1 = deltas (n_st s1) xs1" using s1(6) unfolding st_def by (rule tk_frame)
  then have rp: "trep (st, timer_queue (n_cb s1)) xs1" using s1(2,6) arg_cong [OF dl, of sum_list]
    by (simp add: ptim_rep_def trep_def st_def tseg_frame)
  have qa: "queue_addr (n_cb s1) \<noteq> 0" "last_gki_ticks (n_cb s1) = last_gki_ticks (n_cb s0)"
    using arg_cong [OF s1(10), of queue_addr] arg_cong [OF s1(10), of last_gki_ticks] s0(4) assms(4) by simp_all
  have "st p = Some (e1\<lparr>te_ticks := timeout\<rparr>)" by (simp add: st_def)
  from add_rep [OF rp assms(3) qa(1) s1(6) this, of timeout "n_tqs s1"]
  obtain st' q' xs' where ad: "GKI_add_to_timer_list (queue_addr (n_cb s1)) p (n_tqs s1, st, timer_queue (n_cb s1)) =
      Some (tl_register (queue_addr (n_cb s1)) (n_tqs s1), st', q')" "trep (st', q') xs'" "tabs st' xs' = tins p timeout (tabs st xs1)"
    using s1(5) assms(5) by auto
  have "tabs st xs1 = ptim_view s1 xs1" using tabs_cong [OF dl] by (simp add: ptim_view_def)
  then have "tabs st' xs' = tins p timeout (filter (\<lambda>(x, r). x \<noteq> p) (ptim_view s xs))" using ad(3) s1(3) by simp
  moreover have "nfa_sys_ptim_start_timer tid p typ timeout s = Some (s1\<lparr>n_tqs := tl_register (queue_addr (n_cb s1)) (n_tqs s1), n_st := st',
      n_cb := (n_cb s1)\<lparr>timer_queue := q'\<rparr>, n_event := (n_event s1)(p := typ)\<rparr>)"
    using s1(1,4) ad(1) em by (simp add: nfa_sys_ptim_start_timer_def s0_def [symmetric] tupd_def st_def [symmetric] Let_def)
  moreover define s2 where "s2 = s1\<lparr>n_tqs := tl_register (queue_addr (n_cb s1)) (n_tqs s1), n_st := st',
      n_cb := (n_cb s1)\<lparr>timer_queue := q'\<rparr>, n_event := (n_event s1)(p := typ)\<rparr>"
  ultimately show ?thesis using ad(2) s1(7-9) qa(2)
    by (rule_tac exI [of _ s2], rule_tac exI [of _ xs'], intro conjI) (auto simp: ptim_rep_def ptim_view_def s0_def s2_def GKI_get_tick_count_def)
qed

section \<open>An example\<close>

text \<open>The two timers of the example list, with events 7 and 9; the tick counter has just wrapped around, one tick
  after the last update.\<close>

definition ex_gki_tm :: gki_tm where
  "ex_gki_tm = \<lparr>OSTicks = 0, OSTicksTilExp = 0, OSNumOrigTicks = 0, OSTicksTilStop = 0, OSWaitTmr = (\<lambda>_. 0),
     OSTaskTmr = (\<lambda>_ _. 0), OSTaskTmrR = (\<lambda>_ _. 0), tmRdyTbl = (\<lambda>_. 0), tmWaitEvt = (\<lambda>_. 0), timer_nesting = False,
     p_tick_cb = False, system_tick_running = False, tick_log = []\<rparr>"

definition ex_nfa_tm :: nfa_tm where
  "ex_nfa_tm = \<lparr>n_tm = ex_gki_tm, n_tqs = [9, 0, 0], n_st = ex_tst,
     n_cb = \<lparr>timer_queue = ex_tq, queue_addr = 9, period = 10, last_gki_ticks = 0xFFFFFFFF, timer_id = 0\<rparr>,
     n_cback = (\<lambda>_. False), n_event = (\<lambda>p. if p = 11 then 7 else 9), n_sent = []\<rparr>"

lemma ex_ptim: "ptim_rep ex_nfa_tm [11, 12]" "ptim_view ex_nfa_tm [11, 12] = [(11, 5), (12, 8)]"
  using ex_trep ex_tabs by (simp_all add: ptim_rep_def ptim_view_def ex_nfa_tm_def)

theorem nfa_sys_ptim_timer_update_ok_witness:
  "\<exists>s'. nfa_sys_ptim_timer_update (\<lambda>p s. None) 1 ex_nfa_tm = Some s' \<and> n_sent s' = [7, 9]"
proof -
  have n: "1 = unat (OSTicks (n_tm ex_nfa_tm) - last_gki_ticks (n_cb ex_nfa_tm))" by (simp add: ex_nfa_tm_def ex_gki_tm_def)
  show ?thesis using nfa_sys_ptim_timer_update_ok [OF ex_ptim(1) n, of "\<lambda>p s. None" 1]
    by (auto simp: ex_ptim(2)) (auto simp: ex_nfa_tm_def)
qed

theorem nfa_sys_ptim_start_timer_ok_witness:
  "\<exists>s' xs'. nfa_sys_ptim_start_timer 1 11 3 20 ex_nfa_tm = Some s' \<and> ptim_view s' xs' = [(12, 8), (11, 20)]"
proof -
  have "n_st ex_nfa_tm 11 = Some \<lparr>te_next = 12, te_prev = 0, te_ticks = 5, te_in_use = True\<rparr>" by (simp add: ex_nfa_tm_def ex_tst_def)
  from nfa_sys_ptim_start_timer_ok [OF ex_ptim(1) this, of 20 1 3] show ?thesis
    by (auto simp: ex_ptim(2) tins_def) (auto simp: ex_nfa_tm_def)
qed

end
