(* ===== verification/CeT4t.thy ===== *)
theory CeT4t
  imports NfcPrelude
begin

unbundle bit_operations_syntax

text \<open>
  The Type 4 Tag emulation of \<^verbatim>\<open>nfc/tags/ce_t4t.cc\<close>: a reader's command APDUs, which may hold any bytes, select an
  application and a file and read or update the NDEF file. The state is the control block \<^verbatim>\<open>ce_cb.mem.t4t\<close>
  with the client's buffers; an access outside a buffer and a call of a null callback are \<open>None\<close>. Response
  frames, the events given to callbacks and the number of released command buffers are logged.
  \<^verbatim>\<open>GKI_getpoolbuf\<close> does not return null for this pool (it aborts), and \<^verbatim>\<open>NFC_SendData\<close> accepts a frame
  while the field \<open>ce_link\<close> says so.
\<close>

section \<open>State\<close>

abbreviation (input) "T4T_APP_SELECTED \<equiv> 0x01 :: u8"
abbreviation (input) "REG_AID_SELECTED \<equiv> 0x02 :: u8"
abbreviation (input) "CC_FILE_SELECTED \<equiv> 0x04 :: u8"
abbreviation (input) "NDEF_SELECTED \<equiv> 0x08 :: u8"
abbreviation (input) "NDEF_FILE_READ_ONLY \<equiv> 0x10 :: u8"
abbreviation (input) "NDEF_FILE_UPDATING \<equiv> 0x20 :: u8"
abbreviation (input) "WILDCARD_AID_SELECTED \<equiv> 0x40 :: u8"
abbreviation (input) "CE_T4T_MAX_REG_AID \<equiv> 4 :: nat"
abbreviation (input) "CE_T4T_MAX_LE \<equiv> 646 :: nat"
abbreviation (input) "CE_T4T_MAX_LC \<equiv> 644 :: nat"
abbreviation (input) "T4T_RSP_CMD_CMPLTED \<equiv> 0x9000 :: u16"
abbreviation (input) "T4T_RSP_NOT_FOUND \<equiv> 0x6A82 :: u16"
abbreviation (input) "T4T_RSP_WRONG_PARAMS \<equiv> 0x6B00 :: u16"
abbreviation (input) "T4T_RSP_CLASS_NOT_SUPPORTED \<equiv> 0x6E00 :: u16"
abbreviation (input) "T4T_RSP_WRONG_LENGTH \<equiv> 0x6700 :: u16"
abbreviation (input) "T4T_RSP_INSTR_NOT_SUPPORTED \<equiv> 0x6D00 :: u16"
abbreviation (input) "T4T_RSP_CMD_NOT_ALLOWED \<equiv> 0x6986 :: u16"

datatype ce_event =
    CE_T4T_NDEF_UPDATE_START_EVT
  | CE_T4T_NDEF_UPDATE_CPLT_EVT u16 mem
  | CE_T4T_NDEF_UPDATE_ABORT_EVT
  | CE_T4T_RAW_FRAME_EVT u8 mem

record t4t_reg_aid =
  ra_aid_len :: u8
  ra_aid :: mem
  ra_cback :: bool

record ce_t4t =
  cc_file :: mem
  p_ndef_msg :: "mem option"
  nlen :: u16
  max_file_size :: u16
  p_scratch_buf :: "mem option"
  t4_status :: u8
  p_wildcard_aid_cback :: bool
  reg_aid :: "t4t_reg_aid list"
  selected_aid_idx :: nat
  t4_timer :: bool
  ce_p_cback :: bool
  ce_static_rf_cback :: bool
  ce_link :: bool
  ce_sent :: "mem list"
  ce_events :: "ce_event list"
  ce_freed :: nat

datatype conn_evt = NFC_DEACTIVATE_CEVT | NFC_DATA_CEVT "mem option" | NFC_OTHER_CEVT

definition flag :: "u8 \<Rightarrow> ce_t4t \<Rightarrow> bool" where "flag f s \<longleftrightarrow> t4_status s AND f \<noteq> 0"
definition set_flag :: "u8 \<Rightarrow> ce_t4t \<Rightarrow> ce_t4t" where "set_flag f s = s\<lparr>t4_status := t4_status s OR f\<rparr>"
definition clr_flag :: "u8 \<Rightarrow> ce_t4t \<Rightarrow> ce_t4t" where "clr_flag f s = s\<lparr>t4_status := t4_status s AND NOT f\<rparr>"
definition GKI_freebuf_apdu :: "ce_t4t \<Rightarrow> ce_t4t" where "GKI_freebuf_apdu s = s\<lparr>ce_freed := Suc (ce_freed s)\<rparr>"
definition ce_notify :: "ce_event \<Rightarrow> ce_t4t \<Rightarrow> ce_t4t" where "ce_notify e s = s\<lparr>ce_events := ce_events s @ [e]\<rparr>"

section \<open>Responses\<close>

definition ce_t4t_send_to_lower :: "mem \<Rightarrow> ce_t4t \<Rightarrow> bool \<times> ce_t4t" where
  "ce_t4t_send_to_lower fr s = (if ce_link s then (True, s\<lparr>ce_sent := ce_sent s @ [fr]\<rparr>) else (False, s))"

definition ce_t4t_send_status :: "u16 \<Rightarrow> ce_t4t \<Rightarrow> bool \<times> ce_t4t" where
  "ce_t4t_send_status status s = ce_t4t_send_to_lower (be16_bytes status) s"

section \<open>Files\<close>

definition ce_t4t_select_file :: "u16 \<Rightarrow> ce_t4t \<Rightarrow> bool \<times> ce_t4t" where
  "ce_t4t_select_file file_id s =
     (if file_id = 0xE103 then (True, clr_flag NDEF_SELECTED (set_flag CC_FILE_SELECTED s))
      else if file_id = 0x1000 then (True, clr_flag CC_FILE_SELECTED (set_flag NDEF_SELECTED s))
      else (False, clr_flag NDEF_SELECTED (clr_flag CC_FILE_SELECTED s)))"

text \<open>The length field in front of the NDEF message that a read starts with, and what is left to read from the
  message.\<close>

definition t4t_read_nlen :: "u16 \<Rightarrow> nat \<Rightarrow> nat \<Rightarrow> mem \<times> nat \<times> nat" where
  "t4t_read_nlen nl offset len =
     (if offset = 0 then (if len = 1 then (take 1 (be16_bytes nl), 0, 0) else (be16_bytes nl, 0, len - 2))
      else if offset = 1 then ([ucast nl], 0, len - 1)
      else ([], offset - 2, len))"

definition ce_t4t_read_binary :: "u16 \<Rightarrow> u8 \<Rightarrow> ce_t4t \<Rightarrow> (bool \<times> ce_t4t) option" where
  "ce_t4t_read_binary offset len s =
     (let p_src = (if flag CC_FILE_SELECTED s then Some (cc_file s)
                   else if flag NDEF_SELECTED s
                   then (case p_scratch_buf s of Some b \<Rightarrow> Some b | None \<Rightarrow> p_ndef_msg s)
                   else None)
      in case p_src of
        None \<Rightarrow> Some (ce_t4t_send_status T4T_RSP_CMD_NOT_ALLOWED s)
      | Some b \<Rightarrow>
          let (pre, off, n) = (if flag NDEF_SELECTED s \<and> len > 0 then t4t_read_nlen (nlen s) (unat offset) (unat len)
                               else ([], unat offset, unat len))
          in do {
            bs \<leftarrow> (if n > 0 then rd_bytes b off n else Some []);
            Some (ce_t4t_send_to_lower (pre @ bs @ be16_bytes T4T_RSP_CMD_CMPLTED) s) })"

text \<open>The loop that writes into the length field.\<close>

fun t4t_write_nlen :: "mem \<Rightarrow> nat \<Rightarrow> nat \<Rightarrow> mem \<Rightarrow> nat \<Rightarrow> (mem \<times> nat \<times> nat \<times> nat) option" where
  "t4t_write_nlen file_length offset 0 apdu p = Some (file_length, offset, 0, p)"
| "t4t_write_nlen file_length offset (Suc n) apdu p =
     (if offset < 2
      then do { b \<leftarrow> rd8 apdu p; t4t_write_nlen (file_length[offset := b]) (Suc offset) n apdu (Suc p) }
      else Some (file_length, offset, Suc n, p))"

definition ce_t4t_update_done :: "nat \<Rightarrow> ce_t4t \<Rightarrow> ce_t4t" where
  "ce_t4t_update_done starting_offset s =
     (if starting_offset = 0 \<and> nlen s > 0
      then let s = s\<lparr>t4_timer := False\<rparr>;
               s = (if ce_p_cback s then ce_notify (CE_T4T_NDEF_UPDATE_CPLT_EVT (nlen s) (case p_scratch_buf s of Some b \<Rightarrow> b | None \<Rightarrow> [])) s else s)
           in clr_flag NDEF_FILE_UPDATING s
      else if \<not> flag NDEF_FILE_UPDATING s
      then let s = (set_flag NDEF_FILE_UPDATING s)\<lparr>t4_timer := True\<rparr>
           in if ce_p_cback s then ce_notify CE_T4T_NDEF_UPDATE_START_EVT s else s
      else s)"

definition ce_t4t_update_binary :: "u16 \<Rightarrow> u8 \<Rightarrow> mem \<Rightarrow> nat \<Rightarrow> ce_t4t \<Rightarrow> (bool \<times> ce_t4t) option" where
  "ce_t4t_update_binary offset len apdu p s = do {
     (fl, off, n, p) \<leftarrow> t4t_write_nlen (be16_bytes (nlen s)) (unat offset) (unat len) apdu p;
     let s = (if unat offset < 2 \<and> len > 0 then s\<lparr>nlen := be16_val (fl ! 0) (fl ! 1)\<rparr> else s);
     s \<leftarrow> (if n > 0
           then do { bs \<leftarrow> rd_bytes apdu p n;
                     b \<leftarrow> p_scratch_buf s;
                     b' \<leftarrow> wr_bytes b (off - 2) bs;
                     Some (s\<lparr>p_scratch_buf := Some b'\<rparr>) }
           else Some s);
     Some (ce_t4t_send_status T4T_RSP_CMD_CMPLTED (ce_t4t_update_done (unat offset) s)) }"

definition ce_t4t_set_version_in_cc :: "u8 \<Rightarrow> ce_t4t \<Rightarrow> ce_t4t option" where
  "ce_t4t_set_version_in_cc version s = do { cc \<leftarrow> wr8 (cc_file s) 2 version; Some (s\<lparr>cc_file := cc\<rparr>) }"

section \<open>Selection\<close>

definition ce_t4t_process_select_file_cmd :: "mem \<Rightarrow> nat \<Rightarrow> ce_t4t \<Rightarrow> (bool \<times> ce_t4t) option" where
  "ce_t4t_process_select_file_cmd apdu p s = do {
     data_len \<leftarrow> rd8 apdu (p + 1);
     (status_words, s) \<leftarrow>
       (if data_len = 2
        then do {
          a \<leftarrow> rd8 apdu (p + 2); b \<leftarrow> rd8 apdu (p + 3);
          let (ok, s) = ce_t4t_select_file (be16_val a b) s;
          Some (if ok then T4T_RSP_CMD_CMPLTED else T4T_RSP_NOT_FOUND, s) }
        else Some (T4T_RSP_WRONG_LENGTH, s));
     let (ok, s) = ce_t4t_send_status status_words s;
     Some (ok \<and> status_words = T4T_RSP_CMD_CMPLTED, s) }"

fun find_aid :: "t4t_reg_aid list \<Rightarrow> nat \<Rightarrow> mem \<Rightarrow> nat" where
  "find_aid [] i d = i"
| "find_aid (r # rs) i d =
     (if ra_aid_len r > 0 \<and> unat (ra_aid_len r) = length d \<and> take (length d) (ra_aid r) = d then i else find_aid rs (Suc i) d)"

definition t4t_deselect_all :: "ce_t4t \<Rightarrow> ce_t4t" where
  "t4t_deselect_all s = clr_flag WILDCARD_AID_SELECTED (clr_flag REG_AID_SELECTED
     (clr_flag T4T_APP_SELECTED (clr_flag NDEF_SELECTED (clr_flag CC_FILE_SELECTED s))))"

text \<open>A frame handed to a registered callback; a null callback cannot be called.\<close>

definition ce_t4t_forward :: "nat \<Rightarrow> mem \<Rightarrow> bool \<Rightarrow> ce_t4t \<Rightarrow> ce_t4t option" where
  "ce_t4t_forward h apdu cback s = (if cback then Some (ce_notify (CE_T4T_RAW_FRAME_EVT (of_nat h) apdu) s) else None)"

definition ce_t4t_process_select_app_cmd :: "mem \<Rightarrow> nat \<Rightarrow> ce_t4t \<Rightarrow> ce_t4t option" where
  "ce_t4t_process_select_app_cmd apdu p s = do {
     data_len \<leftarrow> rd8 apdu (p + 1);
     if unat data_len > length apdu - 5
     then Some (GKI_freebuf_apdu (snd (ce_t4t_send_status T4T_RSP_WRONG_LENGTH s)))
     else do {
       d \<leftarrow> rd_bytes apdu (p + 2) (unat data_len);
       let s = s\<lparr>selected_aid_idx := find_aid (reg_aid s) 0 d\<rparr>;
       if selected_aid_idx s < CE_T4T_MAX_REG_AID
       then ce_t4t_forward (selected_aid_idx s) apdu (ra_cback (reg_aid s ! selected_aid_idx s))
              (set_flag REG_AID_SELECTED (t4t_deselect_all s))
       else if data_len = 7 \<and> take 6 d = [0xD2, 0x76, 0x00, 0x00, 0x85, 0x01] \<and> p_ndef_msg s \<noteq> None
       then do {
         v \<leftarrow> rd8 apdu (p + 2 + 6);
         if v = 0 \<or> v = 1
         then do {
           s \<leftarrow> ce_t4t_set_version_in_cc (if v = 0 then 0x10 else 0x20) s;
           Some (GKI_freebuf_apdu (snd (ce_t4t_send_status T4T_RSP_CMD_CMPLTED (set_flag T4T_APP_SELECTED (t4t_deselect_all s))))) }
         else Some (GKI_freebuf_apdu (snd (ce_t4t_send_status T4T_RSP_NOT_FOUND s))) }
       else if p_wildcard_aid_cback s
       then ce_t4t_forward CE_T4T_MAX_REG_AID apdu (p_wildcard_aid_cback s) (set_flag WILDCARD_AID_SELECTED (t4t_deselect_all s))
       else Some (GKI_freebuf_apdu (snd (ce_t4t_send_status T4T_RSP_NOT_FOUND s))) } }"

section \<open>The data callback\<close>

definition t4t_read_cmd :: "mem \<Rightarrow> nat \<Rightarrow> ce_t4t \<Rightarrow> ce_t4t option" where
  "t4t_read_cmd apdu p s =
     (if flag CC_FILE_SELECTED s \<or> flag NDEF_SELECTED s
      then if length apdu < 5 then Some (snd (ce_t4t_send_status T4T_RSP_WRONG_LENGTH s))
      else do {
        a \<leftarrow> rd8 apdu p; b \<leftarrow> rd8 apdu (p + 1); l \<leftarrow> rd8 apdu (p + 2);
        let mx = (if flag CC_FILE_SELECTED s then 15 else unat (max_file_size s));
        let off = be16_val a b;
        let len = (if unat l \<le> CE_T4T_MAX_LE
                   then if unat l + unat off > mx then if unat off < mx then of_nat (mx - unat off) else 0 else l
                   else (0 :: u8));
        if len > 0 then map_option snd (ce_t4t_read_binary off len s)
        else Some (snd (ce_t4t_send_status T4T_RSP_WRONG_PARAMS s)) }
      else Some (snd (ce_t4t_send_status T4T_RSP_CMD_NOT_ALLOWED s)))"

definition t4t_update_cmd :: "mem \<Rightarrow> nat \<Rightarrow> ce_t4t \<Rightarrow> ce_t4t option" where
  "t4t_update_cmd apdu p s =
     (if flag NDEF_FILE_READ_ONLY s then Some (snd (ce_t4t_send_status T4T_RSP_CMD_NOT_ALLOWED s))
      else if flag NDEF_SELECTED s
      then if length apdu < 5 then Some (snd (ce_t4t_send_status T4T_RSP_WRONG_LENGTH s))
      else do {
        a \<leftarrow> rd8 apdu p; b \<leftarrow> rd8 apdu (p + 1); l \<leftarrow> rd8 apdu (p + 2);
        let off = be16_val a b;
        let len = (if unat l \<le> CE_T4T_MAX_LC \<and> unat l \<le> length apdu - 5
                   then if unat l + unat off > unat (max_file_size s) then 0 else l
                   else (0 :: u8));
        if len > 0 then map_option snd (ce_t4t_update_binary off len apdu (p + 3) s)
        else Some (snd (ce_t4t_send_status T4T_RSP_WRONG_PARAMS s)) }
      else Some (snd (ce_t4t_send_status T4T_RSP_CMD_NOT_ALLOWED s)))"

text \<open>The commands of the emulated application; \<open>p\<close> points behind the instruction byte, or behind P1 for a
  select command.\<close>

definition t4t_app_cmd :: "u8 \<Rightarrow> u8 \<Rightarrow> mem \<Rightarrow> nat \<Rightarrow> ce_t4t \<Rightarrow> ce_t4t option" where
  "t4t_app_cmd instruct select_type apdu p s =
     (if instruct = 0xA4
      then if select_type = 0
        then if length apdu < 7 then Some (snd (ce_t4t_send_status T4T_RSP_WRONG_LENGTH s))
             else map_option snd (ce_t4t_process_select_file_cmd apdu p s)
        else Some (snd (ce_t4t_send_status T4T_RSP_WRONG_PARAMS s))
      else if instruct = 0xB0 then t4t_read_cmd apdu p s
      else if instruct = 0xD6 then t4t_update_cmd apdu p s
      else Some (snd (ce_t4t_send_status T4T_RSP_INSTR_NOT_SUPPORTED s)))"

definition t4t_apdu :: "mem \<Rightarrow> ce_t4t \<Rightarrow> ce_t4t option" where
  "t4t_apdu apdu s = do {
     cla \<leftarrow> rd8 apdu 0;
     if cla \<noteq> 0 \<and> \<not> flag REG_AID_SELECTED s \<and> \<not> flag WILDCARD_AID_SELECTED s
     then Some (snd (ce_t4t_send_status T4T_RSP_CLASS_NOT_SUPPORTED (GKI_freebuf_apdu s)))
     else do {
       instruct \<leftarrow> (if length apdu \<ge> 4 then rd8 apdu 1 else Some 0);
       select_type \<leftarrow> (if length apdu \<ge> 4 \<and> cla = 0 \<and> instruct = 0xA4 then rd8 apdu 2 else Some 0);
       let p = (if length apdu \<ge> 4 then if cla = 0 \<and> instruct = 0xA4 then 3 else 2 else 1);
       if length apdu \<ge> 4 \<and> cla = 0 \<and> instruct = 0xA4 \<and> select_type = 4
       then (if length apdu \<ge> 5 then ce_t4t_process_select_app_cmd apdu p s
             else Some (GKI_freebuf_apdu (snd (ce_t4t_send_status T4T_RSP_NOT_FOUND s))))
       else if flag REG_AID_SELECTED s
       then (if selected_aid_idx s < CE_T4T_MAX_REG_AID
             then ce_t4t_forward (selected_aid_idx s) apdu (ra_cback (reg_aid s ! selected_aid_idx s)) s
             else Some (snd (ce_t4t_send_status T4T_RSP_NOT_FOUND (GKI_freebuf_apdu s))))
       else if flag WILDCARD_AID_SELECTED s then ce_t4t_forward CE_T4T_MAX_REG_AID apdu (p_wildcard_aid_cback s) s
       else if flag T4T_APP_SELECTED s then map_option GKI_freebuf_apdu (t4t_app_cmd instruct select_type apdu p s)
       else Some (GKI_freebuf_apdu (snd (ce_t4t_send_status T4T_RSP_CMD_NOT_ALLOWED s))) } }"

definition ce_t4t_data_cback :: "conn_evt \<Rightarrow> ce_t4t \<Rightarrow> ce_t4t option" where
  "ce_t4t_data_cback event s = (case event of
     NFC_DEACTIVATE_CEVT \<Rightarrow> Some (s\<lparr>ce_static_rf_cback := False\<rparr>)
   | NFC_OTHER_CEVT \<Rightarrow> Some s
   | NFC_DATA_CEVT None \<Rightarrow> Some s
   | NFC_DATA_CEVT (Some apdu) \<Rightarrow>
       if length apdu = 0 then Some (GKI_freebuf_apdu (snd (ce_t4t_send_status T4T_RSP_WRONG_LENGTH s)))
       else t4t_apdu apdu s)"

definition ce_t4t_process_timeout :: "u16 \<Rightarrow> ce_t4t \<Rightarrow> ce_t4t" where
  "ce_t4t_process_timeout event s =
     (if event = 109 \<and> flag NDEF_FILE_UPDATING s
      then clr_flag NDEF_FILE_UPDATING (if ce_p_cback s then ce_notify CE_T4T_NDEF_UPDATE_ABORT_EVT s else s)
      else s)"

section \<open>Configuration\<close>

definition ce_select_t4t :: "ce_t4t \<Rightarrow> u8 \<times> ce_t4t" where
  "ce_select_t4t s = (0, s\<lparr>t4_timer := False, t4_status := t4_status s AND NDEF_FILE_READ_ONLY, ce_static_rf_cback := True\<rparr>)"

definition t4t_init_cc :: "bool \<Rightarrow> u16 \<Rightarrow> mem" where
  "t4t_init_cc read_only ndef_msg_max = be16_bytes 0x000F @ [0x30] @ be16_bytes (of_nat CE_T4T_MAX_LE) @ be16_bytes (of_nat CE_T4T_MAX_LC) @
     [0x04, 0x06] @ be16_bytes 0x1000 @ be16_bytes (ndef_msg_max + 2) @ [0x00] @ [if read_only then 0xFF else 0x00]"

definition CE_T4tSetLocalNDEFMsg :: "bool \<Rightarrow> u16 \<Rightarrow> u16 \<Rightarrow> mem option \<Rightarrow> mem option \<Rightarrow> ce_t4t \<Rightarrow> (u8 \<times> ce_t4t) option" where
  "CE_T4tSetLocalNDEFMsg read_only ndef_msg_max ndef_msg_len msg scratch s = (case msg of
     None \<Rightarrow> Some (0, s\<lparr>p_ndef_msg := None\<rparr>)
   | Some m \<Rightarrow>
       if \<not> read_only \<and> scratch = None then Some (3, s)
       else do {
         cc \<leftarrow> wr_bytes (cc_file s) 0 (t4t_init_cc read_only ndef_msg_max);
         let s = (if read_only then set_flag NDEF_FILE_READ_ONLY else clr_flag NDEF_FILE_READ_ONLY) (s\<lparr>cc_file := cc\<rparr>);
         sc \<leftarrow> (case scratch of None \<Rightarrow> Some None
                | Some b \<Rightarrow> do { bs \<leftarrow> rd_bytes m 0 (unat ndef_msg_len); b' \<leftarrow> wr_bytes b 0 bs; Some (Some b') });
         Some (0, s\<lparr>p_ndef_msg := Some m, nlen := ndef_msg_len, max_file_size := ndef_msg_max + 2, p_scratch_buf := sc\<rparr>) })"

fun aid_registered :: "t4t_reg_aid list \<Rightarrow> mem \<Rightarrow> bool" where
  "aid_registered [] d = False"
| "aid_registered (r # rs) d = (unat (ra_aid_len r) = length d \<and> take (length d) (ra_aid r) = d \<or> aid_registered rs d)"

fun free_aid_slot :: "t4t_reg_aid list \<Rightarrow> nat \<Rightarrow> nat" where
  "free_aid_slot [] i = i"
| "free_aid_slot (r # rs) i = (if ra_aid_len r = 0 then i else free_aid_slot rs (Suc i))"

text \<open>\<open>aid\<close> holds the \<^verbatim>\<open>aid_len\<close> bytes at \<^verbatim>\<open>p_aid\<close>.\<close>

definition CE_T4tRegisterAID :: "mem \<Rightarrow> bool \<Rightarrow> ce_t4t \<Rightarrow> (u8 \<times> ce_t4t) option" where
  "CE_T4tRegisterAID aid cback s =
     (if aid = [] then (if p_wildcard_aid_cback s then Some (0xFF, s) else Some (of_nat CE_T4T_MAX_REG_AID, s\<lparr>p_wildcard_aid_cback := cback\<rparr>))
      else if length aid > 16 \<or> \<not> cback then Some (0xFF, s)
      else if aid_registered (reg_aid s) aid then Some (0xFF, s)
      else let xx = free_aid_slot (reg_aid s) 0 in
           if xx \<ge> CE_T4T_MAX_REG_AID then Some (0xFF, s)
           else do {
             a \<leftarrow> wr_bytes (ra_aid (reg_aid s ! xx)) 0 aid;
             Some (of_nat xx, s\<lparr>reg_aid := (reg_aid s)[xx := \<lparr>ra_aid_len = of_nat (length aid), ra_aid = a, ra_cback = True\<rparr>]\<rparr>) })"

definition CE_T4tDeregisterAID :: "nat \<Rightarrow> ce_t4t \<Rightarrow> ce_t4t" where
  "CE_T4tDeregisterAID h s =
     (if h = CE_T4T_MAX_REG_AID then s\<lparr>p_wildcard_aid_cback := False\<rparr>
      else if h \<ge> CE_T4T_MAX_REG_AID \<or> ra_aid_len (reg_aid s ! h) = 0 then s
      else s\<lparr>reg_aid := (reg_aid s)[h := (reg_aid s ! h)\<lparr>ra_aid_len := 0, ra_cback := False\<rparr>]\<rparr>)"

end
