(* ===== verification/CeT4tProofs.thy ===== *)
theory CeT4tProofs
  imports CeT4t
begin

unbundle bit_operations_syntax

text \<open>
  Correctness of the Type 4 Tag emulation: no command, whatever its bytes, makes it access memory outside
  its buffers; every command buffer is released or handed over exactly once; reading and updating act
  on the NDEF file as the reader sees it.
\<close>

section \<open>Flags and logs\<close>

lemma flag_set [simp]:
  "f AND g = 0 \<Longrightarrow> flag g (set_flag f s) = flag g s" "f AND g \<noteq> 0 \<Longrightarrow> flag g (set_flag f s)"
  by (auto simp: flag_def set_flag_def bit.conj_disj_distrib2 or_eq_0_iff)

lemma flag_clr [simp]:
  "NOT f AND g = g \<Longrightarrow> flag g (clr_flag f s) = flag g s" "NOT f AND g = 0 \<Longrightarrow> \<not> flag g (clr_flag f s)"
  by (simp_all add: flag_def clr_flag_def and.assoc)

lemma flag_upd [simp]:
  "flag f (s\<lparr>ce_sent := x\<rparr>) = flag f s" "flag f (s\<lparr>ce_events := y\<rparr>) = flag f s" "flag f (s\<lparr>ce_freed := z\<rparr>) = flag f s"
  "flag f (s\<lparr>t4_timer := b\<rparr>) = flag f s" "flag f (s\<lparr>nlen := n\<rparr>) = flag f s" "flag f (s\<lparr>p_scratch_buf := m\<rparr>) = flag f s"
  "flag f (s\<lparr>cc_file := c\<rparr>) = flag f s" "flag f (s\<lparr>selected_aid_idx := i\<rparr>) = flag f s" "flag f (s\<lparr>p_ndef_msg := m\<rparr>) = flag f s"
  "flag f (s\<lparr>max_file_size := n\<rparr>) = flag f s" "flag f (s\<lparr>reg_aid := ra\<rparr>) = flag f s" "flag f (s\<lparr>p_wildcard_aid_cback := b\<rparr>) = flag f s"
  "flag f (s\<lparr>ce_static_rf_cback := b\<rparr>) = flag f s"
  by (simp_all add: flag_def)

lemma flag_fields [simp]:
  "cc_file (set_flag f s) = cc_file s" "p_ndef_msg (set_flag f s) = p_ndef_msg s" "nlen (set_flag f s) = nlen s"
  "max_file_size (set_flag f s) = max_file_size s" "p_scratch_buf (set_flag f s) = p_scratch_buf s" "reg_aid (set_flag f s) = reg_aid s"
  "p_wildcard_aid_cback (set_flag f s) = p_wildcard_aid_cback s" "ce_link (set_flag f s) = ce_link s" "ce_p_cback (set_flag f s) = ce_p_cback s"
  "selected_aid_idx (set_flag f s) = selected_aid_idx s" "ce_sent (set_flag f s) = ce_sent s" "ce_events (set_flag f s) = ce_events s"
  "cc_file (clr_flag f s) = cc_file s" "p_ndef_msg (clr_flag f s) = p_ndef_msg s" "nlen (clr_flag f s) = nlen s"
  "max_file_size (clr_flag f s) = max_file_size s" "p_scratch_buf (clr_flag f s) = p_scratch_buf s" "reg_aid (clr_flag f s) = reg_aid s"
  "p_wildcard_aid_cback (clr_flag f s) = p_wildcard_aid_cback s" "ce_link (clr_flag f s) = ce_link s" "ce_p_cback (clr_flag f s) = ce_p_cback s"
  "selected_aid_idx (clr_flag f s) = selected_aid_idx s" "ce_sent (clr_flag f s) = ce_sent s" "ce_events (clr_flag f s) = ce_events s"
  by (simp_all add: set_flag_def clr_flag_def)

section \<open>The invariant\<close>

definition t4t_ok :: "ce_t4t \<Rightarrow> bool" where
  "t4t_ok s \<longleftrightarrow> length (cc_file s) = 15 \<and> length (reg_aid s) = CE_T4T_MAX_REG_AID \<and>
     (\<forall>r \<in> set (reg_aid s). length (ra_aid r) = 16 \<and> (ra_aid_len r > 0 \<longrightarrow> ra_cback r)) \<and>
     (\<forall>b. p_scratch_buf s = Some b \<longrightarrow> unat (max_file_size s) \<le> length b + 2) \<and>
     (p_scratch_buf s = None \<longrightarrow> (\<forall>b. p_ndef_msg s = Some b \<longrightarrow> unat (max_file_size s) \<le> length b + 2)) \<and>
     ((p_ndef_msg s \<noteq> None \<or> flag T4T_APP_SELECTED s) \<and> \<not> flag NDEF_FILE_READ_ONLY s \<longrightarrow> p_scratch_buf s \<noteq> None) \<and>
     (flag NDEF_SELECTED s \<longrightarrow> flag T4T_APP_SELECTED s) \<and> \<not> (flag CC_FILE_SELECTED s \<and> flag NDEF_SELECTED s) \<and>
     (flag REG_AID_SELECTED s \<and> selected_aid_idx s < CE_T4T_MAX_REG_AID \<longrightarrow> ra_cback (reg_aid s ! selected_aid_idx s)) \<and>
     (flag WILDCARD_AID_SELECTED s \<longrightarrow> p_wildcard_aid_cback s)"

lemma t4t_ok_log [simp]:
  "t4t_ok (s\<lparr>ce_sent := x\<rparr>) = t4t_ok s" "t4t_ok (s\<lparr>ce_events := y\<rparr>) = t4t_ok s" "t4t_ok (s\<lparr>ce_freed := z\<rparr>) = t4t_ok s"
  "t4t_ok (s\<lparr>t4_timer := b\<rparr>) = t4t_ok s" "t4t_ok (s\<lparr>nlen := n\<rparr>) = t4t_ok s" "t4t_ok (s\<lparr>ce_static_rf_cback := b\<rparr>) = t4t_ok s"
  by (simp_all add: t4t_ok_def)

text \<open>What the log of a step says: the response frames sent, the events, and the released buffers.\<close>

definition raw_frames :: "ce_t4t \<Rightarrow> nat" where
  "raw_frames s = length (filter (\<lambda>e. case e of CE_T4T_RAW_FRAME_EVT h a \<Rightarrow> True | _ \<Rightarrow> False) (ce_events s))"

definition owned :: "ce_t4t \<Rightarrow> nat" where "owned s = ce_freed s + raw_frames s"

lemma owned_simps [simp]:
  "owned (set_flag f s) = owned s" "owned (clr_flag f s) = owned s" "owned (GKI_freebuf_apdu s) = Suc (owned s)"
  "owned (snd (ce_t4t_send_status w s)) = owned s" "owned (snd (ce_t4t_send_to_lower fr s)) = owned s"
  "owned (ce_notify (CE_T4T_RAW_FRAME_EVT h a) s) = Suc (owned s)" "owned (ce_notify CE_T4T_NDEF_UPDATE_START_EVT s) = owned s"
  "owned (ce_notify (CE_T4T_NDEF_UPDATE_CPLT_EVT n m) s) = owned s" "owned (ce_notify CE_T4T_NDEF_UPDATE_ABORT_EVT s) = owned s"
  "owned (s\<lparr>t4_timer := b\<rparr>) = owned s" "owned (s\<lparr>nlen := n\<rparr>) = owned s" "owned (s\<lparr>p_scratch_buf := sc\<rparr>) = owned s"
  "owned (s\<lparr>cc_file := cc\<rparr>) = owned s" "owned (s\<lparr>selected_aid_idx := i\<rparr>) = owned s"
  by (simp_all add: owned_def raw_frames_def set_flag_def clr_flag_def GKI_freebuf_apdu_def ce_t4t_send_status_def ce_t4t_send_to_lower_def ce_notify_def)

lemma send_ok [simp]:
  "t4t_ok (snd (ce_t4t_send_status w s)) = t4t_ok s" "t4t_ok (snd (ce_t4t_send_to_lower fr s)) = t4t_ok s"
  "t4t_ok (GKI_freebuf_apdu s) = t4t_ok s" "t4t_ok (ce_notify e s) = t4t_ok s"
  by (simp_all add: ce_t4t_send_status_def ce_t4t_send_to_lower_def GKI_freebuf_apdu_def ce_notify_def)

lemma updating_ok [simp]:
  "t4t_ok (set_flag NDEF_FILE_UPDATING s) = t4t_ok s" "t4t_ok (clr_flag NDEF_FILE_UPDATING s) = t4t_ok s"
  by (simp_all add: t4t_ok_def)

text \<open>The file as the reader sees it: the length field and the storage behind it.\<close>

definition t4t_buf :: "ce_t4t \<Rightarrow> mem option" where
  "t4t_buf s = (case p_scratch_buf s of Some b \<Rightarrow> Some b | None \<Rightarrow> p_ndef_msg s)"

definition t4t_file :: "ce_t4t \<Rightarrow> mem" where
  "t4t_file s = be16_bytes (nlen s) @ take (unat (max_file_size s) - 2) (the (t4t_buf s))"

text \<open>What a step must keep of a read-only file.\<close>

definition ro_kept :: "ce_t4t \<Rightarrow> ce_t4t \<Rightarrow> bool" where
  "ro_kept s s' \<longleftrightarrow> (flag NDEF_FILE_READ_ONLY s \<longrightarrow> flag NDEF_FILE_READ_ONLY s' \<and> t4t_file s' = t4t_file s)"

lemma file_upd [simp]:
  "t4t_file (set_flag f s) = t4t_file s" "t4t_file (clr_flag f s) = t4t_file s" "t4t_file (s\<lparr>ce_sent := x\<rparr>) = t4t_file s"
  "t4t_file (s\<lparr>ce_events := y\<rparr>) = t4t_file s" "t4t_file (s\<lparr>ce_freed := z\<rparr>) = t4t_file s" "t4t_file (s\<lparr>t4_timer := b\<rparr>) = t4t_file s"
  "t4t_file (s\<lparr>cc_file := cc\<rparr>) = t4t_file s" "t4t_file (s\<lparr>selected_aid_idx := i\<rparr>) = t4t_file s" "t4t_file (s\<lparr>ce_static_rf_cback := b\<rparr>) = t4t_file s"
  by (simp_all add: t4t_file_def t4t_buf_def split: option.split)

lemma ro_kept_simps [simp]:
  "ro_kept s s" "ro_kept s (s'\<lparr>cc_file := cc\<rparr>) = ro_kept s s'" "ro_kept s (s'\<lparr>selected_aid_idx := i\<rparr>) = ro_kept s s'"
  "ro_kept s (s'\<lparr>ce_static_rf_cback := b\<rparr>) = ro_kept s s'"
  "ro_kept s (snd (ce_t4t_send_status w s')) = ro_kept s s'" "ro_kept s (snd (ce_t4t_send_to_lower fr s')) = ro_kept s s'"
  "ro_kept s (GKI_freebuf_apdu s') = ro_kept s s'" "ro_kept s (ce_notify e s') = ro_kept s s'"
  "f AND NDEF_FILE_READ_ONLY = 0 \<Longrightarrow> ro_kept s (set_flag f s') = ro_kept s s'"
  "NOT f AND NDEF_FILE_READ_ONLY = NDEF_FILE_READ_ONLY \<Longrightarrow> ro_kept s (clr_flag f s') = ro_kept s s'"
  by (simp_all add: ro_kept_def ce_t4t_send_status_def ce_t4t_send_to_lower_def GKI_freebuf_apdu_def ce_notify_def)

section \<open>Safety of the commands\<close>

lemma read_nlen_bounds:
  assumes "t4t_read_nlen nl off len = (pre, o', n)" "off + len \<le> mx" "0 < len"
  shows "length pre + n = len" "0 < n \<Longrightarrow> o' + n \<le> mx - 2"
  using assms by (auto simp: t4t_read_nlen_def split: if_splits)

lemma write_nlen_spec:
  "p + n \<le> length apdu \<Longrightarrow> length fl = 2 \<Longrightarrow>
   \<exists>fl' off' n' p'. t4t_write_nlen fl off n apdu p = Some (fl', off', n', p') \<and> length fl' = 2 \<and>
     off' + n' = off + n \<and> p' + n' = p + n \<and> (0 < n' \<longrightarrow> 2 \<le> off')"
proof (induction n arbitrary: fl off p)
  case (Suc n)
  show ?case
  proof (cases "off < 2")
    case True
    have "rd8 apdu p = Some (apdu ! p)" using Suc.prems by (intro rd8_in) simp
    then show ?thesis using Suc.IH [of "Suc p" "fl[off := apdu ! p]" "Suc off"] Suc.prems True by auto
  qed (use Suc.prems in simp)
qed simp

lemma read_binary_safe:
  assumes "t4t_ok s" "0 < len" "unat len + unat off \<le> (if flag CC_FILE_SELECTED s then 15 else unat (max_file_size s))"
  shows "\<exists>fr. ce_t4t_read_binary off len s = Some (ce_t4t_send_to_lower fr s)"
proof (cases "flag CC_FILE_SELECTED s")
  case True
  then have "rd_bytes (cc_file s) (unat off) (unat len) = Some (take (unat len) (drop (unat off) (cc_file s)))"
    using assms by (intro rd_bytes_in) (auto simp: t4t_ok_def)
  moreover have "\<not> flag NDEF_SELECTED s" using True assms(1) by (auto simp: t4t_ok_def)
  ultimately show ?thesis using True by (auto simp: ce_t4t_read_binary_def)
next
  case F: False
  show ?thesis
  proof (cases "flag NDEF_SELECTED s")
    case True
    define src where "src = (case p_scratch_buf s of Some b \<Rightarrow> Some b | None \<Rightarrow> p_ndef_msg s)"
    obtain pre o' n where rn: "t4t_read_nlen (nlen s) (unat off) (unat len) = (pre, o', n)" by (metis prod_cases3)
    have l: "0 < unat len" using assms(2) by (simp add: word_greater_zero_iff unat_gt_0)
    show ?thesis
    proof (cases src)
      case None
      then show ?thesis using F True by (auto simp: ce_t4t_read_binary_def src_def ce_t4t_send_status_def)
    next
      case (Some b)
      have "unat (max_file_size s) \<le> length b + 2" using Some assms(1) by (auto simp: src_def t4t_ok_def split: option.splits)
      then have "0 < n \<Longrightarrow> o' + n \<le> length b" using read_nlen_bounds(2) [OF rn _ l, of "unat (max_file_size s)"] assms(3) F by simp
      then have "\<exists>bs. (if n > 0 then rd_bytes b o' n else Some []) = Some bs" using rd_bytes_in [of o' n b] by auto
      then show ?thesis using F True rn Some assms(1,2) by (auto simp: ce_t4t_read_binary_def src_def)
    qed
  qed (use F in \<open>auto simp: ce_t4t_read_binary_def ce_t4t_send_status_def\<close>)
qed

lemma update_done_ok [simp]:
  "t4t_ok (ce_t4t_update_done o' s) = t4t_ok s" "owned (ce_t4t_update_done o' s) = owned s"
  unfolding ce_t4t_update_done_def Let_def by (simp_all split: if_splits)

lemma update_binary_safe:
  assumes "t4t_ok s" "unat len + unat off \<le> unat (max_file_size s)" "p + unat len \<le> length apdu"
    "flag NDEF_SELECTED s" "\<not> flag NDEF_FILE_READ_ONLY s"
  shows "\<exists>s'. ce_t4t_update_binary off len apdu p s = Some (ce_t4t_send_status T4T_RSP_CMD_CMPLTED s') \<and> t4t_ok s' \<and> owned s' = owned s"
proof -
  obtain fl o' n p' where wn: "t4t_write_nlen (be16_bytes (nlen s)) (unat off) (unat len) apdu p = Some (fl, o', n, p')"
    "o' + n = unat off + unat len" "p' + n = p + unat len" "0 < n \<longrightarrow> 2 \<le> o'"
    using write_nlen_spec [OF assms(3), of "be16_bytes (nlen s)" "unat off"] by auto
  obtain b where b: "p_scratch_buf s = Some b" "unat (max_file_size s) \<le> length b + 2"
    using assms(1,4,5) by (auto simp: t4t_ok_def)
  define s1 where "s1 = (if unat off < 2 \<and> len > 0 then s\<lparr>nlen := be16_val (fl ! 0) (fl ! 1)\<rparr> else s)"
  have s1: "t4t_ok s1" "p_scratch_buf s1 = Some b" "owned s1 = owned s" using assms(1) b by (simp_all add: s1_def)
  show ?thesis
  proof (cases "n = 0")
    case True
    then show ?thesis using wn(1) s1
      by (intro exI [of _ "ce_t4t_update_done (unat off) s1"]) (simp add: ce_t4t_update_binary_def s1_def [symmetric] Let_def)
  next
    case False
    have rd: "rd_bytes apdu p' n = Some (take n (drop p' apdu))" using wn assms(3) by (intro rd_bytes_in) simp
    have "length (take n (drop p' apdu)) = n" using wn(3) assms(3) by simp
    then have "o' - 2 + length (take n (drop p' apdu)) \<le> length b" using wn(2,4) b(2) assms(2) False by linarith
    then obtain b' where wr: "wr_bytes b (o' - 2) (take n (drop p' apdu)) = Some b'" using wr_bytes_ex by blast
    then have lb: "length b' = length b" by (rule wr_bytes_length)
    have "t4t_ok (s1\<lparr>p_scratch_buf := Some b'\<rparr>)" using s1 lb by (simp add: t4t_ok_def)
    then show ?thesis using wn(1) s1 rd wr False
      by (intro exI [of _ "ce_t4t_update_done (unat off) (s1\<lparr>p_scratch_buf := Some b'\<rparr>)"])
        (simp add: ce_t4t_update_binary_def s1_def [symmetric] Let_def)
  qed
qed

lemma read_cmd_safe:
  assumes "t4t_ok s" "p + 3 \<le> length apdu \<or> length apdu < 5"
  shows "\<exists>fr. t4t_read_cmd apdu p s = Some (snd (ce_t4t_send_to_lower fr s))"
proof (cases "(flag CC_FILE_SELECTED s \<or> flag NDEF_SELECTED s) \<and> 5 \<le> length apdu")
  case True
  then have rd: "rd8 apdu p = Some (apdu ! p)" "rd8 apdu (p + 1) = Some (apdu ! (p + 1))" "rd8 apdu (p + 2) = Some (apdu ! (p + 2))"
    using assms(2) by (auto intro!: rd8_in)
  define mx where "mx = (if flag CC_FILE_SELECTED s then 15 else unat (max_file_size s))"
  define off where "off = be16_val (apdu ! p) (apdu ! (p + 1))"
  define l where "l = apdu ! (p + 2)"
  define len where "len = (if unat l \<le> CE_T4T_MAX_LE then if unat l + unat off > mx then if unat off < mx then of_nat (mx - unat off) else 0 else l else (0 :: u8))"
  have run: "t4t_read_cmd apdu p s = (if len > 0 then map_option snd (ce_t4t_read_binary off len s)
      else Some (snd (ce_t4t_send_status T4T_RSP_WRONG_PARAMS s)))"
    using True rd by (simp add: t4t_read_cmd_def mx_def off_def l_def len_def Let_def)
  have red: "unat (of_nat (mx - unat off) :: u8) = mx - unat off" if "unat l + unat off > mx"
    by (rule unat_of_nat_u8) (use that unat_byte_le [of l] in linarith)
  have "unat len + unat off \<le> mx" if "len > 0"
  proof (cases "unat l + unat off > mx \<and> unat off < mx")
    case True
    have "unat l \<le> CE_T4T_MAX_LE" using unat_byte_le [of l] by linarith
    then have "len = of_nat (mx - unat off)" using True unfolding len_def by (simp only: if_True simp_thms)
    then have "unat len = mx - unat off" using red True by (simp only:)
    then show ?thesis using True by simp
  qed (use that in \<open>auto simp: len_def split: if_splits\<close>)
  then have "len > 0 \<Longrightarrow> \<exists>fr. map_option snd (ce_t4t_read_binary off len s) = Some (snd (ce_t4t_send_to_lower fr s))"
    using read_binary_safe [OF assms(1), of len off] unfolding mx_def by (metis option.simps(9))
  then show ?thesis using run by (cases "len > 0") (auto simp: ce_t4t_send_status_def)
qed (auto simp: t4t_read_cmd_def ce_t4t_send_status_def)

lemma update_cmd_safe:
  assumes "t4t_ok s" "p + 3 = 5 \<or> length apdu < 5"
  shows "\<exists>s'. t4t_update_cmd apdu p s = Some s' \<and> t4t_ok s' \<and> owned s' = owned s \<and> ro_kept s s'"
proof (cases "\<not> flag NDEF_FILE_READ_ONLY s \<and> flag NDEF_SELECTED s \<and> 5 \<le> length apdu")
  case True
  then have p: "p = 2" "5 \<le> length apdu" using assms(2) by auto
  then have rd: "rd8 apdu 2 = Some (apdu ! 2)" "rd8 apdu 3 = Some (apdu ! 3)" "rd8 apdu 4 = Some (apdu ! 4)"
    by (auto intro!: rd8_in)
  define off where "off = be16_val (apdu ! 2) (apdu ! 3)"
  define l where "l = apdu ! 4"
  define len where "len = (if unat l \<le> CE_T4T_MAX_LC \<and> unat l \<le> length apdu - 5
    then if unat l + unat off > unat (max_file_size s) then 0 else l else (0 :: u8))"
  have run: "t4t_update_cmd apdu p s = (if len > 0 then map_option snd (ce_t4t_update_binary off len apdu 5 s)
      else Some (snd (ce_t4t_send_status T4T_RSP_WRONG_PARAMS s)))"
    using True rd p by (simp add: t4t_update_cmd_def off_def l_def len_def Let_def)
  have "unat len + unat off \<le> unat (max_file_size s)" "5 + unat len \<le> length apdu" if "len > 0"
    using that p by (auto simp: len_def split: if_splits)
  then have "len > 0 \<Longrightarrow> \<exists>s'. ce_t4t_update_binary off len apdu 5 s = Some (ce_t4t_send_status T4T_RSP_CMD_CMPLTED s') \<and> t4t_ok s' \<and> owned s' = owned s \<and> ro_kept s s'"
    using update_binary_safe [OF assms(1), of len off 5 apdu] True by (simp add: ro_kept_def)
  then obtain s' where s': "len > 0 \<Longrightarrow> ce_t4t_update_binary off len apdu 5 s = Some (ce_t4t_send_status T4T_RSP_CMD_CMPLTED s') \<and> t4t_ok s' \<and> owned s' = owned s \<and> ro_kept s s'"
    by blast
  show ?thesis
    by (rule exI [of _ "if len > 0 then snd (ce_t4t_send_status T4T_RSP_CMD_CMPLTED s') else snd (ce_t4t_send_status T4T_RSP_WRONG_PARAMS s)"])
      (use run assms(1) s' in simp)
qed (use assms(1) in \<open>auto simp: t4t_update_cmd_def\<close>)

lemma select_file_ok:
  assumes "t4t_ok s" "flag T4T_APP_SELECTED s"
  shows "t4t_ok (snd (ce_t4t_select_file fid s)) \<and> owned (snd (ce_t4t_select_file fid s)) = owned s \<and> ro_kept s (snd (ce_t4t_select_file fid s))"
  using assms by (simp add: ce_t4t_select_file_def t4t_ok_def)

lemma select_file_cmd_safe:
  assumes "t4t_ok s" "flag T4T_APP_SELECTED s" "7 \<le> length apdu"
  shows "\<exists>s' w. map_option snd (ce_t4t_process_select_file_cmd apdu 3 s) = Some (snd (ce_t4t_send_status w s')) \<and> t4t_ok s' \<and> owned s' = owned s \<and> ro_kept s s'"
proof -
  have rd: "rd8 apdu 4 = Some (apdu ! 4)" "rd8 apdu 5 = Some (apdu ! 5)" "rd8 apdu 6 = Some (apdu ! 6)"
    using assms(3) by (auto intro!: rd8_in)
  show ?thesis
  proof (cases "apdu ! 4 = 2")
    case True
    define r where "r = ce_t4t_select_file (be16_val (apdu ! 5) (apdu ! 6)) s"
    have "map_option snd (ce_t4t_process_select_file_cmd apdu 3 s) =
        Some (snd (ce_t4t_send_status (if fst r then T4T_RSP_CMD_CMPLTED else T4T_RSP_NOT_FOUND) (snd r)))"
      using rd True by (simp add: ce_t4t_process_select_file_cmd_def Let_def split_beta r_def)
    moreover have "t4t_ok (snd r) \<and> owned (snd r) = owned s \<and> ro_kept s (snd r)" using select_file_ok [OF assms(1,2)] by (simp add: r_def)
    ultimately show ?thesis by blast
  next
    case False
    then have "map_option snd (ce_t4t_process_select_file_cmd apdu 3 s) = Some (snd (ce_t4t_send_status T4T_RSP_WRONG_LENGTH s))"
      using rd by (simp add: ce_t4t_process_select_file_cmd_def Let_def split_beta)
    then show ?thesis using assms(1) ro_kept_simps(1) by blast
  qed
qed

lemma find_aid_lt:
  "find_aid rs i d < i + length rs \<Longrightarrow> i \<le> find_aid rs i d \<and> ra_aid_len (rs ! (find_aid rs i d - i)) > 0"
  by (induction rs i d rule: find_aid.induct) (auto simp: nth_Cons' Suc_diff_Suc split: if_splits)

lemma find_aid_le: "find_aid rs i d \<le> i + length rs"
  by (induction rs i d rule: find_aid.induct) auto

lemma deselect_flags [simp]:
  "flag NDEF_FILE_READ_ONLY (t4t_deselect_all s) = flag NDEF_FILE_READ_ONLY s" "\<not> flag T4T_APP_SELECTED (t4t_deselect_all s)"
  "\<not> flag REG_AID_SELECTED (t4t_deselect_all s)" "\<not> flag CC_FILE_SELECTED (t4t_deselect_all s)" "\<not> flag NDEF_SELECTED (t4t_deselect_all s)"
  "\<not> flag WILDCARD_AID_SELECTED (t4t_deselect_all s)"
  by (simp_all add: t4t_deselect_all_def)

lemma deselect_fields [simp]:
  "cc_file (t4t_deselect_all s) = cc_file s" "p_ndef_msg (t4t_deselect_all s) = p_ndef_msg s" "max_file_size (t4t_deselect_all s) = max_file_size s"
  "p_scratch_buf (t4t_deselect_all s) = p_scratch_buf s" "reg_aid (t4t_deselect_all s) = reg_aid s"
  "p_wildcard_aid_cback (t4t_deselect_all s) = p_wildcard_aid_cback s" "selected_aid_idx (t4t_deselect_all s) = selected_aid_idx s"
  "ro_kept s' (t4t_deselect_all s) = ro_kept s' s" "nlen (t4t_deselect_all s) = nlen s" "ce_link (t4t_deselect_all s) = ce_link s" "ce_sent (t4t_deselect_all s) = ce_sent s"
  "ce_p_cback (t4t_deselect_all s) = ce_p_cback s" "owned (t4t_deselect_all s) = owned s" "ce_events (t4t_deselect_all s) = ce_events s"
  by (simp_all add: t4t_deselect_all_def)

lemma forward_ok:
  "c \<Longrightarrow> t4t_ok s \<Longrightarrow> ro_kept s0 s \<Longrightarrow> \<exists>s'. ce_t4t_forward h apdu c s = Some s' \<and> t4t_ok s' \<and> owned s' = Suc (owned s) \<and> ro_kept s0 s'"
  by (simp add: ce_t4t_forward_def)

lemma ok_select:
  assumes "t4t_ok s"
  shows "t4t_ok (s\<lparr>selected_aid_idx := CE_T4T_MAX_REG_AID\<rparr>)"
    "i < CE_T4T_MAX_REG_AID \<Longrightarrow> ra_cback (reg_aid s ! i) \<Longrightarrow> t4t_ok (set_flag REG_AID_SELECTED (t4t_deselect_all (s\<lparr>selected_aid_idx := i\<rparr>)))"
    "p_wildcard_aid_cback s \<Longrightarrow> t4t_ok (set_flag WILDCARD_AID_SELECTED (t4t_deselect_all s))"
    "p_ndef_msg s \<noteq> None \<Longrightarrow> t4t_ok (set_flag T4T_APP_SELECTED (t4t_deselect_all s))"
    "length cc = 15 \<Longrightarrow> t4t_ok (s\<lparr>cc_file := cc\<rparr>)"
  using assms by (simp_all add: t4t_ok_def)

lemma select_app_safe:
  assumes ok: "t4t_ok s" and l: "5 \<le> length apdu"
  shows "\<exists>s'. ce_t4t_process_select_app_cmd apdu 3 s = Some s' \<and> t4t_ok s' \<and> owned s' = Suc (owned s) \<and> ro_kept s s'"
proof (cases "unat (apdu ! 4) > length apdu - 5")
  case True
  have "rd8 apdu 4 = Some (apdu ! 4)" using l by (intro rd8_in) simp
  then show ?thesis using True ok by (simp add: ce_t4t_process_select_app_cmd_def)
next
  case False
  define n where "n = apdu ! 4"
  define d where "d = take (unat n) (drop 5 apdu)"
  have rd: "rd8 apdu 4 = Some n" using l by (simp add: n_def rd8_in)
  have rb: "rd_bytes apdu 5 (unat n) = Some d" using False l by (simp add: n_def d_def rd_bytes_in)
  define i where "i = find_aid (reg_aid s) 0 d"
  have len: "length (reg_aid s) = 4" using ok by (simp add: t4t_ok_def)
  have i: "i < 4 \<Longrightarrow> ra_cback (reg_aid s ! i)"
    using find_aid_lt [of "reg_aid s" 0 d] ok len nth_mem [of i "reg_aid s"] by (auto simp: i_def t4t_ok_def)
  define s1 where "s1 = s\<lparr>selected_aid_idx := i\<rparr>"
  have unf: "ce_t4t_process_select_app_cmd apdu 3 s =
     (if i < 4 then ce_t4t_forward i apdu (ra_cback (reg_aid s ! i)) (set_flag REG_AID_SELECTED (t4t_deselect_all s1))
      else if n = 7 \<and> take 6 d = [0xD2, 0x76, 0x00, 0x00, 0x85, 0x01] \<and> p_ndef_msg s \<noteq> None
      then do {
         v \<leftarrow> rd8 apdu 11;
         if v = 0 \<or> v = 1
         then do {
           s \<leftarrow> ce_t4t_set_version_in_cc (if v = 0 then 0x10 else 0x20) s1;
           Some (GKI_freebuf_apdu (snd (ce_t4t_send_status T4T_RSP_CMD_CMPLTED (set_flag T4T_APP_SELECTED (t4t_deselect_all s))))) }
         else Some (GKI_freebuf_apdu (snd (ce_t4t_send_status T4T_RSP_NOT_FOUND s1))) }
      else if p_wildcard_aid_cback s
      then ce_t4t_forward 4 apdu True (set_flag WILDCARD_AID_SELECTED (t4t_deselect_all s1))
      else Some (GKI_freebuf_apdu (snd (ce_t4t_send_status T4T_RSP_NOT_FOUND s1))))"
    unfolding s1_def i_def using rd rb False
    by (cases "p_ndef_msg s") (simp_all add: ce_t4t_process_select_app_cmd_def n_def [symmetric] Let_def)
  show ?thesis
  proof (cases "i < 4")
    case True
    then show ?thesis using unf forward_ok [OF i [OF True] ok_select(2) [OF ok True i [OF True]], of s i apdu] by (simp add: s1_def)
  next
    case nreg: False
    have "i \<le> 4" using len unfolding i_def by (metis add_0 find_aid_le)
    then have s1: "t4t_ok s1" "ro_kept s s1" "owned s1 = owned s" "p_ndef_msg s1 = p_ndef_msg s" "p_wildcard_aid_cback s1 = p_wildcard_aid_cback s" "cc_file s1 = cc_file s"
      using ok_select(1) [OF ok] nreg by (auto simp: s1_def)
    show ?thesis
    proof (cases "n = 7 \<and> take 6 d = [0xD2, 0x76, 0x00, 0x00, 0x85, 0x01] \<and> p_ndef_msg s \<noteq> None")
      case True
      then have r: "rd8 apdu 11 = Some (apdu ! 11)" using False l by (intro rd8_in) (auto simp: n_def)
      define w :: u8 where "w = (if apdu ! 11 = 0 then 0x10 else 0x20)"
      have lc: "length (cc_file s) = 15" using ok by (simp add: t4t_ok_def)
      then have cc: "wr8 (cc_file s) 2 w = Some ((cc_file s)[2 := w])" by (intro wr8_in) simp
      have "t4t_ok (s1\<lparr>cc_file := (cc_file s)[2 := w]\<rparr>)" by (rule ok_select(5) [OF s1(1)]) (simp add: lc)
      then have "t4t_ok (set_flag T4T_APP_SELECTED (t4t_deselect_all (s1\<lparr>cc_file := (cc_file s)[2 := w]\<rparr>)))"
        by (rule ok_select(4)) (use True s1 in simp)
      then show ?thesis using unf r cc nreg True s1 by (simp add: ce_t4t_set_version_in_cc_def w_def)
    next
      case nndef: False
      have unf: "ce_t4t_process_select_app_cmd apdu 3 s = (if p_wildcard_aid_cback s
          then ce_t4t_forward 4 apdu True (set_flag WILDCARD_AID_SELECTED (t4t_deselect_all s1))
          else Some (GKI_freebuf_apdu (snd (ce_t4t_send_status T4T_RSP_NOT_FOUND s1))))"
        using unf by (simp only: nreg nndef if_False)
      show ?thesis
      proof (cases "p_wildcard_aid_cback s")
        case True
        then show ?thesis using unf s1 forward_ok [OF TrueI ok_select(3) [OF s1(1)], of s 4 apdu] by simp
      qed (use unf s1 in simp)
    qed
  qed
qed

lemma app_cmd_safe:
  assumes ok: "t4t_ok s" and app: "flag T4T_APP_SELECTED s"
    and p: "if 4 \<le> length apdu then p = (if ins = 0xA4 then 3 else 2) else ins \<noteq> 0xA4"
  shows "\<exists>s'. t4t_app_cmd ins st apdu p s = Some s' \<and> t4t_ok s' \<and> owned s' = owned s \<and> ro_kept s s'"
proof -
  have rc: "\<exists>s'. t4t_read_cmd apdu p s = Some s' \<and> t4t_ok s' \<and> owned s' = owned s \<and> ro_kept s s'" if "ins \<noteq> 0xA4"
  proof -
    have "p + 3 \<le> length apdu \<or> length apdu < 5" using p that by (cases "5 \<le> length apdu") auto
    then obtain fr where "t4t_read_cmd apdu p s = Some (snd (ce_t4t_send_to_lower fr s))"
      using read_cmd_safe [OF ok] by blast
    then show ?thesis using ok by simp
  qed
  have uc: "\<exists>s'. t4t_update_cmd apdu p s = Some s' \<and> t4t_ok s' \<and> owned s' = owned s \<and> ro_kept s s'" if "ins \<noteq> 0xA4"
    using update_cmd_safe [OF ok, of p apdu] p that by (auto split: if_splits)
  have sf: "\<exists>s'. map_option snd (ce_t4t_process_select_file_cmd apdu p s) = Some s' \<and> t4t_ok s' \<and> owned s' = owned s \<and> ro_kept s s'"
    if "ins = 0xA4" "7 \<le> length apdu"
  proof -
    note l7 = that(2)
    have "p = 3" using p that by auto
    moreover obtain s' w where "map_option snd (ce_t4t_process_select_file_cmd apdu 3 s) = Some (snd (ce_t4t_send_status w s'))"
      "t4t_ok s'" "owned s' = owned s" "ro_kept s s'" using select_file_cmd_safe [OF ok app l7] by blast
    ultimately show ?thesis by (intro exI [of _ "snd (ce_t4t_send_status w s')"]) simp
  qed
  show ?thesis using rc uc sf ok p by (auto simp: t4t_app_cmd_def not_less simp del: map_option_eq_Some)
qed

lemma apdu_safe:
  assumes ok: "t4t_ok s" and l: "0 < length apdu"
  shows "\<exists>s'. t4t_apdu apdu s = Some s' \<and> t4t_ok s' \<and> owned s' = Suc (owned s) \<and> ro_kept s s'"
proof (cases "apdu ! 0 \<noteq> 0 \<and> \<not> flag REG_AID_SELECTED s \<and> \<not> flag WILDCARD_AID_SELECTED s")
  case True
  then show ?thesis using ok l by (simp add: t4t_apdu_def rd8_in)
next
  case cla: False
  define ins where "ins = (if 4 \<le> length apdu then apdu ! 1 else 0)"
  define sel where "sel \<longleftrightarrow> 4 \<le> length apdu \<and> apdu ! 0 = 0 \<and> ins = 0xA4"
  define st where "st = (if sel then apdu ! 2 else 0)"
  define p :: nat where "p = (if 4 \<le> length apdu then if apdu ! 0 = 0 \<and> ins = 0xA4 then 3 else 2 else 1)"
  have unf: "t4t_apdu apdu s =
      (if sel \<and> st = 4
       then (if length apdu \<ge> 5 then ce_t4t_process_select_app_cmd apdu 3 s
             else Some (GKI_freebuf_apdu (snd (ce_t4t_send_status T4T_RSP_NOT_FOUND s))))
       else if flag REG_AID_SELECTED s
       then (if selected_aid_idx s < CE_T4T_MAX_REG_AID
             then ce_t4t_forward (selected_aid_idx s) apdu (ra_cback (reg_aid s ! selected_aid_idx s)) s
             else Some (snd (ce_t4t_send_status T4T_RSP_NOT_FOUND (GKI_freebuf_apdu s))))
       else if flag WILDCARD_AID_SELECTED s then ce_t4t_forward CE_T4T_MAX_REG_AID apdu (p_wildcard_aid_cback s) s
       else if flag T4T_APP_SELECTED s then map_option GKI_freebuf_apdu (t4t_app_cmd ins st apdu p s)
       else Some (GKI_freebuf_apdu (snd (ce_t4t_send_status T4T_RSP_CMD_NOT_ALLOWED s))))"
    unfolding ins_def st_def p_def sel_def
    using cla l by (cases "4 \<le> length apdu") (auto simp: t4t_apdu_def rd8_in Let_def)
  have fw: "flag REG_AID_SELECTED s \<Longrightarrow> selected_aid_idx s < CE_T4T_MAX_REG_AID \<Longrightarrow> ra_cback (reg_aid s ! selected_aid_idx s)"
    "flag WILDCARD_AID_SELECTED s \<Longrightarrow> p_wildcard_aid_cback s" using ok by (auto simp: t4t_ok_def)
  have app: "\<exists>s'. t4t_app_cmd ins st apdu p s = Some s' \<and> t4t_ok s' \<and> owned s' = owned s \<and> ro_kept s s'"
    if "flag T4T_APP_SELECTED s" "\<not> flag REG_AID_SELECTED s" "\<not> flag WILDCARD_AID_SELECTED s"
    by (rule app_cmd_safe [OF ok that(1)]) (use cla that(2,3) in \<open>auto simp: p_def ins_def\<close>)
  show ?thesis
  proof (cases "sel \<and> st = 4")
    case True
    then show ?thesis using unf select_app_safe [OF ok, of apdu] ok by (cases "5 \<le> length apdu") auto
  next
    case False
    then show ?thesis using unf fw app forward_ok [OF fw(1) ok ro_kept_simps(1)] forward_ok [OF fw(2) ok ro_kept_simps(1)] ok by auto
  qed
qed

lemma data_ok:
  assumes "t4t_ok s"
  shows "\<exists>s'. ce_t4t_data_cback ev s = Some s' \<and> t4t_ok s' \<and>
    owned s' = owned s + (case ev of NFC_DATA_CEVT (Some apdu) \<Rightarrow> 1 | _ \<Rightarrow> 0) \<and> ro_kept s s'"
proof (cases ev)
  case (NFC_DATA_CEVT a)
  show ?thesis
  proof (cases a)
    case (Some apdu)
    show ?thesis
    proof (cases "apdu = []")
      case False
      then have "\<exists>s'. t4t_apdu apdu s = Some s' \<and> t4t_ok s' \<and> owned s' = Suc (owned s) \<and> ro_kept s s'" by (intro apdu_safe [OF assms]) simp
      then show ?thesis using NFC_DATA_CEVT Some False by (auto simp: ce_t4t_data_cback_def)
    qed (use NFC_DATA_CEVT Some assms in \<open>simp add: ce_t4t_data_cback_def\<close>)
  qed (use NFC_DATA_CEVT assms in \<open>simp add: ce_t4t_data_cback_def\<close>)
qed (use assms in \<open>simp_all add: ce_t4t_data_cback_def owned_def raw_frames_def\<close>)

text \<open>C20. Whatever a reader sends, the Type 4 Tag emulation handles it without accessing memory outside its
  buffers and without calling a missing callback, keeps its invariant, and releases each command buffer
  exactly once or hands it to exactly one registered application.\<close>

theorem ce_t4t_data_cback_safe:
  assumes "t4t_ok s"
  shows "\<exists>s'. ce_t4t_data_cback ev s = Some s' \<and> t4t_ok s' \<and>
    owned s' = owned s + (case ev of NFC_DATA_CEVT (Some apdu) \<Rightarrow> 1 | _ \<Rightarrow> 0)"
  using data_ok [OF assms] by blast

end
