(* ===== verification/CeT4tFile.thy ===== *)
theory CeT4tFile
  imports CeT4tProofs
begin

unbundle bit_operations_syntax

text \<open>
  The NDEF file of the Type 4 Tag emulation as a reader sees it: a read command returns the bytes of the
  file, an update command overwrites them, and the write procedure of a reader stores a message.
\<close>

section \<open>The file\<close>

definition ndef_open :: "ce_t4t \<Rightarrow> bool" where
  "ndef_open s \<longleftrightarrow> t4t_ok s \<and> flag T4T_APP_SELECTED s \<and> flag NDEF_SELECTED s \<and> \<not> flag REG_AID_SELECTED s \<and>
     \<not> flag WILDCARD_AID_SELECTED s \<and> ce_link s \<and> 2 \<le> unat (max_file_size s) \<and> t4t_buf s \<noteq> None"

lemma ndef_open_not_cc: "ndef_open s \<Longrightarrow> \<not> flag CC_FILE_SELECTED s"
  by (auto simp: ndef_open_def t4t_ok_def)

lemma ndef_open_buf:
  assumes "ndef_open s"
  obtains b where "t4t_buf s = Some b" "unat (max_file_size s) \<le> length b + 2"
  using assms by (auto simp: ndef_open_def t4t_ok_def t4t_buf_def split: option.splits)

lemma length_file: "ndef_open s \<Longrightarrow> length (t4t_file s) = unat (max_file_size s)"
  by (rule ndef_open_buf) (auto simp: t4t_file_def ndef_open_def)

definition READ_BINARY :: "u16 \<Rightarrow> u8 \<Rightarrow> mem" where
  "READ_BINARY off le = [0x00, 0xB0] @ be16_bytes off @ [le]"

definition UPDATE_BINARY :: "u16 \<Rightarrow> mem \<Rightarrow> mem" where
  "UPDATE_BINARY off d = [0x00, 0xD6] @ be16_bytes off @ [of_nat (length d)] @ d"

lemma read_nlen_file:
  assumes "t4t_read_nlen nl off len = (pre, o', n)" "off + len \<le> mx" "0 < len" "mx \<le> length b + 2"
  shows "pre @ (if n > 0 then take n (drop o' b) else []) = take len (drop off (be16_bytes nl @ take (mx - 2) b))"
proof -
  consider "off = 0" | "off = 1" | "2 \<le> off" by linarith
  then show ?thesis
  proof cases
    case 1
    then show ?thesis using assms by (auto simp: t4t_read_nlen_def be16_bytes_def take_Cons' numeral_2_eq_2 split: if_splits)
  next
    case 2
    then show ?thesis using assms by (auto simp: t4t_read_nlen_def be16_bytes_def take_Cons' split: if_splits)
  next
    case 3
    then obtain k where "off = Suc (Suc k)" by (metis add_2_eq_Suc le_Suc_ex)
    then show ?thesis using assms by (auto simp: t4t_read_nlen_def be16_bytes_def take_drop)
  qed
qed

lemma read_cmd_file:
  assumes op: "ndef_open s" and off: "unat off < unat (max_file_size s)" and le: "0 < le"
  shows "t4t_read_cmd (READ_BINARY off le) 2 s =
    Some (s\<lparr>ce_sent := ce_sent s @ [take (unat le) (drop (unat off) (t4t_file s)) @ [0x90, 0x00]]\<rparr>)"
proof -
  let ?mx = "unat (max_file_size s)"
  have fl: "flag NDEF_SELECTED s" "\<not> flag CC_FILE_SELECTED s" "ce_link s" using op ndef_open_not_cc [OF op] by (auto simp: ndef_open_def)
  define len where "len = (if unat le + unat off > ?mx then of_nat (?mx - unat off) else le)"
  have le255: "unat le \<le> 255" by simp
  then have le646: "unat le \<le> CE_T4T_MAX_LE" by linarith
  have ul: "unat len = min (unat le) (?mx - unat off)"
  proof (cases "unat le + unat off > ?mx")
    case True
    then have "unat (of_nat (?mx - unat off) :: u8) = ?mx - unat off" by (intro unat_of_nat_u8) (use le255 in linarith)
    moreover have "len = of_nat (?mx - unat off)" using True unfolding len_def by (simp only: if_True)
    moreover have "?mx - unat off \<le> unat le" using True by linarith
    ultimately show ?thesis by (simp only: min_absorb2)
  qed (simp add: len_def min_def)
  have le0: "0 < unat le" using le by (simp add: word_greater_zero_iff unat_gt_0)
  then have l0: "0 < unat len" using ul off by simp
  then have lp: "len > 0" by (metis unat_0 word_gt_0 less_irrefl)
  have run: "t4t_read_cmd (READ_BINARY off le) 2 s = map_option snd (ce_t4t_read_binary off len s)"
    using fl off le646 lp unfolding len_def
    by (auto simp: t4t_read_cmd_def READ_BINARY_def be16_bytes_def rd8_def be16_roundtrip Let_def simp del: of_nat_diff split: if_splits)
  obtain pre o' n where rn: "t4t_read_nlen (nlen s) (unat off) (unat len) = (pre, o', n)" by (metis prod_cases3)
  obtain b where b: "t4t_buf s = Some b" "?mx \<le> length b + 2" using ndef_open_buf [OF op] .
  have fits: "unat off + unat len \<le> ?mx" using ul off by simp
  have "0 < n \<Longrightarrow> o' + n \<le> length b" using read_nlen_bounds(2) [OF rn fits l0] b(2) by linarith
  then have bs: "(if n > 0 then rd_bytes b o' n else Some []) = Some (if n > 0 then take n (drop o' b) else [])"
    by (simp add: rd_bytes_in)
  have "take (unat len) (drop (unat off) (t4t_file s)) = take (unat le) (drop (unat off) (t4t_file s))"
    unfolding ul using length_file [OF op] by (simp add: min_def)
  then have "pre @ (if n > 0 then take n (drop o' b) else []) = take (unat le) (drop (unat off) (t4t_file s))"
    using read_nlen_file [OF rn fits l0 b(2)] b(1) by (simp add: t4t_file_def)
  moreover have "ce_t4t_read_binary off len s = Some (ce_t4t_send_to_lower
      ((pre @ (if n > 0 then take n (drop o' b) else [])) @ be16_bytes T4T_RSP_CMD_CMPLTED) s)"
    using fl lp rn b(1) bs by (simp add: ce_t4t_read_binary_def t4t_buf_def)
  ultimately show ?thesis using run fl by (simp add: ce_t4t_send_to_lower_def be16_bytes_def)
qed

text \<open>Bytes written over a file.\<close>

definition overlay :: "nat \<Rightarrow> mem \<Rightarrow> mem \<Rightarrow> mem" where
  "overlay off d f = take off f @ d @ drop (off + length d) f"

lemma overlay_length: "off + length d \<le> length f \<Longrightarrow> length (overlay off d f) = length f"
  by (simp add: overlay_def)

lemma overlay_take: "off + length d \<le> n \<Longrightarrow> take n (overlay off d f) = overlay off d (take n f)"
  by (cases "n = off") (auto simp: overlay_def min_def drop_take)

lemma wr_bytes_overlay: "p + length d \<le> length m \<Longrightarrow> wr_bytes m p d = Some (overlay p d m)"
  by (auto simp: wr_bytes_def overlay_def)

lemma write_nlen_overlay:
  assumes "length fl = 2" "rd_bytes apdu p (length d) = Some d"
  shows "t4t_write_nlen fl off (length d) apdu p =
    Some (if 2 \<le> off then (fl, off, length d, p)
      else let k = min (length d) (2 - off) in (overlay off (take k d) fl, off + k, length d - k, p + k))"
proof -
  have at: "bytes_at apdu p d" using assms(2) by (simp add: rd_bytes_Some)
  have rd: "i < length d \<Longrightarrow> rd8 apdu (p + i) = Some (d ! i)" for i using at by (simp add: bytes_at_nth)
  obtain a b where fl: "fl = [a, b]" using assms(1) by (auto simp: length_Suc_conv numeral_2_eq_2)
  consider "2 \<le> off" | "off = 0" | "off = 1" by linarith
  then show ?thesis
  proof cases
    case 1
    then show ?thesis by (cases "length d") auto
  next
    case 2
    show ?thesis
    proof (cases d)
      case (Cons x xs)
      show ?thesis
      proof (cases xs)
        case Nil
        then show ?thesis using 2 Cons rd [of 0] fl by (simp add: overlay_def)
      next
        case (Cons y ys)
        then show ?thesis using 2 \<open>d = x # xs\<close> rd [of 0] rd [of 1] fl by (cases ys) (simp_all add: overlay_def)
      qed
    qed (simp add: overlay_def 2)
  next
    case 3
    then show ?thesis using rd [of 0] fl by (cases d rule: list.exhaust [case_product list.exhaust [of "List.tl d"]]) (auto simp: overlay_def neq_Nil_conv)
  qed
qed

lemma overlay_split:
  assumes "length fl = 2" "off + length d \<le> length (fl @ f)"
  shows "overlay off d (fl @ f) = (if 2 \<le> off then fl @ overlay (off - 2) d f
    else let k = min (length d) (2 - off) in overlay off (take k d) fl @ (if length d - k > 0 then overlay (off + k - 2) (drop k d) f else f))"
proof -
  obtain a b where fl: "fl = [a, b]" using assms(1) by (auto simp: length_Suc_conv numeral_2_eq_2)
  consider k where "off = Suc (Suc k)" | "off = 0" | "off = 1" by (metis One_nat_def not0_implies_Suc)
  then show ?thesis
  proof cases
    case 1
    then show ?thesis using fl by (simp add: overlay_def)
  next
    case 2
    consider "d = []" | x where "d = [x]" | x y where "d = [x, y]" | x y z zs where "d = x # y # z # zs" by (metis list.exhaust)
    then show ?thesis using fl 2 by cases (auto simp: overlay_def)
  next
    case 3
    then show ?thesis using fl by (cases d) (auto simp: overlay_def)
  qed
qed

text \<open>Which events an update causes.\<close>

definition update_events :: "nat \<Rightarrow> ce_t4t \<Rightarrow> ce_event list" where
  "update_events off s = (if \<not> ce_p_cback s then []
     else if off = 0 \<and> nlen s > 0 then [CE_T4T_NDEF_UPDATE_CPLT_EVT (nlen s) (case p_scratch_buf s of Some b \<Rightarrow> b | None \<Rightarrow> [])]
     else if flag NDEF_FILE_UPDATING s then [] else [CE_T4T_NDEF_UPDATE_START_EVT])"

lemma notify_fields [simp]:
  "nlen (ce_notify e s) = nlen s" "p_scratch_buf (ce_notify e s) = p_scratch_buf s" "p_ndef_msg (ce_notify e s) = p_ndef_msg s"
  "max_file_size (ce_notify e s) = max_file_size s" "ce_link (ce_notify e s) = ce_link s" "ce_sent (ce_notify e s) = ce_sent s"
  "ce_p_cback (ce_notify e s) = ce_p_cback s" "ce_events (ce_notify e s) = ce_events s @ [e]" "flag f (ce_notify e s) = flag f s"
  by (simp_all add: ce_notify_def)

lemma update_done_fields [simp]:
  "nlen (ce_t4t_update_done off s) = nlen s" "p_scratch_buf (ce_t4t_update_done off s) = p_scratch_buf s"
  "p_ndef_msg (ce_t4t_update_done off s) = p_ndef_msg s" "max_file_size (ce_t4t_update_done off s) = max_file_size s"
  "ce_link (ce_t4t_update_done off s) = ce_link s" "ce_sent (ce_t4t_update_done off s) = ce_sent s" "ce_p_cback (ce_t4t_update_done off s) = ce_p_cback s"
  "ce_events (ce_t4t_update_done off s) = ce_events s @ update_events off s"
  by (auto simp: ce_t4t_update_done_def update_events_def Let_def)

lemma update_done_flags [simp]:
  "flag T4T_APP_SELECTED (ce_t4t_update_done off s) = flag T4T_APP_SELECTED s" "flag REG_AID_SELECTED (ce_t4t_update_done off s) = flag REG_AID_SELECTED s"
  "flag NDEF_SELECTED (ce_t4t_update_done off s) = flag NDEF_SELECTED s" "flag NDEF_FILE_READ_ONLY (ce_t4t_update_done off s) = flag NDEF_FILE_READ_ONLY s"
  "flag WILDCARD_AID_SELECTED (ce_t4t_update_done off s) = flag WILDCARD_AID_SELECTED s"
  "flag NDEF_FILE_UPDATING (ce_t4t_update_done off s) \<longleftrightarrow> \<not> (off = 0 \<and> nlen s > 0)"
  by (simp_all add: ce_t4t_update_done_def Let_def)

lemma update_cmd_file:
  assumes op: "ndef_open s" and rw: "\<not> flag NDEF_FILE_READ_ONLY s"
    and d: "d \<noteq> []" "length d < 256" "unat off + length d \<le> unat (max_file_size s)"
  shows "\<exists>s' b. t4t_update_cmd (UPDATE_BINARY off d) 2 s = Some s' \<and> ndef_open s' \<and> \<not> flag NDEF_FILE_READ_ONLY s' \<and>
    t4t_file s' = overlay (unat off) d (t4t_file s) \<and> ce_sent s' = ce_sent s @ [[0x90, 0x00]] \<and> max_file_size s' = max_file_size s \<and>
    ce_p_cback s' = ce_p_cback s \<and> flag NDEF_FILE_UPDATING s' = (\<not> (unat off = 0 \<and> nlen s' > 0)) \<and> t4t_buf s' = Some b \<and>
    ce_events s' = ce_events s @ (if \<not> ce_p_cback s then []
      else if unat off = 0 \<and> nlen s' > 0 then [CE_T4T_NDEF_UPDATE_CPLT_EVT (nlen s') b]
      else if flag NDEF_FILE_UPDATING s then [] else [CE_T4T_NDEF_UPDATE_START_EVT])"
proof -
  let ?mx = "unat (max_file_size s)" and ?apdu = "UPDATE_BINARY off d"
  have ok: "t4t_ok s" and fl: "flag NDEF_SELECTED s" "ce_link s" using op by (auto simp: ndef_open_def)
  obtain b where b: "p_scratch_buf s = Some b" "?mx \<le> length b + 2" using ok rw op by (auto simp: t4t_ok_def ndef_open_def)
  have ud: "unat (of_nat (length d) :: u8) = length d" using d(2) by (rule unat_of_nat_u8)
  have la: "length ?apdu = 5 + length d" by (simp add: UPDATE_BINARY_def)
  have rd: "rd_bytes ?apdu 5 (length d) = Some d"
    by (simp add: rd_bytes_def UPDATE_BINARY_def be16_bytes_def)
  have l0: "(0 :: u8) < of_nat (length d)" using d(1) ud by (metis length_0_conv unat_0 word_gt_0)
  have lc: "length d \<le> CE_T4T_MAX_LC" using d(2) by simp
  have run: "t4t_update_cmd ?apdu 2 s = map_option snd (ce_t4t_update_binary off (of_nat (length d)) ?apdu 5 s)"
    using fl rw l0 d(3) ud la lc
    by (simp add: t4t_update_cmd_def UPDATE_BINARY_def be16_bytes_def rd8_def be16_roundtrip Let_def)
  define k where "k = (if 2 \<le> unat off then 0 else min (length d) (2 - unat off))"
  define nl where "nl = (if 2 \<le> unat off then be16_bytes (nlen s) else overlay (unat off) (take k d) (be16_bytes (nlen s)))"
  have wn: "t4t_write_nlen (be16_bytes (nlen s)) (unat off) (length d) ?apdu 5 = Some (nl, unat off + k, length d - k, 5 + k)"
    using write_nlen_overlay [OF length_be16 rd] by (simp add: k_def nl_def Let_def)
  have "length nl = 2" using d(1) by (auto simp: nl_def k_def overlay_length)
  then obtain x y where nl: "nl = [x, y]" by (auto simp: length_Suc_conv numeral_2_eq_2)
  define n where "n = (if unat off < 2 then be16_val x y else nlen s)"
  have nb: "be16_bytes n = nl"
  proof (cases "unat off < 2")
    case False
    then show ?thesis by (simp add: n_def nl_def)
  qed (simp add: n_def nl be16_val_bytes)
  define b' where "b' = (if length d - k > 0 then overlay (unat off + k - 2) (drop k d) b else b)"
  define s2 where "s2 = s\<lparr>nlen := n, p_scratch_buf := Some b'\<rparr>"
  have k2: "length d - k > 0 \<Longrightarrow> 2 \<le> unat off + k" and kd: "k \<le> length d" by (auto simp: k_def)
  have fits: "length d - k > 0 \<Longrightarrow> unat off + k - 2 + length (drop k d) \<le> ?mx - 2" using k2 kd d(3) by simp
  have lb: "length b' = length b" using fits b(2) by (auto simp: b'_def intro!: overlay_length)
  have rdk: "rd_bytes ?apdu (5 + k) (length d - k) = Some (drop k d)"
    using kd drop_drop [of k 5 ?apdu] by (simp add: rd_bytes_def UPDATE_BINARY_def be16_bytes_def add.commute)
  have wr: "length d - k > 0 \<Longrightarrow> wr_bytes b (unat off + k - 2) (drop k d) = Some b'"
    using fits b(2) wr_bytes_overlay [of "unat off + k - 2" "drop k d" b] by (simp add: b'_def)
  have up: "ce_t4t_update_binary off (of_nat (length d)) ?apdu 5 s = Some (ce_t4t_send_status T4T_RSP_CMD_CMPLTED (ce_t4t_update_done (unat off) s2))"
  proof -
    have s1: "(if unat off < 2 \<and> (0 :: u8) < of_nat (length d) then s\<lparr>nlen := be16_val (nl ! 0) (nl ! 1)\<rparr> else s) = s\<lparr>nlen := n\<rparr>"
      using l0 by (simp add: n_def nl)
    show ?thesis
    proof (cases "length d - k > 0")
      case True
      then show ?thesis using wn ud rdk wr b(1) s1 by (simp add: ce_t4t_update_binary_def s2_def)
    next
      case False
      then have "b' = b" by (simp add: b'_def)
      then have "s\<lparr>nlen := n\<rparr> = s2" using b(1) by (simp add: s2_def)
      then show ?thesis using wn ud False s1 by (simp add: ce_t4t_update_binary_def)
    qed
  qed
  have "t4t_file s2 = nl @ take (?mx - 2) b'" by (simp add: t4t_file_def t4t_buf_def s2_def nb)
  also have "take (?mx - 2) b' = (if length d - k > 0 then overlay (unat off + k - 2) (drop k d) (take (?mx - 2) b) else take (?mx - 2) b)"
    using fits b(2) overlay_take [of "unat off + k - 2" "drop k d" "?mx - 2" b] by (simp add: b'_def)
  also have "nl @ \<dots> = overlay (unat off) d (t4t_file s)"
    using overlay_split [OF length_be16 [of "nlen s"], of "unat off" d "take (?mx - 2) b"] d(1,3) b op
    by (auto simp: t4t_file_def t4t_buf_def nl_def k_def ndef_open_def Let_def)
  finally have fil: "t4t_file s2 = overlay (unat off) d (t4t_file s)" .
  have "t4t_ok s2" using ok lb b by (simp add: s2_def t4t_ok_def)
  then have op2: "ndef_open s2" using op by (simp add: ndef_open_def s2_def t4t_buf_def)
  let ?s = "(ce_t4t_update_done (unat off) s2)\<lparr>ce_sent := ce_sent s @ [[0x90, 0x00]]\<rparr>"
  have "t4t_update_cmd ?apdu 2 s = Some ?s"
    using run up fl by (simp add: ce_t4t_send_status_def ce_t4t_send_to_lower_def be16_bytes_def s2_def)
  moreover have "ndef_open ?s" "t4t_file ?s = t4t_file s2" "\<not> flag NDEF_FILE_READ_ONLY ?s" "t4t_buf ?s = Some b'"
    using op2 rw by (simp_all add: ndef_open_def t4t_buf_def t4t_file_def s2_def)
  ultimately show ?thesis using fil
    by (rule_tac exI [of _ ?s], rule_tac exI [of _ b']) (simp add: s2_def update_events_def)
qed

lemma apdu_cmds:
  assumes "ndef_open s"
  shows "ce_t4t_data_cback (NFC_DATA_CEVT (Some (READ_BINARY off le))) s = map_option GKI_freebuf_apdu (t4t_read_cmd (READ_BINARY off le) 2 s)"
    "ce_t4t_data_cback (NFC_DATA_CEVT (Some (UPDATE_BINARY off d))) s = map_option GKI_freebuf_apdu (t4t_update_cmd (UPDATE_BINARY off d) 2 s)"
  using assms by (simp_all add: ce_t4t_data_cback_def t4t_apdu_def READ_BINARY_def UPDATE_BINARY_def be16_bytes_def rd8_def Let_def ndef_open_def t4t_app_cmd_def)

lemma buf_log [simp]: "t4t_buf (s\<lparr>ce_sent := x\<rparr>) = t4t_buf s" "t4t_buf (s\<lparr>ce_freed := n\<rparr>) = t4t_buf s"
  by (simp_all add: t4t_buf_def split: option.split)

lemma freed_fields [simp]:
  "ndef_open (GKI_freebuf_apdu s) = ndef_open s" "t4t_file (GKI_freebuf_apdu s) = t4t_file s" "flag f (GKI_freebuf_apdu s) = flag f s"
  "ce_sent (GKI_freebuf_apdu s) = ce_sent s" "ce_events (GKI_freebuf_apdu s) = ce_events s" "max_file_size (GKI_freebuf_apdu s) = max_file_size s"
  "ce_p_cback (GKI_freebuf_apdu s) = ce_p_cback s" "nlen (GKI_freebuf_apdu s) = nlen s" "t4t_buf (GKI_freebuf_apdu s) = t4t_buf s"
  by (simp_all add: GKI_freebuf_apdu_def ndef_open_def t4t_file_def)

text \<open>C21. With the NDEF file selected, a read command at an offset inside the file is answered with the bytes of the
  file from that offset, as many as were asked for or as the file has, and success; the file does not
  change.\<close>

theorem ce_t4t_read_ok:
  assumes "ndef_open s" "unat off < unat (max_file_size s)" "0 < le"
  shows "\<exists>s'. ce_t4t_data_cback (NFC_DATA_CEVT (Some (READ_BINARY off le))) s = Some s' \<and> ndef_open s' \<and> t4t_file s' = t4t_file s \<and>
    ce_sent s' = ce_sent s @ [take (unat le) (drop (unat off) (t4t_file s)) @ [0x90, 0x00]] \<and> ce_events s' = ce_events s"
proof -
  let ?s = "s\<lparr>ce_sent := ce_sent s @ [take (unat le) (drop (unat off) (t4t_file s)) @ [0x90, 0x00]]\<rparr>"
  have "ndef_open ?s" "t4t_file ?s = t4t_file s" using assms(1) by (simp_all add: ndef_open_def t4t_file_def)
  then show ?thesis using apdu_cmds(1) [OF assms(1)] read_cmd_file [OF assms] by simp
qed

lemma file_update_rep:
  assumes "ndef_open s" "\<not> flag NDEF_FILE_READ_ONLY s" "d \<noteq> []" "length d < 256" "unat off + length d \<le> unat (max_file_size s)"
  shows "\<exists>s' b. ce_t4t_data_cback (NFC_DATA_CEVT (Some (UPDATE_BINARY off d))) s = Some s' \<and> ndef_open s' \<and> \<not> flag NDEF_FILE_READ_ONLY s' \<and>
    t4t_file s' = overlay (unat off) d (t4t_file s) \<and> ce_sent s' = ce_sent s @ [[0x90, 0x00]] \<and> max_file_size s' = max_file_size s \<and>
    ce_p_cback s' = ce_p_cback s \<and> flag NDEF_FILE_UPDATING s' = (\<not> (unat off = 0 \<and> nlen s' > 0)) \<and> t4t_buf s' = Some b \<and>
    ce_events s' = ce_events s @ (if \<not> ce_p_cback s then []
      else if unat off = 0 \<and> nlen s' > 0 then [CE_T4T_NDEF_UPDATE_CPLT_EVT (nlen s') b]
      else if flag NDEF_FILE_UPDATING s then [] else [CE_T4T_NDEF_UPDATE_START_EVT])"
proof -
  obtain s' b where s': "t4t_update_cmd (UPDATE_BINARY off d) 2 s = Some s'" "ndef_open s'" "\<not> flag NDEF_FILE_READ_ONLY s'"
    "t4t_file s' = overlay (unat off) d (t4t_file s)" "ce_sent s' = ce_sent s @ [[0x90, 0x00]]" "max_file_size s' = max_file_size s"
    "ce_p_cback s' = ce_p_cback s" "flag NDEF_FILE_UPDATING s' = (\<not> (unat off = 0 \<and> nlen s' > 0))" "t4t_buf s' = Some b"
    "ce_events s' = ce_events s @ (if \<not> ce_p_cback s then []
      else if unat off = 0 \<and> nlen s' > 0 then [CE_T4T_NDEF_UPDATE_CPLT_EVT (nlen s') b]
      else if flag NDEF_FILE_UPDATING s then [] else [CE_T4T_NDEF_UPDATE_START_EVT])"
    using update_cmd_file [OF assms] by blast
  show ?thesis
    by (rule exI [of _ "GKI_freebuf_apdu s'"], rule exI [of _ b])
      (use s' apdu_cmds(2) [OF assms(1)] in \<open>simp split del: if_split cong: if_cong\<close>)
qed

fun t4t_run :: "mem list \<Rightarrow> ce_t4t \<Rightarrow> ce_t4t option" where
  "t4t_run [] s = Some s"
| "t4t_run (c # cs) s = do { s' \<leftarrow> ce_t4t_data_cback (NFC_DATA_CEVT (Some c)) s; t4t_run cs s' }"

lemma t4t_run_append: "t4t_run (as @ bs) s = do { s' \<leftarrow> t4t_run as s; t4t_run bs s' }"
proof (induction as arbitrary: s)
  case (Cons a as)
  then show ?case by (cases "ce_t4t_data_cback (NFC_DATA_CEVT (Some a)) s") simp_all
qed simp

text \<open>The write procedure of a reader: clear the length field, write the message in pieces, write the length.\<close>

fun write_chunks :: "nat \<Rightarrow> mem list \<Rightarrow> mem list" where
  "write_chunks off [] = []"
| "write_chunks off (c # cs) = UPDATE_BINARY (of_nat off) c # write_chunks (off + length c) cs"

definition ndef_write :: "mem list \<Rightarrow> mem list" where
  "ndef_write cs = [UPDATE_BINARY 0 [0, 0]] @ write_chunks 2 cs @ [UPDATE_BINARY 0 (be16_bytes (of_nat (length (concat cs))))]"

lemma overlay_overlay: "off + length c \<le> length f \<Longrightarrow> overlay (off + length c) d (overlay off c f) = overlay off (c @ d) f"
  by (simp add: overlay_def ac_simps)

lemma chunks_run:
  assumes "ndef_open s" "\<not> flag NDEF_FILE_READ_ONLY s" "list_all (\<lambda>c. c \<noteq> [] \<and> length c < 256) cs" "0 < off"
    "off + length (concat cs) \<le> unat (max_file_size s)" "flag NDEF_FILE_UPDATING s"
  shows "\<exists>s'. t4t_run (write_chunks off cs) s = Some s' \<and> ndef_open s' \<and> \<not> flag NDEF_FILE_READ_ONLY s' \<and>
    t4t_file s' = overlay off (concat cs) (t4t_file s) \<and> max_file_size s' = max_file_size s \<and> ce_p_cback s' = ce_p_cback s \<and>
    flag NDEF_FILE_UPDATING s' \<and> ce_events s' = ce_events s"
  using assms
proof (induction cs arbitrary: off s)
  case Nil
  then show ?case by (simp add: overlay_def)
next
  case (Cons c cs)
  have uo: "unat (of_nat off :: u16) = off"
    using Cons.prems(5) unsigned_less [of "max_file_size s", where 'a = nat] by (simp add: unat_of_nat)
  obtain s1 where s1: "ce_t4t_data_cback (NFC_DATA_CEVT (Some (UPDATE_BINARY (of_nat off) c))) s = Some s1" "ndef_open s1" "\<not> flag NDEF_FILE_READ_ONLY s1"
    "t4t_file s1 = overlay off c (t4t_file s)" "max_file_size s1 = max_file_size s" "ce_p_cback s1 = ce_p_cback s"
    "flag NDEF_FILE_UPDATING s1" "ce_events s1 = ce_events s"
    using file_update_rep [OF Cons.prems(1,2), of c "of_nat off"] Cons.prems(3-6) uo by auto
  obtain s' where s': "t4t_run (write_chunks (off + length c) cs) s1 = Some s'" "ndef_open s'" "\<not> flag NDEF_FILE_READ_ONLY s'"
    "t4t_file s' = overlay (off + length c) (concat cs) (t4t_file s1)" "max_file_size s' = max_file_size s1" "ce_p_cback s' = ce_p_cback s1"
    "flag NDEF_FILE_UPDATING s'" "ce_events s' = ce_events s1"
    using Cons.IH [OF s1(2,3), of "off + length c"] Cons.prems(3-5) s1(5,7) by auto
  have "overlay (off + length c) (concat cs) (overlay off c (t4t_file s)) = overlay off (concat (c # cs)) (t4t_file s)"
    using Cons.prems(5) length_file [OF Cons.prems(1)] by (simp add: overlay_overlay)
  then show ?case using s1 s' by simp
qed

text \<open>C22. A reader that follows the write procedure (length zero, the message in any number of pieces, then its
  length) leaves the file with that length and that message, and the application is told once that the
  update starts and once that it is complete, with the length and a buffer that starts with the message.\<close>

theorem ce_t4t_write_ok:
  assumes "ndef_open s" "\<not> flag NDEF_FILE_READ_ONLY s" "\<not> flag NDEF_FILE_UPDATING s" "ce_p_cback s"
    and "list_all (\<lambda>c. c \<noteq> [] \<and> length c < 256) cs" "cs \<noteq> []" "2 + length (concat cs) \<le> unat (max_file_size s)"
  shows "\<exists>s' b. t4t_run (ndef_write cs) s = Some s' \<and> ndef_open s' \<and>
    take (2 + length (concat cs)) (t4t_file s') = be16_bytes (of_nat (length (concat cs))) @ concat cs \<and>
    ce_events s' = ce_events s @ [CE_T4T_NDEF_UPDATE_START_EVT, CE_T4T_NDEF_UPDATE_CPLT_EVT (of_nat (length (concat cs))) b] \<and>
    take (length (concat cs)) b = concat cs"
proof -
  let ?m = "concat cs"
  have n16: "unat (of_nat (length ?m) :: u16) = length ?m"
    using assms(7) unsigned_less [of "max_file_size s", where 'a = nat] by (simp add: unat_of_nat)
  have nz: "0 < length ?m" using assms(5,6) by (cases cs) auto
  have f0: "unat (0 :: u16) + length [0, 0 :: u8] \<le> unat (max_file_size s)" using assms(7) by simp
  have n0: "[0, 0 :: u8] \<noteq> []" "length [0, 0 :: u8] < 256" by simp_all
  obtain s1 b0 where s1: "ce_t4t_data_cback (NFC_DATA_CEVT (Some (UPDATE_BINARY 0 [0, 0]))) s = Some s1" "ndef_open s1" "\<not> flag NDEF_FILE_READ_ONLY s1"
    "t4t_file s1 = overlay (unat (0 :: u16)) [0, 0] (t4t_file s)" "max_file_size s1 = max_file_size s" "ce_p_cback s1 = ce_p_cback s"
    "flag NDEF_FILE_UPDATING s1 = (\<not> (unat (0 :: u16) = 0 \<and> nlen s1 > 0))"
    "ce_events s1 = ce_events s @ (if \<not> ce_p_cback s then []
      else if unat (0 :: u16) = 0 \<and> nlen s1 > 0 then [CE_T4T_NDEF_UPDATE_CPLT_EVT (nlen s1) b0]
      else if flag NDEF_FILE_UPDATING s then [] else [CE_T4T_NDEF_UPDATE_START_EVT])"
    using file_update_rep [OF assms(1,2) n0 f0] by blast
  have "be16_bytes (nlen s1) = [0, 0]" using s1(4) by (simp add: t4t_file_def overlay_def be16_bytes_def)
  then have z: "nlen s1 = 0" using be16_roundtrip [of "nlen s1"] by (simp add: be16_bytes_def be16_val_def)
  have s1': "flag NDEF_FILE_UPDATING s1" "ce_events s1 = ce_events s @ [CE_T4T_NDEF_UPDATE_START_EVT]" using s1(7,8) z assms(3,4) by simp_all
  obtain s2 where s2: "t4t_run (write_chunks 2 cs) s1 = Some s2" "ndef_open s2" "\<not> flag NDEF_FILE_READ_ONLY s2"
    "t4t_file s2 = overlay 2 ?m (t4t_file s1)" "max_file_size s2 = max_file_size s" "ce_p_cback s2" "flag NDEF_FILE_UPDATING s2"
    "ce_events s2 = ce_events s1"
    using chunks_run [OF s1(2,3) assms(5) _ _ s1'(1), of 2] assms(4,7) s1(5,6) by auto
  let ?l = "be16_bytes (of_nat (length ?m))"
  have fits: "unat (0 :: u16) + length ?l \<le> unat (max_file_size s2)" using assms(7) s2(5) by simp
  have ne: "?l \<noteq> []" "length ?l < 256" by (simp_all add: be16_bytes_def)
  obtain s3 b where s3: "ce_t4t_data_cback (NFC_DATA_CEVT (Some (UPDATE_BINARY 0 ?l))) s2 = Some s3" "ndef_open s3"
    "t4t_file s3 = overlay (unat (0 :: u16)) ?l (t4t_file s2)" "max_file_size s3 = max_file_size s2" "t4t_buf s3 = Some b"
    "ce_events s3 = ce_events s2 @ (if \<not> ce_p_cback s2 then []
      else if unat (0 :: u16) = 0 \<and> nlen s3 > 0 then [CE_T4T_NDEF_UPDATE_CPLT_EVT (nlen s3) b]
      else if flag NDEF_FILE_UPDATING s2 then [] else [CE_T4T_NDEF_UPDATE_START_EVT])"
    using file_update_rep [OF s2(2,3) ne fits] by blast
  have lf: "length (t4t_file s1) = unat (max_file_size s)" using length_file [OF s1(2)] s1(5) by simp
  have f3: "t4t_file s3 = ?l @ ?m @ drop (2 + length ?m) (t4t_file s1)"
    unfolding s3(3) s2(4) using lf assms(7) by (simp add: overlay_def ac_simps)
  have n3: "nlen s3 = of_nat (length ?m)" and b3: "take (unat (max_file_size s3) - 2) b = ?m @ drop (2 + length ?m) (t4t_file s1)"
    using f3 be16_inj [of "nlen s3" "of_nat (length ?m)"] by (simp_all add: t4t_file_def s3(5))
  have "length ?m \<le> unat (max_file_size s3) - 2" unfolding s3(4) s2(5) using assms(7) by linarith
  then have "take (length ?m) b = take (length ?m) (take (unat (max_file_size s3) - 2) b)" by (simp add: min_absorb1)
  also have "\<dots> = ?m" by (simp add: b3)
  finally have tb: "take (length ?m) b = ?m" .
  have "t4t_run (ndef_write cs) s = Some s3" using s1(1) s2(1) s3(1) by (simp add: ndef_write_def t4t_run_append)
  moreover have "nlen s3 \<noteq> 0" using n3 n16 nz by auto
  then have "0 < nlen s3" by (simp add: word_gt_0)
  moreover have "take (2 + length ?m) (t4t_file s3) = ?l @ ?m" by (simp add: f3)
  ultimately show ?thesis using s3(2,6) s2(6,8) s1'(2) tb n3
    by (rule_tac exI [of _ s3], rule_tac exI [of _ b]) simp
qed

end
