(* ===== verification/CeT4tReach.thy ===== *)
theory CeT4tReach
  imports CeT4tFile NdefModel
begin

unbundle bit_operations_syntax

text \<open>
  The Type 4 Tag emulation over its life: the states that the client's configuration calls and the
  reader's commands lead to, in any order, from the zeroed control block. The client promises that its
  buffers have the sizes it gives and that it does not deregister an application while that one is
  selected; what happens when it does is shown at the end, with what else a reader can provoke.
\<close>

section \<open>The configuration keeps the invariant\<close>

definition t4t_init :: ce_t4t where
  "t4t_init = \<lparr>cc_file = replicate 15 0, p_ndef_msg = None, nlen = 0, max_file_size = 0, p_scratch_buf = None, t4_status = 0,
     p_wildcard_aid_cback = False, reg_aid = replicate CE_T4T_MAX_REG_AID \<lparr>ra_aid_len = 0, ra_aid = replicate 16 0, ra_cback = False\<rparr>,
     selected_aid_idx = 0, t4_timer = False, ce_p_cback = False, ce_static_rf_cback = False, ce_link = False,
     ce_sent = [], ce_events = [], ce_freed = 0\<rparr>"

text \<open>What a caller of \<^verbatim>\<open>CE_T4tSetLocalNDEFMsg\<close> promises of its buffers.\<close>

definition ndef_buffers_ok :: "u16 \<Rightarrow> u16 \<Rightarrow> mem option \<Rightarrow> mem option \<Rightarrow> bool" where
  "ndef_buffers_ok mx len msg scratch \<longleftrightarrow> (\<forall>m. msg = Some m \<longrightarrow>
     (case scratch of None \<Rightarrow> unat mx \<le> length m
      | Some b \<Rightarrow> unat mx \<le> length b \<and> unat len \<le> length m \<and> unat len \<le> length b))"

lemma init_ok: "t4t_ok t4t_init"
  by (simp add: t4t_ok_def t4t_init_def flag_def)

lemma unat_add_le: "unat (a + b) \<le> unat a + unat (b :: 'a::len word)"
  by (simp add: unat_word_ariths)

lemma set_local_ok:
  assumes "t4t_ok s" "ndef_buffers_ok mx len msg scratch"
  shows "\<exists>r s'. CE_T4tSetLocalNDEFMsg ro mx len msg scratch s = Some (r, s') \<and> t4t_ok s'"
proof (cases msg)
  case None
  then show ?thesis using assms(1) by (simp add: CE_T4tSetLocalNDEFMsg_def t4t_ok_def)
next
  case (Some m)
  have lc: "length (t4t_init_cc ro mx) = 15" by (simp add: t4t_init_cc_def)
  have "0 + length (t4t_init_cc ro mx) \<le> length (cc_file s)" unfolding lc using assms(1) by (simp add: t4t_ok_def)
  then obtain cc where cc: "wr_bytes (cc_file s) 0 (t4t_init_cc ro mx) = Some cc" using wr_bytes_ex by blast
  then have lcc: "length cc = 15" using wr_bytes_length [OF cc] assms(1) by (simp add: t4t_ok_def)
  have m2: "unat (mx + 2) \<le> unat mx + 2" using unat_add_le [of mx 2] by simp
  show ?thesis
  proof (cases scratch)
    case None
    then have "unat (mx + 2) \<le> length m + 2" using m2 assms(2) Some by (simp add: ndef_buffers_ok_def)
    then show ?thesis using Some None cc lcc assms(1) by (auto simp: CE_T4tSetLocalNDEFMsg_def t4t_ok_def Let_def)
  next
    case sc: (Some b)
    have "unat len \<le> length m" "unat len \<le> length b" "unat mx \<le> length b" using assms(2) Some sc by (simp_all add: ndef_buffers_ok_def)
    moreover from this obtain b' where b': "wr_bytes b 0 (take (unat len) m) = Some b'" using wr_bytes_ex [of 0 "take (unat len) m" b] by auto
    ultimately have "unat (mx + 2) \<le> length b' + 2" "rd_bytes m 0 (unat len) = Some (take (unat len) m)"
      using m2 wr_bytes_length [OF b'] rd_bytes_in [of 0 "unat len" m] by simp_all
    then show ?thesis using Some sc cc lcc b' assms(1) by (auto simp: CE_T4tSetLocalNDEFMsg_def t4t_ok_def Let_def)
  qed
qed

lemma free_slot_le: "free_aid_slot rs i \<le> i + length rs"
  by (induction rs i rule: free_aid_slot.induct) auto

lemma upd_reg_ok:
  assumes "t4t_ok s" "length (ra_aid r) = 16" "ra_aid_len r > 0 \<longrightarrow> ra_cback r" "\<not> (flag REG_AID_SELECTED s \<and> selected_aid_idx s = h) \<or> ra_cback r"
  shows "t4t_ok (s\<lparr>reg_aid := (reg_aid s)[h := r]\<rparr>)"
proof -
  have "\<forall>x \<in> set ((reg_aid s)[h := r]). length (ra_aid x) = 16 \<and> (ra_aid_len x > 0 \<longrightarrow> ra_cback x)"
    using set_update_subset_insert [of "reg_aid s" h r] assms(1-3) by (auto simp: t4t_ok_def)
  moreover have "flag REG_AID_SELECTED s \<and> selected_aid_idx s < 4 \<longrightarrow> ra_cback ((reg_aid s)[h := r] ! selected_aid_idx s)"
    using assms(1,4) by (cases "h = selected_aid_idx s") (auto simp: t4t_ok_def)
  ultimately show ?thesis using assms(1) by (simp add: t4t_ok_def)
qed

lemma register_ok:
  assumes "t4t_ok s"
  shows "\<exists>r s'. CE_T4tRegisterAID aid cb s = Some (r, s') \<and> t4t_ok s'"
proof -
  define xx where "xx = free_aid_slot (reg_aid s) 0"
  consider "aid = []" | "aid \<noteq> []" "length aid > 16 \<or> \<not> cb \<or> aid_registered (reg_aid s) aid \<or> xx \<ge> 4"
    | "aid \<noteq> []" "length aid \<le> 16" cb "\<not> aid_registered (reg_aid s) aid" "xx < 4" by linarith
  then show ?thesis
  proof cases
    case 1
    then show ?thesis using assms by (auto simp: CE_T4tRegisterAID_def t4t_ok_def)
  next
    case 2
    then show ?thesis using assms by (auto simp: CE_T4tRegisterAID_def xx_def)
  next
    case 3
    have xl: "xx < length (reg_aid s)" using 3(5) assms by (simp add: t4t_ok_def)
    then have "length (ra_aid (reg_aid s ! xx)) = 16" using assms by (auto simp: t4t_ok_def)
    then obtain a where a: "wr_bytes (ra_aid (reg_aid s ! xx)) 0 aid = Some a" "length a = 16"
      using wr_bytes_ex [of 0 aid "ra_aid (reg_aid s ! xx)"] wr_bytes_length 3(2) by fastforce
    let ?s = "s\<lparr>reg_aid := (reg_aid s)[xx := \<lparr>ra_aid_len = of_nat (length aid), ra_aid = a, ra_cback = True\<rparr>]\<rparr>"
    have "t4t_ok ?s" using assms a(2) by (intro upd_reg_ok) auto
    then show ?thesis using 3 a(1) by (simp add: CE_T4tRegisterAID_def xx_def Let_def)
  qed
qed

lemma deregister_ok:
  assumes ok: "t4t_ok s" and sel: "\<not> (flag REG_AID_SELECTED s \<and> selected_aid_idx s = h)"
    "h = CE_T4T_MAX_REG_AID \<Longrightarrow> \<not> flag WILDCARD_AID_SELECTED s"
  shows "t4t_ok (CE_T4tDeregisterAID h s)"
proof (cases "h < CE_T4T_MAX_REG_AID")
  case True
  then have "length (ra_aid (reg_aid s ! h)) = 16" using ok by (auto simp: t4t_ok_def)
  then show ?thesis using True ok sel(1) by (auto simp: CE_T4tDeregisterAID_def intro!: upd_reg_ok)
next
  case False
  then show ?thesis using ok sel(2) by (cases "h = 4") (simp_all add: CE_T4tDeregisterAID_def t4t_ok_def)
qed

section \<open>Reachable states\<close>

inductive t4t_reach :: "ce_t4t \<Rightarrow> bool" where
  init: "t4t_reach t4t_init"
| data: "t4t_reach s \<Longrightarrow> ce_t4t_data_cback ev s = Some s' \<Longrightarrow> t4t_reach s'"
| timeout: "t4t_reach s \<Longrightarrow> t4t_reach (ce_t4t_process_timeout e s)"
| select: "t4t_reach s \<Longrightarrow> t4t_reach (snd (ce_select_t4t s))"
| link: "t4t_reach s \<Longrightarrow> t4t_reach (s\<lparr>ce_link := l\<rparr>)"
| cback: "t4t_reach s \<Longrightarrow> t4t_reach (s\<lparr>ce_p_cback := c\<rparr>)"
| set_local: "t4t_reach s \<Longrightarrow> ndef_buffers_ok mx len msg scratch \<Longrightarrow>
    CE_T4tSetLocalNDEFMsg ro mx len msg scratch s = Some (r, s') \<Longrightarrow> t4t_reach s'"
| register: "t4t_reach s \<Longrightarrow> CE_T4tRegisterAID aid cb s = Some (r, s') \<Longrightarrow> t4t_reach s'"
| deregister: "t4t_reach s \<Longrightarrow> \<not> (flag REG_AID_SELECTED s \<and> selected_aid_idx s = h) \<Longrightarrow>
    (h = CE_T4T_MAX_REG_AID \<Longrightarrow> \<not> flag WILDCARD_AID_SELECTED s) \<Longrightarrow> t4t_reach (CE_T4tDeregisterAID h s)"

lemma flag_select: "flag f (snd (ce_select_t4t s)) \<longleftrightarrow> t4_status s AND (NDEF_FILE_READ_ONLY AND f) \<noteq> 0"
  by (simp add: flag_def ce_select_t4t_def and.assoc)

lemma step_ok:
  "t4t_ok s \<Longrightarrow> t4t_ok (ce_t4t_process_timeout e s)" "t4t_ok s \<Longrightarrow> t4t_ok (snd (ce_select_t4t s))"
  "t4t_ok s \<Longrightarrow> t4t_ok (s\<lparr>ce_link := l\<rparr>)" "t4t_ok s \<Longrightarrow> t4t_ok (s\<lparr>ce_p_cback := c\<rparr>)"
  subgoal by (simp add: ce_t4t_process_timeout_def)
  subgoal by (simp add: t4t_ok_def flag_select flag_def) (simp add: ce_select_t4t_def and.assoc)
  by (simp_all add: t4t_ok_def flag_def)

lemma reach_ok: "t4t_reach s \<Longrightarrow> t4t_ok s"
proof (induction rule: t4t_reach.induct)
  case (data s ev s')
  then show ?case using data_ok [of s ev] by auto
next
  case (set_local s mx len msg scratch ro r s')
  then show ?case using set_local_ok [of s mx len msg scratch ro] by auto
next
  case (register s aid cb r s')
  then show ?case using register_ok [of s aid cb] by auto
qed (auto intro: init_ok step_ok deregister_ok)


text \<open>A reader cannot change a read-only file: no sequence of commands changes the file or the access right.\<close>

theorem t4t_read_only:
  assumes "t4t_reach s" "flag NDEF_FILE_READ_ONLY s"
  shows "\<exists>s'. t4t_run apdus s = Some s' \<and> t4t_file s' = t4t_file s \<and> flag NDEF_FILE_READ_ONLY s'"
  using assms
proof (induction apdus arbitrary: s)
  case (Cons a apdus)
  obtain s1 where s1: "ce_t4t_data_cback (NFC_DATA_CEVT (Some a)) s = Some s1" "ro_kept s s1"
    using data_ok [OF reach_ok [OF Cons.prems(1)], of "NFC_DATA_CEVT (Some a)"] by blast
  then have "flag NDEF_FILE_READ_ONLY s1" "t4t_file s1 = t4t_file s" using Cons.prems(2) by (auto simp: ro_kept_def)
  then show ?case using Cons.IH [OF t4t_reach.data [OF Cons.prems(1) s1(1)]] s1(1) by auto
qed simp

section \<open>An example tag\<close>

text \<open>A writable tag with room for eight bytes, holding two records of which the second is cut short; a reader has
  selected the application and the NDEF file.\<close>

definition ex_ndef :: mem where "ex_ndef = [0x91, 1, 1, 0x54, 0x61, 0x11, 1, 1]"

definition SELECT_APP :: "mem \<Rightarrow> mem" where
  "SELECT_APP aid = [0x00, 0xA4, 0x04, 0x00, of_nat (length aid)] @ aid"

definition SELECT_FILE :: "u16 \<Rightarrow> mem" where
  "SELECT_FILE fid = [0x00, 0xA4, 0x00, 0x0C, 0x02] @ be16_bytes fid"

definition ex_conf :: "bool \<Rightarrow> ce_t4t" where
  "ex_conf ro = (snd (ce_select_t4t (snd (the (CE_T4tSetLocalNDEFMsg ro 8 8 (Some ex_ndef) (Some (replicate 8 0)) t4t_init)))))\<lparr>ce_link := True, ce_p_cback := True\<rparr>"

definition ex_tag :: ce_t4t where
  "ex_tag = the (t4t_run [SELECT_APP [0xD2, 0x76, 0x00, 0x00, 0x85, 0x01, 0x01], SELECT_FILE 0x1000] (ex_conf False))"

lemma run_reach: "t4t_reach s \<Longrightarrow> t4t_run as s = Some s' \<Longrightarrow> t4t_reach s'"
proof (induction as arbitrary: s)
  case (Cons a as)
  then show ?case by (cases "ce_t4t_data_cback (NFC_DATA_CEVT (Some a)) s") (auto intro: t4t_reach.data)
qed simp

lemma ex_conf_reach: "t4t_reach (ex_conf ro)"
proof -
  have "ndef_buffers_ok 8 8 (Some ex_ndef) (Some (replicate 8 0))" by (simp add: ndef_buffers_ok_def ex_ndef_def)
  moreover obtain r s' where "CE_T4tSetLocalNDEFMsg ro 8 8 (Some ex_ndef) (Some (replicate 8 0)) t4t_init = Some (r, s')"
    using set_local_ok [OF init_ok calculation] by blast
  ultimately show ?thesis unfolding ex_conf_def
    by (auto intro!: t4t_reach.link t4t_reach.cback t4t_reach.select intro: t4t_reach.set_local [OF t4t_reach.init])
qed

lemma ex_tag_reach: "t4t_reach ex_tag"
proof -
  let ?r = "t4t_run [SELECT_APP [0xD2, 0x76, 0x00, 0x00, 0x85, 0x01, 0x01], SELECT_FILE 0x1000] (ex_conf False)"
  have "?r \<noteq> None" by code_simp
  then obtain s where "?r = Some s" by blast
  then show ?thesis using run_reach [OF ex_conf_reach] unfolding ex_tag_def by (metis option.sel)
qed

lemma ex_tag_facts: "flag T4T_APP_SELECTED ex_tag" "flag NDEF_SELECTED ex_tag" "\<not> flag REG_AID_SELECTED ex_tag"
     "\<not> flag WILDCARD_AID_SELECTED ex_tag" "ce_link ex_tag" "max_file_size ex_tag = 10" "t4t_buf ex_tag \<noteq> None"
     "\<not> flag NDEF_FILE_READ_ONLY ex_tag" "\<not> flag NDEF_FILE_UPDATING ex_tag" "ce_p_cback ex_tag" "t4t_file ex_tag = [0, 8] @ ex_ndef"
   "ce_sent ex_tag = [[0x90, 0], [0x90, 0]]" "ce_events ex_tag = []"
  by code_simp+

lemma ex_tag_open: "ndef_open ex_tag"
  using reach_ok [OF ex_tag_reach] ex_tag_facts by (simp add: ndef_open_def)

theorem ce_t4t_data_cback_safe_witness:
  "\<exists>s'. ce_t4t_data_cback (NFC_DATA_CEVT (Some [0x00, 0xB0, 0xFF, 0xFF, 0xFF])) ex_tag = Some s' \<and> owned s' = owned ex_tag + 1"
  using ce_t4t_data_cback_safe [OF reach_ok [OF ex_tag_reach], of "NFC_DATA_CEVT (Some [0x00, 0xB0, 0xFF, 0xFF, 0xFF])"] by auto

theorem ce_t4t_read_ok_witness:
  "\<exists>s'. ce_t4t_data_cback (NFC_DATA_CEVT (Some (READ_BINARY 1 4))) ex_tag = Some s' \<and>
     ce_sent s' = ce_sent ex_tag @ [[8, 0x91, 1, 1, 0x90, 0x00]]"
  using ce_t4t_read_ok [OF ex_tag_open, of 1 4] by (auto simp: ex_tag_facts ex_ndef_def)

theorem ce_t4t_write_ok_witness:
  "\<exists>s' b. t4t_run (ndef_write [[0xD1], [0, 0]]) ex_tag = Some s' \<and> take 5 (t4t_file s') = [0, 3, 0xD1, 0, 0] \<and>
     ce_events s' = [CE_T4T_NDEF_UPDATE_START_EVT, CE_T4T_NDEF_UPDATE_CPLT_EVT 3 b] \<and> take 3 b = [0xD1, 0, 0]"
  using ce_t4t_write_ok [OF ex_tag_open, of "[[0xD1], [0, 0]]"]
  by (auto simp: ex_tag_facts be16_bytes_def) (simp add: numeral_3_eq_3)


theorem t4t_read_only_witness:
  "\<exists>s'. t4t_run [SELECT_APP [0xD2, 0x76, 0x00, 0x00, 0x85, 0x01, 0x01], SELECT_FILE 0x1000, UPDATE_BINARY 0 [0, 0]] (ex_conf True) = Some s' \<and>
     t4t_file s' = [0, 8] @ ex_ndef"
proof -
  have "flag NDEF_FILE_READ_ONLY (ex_conf True)" "t4t_file (ex_conf True) = [0, 8] @ ex_ndef" by code_simp+
  then show ?thesis
    using t4t_read_only [OF ex_conf_reach, of True "[SELECT_APP [0xD2, 0x76, 0x00, 0x00, 0x85, 0x01, 0x01], SELECT_FILE 0x1000, UPDATE_BINARY 0 [0, 0]]"]
    by auto
qed

section \<open>What a reader and a client can provoke\<close>

text \<open>The length that a reader writes is not compared with the size of the file: with one update command a reader makes
  the emulation report a complete message of 20 bytes in a buffer of eight, and the check that the
  card emulation module then runs on it (\<^verbatim>\<open>NDEF_MsgValidate\<close> in \<^verbatim>\<open>nfa_ce_act.cc\<close>) reads past the buffer.\<close>

theorem t4t_nlen_unchecked:
  "\<exists>s' n b. t4t_run [UPDATE_BINARY 0 [0, 20]] ex_tag = Some s' \<and> ce_events s' = [CE_T4T_NDEF_UPDATE_CPLT_EVT n b] \<and>
     unat n = 20 \<and> length b = 8 \<and> NDEF_MsgValidate (Some b) (ucast n) True = None"
proof -
  have "(case t4t_run [UPDATE_BINARY 0 [0, 20]] ex_tag of
      Some s' \<Rightarrow> ce_events s' = [CE_T4T_NDEF_UPDATE_CPLT_EVT 20 ex_ndef] | None \<Rightarrow> False)" by code_simp
  moreover have "NDEF_MsgValidate (Some ex_ndef) (ucast (20 :: u16)) True = None" by code_simp
  ultimately show ?thesis by (auto simp: ex_ndef_def split: option.splits)
qed

text \<open>Deregistering the application that is selected leaves the selection in place: the next command of the reader
  is forwarded through the null callback.\<close>

theorem t4t_deregister_selected:
  "(case CE_T4tRegisterAID [1, 2, 3, 4, 5] True t4t_init of None \<Rightarrow> False
    | Some (h, s) \<Rightarrow> (case t4t_run [SELECT_APP [1, 2, 3, 4, 5]] s of None \<Rightarrow> False
      | Some s' \<Rightarrow> h = 0 \<and> t4t_run [[0x00, 0xB0, 0x00, 0x00, 0x02]] s' \<noteq> None \<and>
          t4t_run [[0x00, 0xB0, 0x00, 0x00, 0x02]] (CE_T4tDeregisterAID (unat h) s') = None))"
  by code_simp

text \<open>A failed selection by name does not keep the current selection, although the comment says so: the index of
  the selected application is overwritten, and the commands that follow are answered with an error
  instead of being forwarded.\<close>

theorem t4t_failed_select_deselects:
  "(case CE_T4tRegisterAID [1, 2, 3, 4, 5] True (t4t_init\<lparr>ce_link := True\<rparr>) of None \<Rightarrow> False
    | Some (h, s) \<Rightarrow> (case t4t_run [SELECT_APP [1, 2, 3, 4, 5], SELECT_APP [9, 9, 9, 9, 9], [0x00, 0xB0, 0x00, 0x00, 0x02]] s of None \<Rightarrow> False
      | Some s' \<Rightarrow> raw_frames s' = 1 \<and> ce_sent s' = [[0x6A, 0x82], [0x6A, 0x82]] \<and> flag REG_AID_SELECTED s'))"
  by code_simp

end
