(* ===== verification/RingBuffer.thy ===== *)
theory RingBuffer
  imports FifoSpec
begin

text \<open>
  The byte ring buffer of \<^verbatim>\<open>utils/ringbuffer.cc\<close>. The pointers \<open>head\<close> and \<open>tail\<close> are offsets into the
  allocation \<open>base\<close>; sizes are natural numbers, with the one sum of the code that could leave \<^verbatim>\<open>size_t\<close>
  reduced modulo 2 to the 64. \<open>None\<close> is an access outside an allocation or a failed assertion. The
  abstraction \<open>rb_rep\<close> relates a buffer to the list of the bytes in it; on single bytes it is a
  \<open>fifo\<close>.
\<close>

record ringbuffer_t =
  rb_total :: nat
  rb_available :: nat
  rb_base :: mem
  rb_head :: nat
  rb_tail :: nat

text \<open>The arguments \<open>p_ok\<close> and \<open>base_ok\<close> say whether the two calls of \<^verbatim>\<open>calloc\<close> succeed; the code does
  not look at the result of the second, and every access through the null pointer is outside the
  empty allocation.\<close>

definition ringbuffer_init :: "bool \<Rightarrow> bool \<Rightarrow> nat \<Rightarrow> ringbuffer_t option" where
  "ringbuffer_init p_ok base_ok sz =
    (if sz = 0 then None
     else if \<not> p_ok then None
     else Some \<lparr> rb_total = sz, rb_available = sz, rb_base = (if base_ok then replicate sz 0 else []),
                 rb_head = 0, rb_tail = 0 \<rparr>)"

definition ringbuffer_available :: "ringbuffer_t \<Rightarrow> nat" where
  "ringbuffer_available rb = rb_available rb"

definition ringbuffer_size :: "ringbuffer_t \<Rightarrow> nat" where
  "ringbuffer_size rb = rb_total rb - rb_available rb"

fun rb_store_loop :: "nat \<Rightarrow> mem \<Rightarrow> nat \<Rightarrow> u8 list \<Rightarrow> (mem \<times> nat) option" where
  "rb_store_loop n m t [] = Some (m, t)"
| "rb_store_loop n m t (b # bs) = do {
     m' \<leftarrow> wr8 m t b;
     rb_store_loop n m' (if n \<le> t + 1 then 0 else t + 1) bs }"

definition ringbuffer_insert :: "ringbuffer_t \<Rightarrow> mem \<Rightarrow> nat \<Rightarrow> (nat \<times> ringbuffer_t) option" where
  "ringbuffer_insert rb p len = do {
     let len = (if ringbuffer_available rb < len then ringbuffer_available rb else len);
     bs \<leftarrow> rd_bytes p 0 len;
     (m, t) \<leftarrow> rb_store_loop (rb_total rb) (rb_base rb) (rb_tail rb) bs;
     Some (len, rb \<lparr> rb_base := m, rb_tail := t, rb_available := rb_available rb - len \<rparr>) }"

definition ringbuffer_delete :: "ringbuffer_t \<Rightarrow> nat \<Rightarrow> nat \<times> ringbuffer_t" where
  "ringbuffer_delete rb len =
    (let len = (if ringbuffer_size rb < len then ringbuffer_size rb else len);
         h = rb_head rb + len
     in (len, rb \<lparr> rb_head := (if rb_total rb \<le> h then h - rb_total rb else h),
                   rb_available := rb_available rb + len \<rparr>))"

fun rb_load_loop :: "nat \<Rightarrow> mem \<Rightarrow> nat \<Rightarrow> nat \<Rightarrow> u8 list option" where
  "rb_load_loop n m b 0 = Some []"
| "rb_load_loop n m b (Suc k) = do {
     x \<leftarrow> rd8 m b;
     xs \<leftarrow> rb_load_loop n m (if n \<le> b + 1 then 0 else b + 1) k;
     Some (x # xs) }"

text \<open>The bytes stored through the destination pointer are the result; their number is the return
  value.\<close>

definition ringbuffer_peek :: "ringbuffer_t \<Rightarrow> int \<Rightarrow> nat \<Rightarrow> u8 list option" where
  "ringbuffer_peek rb offset len =
    (if offset < 0 then None
     else if ringbuffer_size rb < nat offset then None
     else let b = (rb_head rb + nat offset) mod rb_total rb;
              bytes_to_copy = (if ringbuffer_size rb < (nat offset + len) mod 2 ^ 64
                               then ringbuffer_size rb - nat offset else len)
          in rb_load_loop (rb_total rb) (rb_base rb) b bytes_to_copy)"

definition ringbuffer_pop :: "ringbuffer_t \<Rightarrow> nat \<Rightarrow> (u8 list \<times> ringbuffer_t) option" where
  "ringbuffer_pop rb len = do {
     bs \<leftarrow> ringbuffer_peek rb 0 len;
     let h = rb_head rb + length bs;
     Some (bs, rb \<lparr> rb_head := (if rb_total rb \<le> h then h - rb_total rb else h),
                    rb_available := rb_available rb + length bs \<rparr>) }"

section \<open>Abstraction\<close>

definition rb_rep :: "ringbuffer_t \<Rightarrow> u8 list \<Rightarrow> bool" where
  "rb_rep rb xs \<longleftrightarrow> 0 < rb_total rb \<and> length (rb_base rb) = rb_total rb \<and> rb_head rb < rb_total rb \<and>
     length xs \<le> rb_total rb \<and> rb_total rb < 2 ^ 63 \<and> rb_available rb = rb_total rb - length xs \<and>
     rb_tail rb = (rb_head rb + length xs) mod rb_total rb \<and>
     (\<forall>i<length xs. rb_base rb ! ((rb_head rb + i) mod rb_total rb) = xs ! i)"

lemma wrap_step: "(t::nat) < n \<Longrightarrow> (if n \<le> t + 1 then 0 else t + 1) = (t + 1) mod n"
  by (cases "t + 1 = n") auto

lemma wrap_add: "h < n \<Longrightarrow> k \<le> n \<Longrightarrow> (if n \<le> h + k then h + k - n else h + k) = (h + k) mod (n::nat)"
  by (auto simp: mod_if)

lemma window_inj: "i < n \<Longrightarrow> j < n \<Longrightarrow> (h + i) mod n = (h + j) mod n \<Longrightarrow> i = (j::nat)"
proof (induction i j rule: linorder_wlog)
  case (le i j)
  then have "n dvd (h + j) - (h + i)" using mod_eq_dvd_iff_nat [of "h + i" "h + j" n] by simp
  then show ?case using le by (auto dest: dvd_imp_le)
qed (metis)

lemma store_loop_spec:
  assumes "length m = n" "t < n" "length bs \<le> n"
  shows "\<exists>m'. rb_store_loop n m t bs = Some (m', (t + length bs) mod n) \<and> length m' = n \<and>
    (\<forall>i<length bs. m' ! ((t + i) mod n) = bs ! i) \<and>
    (\<forall>p<n. (\<forall>i<length bs. p \<noteq> (t + i) mod n) \<longrightarrow> m' ! p = m ! p)"
  using assms
proof (induction bs arbitrary: m t)
  case (Cons b bs)
  let ?t = "(t + 1) mod n"
  have w: "wr8 m t b = Some (m[t := b])" using Cons.prems by (simp add: wr8_def)
  have next_t: "?t < n" "(?t + i) mod n = (t + Suc i) mod n" for i
    using Cons.prems by (simp_all add: mod_add_left_eq)
  obtain m' where m': "rb_store_loop n (m[t := b]) ?t bs = Some (m', (?t + length bs) mod n)" "length m' = n"
    "\<forall>i<length bs. m' ! ((?t + i) mod n) = bs ! i"
    "\<forall>p<n. (\<forall>i<length bs. p \<noteq> (?t + i) mod n) \<longrightarrow> m' ! p = m[t := b] ! p"
    using Cons.IH [of "m[t := b]" ?t] Cons.prems next_t by auto
  have fresh: "t \<noteq> (t + Suc i) mod n" if "i < length bs" for i
    using window_inj [of "Suc i" n 0 t] that Cons.prems by auto
  have "m' ! t = b" using m'(4) fresh next_t Cons.prems by simp
  then have "\<forall>i<length (b # bs). m' ! ((t + i) mod n) = (b # bs) ! i"
    using m'(3) next_t Cons.prems by (auto simp: less_Suc_eq_0_disj)
  moreover have "m' ! p = m ! p" if p: "p < n" "\<forall>i<length (b # bs). p \<noteq> (t + i) mod n" for p
  proof -
    have "p \<noteq> t" using p(2) [rule_format, of 0] Cons.prems by simp
    moreover have "p \<noteq> (?t + i) mod n" if "i < length bs" for i
      using p(2) [rule_format, of "Suc i"] that next_t by simp
    ultimately show ?thesis using m'(4) p(1) by simp
  qed
  ultimately show ?case using m' next_t w Cons.prems(2) by (simp add: wrap_step [simplified])
qed simp

lemma load_loop_spec:
  assumes "length m = n" "b < n" "\<forall>i<k. m ! ((b + i) mod n) = xs ! i" "k \<le> length xs"
  shows "rb_load_loop n m b k = Some (take k xs)"
  using assms
proof (induction k arbitrary: b xs)
  case (Suc k)
  obtain x xs' where xs: "xs = x # xs'" using Suc.prems(4) by (cases xs) auto
  have "rd8 m b = Some x" using Suc.prems(1,2) Suc.prems(3) [rule_format, of 0] by (simp add: rd8_def xs)
  moreover have "rb_load_loop n m ((b + 1) mod n) k = Some (take k xs')"
  proof (rule Suc.IH)
    show "\<forall>i<k. m ! (((b + 1) mod n + i) mod n) = xs' ! i"
      using Suc.prems(3) xs by (auto simp: mod_add_left_eq dest: spec [where x = "Suc _"])
  qed (use Suc.prems xs in auto)
  ultimately show ?case using Suc.prems(2) xs by (simp add: wrap_step [simplified])
qed simp

section \<open>Refinement of byte lists\<close>

lemma init_rep: "0 < sz \<Longrightarrow> sz < 2 ^ 63 \<Longrightarrow> \<exists>rb. ringbuffer_init True True sz = Some rb \<and> rb_rep rb [] \<and> rb_total rb = sz"
  by (simp add: ringbuffer_init_def rb_rep_def)

lemma rep_size: "rb_rep rb xs \<Longrightarrow> ringbuffer_size rb = length xs"
  by (simp add: rb_rep_def ringbuffer_size_def)

lemma rep_available: "rb_rep rb xs \<Longrightarrow> ringbuffer_available rb = rb_total rb - length xs"
  by (simp add: rb_rep_def ringbuffer_available_def)

lemma insert_rep:
  assumes r: "rb_rep rb xs" and len: "len \<le> length p"
  shows "\<exists>rb'. ringbuffer_insert rb p len = Some (min len (rb_total rb - length xs), rb') \<and>
    rb_rep rb' (xs @ take (min len (rb_total rb - length xs)) p) \<and> rb_total rb' = rb_total rb"
proof -
  let ?n = "rb_total rb" and ?k = "min len (rb_total rb - length xs)"
  let ?bs = "take ?k p"
  have bs: "rd_bytes p 0 ?k = Some ?bs" "length ?bs = ?k" using len by (auto simp: rd_bytes_def)
  have k: "(if ringbuffer_available rb < len then ringbuffer_available rb else len) = ?k"
    using rep_available [OF r] by auto
  have fit: "?k \<le> ?n" "length (rb_base rb) = ?n" "rb_tail rb < ?n" using r by (auto simp: rb_rep_def)
  obtain m where m: "rb_store_loop ?n (rb_base rb) (rb_tail rb) ?bs = Some (m, (rb_tail rb + ?k) mod ?n)"
    "length m = ?n" "\<forall>i<?k. m ! ((rb_tail rb + i) mod ?n) = ?bs ! i"
    "\<forall>q<?n. (\<forall>i<?k. q \<noteq> (rb_tail rb + i) mod ?n) \<longrightarrow> m ! q = rb_base rb ! q"
    using store_loop_spec [of "rb_base rb" ?n "rb_tail rb" ?bs, unfolded bs(2), OF fit(2,3,1)] by blast
  have tail: "(rb_tail rb + i) mod ?n = (rb_head rb + (length xs + i)) mod ?n" for i
    using r by (simp add: rb_rep_def mod_add_left_eq add.assoc)
  have body: "m ! ((rb_head rb + i) mod ?n) = (xs @ ?bs) ! i" if i: "i < length xs + ?k" for i
  proof (cases "i < length xs")
    case True
    have "(rb_head rb + i) mod ?n \<noteq> (rb_tail rb + j) mod ?n" if j: "j < ?k" for j
    proof -
      have "length xs + j < ?n" using j by linarith
      then show ?thesis using window_inj [of i ?n "length xs + j" "rb_head rb"] True by (auto simp: tail)
    qed
    then have "m ! ((rb_head rb + i) mod ?n) = rb_base rb ! ((rb_head rb + i) mod ?n)"
      using m(4) r by (auto simp: rb_rep_def)
    then show ?thesis using r True by (simp add: rb_rep_def nth_append)
  next
    case False
    then obtain j where j: "i = length xs + j" "j < ?k" using i by (metis add_less_cancel_left le_Suc_ex not_less)
    then show ?thesis using m(3) by (simp add: nth_append flip: tail)
  qed
  let ?rb = "rb \<lparr> rb_base := m, rb_tail := (rb_tail rb + ?k) mod ?n, rb_available := rb_available rb - ?k \<rparr>"
  have "length (xs @ ?bs) = length xs + ?k" using bs(2) by simp
  then have "rb_rep ?rb (xs @ ?bs)" using r m(2) body tail by (auto simp: rb_rep_def)
  moreover have "ringbuffer_insert rb p len = Some (?k, ?rb)"
    unfolding ringbuffer_insert_def k Let_def bs(1) by (simp add: m(1))
  ultimately show ?thesis by auto
qed

lemma rep_drop:
  assumes r: "rb_rep rb xs" and k: "k \<le> length xs"
  shows "rb_rep (rb \<lparr> rb_head := (if rb_total rb \<le> rb_head rb + k then rb_head rb + k - rb_total rb else rb_head rb + k),
    rb_available := rb_available rb + k \<rparr>) (drop k xs)"
proof -
  let ?n = "rb_total rb" and ?h = "(rb_head rb + k) mod rb_total rb"
  have pos: "0 < ?n" using r by (simp add: rb_rep_def)
  have h: "(if ?n \<le> rb_head rb + k then rb_head rb + k - ?n else rb_head rb + k) = ?h"
    using wrap_add [of "rb_head rb" ?n k] r k by (simp add: rb_rep_def)
  have shift: "(?h + i) mod ?n = (rb_head rb + (k + i)) mod ?n" for i by (simp add: mod_add_left_eq add.assoc)
  have "(rb_head rb + length xs) mod ?n = (?h + (length xs - k)) mod ?n" unfolding shift using k by simp
  moreover have "\<forall>i<length xs - k. rb_base rb ! ((?h + i) mod ?n) = xs ! (k + i)"
    using r k by (simp add: shift rb_rep_def)
  ultimately show ?thesis unfolding h using r k pos by (auto simp: rb_rep_def)
qed

lemma delete_rep:
  assumes r: "rb_rep rb xs"
  shows "\<exists>rb'. ringbuffer_delete rb len = (min len (length xs), rb') \<and> rb_rep rb' (drop len xs) \<and> rb_total rb' = rb_total rb"
proof -
  let ?k = "min len (length xs)"
  have k: "(if ringbuffer_size rb < len then ringbuffer_size rb else len) = ?k" using rep_size [OF r] by auto
  have "drop ?k xs = drop len xs" by (simp add: min_def)
  then show ?thesis using rep_drop [OF r, of ?k] unfolding ringbuffer_delete_def k Let_def by simp
qed

lemma peek_rep:
  assumes r: "rb_rep rb xs" and off: "off \<le> length xs" and len: "len < 2 ^ 63"
  shows "ringbuffer_peek rb (int off) len = Some (take len (drop off xs))"
proof -
  let ?k = "if length xs < off + len then length xs - off else len"
  have m: "(off + len) mod 2 ^ 64 = off + len" using r off len by (simp add: rb_rep_def)
  have "rb_load_loop (rb_total rb) (rb_base rb) ((rb_head rb + off) mod rb_total rb) ?k = Some (take ?k (drop off xs))"
    by (rule load_loop_spec) (use r off in \<open>auto simp: rb_rep_def mod_add_left_eq add.assoc\<close>)
  moreover have "take ?k (drop off xs) = take len (drop off xs)" by auto
  ultimately show ?thesis using off unfolding ringbuffer_peek_def rep_size [OF r] Let_def nat_int m by simp
qed

lemma pop_rep:
  assumes r: "rb_rep rb xs" and len: "len < 2 ^ 63"
  shows "\<exists>rb'. ringbuffer_pop rb len = Some (take len xs, rb') \<and> rb_rep rb' (drop len xs) \<and> rb_total rb' = rb_total rb"
proof -
  have "ringbuffer_peek rb 0 len = Some (take len xs)" using peek_rep [OF r, of 0 len] len by simp
  moreover have "drop (length (take len xs)) xs = drop len xs" by (simp add: min_def)
  ultimately show ?thesis using rep_drop [OF r, of "length (take len xs)"] unfolding ringbuffer_pop_def Let_def by simp
qed

section \<open>The byte queue as a first-in first-out queue\<close>

definition rb_put :: "u8 \<Rightarrow> ringbuffer_t \<Rightarrow> ringbuffer_t option" where
  "rb_put b rb = map_option snd (ringbuffer_insert rb [b] 1)"

definition rb_get :: "ringbuffer_t \<Rightarrow> (u8 option \<times> ringbuffer_t) option" where
  "rb_get rb = map_option (\<lambda>(bs, rb'). (case bs of [] \<Rightarrow> None | b # _ \<Rightarrow> Some b, rb')) (ringbuffer_pop rb 1)"

interpretation rb: fifo rb_rep "\<lambda>bs rb. length bs \<le> rb_available rb" rb_put rb_get
proof
  fix s :: ringbuffer_t and xs as :: "u8 list" and a x :: u8
  show "\<exists>s'. rb_put a s = Some s' \<and> rb_rep s' (xs @ [a]) \<and> length as \<le> rb_available s'"
    if r: "rb_rep s xs" and l: "length (a # as) \<le> rb_available s"
  proof -
    have "min 1 (rb_total s - length xs) = 1" using r l by (simp add: rb_rep_def)
    then obtain s' where s': "ringbuffer_insert s [a] 1 = Some (1, s')" "rb_rep s' (xs @ [a])" "rb_total s' = rb_total s"
      using insert_rep [OF r, of 1 "[a]"] by auto
    moreover have "length as \<le> rb_available s'" using s'(2,3) l r by (simp add: rb_rep_def)
    ultimately show ?thesis by (simp add: rb_put_def)
  qed
  show "\<exists>s'. rb_get s = Some (Some x, s') \<and> rb_rep s' xs" if "rb_rep s (x # xs)"
    using pop_rep [OF that, of 1] by (auto simp: rb_get_def)
  show "rb_get s = Some (None, s)" if r: "rb_rep s []"
    using peek_rep [OF r, of 0 1] r by (simp add: rb_get_def ringbuffer_pop_def rb_rep_def Let_def)
qed

end
