(* ===== verification/NfcSnoop.thy ===== *)
theory NfcSnoop
  imports RingBuffer
begin

text \<open>
  The NCI packet log of \<^verbatim>\<open>adaptation/debug_nfcsnoop.cc\<close>: two ring buffers of framed packets, one
  for the packets of the stack and one for vendor notifications. A frame is the packed structure
  \<^verbatim>\<open>nfcsnooz_header_t\<close> in the little-endian byte order of the targets, followed by the packet. The
  parts that write the log out (compression with zlib, base64, files) are not modelled; where
  \<open>nfcsnoop_capture\<close> calls them, their result is an argument.
\<close>

type_synonym u64 = "64 word"

definition NFCSNOOP_MEM_BUFFER_SIZE :: nat where
  "NFCSNOOP_MEM_BUFFER_SIZE = 262144"

definition NFCSNOOP_MEM_BUFFER_THRESHOLD :: nat where
  "NFCSNOOP_MEM_BUFFER_THRESHOLD = 1024"

definition MICRO_SECOND_THREE_DAYS :: u64 where
  "MICRO_SECOND_THREE_DAYS = 3 * 24 * 60 * 60 * 1000 * 1000"

definition UINT32_MAX :: u64 where
  "UINT32_MAX = 0xFFFFFFFF"

definition EMPTY_NCI :: "nat \<Rightarrow> mem" where
  "EMPTY_NCI i = [0x6F, 0x0C, 0x02, 0x08, if i = 0 then 0x00 else 0x01]"

definition EMPTY_ERR_NCI :: "nat \<Rightarrow> mem" where
  "EMPTY_ERR_NCI i = [0x6F, 0x0C, 0x02, 0x08, if i = 0 then 0xF0 else 0xF1]"

text \<open>The header as it lies in memory.\<close>

definition snooz_header :: "u16 \<Rightarrow> u32 \<Rightarrow> bool \<Rightarrow> mem" where
  "snooz_header len dt rcv =
    [ucast len, ucast (drop_bit 8 len),
     ucast dt, ucast (drop_bit 8 dt), ucast (drop_bit 16 dt), ucast (drop_bit 24 dt),
     if rcv then 1 else 0]"

text \<open>The field \<open>length\<close> of a header of which the bytes \<open>h\<close> have been written; the structure starts
  uninitialised and a read of bytes never written is undefined.\<close>

definition snooz_length :: "mem \<Rightarrow> nat option" where
  "snooz_length h = do { lo \<leftarrow> rd8 h 0; hi \<leftarrow> rd8 h 1; Some (unat lo + 256 * unat hi) }"

record snoop =
  sn_buffers :: "ringbuffer_t option list"
  sn_last :: "u64 list"
  sn_debuggable :: bool
  sn_full :: bool

section \<open>Logging one packet\<close>

text \<open>The loop that removes the oldest frames until the new one fits.\<close>

partial_function (option) snoop_room_loop :: "nat \<Rightarrow> mem \<Rightarrow> ringbuffer_t \<Rightarrow> ringbuffer_t option" where
  "snoop_room_loop need h rb =
    (if ringbuffer_available rb < need then do {
       (bs, rb) \<leftarrow> ringbuffer_pop rb 7;
       let h = bs @ drop (length bs) h;
       len \<leftarrow> snooz_length h;
       snoop_room_loop need h (snd (ringbuffer_delete rb len)) }
     else Some rb)"

text \<open>The part of \<open>nfcsnoop_cb\<close> from "Make room in the ring buffer" on.\<close>

definition snoop_write :: "mem \<Rightarrow> nat \<Rightarrow> bool \<Rightarrow> u64 \<Rightarrow> u64 \<Rightarrow> nat \<Rightarrow> snoop \<Rightarrow> snoop option" where
  "snoop_write data len rcv ts delta i st = do {
     rb \<leftarrow> sn_buffers st ! i;
     rb \<leftarrow> snoop_room_loop (len + 7) [] rb;
     (_, rb) \<leftarrow> ringbuffer_insert rb (snooz_header (of_nat len) (ucast delta) rcv) 7;
     (_, rb) \<leftarrow> ringbuffer_insert rb data len;
     Some (st \<lparr> sn_buffers := (sn_buffers st)[i := Some rb], sn_last := (sn_last st)[i := ts] \<rparr>) }"

text \<open>The loop that fills a gap with blank packets; \<open>cb\<close> is the recursive call.\<close>

partial_function (option) snoop_gap_loop ::
  "(u64 \<Rightarrow> snoop \<Rightarrow> snoop option) \<Rightarrow> u64 \<Rightarrow> nat \<Rightarrow> u64 \<Rightarrow> snoop \<Rightarrow> (u64 \<times> snoop) option" where
  "snoop_gap_loop cb ts i delta st =
    (if UINT32_MAX < delta then do {
       let middle_time = sn_last st ! i + UINT32_MAX;
       st \<leftarrow> cb middle_time st;
       snoop_gap_loop cb ts i (if sn_last st ! i \<noteq> 0 then ts - sn_last st ! i else delta) st }
     else Some (delta, st))"

text \<open>The first argument bounds the depth of the recursion; depth two is shown to be enough.\<close>

fun nfcsnoop_cb :: "nat \<Rightarrow> mem \<Rightarrow> nat \<Rightarrow> bool \<Rightarrow> u64 \<Rightarrow> nat \<Rightarrow> snoop \<Rightarrow> snoop option" where
  "nfcsnoop_cb 0 data len rcv ts i st = None"
| "nfcsnoop_cb (Suc depth) data len rcv ts i st = do {
     let err = ts < sn_last st ! i;
     let delta = (if \<not> err \<and> sn_last st ! i \<noteq> 0 then ts - sn_last st ! i else 0);
     (delta, st) \<leftarrow>
       (if MICRO_SECOND_THREE_DAYS < delta \<or> err then do {
          let st = st \<lparr> sn_last := (sn_last st)[i := ts] \<rparr>;
          st \<leftarrow> nfcsnoop_cb depth (EMPTY_ERR_NCI i) (unat (EMPTY_ERR_NCI i ! 2) + 3) True ts i st;
          Some (0, st) }
        else Some (delta, st));
     (delta, st) \<leftarrow> snoop_gap_loop
       (\<lambda>mt st. nfcsnoop_cb depth (EMPTY_NCI i) (unat (EMPTY_NCI i ! 2) + 3) True mt i st) ts i delta st;
     snoop_write data len rcv ts delta i st }"

section \<open>Capturing a packet\<close>

definition buffers_under_threshold :: "snoop \<Rightarrow> bool option" where
  "buffers_under_threshold st = do {
     rb0 \<leftarrow> sn_buffers st ! 0;
     if ringbuffer_available rb0 < NFCSNOOP_MEM_BUFFER_THRESHOLD then Some True else do {
       rb1 \<leftarrow> sn_buffers st ! 1;
       Some (ringbuffer_available rb1 < NFCSNOOP_MEM_BUFFER_THRESHOLD) } }"

text \<open>What the code asks of its environment: the time, whether the log file could be written, whether
  the structure and the storage of each buffer can be allocated, and the two system properties.\<close>

record snoop_env =
  env_time :: u64
  env_stored :: bool
  env_alloc :: "nat \<Rightarrow> bool \<times> bool"
  env_debuggable :: bool
  env_full :: bool

definition debug_nfcsnoop_init :: "snoop_env \<Rightarrow> snoop \<Rightarrow> snoop" where
  "debug_nfcsnoop_init env st =
    st \<lparr> sn_buffers := map (\<lambda>i. case sn_buffers st ! i of
           None \<Rightarrow> ringbuffer_init (fst (env_alloc env i)) (snd (env_alloc env i)) NFCSNOOP_MEM_BUFFER_SIZE
         | Some rb \<Rightarrow> Some rb) [0, 1],
         sn_debuggable := env_debuggable env, sn_full := env_full env \<rparr>"

text \<open>\<open>p\<close> is the memory of the packet from \<^verbatim>\<open>packet->offset\<close> on and \<open>plen\<close> the field \<^verbatim>\<open>packet->len\<close>.\<close>

definition nfcsnoop_capture :: "snoop_env \<Rightarrow> mem \<Rightarrow> u16 \<Rightarrow> bool \<Rightarrow> snoop \<Rightarrow> snoop option" where
  "nfcsnoop_capture env p plen rcv st = do {
     b0 \<leftarrow> rd8 p 0;
     let mt = drop_bit 5 (b0 AND 0xE0);
     let gid = b0 AND 0x0F;
     st \<leftarrow> (if sn_debuggable st then do {
              low \<leftarrow> buffers_under_threshold st;
              Some (if low \<and> env_stored env
                    then debug_nfcsnoop_init env (st \<lparr> sn_buffers := [None, None] \<rparr>) else st) }
            else Some st);
     if mt = 3 \<and> gid = 0x0F then do {
       l \<leftarrow> rd8 p 2;
       nfcsnoop_cb 2 p (unat l + 3) rcv (env_time env) 1 st }
     else if mt = 0 then do {
       l \<leftarrow> (if sn_full st then rd8 p 2 else Some 0);
       nfcsnoop_cb 2 p (unat l + 3) rcv (env_time env) 0 st }
     else if 2 < plen then do {
       l \<leftarrow> rd8 p 2;
       nfcsnoop_cb 2 p (unat l + 3) rcv (env_time env) 0 st }
     else Some st }"

section \<open>Abstraction: a list of logged packets\<close>

text \<open>A logged packet: its bytes, the time since the previous one and its direction.\<close>

type_synonym snoop_rec = "mem \<times> u32 \<times> bool"

definition frame :: "snoop_rec \<Rightarrow> mem" where
  "frame r = (case r of (d, dt, rcv) \<Rightarrow> snooz_header (of_nat (length d)) dt rcv @ d)"

definition frames :: "snoop_rec list \<Rightarrow> mem" where
  "frames rs = concat (map frame rs)"

definition snoop_rep :: "ringbuffer_t \<Rightarrow> snoop_rec list \<Rightarrow> bool" where
  "snoop_rep rb rs \<longleftrightarrow> rb_rep rb (frames rs) \<and> (\<forall>r\<in>set rs. length (fst r) < 2 ^ 16)"

text \<open>The oldest packets go, and only as many as needed.\<close>

fun make_room :: "nat \<Rightarrow> snoop_rec list \<Rightarrow> snoop_rec list" where
  "make_room k [] = []"
| "make_room k (r # rs) = (if length (frames (r # rs)) \<le> k then r # rs else make_room k rs)"

definition log_one :: "nat \<Rightarrow> snoop_rec list \<Rightarrow> snoop_rec \<Rightarrow> snoop_rec list" where
  "log_one n rs r = make_room (n - length (frame r)) rs @ [r]"

lemma frames_simps [simp]: "frames [] = []" "frames (r # rs) = frame r @ frames rs" "frames (rs @ qs) = frames rs @ frames qs"
  by (simp_all add: frames_def)

lemma length_header [simp]: "length (snooz_header l dt rcv) = 7"
  by (simp add: snooz_header_def)

lemma length_frame: "length (frame r) = 7 + length (fst r)"
  by (simp add: frame_def split: prod.split)

lemma header_length: "snooz_length (snooz_header l dt rcv @ xs) = Some (unat l)"
proof -
  have "unat (ucast l :: u8) = unat l mod 256" using unat_ucast_drop [of 0 l] by simp
  moreover have "unat (ucast (drop_bit 8 l) :: u8) = unat l div 256"
    using unat_ucast_drop [of 8 l] unsigned_less [of l, where 'a = nat] by simp
  ultimately show ?thesis by (simp add: snooz_length_def snooz_header_def rd8_def)
qed

lemma make_room_fits: "length (frames (make_room k rs)) \<le> k"
  by (induction rs) auto

lemma set_make_room: "set (make_room k rs) \<subseteq> set rs"
  by (induction rs) auto

section \<open>The loops return\<close>

lemma frame_split: "take 7 (frame r) = snooz_header (of_nat (length (fst r))) (fst (snd r)) (snd (snd r))" "drop 7 (frame r) = fst r"
  by (simp_all add: frame_def split: prod.split)

lemma room_loop_spec:
  "snoop_rep rb rs \<Longrightarrow> need \<le> rb_total rb \<Longrightarrow> \<exists>rb'. snoop_room_loop need h rb = Some rb' \<and>
    snoop_rep rb' (make_room (rb_total rb - need) rs) \<and> rb_total rb' = rb_total rb"
proof (induction rs arbitrary: rb h)
  case Nil
  then have "\<not> ringbuffer_available rb < need" by (simp add: snoop_rep_def rb_rep_def ringbuffer_available_def)
  then show ?case using Nil by (subst snoop_room_loop.simps) simp
next
  case (Cons r rs)
  have r: "rb_rep rb (frame r @ frames rs)" and small: "length (fst r) < 2 ^ 16" using Cons.prems(1) by (auto simp: snoop_rep_def)
  have test: "ringbuffer_available rb < need \<longleftrightarrow> \<not> length (frames (r # rs)) \<le> rb_total rb - need"
    using r Cons.prems(2) by (auto simp: ringbuffer_available_def rb_rep_def)
  show ?case
  proof (cases "ringbuffer_available rb < need")
    case True
    obtain rb1 where rb1: "ringbuffer_pop rb 7 = Some (take 7 (frame r), rb1)" "rb_rep rb1 (fst r @ frames rs)" "rb_total rb1 = rb_total rb"
      using pop_rep [OF r, of 7] by (auto simp: length_frame frame_split)
    obtain rb2 where rb2: "snd (ringbuffer_delete rb1 (length (fst r))) = rb2" "rb_rep rb2 (frames rs)" "rb_total rb2 = rb_total rb"
      using delete_rep [OF rb1(2), of "length (fst r)"] rb1(3) by auto
    have len: "snooz_length (take 7 (frame r) @ xs) = Some (length (fst r))" for xs
      using small by (simp add: frame_split header_length unat_of_nat)
    have "snoop_room_loop need h rb = snoop_room_loop need (take 7 (frame r) @ drop (length (take 7 (frame r))) h) rb2"
      using True by (subst snoop_room_loop.simps) (simp add: rb1(1) len rb2(1) Let_def del: length_take)
    moreover have "snoop_rep rb2 rs" using rb2(2) Cons.prems(1) by (simp add: snoop_rep_def)
    ultimately show ?thesis using Cons.IH [of rb2] Cons.prems(2) rb2(3) True test by simp
  next
    case False
    then show ?thesis using Cons.prems test by (subst snoop_room_loop.simps) simp
  qed
qed

definition sn_rep :: "snoop \<Rightarrow> nat \<Rightarrow> nat \<Rightarrow> snoop_rec list \<Rightarrow> u64 \<Rightarrow> bool" where
  "sn_rep st i n rs t \<longleftrightarrow> i < length (sn_buffers st) \<and> length (sn_last st) = length (sn_buffers st) \<and>
    sn_last st ! i = t \<and> (\<exists>rb. sn_buffers st ! i = Some rb \<and> rb_total rb = n \<and> snoop_rep rb rs)"

text \<open>Logging to one buffer leaves the rest of the state alone.\<close>

definition sn_only :: "nat \<Rightarrow> snoop \<Rightarrow> snoop \<Rightarrow> bool" where
  "sn_only i st st' \<longleftrightarrow> length (sn_buffers st') = length (sn_buffers st) \<and>
    (\<forall>j. j \<noteq> i \<longrightarrow> sn_buffers st' ! j = sn_buffers st ! j \<and> sn_last st' ! j = sn_last st ! j) \<and>
    sn_debuggable st' = sn_debuggable st \<and> sn_full st' = sn_full st"

lemma sn_only_refl: "sn_only i st st"
  by (simp add: sn_only_def)

lemma sn_only_trans: "sn_only i st st' \<Longrightarrow> sn_only i st' st'' \<Longrightarrow> sn_only i st st''"
  by (simp add: sn_only_def)

lemma write_spec:
  assumes r: "sn_rep st i n rs t" and len: "len + 7 \<le> n" "len < 2 ^ 16" "len \<le> length data"
  shows "\<exists>st'. snoop_write data len rcv ts delta i st = Some st' \<and>
    sn_rep st' i n (log_one n rs (take len data, ucast delta, rcv)) ts \<and> sn_only i st st'"
proof -
  let ?r = "(take len data, ucast delta :: u32, rcv)" and ?h = "snooz_header (of_nat len) (ucast delta) rcv"
  obtain rb where rb: "sn_buffers st ! i = Some rb" "rb_total rb = n" "snoop_rep rb rs" using r by (auto simp: sn_rep_def)
  define rs' where "rs' = make_room (n - (len + 7)) rs"
  obtain rb1 where rb1: "snoop_room_loop (len + 7) [] rb = Some rb1" "rb_rep rb1 (frames rs')" "rb_total rb1 = n"
    using room_loop_spec [OF rb(3), of "len + 7" "[]"] len(1) rb(2) by (auto simp: snoop_rep_def rs'_def)
  have room: "length (frames rs') \<le> n - (len + 7)" unfolding rs'_def by (rule make_room_fits)
  obtain rb2 where rb2: "ringbuffer_insert rb1 ?h 7 = Some (7, rb2)" "rb_rep rb2 (frames rs' @ ?h)" "rb_total rb2 = n"
    using insert_rep [OF rb1(2), of 7 ?h] rb1(3) room len(1) by (auto simp: min_def)
  have fit: "min len (n - length (frames rs' @ ?h)) = len" using room len(1) by (simp add: min_def)
  obtain rb3 where rb3: "ringbuffer_insert rb2 data len = Some (len, rb3)" "rb_rep rb3 ((frames rs' @ ?h) @ take len data)" "rb_total rb3 = n"
    using insert_rep [OF rb2(2) len(3)] unfolding rb2(3) fit by blast
  have fr: "frame ?r = ?h @ take len data" using len(3) by (simp add: frame_def)
  then have "log_one n rs ?r = rs' @ [?r]" using len(3) by (simp add: log_one_def rs'_def length_frame add.commute)
  moreover have "snoop_rep rb3 (rs' @ [?r])"
    using rb3(2) rb(3) set_make_room [of "n - (len + 7)" rs] len(2) by (auto simp: snoop_rep_def fr rs'_def min_def)
  ultimately show ?thesis using r rb(1) rb1(1) rb2(1) rb3(1,3)
    by (simp add: snoop_write_def sn_rep_def sn_only_def)
qed

section \<open>What a call adds to the log\<close>

text \<open>The packets one call appends: an error marker when the clock went back or jumped by more than
  three days, and otherwise as many blank packets as are needed for every time difference to fit in
  32 bits.\<close>

definition snoop_added :: "nat \<Rightarrow> nat \<Rightarrow> nat \<Rightarrow> mem \<Rightarrow> bool \<Rightarrow> snoop_rec list" where
  "snoop_added i t0 t1 d rcv =
    (if t1 < t0 \<or> t0 \<noteq> 0 \<and> 259200000000 < t1 - t0
     then [(EMPTY_ERR_NCI i, 0, True), (d, 0, rcv)]
     else let D = (if t0 = 0 then 0 else t1 - t0); k = (D - 1) div (2 ^ 32 - 1)
          in replicate k (EMPTY_NCI i, of_nat (2 ^ 32 - 1), True) @ [(d, of_nat (D - k * (2 ^ 32 - 1)), rcv)])"

lemma snoop_consts: "unat UINT32_MAX = 2 ^ 32 - 1" "unat MICRO_SECOND_THREE_DAYS = 259200000000"
  by (simp_all add: UINT32_MAX_def MICRO_SECOND_THREE_DAYS_def)

lemma empty_nci [simp]: "unat (EMPTY_NCI i ! 2) = 2" "unat (EMPTY_ERR_NCI i ! 2) = 2"
  "length (EMPTY_NCI i) = 5" "length (EMPTY_ERR_NCI i) = 5"
  by (simp_all add: EMPTY_NCI_def EMPTY_ERR_NCI_def)

lemma gap_loop_done: "unat delta \<le> 2 ^ 32 - 1 \<Longrightarrow> snoop_gap_loop cb ts i delta st = Some (delta, st)"
  using snoop_consts(1) by (subst snoop_gap_loop.simps) (simp add: word_less_nat_alt)

lemma cb_direct:
  assumes "sn_last st ! i = t" "\<not> ts < t" "t = 0 \<or> unat (ts - t) \<le> 2 ^ 32 - 1"
  shows "nfcsnoop_cb (Suc depth) data len rcv ts i st = snoop_write data len rcv ts (if t = 0 then 0 else ts - t) i st"
  using assms gap_loop_done snoop_consts by (auto simp: word_less_nat_alt Let_def)

lemma gap_loop_spec:
  assumes "12 \<le> n" "t \<noteq> 0" "t \<le> ts" "sn_rep st i n rs t" "D = unat (ts - t)" "k = (D - 1) div (2 ^ 32 - 1)"
  shows "\<exists>st'. snoop_gap_loop (\<lambda>mt st. nfcsnoop_cb (Suc d) (EMPTY_NCI i) (unat (EMPTY_NCI i ! 2) + 3) True mt i st) ts i (ts - t) st =
      Some (of_nat (D - k * (2 ^ 32 - 1)), st') \<and> sn_only i st st' \<and>
    (\<exists>t'. sn_rep st' i n (foldl (log_one n) rs (replicate k (EMPTY_NCI i, of_nat (2 ^ 32 - 1), True))) t')"
  using assms
proof (induction D arbitrary: st rs t k rule: less_induct)
  case (less D)
  show ?case
  proof (cases "D \<le> 2 ^ 32 - 1")
    case True
    then have "k = 0" using less.prems(6) by simp
    then show ?thesis using True less.prems gap_loop_done [of "ts - t"] by (auto simp: sn_only_refl)
  next
    case False
    let ?m = "t + UINT32_MAX"
    have D: "D = unat ts - unat t" "unat t \<le> unat ts" using less.prems(3,5) by (simp_all add: unat_sub word_le_nat_alt)
    have m: "unat ?m = unat t + (2 ^ 32 - 1)"
      using snoop_consts(1) D False unsigned_less [of ts, where 'a = nat] by (subst unat_add_lem [THEN iffD1]) auto
    have m0: "?m \<noteq> 0" "?m \<le> ts" "\<not> ?m < t" "unat (?m - t) \<le> 2 ^ 32 - 1" "ucast (?m - t) = (of_nat (2 ^ 32 - 1) :: u32)"
      using m D False snoop_consts(1) by (auto simp: word_le_nat_alt word_less_nat_alt UINT32_MAX_def unat_eq_0 [symmetric])
    obtain st1 where st1: "snoop_write (EMPTY_NCI i) 5 True ?m (?m - t) i st = Some st1"
      "sn_rep st1 i n (log_one n rs (EMPTY_NCI i, of_nat (2 ^ 32 - 1), True)) ?m" "sn_only i st st1"
      using write_spec [OF less.prems(4), of 5 "EMPTY_NCI i" True ?m "?m - t"] less.prems(1) m0(5) by auto
    have last: "sn_last st ! i = t" "sn_last st1 ! i = ?m" using less.prems(4) st1(2) by (auto simp: sn_rep_def)
    have cb: "nfcsnoop_cb (Suc d) (EMPTY_NCI i) (unat (EMPTY_NCI i ! 2) + 3) True ?m i st = Some st1"
      using cb_direct [OF last(1) m0(3)] m0(4) st1(1) less.prems(2) by simp
    have rest: "unat (ts - ?m) = D - (2 ^ 32 - 1)" using m D m0(2) by (simp add: unat_sub)
    define k' where "k' = (unat (ts - ?m) - 1) div (2 ^ 32 - 1)"
    have k: "k = Suc k'" using False unfolding less.prems(6) k'_def rest by (simp add: div_if [of "D - 1"])
    have big: "UINT32_MAX < ts - t" using False less.prems(5) snoop_consts(1) by (simp add: word_less_nat_alt)
    have "unat (ts - ?m) < D" using rest False by simp
    from less.IH [OF this less.prems(1) m0(1,2) st1(2) refl k'_def] obtain st' t' where st':
      "snoop_gap_loop (\<lambda>mt st. nfcsnoop_cb (Suc d) (EMPTY_NCI i) (unat (EMPTY_NCI i ! 2) + 3) True mt i st) ts i (ts - ?m) st1 =
        Some (of_nat (unat (ts - ?m) - k' * (2 ^ 32 - 1)), st')" "sn_only i st1 st'"
      "sn_rep st' i n (foldl (log_one n) (log_one n rs (EMPTY_NCI i, of_nat (2 ^ 32 - 1), True))
         (replicate k' (EMPTY_NCI i, of_nat (2 ^ 32 - 1), True))) t'" by blast
    moreover have "unat (ts - ?m) - k' * (2 ^ 32 - 1) = D - k * (2 ^ 32 - 1)" unfolding rest k by simp
    moreover have "snoop_gap_loop (\<lambda>mt st. nfcsnoop_cb (Suc d) (EMPTY_NCI i) (unat (EMPTY_NCI i ! 2) + 3) True mt i st) ts i (ts - t) st =
      snoop_gap_loop (\<lambda>mt st. nfcsnoop_cb (Suc d) (EMPTY_NCI i) (unat (EMPTY_NCI i ! 2) + 3) True mt i st) ts i (ts - ?m) st1"
      using big cb m0(1) by (subst snoop_gap_loop.simps) (simp add: last Let_def del: nfcsnoop_cb.simps)
    ultimately show ?thesis using sn_only_trans [OF st1(3)] k by auto
  qed
qed

lemma cb_jump:
  assumes jump: "ts < t \<or> t \<noteq> 0 \<and> MICRO_SECOND_THREE_DAYS < ts - t" and n: "12 \<le> n" and r: "sn_rep st i n rs t"
    and len: "len + 7 \<le> n" "len < 2 ^ 16" "len \<le> length data"
  shows "\<exists>st'. nfcsnoop_cb (Suc (Suc d)) data len rcv ts i st = Some st' \<and> sn_only i st st' \<and>
    sn_rep st' i n (foldl (log_one n) rs [(EMPTY_ERR_NCI i, 0, True), (take len data, 0, rcv)]) ts"
proof -
  let ?st = "st \<lparr> sn_last := (sn_last st)[i := ts] \<rparr>"
  have last: "sn_last st ! i = t" "sn_last ?st ! i = ts" and r0: "sn_rep ?st i n rs ts" "sn_only i st ?st"
    using r by (auto simp: sn_rep_def sn_only_def)
  obtain st1 where st1: "snoop_write (EMPTY_ERR_NCI i) 5 True ts 0 i ?st = Some st1"
    "sn_rep st1 i n (log_one n rs (EMPTY_ERR_NCI i, 0, True)) ts" "sn_only i ?st st1"
    using write_spec [OF r0(1), of 5 "EMPTY_ERR_NCI i" True ts 0] n by auto
  have cb: "nfcsnoop_cb (Suc d) (EMPTY_ERR_NCI i) (unat (EMPTY_ERR_NCI i ! 2) + 3) True ts i ?st = Some st1"
  proof (subst cb_direct [OF last(2)])
    have "(if ts = 0 then 0 else ts - ts) = 0" by simp
    then show "snoop_write (EMPTY_ERR_NCI i) (unat (EMPTY_ERR_NCI i ! 2) + 3) True ts (if ts = 0 then 0 else ts - ts) i ?st = Some st1"
      using st1(1) by (simp only:) simp
  qed simp_all
  obtain st2 where st2: "snoop_write data len rcv ts 0 i st1 = Some st2"
    "sn_rep st2 i n (log_one n (log_one n rs (EMPTY_ERR_NCI i, 0, True)) (take len data, 0, rcv)) ts" "sn_only i st1 st2"
    using write_spec [OF st1(2) len, of rcv ts 0] by auto
  have "nfcsnoop_cb (Suc (Suc d)) data len rcv ts i st = Some st2"
    using jump cb st2(1) unfolding nfcsnoop_cb.simps(2) [of "Suc d"] Let_def last(1)
    by (auto simp: gap_loop_done simp del: nfcsnoop_cb.simps)
  then show ?thesis using st2(2) sn_only_trans [OF sn_only_trans [OF r0(2) st1(3)] st2(3)] by auto
qed

lemma cb_rep:
  assumes n: "12 \<le> n" and r: "sn_rep st i n rs t" and len: "len + 7 \<le> n" "len < 2 ^ 16" "len \<le> length data"
  shows "\<exists>st'. nfcsnoop_cb (Suc (Suc d)) data len rcv ts i st = Some st' \<and> sn_only i st st' \<and>
    sn_rep st' i n (foldl (log_one n) rs (snoop_added i (unat t) (unat ts) (take len data) rcv)) ts"
proof -
  have last: "sn_last st ! i = t" using r by (simp add: sn_rep_def)
  consider (jump) "ts < t \<or> t \<noteq> 0 \<and> MICRO_SECOND_THREE_DAYS < ts - t" | (first) "t = 0"
    | (gap) "t \<noteq> 0" "t \<le> ts" "\<not> MICRO_SECOND_THREE_DAYS < ts - t" by fastforce
  then show ?thesis
  proof cases
    case jump
    then have "snoop_added i (unat t) (unat ts) (take len data) rcv = [(EMPTY_ERR_NCI i, 0, True), (take len data, 0, rcv)]"
      using snoop_consts(2) by (auto simp: snoop_added_def word_less_nat_alt unat_sub word_le_nat_alt unat_eq_0)
    then show ?thesis using cb_jump [OF jump n r len, of d rcv] by simp
  next
    case first
    then have "snoop_added i (unat t) (unat ts) (take len data) rcv = [(take len data, 0, rcv)]" by (simp add: snoop_added_def)
    then show ?thesis using write_spec [OF r len, of rcv ts 0] cb_direct [OF last, of ts] first by auto
  next
    case gap
    define D where "D = unat (ts - t)"
    define k where "k = (D - 1) div (2 ^ 32 - 1)"
    have D: "D = unat ts - unat t" "\<not> unat ts < unat t" using gap(2) by (auto simp: D_def unat_sub word_le_nat_alt)
    obtain st1 t1 where st1: "snoop_gap_loop (\<lambda>mt st. nfcsnoop_cb (Suc d) (EMPTY_NCI i) (unat (EMPTY_NCI i ! 2) + 3) True mt i st) ts i (ts - t) st =
        Some (of_nat (D - k * (2 ^ 32 - 1)), st1)" "sn_only i st st1"
      "sn_rep st1 i n (foldl (log_one n) rs (replicate k (EMPTY_NCI i, of_nat (2 ^ 32 - 1), True))) t1"
      using gap_loop_spec [OF n gap(1,2) r D_def k_def] by blast
    have added: "snoop_added i (unat t) (unat ts) (take len data) rcv =
        replicate k (EMPTY_NCI i, of_nat (2 ^ 32 - 1), True) @ [(take len data, of_nat (D - k * (2 ^ 32 - 1)), rcv)]"
    proof -
      have "\<not> (unat ts < unat t \<or> unat t \<noteq> 0 \<and> 259200000000 < unat ts - unat t)" "unat t \<noteq> 0"
        using gap D snoop_consts(2) by (auto simp: word_less_nat_alt D_def unat_eq_0)
      then show ?thesis by (simp only: snoop_added_def Let_def k_def D(1) if_False)
    qed
    have dt: "ucast (of_nat m :: u64) = (of_nat m :: u32)" for m
      by (simp only: unsigned_of_nat word_of_nat_eq_iff take_bit_take_bit) simp
    obtain st2 where st2: "snoop_write data len rcv ts (of_nat (D - k * (2 ^ 32 - 1))) i st1 = Some st2" "sn_only i st1 st2"
      "sn_rep st2 i n (foldl (log_one n) rs (snoop_added i (unat t) (unat ts) (take len data) rcv)) ts"
      using write_spec [OF st1(3) len, of rcv ts "of_nat (D - k * (2 ^ 32 - 1))"] added dt by auto
    have "nfcsnoop_cb (Suc (Suc d)) data len rcv ts i st = Some st2"
      using gap st1(1) st2(1) unfolding nfcsnoop_cb.simps(2) [of "Suc d"] Let_def last
      by (auto simp: not_less simp del: nfcsnoop_cb.simps)
    then show ?thesis using st2 sn_only_trans [OF st1(2)] by blast
  qed
qed

lemmas cb_two = cb_rep [where d = 0, folded numeral_2_eq_2]

lemma sum_replicate_nat: "sum_list (replicate k c) = k * (c::nat)"
  by (induction k) auto

lemma added_time:
  assumes "t0 \<noteq> 0" "t0 \<le> t1" "t1 - t0 \<le> 259200000000"
  shows "sum_list (map (\<lambda>r. unat (fst (snd r))) (snoop_added i t0 t1 d rcv)) = t1 - t0"
proof -
  define D M where "D = t1 - t0" and "M = (2 ^ 32 - 1 :: nat)"
  define k where "k = (D - 1) div M"
  have D: "D = k * M + (D - k * M)" "D - k * M \<le> M"
    unfolding k_def using div_mult_mod_eq [of "D - 1" M] mod_less_divisor [of M "D - 1"] by (auto simp: M_def)
  have "unat (of_nat M :: u32) = M" "unat (of_nat (D - k * M) :: u32) = D - k * M"
    using D(2) by (auto simp: M_def unat_of_nat)
  moreover have "snoop_added i t0 t1 d rcv = replicate k (EMPTY_NCI i, of_nat M, True) @ [(d, of_nat (D - k * M), rcv)]"
    using assms by (simp only: snoop_added_def k_def D_def M_def Let_def) simp
  ultimately show ?thesis using D(1) by (simp add: sum_replicate_nat D_def)
qed

text \<open>C38. One call of nfcsnoop_cb always returns, with a recursion depth of two, and refines
  appending to a list of packets: the oldest frames are removed one by one and only as far as needed,
  the rest of the log is kept, the new packet is the last one, the frames in the ring buffer stay
  complete, and the other buffer is untouched. As long as the clock does not go back or jump by more than three
  days, the time differences of the packets a call appends add up to the time since the previous one,
  each of them within 32 bits.\<close>

theorem nfcsnoop_cb_ok:
  assumes "12 \<le> n" "sn_rep st i n rs t" "len + 7 \<le> n" "len < 2 ^ 16" "len \<le> length data"
  shows "(\<exists>st'. nfcsnoop_cb 2 data len rcv ts i st = Some st' \<and> sn_only i st st' \<and>
      sn_rep st' i n (foldl (log_one n) rs (snoop_added i (unat t) (unat ts) (take len data) rcv)) ts) \<and>
    (t \<noteq> 0 \<and> t \<le> ts \<and> unat ts - unat t \<le> 259200000000 \<longrightarrow>
      sum_list (map (\<lambda>r. unat (fst (snd r))) (snoop_added i (unat t) (unat ts) (take len data) rcv)) = unat ts - unat t)"
proof (intro conjI impI)
  show "\<exists>st'. nfcsnoop_cb 2 data len rcv ts i st = Some st' \<and> sn_only i st st' \<and>
      sn_rep st' i n (foldl (log_one n) rs (snoop_added i (unat t) (unat ts) (take len data) rcv)) ts"
    by (rule cb_two [OF assms])
  assume "t \<noteq> 0 \<and> t \<le> ts \<and> unat ts - unat t \<le> 259200000000"
  then show "sum_list (map (\<lambda>r. unat (fst (snd r))) (snoop_added i (unat t) (unat ts) (take len data) rcv)) = unat ts - unat t"
    by (intro added_time) (simp_all add: unat_eq_0 word_le_nat_alt)
qed

section \<open>The state between captures\<close>

definition snoop_ok :: "snoop \<Rightarrow> bool" where
  "snoop_ok st \<longleftrightarrow> length (sn_buffers st) = 2 \<and> length (sn_last st) = 2 \<and>
     (\<forall>i<2. \<exists>rs t. sn_rep st i NFCSNOOP_MEM_BUFFER_SIZE rs t)"

lemma snoop_init_ok:
  assumes "\<forall>i<2. env_alloc env i = (True, True)" "length (sn_last st) = 2"
  shows "snoop_ok (debug_nfcsnoop_init env (st \<lparr> sn_buffers := [None, None] \<rparr>))"
proof -
  obtain rb where rb: "ringbuffer_init True True NFCSNOOP_MEM_BUFFER_SIZE = Some rb" "rb_rep rb []" "rb_total rb = NFCSNOOP_MEM_BUFFER_SIZE"
    using init_rep [of NFCSNOOP_MEM_BUFFER_SIZE] by (auto simp: NFCSNOOP_MEM_BUFFER_SIZE_def)
  have "snoop_rep rb []" using rb(2) by (simp add: snoop_rep_def)
  then show ?thesis using assms rb
    by (auto simp: snoop_ok_def debug_nfcsnoop_init_def sn_rep_def less_2_cases_iff intro!: exI [of _ "[]"])
qed

lemma added_last: "\<exists>xs dt. snoop_added i t0 t1 d rcv = xs @ [(d, dt, rcv)]"
proof (cases "t1 < t0 \<or> t0 \<noteq> 0 \<and> 259200000000 < t1 - t0")
  case True
  then show ?thesis by (intro exI [of _ "[(EMPTY_ERR_NCI i, 0, True)]"]) (simp add: snoop_added_def)
next
  case False
  then show ?thesis by (simp only: snoop_added_def if_False Let_def) blast
qed

lemma snoop_ok_step:
  assumes ok: "snoop_ok st" and i: "i < 2" and len: "len \<le> 258" "len \<le> length data"
  shows "\<exists>st' rs ts'. nfcsnoop_cb 2 data len rcv ts i st = Some st' \<and> snoop_ok st' \<and> sn_only i st st' \<and>
    sn_rep st' i NFCSNOOP_MEM_BUFFER_SIZE (rs @ [(take len data, ts', rcv)]) ts"
proof -
  obtain rs t where r: "sn_rep st i NFCSNOOP_MEM_BUFFER_SIZE rs t" using ok i by (auto simp: snoop_ok_def)
  obtain st' where st': "nfcsnoop_cb 2 data len rcv ts i st = Some st'" "sn_only i st st'"
    "sn_rep st' i NFCSNOOP_MEM_BUFFER_SIZE (foldl (log_one NFCSNOOP_MEM_BUFFER_SIZE) rs (snoop_added i (unat t) (unat ts) (take len data) rcv)) ts"
    using cb_two [OF _ r, of len data rcv ts] len by (auto simp: NFCSNOOP_MEM_BUFFER_SIZE_def simp del: nfcsnoop_cb.simps)
  obtain xs dt where "snoop_added i (unat t) (unat ts) (take len data) rcv = xs @ [(take len data, dt, rcv)]"
    using added_last by blast
  then have "\<exists>ys dt. foldl (log_one NFCSNOOP_MEM_BUFFER_SIZE) rs (snoop_added i (unat t) (unat ts) (take len data) rcv) = ys @ [(take len data, dt, rcv)]"
    by (simp add: log_one_def)
  moreover have "\<exists>rs t. sn_rep st' j NFCSNOOP_MEM_BUFFER_SIZE rs t" if j: "j < 2" for j
  proof (cases "j = i")
    case False
    obtain rs t where "sn_rep st j NFCSNOOP_MEM_BUFFER_SIZE rs t" using ok j by (auto simp: snoop_ok_def)
    then have "sn_rep st' j NFCSNOOP_MEM_BUFFER_SIZE rs t" using st'(2,3) False by (auto simp: sn_rep_def sn_only_def)
    then show ?thesis by blast
  qed (use st'(3) in blast)
  moreover have "length (sn_buffers st') = 2" "length (sn_last st') = 2" using st'(2,3) ok by (auto simp: snoop_ok_def sn_only_def sn_rep_def)
  ultimately show ?thesis using st' unfolding snoop_ok_def by metis
qed

text \<open>A packet is the last one of buffer \<open>i\<close>, logged at time \<open>t\<close>.\<close>

definition snoop_logged :: "snoop \<Rightarrow> nat \<Rightarrow> mem \<Rightarrow> bool \<Rightarrow> u64 \<Rightarrow> bool" where
  "snoop_logged st i d rcv t \<longleftrightarrow> (\<exists>rs dt. sn_rep st i NFCSNOOP_MEM_BUFFER_SIZE (rs @ [(d, dt, rcv)]) t)"

text \<open>The buffer a packet goes to, if any.\<close>

definition snoop_dest :: "mem \<Rightarrow> u16 \<Rightarrow> nat option" where
  "snoop_dest p plen =
    (if drop_bit 5 (p ! 0 AND 0xE0) = 3 \<and> p ! 0 AND 0x0F = 0x0F then Some 1
     else if drop_bit 5 (p ! 0 AND 0xE0) = 0 \<or> 2 < plen then Some 0 else None)"


section \<open>A concrete log\<close>

definition ex_env :: snoop_env where
  "ex_env = \<lparr> env_time = 5000, env_stored = True, env_alloc = (\<lambda>_. (True, True)), env_debuggable = True, env_full = True \<rparr>"

definition ex_snoop :: snoop where
  "ex_snoop = debug_nfcsnoop_init ex_env \<lparr> sn_buffers = [None, None], sn_last = [0, 0], sn_debuggable = False, sn_full = False \<rparr>"

lemma ex_snoop_ok: "snoop_ok ex_snoop"
  using snoop_init_ok [of ex_env "\<lparr> sn_buffers = [None, None], sn_last = [0, 0], sn_debuggable = False, sn_full = False \<rparr>"]
  by (simp add: ex_snoop_def ex_env_def)

lemma ex_snoop_rep: "sn_rep ex_snoop 0 NFCSNOOP_MEM_BUFFER_SIZE [] 0"
  using init_rep [of NFCSNOOP_MEM_BUFFER_SIZE]
  by (auto simp: ex_snoop_def ex_env_def debug_nfcsnoop_init_def sn_rep_def snoop_rep_def NFCSNOOP_MEM_BUFFER_SIZE_def)

theorem nfcsnoop_cb_ok_witness:
  "(\<exists>st'. nfcsnoop_cb 2 [0x20, 0, 1, 1] 4 False 5000 0 ex_snoop = Some st' \<and>
    sn_rep st' 0 NFCSNOOP_MEM_BUFFER_SIZE [([0x20, 0, 1, 1], 0, False)] 5000) \<and>
   sum_list (map (\<lambda>r. unat (fst (snd r))) (snoop_added 0 5000 5000000000 [0x20, 0, 1, 1] True)) = 4999995000"
proof
  have room: "12 \<le> NFCSNOOP_MEM_BUFFER_SIZE" "4 + 7 \<le> NFCSNOOP_MEM_BUFFER_SIZE" by (simp_all add: NFCSNOOP_MEM_BUFFER_SIZE_def)
  have "foldl (log_one n) [] (snoop_added 0 0 5000 [0x20, 0, 1, 1] False) = [([0x20, 0, 1, 1], 0, False)]" for n
    by (simp add: snoop_added_def log_one_def)
  then show "\<exists>st'. nfcsnoop_cb 2 [0x20, 0, 1, 1] 4 False 5000 0 ex_snoop = Some st' \<and>
    sn_rep st' 0 NFCSNOOP_MEM_BUFFER_SIZE [([0x20, 0, 1, 1], 0, False)] 5000"
    using nfcsnoop_cb_ok [OF room(1) ex_snoop_rep room(2), of "[0x20, 0, 1, 1]" False 5000] by (auto simp del: nfcsnoop_cb.simps)
  obtain st' where "sn_rep st' 0 NFCSNOOP_MEM_BUFFER_SIZE [([0x20, 0, 1, 1], 0, False)] 5000"
    using \<open>\<exists>st'. _ st'\<close> by blast
  from nfcsnoop_cb_ok [OF room(1) this room(2), of "[0x20, 0, 1, 1]" True 5000000000]
  show "sum_list (map (\<lambda>r. unat (fst (snd r))) (snoop_added 0 5000 5000000000 [0x20, 0, 1, 1] True)) = 4999995000" by simp
qed


end
