(* ===== verification/CrcChecksum.thy ===== *)
theory CrcChecksum
  imports NfcPrelude
begin

text \<open>
  The checksum of \<^verbatim>\<open>adaptation/CrcChecksum.cc\<close>, which guards the files that keep the state of the
  stack. The table-driven computation is shown equal to the bit-serial definition of the
  CRC with the reflected polynomial \<open>0xA001\<close>, from which the error detection of the file check
  follows. A file is its contents, or \<open>None\<close> when it cannot be opened.
\<close>

definition crctab :: "u16 list" where
  "crctab =
   [0x0000, 0xc0c1, 0xc181, 0x0140, 0xc301, 0x03c0, 0x0280, 0xc241, 0xc601, 0x06c0, 0x0780, 0xc741,
    0x0500, 0xc5c1, 0xc481, 0x0440, 0xcc01, 0x0cc0, 0x0d80, 0xcd41, 0x0f00, 0xcfc1, 0xce81, 0x0e40,
    0x0a00, 0xcac1, 0xcb81, 0x0b40, 0xc901, 0x09c0, 0x0880, 0xc841, 0xd801, 0x18c0, 0x1980, 0xd941,
    0x1b00, 0xdbc1, 0xda81, 0x1a40, 0x1e00, 0xdec1, 0xdf81, 0x1f40, 0xdd01, 0x1dc0, 0x1c80, 0xdc41,
    0x1400, 0xd4c1, 0xd581, 0x1540, 0xd701, 0x17c0, 0x1680, 0xd641, 0xd201, 0x12c0, 0x1380, 0xd341,
    0x1100, 0xd1c1, 0xd081, 0x1040, 0xf001, 0x30c0, 0x3180, 0xf141, 0x3300, 0xf3c1, 0xf281, 0x3240,
    0x3600, 0xf6c1, 0xf781, 0x3740, 0xf501, 0x35c0, 0x3480, 0xf441, 0x3c00, 0xfcc1, 0xfd81, 0x3d40,
    0xff01, 0x3fc0, 0x3e80, 0xfe41, 0xfa01, 0x3ac0, 0x3b80, 0xfb41, 0x3900, 0xf9c1, 0xf881, 0x3840,
    0x2800, 0xe8c1, 0xe981, 0x2940, 0xeb01, 0x2bc0, 0x2a80, 0xea41, 0xee01, 0x2ec0, 0x2f80, 0xef41,
    0x2d00, 0xedc1, 0xec81, 0x2c40, 0xe401, 0x24c0, 0x2580, 0xe541, 0x2700, 0xe7c1, 0xe681, 0x2640,
    0x2200, 0xe2c1, 0xe381, 0x2340, 0xe101, 0x21c0, 0x2080, 0xe041, 0xa001, 0x60c0, 0x6180, 0xa141,
    0x6300, 0xa3c1, 0xa281, 0x6240, 0x6600, 0xa6c1, 0xa781, 0x6740, 0xa501, 0x65c0, 0x6480, 0xa441,
    0x6c00, 0xacc1, 0xad81, 0x6d40, 0xaf01, 0x6fc0, 0x6e80, 0xae41, 0xaa01, 0x6ac0, 0x6b80, 0xab41,
    0x6900, 0xa9c1, 0xa881, 0x6840, 0x7800, 0xb8c1, 0xb981, 0x7940, 0xbb01, 0x7bc0, 0x7a80, 0xba41,
    0xbe01, 0x7ec0, 0x7f80, 0xbf41, 0x7d00, 0xbdc1, 0xbc81, 0x7c40, 0xb401, 0x74c0, 0x7580, 0xb541,
    0x7700, 0xb7c1, 0xb681, 0x7640, 0x7200, 0xb2c1, 0xb381, 0x7340, 0xb101, 0x71c0, 0x7080, 0xb041,
    0x5000, 0x90c1, 0x9181, 0x5140, 0x9301, 0x53c0, 0x5280, 0x9241, 0x9601, 0x56c0, 0x5780, 0x9741,
    0x5500, 0x95c1, 0x9481, 0x5440, 0x9c01, 0x5cc0, 0x5d80, 0x9d41, 0x5f00, 0x9fc1, 0x9e81, 0x5e40,
    0x5a00, 0x9ac1, 0x9b81, 0x5b40, 0x9901, 0x59c0, 0x5880, 0x9841, 0x8801, 0x48c0, 0x4980, 0x8941,
    0x4b00, 0x8bc1, 0x8a81, 0x4a40, 0x4e00, 0x8ec1, 0x8f81, 0x4f40, 0x8d01, 0x4dc0, 0x4c80, 0x8c41,
    0x4400, 0x84c1, 0x8581, 0x4540, 0x8701, 0x47c0, 0x4680, 0x8641, 0x8201, 0x42c0, 0x4380, 0x8341,
    0x4100, 0x81c1, 0x8081, 0x4040]"

text \<open>The loop over the bytes; \<open>None\<close> is a read past the end of the buffer.\<close>

fun crc_loop :: "u16 \<Rightarrow> mem \<Rightarrow> nat \<Rightarrow> nat \<Rightarrow> u16 option" where
  "crc_loop crc buf cp 0 = Some crc"
| "crc_loop crc buf cp (Suc cnt) = do {
     b \<leftarrow> rd8 buf cp;
     crc_loop ((drop_bit 8 crc AND 0xff) XOR crctab ! unat ((crc AND 0xff) XOR ucast b)) buf (cp + 1) cnt }"

definition crcChecksumCompute :: "mem \<Rightarrow> nat \<Rightarrow> u16 option" where
  "crcChecksumCompute buffer bufferLen = crc_loop 0 buffer 0 bufferLen"

text \<open>Reading a file in blocks of 1024 bytes until nothing is left.\<close>

function crc_read_all :: "mem \<Rightarrow> mem" where
  "crc_read_all rest = (let b = take 1024 rest in if 0 < length b then b @ crc_read_all (drop 1024 rest) else [])"
  by auto
termination by (relation "measure length") auto

text \<open>The checksum is read into a \<^verbatim>\<open>uint16_t\<close>, on the targets in little-endian order. The size of
  the data is converted to \<^verbatim>\<open>int\<close>; a negative one would make the loop run off the buffer.\<close>

definition crcChecksumVerifyIntegrity :: "mem option \<Rightarrow> bool option" where
  "crcChecksumVerifyIntegrity contents =
    (case contents of None \<Rightarrow> Some True
     | Some bs \<Rightarrow>
        let hd = take 2 bs; data = crc_read_all (drop 2 bs)
        in if length hd = 2 \<and> 0 < length data then
             if length data < 2 ^ 31 then do {
               crc \<leftarrow> crcChecksumCompute data (length data);
               Some (be16_val (hd ! 1) (hd ! 0) = crc) }
             else None
           else Some False)"

section \<open>The bit-serial definition\<close>

definition crc_bit :: "u16 \<Rightarrow> u16" where
  "crc_bit c = (if bit c 0 then drop_bit 1 c XOR 0xA001 else drop_bit 1 c)"

definition crc_byte :: "u16 \<Rightarrow> u16" where
  "crc_byte = crc_bit ^^ 8"

fun crc16 :: "u16 \<Rightarrow> mem \<Rightarrow> u16" where
  "crc16 c [] = c"
| "crc16 c (b # bs) = crc16 (crc_byte (c XOR ucast b)) bs"

lemma crc_byte_alt: "crc_byte c = crc_bit (crc_bit (crc_bit (crc_bit (crc_bit (crc_bit (crc_bit (crc_bit c)))))))"
  by (simp add: crc_byte_def numeral_eq_Suc)

lemma crc_bit_xor: "crc_bit (a XOR b) = crc_bit a XOR crc_bit b"
  by (auto simp: crc_bit_def bit_simps intro!: bit_word_eqI)

lemma crc_bits_xor: "(crc_bit ^^ n) (a XOR b) = (crc_bit ^^ n) a XOR (crc_bit ^^ n) b"
  by (induction n) (simp_all add: crc_bit_xor)

text \<open>The table is generated by its first row and its first column.\<close>

lemma crctab_rows: "crctab = concat (map (\<lambda>a. map (\<lambda>b. a XOR b)
    [0x0000, 0xc0c1, 0xc181, 0x0140, 0xc301, 0x03c0, 0x0280, 0xc241, 0xc601, 0x06c0, 0x0780, 0xc741, 0x0500, 0xc5c1, 0xc481, 0x0440])
    [0x0000, 0xcc01, 0xd801, 0x1400, 0xf001, 0x3c00, 0x2800, 0xe401, 0xa001, 0x6c00, 0x7800, 0xb401, 0x5000, 0x9c01, 0x8801, 0x4400])"
  by (simp add: crctab_def)

lemma crctab_first: "[0x0000, 0xc0c1, 0xc181, 0x0140, 0xc301, 0x03c0, 0x0280, 0xc241, 0xc601, 0x06c0, 0x0780, 0xc741, 0x0500, 0xc5c1, 0xc481, 0x0440] = map crc_byte [0, 1, 2, 3, 4, 5, 6, 7, 8, 9, 10, 11, 12, 13, 14, 15]"
  by (simp add: crc_byte_alt crc_bit_def)

lemma crctab_column: "[0x0000, 0xcc01, 0xd801, 0x1400, 0xf001, 0x3c00, 0x2800, 0xe401, 0xa001, 0x6c00, 0x7800, 0xb401, 0x5000, 0x9c01, 0x8801, 0x4400] =
    map crc_byte [0, 16, 32, 48, 64, 80, 96, 112, 128, 144, 160, 176, 192, 208, 224, 240]"
  by (simp add: crc_byte_alt crc_bit_def)

lemma byte_indices: "map of_nat [0..<256] = concat (map (\<lambda>h. map (\<lambda>l. h XOR l :: u16) [0, 1, 2, 3, 4, 5, 6, 7, 8, 9, 10, 11, 12, 13, 14, 15])
    [0, 16, 32, 48, 64, 80, 96, 112, 128, 144, 160, 176, 192, 208, 224, 240])"
  by (simp add: upt_conv_Cons)

lemma crctab_ok: "crctab = map crc_byte (map of_nat [0..<256])"
  unfolding crctab_rows crctab_first crctab_column byte_indices map_concat map_map
  by (simp only: comp_def crc_byte_def crc_bits_xor map_map)

lemma crc_bits_zero: "take_bit n a = 0 \<Longrightarrow> (crc_bit ^^ n) a = drop_bit n a"
proof (induction n arbitrary: a)
  case (Suc n)
  have low: "\<not> bit a i" if "i < Suc n" for i using Suc.prems that by (metis bit_0_eq bit_take_bit_iff bot_apply bot_bool_def)
  then have "crc_bit a = drop_bit 1 a" by (simp add: crc_bit_def)
  moreover have "take_bit n (drop_bit 1 a) = 0" using low by (intro bit_word_eqI) (simp add: bit_simps)
  ultimately show ?case using Suc.IH [of "drop_bit 1 a"] by (simp add: funpow_Suc_right del: funpow.simps)
qed simp

lemma xor_cancel: "a XOR c = b XOR c \<longleftrightarrow> a = (b :: 'a::len word)"
  by (metis xor.assoc xor.right_neutral xor_self_eq)

lemma inj_crc_bit: "inj crc_bit"
proof (rule injI)
  fix a b
  assume eq: "crc_bit a = crc_bit b"
  have top: "bit (crc_bit x) 15 = bit x 0" for x
    using bit_imp_le_length [of x 16] by (auto simp: crc_bit_def bit_simps)
  then have low: "bit a 0 = bit b 0" using eq by metis
  then have high: "drop_bit 1 a = drop_bit 1 b" using eq by (auto simp: crc_bit_def xor_cancel simp del: bit_0 split: if_splits)
  show "a = b"
  proof (rule bit_word_eqI)
    fix n
    show "bit a n = bit b n"
      using low arg_cong [OF high, of "\<lambda>w. bit w (n - 1)"] by (cases n) (simp_all add: bit_simps)
  qed
qed

lemma inj_crc_byte: "inj crc_byte"
  unfolding crc_byte_def by (intro inj_fn inj_crc_bit)

lemma crc_byte_xor: "crc_byte (a XOR b) = crc_byte a XOR crc_byte b"
  by (simp add: crc_byte_def crc_bits_xor)

lemma byte_bit: "bit (b :: u8) n \<Longrightarrow> n < 8"
  using bit_imp_le_length [of b n] by simp

lemma byte_high: "8 \<le> n \<Longrightarrow> \<not> bit (b :: u8) n"
  using byte_bit [of b n] by auto

lemma crc_byte_high: "crc_byte (push_bit 8 (ucast (b :: u8))) = ucast b"
proof -
  have "take_bit 8 (push_bit 8 (ucast b) :: u16) = 0" "drop_bit 8 (push_bit 8 (ucast b) :: u16) = ucast b"
    by (auto intro!: bit_word_eqI simp: bit_simps dest: byte_bit)
  then show ?thesis by (simp add: crc_byte_def crc_bits_zero)
qed

text \<open>One step of the table-driven loop is eight steps of the bit-serial definition.\<close>

lemma crc_step: "(drop_bit 8 c AND 0xff) XOR crctab ! unat ((c AND 0xff) XOR ucast (b :: u8)) = crc_byte (c XOR ucast b)"
proof -
  let ?l = "(c AND 0xff) XOR ucast b :: u16" and ?h = "ucast (drop_bit 8 c) :: u8"
  have ff: "x AND 0xff = take_bit 8 x" for x :: u16 by (simp add: take_bit_eq_mask mask_eq_exp_minus_1)
  have "?l = take_bit 8 ?l" unfolding ff by (auto intro!: bit_word_eqI simp: bit_simps dest: byte_bit)
  then have "unat ?l < 256" using unsigned_take_bit_eq [of 8 ?l, where 'a = nat] take_bit_nat_less_exp [of 8 "unat ?l"] by simp
  then have "crctab ! unat ?l = crc_byte ?l" by (simp add: crctab_ok)
  moreover have "c XOR ucast b = push_bit 8 (ucast ?h) XOR ?l" "drop_bit 8 c AND 0xff = ucast ?h"
    unfolding ff by (auto intro!: bit_word_eqI simp: bit_simps dest: byte_bit)
  ultimately show ?thesis by (simp add: crc_byte_xor crc_byte_high)
qed

lemma crc_loop_ok: "cp + n \<le> length buf \<Longrightarrow> crc_loop c buf cp n = Some (crc16 c (take n (drop cp buf)))"
proof (induction n arbitrary: c cp)
  case (Suc n)
  then have "take (Suc n) (drop cp buf) = buf ! cp # take n (drop (cp + 1) buf)" by (simp add: Cons_nth_drop_Suc [symmetric])
  then show ?case using Suc by (simp add: rd8_def crc_step)
qed simp

section \<open>Correctness and error detection\<close>

lemma compute_crc16: "n \<le> length buf \<Longrightarrow> crcChecksumCompute buf n = Some (crc16 0 (take n buf))"
  by (simp add: crcChecksumCompute_def crc_loop_ok)

text \<open>C40. The table-driven checksum is the CRC-16 of the bytes: for every buffer that holds the given
  number of bytes the loop returns and its result is the bit-serial remainder with the
  reflected polynomial 0xA001 and start value 0, so every entry of the table is right.\<close>

theorem crcChecksumCompute_ok:
  assumes "n \<le> length buf"
  shows "crcChecksumCompute buf n = Some (crc16 0 (take n buf))"
  using assms by (rule compute_crc16)

theorem crcChecksumCompute_ok_witness:
  "crcChecksumCompute [0x31, 0x32, 0x33, 0x34] 3 = Some (crc16 0 [0x31, 0x32, 0x33]) \<and> crc16 0 [0x31, 0x32, 0x33] = 0xBA04"
  using crcChecksumCompute_ok [of 3 "[0x31, 0x32, 0x33, 0x34]"] by (simp add: crc_byte_alt crc_bit_def)

lemma read_all_id: "crc_read_all xs = xs"
proof (induction xs rule: crc_read_all.induct)
  case (1 rest)
  then show ?case by (cases "rest = []") (simp_all add: Let_def append_take_drop_id)
qed

declare crc_read_all.simps [simp del]

lemma crc16_append: "crc16 c (xs @ ys) = crc16 (crc16 c xs) ys"
  by (induction xs arbitrary: c) auto

lemma inj_crc16: "crc16 c xs = crc16 c' xs \<longleftrightarrow> c = c'"
  by (induction xs arbitrary: c c') (auto simp: xor_cancel inj_eq [OF inj_crc_byte])

text \<open>Two bytes in a row enter the remainder as one 16-bit word, so no two pairs collide.\<close>

lemma crc16_pair: "crc16 c [a, b] = crc_byte (crc_byte (c XOR be16_val b a))"
proof -
  have "crc_byte (c XOR ucast a) XOR ucast b = crc_byte (c XOR (ucast a XOR push_bit 8 (ucast b)))"
    by (simp only: crc_byte_xor crc_byte_high xor.assoc)
  moreover have "ucast a XOR push_bit 8 (ucast b) = be16_val b a"
    unfolding be16_val_def
    by (subst disjunctive_add_eq_xor) (auto intro!: bit_word_eqI simp: bit_simps xor.commute byte_high)
  ultimately show ?thesis by simp
qed

lemma crc16_burst:
  assumes "(a, b) \<noteq> (a', b')"
  shows "crc16 c (u @ [a, b] @ v) \<noteq> crc16 c (u @ [a', b'] @ v)"
proof -
  have "be16_val b a \<noteq> be16_val b' a'" using assms be16_val_bytes [of b a] be16_val_bytes [of b' a'] by auto
  then have "crc16 (crc16 c u) [a, b] \<noteq> crc16 (crc16 c u) [a', b']"
    unfolding crc16_pair inj_eq [OF inj_crc_byte] xor.commute [of "crc16 c u"] xor_cancel .
  then show ?thesis unfolding crc16_append inj_crc16 .
qed

lemma verify_contents:
  "data \<noteq> [] \<Longrightarrow> length data < 2 ^ 31 \<Longrightarrow> crcChecksumVerifyIntegrity (Some (lo # hi # data)) = Some (be16_val hi lo = crc16 0 data)"
  by (simp add: crcChecksumVerifyIntegrity_def read_all_id compute_crc16 Let_def)

lemma verify_detects:
  assumes "data = u @ [a, b] @ v" "length data < 2 ^ 31" "[lo, hi] = rev (be16_bytes (crc16 0 data))"
  shows "crcChecksumVerifyIntegrity (Some (lo # hi # data)) = Some True"
    and "(a', b') \<noteq> (a, b) \<Longrightarrow> crcChecksumVerifyIntegrity (Some (lo # hi # u @ [a', b'] @ v)) = Some False"
    and "(lo', hi') \<noteq> (lo, hi) \<Longrightarrow> crcChecksumVerifyIntegrity (Some (lo' # hi' # data)) = Some False"
    and "length bs \<le> 2 \<Longrightarrow> crcChecksumVerifyIntegrity (Some bs) = Some False"
    and "crcChecksumVerifyIntegrity None = Some True"
proof -
  have sum: "be16_val hi lo = crc16 0 data" using assms(3) by (simp add: be16_bytes_def be16_roundtrip)
  have other: "data \<noteq> []" "u @ [a', b'] @ v \<noteq> []" "length (u @ [a', b'] @ v) < 2 ^ 31" using assms(1,2) by auto
  show "crcChecksumVerifyIntegrity (Some (lo # hi # data)) = Some True"
    using verify_contents [OF other(1) assms(2)] sum by simp
  show "crcChecksumVerifyIntegrity (Some (lo # hi # u @ [a', b'] @ v)) = Some False" if "(a', b') \<noteq> (a, b)"
    using verify_contents [OF other(2,3)] crc16_burst [OF that] sum assms(1) by metis
  have "be16_val hi' lo' \<noteq> be16_val hi lo" if "(lo', hi') \<noteq> (lo, hi)"
    using that be16_val_bytes [of hi' lo'] be16_val_bytes [of hi lo] by auto
  then show "crcChecksumVerifyIntegrity (Some (lo' # hi' # data)) = Some False" if "(lo', hi') \<noteq> (lo, hi)"
    using verify_contents [OF other(1) assms(2)] sum that by simp
  show "crcChecksumVerifyIntegrity (Some bs) = Some False" if "length bs \<le> 2"
    using that by (simp add: crcChecksumVerifyIntegrity_def read_all_id Let_def)
qed (simp add: crcChecksumVerifyIntegrity_def)

text \<open>The integrity check accepts a file that was written with the checksum of its data,
  rejects it as soon as two neighbouring bytes of the data are changed in any way, or the
  checksum itself is, rejects a file without data, and accepts one that does not exist.\<close>

theorem crcChecksumVerifyIntegrity_detects:
  assumes "data = u @ [a, b] @ v" "length data < 2 ^ 31" "[lo, hi] = rev (be16_bytes (crc16 0 data))"
  shows "crcChecksumVerifyIntegrity (Some (lo # hi # data)) = Some True \<and>
    ((a', b') \<noteq> (a, b) \<longrightarrow> crcChecksumVerifyIntegrity (Some (lo # hi # u @ [a', b'] @ v)) = Some False) \<and>
    ((lo', hi') \<noteq> (lo, hi) \<longrightarrow> crcChecksumVerifyIntegrity (Some (lo' # hi' # data)) = Some False) \<and>
    (length bs \<le> 2 \<longrightarrow> crcChecksumVerifyIntegrity (Some bs) = Some False) \<and>
    crcChecksumVerifyIntegrity None = Some True"
  using verify_detects [OF assms] by blast

theorem crcChecksumVerifyIntegrity_detects_witness:
  "crcChecksumVerifyIntegrity (Some [0x04, 0xBA, 0x31, 0x32, 0x33]) = Some True \<and>
   crcChecksumVerifyIntegrity (Some [0x04, 0xBA, 0x31, 0x30, 0x34]) = Some False \<and>
   crcChecksumVerifyIntegrity (Some [0x05, 0xBA, 0x31, 0x32, 0x33]) = Some False \<and>
   crcChecksumVerifyIntegrity (Some [0x04]) = Some False"
proof -
  have "[0x04, 0xBA] = rev (be16_bytes (crc16 0 [0x31, 0x32, 0x33]))" by (simp add: crc_byte_alt crc_bit_def be16_bytes_def)
  from crcChecksumVerifyIntegrity_detects [of "[0x31, 0x32, 0x33]" "[0x31]" "0x32" "0x33" "[]", OF _ _ this, of "0x30" "0x34" "0x05" "0xBA" "[0x04]"]
  show ?thesis by simp
qed

end
