(* ===== verification/NciConn.thy ===== *)
theory NciConn
  imports NfcPrelude
begin

text \<open>
  Logical connections of the NCI layer: the table of connection control blocks with the map
  from connection identifiers to blocks (\<^verbatim>\<open>nfc/nfc_utils.cc\<close>), sending of data packets as
  fragments under credit-based flow control, and reassembly of received fragments
  (\<^verbatim>\<open>nfc/nfc_ncif.cc\<close>), with the entry points of \<^verbatim>\<open>nfc/nfc_main.cc\<close> that use them.

  A buffer is a value: its header fields and the bytes behind them. The queues of buffers are lists;
  the linked queues of the kernel interface are shown to refine lists, and to hold each buffer once,
  in the theory of the queues. Callbacks of the upper layers are logged in \<open>nc_events\<close>, packets
  handed to the transport in \<open>nc_out\<close>; the diagnostic packet log and the latency statistics are left
  out. \<open>None\<close> is an access outside a buffer or a table.
\<close>

record nfc_hdr =
  h_event :: u16
  h_len :: u16
  h_offset :: u16
  h_layer :: u16
  h_data :: mem

record conn_cb =
  cc_cback :: bool
  cc_tx_q :: "nfc_hdr list"
  cc_rx_q :: "nfc_hdr list"
  cc_id :: u8
  cc_act_protocol :: u8
  cc_act_interface :: u8
  cc_conn_id :: u8
  cc_buff_size :: u8
  cc_num_buff :: u8
  cc_init_credits :: u8

datatype conn_evt =
    NFC_DATA_START_CEVT u8
  | NFC_DATA_CEVT u8 u8 mem
  | NFC_CONN_CREATE_CEVT u8 u8 u8
  | NFC_CONN_CLOSE_CEVT u8 u8
  | NFC_ERROR_CEVT u8 u8
  | NFC_DEACTIVATE_CEVT u8

datatype nfc_state = NFC_STATE_NONE | NFC_STATE_W4_HAL_OPEN | NFC_STATE_CORE_INIT | NFC_STATE_W4_POST_INIT_CPLT
  | NFC_STATE_IDLE | NFC_STATE_OPEN | NFC_STATE_CLOSING | NFC_STATE_W4_HAL_CLOSE | NFC_STATE_NFCC_POWER_OFF_SLEEP

record nfc_conns =
  nc_conn_cb :: "conn_cb list"
  nc_conn_id :: "u8 list"
  nc_max_conn :: u8
  nc_state :: nfc_state
  nc_flags :: u16
  nc_reassembly :: bool
  nc_version :: u8
  nc_out :: "mem list"
  nc_events :: "conn_evt list"

abbreviation (input) "NFC_ILLEGAL_CONN_ID \<equiv> 0xFF :: u8"
abbreviation (input) "NFC_PEND_CONN_ID \<equiv> 0xFE :: u8"
abbreviation (input) "NFC_RF_CONN_ID \<equiv> 0 :: u8"
abbreviation (input) "NFC_CONN_NO_FC \<equiv> 0xFF :: u8"
abbreviation (input) "NFC_RAS_TOO_BIG \<equiv> 0x08 :: u16"
abbreviation (input) "NFC_RAS_FRAGMENTED \<equiv> 0x01 :: u16"
abbreviation (input) "NFC_STATUS_CONTINUE \<equiv> 0xE5 :: u8"
abbreviation (input) "NCI_STATUS_OK \<equiv> 0 :: u8"
abbreviation (input) "NCI_STATUS_FAILED \<equiv> 3 :: u8"
abbreviation (input) "NCI_STATUS_BUFFER_FULL \<equiv> 0xE0 :: u8"
abbreviation (input) "NCI_DEST_TYPE_NFCC \<equiv> 1 :: u8"
abbreviation (input) "NFC_TEST_ID \<equiv> 0xFE :: u8"
abbreviation (input) "NFC_FL_WAIT_RF_INTF_EXT_RSP \<equiv> 0x0200 :: u16"

definition NCI_MAX_CONN_CBS :: nat where "NCI_MAX_CONN_CBS = 4"

definition NFC_MAX_CONN_ID :: nat where "NFC_MAX_CONN_ID = 15"

definition nc_event :: "conn_evt \<Rightarrow> nfc_conns \<Rightarrow> nfc_conns" where
  "nc_event e s = s \<lparr> nc_events := nc_events s @ [e] \<rparr>"

definition upd_cb :: "nat \<Rightarrow> (conn_cb \<Rightarrow> conn_cb) \<Rightarrow> nfc_conns \<Rightarrow> nfc_conns" where
  "upd_cb i f s = s \<lparr> nc_conn_cb := (nc_conn_cb s)[i := f (nc_conn_cb s ! i)] \<rparr>"

section \<open>Control blocks\<close>

text \<open>A pointer to a control block is its index.\<close>

fun find_cb :: "(conn_cb \<Rightarrow> bool) \<Rightarrow> conn_cb list \<Rightarrow> nat \<Rightarrow> nat option" where
  "find_cb P [] i = None"
| "find_cb P (c # cs) i = (if P c then Some i else find_cb P cs (i + 1))"

definition nfc_alloc_conn_cb :: "bool \<Rightarrow> nfc_conns \<Rightarrow> nat option \<times> nfc_conns" where
  "nfc_alloc_conn_cb cback s =
    (let mx = min NCI_MAX_CONN_CBS (unat (nc_max_conn s)) in
     case find_cb (\<lambda>c. cc_conn_id c = NFC_ILLEGAL_CONN_ID) (take mx (nc_conn_cb s)) 0 of
       None \<Rightarrow> (None, s)
     | Some i \<Rightarrow> (Some i, upd_cb i (\<lambda>c. c \<lparr> cc_conn_id := NFC_PEND_CONN_ID, cc_cback := cback \<rparr>) s))"

definition nfc_set_conn_id :: "nat option \<Rightarrow> u8 \<Rightarrow> nfc_conns \<Rightarrow> nfc_conns option" where
  "nfc_set_conn_id p conn_id s =
    (case p of None \<Rightarrow> Some s
     | Some i \<Rightarrow>
        if unat conn_id \<le> NFC_MAX_CONN_ID then
          Some (upd_cb i (\<lambda>c. c \<lparr> cc_conn_id := conn_id \<rparr>) s
                \<lparr> nc_conn_id := (nc_conn_id s)[unat conn_id := of_nat (i + 1)] \<rparr>)
        else None)"

definition nfc_find_conn_cb_by_handle :: "u8 \<Rightarrow> nfc_conns \<Rightarrow> nat option" where
  "nfc_find_conn_cb_by_handle id' s = find_cb (\<lambda>c. cc_id c = id') (nc_conn_cb s) 0"

definition nfc_find_conn_cb_by_conn_id :: "u8 \<Rightarrow> nfc_conns \<Rightarrow> nat option" where
  "nfc_find_conn_cb_by_conn_id conn_id s =
    (if conn_id = NFC_PEND_CONN_ID then find_cb (\<lambda>c. cc_conn_id c = NFC_PEND_CONN_ID) (nc_conn_cb s) 0
     else let i = conn_id AND 0x0F in
       if unat i < NFC_MAX_CONN_ID then
         let h = nc_conn_id s ! unat i in if 0 < h then Some (unat h - 1) else None
       else None)"

definition nfc_free_conn_cb :: "nat option \<Rightarrow> nfc_conns \<Rightarrow> nfc_conns" where
  "nfc_free_conn_cb p s =
    (case p of None \<Rightarrow> s
     | Some i \<Rightarrow>
        let c = nc_conn_cb s ! i;
            s = (if unat (cc_conn_id c) \<le> NFC_MAX_CONN_ID
                 then s \<lparr> nc_conn_id := (nc_conn_id s)[unat (cc_conn_id c) := 0] \<rparr> else s)
        in upd_cb i (\<lambda>c. c \<lparr> cc_rx_q := [], cc_tx_q := [], cc_cback := False, cc_conn_id := NFC_ILLEGAL_CONN_ID \<rparr>) s)"

definition reset_conn_cb :: "nat \<Rightarrow> nfc_conns \<Rightarrow> nfc_conns" where
  "reset_conn_cb i s =
    (let c = nc_conn_cb s ! i in
     if cc_conn_id c \<noteq> NFC_ILLEGAL_CONN_ID
     then nfc_free_conn_cb (Some i) (if cc_cback c then nc_event (NFC_DEACTIVATE_CEVT (cc_conn_id c)) s else s)
     else s)"

definition nfc_reset_all_conn_cbs :: "nfc_conns \<Rightarrow> nfc_conns" where
  "nfc_reset_all_conn_cbs s = fold reset_conn_cb [0..<NCI_MAX_CONN_CBS] s"

section \<open>Sending\<close>

text \<open>The header of a data packet is written in front of the payload and the packet is handed to the
  transport: the part of the sending loop from setting \<^verbatim>\<open>p->event\<close> to \<^verbatim>\<open>HAL_WRITE\<close>.\<close>

definition nci_data_hdr :: "u8 \<Rightarrow> u8 \<Rightarrow> u8 \<Rightarrow> mem" where
  "nci_data_hdr pbf cid len = [push_bit 4 pbf OR cid, 0, len]"

definition nci_data_write :: "nfc_hdr \<Rightarrow> u8 \<Rightarrow> u8 \<Rightarrow> u8 \<Rightarrow> mem option" where
  "nci_data_write p pbf hdr0 ulen = do {
     let len = h_len p + 3;
     let offset = h_offset p - 3;
     d \<leftarrow> wr_bytes (h_data p) (unat offset) (nci_data_hdr pbf hdr0 ulen);
     rd_bytes d (unat offset) (unat len) }"

text \<open>A fresh buffer of the pool \<^verbatim>\<open>NFC_NCI_POOL_ID\<close> has 660 bytes, eight of them for the header.\<close>

definition nci_new_fragment :: "nfc_hdr \<Rightarrow> u8 \<Rightarrow> nfc_hdr option" where
  "nci_new_fragment p_data ulen = do {
     ps \<leftarrow> rd_bytes (h_data p_data) (unat (h_offset p_data)) (unat ulen);
     d \<leftarrow> wr_bytes (replicate 652 0) 5 ps;
     Some \<lparr> h_event = 0, h_len = ucast ulen, h_offset = 5, h_layer = 0, h_data = d \<rparr> }"

definition dec_credit :: "u8 \<Rightarrow> u8" where
  "dec_credit n = (if n \<noteq> NFC_CONN_NO_FC then n - 1 else n)"

text \<open>The loop that posts fragments while there are credits. \<open>alloc n\<close> says whether the buffer for the
  fragment can be allocated when \<open>n\<close> packets have been written.\<close>

partial_function (option) send_loop :: "(nat \<Rightarrow> bool) \<Rightarrow> u8 \<Rightarrow> conn_cb \<Rightarrow> mem list \<Rightarrow> (u8 \<times> conn_cb \<times> mem list) option" where
  "send_loop alloc pbf c out =
    (case cc_tx_q c of
       [] \<Rightarrow> Some (NCI_STATUS_OK, c, out)
     | p_data # q \<Rightarrow>
        if 0 < cc_num_buff c then
          if h_len p_data \<le> ucast (cc_buff_size c) then do {
            pkt \<leftarrow> nci_data_write p_data 0 (cc_conn_id c) (ucast (h_len p_data));
            send_loop alloc 0 (c \<lparr> cc_tx_q := q, cc_num_buff := dec_credit (cc_num_buff c) \<rparr>) (out @ [pkt]) }
          else if \<not> alloc (length out) then Some (NCI_STATUS_BUFFER_FULL, c, out)
          else do {
            let ulen = cc_buff_size c;
            p \<leftarrow> nci_new_fragment p_data ulen;
            pkt \<leftarrow> nci_data_write p pbf (cc_conn_id c) ulen;
            let p_data = p_data \<lparr> h_len := h_len p_data - ucast ulen, h_offset := h_offset p_data + ucast ulen \<rparr>;
            send_loop alloc pbf (c \<lparr> cc_tx_q := p_data # q, cc_num_buff := dec_credit (cc_num_buff c) \<rparr>) (out @ [pkt]) }
        else Some (NCI_STATUS_OK, c, out))"

declare send_loop.simps [code]

definition nfc_ncif_send_data :: "(nat \<Rightarrow> bool) \<Rightarrow> nat \<Rightarrow> nfc_hdr option \<Rightarrow> nfc_conns \<Rightarrow> (u8 \<times> nfc_conns) option" where
  "nfc_ncif_send_data alloc i p_data s =
    (let c = nc_conn_cb s ! i in
     if cc_id c = NFC_RF_CONN_ID \<and> nc_state s \<noteq> NFC_STATE_OPEN then Some (NCI_STATUS_FAILED, s)
     else if nc_flags s AND NFC_FL_WAIT_RF_INTF_EXT_RSP \<noteq> 0 then Some (NCI_STATUS_FAILED, s)
     else do {
       let c = c \<lparr> cc_tx_q := cc_tx_q c @ (case p_data of None \<Rightarrow> [] | Some p \<Rightarrow> [p]) \<rparr>;
       (st, c, out) \<leftarrow> send_loop alloc 1 c [];
       Some (st, upd_cb i (\<lambda>_. c) s \<lparr> nc_out := nc_out s @ out \<rparr>) })"

text \<open>A packet that was not sent stays queued when no buffer was left, and the release of a queued
  buffer is refused, so \<open>NFC_SendData\<close> changes nothing after a failure.\<close>

definition NFC_SendData :: "(nat \<Rightarrow> bool) \<Rightarrow> u8 \<Rightarrow> nfc_hdr option \<Rightarrow> nfc_conns \<Rightarrow> (u8 \<times> nfc_conns) option" where
  "NFC_SendData alloc conn_id p_data s =
    (case nfc_find_conn_cb_by_conn_id conn_id s of
       None \<Rightarrow> Some (NCI_STATUS_FAILED, s)
     | Some i \<Rightarrow>
        (case p_data of None \<Rightarrow> Some (NCI_STATUS_FAILED, s)
         | Some p \<Rightarrow> if 4 \<le> h_offset p then nfc_ncif_send_data alloc i (Some p) s
                     else Some (NCI_STATUS_FAILED, s)))"

definition NFC_FlushData :: "u8 \<Rightarrow> nfc_conns \<Rightarrow> u8 \<times> nfc_conns" where
  "NFC_FlushData conn_id s =
    (case nfc_find_conn_cb_by_conn_id conn_id s of
       None \<Rightarrow> (NCI_STATUS_FAILED, s)
     | Some i \<Rightarrow> (NCI_STATUS_OK, upd_cb i (\<lambda>c. c \<lparr> cc_tx_q := [] \<rparr>) s))"

text \<open>The credit notification. The test for more credits than the initial ones is not compiled.\<close>

fun credits_loop :: "(nat \<Rightarrow> bool) \<Rightarrow> mem \<Rightarrow> nat \<Rightarrow> nat \<Rightarrow> nfc_conns \<Rightarrow> nfc_conns option" where
  "credits_loop alloc m p 0 s = Some s"
| "credits_loop alloc m p (Suc n) s = do {
     cid \<leftarrow> rd8 m p;
     s \<leftarrow> (case nfc_find_conn_cb_by_conn_id cid s of
            None \<Rightarrow> Some s
          | Some i \<Rightarrow>
             if cc_num_buff (nc_conn_cb s ! i) \<noteq> NFC_CONN_NO_FC then do {
               k \<leftarrow> rd8 m (p + 1);
               (_, s) \<leftarrow> nfc_ncif_send_data alloc i None (upd_cb i (\<lambda>c. c \<lparr> cc_num_buff := cc_num_buff c + k \<rparr>) s);
               Some s }
             else Some s);
     credits_loop alloc m (p + 2) n s }"

definition nfc_ncif_proc_credits :: "(nat \<Rightarrow> bool) \<Rightarrow> mem \<Rightarrow> nat \<Rightarrow> u16 \<Rightarrow> nfc_conns \<Rightarrow> nfc_conns option" where
  "nfc_ncif_proc_credits alloc m p plen s =
    (if plen \<noteq> 0 then do {
       num \<leftarrow> rd8 m p;
       if unat (plen - 1) < unat num * 2 then Some s else credits_loop alloc m (p + 1) (unat num) s }
     else Some s)"

section \<open>Receiving\<close>

definition NFC_SetReassemblyFlag :: "bool \<Rightarrow> nfc_conns \<Rightarrow> nfc_conns" where
  "NFC_SetReassemblyFlag b s = s \<lparr> nc_reassembly := b \<rparr>"

text \<open>The status and the length of the payload reported for a packet, after the status byte of some
  RF protocols has been taken off.\<close>

definition data_status :: "nfc_conns \<Rightarrow> conn_cb \<Rightarrow> nfc_hdr \<Rightarrow> u8 \<Rightarrow> (u8 \<times> u16) option" where
  "data_status s c e st =
    (if cc_conn_id c = NFC_RF_CONN_ID \<and> h_layer e \<noteq> NFC_RAS_FRAGMENTED \<and> h_len e \<noteq> 0 then do {
       (st, len) \<leftarrow>
         (if 1 \<le> cc_act_protocol c \<and> cc_act_protocol c \<le> 3 then do {
            let len = h_len e - 1;
            b \<leftarrow> rd8 (h_data e) (unat (h_offset e) + unat len);
            Some (if 0x20 \<le> nc_version s \<and> cc_act_protocol c = 2 \<and> cc_act_interface c = 1 \<and>
                     b \<noteq> 0 \<and> 0x11 \<le> b \<and> b \<le> 0x17 then 0 else b, len) }
          else Some (st, h_len e));
       if 0x20 \<le> nc_version s \<and> cc_act_protocol c = 6 then do {
         let len = len - 1;
         b \<leftarrow> rd8 (h_data e) (unat (h_offset e) + unat len);
         Some (b, len) }
       else Some (st, len) }
     else Some (st, h_len e))"

text \<open>The loop over the receive queue; the control block is fixed but for the queue.\<close>

fun data_event_loop :: "conn_cb \<Rightarrow> nfc_hdr list \<Rightarrow> nfc_conns \<Rightarrow> (nfc_hdr list \<times> nfc_conns) option" where
  "data_event_loop c [] s = Some ([], s)"
| "data_event_loop c (e # q) s =
    (if h_layer e AND NFC_RAS_FRAGMENTED \<noteq> 0 \<and> h_layer e AND NFC_RAS_TOO_BIG = 0 \<and>
        (cc_conn_id c \<noteq> NFC_RF_CONN_ID \<or> nc_reassembly s)
     then Some (e # q, s)
     else do {
       let e = e \<lparr> h_offset := h_offset e + 3, h_len := h_len e - 3 \<rparr>;
       let st = (if h_layer e \<noteq> 0 then NFC_STATUS_CONTINUE else NCI_STATUS_OK);
       let s = (if h_layer e \<noteq> 0 then s else s \<lparr> nc_reassembly := True \<rparr>);
       (st, len) \<leftarrow> data_status s c e st;
       bs \<leftarrow> rd_bytes (h_data e) (unat (h_offset e)) (unat len);
       data_event_loop c q (nc_event (NFC_DATA_CEVT (cc_conn_id c) st bs) s) })"

definition nfc_data_event :: "nat \<Rightarrow> nfc_conns \<Rightarrow> nfc_conns option" where
  "nfc_data_event i s =
    (let c = nc_conn_cb s ! i in
     if cc_cback c then do {
       (q, s) \<leftarrow> data_event_loop c (cc_rx_q c) s;
       Some (upd_cb i (\<lambda>c. c \<lparr> cc_rx_q := q \<rparr>) s) }
     else Some s)"

definition NFC_SetStaticRfCback :: "bool \<Rightarrow> nfc_conns \<Rightarrow> nfc_conns option" where
  "NFC_SetStaticRfCback cback s = nfc_data_event 0 (upd_cb 0 (\<lambda>c. c \<lparr> cc_cback := cback \<rparr>) s)"

text \<open>The size of the largest pool and the size of a buffer, its header included.\<close>

definition GKI_MAX_BUF_SIZE :: nat where "GKI_MAX_BUF_SIZE = 0xFFB0"

definition buf_size :: "nfc_hdr \<Rightarrow> nat" where
  "buf_size h = 8 + length (h_data h)"

text \<open>Moving a partly reassembled packet to a buffer of the largest pool.\<close>

definition ras_grow :: "nfc_hdr \<Rightarrow> nfc_hdr option" where
  "ras_grow p_last = do {
     bs \<leftarrow> rd_bytes (h_data p_last) (unat (h_offset p_last)) (unat (h_len p_last));
     d \<leftarrow> wr_bytes (replicate (GKI_MAX_BUF_SIZE - 8) 0) (unat (h_offset p_last)) bs;
     Some (p_last \<lparr> h_data := d \<rparr>) }"

text \<open>Appending a fragment to the last packet of the receive queue; \<open>alloc\<close> says whether a buffer of the
  largest pool is available.\<close>

definition ras_room :: "bool \<Rightarrow> nfc_hdr \<Rightarrow> nat \<Rightarrow> nfc_hdr option" where
  "ras_room alloc p_last len =
    (if buf_size p_last < 8 + unat (h_len p_last) + unat (h_offset p_last) + len then
       if buf_size p_last \<noteq> GKI_MAX_BUF_SIZE \<and> alloc then ras_grow p_last
       else Some (p_last \<lparr> h_layer := h_layer p_last OR NFC_RAS_TOO_BIG \<rparr>)
     else Some p_last)"

definition nfc_ncif_proc_data :: "bool \<Rightarrow> nfc_hdr \<Rightarrow> nfc_conns \<Rightarrow> nfc_conns option" where
  "nfc_ncif_proc_data alloc p_msg s = do {
     b0 \<leftarrow> rd8 (h_data p_msg) (unat (h_offset p_msg));
     _ \<leftarrow> rd8 (h_data p_msg) (unat (h_offset p_msg) + 2);
     let pbf = drop_bit 4 (b0 AND 0x10);
     let cid = b0 AND 0x0F;
     case nfc_find_conn_cb_by_conn_id cid s of
       None \<Rightarrow> Some s
     | Some i \<Rightarrow>
        if 3 \<le> h_len p_msg then do {
          let len = h_len p_msg - 3;
          let s = (if pbf \<noteq> 0 then NFC_SetReassemblyFlag True s else s);
          let p_msg = p_msg \<lparr> h_layer := (if pbf \<noteq> 0 then NFC_RAS_FRAGMENTED else 0) \<rparr>;
          let c = nc_conn_cb s ! i;
          if cc_rx_q c \<noteq> [] \<and> h_layer (last (cc_rx_q c)) AND NFC_RAS_FRAGMENTED \<noteq> 0 then do {
            p_last \<leftarrow> ras_room alloc (last (cc_rx_q c)) (unat len);
            if h_layer p_last AND NFC_RAS_TOO_BIG = 0 then do {
              ps \<leftarrow> rd_bytes (h_data p_msg) (unat (h_offset p_msg) + 3) (unat len);
              d \<leftarrow> wr_bytes (h_data p_last) (unat (h_offset p_last) + unat (h_len p_last)) ps;
              let p_last = p_last \<lparr> h_data := d, h_len := h_len p_last + len, h_layer := h_layer p_msg \<rparr>;
              nfc_data_event i (upd_cb i (\<lambda>c. c \<lparr> cc_rx_q := butlast (cc_rx_q c) @ [p_last] \<rparr>) s) }
            else do {
              s \<leftarrow> nfc_data_event i (upd_cb i (\<lambda>c. c \<lparr> cc_rx_q := butlast (cc_rx_q c) @ [p_last] \<rparr>) s);
              Some (upd_cb i (\<lambda>c. c \<lparr> cc_rx_q := cc_rx_q c @ [p_msg] \<rparr>) s) } }
          else do {
            let s = (if h_layer p_msg AND NFC_RAS_FRAGMENTED \<noteq> 0 \<and> cc_conn_id c = NFC_RF_CONN_ID \<and> cc_cback c
                     then nc_event (NFC_DATA_START_CEVT (cc_conn_id c)) s else s);
            nfc_data_event i (upd_cb i (\<lambda>c. c \<lparr> cc_rx_q := cc_rx_q c @ [p_msg] \<rparr>) s) } }
        else Some s }"

text \<open>The buffer in which the transport hands a packet to the stack; \<open>None\<close> of the inner option when
  no buffer is available.\<close>

definition nfc_main_hal_data_cback :: "bool \<Rightarrow> mem \<Rightarrow> nfc_hdr option option" where
  "nfc_main_hal_data_cback alloc p_data =
    (if alloc then do {
       d \<leftarrow> wr_bytes (replicate 652 0) 10 p_data;
       Some (Some \<lparr> h_event = 0x4000, h_len = of_nat (length p_data), h_offset = 10, h_layer = 0, h_data = d \<rparr>) }
     else Some None)"

section \<open>Connection creation and release\<close>

definition nfc_ncif_proc_conn_create_rsp :: "mem \<Rightarrow> nat \<Rightarrow> nfc_conns \<Rightarrow> nfc_conns option" where
  "nfc_ncif_proc_conn_create_rsp m p s =
    (case nfc_find_conn_cb_by_conn_id NFC_PEND_CONN_ID s of
       None \<Rightarrow> Some s
     | Some i \<Rightarrow> do {
         status \<leftarrow> rd8 m (p + 3);
         buff_size \<leftarrow> rd8 m (p + 4);
         num_buff \<leftarrow> rd8 m (p + 5);
         conn_id \<leftarrow> rd8 m (p + 6);
         let s = upd_cb i (\<lambda>c. c \<lparr> cc_buff_size := buff_size, cc_num_buff := num_buff, cc_init_credits := num_buff \<rparr>) s;
         let (status, conn_id) = (if NFC_MAX_CONN_ID < unat conn_id then (NCI_STATUS_FAILED, NFC_ILLEGAL_CONN_ID) else (status, conn_id));
         let cback = cc_cback (nc_conn_cb s ! i);
         let id' = cc_id (nc_conn_cb s ! i);
         s \<leftarrow> (if status = NCI_STATUS_OK then nfc_set_conn_id (Some i) conn_id s else Some (nfc_free_conn_cb (Some i) s));
         Some (if cback then nc_event (NFC_CONN_CREATE_CEVT conn_id status id') s else s) })"

text \<open>Opening a connection; \<open>sent\<close> says whether a buffer for the command could be allocated. The
  destination parameters of the command are not part of this state.\<close>

definition NFC_ConnCreate :: "bool \<Rightarrow> u8 \<Rightarrow> u8 \<Rightarrow> u8 \<Rightarrow> bool \<Rightarrow> nfc_conns \<Rightarrow> u8 \<times> nfc_conns" where
  "NFC_ConnCreate sent dest_type id' protocol cback s =
    (case nfc_alloc_conn_cb cback s of
       (None, s) \<Rightarrow> (NCI_STATUS_FAILED, s)
     | (Some i, s) \<Rightarrow>
        let s = upd_cb i (\<lambda>c. c \<lparr> cc_id := (if dest_type = NCI_DEST_TYPE_NFCC then NFC_TEST_ID else id'),
                                   cc_act_protocol := protocol, cc_cback := cback \<rparr>) s
        in if sent then (NCI_STATUS_OK, s) else (NCI_STATUS_FAILED, nfc_free_conn_cb (Some i) s))"

definition nfc_ncif_report_conn_close_evt :: "u8 \<Rightarrow> u8 \<Rightarrow> nfc_conns \<Rightarrow> nfc_conns" where
  "nfc_ncif_report_conn_close_evt conn_id status s =
    (case nfc_find_conn_cb_by_conn_id conn_id s of
       None \<Rightarrow> s
     | Some i \<Rightarrow>
        let cback = cc_cback (nc_conn_cb s ! i); s = nfc_free_conn_cb (Some i) s
        in if cback then nc_event (NFC_CONN_CLOSE_CEVT conn_id status) s else s)"

definition nfc_ncif_error_status :: "u8 \<Rightarrow> u8 \<Rightarrow> nfc_conns \<Rightarrow> nfc_conns" where
  "nfc_ncif_error_status conn_id status s =
    (case nfc_find_conn_cb_by_conn_id conn_id s of
       None \<Rightarrow> s
     | Some i \<Rightarrow> if cc_cback (nc_conn_cb s ! i) then nc_event (NFC_ERROR_CEVT conn_id status) s else s)"

end
