(* ===== verification/NciSend.thy ===== *)
theory NciSend
  imports NciConn
begin

text \<open>
  Sending of data packets: the packets written to the transport are the fragments of the queued
  messages, and what cannot be sent for lack of credits stays queued.
\<close>

section \<open>Fragments and messages\<close>

text \<open>A fragment is its packet boundary flag (more fragments follow) and its payload.\<close>

type_synonym frag = "bool \<times> mem"

definition frag_pkt :: "u8 \<Rightarrow> frag \<Rightarrow> mem" where
  "frag_pkt cid f = nci_data_hdr (if fst f then 1 else 0) cid (of_nat (length (snd f))) @ snd f"

text \<open>Reassembly as the NCI specification has it: the complete messages and the incomplete rest, when
  \<open>acc\<close> has been received before.\<close>

fun unfrag :: "mem \<Rightarrow> frag list \<Rightarrow> mem list \<times> mem" where
  "unfrag acc [] = ([], acc)"
| "unfrag acc ((mf, b) # fs) =
    (if mf then unfrag (acc @ b) fs
     else (case unfrag [] fs of (ms, r) \<Rightarrow> ((acc @ b) # ms, r)))"

text \<open>The messages of which \<open>r\<close> was already taken off the first.\<close>

definition glue :: "mem \<Rightarrow> mem list \<Rightarrow> mem list" where
  "glue r xs = (case xs of [] \<Rightarrow> (if r = [] then [] else [r]) | x # ys \<Rightarrow> (r @ x) # ys)"

lemma glue_Nil [simp]: "glue [] xs = xs"
  by (cases xs) (simp_all add: glue_def)

lemma glue_Cons [simp]: "glue r (x # xs) = (r @ x) # xs"
  by (simp add: glue_def)

section \<open>Packets on the queue\<close>

definition hdr_ok :: "nfc_hdr \<Rightarrow> bool" where
  "hdr_ok h \<longleftrightarrow> 3 \<le> unat (h_offset h) \<and> unat (h_offset h) + unat (h_len h) \<le> length (h_data h) \<and> length (h_data h) < 2 ^ 16"

definition payload :: "nfc_hdr \<Rightarrow> mem" where
  "payload h = take (unat (h_len h)) (drop (unat (h_offset h)) (h_data h))"

lemma length_payload: "hdr_ok h \<Longrightarrow> length (payload h) = unat (h_len h)"
  by (auto simp: hdr_ok_def payload_def min_def)

lemma wr_replicate:
  assumes "k + length bs \<le> n"
  shows "wr_bytes (replicate n z) k bs = Some (replicate k z @ bs @ replicate (n - (k + length bs)) z)"
proof (cases "bs = []")
  case True
  then show ?thesis using assms replicate_add [of k "n - k" z] by (simp add: wr_bytes_def)
qed (use assms in \<open>simp add: wr_bytes_def min_def\<close>)

lemma length_data_hdr [simp]: "length (nci_data_hdr a b c) = 3"
  by (simp add: nci_data_hdr_def)

lemma unat_plus3: "unat w + 3 < 2 ^ 16 \<Longrightarrow> unat (w + 3 :: u16) = unat w + 3"
  by (simp add: unat_word_ariths)

lemma unat_minus3: "3 \<le> unat w \<Longrightarrow> unat (w - 3 :: u16) = unat w - 3"
  by (subst unat_sub) (simp_all add: word_le_nat_alt)

lemma data_write_spec:
  assumes "hdr_ok p"
  shows "nci_data_write p pbf cid ulen = Some (nci_data_hdr pbf cid ulen @ payload p)"
proof -
  let ?o = "unat (h_offset p)" and ?l = "unat (h_len p)" and ?h = "nci_data_hdr pbf cid ulen"
  have off: "unat (h_offset p - 3) = ?o - 3" and len: "unat (h_len p + 3) = ?l + 3"
    using assms by (auto simp: hdr_ok_def intro!: unat_plus3 unat_minus3)
  have ne: "?h \<noteq> []" by (simp add: nci_data_hdr_def)
  let ?d = "take (?o - 3) (h_data p) @ ?h @ drop ?o (h_data p)"
  have w: "wr_bytes (h_data p) (?o - 3) ?h = Some ?d" using assms ne by (auto simp: wr_bytes_def hdr_ok_def)
  have "rd_bytes ?d (?o - 3) (?l + 3) = Some (?h @ payload p)"
    using assms by (auto simp: rd_bytes_def payload_def hdr_ok_def min_def)
  then show ?thesis using w by (simp add: nci_data_write_def off len)
qed

lemma unat_ucast_u8: "unat (ucast (b :: u8) :: u16) = unat b"
  by (simp add: unsigned_ucast_eq take_bit_nat_eq_self_iff order.strict_trans1 [OF unat_byte_le])

lemma new_fragment_spec:
  assumes "hdr_ok p" "unat ulen \<le> unat (h_len p)"
  shows "\<exists>f. nci_new_fragment p ulen = Some f \<and> hdr_ok f \<and> payload f = take (unat ulen) (payload p)"
proof -
  let ?ps = "take (unat ulen) (drop (unat (h_offset p)) (h_data p))"
  have r: "rd_bytes (h_data p) (unat (h_offset p)) (unat ulen) = Some ?ps" using assms by (auto simp: rd_bytes_def hdr_ok_def)
  have l: "length ?ps = unat ulen" using assms by (auto simp: hdr_ok_def)
  have ps: "?ps = take (unat ulen) (payload p)" using assms(2) by (simp add: payload_def min_def)
  have "wr_bytes (replicate 652 0) 5 ?ps = Some (replicate 5 0 @ ?ps @ replicate (652 - (5 + unat ulen)) 0)"
    using wr_replicate [of 5 ?ps 652 0] unat_byte_le [of ulen] unfolding l by simp
  then show ?thesis using r l ps unat_byte [of ulen]
    by (simp add: nci_new_fragment_def hdr_ok_def payload_def unat_ucast_u8)
qed

lemma advance_spec:
  assumes "hdr_ok p" "unat ulen \<le> unat (h_len p)"
  defines "p' \<equiv> p \<lparr> h_len := h_len p - ucast ulen, h_offset := h_offset p + ucast (ulen :: u8) \<rparr>"
  shows "hdr_ok p' \<and> payload p' = drop (unat ulen) (payload p) \<and> unat (h_len p') = unat (h_len p) - unat ulen"
proof -
  have l: "unat (h_len p - ucast ulen) = unat (h_len p) - unat ulen"
    using assms(2) by (subst unat_sub) (simp_all add: word_le_nat_alt unat_ucast_u8)
  have o: "unat (h_offset p + ucast ulen) = unat (h_offset p) + unat ulen"
    using assms(1,2) by (subst unat_add_lem [THEN iffD1]) (auto simp: hdr_ok_def unat_ucast_u8)
  show ?thesis using assms(1,2) by (simp add: p'_def hdr_ok_def payload_def l o drop_take add.commute)
qed

lemma dec_credit_cases: "0 < n \<Longrightarrow> if n = NFC_CONN_NO_FC then dec_credit n = n else Suc (unat (dec_credit n)) = unat n"
  by (auto simp: dec_credit_def unat_minus_one word_gt_0 unat_eq_0 [symmetric])

section \<open>The sending loop\<close>

text \<open>The bytes and packets still to send decrease with every round.\<close>

definition tx_todo :: "nfc_hdr list \<Rightarrow> nat" where
  "tx_todo q = sum_list (map (\<lambda>h. unat (h_len h) + 1) q)"

text \<open>Only the first packet may be larger than the buffer of the controller: the code does not set the
  packet boundary flag again after it has finished one packet.\<close>

definition tx_ok :: "u8 \<Rightarrow> u8 \<Rightarrow> nfc_hdr list \<Rightarrow> bool" where
  "tx_ok pbf B q \<longleftrightarrow> (\<forall>h\<in>set q. hdr_ok h) \<and> (\<forall>h\<in>set (tl q). unat (h_len h) \<le> unat B) \<and>
     (pbf = 1 \<or> (\<forall>h\<in>set q. unat (h_len h) \<le> unat B))"

definition credits_used :: "u8 \<Rightarrow> u8 \<Rightarrow> nat \<Rightarrow> bool" where
  "credits_used n n' k \<longleftrightarrow> (if n = NFC_CONN_NO_FC then n' = n else unat n = unat n' + k)"

lemma credits_used_dec:
  assumes "0 < n" "credits_used (dec_credit n) n' k"
  shows "credits_used n n' (Suc k)"
proof -
  have "unat n < 256" by (rule unat_byte)
  then have "dec_credit n = NFC_CONN_NO_FC \<longleftrightarrow> n = NFC_CONN_NO_FC"
    using dec_credit_cases [OF assms(1)] by (auto simp: word_unat_eq_iff split: if_splits)
  then show ?thesis using assms dec_credit_cases [OF assms(1)] by (auto simp: credits_used_def split: if_splits)
qed

text \<open>The fragments \<open>fs\<close> carry the messages \<open>xs\<close> up to the rest \<open>ys\<close>.\<close>

definition frags_of :: "mem list \<Rightarrow> frag list \<Rightarrow> mem list \<Rightarrow> bool" where
  "frags_of xs fs ys \<longleftrightarrow> (\<forall>acc ms r. unfrag acc fs = (ms, r) \<longrightarrow>
     glue acc xs = ms @ glue r ys \<and> (ys = [] \<longrightarrow> r = (if xs = [] then acc else [])))"

lemma frags_of_Nil: "frags_of xs [] xs"
  by (simp add: frags_of_def)

lemma frags_of_last:
  assumes "frags_of xs fs ys"
  shows "frags_of (x # xs) ((False, x) # fs) ys"
proof -
  obtain ms r where u: "unfrag [] fs = (ms, r)" by (cases "unfrag [] fs")
  then have "xs = ms @ glue r ys" "ys = [] \<longrightarrow> r = []" using assms by (fastforce simp: frags_of_def)+
  then show ?thesis by (simp add: frags_of_def u)
qed

lemma frags_of_more:
  assumes "frags_of (drop k x # xs) fs ys"
  shows "frags_of (x # xs) ((True, take k x) # fs) ys"
  unfolding frags_of_def
proof (intro allI impI)
  fix acc ms r
  assume "unfrag acc ((True, take k x) # fs) = (ms, r)"
  then have "unfrag (acc @ take k x) fs = (ms, r)" by simp
  with assms have "glue (acc @ take k x) (drop k x # xs) = ms @ glue r ys \<and> (ys = [] \<longrightarrow> r = [])"
    unfolding frags_of_def by (metis list.distinct(1))
  then show "glue acc (x # xs) = ms @ glue r ys \<and> (ys = [] \<longrightarrow> r = (if x # xs = [] then acc else []))" by simp
qed

text \<open>The number of packets a queue needs.\<close>

definition tx_frags :: "u8 \<Rightarrow> nfc_hdr list \<Rightarrow> nat" where
  "tx_frags B q = sum_list (map (\<lambda>h. (unat (h_len h) - 1) div unat B + 1) q)"

lemma tx_frags_more:
  assumes "unat (h_len p') = unat (h_len p) - unat B" "0 < unat B" "unat B < unat (h_len p)"
  shows "tx_frags B (p # q) = Suc (tx_frags B (p' # q))"
  using assms div_add_self2 [of "unat B" "unat (h_len p) - unat B - 1"] by (simp add: tx_frags_def)

definition sent_ok :: "conn_cb \<Rightarrow> conn_cb \<Rightarrow> frag list \<Rightarrow> bool" where
  "sent_ok c c' fs \<longleftrightarrow>
     c' = c \<lparr> cc_tx_q := cc_tx_q c', cc_num_buff := cc_num_buff c' \<rparr> \<and>
     credits_used (cc_num_buff c) (cc_num_buff c') (length fs) \<and>
     (\<forall>f\<in>set fs. length (snd f) \<le> unat (cc_buff_size c)) \<and> (\<forall>h\<in>set (cc_tx_q c'). hdr_ok h) \<and>
     (cc_tx_q c' = [] \<or> cc_num_buff c' = 0) \<and>
     tx_frags (cc_buff_size c) (cc_tx_q c) = length fs + tx_frags (cc_buff_size c) (cc_tx_q c') \<and>
     frags_of (map payload (cc_tx_q c)) fs (map payload (cc_tx_q c'))"

lemma sent_ok_Nil: "cc_tx_q c = [] \<or> cc_num_buff c = 0 \<Longrightarrow> \<forall>h\<in>set (cc_tx_q c). hdr_ok h \<Longrightarrow> sent_ok c c []"
  by (auto simp: sent_ok_def credits_used_def frags_of_Nil)

lemma sent_ok_step:
  assumes n: "0 < cc_num_buff c" and f: "length (snd f) \<le> unat (cc_buff_size c)"
    and fr: "\<And>fs ys. frags_of (map payload q) fs ys \<Longrightarrow> frags_of (map payload (cc_tx_q c)) (f # fs) ys"
    and k: "tx_frags (cc_buff_size c) (cc_tx_q c) = Suc (tx_frags (cc_buff_size c) q)"
    and s: "sent_ok (c \<lparr> cc_tx_q := q, cc_num_buff := dec_credit (cc_num_buff c) \<rparr>) c' fs"
  shows "sent_ok c c' (f # fs)"
  using s f fr k credits_used_dec [OF n] by (simp add: sent_ok_def)

lemma send_loop_spec:
  assumes "tx_ok pbf (cc_buff_size c) (cc_tx_q c)" "0 < cc_buff_size c" "\<forall>n. alloc n"
  shows "\<exists>c' fs. send_loop alloc pbf c out = Some (NCI_STATUS_OK, c', out @ map (frag_pkt (cc_conn_id c)) fs) \<and> sent_ok c c' fs"
  using assms
proof (induction "tx_todo (cc_tx_q c)" arbitrary: c pbf out rule: less_induct)
  case less
  let ?B = "cc_buff_size c" and ?n = "dec_credit (cc_num_buff c)"
  show ?case
  proof (cases "cc_tx_q c = [] \<or> cc_num_buff c = 0")
    case True
    then have "send_loop alloc pbf c out = Some (NCI_STATUS_OK, c, out)"
      by (subst send_loop.simps) (auto split: list.split)
    then show ?thesis using sent_ok_Nil [OF True] less.prems(1) by (auto simp: tx_ok_def intro!: exI [of _ "[]"])
  next
    case False
    then obtain p q where q: "cc_tx_q c = p # q" and n: "0 < cc_num_buff c" by (cases "cc_tx_q c") (auto simp: word_gt_0)
    have p: "hdr_ok p" using less.prems(1) q by (simp add: tx_ok_def)
    show ?thesis
    proof (cases "h_len p \<le> ucast ?B")
      case True
      then have le: "unat (h_len p) \<le> unat ?B" by (simp add: word_le_nat_alt unat_ucast_u8)
      let ?c = "c \<lparr> cc_tx_q := q, cc_num_buff := ?n \<rparr>"
      have pkt: "nci_data_write p 0 (cc_conn_id c) (ucast (h_len p)) = Some (frag_pkt (cc_conn_id c) (False, payload p))"
        using data_write_spec [OF p] by (simp add: frag_pkt_def length_payload [OF p])
      have "tx_todo (cc_tx_q ?c) < tx_todo (cc_tx_q c)" by (simp add: q tx_todo_def)
      moreover have "tx_ok 0 (cc_buff_size ?c) (cc_tx_q ?c)" using less.prems(1) by (cases q) (auto simp: tx_ok_def q)
      ultimately obtain c' fs where c': "send_loop alloc 0 ?c (out @ [frag_pkt (cc_conn_id c) (False, payload p)]) =
          Some (NCI_STATUS_OK, c', (out @ [frag_pkt (cc_conn_id c) (False, payload p)]) @ map (frag_pkt (cc_conn_id ?c)) fs)" "sent_ok ?c c' fs"
        using less.hyps [of ?c 0 "out @ [frag_pkt (cc_conn_id c) (False, payload p)]"] less.prems(2,3) by auto
      have "send_loop alloc pbf c out = Some (NCI_STATUS_OK, c', out @ map (frag_pkt (cc_conn_id c)) ((False, payload p) # fs))"
        using True n pkt c'(1) by (subst send_loop.simps) (simp add: q)
      moreover have "sent_ok c c' ((False, payload p) # fs)"
        by (rule sent_ok_step [OF n _ _ _ c'(2)]) (use frags_of_last length_payload [OF p] le less.prems(2) in \<open>auto simp: q tx_frags_def word_less_nat_alt\<close>)
      ultimately show ?thesis by blast
    next
      case False
      then have B: "unat ?B \<le> unat (h_len p)" "\<not> unat (h_len p) \<le> unat ?B" by (simp_all add: word_le_nat_alt unat_ucast_u8)
      have pbf: "pbf = 1" using less.prems(1) B(2) by (auto simp: tx_ok_def q)
      obtain f where f: "nci_new_fragment p ?B = Some f" "hdr_ok f" "payload f = take (unat ?B) (payload p)"
        using new_fragment_spec [OF p B(1)] by blast
      define p' where "p' = p \<lparr> h_len := h_len p - ucast ?B, h_offset := h_offset p + ucast ?B \<rparr>"
      have p': "hdr_ok p'" "payload p' = drop (unat ?B) (payload p)" "unat (h_len p') = unat (h_len p) - unat ?B"
        using advance_spec [OF p B(1)] by (auto simp: p'_def)
      have len: "unat ?B \<le> length (payload p)" using length_payload [OF p] B(1) by simp
      let ?c = "c \<lparr> cc_tx_q := p' # q, cc_num_buff := ?n \<rparr>" and ?f = "(True, take (unat ?B) (payload p))"
      have pkt: "nci_data_write f pbf (cc_conn_id c) ?B = Some (frag_pkt (cc_conn_id c) ?f)"
        using data_write_spec [OF f(2)] f(3) len by (simp add: frag_pkt_def pbf min_def)
      have pos: "0 < unat ?B" using less.prems(2) by (simp add: word_less_nat_alt)
      then have "tx_todo (cc_tx_q ?c) < tx_todo (cc_tx_q c)" using p'(3) B by (simp add: q tx_todo_def)
      moreover have "tx_ok pbf (cc_buff_size ?c) (cc_tx_q ?c)" using less.prems(1) p'(1) pbf by (auto simp: tx_ok_def q)
      ultimately obtain c' fs where c': "send_loop alloc pbf ?c (out @ [frag_pkt (cc_conn_id c) ?f]) =
          Some (NCI_STATUS_OK, c', (out @ [frag_pkt (cc_conn_id c) ?f]) @ map (frag_pkt (cc_conn_id ?c)) fs)" "sent_ok ?c c' fs"
        using less.hyps [of ?c pbf "out @ [frag_pkt (cc_conn_id c) ?f]"] less.prems(2,3) by auto
      have "send_loop alloc pbf c out = Some (NCI_STATUS_OK, c', out @ map (frag_pkt (cc_conn_id c)) (?f # fs))"
        using False n pkt f(1) c'(1) less.prems(3) by (subst send_loop.simps) (simp add: q p'_def [symmetric] Let_def)
      moreover have "sent_ok c c' (?f # fs)"
        by (rule sent_ok_step [OF n _ _ _ c'(2)]) (use frags_of_more p'(2) tx_frags_more [OF p'(3) pos] B(2) in \<open>auto simp: q\<close>)
      ultimately show ?thesis by blast
    qed
  qed
qed

section \<open>The control-block table\<close>

text \<open>Every entry of the identifier table leads to a block of the table that carries this identifier.\<close>

definition conns_ok :: "nfc_conns \<Rightarrow> bool" where
  "conns_ok s \<longleftrightarrow> length (nc_conn_cb s) = NCI_MAX_CONN_CBS \<and> length (nc_conn_id s) = NFC_MAX_CONN_ID + 1 \<and>
     (\<forall>j\<le>NFC_MAX_CONN_ID. 0 < nc_conn_id s ! j \<longrightarrow>
        unat (nc_conn_id s ! j) \<le> NCI_MAX_CONN_CBS \<and> cc_conn_id (nc_conn_cb s ! (unat (nc_conn_id s ! j) - 1)) = of_nat j)"

lemma find_cb_Some: "find_cb P cs k = Some i \<Longrightarrow> k \<le> i \<and> i < k + length cs \<and> P (cs ! (i - k))"
proof (induction cs arbitrary: k)
  case (Cons c cs)
  show ?case
  proof (cases "P c")
    case False
    then have "Suc k \<le> i \<and> i < Suc k + length cs \<and> P (cs ! (i - Suc k))"
      using Cons.IH [of "Suc k"] Cons.prems by simp
    moreover from this have "(c # cs) ! (i - k) = cs ! (i - Suc k)" by (simp add: nth_Cons')
    ultimately show ?thesis by simp
  qed (use Cons.prems in simp)
qed simp

lemma find_cb_None: "find_cb P cs k = None \<longleftrightarrow> (\<forall>c\<in>set cs. \<not> P c)"
  by (induction cs arbitrary: k) auto

lemma low_nibble: "unat ((w :: u8) AND 0x0F) \<le> 15"
proof -
  have "w AND 0x0F = take_bit 4 w" by (simp add: take_bit_eq_mask mask_eq_exp_minus_1)
  then show ?thesis using unsigned_take_bit_eq [of 4 w, where 'a = nat] take_bit_nat_less_exp [of 4 "unat w"] by simp
qed

lemma find_conn_in:
  assumes "conns_ok s" "nfc_find_conn_cb_by_conn_id cid s = Some i"
  shows "i < NCI_MAX_CONN_CBS \<and> (if cid = NFC_PEND_CONN_ID then cc_conn_id (nc_conn_cb s ! i) = NFC_PEND_CONN_ID
    else cc_conn_id (nc_conn_cb s ! i) = cid AND 0x0F)"
proof (cases "cid = NFC_PEND_CONN_ID")
  case True
  then show ?thesis using assms find_cb_Some [of _ "nc_conn_cb s" 0 i] by (auto simp: nfc_find_conn_cb_by_conn_id_def conns_ok_def)
next
  case False
  let ?j = "unat (cid AND 0x0F)"
  have j: "?j < NFC_MAX_CONN_ID" "0 < nc_conn_id s ! ?j" "i = unat (nc_conn_id s ! ?j) - 1"
    using assms(2) False by (auto simp: nfc_find_conn_cb_by_conn_id_def Let_def split: if_splits)
  then have "unat (nc_conn_id s ! ?j) \<le> NCI_MAX_CONN_CBS" "cc_conn_id (nc_conn_cb s ! i) = of_nat ?j"
    using assms(1) by (auto simp: conns_ok_def)
  then show ?thesis using j False by (auto simp: word_less_nat_alt)
qed

section \<open>The entry point\<close>

definition tx_allowed :: "nat \<Rightarrow> nfc_conns \<Rightarrow> bool" where
  "tx_allowed i s \<longleftrightarrow> (cc_id (nc_conn_cb s ! i) = NFC_RF_CONN_ID \<longrightarrow> nc_state s = NFC_STATE_OPEN) \<and>
     nc_flags s AND NFC_FL_WAIT_RF_INTF_EXT_RSP = 0"

lemma send_data_spec:
  assumes "i < length (nc_conn_cb s)" "tx_allowed i s" "c = nc_conn_cb s ! i" "q = cc_tx_q c @ (case p_data of None \<Rightarrow> [] | Some p \<Rightarrow> [p])"
    "tx_ok 1 (cc_buff_size c) q" "0 < cc_buff_size c" "\<forall>n. alloc n"
  shows "\<exists>c' fs s'. nfc_ncif_send_data alloc i p_data s = Some (NCI_STATUS_OK, s') \<and>
    s' = s \<lparr> nc_conn_cb := (nc_conn_cb s)[i := c'], nc_out := nc_out s @ map (frag_pkt (cc_conn_id c)) fs \<rparr> \<and>
    sent_ok (c \<lparr> cc_tx_q := q \<rparr>) c' fs"
proof -
  obtain c' fs where "send_loop alloc 1 (c \<lparr> cc_tx_q := q \<rparr>) [] = Some (NCI_STATUS_OK, c', map (frag_pkt (cc_conn_id c)) fs)"
    "sent_ok (c \<lparr> cc_tx_q := q \<rparr>) c' fs"
    using send_loop_spec [of 1 "c \<lparr> cc_tx_q := q \<rparr>" alloc "[]"] assms(5-7) by auto
  then show ?thesis using assms(1-4) by (auto simp: nfc_ncif_send_data_def tx_allowed_def Let_def upd_cb_def)
qed

end
