(* ===== verification/NciReceive.thy ===== *)
theory NciReceive
  imports NciSend
begin

text \<open>
  Receiving: the packets of the transport are put in buffers and reassembled, and the upper layer gets
  exactly the messages the fragments carry.
\<close>

section \<open>A fragment in a receive buffer\<close>

text \<open>A buffer that holds a data packet: header, then \<open>b\<close>.\<close>

definition rx_holds :: "nfc_hdr \<Rightarrow> mem \<Rightarrow> bool" where
  "rx_holds h b \<longleftrightarrow> h_offset h = 10 \<and> unat (h_len h) = 3 + length b \<and> take (length b) (drop 13 (h_data h)) = b \<and>
     13 + length b \<le> length (h_data h) \<and> length (h_data h) \<in> {652, GKI_MAX_BUF_SIZE - 8}"

definition ras_limit :: nat where
  "ras_limit = GKI_MAX_BUF_SIZE - 8 - 13"

lemma cback_spec:
  assumes "length (snd f) \<le> 255"
  shows "\<exists>h. nfc_main_hal_data_cback True (frag_pkt cid f) = Some (Some h) \<and> rx_holds h (snd f) \<and>
    h_data h ! 10 = (if fst f then 0x10 OR cid else cid)"
proof -
  have l: "length (frag_pkt cid f) = 3 + length (snd f)" by (simp add: frag_pkt_def)
  let ?d = "replicate 10 0 @ frag_pkt cid f @ replicate (652 - (10 + length (frag_pkt cid f))) 0"
  let ?h = "\<lparr> h_event = 0x4000, h_len = of_nat (length (frag_pkt cid f)), h_offset = 10, h_layer = 0, h_data = ?d \<rparr>"
  have w: "wr_bytes (replicate 652 0) 10 (frag_pkt cid f) = Some ?d"
    by (rule wr_replicate) (use assms l in simp)
  have u: "unat (of_nat (length (frag_pkt cid f)) :: u16) = 3 + length (snd f)"
    unfolding l using assms by (simp only: unat_of_nat) simp
  have "rx_holds ?h (snd f)" unfolding rx_holds_def using assms l u
    by (simp del: of_nat_add) (simp add: frag_pkt_def nci_data_hdr_def)
  moreover have "?d ! 10 = (if fst f then 0x10 OR cid else cid)" by (simp add: nth_append frag_pkt_def nci_data_hdr_def)
  ultimately show ?thesis using w by (auto simp: nfc_main_hal_data_cback_def simp del: length_append append.simps)
qed

lemma flag_bits:
  assumes "cid AND 0x0F = (cid :: u8)"
  shows "(0x10 OR cid) AND 0x0F = cid" "(0x10 OR cid) AND 0x10 = 0x10" "cid AND 0x10 = 0"
proof -
  have z: "cid AND 0x10 = 0" by (subst assms [symmetric]) (simp add: and.assoc)
  then show "cid AND 0x10 = 0" .
  show "(0x10 OR cid) AND 0x0F = cid" using assms by (simp add: bit.conj_disj_distrib2)
  show "(0x10 OR cid) AND 0x10 = 0x10" using z by (simp add: bit.conj_disj_distrib2)
qed

section \<open>Reporting\<close>

text \<open>The connection \<open>i\<close> has identifier \<open>cid\<close> and a callback, and no status byte is taken off its data:
  it is not the RF connection, or its protocol is not one of the frame protocols.\<close>

definition no_status :: "u8 \<Rightarrow> conn_cb \<Rightarrow> bool" where
  "no_status v c \<longleftrightarrow> cc_conn_id c \<noteq> NFC_RF_CONN_ID \<or>
     \<not> (1 \<le> cc_act_protocol c \<and> cc_act_protocol c \<le> 3) \<and> \<not> (0x20 \<le> v \<and> cc_act_protocol c = 6)"

definition rx_conn :: "nfc_conns \<Rightarrow> nat \<Rightarrow> u8 \<Rightarrow> bool" where
  "rx_conn s i cid \<longleftrightarrow> i < length (nc_conn_cb s) \<and> cid AND 0x0F = cid \<and> nfc_find_conn_cb_by_conn_id cid s = Some i \<and>
     cc_conn_id (nc_conn_cb s ! i) = cid \<and> cc_cback (nc_conn_cb s ! i) \<and> no_status (nc_version s) (nc_conn_cb s ! i)"

lemma data_status_none: "no_status (nc_version s) c \<Longrightarrow> data_status s c e st = Some (st, h_len e)"
  by (auto simp: data_status_def no_status_def)

lemma holds_read: "rx_holds h b \<Longrightarrow> rd_bytes (h_data h) 13 (length b) = Some b"
  by (auto simp: rx_holds_def rd_bytes_def)

lemma data_event_wait:
  assumes "cc_rx_q (nc_conn_cb s ! i) = [h]" "h_layer h = NFC_RAS_FRAGMENTED" "nc_reassembly s"
  shows "nfc_data_event i s = Some s"
proof -
  have "(nc_conn_cb s ! i) \<lparr> cc_rx_q := [h] \<rparr> = nc_conn_cb s ! i" using assms(1) by (cases "nc_conn_cb s ! i") simp
  then have "upd_cb i (\<lambda>c. c \<lparr> cc_rx_q := [h] \<rparr>) s = s" unfolding upd_cb_def by (simp only: list_update_id) simp
  then show ?thesis using assms by (simp add: nfc_data_event_def Let_def)
qed

lemma data_event_report:
  assumes "rx_conn s i cid" "cc_rx_q (nc_conn_cb s ! i) = [h]" "h_layer h = 0" "rx_holds h b"
  shows "nfc_data_event i s = Some (upd_cb i (\<lambda>c. c \<lparr> cc_rx_q := [] \<rparr>)
    (nc_event (NFC_DATA_CEVT cid NCI_STATUS_OK b) (s \<lparr> nc_reassembly := True \<rparr>)))"
proof -
  have "unat (h_offset h + 3) = 13" "unat (h_len h - 3) = length b"
    using assms(4) by (simp_all add: rx_holds_def unat_minus3)
  then show ?thesis using assms holds_read [OF assms(4)]
    by (simp add: nfc_data_event_def rx_conn_def data_status_none Let_def nc_event_def upd_cb_def)
qed

section \<open>Reassembly\<close>

lemma ras_room_spec:
  assumes h: "rx_holds h acc" "h_layer h = NFC_RAS_FRAGMENTED" and l: "length acc + length b \<le> ras_limit"
  shows "\<exists>h'. ras_room True h (length b) = Some h' \<and> h_layer h' = NFC_RAS_FRAGMENTED \<and> rx_holds h' acc \<and>
    13 + length acc + length b \<le> length (h_data h')"
proof (cases "13 + length acc + length b \<le> length (h_data h)")
  case True
  then show ?thesis using h by (simp add: ras_room_def buf_size_def rx_holds_def)
next
  case False
  let ?bs = "take (3 + length acc) (drop 10 (h_data h))" and ?n = "GKI_MAX_BUF_SIZE - 8"
  have small: "buf_size h \<noteq> GKI_MAX_BUF_SIZE" "buf_size h < 8 + unat (h_len h) + unat (h_offset h) + length b"
    using False h l by (auto simp: rx_holds_def buf_size_def ras_limit_def GKI_MAX_BUF_SIZE_def)
  have len: "length ?bs = 3 + length acc" using h by (auto simp: rx_holds_def)
  have r: "rd_bytes (h_data h) 10 (3 + length acc) = Some ?bs" using h by (auto simp: rd_bytes_def rx_holds_def)
  have w: "wr_bytes (replicate ?n 0) 10 ?bs = Some (replicate 10 0 @ ?bs @ replicate (?n - (10 + length ?bs)) 0)"
    by (rule wr_replicate) (use l len in \<open>simp add: ras_limit_def GKI_MAX_BUF_SIZE_def\<close>)
  have acc: "drop 3 ?bs = acc" using h by (simp add: rx_holds_def drop_take)
  have "take (length acc) (drop 13 (replicate 10 0 @ ?bs @ xs)) = acc" for xs :: mem
    using len by (simp add: acc drop_append)
  then have "\<exists>h'. ras_grow h = Some h' \<and> h_layer h' = NFC_RAS_FRAGMENTED \<and> rx_holds h' acc \<and>
      13 + length acc + length b \<le> length (h_data h')"
    using h r w len l by (auto simp: ras_grow_def rx_holds_def ras_limit_def GKI_MAX_BUF_SIZE_def)
  then show ?thesis using small by (simp add: ras_room_def)
qed

lemma ras_append:
  assumes h: "rx_holds h acc" and m: "rx_holds m b" and l: "13 + length acc + length b \<le> length (h_data h)"
  shows "\<exists>d. wr_bytes (h_data h) (unat (h_offset h) + unat (h_len h)) b = Some d \<and>
    rx_holds (h \<lparr> h_data := d, h_len := h_len h + (h_len m - 3), h_layer := lay \<rparr>) (acc @ b)"
proof -
  let ?k = "13 + length acc"
  have at: "unat (h_offset h) + unat (h_len h) = ?k" using h by (simp add: rx_holds_def)
  have lm: "unat (h_len m - 3) = length b" using m by (simp add: rx_holds_def unat_minus3)
  have "unat (h_len h) + length b < 2 ^ 16" using h l by (auto simp: rx_holds_def GKI_MAX_BUF_SIZE_def)
  then have ll: "unat (h_len h + (h_len m - 3)) = 3 + length (acc @ b)"
    using h by (simp add: unat_word_ariths lm rx_holds_def)
  obtain d where d: "wr_bytes (h_data h) ?k b = Some d" "length d = length (h_data h)" "take ?k d = take ?k (h_data h)"
      "take (length b) (drop ?k d) = b"
    using l by (cases "b = []") (auto simp: wr_bytes_def)
  have "take (length acc) (drop 13 d) = acc"
    using arg_cong [OF d(3), of "drop 13"] h by (simp add: drop_take rx_holds_def)
  moreover have "take (length b) (drop (length acc) (drop 13 d)) = b" using d(4) by (simp add: add.commute)
  ultimately have "take (length (acc @ b)) (drop 13 d) = acc @ b" by (simp add: take_add)
  then show ?thesis using d(1,2) h l ll by (auto simp: at rx_holds_def)
qed

section \<open>One packet\<close>

text \<open>What the transport delivers: the packet is put in a buffer and processed.\<close>

definition recv_pkt :: "mem \<Rightarrow> nfc_conns \<Rightarrow> nfc_conns option" where
  "recv_pkt pkt s = do {
     h \<leftarrow> nfc_main_hal_data_cback True pkt;
     case h of None \<Rightarrow> Some s | Some h \<Rightarrow> nfc_ncif_proc_data True h s }"

fun recv_all :: "mem list \<Rightarrow> nfc_conns \<Rightarrow> nfc_conns option" where
  "recv_all [] s = Some s"
| "recv_all (p # ps) s = do { s \<leftarrow> recv_pkt p s; recv_all ps s }"

text \<open>The receive queue of connection \<open>i\<close> is empty, or holds the fragments received so far.\<close>

definition ras_state :: "nfc_conns \<Rightarrow> nat \<Rightarrow> mem option \<Rightarrow> bool" where
  "ras_state s i a \<longleftrightarrow> (case a of None \<Rightarrow> cc_rx_q (nc_conn_cb s ! i) = []
     | Some acc \<Rightarrow> \<exists>h. cc_rx_q (nc_conn_cb s ! i) = [h] \<and> h_layer h = NFC_RAS_FRAGMENTED \<and> rx_holds h acc)"

definition got :: "mem option \<Rightarrow> mem" where
  "got a = (case a of None \<Rightarrow> [] | Some acc \<Rightarrow> acc)"

definition data_evts :: "nfc_conns \<Rightarrow> conn_evt list" where
  "data_evts s = filter (\<lambda>e. case e of NFC_DATA_CEVT _ _ _ \<Rightarrow> True | _ \<Rightarrow> False) (nc_events s)"

lemma upd_cb_simps [simp]:
  "nc_conn_cb (upd_cb i f s) = (nc_conn_cb s)[i := f (nc_conn_cb s ! i)]" "nc_conn_id (upd_cb i f s) = nc_conn_id s"
  "nc_version (upd_cb i f s) = nc_version s" "nc_reassembly (upd_cb i f s) = nc_reassembly s" "nc_events (upd_cb i f s) = nc_events s"
  "nc_conn_cb (nc_event e s) = nc_conn_cb s" "nc_conn_id (nc_event e s) = nc_conn_id s" "nc_version (nc_event e s) = nc_version s"
  "nc_reassembly (nc_event e s) = nc_reassembly s" "nc_events (nc_event e s) = nc_events s @ [e]"
  by (simp_all add: upd_cb_def nc_event_def)

lemma find_conn_cong:
  "cid AND 0x0F = cid \<Longrightarrow> nc_conn_id s' = nc_conn_id s \<Longrightarrow> nfc_find_conn_cb_by_conn_id cid s' = nfc_find_conn_cb_by_conn_id cid s"
  by (auto simp: nfc_find_conn_cb_by_conn_id_def)

lemma rx_conn_upd:
  assumes "rx_conn s i cid" "nc_conn_cb s' = (nc_conn_cb s)[i := (nc_conn_cb s ! i) \<lparr> cc_rx_q := q \<rparr>]" "nc_conn_id s' = nc_conn_id s"
    "nc_version s' = nc_version s"
  shows "rx_conn s' i cid"
  using assms find_conn_cong [of cid s' s] by (simp add: rx_conn_def no_status_def)

text \<open>The state after a packet, for both outcomes.\<close>

definition rx_next :: "nfc_conns \<Rightarrow> nfc_conns \<Rightarrow> nat \<Rightarrow> u8 \<Rightarrow> mem option \<Rightarrow> frag \<Rightarrow> bool" where
  "rx_next s s' i cid a f \<longleftrightarrow> rx_conn s' i cid \<and>
     (if fst f then ras_state s' i (Some (got a @ snd f)) \<and> data_evts s' = data_evts s
      else ras_state s' i None \<and> data_evts s' = data_evts s @ [NFC_DATA_CEVT cid NCI_STATUS_OK (got a @ snd f)])"

lemma rx_finish:
  assumes c: "rx_conn s i cid" and h: "rx_holds h b" "h_layer h = (if mf then NFC_RAS_FRAGMENTED else 0)"
    and r: "mf \<longrightarrow> nc_reassembly s" and q: "cc_rx_q (nc_conn_cb s ! i) = [h]"
  shows "\<exists>s'. nfc_data_event i s = Some s' \<and> rx_conn s' i cid \<and>
     (if mf then ras_state s' i (Some b) \<and> data_evts s' = data_evts s
      else ras_state s' i None \<and> data_evts s' = data_evts s @ [NFC_DATA_CEVT cid NCI_STATUS_OK b])"
proof (cases mf)
  case True
  then show ?thesis using data_event_wait [OF q] h r c q by (auto simp: ras_state_def)
next
  case False
  let ?s = "upd_cb i (\<lambda>c. c \<lparr> cc_rx_q := [] \<rparr>) (nc_event (NFC_DATA_CEVT cid NCI_STATUS_OK b) (s \<lparr> nc_reassembly := True \<rparr>))"
  have "nfc_data_event i s = Some ?s" using data_event_report [OF c q _ h(1)] h(2) False by simp
  moreover have "rx_conn ?s i cid" by (rule rx_conn_upd [OF c]) simp_all
  moreover have "ras_state ?s i None" "data_evts ?s = data_evts s @ [NFC_DATA_CEVT cid NCI_STATUS_OK b]"
    using c by (simp_all add: ras_state_def data_evts_def rx_conn_def)
  ultimately show ?thesis using False by auto
qed

text \<open>The part of \<open>nfc_ncif_proc_data\<close> behind the lookup of the connection.\<close>

lemma proc_data_unfold:
  assumes c: "rx_conn s i cid" and m: "rx_holds m b" "h_data m ! 10 = (if mf then 0x10 OR cid else cid)"
  defines "s1 \<equiv> if mf then s \<lparr> nc_reassembly := True \<rparr> else s" and "m1 \<equiv> m \<lparr> h_layer := (if mf then NFC_RAS_FRAGMENTED else 0) \<rparr>"
    and "cb \<equiv> nc_conn_cb s ! i"
  shows "cc_rx_q cb = [] \<Longrightarrow> nfc_ncif_proc_data True m s =
      nfc_data_event i (upd_cb i (\<lambda>c. c \<lparr> cc_rx_q := [m1] \<rparr>)
        (if mf \<and> cid = NFC_RF_CONN_ID then nc_event (NFC_DATA_START_CEVT cid) s1 else s1))"
    and "cc_rx_q cb = [h] \<Longrightarrow> h_layer h = NFC_RAS_FRAGMENTED \<Longrightarrow> ras_room True h (length b) = Some h' \<Longrightarrow>
      h_layer h' = NFC_RAS_FRAGMENTED \<Longrightarrow> wr_bytes (h_data h') (unat (h_offset h') + unat (h_len h')) b = Some d \<Longrightarrow>
      nfc_ncif_proc_data True m s = nfc_data_event i (upd_cb i (\<lambda>c. c \<lparr> cc_rx_q :=
        [h' \<lparr> h_data := d, h_len := h_len h' + (h_len m - 3), h_layer := h_layer m1 \<rparr>] \<rparr>) s1)"
proof -
  have low: "cid AND 0x0F = cid" and fnd: "nfc_find_conn_cb_by_conn_id cid s = Some i" using c by (auto simp: rx_conn_def)
  have rd: "rd8 (h_data m) (unat (h_offset m)) = Some (if mf then 0x10 OR cid else cid)"
      "\<exists>x. rd8 (h_data m) (unat (h_offset m) + 2) = Some x" "3 \<le> h_len m" "unat (h_len m - 3) = length b"
    using m by (auto simp: rx_holds_def rd8_def GKI_MAX_BUF_SIZE_def word_le_nat_alt unat_minus3)
  have hdr: "(if mf then 0x10 OR cid else cid) AND 0x0F = cid" "drop_bit 4 ((if mf then 0x10 OR cid else cid) AND 0x10) \<noteq> 0 \<longleftrightarrow> mf"
    by (cases mf; simp only: if_True if_False flag_bits [OF low] low drop_bit_of_0 simp_thms; simp)+
  show "nfc_ncif_proc_data True m s = nfc_data_event i (upd_cb i (\<lambda>c. c \<lparr> cc_rx_q := [m1] \<rparr>)
      (if mf \<and> cid = NFC_RF_CONN_ID then nc_event (NFC_DATA_START_CEVT cid) s1 else s1))" if "cc_rx_q cb = []"
    using that rd(2,3) c unfolding nfc_ncif_proc_data_def rd(1) bind.bind_lunit Let_def hdr fnd
    by (auto simp: m1_def s1_def cb_def NFC_SetReassemblyFlag_def rx_conn_def upd_cb_def nc_event_def)
  show "nfc_ncif_proc_data True m s = nfc_data_event i (upd_cb i (\<lambda>c. c \<lparr> cc_rx_q :=
      [h' \<lparr> h_data := d, h_len := h_len h' + (h_len m - 3), h_layer := h_layer m1 \<rparr>] \<rparr>) s1)"
    if "cc_rx_q cb = [h]" "h_layer h = NFC_RAS_FRAGMENTED" "ras_room True h (length b) = Some h'"
      "h_layer h' = NFC_RAS_FRAGMENTED" "wr_bytes (h_data h') (unat (h_offset h') + unat (h_len h')) b = Some d"
    using that rd(2-4) holds_read [OF m(1)] m(1) unfolding nfc_ncif_proc_data_def rd(1) bind.bind_lunit Let_def hdr fnd
    by (auto simp: m1_def s1_def cb_def NFC_SetReassemblyFlag_def rx_holds_def upd_cb_def)
qed

lemma recv_step:
  assumes c: "rx_conn s i cid" and a: "ras_state s i a" and l: "length (snd f) \<le> 255" "length (got a) + length (snd f) \<le> ras_limit"
  shows "\<exists>s'. recv_pkt (frag_pkt cid f) s = Some s' \<and> rx_next s s' i cid a f"
proof -
  obtain m where m: "nfc_main_hal_data_cback True (frag_pkt cid f) = Some (Some m)" "rx_holds m (snd f)"
    "h_data m ! 10 = (if fst f then 0x10 OR cid else cid)" using cback_spec [OF l(1)] by blast
  let ?s1 = "if fst f then s \<lparr> nc_reassembly := True \<rparr> else s" and ?lay = "if fst f then NFC_RAS_FRAGMENTED else 0"
  let ?s2 = "if fst f \<and> cid = NFC_RF_CONN_ID then nc_event (NFC_DATA_START_CEVT cid) ?s1 else ?s1"
  have fin: "\<exists>s'. nfc_data_event i (upd_cb i (\<lambda>c. c \<lparr> cc_rx_q := [h] \<rparr>) t) = Some s' \<and> rx_next s s' i cid a f"
    if h: "rx_holds h (got a @ snd f)" "h_layer h = ?lay" and t: "t = ?s1 \<or> t = ?s2" for h t
  proof -
    let ?t = "upd_cb i (\<lambda>c. c \<lparr> cc_rx_q := [h] \<rparr>) t"
    have "rx_conn ?t i cid" by (rule rx_conn_upd [OF c]) (use t in \<open>auto simp: nc_event_def\<close>)
    moreover have "cc_rx_q (nc_conn_cb ?t ! i) = [h]" using c t by (auto simp: rx_conn_def nc_event_def)
    moreover have "data_evts ?t = data_evts s" "fst f \<longrightarrow> nc_reassembly ?t" using t by (auto simp: data_evts_def nc_event_def)
    ultimately show ?thesis using rx_finish [of ?t i cid h "got a @ snd f" "fst f"] h by (auto simp: rx_next_def)
  qed
  have "\<exists>s'. nfc_ncif_proc_data True m s = Some s' \<and> rx_next s s' i cid a f"
  proof (cases a)
    case None
    then have q: "cc_rx_q (nc_conn_cb s ! i) = []" using a by (simp add: ras_state_def)
    have "rx_holds (m \<lparr> h_layer := ?lay \<rparr>) (got a @ snd f)" using m(2) None by (simp add: rx_holds_def got_def)
    then show ?thesis using proc_data_unfold(1) [OF c m(2,3) q] fin by auto
  next
    case (Some acc)
    then obtain h where h: "cc_rx_q (nc_conn_cb s ! i) = [h]" "h_layer h = NFC_RAS_FRAGMENTED" "rx_holds h acc"
      using a by (auto simp: ras_state_def)
    obtain h' where h': "ras_room True h (length (snd f)) = Some h'" "h_layer h' = NFC_RAS_FRAGMENTED" "rx_holds h' acc"
      "13 + length acc + length (snd f) \<le> length (h_data h')"
      using ras_room_spec [OF h(3,2)] l(2) Some by (auto simp: got_def)
    obtain d where d: "wr_bytes (h_data h') (unat (h_offset h') + unat (h_len h')) (snd f) = Some d"
      "rx_holds (h' \<lparr> h_data := d, h_len := h_len h' + (h_len m - 3), h_layer := ?lay \<rparr>) (acc @ snd f)"
      using ras_append [OF h'(3) m(2) h'(4)] by blast
    show ?thesis using proc_data_unfold(2) [OF c m(2,3) h(1,2) h'(1,2) d(1)] fin [OF _ _ disjI1 [OF refl]] d(2) Some
      by (simp add: got_def)
  qed
  then show ?thesis using m(1) by (simp add: recv_pkt_def)
qed

lemma recv_all_spec:
  assumes "rx_conn s i cid" "ras_state s i a" "\<forall>f\<in>set fs. length (snd f) \<le> 255" "unfrag (got a) fs = (ms, r)"
    "\<forall>m\<in>set ms. length m \<le> ras_limit" "length r \<le> ras_limit"
  shows "\<exists>s'. recv_all (map (frag_pkt cid) fs) s = Some s' \<and> rx_conn s' i cid \<and>
    data_evts s' = data_evts s @ map (NFC_DATA_CEVT cid NCI_STATUS_OK) ms \<and> (\<exists>a'. ras_state s' i a' \<and> got a' = r)"
  using assms
proof (induction fs arbitrary: s a ms)
  case Nil
  then show ?case by auto
next
  case (Cons f fs)
  obtain mf b where f: "f = (mf, b)" by (cases f)
  have grow: "unfrag x gs = (ms', r) \<Longrightarrow> length x \<le> length r \<or> (\<exists>m\<in>set ms'. length x \<le> length m)" for x gs ms'
    by (induction x gs arbitrary: ms' rule: unfrag.induct) (fastforce split: prod.splits if_splits)+
  define a' where "a' = (if mf then Some (got a @ b) else None)"
  obtain ms' where ms': "unfrag (got a') fs = (ms', r)" "ms = (if mf then ms' else (got a @ b) # ms')"
    using Cons.prems(4) by (auto simp: f a'_def got_def split: prod.splits if_splits)
  have "length (got a) + length b \<le> ras_limit"
    using ms' Cons.prems(5,6) grow [OF ms'(1)] by (auto simp: a'_def got_def split: if_splits)
  then obtain s1 where s1: "recv_pkt (frag_pkt cid f) s = Some s1" "rx_next s s1 i cid a f"
    using recv_step [OF Cons.prems(1,2), of f] Cons.prems(3) by (auto simp: f)
  then have n: "rx_conn s1 i cid" "ras_state s1 i a'"
    "data_evts s1 = data_evts s @ (if mf then [] else [NFC_DATA_CEVT cid NCI_STATUS_OK (got a @ b)])"
    by (auto simp: rx_next_def f a'_def)
  obtain s' where "recv_all (map (frag_pkt cid) fs) s1 = Some s'" "rx_conn s' i cid"
    "data_evts s' = data_evts s1 @ map (NFC_DATA_CEVT cid NCI_STATUS_OK) ms'" "\<exists>a'. ras_state s' i a' \<and> got a' = r"
    using Cons.IH [OF n(1,2) _ ms'(1)] Cons.prems(3,5,6) ms'(2) by (auto split: if_splits)
  then show ?case using s1(1) n(3) ms'(2) by auto
qed

end
