(* ===== verification/NciCmd.thy ===== *)
theory NciCmd
  imports NciReceive
begin

text \<open>
  The command path of the NCI layer: the queue of commands with its window of one outstanding
  command (\<^verbatim>\<open>nfc_ncif_check_cmd_queue\<close> and its callers in \<^verbatim>\<open>nfc/nfc_ncif.cc\<close>,
  \<^verbatim>\<open>nfc/nfc_main.cc\<close> and \<^verbatim>\<open>nfc/nfc_vs.cc\<close>), the hand-over of the window to the transport, and the
  builders of the commands (\<^verbatim>\<open>nci/nci_hmsgs.cc\<close>). A command is the buffer it is built in. What
  the transport gets is logged in \<open>nci_out\<close>; the diagnostic captures are left out.
\<close>

record nci_cb =
  nci_base :: nfc_conns
  nci_window :: u8
  nci_xmit_q :: "nfc_hdr list"
  nci_last_hdr :: mem
  nci_last_cmd :: mem
  nci_last_nfcee_cmd :: mem
  nci_vsc_cback :: mem
  nci_raw_vs :: bool
  nci_disc_pending :: "mem option"
  nci_rsp_timer :: bool
  nci_out :: "mem list"

text \<open>The answers of the environment during one operation: the bytes of the command buffer that is
  allocated, if there is one, whether the buffer for the discovery parameters can be allocated, and
  whether the transport has something to send before discovery.\<close>

record nci_env =
  env_getbuf :: "mem option"
  env_disc_buf :: bool
  env_prediscover :: bool

abbreviation (input) "NFC_FL_CONTROL_REQUESTED \<equiv> 0x0010 :: u16"
abbreviation (input) "NFC_FL_CONTROL_GRANTED \<equiv> 0x0020 :: u16"
abbreviation (input) "NFC_FL_DISCOVER_PENDING \<equiv> 0x0040 :: u16"
abbreviation (input) "NFC_FL_HAL_REQUESTED \<equiv> 0x0080 :: u16"
abbreviation (input) "NFC_WAIT_RSP_VSC \<equiv> 0x01 :: u16"
abbreviation (input) "NFC_WAIT_RSP_RAW_VS \<equiv> 0x02 :: u16"
abbreviation (input) "NFC_STATUS_BUSY \<equiv> 0xEB :: u8"
abbreviation (input) "NFC_STATUS_CMD_STARTED \<equiv> 0xE3 :: u8"
abbreviation (input) "NFC_STATUS_NO_BUFFERS \<equiv> 0xE9 :: u8"
abbreviation (input) "NCI_MAX_CMD_WINDOW \<equiv> 1 :: u8"

definition nci_fl :: "u16 \<Rightarrow> nci_cb \<Rightarrow> bool" where
  "nci_fl f s \<longleftrightarrow> nc_flags (nci_base s) AND f \<noteq> 0"

definition nci_set_fl :: "u16 \<Rightarrow> nci_cb \<Rightarrow> nci_cb" where
  "nci_set_fl f s = s \<lparr> nci_base := nci_base s \<lparr> nc_flags := nc_flags (nci_base s) OR f \<rparr> \<rparr>"

definition nci_clr_fl :: "u16 \<Rightarrow> nci_cb \<Rightarrow> nci_cb" where
  "nci_clr_fl f s = s \<lparr> nci_base := nci_base s \<lparr> nc_flags := nc_flags (nci_base s) AND NOT f \<rparr> \<rparr>"

section \<open>Building a command\<close>

text \<open>A command is written byte by byte into a fresh buffer of the pool \<^verbatim>\<open>NFC_NCI_POOL_ID\<close>, behind one
  byte of room for the transport.\<close>

definition cmd_buf :: "mem \<Rightarrow> u16 \<Rightarrow> mem \<Rightarrow> nfc_hdr option" where
  "cmd_buf d len bytes = do {
     d \<leftarrow> wr_bytes d 1 bytes;
     Some \<lparr> h_event = 0x4000, h_len = len, h_offset = 1, h_layer = 0, h_data = d \<rparr> }"

definition nci_cmd_hdr :: "u8 \<Rightarrow> u8 \<Rightarrow> mem" where
  "nci_cmd_hdr gid oid = [push_bit 5 1 OR gid, oid]"

text \<open>The discovery command; \<open>ps\<close> is the array of technology and frequency pairs. The length byte is
  what fits of the number of bytes written.\<close>

definition discover_cmd_buf :: "mem \<Rightarrow> u8 \<Rightarrow> mem \<Rightarrow> nfc_hdr option" where
  "discover_cmd_buf d num ps = do {
     bs \<leftarrow> rd_bytes ps 0 (2 * unat num);
     let sz = (of_nat (1 + length bs) :: u8);
     cmd_buf d (3 + ucast sz) (nci_cmd_hdr 1 3 @ [sz, num] @ bs) }"

section \<open>The command queue\<close>

text \<open>Handing a command to the controller.\<close>

definition nci_send_now :: "nfc_hdr \<Rightarrow> nci_cb \<Rightarrow> nci_cb option" where
  "nci_send_now p s = do {
     let ps = unat (h_offset p);
     hdr \<leftarrow> rd_bytes (h_data p) ps 2;
     cmd \<leftarrow> rd_bytes (h_data p) (ps + 3) 2;
     let s = s \<lparr> nci_last_hdr := hdr, nci_last_cmd := cmd \<rparr>;
     let s = (if hdr ! 0 = (push_bit 5 1 OR 2) then s \<lparr> nci_last_nfcee_cmd := cmd \<rparr> else s);
     s \<leftarrow> (if h_layer p = NFC_WAIT_RSP_VSC then do {
             cb \<leftarrow> rd_bytes (h_data p) 0 8;
             Some (s \<lparr> nci_vsc_cback := cb \<rparr>) }
           else if h_layer p = NFC_WAIT_RSP_RAW_VS then do {
             cb \<leftarrow> rd_bytes (h_data p) 0 8;
             Some (s \<lparr> nci_vsc_cback := cb, nci_raw_vs := True \<rparr>) }
           else Some s);
     pkt \<leftarrow> rd_bytes (h_data p) ps (unat (h_len p));
     Some (s \<lparr> nci_window := nci_window s - 1, nci_out := nci_out s @ [pkt], nci_rsp_timer := True \<rparr>) }"

text \<open>The first half of \<open>nfc_ncif_check_cmd_queue\<close>: a command is queued behind others or sent.\<close>

definition nci_push :: "nfc_hdr option \<Rightarrow> nci_cb \<Rightarrow> nci_cb option" where
  "nci_push p s =
    (let (p, s) = (case p of None \<Rightarrow> (None, s)
                   | Some b \<Rightarrow> if nci_xmit_q s \<noteq> [] \<or> nci_window s = 0 then (None, s \<lparr> nci_xmit_q := nci_xmit_q s @ [b] \<rparr>)
                               else (Some b, s))
     in if 0 < nci_window s then
          (case p of
             Some b \<Rightarrow> nci_send_now b s
           | None \<Rightarrow> (case nci_xmit_q s of [] \<Rightarrow> Some s | b # q \<Rightarrow> nci_send_now b (s \<lparr> nci_xmit_q := q \<rparr>)))
        else Some s)"

text \<open>The second half hands the window to the transport or issues the pending discovery command, which
  calls the function again; the first argument bounds this recursion.\<close>

fun nfc_ncif_check_cmd_queue :: "nat \<Rightarrow> nci_env \<Rightarrow> nfc_hdr option \<Rightarrow> nci_cb \<Rightarrow> nci_cb option" where
  "nfc_ncif_check_cmd_queue 0 e p s = None"
| "nfc_ncif_check_cmd_queue (Suc d) e p s = do {
     s \<leftarrow> nci_push p s;
     if nci_window s = NCI_MAX_CMD_WINDOW \<and> nci_fl NFC_FL_CONTROL_REQUESTED s then
       let s = nci_clr_fl NFC_FL_CONTROL_REQUESTED s in
       if nci_fl NFC_FL_DISCOVER_PENDING s then
         if env_prediscover e then Some (nci_set_fl NFC_FL_CONTROL_GRANTED s \<lparr> nci_window := 0 \<rparr>)
         else do {
           let s = nci_clr_fl NFC_FL_DISCOVER_PENDING s;
           pend \<leftarrow> nci_disc_pending s;
           num \<leftarrow> rd8 pend 0;
           s \<leftarrow> (case env_getbuf e of
                   Some b \<Rightarrow> do {
                     p \<leftarrow> discover_cmd_buf b num (drop 1 pend);
                     nfc_ncif_check_cmd_queue d e (Some (p \<lparr> h_event := 0x4000, h_layer := 0 \<rparr>)) s }
                 | None \<Rightarrow> Some s);
           Some (s \<lparr> nci_disc_pending := None \<rparr>) }
       else if nci_fl NFC_FL_HAL_REQUESTED s then
         Some (nci_set_fl NFC_FL_CONTROL_GRANTED (nci_clr_fl NFC_FL_HAL_REQUESTED s) \<lparr> nci_window := 0 \<rparr>)
       else Some s
     else Some s }"

definition check_cmd_queue :: "nci_env \<Rightarrow> nfc_hdr option \<Rightarrow> nci_cb \<Rightarrow> nci_cb option" where
  "check_cmd_queue = nfc_ncif_check_cmd_queue 2"

definition nfc_ncif_send_cmd :: "nci_env \<Rightarrow> nfc_hdr \<Rightarrow> nci_cb \<Rightarrow> nci_cb option" where
  "nfc_ncif_send_cmd e p s = check_cmd_queue e (Some (p \<lparr> h_event := 0x4000, h_layer := 0 \<rparr>)) s"

definition nfc_ncif_update_window :: "nci_env \<Rightarrow> nci_cb \<Rightarrow> nci_cb option" where
  "nfc_ncif_update_window e s =
    (if nci_window s = NCI_MAX_CMD_WINDOW then Some s
     else check_cmd_queue e None (s \<lparr> nci_rsp_timer := False, nci_vsc_cback := replicate 8 0, nci_window := nci_window s + 1 \<rparr>))"

definition nfc_main_flush_cmd_queue :: "nci_cb \<Rightarrow> nci_cb" where
  "nfc_main_flush_cmd_queue s = s \<lparr> nci_window := NCI_MAX_CMD_WINDOW, nci_rsp_timer := False, nci_xmit_q := [] \<rparr>"

text \<open>The shape all senders of commands share: a buffer is taken, the command is written and sent.\<close>

definition nci_snd :: "nci_env \<Rightarrow> u16 \<Rightarrow> mem \<Rightarrow> nci_cb \<Rightarrow> (u8 \<times> nci_cb) option" where
  "nci_snd e len bytes s =
    (case env_getbuf e of
       None \<Rightarrow> Some (NCI_STATUS_FAILED, s)
     | Some d \<Rightarrow> do {
         p \<leftarrow> cmd_buf d len bytes;
         s \<leftarrow> nfc_ncif_send_cmd e p s;
         Some (NCI_STATUS_OK, s) })"

definition nci_snd_discover_cmd :: "nci_env \<Rightarrow> u8 \<Rightarrow> mem \<Rightarrow> nci_cb \<Rightarrow> (u8 \<times> nci_cb) option" where
  "nci_snd_discover_cmd e num ps s =
    (case env_getbuf e of
       None \<Rightarrow> Some (NCI_STATUS_FAILED, s)
     | Some d \<Rightarrow> do {
         p \<leftarrow> discover_cmd_buf d num ps;
         s \<leftarrow> nfc_ncif_send_cmd e p s;
         Some (NCI_STATUS_OK, s) })"

section \<open>Control of the window\<close>

text \<open>The events of \<open>nfc_main_handle_hal_evt\<close> that concern the window, and the start of discovery.\<close>

definition hal_pre_discover_cplt :: "nci_env \<Rightarrow> nci_cb \<Rightarrow> nci_cb option" where
  "hal_pre_discover_cplt e s = do {
     let s = nci_clr_fl NFC_FL_CONTROL_GRANTED (s \<lparr> nci_window := NCI_MAX_CMD_WINDOW \<rparr>);
     if nci_fl NFC_FL_DISCOVER_PENDING s then do {
       let s = nci_clr_fl NFC_FL_DISCOVER_PENDING s;
       pend \<leftarrow> nci_disc_pending s;
       num \<leftarrow> rd8 pend 0;
       (_, s) \<leftarrow> nci_snd_discover_cmd e num (drop 1 pend) s;
       Some (s \<lparr> nci_disc_pending := None \<rparr>) }
     else check_cmd_queue e None s }"

definition hal_request_control :: "nci_env \<Rightarrow> nci_cb \<Rightarrow> nci_cb option" where
  "hal_request_control e s = check_cmd_queue e None (nci_set_fl NFC_FL_HAL_REQUESTED (nci_set_fl NFC_FL_CONTROL_REQUESTED s))"

definition hal_release_control :: "nci_env \<Rightarrow> nci_cb \<Rightarrow> nci_cb option" where
  "hal_release_control e s =
    (if nci_fl NFC_FL_CONTROL_GRANTED s
     then check_cmd_queue e None (nci_clr_fl NFC_FL_CONTROL_GRANTED s \<lparr> nci_window := NCI_MAX_CMD_WINDOW \<rparr>)
     else Some s)"

definition NFC_DiscoveryStart :: "nci_env \<Rightarrow> u8 \<Rightarrow> mem \<Rightarrow> nci_cb \<Rightarrow> (u8 \<times> nci_cb) option" where
  "NFC_DiscoveryStart e num_params params s =
    (if nci_disc_pending s \<noteq> None then Some (NFC_STATUS_BUSY, s)
     else let s = nci_set_fl NFC_FL_CONTROL_REQUESTED (nci_set_fl NFC_FL_DISCOVER_PENDING s) in
       if env_disc_buf e then do {
         bs \<leftarrow> rd_bytes params 0 (2 * unat num_params);
         s \<leftarrow> check_cmd_queue e None (s \<lparr> nci_disc_pending := Some (num_params # bs) \<rparr>);
         Some (NFC_STATUS_CMD_STARTED, s) }
       else Some (NFC_STATUS_NO_BUFFERS, s))"

text \<open>Clearing the pending work when the controller is switched off.\<close>

definition nfc_gen_cleanup :: "nci_cb \<Rightarrow> nci_cb" where
  "nfc_gen_cleanup s =
    (let s = (if nci_fl NFC_FL_DISCOVER_PENDING s
              then nci_clr_fl NFC_FL_DISCOVER_PENDING s \<lparr> nci_disc_pending := None \<rparr> else s);
         s = nci_clr_fl (NFC_FL_CONTROL_REQUESTED OR NFC_FL_CONTROL_GRANTED OR NFC_FL_HAL_REQUESTED) s;
         s = s \<lparr> nci_base := nfc_reset_all_conn_cbs (nci_base s) \<rparr>
     in nfc_main_flush_cmd_queue s)"

end
