(* ===== verification/NciHmsgs.thy ===== *)
theory NciHmsgs
  imports NciCmd
begin

text \<open>
  The builders of NCI commands (\<^verbatim>\<open>nci/nci_hmsgs.cc\<close>) and of vendor commands (\<^verbatim>\<open>nfc/nfc_vs.cc\<close>). Each
  builder takes a command buffer, writes header, length byte and parameters with the wrap-around of
  the length byte at eight bits, and hands the command to the queue; the array arguments are the bytes
  the caller passes.
\<close>

abbreviation (input) "NCI_GID_CORE \<equiv> 0 :: u8"
abbreviation (input) "NCI_GID_RF_MANAGE \<equiv> 1 :: u8"
abbreviation (input) "NCI_GID_EE_MANAGE \<equiv> 2 :: u8"
abbreviation (input) "NCI_GID_PROP \<equiv> 0x0F :: u8"
abbreviation (input) "NCI_VERSION_2_0 \<equiv> 0x20 :: u8"
abbreviation (input) "NFC_RF_INTF_EXT_START \<equiv> 0 :: u8"
abbreviation (input) "NFC_STATUS_INVALID_PARAM \<equiv> 9 :: u8"
abbreviation (input) "NCI_VSC_MSG_HDR_SIZE \<equiv> 12 :: u16"
abbreviation (input) "NCI_MAX_VSC_SIZE \<equiv> 0x102 :: u16"

section \<open>Commands with parameters as tag, length and value\<close>

text \<open>The loop that counts the parameters: \<open>Some None\<close> when a length runs past the end.\<close>

function tlv_count :: "mem \<Rightarrow> nat \<Rightarrow> u8 \<Rightarrow> u8 \<Rightarrow> u8 option option" where
  "tlv_count m pt len num =
    (if 1 < len then do {
       ulen \<leftarrow> rd8 m (pt + 1);
       let len = len - 2;
       if ulen \<le> len then tlv_count m (pt + 2 + unat ulen) (len - ulen) (num + 1)
       else Some None }
     else Some (Some num))"
  by auto
termination
proof (relation "measure (\<lambda>(_, _, len, _). unat len)")
  fix m :: mem and pt and len num ulen x :: u8
  assume a: "1 < len" "x = len - 2" "ulen \<le> x"
  then have "unat x = unat len - 2"
    by (simp add: unat_sub word_le_nat_alt word_less_nat_alt)
  moreover have "unat (x - ulen) = unat x - unat ulen"
    using a by (simp add: unat_sub)
  ultimately show "((m, pt + 2 + unat ulen, x - ulen, num + 1), m, pt, len, num)
      \<in> measure (\<lambda>(_, _, len, _). unat len)"
    using a by (simp add: word_less_nat_alt)
qed simp

declare tlv_count.simps [simp del]

definition nci_snd_tlv :: "nci_env \<Rightarrow> u8 \<Rightarrow> u8 \<Rightarrow> mem \<Rightarrow> u8 \<Rightarrow> nci_cb \<Rightarrow> (u8 \<times> nci_cb) option" where
  "nci_snd_tlv e gid oid tlvs tlv_size s =
    (case env_getbuf e of
       None \<Rightarrow> Some (NCI_STATUS_FAILED, s)
     | Some _ \<Rightarrow> do {
         r \<leftarrow> tlv_count tlvs 0 tlv_size 0;
         case r of
           None \<Rightarrow> Some (NCI_STATUS_FAILED, s)
         | Some num \<Rightarrow> do {
             bs \<leftarrow> rd_bytes tlvs 0 (unat tlv_size);
             nci_snd e (3 + ucast tlv_size + 1) (nci_cmd_hdr gid oid @ [tlv_size + 1, num] @ bs) s } })"

definition nci_snd_tlv_parameter_generic_cmd :: "nci_env \<Rightarrow> u8 \<Rightarrow> mem \<Rightarrow> u8 \<Rightarrow> nci_cb \<Rightarrow> (u8 \<times> nci_cb) option" where
  "nci_snd_tlv_parameter_generic_cmd e oid tlvs tlv_size s = nci_snd_tlv e NCI_GID_RF_MANAGE oid tlvs tlv_size s"

definition nci_snd_core_set_config :: "nci_env \<Rightarrow> mem \<Rightarrow> u8 \<Rightarrow> nci_cb \<Rightarrow> (u8 \<times> nci_cb) option" where
  "nci_snd_core_set_config e tlvs tlv_size s = nci_snd_tlv e NCI_GID_CORE 2 tlvs tlv_size s"

definition nci_snd_rf_wpt_control_cmd :: "nci_env \<Rightarrow> mem \<Rightarrow> u8 \<Rightarrow> nci_cb \<Rightarrow> (u8 \<times> nci_cb) option" where
  "nci_snd_rf_wpt_control_cmd e tlvs tlv_size s = nci_snd_tlv_parameter_generic_cmd e 21 tlvs tlv_size s"

definition nci_snd_parameter_update_cmd :: "nci_env \<Rightarrow> mem \<Rightarrow> u8 \<Rightarrow> nci_cb \<Rightarrow> (u8 \<times> nci_cb) option" where
  "nci_snd_parameter_update_cmd e tlvs tlv_size s = nci_snd_tlv_parameter_generic_cmd e 11 tlvs tlv_size s"

section \<open>Core commands\<close>

definition nci_snd_core_reset :: "nci_env \<Rightarrow> u8 \<Rightarrow> nci_cb \<Rightarrow> (u8 \<times> nci_cb) option" where
  "nci_snd_core_reset e reset_type s = nci_snd e (3 + 1) (nci_cmd_hdr NCI_GID_CORE 0 @ [1, reset_type]) s"

definition nci_snd_core_init :: "nci_env \<Rightarrow> u8 \<Rightarrow> nci_cb \<Rightarrow> (u8 \<times> nci_cb) option" where
  "nci_snd_core_init e nci_version s =
    (let sz = (if NCI_VERSION_2_0 \<le> nci_version then 2 else 0 :: u8) in
     nci_snd e (3 + ucast sz)
       (nci_cmd_hdr NCI_GID_CORE 1 @ [sz] @ (if NCI_VERSION_2_0 \<le> nc_version (nci_base s) then [0, 0] else [])) s)"

definition nci_snd_core_get_config :: "nci_env \<Rightarrow> mem \<Rightarrow> u8 \<Rightarrow> nci_cb \<Rightarrow> (u8 \<times> nci_cb) option" where
  "nci_snd_core_get_config e param_ids num_ids s =
    (case env_getbuf e of
       None \<Rightarrow> Some (NCI_STATUS_FAILED, s)
     | Some _ \<Rightarrow> do {
         bs \<leftarrow> rd_bytes param_ids 0 (unat num_ids);
         nci_snd e (3 + ucast num_ids + 1) (nci_cmd_hdr NCI_GID_CORE 3 @ [num_ids + 1, num_ids] @ bs) s })"

definition nci_snd_core_conn_create :: "nci_env \<Rightarrow> u8 \<Rightarrow> u8 \<Rightarrow> u8 \<Rightarrow> mem \<Rightarrow> nci_cb \<Rightarrow> (u8 \<times> nci_cb) option" where
  "nci_snd_core_conn_create e dest_type num_tlv tlv_size tlvs s =
    (let sz = 2 + tlv_size in
     case env_getbuf e of
       None \<Rightarrow> Some (NCI_STATUS_FAILED, s)
     | Some _ \<Rightarrow> do {
         bs \<leftarrow> (if tlv_size \<noteq> 0 then rd_bytes tlvs 0 (unat tlv_size) else Some []);
         let len = (if tlv_size \<noteq> 0 then 3 + 2 + ucast tlv_size else 3 + 2);
         nci_snd e len (nci_cmd_hdr NCI_GID_CORE 4 @ [sz, dest_type, num_tlv] @ bs) s })"

definition nci_snd_core_conn_close :: "nci_env \<Rightarrow> u8 \<Rightarrow> nci_cb \<Rightarrow> (u8 \<times> nci_cb) option" where
  "nci_snd_core_conn_close e conn_id s = nci_snd e (3 + 1) (nci_cmd_hdr NCI_GID_CORE 5 @ [1, conn_id]) s"

definition nci_snd_core_set_power_sub_state :: "nci_env \<Rightarrow> u8 \<Rightarrow> nci_cb \<Rightarrow> (u8 \<times> nci_cb) option" where
  "nci_snd_core_set_power_sub_state e screen_state s =
     nci_snd e (3 + 1) (nci_cmd_hdr NCI_GID_CORE 9 @ [1, screen_state]) s"

section \<open>Commands to execution environments\<close>

definition nci_snd_nfcee_discover :: "nci_env \<Rightarrow> u8 \<Rightarrow> nci_cb \<Rightarrow> (u8 \<times> nci_cb) option" where
  "nci_snd_nfcee_discover e discover_action s =
    (let v = nc_version (nci_base s); sz = (if NCI_VERSION_2_0 \<le> v then 0 else 1 :: u8) in
     nci_snd e (3 + ucast sz)
       (nci_cmd_hdr NCI_GID_EE_MANAGE 0 @ [sz] @ (if v < NCI_VERSION_2_0 then [discover_action] else [])) s)"

definition nci_snd_nfcee_mode_set :: "nci_env \<Rightarrow> u8 \<Rightarrow> u8 \<Rightarrow> nci_cb \<Rightarrow> (u8 \<times> nci_cb) option" where
  "nci_snd_nfcee_mode_set e nfcee_id nfcee_mode s =
     nci_snd e (3 + 2) (nci_cmd_hdr NCI_GID_EE_MANAGE 1 @ [2, nfcee_id, nfcee_mode]) s"

definition nci_snd_nfcee_power_link_control :: "nci_env \<Rightarrow> u8 \<Rightarrow> u8 \<Rightarrow> nci_cb \<Rightarrow> (u8 \<times> nci_cb) option" where
  "nci_snd_nfcee_power_link_control e nfcee_id pl_config s =
     nci_snd e (3 + 2) (nci_cmd_hdr NCI_GID_EE_MANAGE 3 @ [2, nfcee_id, pl_config]) s"

section \<open>Commands of RF management\<close>

definition nci_snd_iso_dep_nak_presence_check_cmd :: "nci_env \<Rightarrow> nci_cb \<Rightarrow> (u8 \<times> nci_cb) option" where
  "nci_snd_iso_dep_nak_presence_check_cmd e s = nci_snd e (3 + 0) (nci_cmd_hdr NCI_GID_RF_MANAGE 16 @ [0]) s"

definition nci_snd_discover_select_cmd :: "nci_env \<Rightarrow> u8 \<Rightarrow> u8 \<Rightarrow> u8 \<Rightarrow> nci_cb \<Rightarrow> (u8 \<times> nci_cb) option" where
  "nci_snd_discover_select_cmd e rf_disc_id protocol rf_interface s =
     nci_snd e (3 + 3) (nci_cmd_hdr NCI_GID_RF_MANAGE 4 @ [3, rf_disc_id, protocol, rf_interface]) s"

definition nci_snd_rf_extension_control_cmd :: "nci_env \<Rightarrow> u8 \<Rightarrow> u8 \<Rightarrow> mem \<Rightarrow> u8 \<Rightarrow> nci_cb \<Rightarrow> (u8 \<times> nci_cb) option" where
  "nci_snd_rf_extension_control_cmd e mode rf_ext_id p_data data_len s =
    (case env_getbuf e of
       None \<Rightarrow> Some (NCI_STATUS_FAILED, s)
     | Some _ \<Rightarrow> do {
         bs \<leftarrow> rd_bytes p_data 0 (unat data_len);
         let oid = (if mode = NFC_RF_INTF_EXT_START then 12 else 13);
         nci_snd e (3 + (2 + ucast data_len))
           (nci_cmd_hdr NCI_GID_RF_MANAGE oid @ [2 + data_len, rf_ext_id, data_len] @ bs)
           (nci_set_fl NFC_FL_WAIT_RF_INTF_EXT_RSP s) })"

definition nci_snd_ep_removal_detection_cmd :: "nci_env \<Rightarrow> u8 \<Rightarrow> nci_cb \<Rightarrow> (u8 \<times> nci_cb) option" where
  "nci_snd_ep_removal_detection_cmd e waiting_time s =
     nci_snd e (3 + 1) (nci_cmd_hdr NCI_GID_RF_MANAGE 18 @ [1, waiting_time]) s"

definition nci_snd_deactivate_cmd :: "nci_env \<Rightarrow> u8 \<Rightarrow> nci_cb \<Rightarrow> (u8 \<times> nci_cb) option" where
  "nci_snd_deactivate_cmd e de_act_type s =
     nci_snd e (3 + 1) (nci_cmd_hdr NCI_GID_RF_MANAGE 6 @ [1, de_act_type])
       (s \<lparr> nci_base := NFC_SetReassemblyFlag True (nci_base s) \<rparr>)"

text \<open>Three bytes are written for each mapping; the length byte is what fits of their number.\<close>

definition nci_snd_discover_map_cmd :: "nci_env \<Rightarrow> u8 \<Rightarrow> mem \<Rightarrow> nci_cb \<Rightarrow> (u8 \<times> nci_cb) option" where
  "nci_snd_discover_map_cmd e num maps s =
    (case env_getbuf e of
       None \<Rightarrow> Some (NCI_STATUS_FAILED, s)
     | Some _ \<Rightarrow> do {
         bs \<leftarrow> rd_bytes maps 0 (3 * unat num);
         let sz = (of_nat (1 + length bs) :: u8);
         nci_snd e (3 + ucast sz) (nci_cmd_hdr NCI_GID_RF_MANAGE 0 @ [sz, num] @ bs) s })"

definition nci_snd_t3t_polling :: "nci_env \<Rightarrow> u16 \<Rightarrow> u8 \<Rightarrow> u8 \<Rightarrow> nci_cb \<Rightarrow> (u8 \<times> nci_cb) option" where
  "nci_snd_t3t_polling e system_code rc tsn s =
     nci_snd e (3 + 4) (nci_cmd_hdr NCI_GID_RF_MANAGE 8 @ [4] @ be16_bytes system_code @ [rc, tsn]) s"

definition nci_snd_set_routing_cmd :: "nci_env \<Rightarrow> bool \<Rightarrow> u8 \<Rightarrow> u8 \<Rightarrow> mem \<Rightarrow> nci_cb \<Rightarrow> (u8 \<times> nci_cb) option" where
  "nci_snd_set_routing_cmd e more_fl num_tlv tlv_size tlvs s =
    (let sz = tlv_size + 2 in
     if sz < tlv_size then Some (NCI_STATUS_FAILED, s)
     else
       let sz = (if tlv_size = 0 then 2 else sz) in
       case env_getbuf e of
         None \<Rightarrow> Some (NCI_STATUS_FAILED, s)
       | Some _ \<Rightarrow> do {
           bs \<leftarrow> (if sz = 2 then Some [0] else do { bs \<leftarrow> rd_bytes tlvs 0 (unat tlv_size); Some (num_tlv # bs) });
           nci_snd e (3 + ucast sz) (nci_cmd_hdr NCI_GID_RF_MANAGE 1 @ [sz, of_bool more_fl] @ bs) s })"

definition nci_snd_get_routing_cmd :: "nci_env \<Rightarrow> nci_cb \<Rightarrow> (u8 \<times> nci_cb) option" where
  "nci_snd_get_routing_cmd e s = nci_snd e (3 + 0) (nci_cmd_hdr NCI_GID_RF_MANAGE 2 @ [0]) s"

definition nci_snd_android_get_caps_cmd :: "nci_env \<Rightarrow> nci_cb \<Rightarrow> (u8 \<times> nci_cb) option" where
  "nci_snd_android_get_caps_cmd e s = nci_snd e (3 + 1) (nci_cmd_hdr NCI_GID_PROP 0x0C @ [1, 0]) s"

section \<open>Vendor commands\<close>

text \<open>The pointer to the callback is stored in the eight bytes behind the header of the buffer.\<close>

definition NFC_SendRawVsCommand :: "nci_env \<Rightarrow> nfc_hdr option \<Rightarrow> mem \<Rightarrow> nci_cb \<Rightarrow> (u8 \<times> nci_cb) option" where
  "NFC_SendRawVsCommand e p_data cback s =
    (case p_data of
       None \<Rightarrow> Some (NFC_STATUS_INVALID_PARAM, s)
     | Some p \<Rightarrow>
        if NCI_MAX_VSC_SIZE < h_len p then Some (NFC_STATUS_INVALID_PARAM, s)
        else do {
          d \<leftarrow> wr_bytes (h_data p) 0 cback;
          s \<leftarrow> check_cmd_queue e (Some (p \<lparr> h_event := 0x4000, h_layer := NFC_WAIT_RSP_RAW_VS, h_data := d \<rparr>)) s;
          Some (NCI_STATUS_OK, s) })"

definition NFC_SendVsCommand :: "nci_env \<Rightarrow> u8 \<Rightarrow> nfc_hdr option \<Rightarrow> mem \<Rightarrow> nci_cb \<Rightarrow> (u8 \<times> nci_cb) option" where
  "NFC_SendVsCommand e oid p_data cback s =
    (let p_data = (case p_data of Some p \<Rightarrow> Some p
                   | None \<Rightarrow> (case env_getbuf e of None \<Rightarrow> None
                       | Some d \<Rightarrow> Some \<lparr> h_event = 0, h_len = 0, h_offset = NCI_VSC_MSG_HDR_SIZE, h_layer = 0, h_data = d \<rparr>)) in
     case p_data of
       None \<Rightarrow> Some (NFC_STATUS_INVALID_PARAM, s)
     | Some p \<Rightarrow>
        if h_offset p < NCI_VSC_MSG_HDR_SIZE \<or> NCI_MAX_VSC_SIZE < h_len p then Some (NFC_STATUS_INVALID_PARAM, s)
        else do {
          d \<leftarrow> wr_bytes (h_data p) 0 cback;
          let offset = h_offset p - 3;
          d \<leftarrow> wr_bytes d (unat offset) (nci_cmd_hdr NCI_GID_PROP oid @ [ucast (h_len p)]);
          s \<leftarrow> check_cmd_queue e (Some (p \<lparr> h_event := 0x4000, h_layer := NFC_WAIT_RSP_VSC, h_data := d,
                 h_offset := offset, h_len := h_len p + 3 \<rparr>)) s;
          Some (NCI_STATUS_OK, s) })"

definition NFC_RegVSCback :: "bool \<Rightarrow> 'cb option \<Rightarrow> 'cb option list \<Rightarrow> u8 \<times> 'cb option list" where
  "NFC_RegVSCback is_register cback tab =
    (let old = (if is_register then None else cback); new = (if is_register then cback else None);
         i = length (takeWhile (\<lambda>c. c \<noteq> old) tab)
     in if i < length tab then (NCI_STATUS_OK, tab[i := new]) else (NCI_STATUS_FAILED, tab))"

end
