(* ===== verification/NciCmdProofs.thy ===== *)
theory NciCmdProofs
  imports NciHmsgs
begin

text \<open>
  Correctness of the command path. The commands of the client are listed as requests with the packet
  each one stands for; the queue, with the window it shares with the transport, is shown to hand the
  packets to the controller in the order of submission.
\<close>

section \<open>Buffers with commands\<close>

definition pkt_of :: "nfc_hdr \<Rightarrow> mem" where
  "pkt_of p = take (unat (h_len p)) (drop (unat (h_offset p)) (h_data p))"

definition cmd_ok :: "nfc_hdr \<Rightarrow> bool" where
  "cmd_ok p \<longleftrightarrow> unat (h_offset p) + max 5 (unat (h_len p)) \<le> length (h_data p) \<and> 8 \<le> length (h_data p)"

definition env_ok :: "nci_env \<Rightarrow> bool" where
  "env_ok e \<longleftrightarrow> (case env_getbuf e of None \<Rightarrow> True | Some d \<Rightarrow> length d = 652)"

text \<open>What the operations on the queue leave alone.\<close>

definition same_ctl :: "nci_cb \<Rightarrow> nci_cb \<Rightarrow> bool" where
  "same_ctl s s' \<longleftrightarrow> nci_base s' = nci_base s \<and> nci_disc_pending s' = nci_disc_pending s"

lemma nci_send_now_spec:
  assumes "cmd_ok p"
  obtains s' where "nci_send_now p s = Some s'" "nci_out s' = nci_out s @ [pkt_of p]"
    "nci_window s' = nci_window s - 1" "nci_xmit_q s' = nci_xmit_q s" "same_ctl s s'"
proof -
  have r: "rd_bytes (h_data p) (unat (h_offset p)) 2 = Some (take 2 (drop (unat (h_offset p)) (h_data p)))"
    "rd_bytes (h_data p) (unat (h_offset p) + 3) 2 = Some (take 2 (drop (unat (h_offset p) + 3) (h_data p)))"
    "rd_bytes (h_data p) 0 8 = Some (take 8 (h_data p))"
    "rd_bytes (h_data p) (unat (h_offset p)) (unat (h_len p)) = Some (pkt_of p)"
    using assms by (auto simp: cmd_ok_def rd_bytes_in pkt_of_def)
  have "\<exists>s'. nci_send_now p s = Some s' \<and> nci_out s' = nci_out s @ [pkt_of p] \<and>
      nci_window s' = nci_window s - 1 \<and> nci_xmit_q s' = nci_xmit_q s \<and> same_ctl s s'"
    using r by (simp add: nci_send_now_def same_ctl_def Let_def)
  then show ?thesis using that by blast
qed

text \<open>The commands handed over and waiting, in order.\<close>

definition sub_of :: "nci_cb \<Rightarrow> mem list" where
  "sub_of s = nci_out s @ map pkt_of (nci_xmit_q s)"

definition q_ok :: "nci_cb \<Rightarrow> bool" where
  "q_ok s \<longleftrightarrow> (\<forall>p \<in> set (nci_xmit_q s). cmd_ok p) \<and> nci_window s \<le> 1"

lemma window_cases: "nci_window s \<le> 1 \<Longrightarrow> nci_window s = 0 \<or> nci_window s = 1"
proof -
  assume "nci_window s \<le> 1"
  then have "unat (nci_window s) = unat (0 :: u8) \<or> unat (nci_window s) = unat (1 :: u8)"
    by (simp add: word_le_nat_alt del: unat_0_iff unat_eq_zero) linarith
  then show ?thesis by (simp only: word_unat_eq_iff)
qed

lemma nci_push_spec:
  assumes "q_ok s" "case p of None \<Rightarrow> True | Some b \<Rightarrow> cmd_ok b"
  obtains s' where "nci_push p s = Some s'" "q_ok s'" "same_ctl s s'"
    "sub_of s' = sub_of s @ (case p of None \<Rightarrow> [] | Some b \<Rightarrow> [pkt_of b])"
    "nci_window s = 1 \<Longrightarrow> nci_window s' = (if nci_xmit_q s = [] \<and> p = None then 1 else 0)"
    "nci_window s = 1 \<Longrightarrow> nci_window s' = 1 \<Longrightarrow> nci_xmit_q s' = []"
    "nci_window s = 0 \<Longrightarrow> nci_window s' = 0 \<and> nci_out s' = nci_out s"
    "nci_window s = 1 \<Longrightarrow> nci_window s' = 0 \<Longrightarrow> length (nci_out s') = Suc (length (nci_out s))"
    "nci_window s = 1 \<Longrightarrow> nci_window s' = 1 \<Longrightarrow> nci_out s' = nci_out s"
    "p = None \<Longrightarrow> nci_xmit_q s' = (if nci_window s = 1 then tl (nci_xmit_q s) else nci_xmit_q s)"
proof -
  have w: "nci_window s = 0 \<or> nci_window s = 1"
    using assms(1) window_cases unfolding q_ok_def by blast
  consider (full) "nci_window s = 0" | (idle) "nci_window s = 1" "nci_xmit_q s = []" "p = None"
    | (now) b where "nci_window s = 1" "nci_xmit_q s = []" "p = Some b"
    | (queued) c q where "nci_window s = 1" "nci_xmit_q s = c # q"
    using w by (cases p; cases "nci_xmit_q s"; force)
  then show ?thesis
  proof cases
    case full
    then show ?thesis
      using assms by (intro that[of "s \<lparr> nci_xmit_q := nci_xmit_q s @ (case p of None \<Rightarrow> [] | Some b \<Rightarrow> [b]) \<rparr>"])
        (auto simp: nci_push_def q_ok_def same_ctl_def sub_of_def split: option.splits)
  next
    case idle
    then show ?thesis
      using assms by (intro that[of s]) (auto simp: nci_push_def same_ctl_def)
  next
    case (now b)
    then have b: "cmd_ok b" using assms(2) by simp
    obtain s' where s': "nci_send_now b s = Some s'" "nci_out s' = nci_out s @ [pkt_of b]"
      "nci_window s' = nci_window s - 1" "nci_xmit_q s' = nci_xmit_q s" "same_ctl s s'"
      using nci_send_now_spec[OF b] .
    then show ?thesis
      using now by (intro that[of s']) (auto simp: nci_push_def q_ok_def sub_of_def)
  next
    case (queued c q)
    let ?q = "q @ (case p of None \<Rightarrow> [] | Some b \<Rightarrow> [b])"
    have c: "cmd_ok c" using assms(1) queued by (simp add: q_ok_def)
    obtain s' where s': "nci_send_now c (s \<lparr> nci_xmit_q := ?q \<rparr>) = Some s'" "nci_out s' = nci_out s @ [pkt_of c]"
      "nci_window s' = nci_window s - 1" "nci_xmit_q s' = ?q" "same_ctl (s \<lparr> nci_xmit_q := ?q \<rparr>) s'"
      using nci_send_now_spec[OF c, of "s \<lparr> nci_xmit_q := ?q \<rparr>"] by auto
    moreover have "nci_push p s = Some s'"
      using queued s'(1) by (auto simp: nci_push_def split: option.splits)
    ultimately show ?thesis
      using queued assms by (intro that[of s']) (auto simp: q_ok_def sub_of_def same_ctl_def split: option.splits)
  qed
qed

section \<open>Flags\<close>

lemma nci_fl_set [simp]: "nci_fl f (nci_set_fl g s) \<longleftrightarrow> nci_fl f s \<or> f AND g \<noteq> 0"
  by (auto simp: nci_fl_def nci_set_fl_def bit_eq_iff bit_simps)

lemma nci_fl_clr [simp]: "f AND g = 0 \<Longrightarrow> nci_fl f (nci_clr_fl g s) \<longleftrightarrow> nci_fl f s"
  by (auto simp: nci_fl_def nci_clr_fl_def bit_eq_iff bit_simps)

lemma nci_fl_clr_same [simp]: "f AND NOT g = 0 \<Longrightarrow> \<not> nci_fl f (nci_clr_fl g s)"
  by (auto simp: nci_fl_def nci_clr_fl_def bit_eq_iff bit_simps)

lemma nci_fl_upd [simp]:
  "nci_fl f (s \<lparr> nci_window := w \<rparr>) = nci_fl f s" "nci_fl f (s \<lparr> nci_disc_pending := d \<rparr>) = nci_fl f s"
  "nci_fl f (s \<lparr> nci_xmit_q := q \<rparr>) = nci_fl f s"
  "nci_fl f (s \<lparr> nci_rsp_timer := t \<rparr>) = nci_fl f s" "nci_fl f (s \<lparr> nci_vsc_cback := c \<rparr>) = nci_fl f s"
  by (simp_all add: nci_fl_def)

lemma nci_fl_sel [simp]:
  "nci_window (nci_set_fl f s) = nci_window s" "nci_window (nci_clr_fl f s) = nci_window s"
  "nci_xmit_q (nci_set_fl f s) = nci_xmit_q s" "nci_xmit_q (nci_clr_fl f s) = nci_xmit_q s"
  "nci_out (nci_set_fl f s) = nci_out s" "nci_out (nci_clr_fl f s) = nci_out s"
  "nci_disc_pending (nci_set_fl f s) = nci_disc_pending s" "nci_disc_pending (nci_clr_fl f s) = nci_disc_pending s"
  by (simp_all add: nci_set_fl_def nci_clr_fl_def)

lemma same_ctl_fl: "same_ctl s s' \<Longrightarrow> nci_fl f s' = nci_fl f s"
  by (simp add: same_ctl_def nci_fl_def)

section \<open>Packets of commands\<close>

definition nci_packet :: "u8 \<Rightarrow> u8 \<Rightarrow> mem \<Rightarrow> mem" where
  "nci_packet gid oid params = [0x20 OR gid, oid, of_nat (length params)] @ params"

lemma pkt_of_upd [simp]:
  "pkt_of (p \<lparr> h_event := ev, h_layer := l \<rparr>) = pkt_of p" "cmd_ok (p \<lparr> h_event := ev, h_layer := l \<rparr>) = cmd_ok p"
  by (simp_all add: pkt_of_def cmd_ok_def)

lemma cmd_buf_ok:
  assumes "length d = 652" "length bytes \<le> 651" "unat len \<le> length bytes"
  obtains p where "cmd_buf d len bytes = Some p" "cmd_ok p" "pkt_of p = take (unat len) bytes"
proof -
  obtain d' where d': "wr_bytes d 1 bytes = Some d'"
    using wr_bytes_ex[of 1 bytes d] assms by auto
  have l: "length d' = 652" using wr_bytes_length[OF d'] assms(1) by simp
  have "bytes_at d' 1 bytes" by (rule wr_bytes_at[OF d'])
  then have "rd_bytes d' 1 (length bytes) = Some bytes" by (simp add: rd_bytes_Some)
  then have "take (length bytes) (drop 1 d') = bytes"
    using rd_bytes_in[of 1 "length bytes" d'] l assms(2) by simp
  then have "take (unat len) (drop 1 d') = take (unat len) bytes"
    using assms(3) by (metis min.absorb1 take_take)
  then show ?thesis
    using that[of "\<lparr> h_event = 0x4000, h_len = len, h_offset = 1, h_layer = 0, h_data = d' \<rparr>"] d' l assms
    by (simp add: cmd_buf_def cmd_ok_def pkt_of_def)
qed

lemma cmd_buf_packet:
  assumes "length d = 652" "length params \<le> 255" "unat len = 3 + length params"
  obtains p where "cmd_buf d len (nci_packet gid oid params) = Some p" "cmd_ok p" "pkt_of p = nci_packet gid oid params"
  using cmd_buf_ok[of d "nci_packet gid oid params" len] assms by (auto simp: nci_packet_def)

lemma unat_len16:
  assumes "n \<le> 255" "unat (c :: u16) \<le> 1000"
  shows "unat (c + ucast (of_nat n :: u8)) = unat c + n"
proof -
  have "unat (ucast (of_nat n :: u8) :: u16) = n"
    using assms(1) by (simp add: unsigned_ucast_eq take_bit_nat_eq_self unat_of_nat_u8)
  then show ?thesis using assms by (simp add: unat_word_ariths)
qed

lemma discover_cmd_buf_ok:
  assumes "length d = 652" "length bs = 2 * unat num" "unat num \<le> 127"
  obtains p where "discover_cmd_buf d num bs = Some p" "cmd_ok p" "pkt_of p = nci_packet 1 3 (num # bs)"
proof -
  have "unat (3 + ucast (of_nat (1 + length bs) :: u8) :: u16) = 3 + length (num # bs)"
    using unat_len16[of "1 + length bs" 3] assms by simp
  then obtain p where "cmd_buf d (3 + ucast (of_nat (1 + length bs) :: u8)) (nci_packet 1 3 (num # bs)) = Some p"
      "cmd_ok p" "pkt_of p = nci_packet 1 3 (num # bs)"
    using cmd_buf_packet[of d "num # bs" "3 + ucast (of_nat (1 + length bs) :: u8)" 1 3] assms by auto
  moreover have "rd_bytes bs 0 (2 * unat num) = Some bs"
    using assms(2) by (simp add: rd_bytes_in)
  ultimately show ?thesis
    using that by (simp add: discover_cmd_buf_def nci_packet_def nci_cmd_hdr_def)
qed

section \<open>The queue and the window\<close>

abbreviation granted :: "nci_cb \<Rightarrow> bool" where
  "granted s \<equiv> nci_fl NFC_FL_CONTROL_GRANTED s"

text \<open>The parameters of a pending discovery are stored while its flag is set.\<close>

definition pend_ok :: "nci_cb \<Rightarrow> bool" where
  "pend_ok s \<longleftrightarrow> (nci_fl NFC_FL_DISCOVER_PENDING s \<longrightarrow>
     (\<exists>num bs. nci_disc_pending s = Some (num # bs) \<and> length bs = 2 * unat num \<and> unat num \<le> 127))"

text \<open>After \<open>r\<close> responses the single place of the window is free, taken by a command that waits for its
  response, or held by the transport.\<close>

definition bal :: "nci_cb \<Rightarrow> nat \<Rightarrow> bool" where
  "bal s r \<longleftrightarrow> r \<le> length (nci_out s) \<and> unat (nci_window s) + length (nci_out s) + of_bool (granted s) = Suc r"

definition cmd_inv :: "nci_cb \<Rightarrow> mem list \<Rightarrow> nat \<Rightarrow> bool" where
  "cmd_inv s sub r \<longleftrightarrow> q_ok s \<and> pend_ok s \<and> bal s r \<and> sub_of s = sub \<and>
     (nci_window s = 1 \<longrightarrow> nci_xmit_q s = [])"

text \<open>The discovery command that a check of the queue issues by itself.\<close>

definition issued :: "nci_env \<Rightarrow> nci_cb \<Rightarrow> mem list" where
  "issued e s =
    (if nci_window s = 1 \<and> nci_xmit_q s = [] \<and> nci_fl NFC_FL_CONTROL_REQUESTED s \<and>
        nci_fl NFC_FL_DISCOVER_PENDING s \<and> \<not> env_prediscover e \<and> env_getbuf e \<noteq> None
     then [nci_packet 1 3 (the (nci_disc_pending s))] else [])"

lemma push_bal:
  assumes "q_ok s" "bal s r" "case p of None \<Rightarrow> True | Some b \<Rightarrow> cmd_ok b" "pend_ok s"
  obtains s' where "nci_push p s = Some s'" "same_ctl s s'"
    "cmd_inv s' (sub_of s @ (case p of None \<Rightarrow> [] | Some b \<Rightarrow> [pkt_of b])) r"
    "nci_window s' = 1 \<longleftrightarrow> nci_window s = 1 \<and> nci_xmit_q s = [] \<and> p = None"
proof -
  obtain s' where s': "nci_push p s = Some s'" "q_ok s'" "same_ctl s s'"
    "sub_of s' = sub_of s @ (case p of None \<Rightarrow> [] | Some b \<Rightarrow> [pkt_of b])"
    "nci_window s = 1 \<Longrightarrow> nci_window s' = (if nci_xmit_q s = [] \<and> p = None then 1 else 0)"
    "nci_window s = 1 \<Longrightarrow> nci_window s' = 1 \<Longrightarrow> nci_xmit_q s' = []"
    "nci_window s = 0 \<Longrightarrow> nci_window s' = 0 \<and> nci_out s' = nci_out s"
    "nci_window s = 1 \<Longrightarrow> nci_window s' = 0 \<Longrightarrow> length (nci_out s') = Suc (length (nci_out s))"
    "nci_window s = 1 \<Longrightarrow> nci_window s' = 1 \<Longrightarrow> nci_out s' = nci_out s"
    using nci_push_spec[OF assms(1,3)] by metis
  have w: "nci_window s = 0 \<or> nci_window s = 1"
    using assms(1) window_cases unfolding q_ok_def by blast
  have b: "bal s' r"
    using w assms(2) s'(5,7-9) same_ctl_fl[OF s'(3)] by (auto simp: bal_def split: if_splits)
  have p: "pend_ok s'"
    using assms(4) s'(3) same_ctl_fl[OF s'(3)] by (simp add: pend_ok_def same_ctl_def)
  show ?thesis
    using that[of s'] s' b p w by (auto simp: cmd_inv_def split: if_splits)
qed

lemma check_send:
  assumes "q_ok s" "bal s r" "cmd_ok b" "pend_ok s"
  obtains s' where "nfc_ncif_check_cmd_queue (Suc d) e (Some b) s = Some s'" "same_ctl s s'"
    "cmd_inv s' (sub_of s @ [pkt_of b]) r" "nci_window s' \<noteq> 1"
proof -
  obtain s' where s': "nci_push (Some b) s = Some s'" "same_ctl s s'"
    "cmd_inv s' (sub_of s @ [pkt_of b]) r" "nci_window s' \<noteq> 1"
    using push_bal[OF assms(1,2), of "Some b"] assms(3,4) by (metis option.simps(3,5))
  then show ?thesis using that[of s'] by simp
qed

text \<open>The discovery command issued when the transport does not want the window.\<close>

lemma issue_disc:
  assumes "cmd_inv u sub r" "nci_window u = 1" "nci_disc_pending u = Some (num # bs)"
    "length bs = 2 * unat num" "unat num \<le> 127" "env_ok e"
    "\<not> nci_fl NFC_FL_DISCOVER_PENDING u" "env_getbuf e = Some b"
  obtains p x where "discover_cmd_buf b num bs = Some p"
    "nfc_ncif_check_cmd_queue (Suc d) e (Some (p \<lparr> h_event := 0x4000, h_layer := 0 \<rparr>)) u = Some x"
    "cmd_inv (x \<lparr> nci_disc_pending := None \<rparr>) (sub @ [nci_packet 1 3 (num # bs)]) r"
proof -
  have "length b = 652" using assms(6,8) by (simp add: env_ok_def)
  then obtain p where p: "discover_cmd_buf b num bs = Some p" "cmd_ok p" "pkt_of p = nci_packet 1 3 (num # bs)"
    using discover_cmd_buf_ok assms(4,5) by blast
  let ?p = "p \<lparr> h_event := 0x4000, h_layer := 0 \<rparr>"
  have "q_ok u" "bal u r" "pend_ok u" using assms(1) by (simp_all add: cmd_inv_def)
  then obtain x where x: "nfc_ncif_check_cmd_queue (Suc d) e (Some ?p) u = Some x" "same_ctl u x"
    "cmd_inv x (sub_of u @ [pkt_of ?p]) r"
    using check_send[of u r ?p d e] p(2) by auto
  have "\<not> nci_fl NFC_FL_DISCOVER_PENDING x" using same_ctl_fl[OF x(2)] assms(7) by simp
  then show ?thesis
    using that[OF p(1) x(1)] x(3) p(3) assms(1)
    by (simp add: cmd_inv_def q_ok_def pend_ok_def bal_def sub_of_def)
qed

lemma grant_inv:
  assumes "cmd_inv u sub r" "nci_window u = 1"
  shows "cmd_inv (nci_set_fl NFC_FL_CONTROL_GRANTED u \<lparr> nci_window := 0 \<rparr>) sub r"
  using assms by (auto simp: cmd_inv_def q_ok_def pend_ok_def bal_def sub_of_def)

lemma clr_inv:
  assumes "cmd_inv u sub r" "f AND NFC_FL_CONTROL_GRANTED = 0"
  shows "cmd_inv (nci_clr_fl f u) sub r"
proof -
  have "nci_fl NFC_FL_CONTROL_GRANTED (nci_clr_fl f u) = granted u"
    using assms(2) by (simp add: and.commute)
  moreover have "nci_fl NFC_FL_DISCOVER_PENDING (nci_clr_fl f u) \<Longrightarrow> nci_fl NFC_FL_DISCOVER_PENDING u"
    by (auto simp: nci_fl_def nci_clr_fl_def bit_eq_iff bit_simps)
  ultimately show ?thesis
    using assms(1) by (auto simp: cmd_inv_def q_ok_def pend_ok_def bal_def sub_of_def)
qed

lemma check_none:
  assumes "q_ok s" "bal s r" "pend_ok s" "env_ok e"
  obtains s' where "nfc_ncif_check_cmd_queue (Suc (Suc d)) e None s = Some s'"
    "cmd_inv s' (sub_of s @ issued e s) r"
proof -
  obtain u where u: "nci_push None s = Some u" "same_ctl s u" "cmd_inv u (sub_of s) r"
    "nci_window u = 1 \<longleftrightarrow> nci_window s = 1 \<and> nci_xmit_q s = []"
    using push_bal[OF assms(1,2), of None] assms(3) by (metis option.simps(4) append_Nil2)
  note fl = same_ctl_fl[OF u(2)]
  let ?v = "nci_clr_fl NFC_FL_CONTROL_REQUESTED u"
  have v: "cmd_inv ?v (sub_of s) r" using clr_inv[OF u(3)] by simp
  consider (no) "\<not> (nci_window u = 1 \<and> nci_fl NFC_FL_CONTROL_REQUESTED u)"
    | (hal) "nci_window u = 1" "nci_fl NFC_FL_CONTROL_REQUESTED u" "\<not> nci_fl NFC_FL_DISCOVER_PENDING u"
    | (disc) "nci_window u = 1" "nci_fl NFC_FL_CONTROL_REQUESTED u" "nci_fl NFC_FL_DISCOVER_PENDING u" by blast
  then show ?thesis
  proof cases
    case no
    then show ?thesis using that[of u] u fl by (auto simp: issued_def)
  next
    case hal
    then have "cmd_inv (nci_set_fl NFC_FL_CONTROL_GRANTED (nci_clr_fl NFC_FL_HAL_REQUESTED ?v) \<lparr> nci_window := 0 \<rparr>) (sub_of s) r"
      using grant_inv[OF clr_inv[OF v]] by simp
    then show ?thesis
      using hal u(1) v fl that by (cases "nci_fl NFC_FL_HAL_REQUESTED u") (auto simp: issued_def)
  next
    case disc
    then obtain num bs where nb: "nci_disc_pending u = Some (num # bs)" "length bs = 2 * unat num" "unat num \<le> 127"
      using u(3) by (auto simp: cmd_inv_def pend_ok_def)
    have r0: "rd8 (num # bs) 0 = Some num" by (simp add: rd8_in)
    let ?w = "nci_clr_fl NFC_FL_DISCOVER_PENDING ?v"
    have w: "cmd_inv ?w (sub_of s) r" using clr_inv[OF v] by simp
    show ?thesis
    proof (cases "env_prediscover e")
      case True
      then show ?thesis
        using that[of "nci_set_fl NFC_FL_CONTROL_GRANTED ?v \<lparr> nci_window := 0 \<rparr>"] grant_inv[OF v] disc u(1)
        by (simp add: issued_def)
    next
      case False
      show ?thesis
      proof (cases "env_getbuf e")
        case None
        moreover have "cmd_inv (?w \<lparr> nci_disc_pending := None \<rparr>) (sub_of s) r"
          using w by (simp add: cmd_inv_def q_ok_def pend_ok_def bal_def sub_of_def)
        ultimately show ?thesis
          using that[of "?w \<lparr> nci_disc_pending := None \<rparr>"] False disc u(1) nb r0 by (simp add: issued_def Let_def)
      next
        case (Some b)
        obtain p x where px: "discover_cmd_buf b num bs = Some p"
          "nfc_ncif_check_cmd_queue (Suc d) e (Some (p \<lparr> h_event := 0x4000, h_layer := 0 \<rparr>)) ?w = Some x"
          "cmd_inv (x \<lparr> nci_disc_pending := None \<rparr>) (sub_of s @ [nci_packet 1 3 (num # bs)]) r"
          using issue_disc[OF w, of num bs e b d] disc nb assms(4) Some by auto
        have "nci_disc_pending s = Some (num # bs)" using u(2) nb(1) by (simp add: same_ctl_def)
        then have "issued e s = [nci_packet 1 3 (num # bs)]"
          using u(4) fl disc False Some by (simp add: issued_def)
        then show ?thesis
          using that[of "x \<lparr> nci_disc_pending := None \<rparr>"] px Some False disc u(1) nb r0
          by (simp add: Let_def nfc_ncif_check_cmd_queue.simps(2)[of "Suc d"] del: nfc_ncif_check_cmd_queue.simps)
      qed
    qed
  qed
qed

lemma check_cmd_queue_send:
  assumes "cmd_inv s sub r" "cmd_ok b"
  obtains s' where "check_cmd_queue e (Some b) s = Some s'" "cmd_inv s' (sub @ [pkt_of b]) r"
proof -
  have "q_ok s" "bal s r" "pend_ok s" "sub_of s = sub" using assms(1) by (simp_all add: cmd_inv_def)
  then show ?thesis
    using check_send[of s r b 1 e] assms(2) that unfolding check_cmd_queue_def by (metis Suc_1 One_nat_def)
qed

lemma check_cmd_queue_none:
  assumes "q_ok s" "bal s r" "pend_ok s" "env_ok e"
  obtains s' where "check_cmd_queue e None s = Some s'" "cmd_inv s' (sub_of s @ issued e s) r"
  using check_none[OF assms, of 0] that unfolding check_cmd_queue_def by (metis Suc_1 One_nat_def)

end
