(* ===== verification/NciRequests.thy ===== *)
theory NciRequests
  imports NciCmdProofs
begin

text \<open>
  The requests a client can make of the command layer, the packet each of them stands for, and the
  proof that the builder called for a request puts exactly this packet into the queue of commands.
\<close>

section \<open>Requests\<close>

text \<open>Parameters as tag and value; the encoder puts the length between them.\<close>

definition tlv_enc :: "(u8 \<times> mem) list \<Rightarrow> mem" where
  "tlv_enc ts = concat (map (\<lambda>(t, v). t # of_nat (length v) # v) ts)"

lemma tlv_enc_simps [simp]: "tlv_enc [] = []" "tlv_enc ((t, v) # ts) = t # of_nat (length v) # v @ tlv_enc ts"
  by (simp_all add: tlv_enc_def)

lemma tlv_count_enc:
  "length (tlv_enc ts) \<le> 255 \<Longrightarrow>
   tlv_count (pre @ tlv_enc ts) (length pre) (of_nat (length (tlv_enc ts))) num = Some (Some (num + of_nat (length ts)))"
proof (induction ts arbitrary: pre num)
  case Nil
  then show ?case by (simp add: tlv_count.simps)
next
  case (Cons tv ts)
  obtain t v where tv: "tv = (t, v)" by force
  let ?n = "length (tlv_enc (tv # ts))"
  have n: "?n = 2 + length v + length (tlv_enc ts)" using tv by simp
  have u: "unat (of_nat ?n :: u8) = ?n" using Cons.prems by (intro unat_of_nat_u8) simp
  have v: "unat (of_nat (length v) :: u8) = length v" using Cons.prems n by (intro unat_of_nat_u8) simp
  have "1 < (of_nat ?n :: u8)" using u n by (simp add: word_less_nat_alt del: of_nat_add)
  moreover have "(of_nat ?n :: u8) - 2 = of_nat (length v + length (tlv_enc ts))" using n by simp
  moreover have "(of_nat (length v) :: u8) \<le> of_nat (length v + length (tlv_enc ts))"
    using v Cons.prems n unat_of_nat_u8[of "length v + length (tlv_enc ts)"] by (simp add: word_le_nat_alt del: of_nat_add)
  moreover have "rd8 (pre @ tlv_enc (tv # ts)) (length pre + 1) = Some (of_nat (length v))"
    using tv by (simp add: rd8_def nth_append)
  moreover have "tlv_count ((pre @ t # of_nat (length v) # v) @ tlv_enc ts) (length (pre @ t # of_nat (length v) # v))
      (of_nat (length (tlv_enc ts))) (num + 1) = Some (Some (num + 1 + of_nat (length ts)))"
    using Cons.IH[of "pre @ t # of_nat (length v) # v" "num + 1"] Cons.prems n by simp
  ultimately show ?case
    using tv v by (subst tlv_count.simps) (simp add: add.assoc Let_def)
qed

datatype nci_req =
    Core_reset u8 | Core_init u8 | Get_config mem | Set_config "(u8 \<times> mem) list" | Conn_create u8 u8 mem
  | Conn_close u8 | Power_sub_state u8 | Nfcee_discover u8 | Nfcee_mode_set u8 u8 | Nfcee_power_link u8 u8
  | Iso_dep_nak | Discover "(u8 \<times> u8) list" | Discover_select u8 u8 u8 | Rf_extension u8 u8 mem
  | Removal_detection u8 | Wpt_control "(u8 \<times> mem) list" | Parameter_update "(u8 \<times> mem) list" | Deactivate u8
  | Discover_map "(u8 \<times> u8 \<times> u8) list" | T3t_polling u16 u8 u8 | Set_routing bool u8 mem | Get_routing
  | Android_get_caps | Vendor u8 nfc_hdr mem | Raw_vendor nfc_hdr mem

text \<open>The call of the builder for a request, with the arrays a client passes.\<close>

primrec nci_call :: "nci_env \<Rightarrow> nci_req \<Rightarrow> nci_cb \<Rightarrow> (u8 \<times> nci_cb) option" where
  "nci_call e (Core_reset t) = nci_snd_core_reset e t"
| "nci_call e (Core_init v) = nci_snd_core_init e v"
| "nci_call e (Get_config ids) = nci_snd_core_get_config e ids (of_nat (length ids))"
| "nci_call e (Set_config ts) = nci_snd_core_set_config e (tlv_enc ts) (of_nat (length (tlv_enc ts)))"
| "nci_call e (Conn_create d n ts) = nci_snd_core_conn_create e d n (of_nat (length ts)) ts"
| "nci_call e (Conn_close c) = nci_snd_core_conn_close e c"
| "nci_call e (Power_sub_state t) = nci_snd_core_set_power_sub_state e t"
| "nci_call e (Nfcee_discover a) = nci_snd_nfcee_discover e a"
| "nci_call e (Nfcee_mode_set n m) = nci_snd_nfcee_mode_set e n m"
| "nci_call e (Nfcee_power_link n c) = nci_snd_nfcee_power_link_control e n c"
| "nci_call e Iso_dep_nak = nci_snd_iso_dep_nak_presence_check_cmd e"
| "nci_call e (Discover ps) = nci_snd_discover_cmd e (of_nat (length ps)) (concat (map (\<lambda>(t, f). [t, f]) ps))"
| "nci_call e (Discover_select d p i) = nci_snd_discover_select_cmd e d p i"
| "nci_call e (Rf_extension m x d) = nci_snd_rf_extension_control_cmd e m x d (of_nat (length d))"
| "nci_call e (Removal_detection w) = nci_snd_ep_removal_detection_cmd e w"
| "nci_call e (Wpt_control ts) = nci_snd_rf_wpt_control_cmd e (tlv_enc ts) (of_nat (length (tlv_enc ts)))"
| "nci_call e (Parameter_update ts) = nci_snd_parameter_update_cmd e (tlv_enc ts) (of_nat (length (tlv_enc ts)))"
| "nci_call e (Deactivate t) = nci_snd_deactivate_cmd e t"
| "nci_call e (Discover_map ms) = nci_snd_discover_map_cmd e (of_nat (length ms)) (concat (map (\<lambda>(p, m, i). [p, m, i]) ms))"
| "nci_call e (T3t_polling c r t) = nci_snd_t3t_polling e c r t"
| "nci_call e (Set_routing m n ts) = nci_snd_set_routing_cmd e m n (of_nat (length ts)) ts"
| "nci_call e Get_routing = nci_snd_get_routing_cmd e"
| "nci_call e Android_get_caps = nci_snd_android_get_caps_cmd e"
| "nci_call e (Vendor oid p cb) = NFC_SendVsCommand e oid (Some p) cb"
| "nci_call e (Raw_vendor p cb) = NFC_SendRawVsCommand e (Some p) cb"

text \<open>Group, opcode and parameters of the command a request stands for.\<close>

primrec req_cmd :: "nci_req \<Rightarrow> u8 \<times> u8 \<times> mem" where
  "req_cmd (Core_reset t) = (0, 0, [t])"
| "req_cmd (Core_init v) = (0, 1, if 0x20 \<le> v then [0, 0] else [])"
| "req_cmd (Get_config ids) = (0, 3, of_nat (length ids) # ids)"
| "req_cmd (Set_config ts) = (0, 2, of_nat (length ts) # tlv_enc ts)"
| "req_cmd (Conn_create d n ts) = (0, 4, [d, n] @ ts)"
| "req_cmd (Conn_close c) = (0, 5, [c])"
| "req_cmd (Power_sub_state t) = (0, 9, [t])"
| "req_cmd (Nfcee_discover a) = (2, 0, [a])"
| "req_cmd (Nfcee_mode_set n m) = (2, 1, [n, m])"
| "req_cmd (Nfcee_power_link n c) = (2, 3, [n, c])"
| "req_cmd Iso_dep_nak = (1, 16, [])"
| "req_cmd (Discover ps) = (1, 3, of_nat (length ps) # concat (map (\<lambda>(t, f). [t, f]) ps))"
| "req_cmd (Discover_select d p i) = (1, 4, [d, p, i])"
| "req_cmd (Rf_extension m x d) = (1, if m = 0 then 12 else 13, [x, of_nat (length d)] @ d)"
| "req_cmd (Removal_detection w) = (1, 18, [w])"
| "req_cmd (Wpt_control ts) = (1, 21, of_nat (length ts) # tlv_enc ts)"
| "req_cmd (Parameter_update ts) = (1, 11, of_nat (length ts) # tlv_enc ts)"
| "req_cmd (Deactivate t) = (1, 6, [t])"
| "req_cmd (Discover_map ms) = (1, 0, of_nat (length ms) # concat (map (\<lambda>(p, m, i). [p, m, i]) ms))"
| "req_cmd (T3t_polling c r t) = (1, 8, be16_bytes c @ [r, t])"
| "req_cmd (Set_routing m n ts) = (1, 1, [of_bool m, if ts = [] then 0 else n] @ ts)"
| "req_cmd Get_routing = (1, 2, [])"
| "req_cmd Android_get_caps = (0x0F, 0x0C, [0])"
| "req_cmd (Vendor oid p cb) = (0x0F, oid, pkt_of p)"
| "req_cmd (Raw_vendor p cb) = (0, 0, [])"

text \<open>In NCI 2.0 the discovery of execution environments has no parameter.\<close>

definition req_packet :: "u8 \<Rightarrow> nci_req \<Rightarrow> mem" where
  "req_packet v q =
    (case q of
       Raw_vendor p cb \<Rightarrow> pkt_of p
     | Nfcee_discover a \<Rightarrow> nci_packet 2 0 (if 0x20 \<le> v then [] else [a])
     | _ \<Rightarrow> (case req_cmd q of (gid, oid, params) \<Rightarrow> nci_packet gid oid params))"

text \<open>A well-formed command packet: message type, and as many parameters as the length byte says.\<close>

definition nci_cmd_pkt :: "mem \<Rightarrow> bool" where
  "nci_cmd_pkt p \<longleftrightarrow> 3 \<le> length p \<and> p ! 0 AND 0xF0 = 0x20 \<and> length p = 3 + unat (p ! 2)"

text \<open>The requests a client may make: the parameters fit the length byte, the version asked for is not
  above that of the controller, the buffer of a vendor command has room for the callback and the header,
  and a raw vendor command is a packet.\<close>

definition req_ok :: "u8 \<Rightarrow> nci_req \<Rightarrow> bool" where
  "req_ok v q \<longleftrightarrow>
    (case q of
       Core_init v' \<Rightarrow> 0x20 \<le> v' \<longrightarrow> 0x20 \<le> v
     | Vendor oid p cb \<Rightarrow> length cb = 8 \<and> 12 \<le> h_offset p \<and> h_len p \<le> 255 \<and>
         unat (h_offset p) + max 2 (unat (h_len p)) \<le> length (h_data p)
     | Raw_vendor p cb \<Rightarrow> length cb = 8 \<and> 8 \<le> h_offset p \<and> h_len p \<le> 0x102 \<and> cmd_ok p \<and> nci_cmd_pkt (pkt_of p)
     | _ \<Rightarrow> length (snd (snd (req_cmd q))) \<le> 255)"

lemma nci_packet_wf: "length params \<le> 255 \<Longrightarrow> gid AND 0xF0 = 0 \<Longrightarrow> nci_cmd_pkt (nci_packet gid oid params)"
  by (simp add: nci_cmd_pkt_def nci_packet_def unat_of_nat_u8 bit.conj_disj_distrib2)

lemma req_packet_wf: "req_ok v q \<Longrightarrow> nci_cmd_pkt (req_packet v q)"
  by (cases q) (auto simp: req_packet_def req_ok_def pkt_of_def word_le_nat_alt intro!: nci_packet_wf)

lemma nci_snd_ok:
  assumes "cmd_inv s sub r" "env_ok e" "env_getbuf e \<noteq> None" "unat len \<le> length bytes" "length bytes \<le> 651"
    "pkt = take (unat len) bytes"
  shows "\<exists>s'. nci_snd e len bytes s = Some (NCI_STATUS_OK, s') \<and> cmd_inv s' (sub @ [pkt]) r"
proof -
  obtain d where d: "env_getbuf e = Some d" "length d = 652" using assms(2,3) by (auto simp: env_ok_def)
  obtain p where p: "cmd_buf d len bytes = Some p" "cmd_ok p" "pkt_of p = pkt"
    using cmd_buf_ok[OF d(2) assms(5,4)] assms(6) by auto
  have "cmd_ok (p \<lparr> h_event := 0x4000, h_layer := 0 \<rparr>)" using p(2) by simp
  then obtain s' where "nfc_ncif_send_cmd e p s = Some s'" "cmd_inv s' (sub @ [pkt_of p]) r"
    using check_cmd_queue_send[OF assms(1), of "p \<lparr> h_event := 0x4000, h_layer := 0 \<rparr>" e]
    by (auto simp: nfc_ncif_send_cmd_def)
  then show ?thesis
    using d(1) p(1,3) by (simp add: nci_snd_def)
qed

lemma cmd_inv_base:
  assumes "cmd_inv s sub r" "nc_flags b AND 0xF0 = nc_flags (nci_base s) AND 0xF0"
  shows "cmd_inv (s \<lparr> nci_base := b \<rparr>) sub r"
proof -
  have "nci_fl f (s \<lparr> nci_base := b \<rparr>) = nci_fl f s" if "f AND 0xF0 = f" for f
  proof -
    have "x AND f = (x AND 0xF0) AND f" for x using that by (metis and.assoc and.commute)
    then show ?thesis using assms(2) by (metis nci_fl_def nci_cb.select_convs(1) nci_cb.surjective nci_cb.update_convs(1))
  qed
  from this[of NFC_FL_CONTROL_GRANTED] this[of NFC_FL_DISCOVER_PENDING] show ?thesis
    using assms(1) by (simp add: cmd_inv_def q_ok_def pend_ok_def bal_def sub_of_def)
qed

lemmas builder_defs = nci_snd_core_reset_def nci_snd_core_init_def nci_snd_core_conn_close_def
  nci_snd_core_set_power_sub_state_def nci_snd_nfcee_discover_def nci_snd_nfcee_mode_set_def
  nci_snd_nfcee_power_link_control_def nci_snd_iso_dep_nak_presence_check_cmd_def nci_snd_discover_select_cmd_def
  nci_snd_ep_removal_detection_cmd_def nci_snd_deactivate_cmd_def nci_snd_t3t_polling_def
  nci_snd_get_routing_cmd_def nci_snd_android_get_caps_cmd_def

lemma nci_snd_tlv_ok:
  assumes "cmd_inv s sub r" "env_ok e" "env_getbuf e \<noteq> None" "length (tlv_enc ts) < 255"
  shows "\<exists>s'. nci_snd_tlv e gid oid (tlv_enc ts) (of_nat (length (tlv_enc ts))) s = Some (NCI_STATUS_OK, s') \<and>
    cmd_inv s' (sub @ [nci_packet gid oid (of_nat (length ts) # tlv_enc ts)]) r"
proof -
  let ?n = "length (tlv_enc ts)"
  have u: "unat (of_nat ?n :: u8) = ?n" using assms(4) by (intro unat_of_nat_u8) simp
  have l: "unat (3 + ucast (of_nat ?n :: u8) + 1 :: u16) = 3 + length (of_nat (length ts) # tlv_enc ts)"
    using unat_len16[of ?n 4] assms(4) by simp
  have "tlv_count (tlv_enc ts) 0 (of_nat ?n) 0 = Some (Some (of_nat (length ts)))"
    using tlv_count_enc[of ts "[]" 0] assms(4) by simp
  moreover have "rd_bytes (tlv_enc ts) 0 (unat (of_nat ?n :: u8)) = Some (tlv_enc ts)"
    using u by (simp add: rd_bytes_in)
  moreover have "\<exists>s'. nci_snd e (3 + ucast (of_nat ?n :: u8) + 1)
      (nci_cmd_hdr gid oid @ [of_nat ?n + 1, of_nat (length ts)] @ tlv_enc ts) s = Some (NCI_STATUS_OK, s') \<and>
      cmd_inv s' (sub @ [nci_packet gid oid (of_nat (length ts) # tlv_enc ts)]) r"
    using assms(4) l by (intro nci_snd_ok[OF assms(1-3)]) (simp_all add: nci_packet_def nci_cmd_hdr_def)
  ultimately show ?thesis
    using assms(3) by (auto simp: nci_snd_tlv_def)
qed

lemma rd_all: "length bs \<le> 255 \<Longrightarrow> rd_bytes bs 0 (unat (of_nat (length bs) :: u8)) = Some bs"
  by (simp add: rd_bytes_in unat_of_nat_u8)

lemma of_nat_len_0: "length bs \<le> 255 \<Longrightarrow> (of_nat (length bs) :: u8) = 0 \<longleftrightarrow> bs = []"
  using unat_of_nat_u8[of "length bs"] by (auto simp: word_unat_eq_iff)

lemma nci_call_fixed:
  assumes "cmd_inv s sub r" "env_ok e" "env_getbuf e \<noteq> None" "req_ok (nc_version (nci_base s)) q"
    "q \<in> {Core_reset t, Core_init t, Conn_close t, Power_sub_state t, Nfcee_discover t, Nfcee_mode_set t n,
      Nfcee_power_link t n, Iso_dep_nak, Discover_select t n i, Removal_detection t, T3t_polling c t n,
      Get_routing, Android_get_caps}"
  shows "\<exists>s'. nci_call e q s = Some (NCI_STATUS_OK, s') \<and>
    cmd_inv s' (sub @ [req_packet (nc_version (nci_base s)) q]) r"
proof -
  note ok = nci_snd_ok[OF assms(1-3)]
  note d = builder_defs nci_packet_def nci_cmd_hdr_def be16_bytes_def req_packet_def req_ok_def
  from assms(4,5) show ?thesis
    by (elim insertE emptyE; hypsubst)
      (auto simp: d not_le Let_def intro!: ok)
qed

lemma nci_call_arrays:
  assumes "cmd_inv s sub r" "env_ok e" "env_getbuf e \<noteq> None" "req_ok v q"
    "q \<in> {Get_config bs, Conn_create t n bs, Rf_extension t n bs, Set_routing m n bs, Discover_map ms, Deactivate t}"
  shows "\<exists>s'. nci_call e q s = Some (NCI_STATUS_OK, s') \<and> cmd_inv s' (sub @ [req_packet v q]) r"
proof -
  note ok = nci_snd_ok[OF _ assms(2,3)]
  note d = nci_packet_def nci_cmd_hdr_def req_packet_def req_ok_def rd_all of_nat_len_0 unat_len16 Let_def
  obtain buf where buf: "env_getbuf e = Some buf" using assms(3) by auto
  have i1: "cmd_inv (nci_set_fl NFC_FL_WAIT_RF_INTF_EXT_RSP s) sub r"
    using cmd_inv_base[OF assms(1), of "nci_base (nci_set_fl NFC_FL_WAIT_RF_INTF_EXT_RSP s)"]
    by (simp add: nci_set_fl_def bit.conj_disj_distrib2)
  have i2: "cmd_inv (s \<lparr> nci_base := NFC_SetReassemblyFlag True (nci_base s) \<rparr>) sub r"
    by (rule cmd_inv_base[OF assms(1)]) (simp add: NFC_SetReassemblyFlag_def)
  have l: "length (concat (map (\<lambda>(p, m, i). [p, m, i :: u8]) ms)) = 3 * length ms"
    by (induction ms) auto
  consider "q = Get_config bs" | "q = Conn_create t n bs" | "q = Rf_extension t n bs" | "q = Set_routing m n bs"
    | "q = Discover_map ms" | "q = Deactivate t" using assms(5) by blast
  then show ?thesis
  proof cases
    case 1
    then show ?thesis using assms(4) buf unat_len16[of "length bs" 4]
      by (auto simp: d nci_snd_core_get_config_def intro!: ok[OF assms(1)])
  next
    case 2
    then show ?thesis using assms(4) buf unat_len16[of "length bs" 5]
      by (auto simp: d nci_snd_core_conn_create_def intro!: ok[OF assms(1)])
  next
    case 3
    then show ?thesis using assms(4) buf unat_len16[of "length bs" 5]
      by (auto simp: d nci_snd_rf_extension_control_cmd_def intro!: ok[OF i1])
  next
    case 4
    then have b: "length bs \<le> 253" using assms(4) by (simp add: d)
    then have "\<not> (of_nat (length bs) + 2 :: u8) < of_nat (length bs)"
      using unat_of_nat_u8[of "length bs + 2"] unat_of_nat_u8[of "length bs"] by (simp add: word_less_nat_alt add.commute[of _ 2])
    moreover have "unat (3 + ucast (of_nat (length bs) + 2 :: u8) :: u16) = 5 + length bs"
      using b unat_len16[of "length bs + 2" 3] by (simp add: add.commute[of _ 2])
    ultimately show ?thesis using 4 b buf
      by (auto simp: d nci_snd_set_routing_cmd_def intro!: ok[OF assms(1)])
  next
    case 5
    then show ?thesis using assms(4) buf l unat_len16[of "1 + 3 * length ms" 3]
      by (auto simp: d nci_snd_discover_map_cmd_def rd_bytes_in unat_of_nat_u8 intro!: ok[OF assms(1)])
  next
    case 6
    then show ?thesis using buf by (auto simp: d nci_snd_deactivate_cmd_def intro!: ok[OF i2])
  qed
qed

lemma wr_bytes_keep:
  assumes "wr_bytes m p bs = Some m'" "q + n \<le> p \<or> p + length bs \<le> q" "q + n \<le> length m"
  shows "take n (drop q m') = take n (drop q m)"
  using assms wr_bytes_length[OF assms(1)] wr_bytes_nth[OF assms(1)] by (intro nth_equalityI) auto

lemma raw_vendor_ok:
  assumes "cmd_inv s sub r" "req_ok v q" and q: "q = Raw_vendor p cb"
  shows "\<exists>s'. nci_call e q s = Some (NCI_STATUS_OK, s') \<and> cmd_inv s' (sub @ [req_packet v q]) r"
proof -
  have p: "length cb = 8" "8 \<le> unat (h_offset p)" "h_len p \<le> 0x102" "cmd_ok p"
    using assms(2) q by (simp_all add: req_ok_def word_le_nat_alt)
  obtain d where d: "wr_bytes (h_data p) 0 cb = Some d"
    using wr_bytes_ex[of 0 cb "h_data p"] p by (auto simp: cmd_ok_def)
  let ?p = "p \<lparr> h_event := 0x4000, h_layer := NFC_WAIT_RSP_RAW_VS, h_data := d \<rparr>"
  have "unat (h_offset p) + unat (h_len p) \<le> length (h_data p)" using p(4) by (auto simp: cmd_ok_def)
  then have "pkt_of ?p = pkt_of p"
    using wr_bytes_keep[OF d, of "unat (h_offset p)" "unat (h_len p)"] p(1,2) by (simp add: pkt_of_def)
  moreover have "cmd_ok ?p" using p wr_bytes_length[OF d] by (simp add: cmd_ok_def)
  then obtain s' where "check_cmd_queue e (Some ?p) s = Some s'" "cmd_inv s' (sub @ [pkt_of ?p]) r"
    using check_cmd_queue_send[OF assms(1), of ?p e] by blast
  ultimately show ?thesis
    using q p d by (simp add: NFC_SendRawVsCommand_def req_packet_def not_less)
qed

lemma vendor_ok:
  assumes "cmd_inv s sub r" "req_ok v q" and q: "q = Vendor oid p cb"
  shows "\<exists>s'. nci_call e q s = Some (NCI_STATUS_OK, s') \<and> cmd_inv s' (sub @ [req_packet v q]) r"
proof -
  have p: "length cb = 8" "12 \<le> unat (h_offset p)" "h_len p \<le> 255"
      "unat (h_offset p) + max 2 (unat (h_len p)) \<le> length (h_data p)"
    using assms(2) q by (simp_all add: req_ok_def word_le_nat_alt)
  have o: "unat (h_offset p - 3) = unat (h_offset p) - 3" using p(2) by (simp add: unat_sub word_le_nat_alt)
  have n: "unat (h_len p) \<le> 255" using p(3) by (simp add: word_le_nat_alt)
  then have l: "unat (h_len p + 3) = 3 + unat (h_len p)" by (simp add: unat_word_ariths)
  have h: "(ucast (h_len p) :: u8) = of_nat (length (pkt_of p))"
    using p(4) by (simp add: pkt_of_def)
  obtain d where d: "wr_bytes (h_data p) 0 cb = Some d"
    using wr_bytes_ex[of 0 cb "h_data p"] p by auto
  let ?hdr = "nci_cmd_hdr NCI_GID_PROP oid @ [ucast (h_len p)]"
  have hl: "length ?hdr = 3" by (simp add: nci_cmd_hdr_def)
  have ld: "length d = length (h_data p)" using wr_bytes_length[OF d] .
  obtain d' where d': "wr_bytes d (unat (h_offset p - 3)) ?hdr = Some d'"
    using wr_bytes_ex[of "unat (h_offset p - 3)" ?hdr d] p o hl ld by auto
  let ?p = "p \<lparr> h_event := 0x4000, h_layer := NFC_WAIT_RSP_VSC, h_data := d', h_offset := h_offset p - 3, h_len := h_len p + 3 \<rparr>"
  have "take (unat (h_len p)) (drop (unat (h_offset p)) d') = pkt_of p"
    using wr_bytes_keep[OF d', of "unat (h_offset p)" "unat (h_len p)"] wr_bytes_keep[OF d, of "unat (h_offset p)" "unat (h_len p)"]
      p o hl ld by (simp add: pkt_of_def)
  moreover have "take 3 (drop (unat (h_offset p - 3)) d') = ?hdr"
    using wr_bytes_at[OF d'] rd_bytes_in[of "unat (h_offset p - 3)" 3 d'] rd_bytes_Some[of d' "unat (h_offset p - 3)" 3 ?hdr]
      hl o p ld wr_bytes_length[OF d'] by simp
  moreover have "drop 3 (drop (unat (h_offset p - 3)) d') = drop (unat (h_offset p)) d'"
    using o p(2) by simp
  then have "pkt_of ?p = take 3 (drop (unat (h_offset p - 3)) d') @ take (unat (h_len p)) (drop (unat (h_offset p)) d')"
    using l take_add[of 3 "unat (h_len p)" "drop (unat (h_offset p - 3)) d'"] by (simp add: pkt_of_def del: drop_drop)
  ultimately have "pkt_of ?p = nci_packet NCI_GID_PROP oid (pkt_of p)"
    using h by (simp add: nci_packet_def nci_cmd_hdr_def)
  moreover have "cmd_ok ?p" using p o l wr_bytes_length[OF d'] ld by (simp add: cmd_ok_def)
  then obtain s' where "check_cmd_queue e (Some ?p) s = Some s'" "cmd_inv s' (sub @ [pkt_of ?p]) r"
    using check_cmd_queue_send[OF assms(1), of ?p e] by blast
  ultimately show ?thesis
    using q p n d d' by (simp add: NFC_SendVsCommand_def req_packet_def not_less word_le_nat_alt word_less_nat_alt Let_def)
qed

lemma discover_ok:
  assumes "cmd_inv s sub r" "env_ok e" "env_getbuf e \<noteq> None" "req_ok v (Discover ps)"
  shows "\<exists>s'. nci_call e (Discover ps) s = Some (NCI_STATUS_OK, s') \<and> cmd_inv s' (sub @ [req_packet v (Discover ps)]) r"
proof -
  let ?bs = "concat (map (\<lambda>(t, f). [t, f]) ps)"
  have l: "length ?bs = 2 * length ps" by (induction ps) auto
  then have n: "length ps \<le> 127" using assms(4) by (simp add: req_ok_def)
  obtain b where b: "env_getbuf e = Some b" "length b = 652" using assms(2,3) by (auto simp: env_ok_def)
  obtain p where p: "discover_cmd_buf b (of_nat (length ps)) ?bs = Some p" "cmd_ok p"
      "pkt_of p = nci_packet 1 3 (of_nat (length ps) # ?bs)"
    using discover_cmd_buf_ok[OF b(2), of ?bs "of_nat (length ps)"] l n unat_of_nat_u8[of "length ps"] by auto
  obtain s' where "check_cmd_queue e (Some (p \<lparr> h_event := 0x4000, h_layer := 0 \<rparr>)) s = Some s'"
      "cmd_inv s' (sub @ [pkt_of p]) r"
    using check_cmd_queue_send[OF assms(1), of "p \<lparr> h_event := 0x4000, h_layer := 0 \<rparr>" e] p(2) by auto
  then show ?thesis
    using b p by (simp add: nci_snd_discover_cmd_def nfc_ncif_send_cmd_def req_packet_def)
qed

lemma nci_call_ok:
  assumes "cmd_inv s sub r" "env_ok e" "env_getbuf e \<noteq> None" "req_ok (nc_version (nci_base s)) q"
  shows "\<exists>s'. nci_call e q s = Some (NCI_STATUS_OK, s') \<and>
    cmd_inv s' (sub @ [req_packet (nc_version (nci_base s)) q]) r"
proof (cases q)
  case (Discover ps)
  then show ?thesis using discover_ok[OF assms(1-3), of _ ps] assms(4) by metis
next
  case (Set_config ts)
  then show ?thesis using nci_snd_tlv_ok[OF assms(1-3), of ts 0 2] assms(4)
    by (simp add: nci_snd_core_set_config_def req_ok_def req_packet_def)
next
  case (Wpt_control ts)
  then show ?thesis using nci_snd_tlv_ok[OF assms(1-3), of ts 1 21] assms(4)
    by (simp add: nci_snd_rf_wpt_control_cmd_def nci_snd_tlv_parameter_generic_cmd_def req_ok_def req_packet_def)
next
  case (Parameter_update ts)
  then show ?thesis using nci_snd_tlv_ok[OF assms(1-3), of ts 1 11] assms(4)
    by (simp add: nci_snd_parameter_update_cmd_def nci_snd_tlv_parameter_generic_cmd_def req_ok_def req_packet_def)
qed (use vendor_ok[OF assms(1,4)] raw_vendor_ok[OF assms(1,4)] nci_call_fixed[OF assms] nci_call_arrays[OF assms] in blast)+

text \<open>Without a command buffer a request fails, and the queue is as before.\<close>

lemma nci_call_no_buf:
  assumes "env_getbuf e = None" "\<nexists>oid p cb. q = Vendor oid p cb" "\<nexists>p cb. q = Raw_vendor p cb"
  shows "\<exists>b. nci_call e q s = Some (NCI_STATUS_FAILED, s \<lparr> nci_base := nci_base s \<lparr> nc_reassembly := b \<rparr> \<rparr>)"
proof (cases "\<exists>t. q = Deactivate t")
  case True
  then show ?thesis using assms(1)
    by (auto simp: nci_snd_deactivate_cmd_def nci_snd_def NFC_SetReassemblyFlag_def)
next
  case False
  then have "nci_call e q s = Some (NCI_STATUS_FAILED, s)" using assms
    by (cases q) (auto simp: builder_defs nci_snd_def nci_snd_discover_cmd_def nci_snd_tlv_def nci_snd_core_set_config_def
        nci_snd_rf_wpt_control_cmd_def nci_snd_tlv_parameter_generic_cmd_def nci_snd_parameter_update_cmd_def
        nci_snd_core_get_config_def nci_snd_core_conn_create_def nci_snd_rf_extension_control_cmd_def
        nci_snd_discover_map_cmd_def nci_snd_set_routing_cmd_def Let_def)
  then show ?thesis by (metis nci_cb.surjective nci_cb.update_convs(1) nfc_conns.surjective nfc_conns.update_convs(6))
qed

lemma nci_call_inv:
  assumes "cmd_inv s sub r" "env_ok e" "req_ok (nc_version (nci_base s)) q"
  obtains st s' where "nci_call e q s = Some (st, s')"
    "cmd_inv s' (sub @ (if st = NCI_STATUS_OK then [req_packet (nc_version (nci_base s)) q] else [])) r"
proof (cases "env_getbuf e \<noteq> None \<or> (\<exists>oid p cb. q = Vendor oid p cb) \<or> (\<exists>p cb. q = Raw_vendor p cb)")
  case True
  then have "\<exists>s'. nci_call e q s = Some (NCI_STATUS_OK, s') \<and> cmd_inv s' (sub @ [req_packet (nc_version (nci_base s)) q]) r"
    using nci_call_ok[OF assms(1,2) _ assms(3)] vendor_ok[OF assms(1,3)] raw_vendor_ok[OF assms(1,3)] by blast
  then show ?thesis using that by fastforce
next
  case False
  then obtain b where "nci_call e q s = Some (NCI_STATUS_FAILED, s \<lparr> nci_base := nci_base s \<lparr> nc_reassembly := b \<rparr> \<rparr>)"
    using nci_call_no_buf[of e q s] by auto
  then show ?thesis using that cmd_inv_base[OF assms(1)] by fastforce
qed

end
