(* ===== verification/NciCmdFlow.thy ===== *)
theory NciCmdFlow
  imports NciRequests
begin

text \<open>
  Runs of the command layer: requests of the client, responses of the controller, and the events by
  which the transport asks for the command window and gives it back, in any order. The relation keeps
  the commands submitted so far and the number of responses.
\<close>

section \<open>Runs\<close>

text \<open>The states from which the queue is checked after a response, after the start of discovery and after
  the transport has given the window back.\<close>

definition after_rsp :: "nci_cb \<Rightarrow> nci_cb" where
  "after_rsp s = s \<lparr> nci_rsp_timer := False, nci_vsc_cback := replicate 8 0, nci_window := nci_window s + 1 \<rparr>"

definition after_start :: "u8 \<Rightarrow> mem \<Rightarrow> nci_cb \<Rightarrow> nci_cb" where
  "after_start num bs s = nci_set_fl NFC_FL_CONTROL_REQUESTED (nci_set_fl NFC_FL_DISCOVER_PENDING s)
     \<lparr> nci_disc_pending := Some (num # bs) \<rparr>"

definition after_grant :: "nci_cb \<Rightarrow> nci_cb" where
  "after_grant s = nci_clr_fl NFC_FL_CONTROL_GRANTED (s \<lparr> nci_window := NCI_MAX_CMD_WINDOW \<rparr>)"

definition after_request :: "nci_cb \<Rightarrow> nci_cb" where
  "after_request s = nci_set_fl NFC_FL_HAL_REQUESTED (nci_set_fl NFC_FL_CONTROL_REQUESTED s)"

text \<open>The discovery command that the end of the pre-discovery phase sends.\<close>

definition cplt_sent :: "nci_env \<Rightarrow> nci_cb \<Rightarrow> mem list" where
  "cplt_sent e s =
    (if nci_fl NFC_FL_DISCOVER_PENDING s
     then [nci_packet 1 3 (the (nci_disc_pending s))]
     else issued e (after_grant s))"

inductive cmd_reach :: "nci_cb \<Rightarrow> mem list \<Rightarrow> nat \<Rightarrow> bool" where
  init: "nci_window s = NCI_MAX_CMD_WINDOW \<Longrightarrow> nci_xmit_q s = [] \<Longrightarrow> nci_out s = [] \<Longrightarrow>
    nc_flags (nci_base s) AND 0xF0 = 0 \<Longrightarrow> cmd_reach s [] 0"
| request: "cmd_reach s sub r \<Longrightarrow> env_ok e \<Longrightarrow> req_ok (nc_version (nci_base s)) q \<Longrightarrow>
    nci_call e q s = Some (st, s') \<Longrightarrow>
    cmd_reach s' (sub @ (if st = NCI_STATUS_OK then [req_packet (nc_version (nci_base s)) q] else [])) r"
| discovery: "cmd_reach s sub r \<Longrightarrow> env_ok e \<Longrightarrow> env_disc_buf e \<Longrightarrow> unat num \<le> 127 \<Longrightarrow> length bs = 2 * unat num \<Longrightarrow>
    NFC_DiscoveryStart e num bs s = Some (st, s') \<Longrightarrow>
    cmd_reach s' (sub @ (if st = NFC_STATUS_CMD_STARTED then issued e (after_start num bs s) else [])) r"
| response: "cmd_reach s sub r \<Longrightarrow> env_ok e \<Longrightarrow> r < length (nci_out s) \<Longrightarrow>
    nfc_ncif_update_window e s = Some s' \<Longrightarrow> cmd_reach s' (sub @ issued e (after_rsp s)) (Suc r)"
| pre_discover: "cmd_reach s sub r \<Longrightarrow> env_ok e \<Longrightarrow> granted s \<Longrightarrow> env_getbuf e \<noteq> None \<Longrightarrow>
    hal_pre_discover_cplt e s = Some s' \<Longrightarrow> cmd_reach s' (sub @ cplt_sent e s) r"
| request_control: "cmd_reach s sub r \<Longrightarrow> env_ok e \<Longrightarrow>
    hal_request_control e s = Some s' \<Longrightarrow> cmd_reach s' (sub @ issued e (after_request s)) r"
| release_control: "cmd_reach s sub r \<Longrightarrow> env_ok e \<Longrightarrow>
    hal_release_control e s = Some s' \<Longrightarrow>
    cmd_reach s' (sub @ (if granted s then issued e (after_grant s) else [])) r"
| cleanup: "cmd_reach s sub r \<Longrightarrow> cmd_reach (nfc_gen_cleanup s) (nci_out s) (length (nci_out s))"
| data_path: "cmd_reach s sub r \<Longrightarrow> nc_flags b AND 0xF0 = nc_flags (nci_base s) AND 0xF0 \<Longrightarrow>
    cmd_reach (s \<lparr> nci_base := b \<rparr>) sub r"

section \<open>Every step returns and keeps the invariant\<close>

lemma cmd_inv_parts: "cmd_inv s sub r \<Longrightarrow> q_ok s \<and> bal s r \<and> pend_ok s \<and> sub_of s = sub"
  by (simp add: cmd_inv_def)

lemmas inv_defs = q_ok_def pend_ok_def bal_def sub_of_def

lemma outstanding: "cmd_inv s sub r \<Longrightarrow> r < length (nci_out s) \<Longrightarrow> nci_window s = 0 \<and> \<not> granted s"
  by (auto simp: cmd_inv_def bal_def q_ok_def dest!: window_cases split: if_splits)

lemma held: "cmd_inv s sub r \<Longrightarrow> granted s \<Longrightarrow> nci_window s = 0 \<and> length (nci_out s) = r"
  by (auto simp: cmd_inv_def bal_def q_ok_def dest!: window_cases)

lemma response_inv:
  assumes "cmd_inv s sub r" "env_ok e" "r < length (nci_out s)"
  obtains s' where "nfc_ncif_update_window e s = Some s'" "cmd_inv s' (sub @ issued e (after_rsp s)) (Suc r)"
proof -
  note w = outstanding[OF assms(1,3)]
  have "q_ok (after_rsp s)" "bal (after_rsp s) (Suc r)" "pend_ok (after_rsp s)" "sub_of (after_rsp s) = sub"
    using assms(1,3) w by (auto simp: cmd_inv_def inv_defs after_rsp_def)
  then show ?thesis
    using check_cmd_queue_none[of "after_rsp s" "Suc r" e] assms(2) w that
    by (auto simp: nfc_ncif_update_window_def after_rsp_def)
qed

lemma discovery_inv:
  assumes "cmd_inv s sub r" "env_ok e" "env_disc_buf e" "unat num \<le> 127" "length bs = 2 * unat num"
  obtains st s' where "NFC_DiscoveryStart e num bs s = Some (st, s')"
    "cmd_inv s' (sub @ (if st = NFC_STATUS_CMD_STARTED then issued e (after_start num bs s) else [])) r"
proof (cases "nci_disc_pending s")
  case None
  have "q_ok (after_start num bs s)" "bal (after_start num bs s) r" "pend_ok (after_start num bs s)"
      "sub_of (after_start num bs s) = sub"
    using assms by (auto simp: cmd_inv_def inv_defs after_start_def)
  then obtain s' where s': "check_cmd_queue e None (after_start num bs s) = Some s'"
      "cmd_inv s' (sub @ issued e (after_start num bs s)) r"
    using check_cmd_queue_none[of "after_start num bs s" r e] assms(2) by auto
  have "rd_bytes bs 0 (2 * unat num) = Some bs" using assms(5) by (simp add: rd_bytes_in)
  then have "NFC_DiscoveryStart e num bs s = Some (NFC_STATUS_CMD_STARTED, s')"
    using s'(1) None assms(3) by (simp add: NFC_DiscoveryStart_def after_start_def)
  then show ?thesis using that s'(2) by simp
next
  case (Some p)
  then show ?thesis using that assms(1) by (auto simp: NFC_DiscoveryStart_def)
qed

lemma after_grant_ok:
  assumes "cmd_inv s sub r" "granted s"
  shows "q_ok (after_grant s)" "bal (after_grant s) r" "pend_ok (after_grant s)" "sub_of (after_grant s) = sub"
  using assms held[OF assms] by (auto simp: cmd_inv_def inv_defs after_grant_def)

lemma release_inv:
  assumes "cmd_inv s sub r" "env_ok e"
  obtains s' where "hal_release_control e s = Some s'"
    "cmd_inv s' (sub @ (if granted s then issued e (after_grant s) else [])) r"
proof (cases "granted s")
  case True
  have "nci_clr_fl NFC_FL_CONTROL_GRANTED s \<lparr> nci_window := NCI_MAX_CMD_WINDOW \<rparr> = after_grant s"
    by (simp add: after_grant_def nci_clr_fl_def)
  then show ?thesis
    using check_cmd_queue_none[OF after_grant_ok(1-3)[OF assms(1) True] assms(2)] True that after_grant_ok(4)[OF assms(1) True]
    by (auto simp: hal_release_control_def)
next
  case False
  then show ?thesis using that assms(1) by (simp add: hal_release_control_def)
qed

lemma pre_discover_inv:
  assumes "cmd_inv s sub r" "env_ok e" "granted s" "env_getbuf e \<noteq> None"
  obtains s' where "hal_pre_discover_cplt e s = Some s'" "cmd_inv s' (sub @ cplt_sent e s) r"
proof (cases "nci_fl NFC_FL_DISCOVER_PENDING s")
  case False
  then show ?thesis
    using check_cmd_queue_none[OF after_grant_ok(1-3)[OF assms(1,3)] assms(2)] that after_grant_ok(4)[OF assms(1,3)]
    by (auto simp: hal_pre_discover_cplt_def cplt_sent_def after_grant_def)
next
  case True
  obtain num bs where nb: "nci_disc_pending s = Some (num # bs)" "length bs = 2 * unat num" "unat num \<le> 127"
    using True assms(1) by (auto simp: cmd_inv_def pend_ok_def)
  obtain b where b: "env_getbuf e = Some b" "length b = 652" using assms(2,4) by (auto simp: env_ok_def)
  obtain p where p: "discover_cmd_buf b num bs = Some p" "cmd_ok p" "pkt_of p = nci_packet 1 3 (num # bs)"
    using discover_cmd_buf_ok[OF b(2) nb(2,3)] .
  let ?u = "nci_clr_fl NFC_FL_DISCOVER_PENDING (after_grant s)"
  let ?p = "p \<lparr> h_event := 0x4000, h_layer := 0 \<rparr>"
  have u: "q_ok ?u" "bal ?u r" "pend_ok ?u" "sub_of ?u = sub"
    using after_grant_ok[OF assms(1,3)] by (auto simp: inv_defs)
  obtain x where x: "nfc_ncif_check_cmd_queue 2 e (Some ?p) ?u = Some x" "same_ctl ?u x" "cmd_inv x (sub @ [pkt_of p]) r"
    using check_send[OF u(1,2), of ?p 1 e] u(3,4) p(2) by (metis Suc_1 pkt_of_upd)
  have "\<not> nci_fl NFC_FL_DISCOVER_PENDING x" using same_ctl_fl[OF x(2)] by simp
  then have "cmd_inv (x \<lparr> nci_disc_pending := None \<rparr>) (sub @ cplt_sent e s) r"
    using x(3) p(3) True nb by (simp add: cmd_inv_def inv_defs cplt_sent_def)
  moreover have "hal_pre_discover_cplt e s = Some (x \<lparr> nci_disc_pending := None \<rparr>)"
    using True nb b p x(1) by (simp add: hal_pre_discover_cplt_def nci_snd_discover_cmd_def nfc_ncif_send_cmd_def
        check_cmd_queue_def after_grant_def rd8_in del: nfc_ncif_check_cmd_queue.simps)
  ultimately show ?thesis using that by blast
qed

lemma request_control_inv:
  assumes "cmd_inv s sub r" "env_ok e"
  obtains s' where "hal_request_control e s = Some s'" "cmd_inv s' (sub @ issued e (after_request s)) r"
proof -
  have "q_ok (after_request s)" "bal (after_request s) r" "pend_ok (after_request s)" "sub_of (after_request s) = sub"
    using assms(1) by (auto simp: cmd_inv_def inv_defs after_request_def)
  then show ?thesis
    using check_cmd_queue_none[of "after_request s" r e] assms(2) that
    by (auto simp: hal_request_control_def after_request_def)
qed

lemma reset_all_flags: "nc_flags (nfc_reset_all_conn_cbs c) = nc_flags c"
proof -
  have "nc_flags (reset_conn_cb i c) = nc_flags c" for i c
    by (simp add: reset_conn_cb_def nfc_free_conn_cb_def upd_cb_def nc_event_def Let_def)
  then have "nc_flags (fold reset_conn_cb is c) = nc_flags c" for "is" by (induction "is" arbitrary: c) simp_all
  then show ?thesis by (simp add: nfc_reset_all_conn_cbs_def)
qed

lemma nci_fl_reset: "nci_fl f (s \<lparr> nci_base := nfc_reset_all_conn_cbs (nci_base s) \<rparr>) = nci_fl f s"
  by (simp add: nci_fl_def reset_all_flags)

lemma cleanup_inv: "cmd_inv (nfc_gen_cleanup s) (nci_out s) (length (nci_out s))"
  by (auto simp: nfc_gen_cleanup_def nfc_main_flush_cmd_queue_def cmd_inv_def inv_defs nci_fl_reset Let_def)

lemma flags_masked:
  assumes "nc_flags (nci_base s) AND 0xF0 = 0" "f AND 0xF0 = f"
  shows "\<not> nci_fl f s"
proof -
  have "nc_flags (nci_base s) AND f = (nc_flags (nci_base s) AND 0xF0) AND f"
    using assms(2) by (metis and.assoc and.commute)
  then show ?thesis using assms(1) by (simp add: nci_fl_def)
qed

lemma cmd_reach_inv: "cmd_reach s sub r \<Longrightarrow> cmd_inv s sub r"
proof (induction rule: cmd_reach.induct)
  case (init s)
  then have "nci_fl NFC_FL_CONTROL_GRANTED s = False" "nci_fl NFC_FL_DISCOVER_PENDING s = False"
    using flags_masked[of s] by simp_all
  then show ?case using init by (simp add: cmd_inv_def inv_defs)
next
  case (request s sub r e q st s')
  then show ?case using nci_call_inv[of s sub r e q] by (metis option.inject prod.inject)
next
  case (discovery s sub r e num bs st s')
  then show ?case using discovery_inv[of s sub r e num bs] by (metis option.inject prod.inject)
next
  case (response s sub r e s')
  then show ?case using response_inv[of s sub r e] by (metis option.inject)
next
  case (pre_discover s sub r e s')
  then show ?case using pre_discover_inv[of s sub r e] by (metis option.inject)
next
  case (request_control s sub r e s')
  then show ?case using request_control_inv[of s sub r e] by (metis option.inject)
next
  case (release_control s sub r e s')
  then show ?case using release_inv[of s sub r e] by (metis option.inject)
next
  case (cleanup s sub r)
  show ?case by (rule cleanup_inv)
next
  case (data_path s sub r b)
  then show ?case by (intro cmd_inv_base)
qed

section \<open>Properties\<close>


text \<open>A run with two commands, the second waiting for the response to the first.\<close>

definition nci_init :: nci_cb where
  "nci_init = \<lparr> nci_base = \<lparr> nc_conn_cb = [], nc_conn_id = replicate 15 0, nc_max_conn = 1, nc_state = NFC_STATE_IDLE,
     nc_flags = 0, nc_reassembly = True, nc_version = 0x20, nc_out = [], nc_events = [] \<rparr>,
     nci_window = 1, nci_xmit_q = [], nci_last_hdr = [0, 0], nci_last_cmd = [0, 0], nci_last_nfcee_cmd = [0, 0],
     nci_vsc_cback = replicate 8 0, nci_raw_vs = False, nci_disc_pending = None, nci_rsp_timer = False, nci_out = [] \<rparr>"

definition env_plain :: nci_env where
  "env_plain = \<lparr> env_getbuf = Some (replicate 652 0), env_disc_buf = True, env_prediscover = False \<rparr>"

lemma nci_init_reach: "cmd_reach nci_init [] 0"
  by (rule cmd_reach.init) (simp_all add: nci_init_def)

lemma env_plain_ok: "env_ok env_plain" "env_getbuf env_plain \<noteq> None"
  by (simp_all add: env_ok_def env_plain_def)

lemma request_reach:
  assumes "cmd_reach s sub r" "req_ok (nc_version (nci_base s)) q"
  shows "\<exists>s'. nci_call env_plain q s = Some (NCI_STATUS_OK, s') \<and>
    cmd_reach s' (sub @ [req_packet (nc_version (nci_base s)) q]) r"
proof -
  obtain s' where "nci_call env_plain q s = Some (NCI_STATUS_OK, s')"
    using nci_call_ok[OF cmd_reach_inv[OF assms(1)] env_plain_ok assms(2)] by blast
  then show ?thesis using cmd_reach.request[OF assms(1) env_plain_ok(1) assms(2)] by fastforce
qed

lemma two_calls:
  "nci_out (snd (the (nci_call env_plain (Core_reset 1) nci_init))) = [[0x20, 0, 1, 1]]"
  "nci_out (snd (the (nci_call env_plain (Conn_close 3) (snd (the (nci_call env_plain (Core_reset 1) nci_init)))))) = [[0x20, 0, 1, 1]]"
  unfolding nci_init_def env_plain_def by code_simp+

lemma two_requests:
  "\<exists>s. cmd_reach s [[0x20, 0, 1, 1]] 0 \<and> nci_out s = [[0x20, 0, 1, 1]]"
  "\<exists>s. cmd_reach s [[0x20, 0, 1, 1], [0x20, 5, 1, 3]] 0 \<and> nci_out s = [[0x20, 0, 1, 1]]"
proof -
  obtain s where s: "nci_call env_plain (Core_reset 1) nci_init = Some (NCI_STATUS_OK, s)" "cmd_reach s [[0x20, 0, 1, 1]] 0"
    using request_reach[OF nci_init_reach, of "Core_reset 1"] by (auto simp: req_ok_def req_packet_def nci_packet_def)
  then show "\<exists>s. cmd_reach s [[0x20, 0, 1, 1]] 0 \<and> nci_out s = [[0x20, 0, 1, 1]]"
    using two_calls(1) by auto
  obtain t where "nci_call env_plain (Conn_close 3) s = Some (NCI_STATUS_OK, t)" "cmd_reach t [[0x20, 0, 1, 1], [0x20, 5, 1, 3]] 0"
    using request_reach[OF s(2), of "Conn_close 3"] by (auto simp: req_ok_def req_packet_def nci_packet_def)
  then show "\<exists>s. cmd_reach s [[0x20, 0, 1, 1], [0x20, 5, 1, 3]] 0 \<and> nci_out s = [[0x20, 0, 1, 1]]"
    using two_calls(2) s(1) by auto
qed


lemma pend_wf: "pend_ok s \<Longrightarrow> nci_fl NFC_FL_DISCOVER_PENDING s \<Longrightarrow> nci_cmd_pkt (nci_packet 1 3 (the (nci_disc_pending s)))"
  by (auto simp: pend_ok_def intro!: nci_packet_wf)

lemma issued_wf: "pend_ok s \<Longrightarrow> p \<in> set (issued e s) \<Longrightarrow> nci_cmd_pkt p"
  by (auto simp: issued_def pend_wf split: if_splits)

lemma pend_ok_after: "pend_ok s \<Longrightarrow> pend_ok (after_rsp s)" "pend_ok s \<Longrightarrow> pend_ok (after_request s)"
  "pend_ok s \<Longrightarrow> pend_ok (after_grant s)"
  "unat num \<le> 127 \<Longrightarrow> length bs = 2 * unat num \<Longrightarrow> pend_ok (after_start num bs s)"
  by (simp_all add: pend_ok_def after_rsp_def after_request_def after_grant_def after_start_def)

lemma submitted_wf: "cmd_reach s sub r \<Longrightarrow> p \<in> set sub \<Longrightarrow> nci_cmd_pkt p"
proof (induction arbitrary: p rule: cmd_reach.induct)
  case (request s sub r e q st s')
  then show ?case using req_packet_wf by (auto split: if_splits)
next
  case (cleanup s sub r)
  then show ?case using cmd_reach_inv[OF cleanup(1)] by (auto simp: cmd_inv_def sub_of_def)
next
  case (pre_discover s sub r e s')
  then have "pend_ok s" using cmd_reach_inv[OF pre_discover(1)] by (simp add: cmd_inv_def)
  then show ?case
    using pre_discover.prems pre_discover.IH pend_wf[of s] issued_wf[OF pend_ok_after(3), of s]
    by (auto simp: cplt_sent_def split: if_splits)
next
  case (response s sub r e s')
  then show ?case using cmd_reach_inv[OF response(1)] issued_wf[OF pend_ok_after(1), of s] by (auto simp: cmd_inv_def)
next
  case (request_control s sub r e s')
  then show ?case using cmd_reach_inv[OF request_control(1)] issued_wf[OF pend_ok_after(2), of s] by (auto simp: cmd_inv_def)
next
  case (release_control s sub r e s')
  then show ?case
    using cmd_reach_inv[OF release_control(1)] issued_wf[OF pend_ok_after(3), of s] by (auto simp: cmd_inv_def split: if_splits)
next
  case (discovery s sub r e num bs st s')
  then show ?case using issued_wf[OF pend_ok_after(4), of num bs] by (auto split: if_splits)
qed auto



text \<open>C9. A request whose parameters fit is accepted whenever a command buffer is available: the call returns
  success and the packet that the request stands for, and nothing else, is appended to the commands
  submitted. Each of the builders of \<^verbatim>\<open>nci_hmsgs.cc\<close> and the vendor commands are requests.\<close>

theorem nci_request_sent:
  assumes "cmd_reach s sub r" "env_ok e" "env_getbuf e \<noteq> None" "req_ok (nc_version (nci_base s)) q"
  shows "\<exists>s'. nci_call e q s = Some (NCI_STATUS_OK, s') \<and>
    nci_out s' @ map pkt_of (nci_xmit_q s') = sub @ [req_packet (nc_version (nci_base s)) q]"
  using nci_call_ok[OF cmd_reach_inv[OF assms(1)] assms(2-4)] by (auto simp: cmd_inv_def sub_of_def)

theorem nci_request_sent_witness:
  "\<exists>s'. nci_call env_plain (Set_config [(0x50, [1, 2])]) nci_init = Some (NCI_STATUS_OK, s') \<and>
     nci_out s' @ map pkt_of (nci_xmit_q s') = [[0x20, 2, 5, 1, 0x50, 2, 1, 2]]"
  using nci_request_sent[OF nci_init_reach env_plain_ok, of "Set_config [(0x50, [1, 2])]"]
  by (simp add: req_ok_def req_packet_def nci_packet_def)

section \<open>The queue drains\<close>

primrec responses :: "nat \<Rightarrow> nci_env \<Rightarrow> nci_cb \<Rightarrow> nci_cb option" where
  "responses 0 e s = Some s"
| "responses (Suc n) e s = do { s \<leftarrow> nfc_ncif_update_window e s; responses n e s }"

lemma response_sends:
  assumes "cmd_inv s sub r" "r < length (nci_out s)" "nci_xmit_q s = b # q"
  obtains s' where "nfc_ncif_update_window e s = Some s'" "cmd_inv s' sub (Suc r)" "Suc r < length (nci_out s')"
    "nci_xmit_q s' = q"
proof -
  note w = outstanding[OF assms(1,2)]
  have u: "q_ok (after_rsp s)" "bal (after_rsp s) (Suc r)" "pend_ok (after_rsp s)" "sub_of (after_rsp s) = sub"
    using assms(1,2) w by (auto simp: cmd_inv_def inv_defs after_rsp_def)
  obtain s' where s': "nci_push None (after_rsp s) = Some s'" "same_ctl (after_rsp s) s'"
      "cmd_inv s' (sub_of (after_rsp s) @ []) (Suc r)" "nci_window s' \<noteq> 1"
    using push_bal[OF u(1,2), of None] u(3) assms(3) by (auto simp: after_rsp_def)
  have q: "nci_xmit_q s' = q"
    using nci_push_spec[OF u(1), of None] s'(1) assms(3) w by (fastforce simp: after_rsp_def)
  have g: "\<not> granted s'" using same_ctl_fl[OF s'(2)] w by (simp add: after_rsp_def)
  have "nci_window s' = 0" using s'(3,4) window_cases by (auto simp: cmd_inv_def q_ok_def)
  then have "Suc r < length (nci_out s')" using s'(3) g by (simp add: cmd_inv_def bal_def)
  moreover have "nfc_ncif_update_window e s = Some s'"
    using s'(1,4) w by (simp add: nfc_ncif_update_window_def after_rsp_def check_cmd_queue_def numeral_2_eq_2)
  ultimately show ?thesis using that s'(3) u(4) q by simp
qed

text \<open>C8. The queue of commands drains: when a command waits for its response, as many responses as there
  are commands in the queue hand all of them to the controller in order, whatever else the transport and the
  discovery have asked for in the meantime; the window is given away only when the queue is empty.\<close>

theorem nci_queue_drains:
  assumes "cmd_reach s sub r" "r < length (nci_out s)"
  shows "\<exists>s'. responses (length (nci_xmit_q s)) e s = Some s' \<and> nci_out s' = sub \<and> nci_xmit_q s' = []"
proof -
  have "cmd_inv s sub r" by (rule cmd_reach_inv[OF assms(1)])
  then show ?thesis using assms(2)
  proof (induction "nci_xmit_q s" arbitrary: s r)
    case Nil
    then show ?case by (auto simp: cmd_inv_def sub_of_def)
  next
    case (Cons b q)
    obtain s' where "nfc_ncif_update_window e s = Some s'" "cmd_inv s' sub (Suc r)" "Suc r < length (nci_out s')"
        "nci_xmit_q s' = q"
      using response_sends[OF Cons.prems, of b q e] Cons.hyps(2) by auto
    then show ?case using Cons.hyps(1)[of s' "Suc r"] Cons.hyps(2)[symmetric] by simp
  qed
qed

theorem nci_queue_drains_witness:
  "\<exists>s s'. cmd_reach s [[0x20, 0, 1, 1], [0x20, 5, 1, 3]] 0 \<and>
     responses (length (nci_xmit_q s)) env_plain s = Some s' \<and> nci_out s' = [[0x20, 0, 1, 1], [0x20, 5, 1, 3]]"
proof -
  obtain s where s: "cmd_reach s [[0x20, 0, 1, 1], [0x20, 5, 1, 3]] 0" "nci_out s = [[0x20, 0, 1, 1]]"
    using two_requests(2) by blast
  then show ?thesis using nci_queue_drains[OF s(1), of env_plain] by auto
qed

section \<open>Corner cases\<close>

text \<open>When no buffer is left for the parameters of a discovery, its start reports the failure but leaves
  the flag of a pending discovery set: the next check of the queue reads the parameters through a null
  pointer.\<close>

theorem discovery_without_buffer:
  assumes "cmd_reach s sub r" "nci_disc_pending s = None" "nci_window s = 1" "\<not> env_disc_buf e"
    "\<not> env_prediscover e'"
  shows "\<exists>s'. NFC_DiscoveryStart e num bs s = Some (NFC_STATUS_NO_BUFFERS, s') \<and> check_cmd_queue e' None s' = None"
proof -
  let ?s = "nci_set_fl NFC_FL_CONTROL_REQUESTED (nci_set_fl NFC_FL_DISCOVER_PENDING s)"
  have "nci_xmit_q s = []" using cmd_reach_inv[OF assms(1)] assms(3) by (simp add: cmd_inv_def)
  then have "nci_push None ?s = Some ?s" using assms(3) by (simp add: nci_push_def)
  then have "nfc_ncif_check_cmd_queue (Suc 1) e' None ?s = None"
    using assms(2,3,5) by (simp add: Let_def)
  then have "check_cmd_queue e' None ?s = None" by (simp only: check_cmd_queue_def Suc_1)
  then show ?thesis using assms(2,4) by (simp add: NFC_DiscoveryStart_def)
qed

text \<open>When no command buffer is left at the end of the pre-discovery phase, the window is open again
  but the commands queued in the meantime are not sent.\<close>

theorem pre_discover_stalls:
  assumes "cmd_reach s sub r" "granted s" "nci_fl NFC_FL_DISCOVER_PENDING s" "env_getbuf e = None" "nci_xmit_q s \<noteq> []"
  shows "\<exists>s'. hal_pre_discover_cplt e s = Some s' \<and> nci_window s' = 1 \<and> nci_xmit_q s' = nci_xmit_q s \<and> nci_out s' = nci_out s"
proof -
  obtain num bs where "nci_disc_pending s = Some (num # bs)"
    using cmd_reach_inv[OF assms(1)] assms(3) by (auto simp: cmd_inv_def pend_ok_def)
  then show ?thesis using assms(2-5)
    by (simp add: hal_pre_discover_cplt_def nci_snd_discover_cmd_def rd8_in)
qed

text \<open>A vendor command may have up to 258 bytes, but its length byte holds only 255.\<close>

theorem vendor_length_wraps:
  "map_option (\<lambda>(st, s). (st, map (take 3) (nci_out s), map length (nci_out s)))
     (NFC_SendVsCommand env_plain 1
        (Some \<lparr> h_event = 0, h_len = 0x100, h_offset = 12, h_layer = 0, h_data = replicate 652 0 \<rparr>) (replicate 8 0) nci_init) =
   Some (NCI_STATUS_OK, [[0x2F, 1, 0]], [0x103])"
  unfolding nci_init_def env_plain_def by code_simp

text \<open>255 bytes of parameters make the length byte of a configuration command wrap to zero.\<close>

theorem set_config_length_wraps:
  "map_option (\<lambda>(st, s). (st, map (take 3) (nci_out s), map length (nci_out s)))
     (nci_snd_core_set_config env_plain (0x50 # 253 # replicate 253 0) 255 nci_init) =
   Some (NCI_STATUS_OK, [[0x20, 2, 0]], [259])"
  unfolding nci_init_def env_plain_def by code_simp

text \<open>A raw vendor command may start within the eight bytes where the callback is stored: its first bytes
  are those of the pointer.\<close>

theorem raw_vendor_overwritten:
  "map_option (\<lambda>(st, s). (st, nci_out s))
     (NFC_SendRawVsCommand env_plain
        (Some \<lparr> h_event = 0, h_len = 4, h_offset = 1, h_layer = 0, h_data = [0, 0x2F, 1, 1, 7, 0, 0, 0, 0, 0, 0, 0] \<rparr>)
        [11, 12, 13, 14, 15, 16, 17, 18] nci_init) =
   Some (NCI_STATUS_OK, [[12, 13, 14, 15]])"
  unfolding nci_init_def env_plain_def by code_simp

end
