(* ===== verification/NciParse.thy ===== *)
theory NciParse
  imports NciRequests
begin

text \<open>
  The parsers of \<^verbatim>\<open>nfc/nfc_ncif.cc\<close> for what the controller reports of a remote device: the technology
  parameters of discovery and activation notifications and the interface parameters of an activation.
  \<open>m\<close> is the buffer with the message and \<open>p\<close> the offset of the next byte; remaining lengths, which the code
  keeps in \<^verbatim>\<open>uint8_t\<close> and decreases only after a comparison, are natural numbers. Copying into an array of
  the event is \<open>rd_arr\<close>, with the size of the array: both ends of the copy are checked.
\<close>

definition rd_arr :: "nat \<Rightarrow> mem \<Rightarrow> nat \<Rightarrow> nat \<Rightarrow> mem option" where
  "rd_arr cap m p n = (if n \<le> cap then rd_bytes m p n else None)"

section \<open>Technology parameters\<close>

record pa_params =
  pa_sens_res :: mem
  pa_nfcid1_len :: nat
  pa_nfcid1 :: mem
  pa_sel_rsp :: u8
  pa_hr_len :: u8
  pa_hr :: mem

record pb_params =
  pb_sensb_res_len :: nat
  pb_sensb_res :: mem
  pb_nfcid0 :: mem
  pb_fwi :: u8

record pf_params =
  pf_bit_rate :: u8
  pf_sensf_res_len :: nat
  pf_sensf_res :: mem
  pf_nfcid2 :: mem
  pf_mrti_check :: u8
  pf_mrti_update :: u8

record pi93_params =
  pi_flag :: u8
  pi_dsfid :: u8
  pi_uid :: mem

text \<open>The parameters are a union. \<open>RF_OVERLAY\<close> is the union after the last fields of technology A (from the
  length of the header ROM on) have been written over other parameters.\<close>

datatype rf_params = RF_PA pa_params | RF_PB pb_params | RF_PF pf_params | RF_LF mem | RF_I93 pi93_params
  | RF_PK mem | RF_NONE | RF_OVERLAY rf_params mem

definition pa_zero :: pa_params where
  "pa_zero = \<lparr> pa_sens_res = [0, 0], pa_nfcid1_len = 0, pa_nfcid1 = [], pa_sel_rsp = 0, pa_hr_len = 0, pa_hr = [0, 0] \<rparr>"

definition pb_zero :: pb_params where
  "pb_zero = \<lparr> pb_sensb_res_len = 0, pb_sensb_res = [], pb_nfcid0 = [0, 0, 0, 0], pb_fwi = 0 \<rparr>"

definition pf_zero :: pf_params where
  "pf_zero = \<lparr> pf_bit_rate = 0, pf_sensf_res_len = 0, pf_sensf_res = [], pf_nfcid2 = replicate 8 0, pf_mrti_check = 0,
     pf_mrti_update = 0 \<rparr>"

text \<open>An array of \<open>n\<close> bytes that was zeroed before \<open>bs\<close> was copied to its beginning.\<close>

definition zpad :: "nat \<Rightarrow> mem \<Rightarrow> mem" where
  "zpad n bs = bs @ replicate (n - length bs) 0"

text \<open>The three tails of the parameters of technology A: the select response, then the header ROM of a
  Type 1 Tag when the length says that it is there.\<close>

definition decode_pa_hr :: "mem \<Rightarrow> nat \<Rightarrow> nat \<Rightarrow> u8 \<Rightarrow> pa_params \<Rightarrow> pa_params option" where
  "decode_pa_hr m p len u pa =
    (if len = 7 + pa_nfcid1_len pa + unat u then do {
       h \<leftarrow> rd8 m p;
       let pa = pa \<lparr> pa_hr_len := h \<rparr>;
       if h = 2 then do { hr \<leftarrow> rd_arr 2 m (p + 1) 2; Some (pa \<lparr> pa_hr := hr \<rparr>) } else Some pa }
     else Some pa)"

definition decode_pa :: "mem \<Rightarrow> nat \<Rightarrow> nat \<Rightarrow> pa_params option" where
  "decode_pa m p len =
    (if len < 3 then Some pa_zero
     else do {
       sens \<leftarrow> rd_arr 2 m p 2;
       n \<leftarrow> rd8 m (p + 2);
       let n = min (unat n) 10;
       let pa = pa_zero \<lparr> pa_sens_res := sens, pa_nfcid1_len := n \<rparr>;
       let plen = len - 3;
       if plen < n + 1 then Some pa
       else do {
         nfcid1 \<leftarrow> rd_arr 10 m (p + 3) n;
         u \<leftarrow> rd8 m (p + 3 + n);
         let pa = pa \<lparr> pa_nfcid1 := nfcid1 \<rparr>;
         let plen = plen - (n + 1);
         if u \<noteq> 0 then
           if plen < 1 then Some pa
           else do {
             sel \<leftarrow> rd8 m (p + 4 + n);
             decode_pa_hr m (p + 5 + n) len u (pa \<lparr> pa_sel_rsp := sel \<rparr>) }
         else decode_pa_hr m (p + 4 + n) len u pa } })"

definition decode_pb :: "mem \<Rightarrow> nat \<Rightarrow> nat \<Rightarrow> pb_params option" where
  "decode_pb m p len =
    (if len < 1 then Some pb_zero
     else do {
       n \<leftarrow> rd8 m p;
       let n = min (unat n) 12;
       let pb = pb_zero \<lparr> pb_sensb_res_len := n \<rparr>;
       if len - 1 < n then Some pb
       else do {
         res \<leftarrow> rd_arr 12 m (p + 1) n;
         Some (pb \<lparr> pb_sensb_res := res, pb_nfcid0 := take 4 (zpad 12 res), pb_fwi := drop_bit 4 (zpad 12 res ! 10) \<rparr>) } })"

definition decode_pf :: "mem \<Rightarrow> nat \<Rightarrow> nat \<Rightarrow> pf_params option" where
  "decode_pf m p len =
    (if len < 2 then Some pf_zero
     else do {
       br \<leftarrow> rd8 m p;
       n \<leftarrow> rd8 m (p + 1);
       let n = min (unat n) 18;
       let pf = pf_zero \<lparr> pf_bit_rate := br, pf_sensf_res_len := n \<rparr>;
       if len - 2 < n then Some pf
       else do {
         res \<leftarrow> rd_arr 18 m (p + 2) n;
         let pf = pf \<lparr> pf_sensf_res := res \<rparr>;
         if n < 15 then Some pf
         else Some (pf \<lparr> pf_nfcid2 := take 8 (zpad 18 res), pf_mrti_check := zpad 18 res ! 13,
                         pf_mrti_update := zpad 18 res ! 14 \<rparr>) } })"

definition decode_lf :: "mem \<Rightarrow> nat \<Rightarrow> nat \<Rightarrow> mem option" where
  "decode_lf m p len =
    (if len < 1 then Some (replicate 8 0)
     else do {
       u \<leftarrow> rd8 m p;
       if u \<noteq> 0 then if len - 1 < 8 then Some (replicate 8 0) else rd_arr 8 m (p + 1) 8
       else Some (replicate 8 0) })"

definition decode_i93 :: "mem \<Rightarrow> nat \<Rightarrow> nat \<Rightarrow> pi93_params option" where
  "decode_i93 m p len =
    (if len < 2 then Some \<lparr> pi_flag = 0, pi_dsfid = 0, pi_uid = replicate 8 0 \<rparr>
     else do {
       f \<leftarrow> rd8 m p;
       d \<leftarrow> rd8 m (p + 1);
       let pi93 = \<lparr> pi_flag = f, pi_dsfid = d, pi_uid = replicate 8 0 \<rparr>;
       if len - 2 < 8 then Some pi93
       else do { uid \<leftarrow> rd_arr 8 m (p + 2) 8; Some (pi93 \<lparr> pi_uid := uid \<rparr>) } })"

text \<open>The length byte at \<open>p\<close> and the parameters behind it; \<open>kovio\<close> is the proprietary code of the Kovio
  technology. The result is the parameters and the offset behind them.\<close>

definition nfc_ncif_decode_rf_params :: "u8 \<Rightarrow> u8 \<Rightarrow> mem \<Rightarrow> nat \<Rightarrow> (rf_params \<times> nat) option" where
  "nfc_ncif_decode_rf_params kovio mode m p = do {
     len \<leftarrow> rd8 m p;
     let len = unat len;
     let p = p + 1;
     ps \<leftarrow> (if mode = 0x00 then map_option RF_PA (decode_pa m p len)
            else if mode = 0x01 then map_option RF_PB (decode_pb m p len)
            else if mode = 0x02 then map_option RF_PF (decode_pf m p len)
            else if mode = 0x82 then map_option RF_LF (decode_lf m p len)
            else if mode = 0x06 then map_option RF_I93 (decode_i93 m p len)
            else if mode = kovio then map_option RF_PK (rd_arr 32 m p (min len 32))
            else Some RF_NONE);
     Some (ps, p + len) }"

section \<open>Interface parameters\<close>

record pa_iso =
  pi_ats_res_len :: nat
  pi_ats_res :: mem
  pi_nad_used :: bool
  pi_fwi :: u8
  pi_sfgi :: u8
  pi_his_byte :: mem

record attr_iso =
  ai_len :: nat
  ai_attrib :: mem
  ai_hi_info :: mem
  ai_mbli :: u8
  ai_nfcid0 :: mem

datatype intf_params = INTF_FRAME mem | INTF_PA_ISO pa_iso | INTF_LA_ISO u8 | INTF_PB_ISO attr_iso | INTF_LB_ISO attr_iso

definition pa_iso_zero :: pa_iso where
  "pa_iso_zero = \<lparr> pi_ats_res_len = 0, pi_ats_res = [], pi_nad_used = False, pi_fwi = 0, pi_sfgi = 0, pi_his_byte = [] \<rparr>"

text \<open>The bytes TA, TB and TC of the answer to select, each present when its bit is set in T0. \<open>Inl\<close> is
  the exit to the failure report; \<open>i\<close> is the index into the answer and \<open>pplen\<close> what is left of it.\<close>

definition ats_ta :: "u8 \<Rightarrow> nat \<times> nat \<Rightarrow> unit + nat \<times> nat" where
  "ats_ta t0 ip = (case ip of (i, pplen) \<Rightarrow>
     if t0 AND 0x10 \<noteq> 0 then if pplen < 1 then Inl () else Inr (i + 1, pplen - 1) else Inr (i, pplen))"

definition ats_byte :: "u8 \<Rightarrow> u8 \<Rightarrow> mem \<Rightarrow> nat \<times> nat \<Rightarrow> (unit + u8 option \<times> nat \<times> nat) option" where
  "ats_byte bit_mask t0 ats ip = (case ip of (i, pplen) \<Rightarrow>
     if t0 AND bit_mask \<noteq> 0 then
       if pplen < 1 then Some (Inl ()) else do { b \<leftarrow> rd8 ats i; Some (Inr (Some b, i + 1, pplen - 1)) }
     else Some (Inr (None, i, pplen)))"

text \<open>The parse of an answer to select that has been copied into the 64 bytes of \<open>ats_res\<close>.\<close>

definition activate_ats :: "mem \<Rightarrow> pa_iso \<Rightarrow> (bool \<times> pa_iso) option" where
  "activate_ats ats pa = do {
     t0 \<leftarrow> rd8 ats 0;
     let n = pi_ats_res_len pa;
     case ats_ta t0 (1, n - 1) of
       Inl _ \<Rightarrow> Some (False, pa)
     | Inr ip \<Rightarrow> do {
         r \<leftarrow> ats_byte 0x20 t0 ats ip;
         case r of
           Inl _ \<Rightarrow> Some (False, pa)
         | Inr (tb, ip) \<Rightarrow> do {
             let pa = (case tb of None \<Rightarrow> pa | Some b \<Rightarrow> pa \<lparr> pi_fwi := drop_bit 4 b AND 0x0F, pi_sfgi := b AND 0x0F \<rparr>);
             r \<leftarrow> ats_byte 0x40 t0 ats ip;
             case r of
               Inl _ \<Rightarrow> Some (False, pa)
             | Inr (tc, i, pplen) \<Rightarrow> do {
                 let pa = (case tc of None \<Rightarrow> pa | Some b \<Rightarrow> pa \<lparr> pi_nad_used := (b AND 0x01 \<noteq> 0) \<rparr>);
                 let his = min (n - i) 50;
                 if pplen < his then Some (False, pa)
                 else do {
                   bs \<leftarrow> rd_arr 50 ats i his;
                   Some (True, pa \<lparr> pi_his_byte := bs \<rparr>) } } } } }"

definition activate_pa_iso :: "mem \<Rightarrow> nat \<Rightarrow> nat \<Rightarrow> intf_params \<Rightarrow> (bool \<times> intf_params) option" where
  "activate_pa_iso m p plen fr =
    (if plen < 1 then Some (False, fr)
     else do {
       n \<leftarrow> rd8 m p;
       if n = 0 then Some (True, INTF_PA_ISO pa_iso_zero)
       else do {
         let n = min (unat n) 64;
         let pa = pa_iso_zero \<lparr> pi_ats_res_len := n \<rparr>;
         if plen - 1 < n then Some (False, INTF_PA_ISO pa)
         else do {
           ats \<leftarrow> rd_arr 64 m (p + 1) n;
           (ok, pa) \<leftarrow> activate_ats (zpad 64 ats) (pa \<lparr> pi_ats_res := ats \<rparr>);
           Some (ok, INTF_PA_ISO pa) } } })"

text \<open>The response to an attribute request has one fixed byte in front of the higher-layer
  information, the request itself eight.\<close>

definition attr_hi_info :: "nat \<Rightarrow> mem \<Rightarrow> mem option" where
  "attr_hi_info fixed at =
    (if fixed < length at then rd_arr 48 at fixed (min (length at - fixed) 48) else Some [])"

definition activate_attrib :: "bool \<Rightarrow> mem \<Rightarrow> nat \<Rightarrow> nat \<Rightarrow> intf_params \<Rightarrow> (bool \<times> intf_params) option" where
  "activate_attrib poll m p plen fr =
    (let mk = (if poll then INTF_PB_ISO else INTF_LB_ISO);
         zero = \<lparr> ai_len = 0, ai_attrib = [], ai_hi_info = [], ai_mbli = 0, ai_nfcid0 = [0, 0, 0, 0] \<rparr> in
     if plen < 1 then Some (False, fr)
     else do {
       n \<leftarrow> rd8 m p;
       if n = 0 then Some (True, mk zero)
       else do {
         let n = min (unat n) 58;
         let a = zero \<lparr> ai_len := n \<rparr>;
         if plen - 1 < n then Some (False, mk a)
         else do {
           at \<leftarrow> rd_arr 58 m (p + 1) n;
           let a = a \<lparr> ai_attrib := at \<rparr>;
           if poll then do {
             hi \<leftarrow> attr_hi_info 1 at;
             Some (True, mk (a \<lparr> ai_mbli := drop_bit 4 (at ! 0), ai_hi_info := hi \<rparr>)) }
           else if n < 4 then Some (False, mk a)
           else do {
             hi \<leftarrow> attr_hi_info 8 at;
             Some (True, mk (a \<lparr> ai_nfcid0 := take 4 at, ai_hi_info := hi \<rparr>)) } } } })"

definition activate_la_iso :: "mem \<Rightarrow> nat \<Rightarrow> nat \<Rightarrow> intf_params \<Rightarrow> (bool \<times> intf_params) option" where
  "activate_la_iso m p plen fr =
    (if plen < 1 then Some (False, fr) else do { b \<leftarrow> rd8 m p; Some (True, INTF_LA_ISO b) })"

definition activate_iso :: "u8 \<Rightarrow> mem \<Rightarrow> nat \<Rightarrow> nat \<Rightarrow> intf_params \<Rightarrow> (bool \<times> intf_params) option" where
  "activate_iso mode m p plen fr =
    (if mode = 0x00 then activate_pa_iso m p plen fr
     else if mode = 0x80 then activate_la_iso m p plen fr
     else if mode = 0x01 then activate_attrib True m p plen fr
     else if mode = 0x81 then activate_attrib False m p plen fr
     else Some (True, fr))"

section \<open>Activation\<close>

record act_evt =
  ac_rf_disc_id :: u8
  ac_protocol :: u8
  ac_mode :: u8
  ac_params :: rf_params
  ac_data_mode :: u8
  ac_tx_bitrate :: u8
  ac_rx_bitrate :: u8
  ac_type :: u8
  ac_intf :: intf_params

definition act_zero :: act_evt where
  "act_zero = \<lparr> ac_rf_disc_id = 0, ac_protocol = 0, ac_mode = 0, ac_params = RF_NONE, ac_data_mode = 0, ac_tx_bitrate = 0,
     ac_rx_bitrate = 0, ac_type = 0, ac_intf = INTF_FRAME [] \<rparr>"

text \<open>The event is a union whose status is the same byte as \<open>rf_disc_id\<close> of an activation.\<close>

definition act_failed :: "act_evt \<Rightarrow> act_evt" where
  "act_failed a = a \<lparr> ac_rf_disc_id := NCI_STATUS_FAILED \<rparr>"

text \<open>The header ROM of a Type 1 Tag behind the activation parameters.\<close>

definition union_hr_len :: "rf_params \<Rightarrow> u8" where
  "union_hr_len ps =
    (case ps of RF_PA pa \<Rightarrow> pa_hr_len pa | RF_PB pb \<Rightarrow> pb_nfcid0 pb ! 1 | RF_PF pf \<Rightarrow> zpad 18 (pf_sensf_res pf) ! 12
     | RF_PK u \<Rightarrow> zpad 32 u ! 13 | _ \<Rightarrow> 0)"

definition union_set_hr :: "mem \<Rightarrow> rf_params \<Rightarrow> rf_params" where
  "union_set_hr hr ps = (case ps of RF_PA pa \<Rightarrow> RF_PA (pa \<lparr> pa_hr_len := 2, pa_hr := hr \<rparr>) | _ \<Rightarrow> RF_OVERLAY ps hr)"

definition activate_t1t :: "u8 \<Rightarrow> mem \<Rightarrow> nat \<Rightarrow> nat \<Rightarrow> rf_params \<Rightarrow> (bool \<times> rf_params) option" where
  "activate_t1t len_act m p plen ps =
    (if len_act = 2 \<and> union_hr_len ps = 0 then
       if plen < 2 then Some (False, union_set_hr [0, 0] ps)
       else do { hr \<leftarrow> rd_arr 2 m p 2; Some (True, union_set_hr hr ps) }
     else Some (True, ps))"

text \<open>The part of the parse behind the lengths and the technology parameters: the raw interface parameters
  and their meaning; with the buffer size the connection gets, or nothing when the packet is invalid.\<close>

definition activate_intf :: "u8 \<Rightarrow> mem \<Rightarrow> nat \<Rightarrow> nat \<Rightarrow> u8 \<Rightarrow> act_evt \<Rightarrow> (u8 option \<times> act_evt) option" where
  "activate_intf buff_size m p plen len_act a = do {
     let n = min (unat len_act) 16;
     if plen < n then Some (None, act_failed a)
     else do {
       fr \<leftarrow> rd_arr 16 m p n;
       let a = a \<lparr> ac_intf := INTF_FRAME fr \<rparr>;
       if ac_type a = 2 then do {
         let bsz = (if 253 < buff_size then 253 else buff_size);
         (ok, i) \<leftarrow> activate_iso (ac_mode a) m p plen (INTF_FRAME fr);
         let a = a \<lparr> ac_intf := i \<rparr>;
         Some (if ok then (Some bsz, a) else (None, act_failed a)) }
       else if ac_type a = 1 \<and> ac_protocol a = 1 then do {
         (ok, ps) \<leftarrow> activate_t1t len_act m p plen (ac_params a);
         let a = a \<lparr> ac_params := ps \<rparr>;
         Some (if ok then (Some buff_size, a) else (None, act_failed a)) }
       else Some (Some buff_size, a) } }"

text \<open>The whole notification: the event, and the buffer size and credits of the RF connection when it is
  valid. \<open>active18092\<close> is the proprietary code that stands for NFC-DEP.\<close>

definition parse_activate :: "u8 \<Rightarrow> u8 \<Rightarrow> mem \<Rightarrow> nat \<Rightarrow> u8 \<Rightarrow> ((u8 \<times> u8) option \<times> act_evt) option" where
  "parse_activate kovio active18092 m p len =
    (let plen = unat len in
     if plen < 7 then Some (None, act_failed act_zero)
     else do {
       rid \<leftarrow> rd8 m p;
       ty \<leftarrow> rd8 m (p + 1);
       prot \<leftarrow> rd8 m (p + 2);
       mode \<leftarrow> rd8 m (p + 3);
       buff_size \<leftarrow> rd8 m (p + 4);
       num_buff \<leftarrow> rd8 m (p + 5);
       let a = act_zero \<lparr> ac_rf_disc_id := rid, ac_type := ty, ac_protocol := (if prot = active18092 then 5 else prot), ac_mode := mode \<rparr>;
       tl_len \<leftarrow> rd8 m (p + 6);
       if plen - 7 < unat tl_len + 4 then Some (None, act_failed a)
       else do {
         let plen = plen - 7 - (unat tl_len + 4);
         (ps, q) \<leftarrow> nfc_ncif_decode_rf_params kovio mode m (p + 6);
         dm \<leftarrow> rd8 m q;
         tx \<leftarrow> rd8 m (q + 1);
         rx \<leftarrow> rd8 m (q + 2);
         len_act \<leftarrow> rd8 m (q + 3);
         (bsz, a) \<leftarrow> activate_intf buff_size m (q + 4) plen len_act
            (a \<lparr> ac_params := ps, ac_data_mode := dm, ac_tx_bitrate := tx, ac_rx_bitrate := rx \<rparr>);
         Some (map_option (\<lambda>b. (b, num_buff)) bsz, a) } })"

section \<open>Discovery results\<close>

record res_evt =
  re_status :: u8
  re_rf_disc_id :: u8
  re_protocol :: u8
  re_mode :: u8
  re_params :: rf_params
  re_more :: u8

definition parse_discover :: "u8 \<Rightarrow> mem \<Rightarrow> nat \<Rightarrow> nat \<Rightarrow> res_evt option" where
  "parse_discover kovio m p plen =
    (let failed = \<lparr> re_status = NCI_STATUS_FAILED, re_rf_disc_id = 0, re_protocol = 0, re_mode = 0, re_params = RF_NONE, re_more = 0 \<rparr> in
     if plen < 7 then Some failed
     else do {
       rid \<leftarrow> rd8 m (p + 3);
       prot \<leftarrow> rd8 m (p + 4);
       mode \<leftarrow> rd8 m (p + 5);
       l \<leftarrow> rd8 m (p + 6);
       if plen - 7 < unat l + 1 then Some (failed \<lparr> re_rf_disc_id := rid, re_protocol := prot, re_mode := mode \<rparr>)
       else do {
         (ps, q) \<leftarrow> nfc_ncif_decode_rf_params kovio mode m (p + 6);
         mo \<leftarrow> rd8 m q;
         Some \<lparr> re_status = NCI_STATUS_OK, re_rf_disc_id = rid, re_protocol = prot, re_mode = mode, re_params = ps, re_more = mo \<rparr> } })"

end
