(* ===== verification/NciRecv.thy ===== *)
theory NciRecv
  imports NciParse
begin

text \<open>
  What the stack does with a packet of the controller: \<open>nfc_ncif_process_event\<close> of \<^verbatim>\<open>nfc/nfc_ncif.cc\<close>, the
  handlers of the groups of messages in \<^verbatim>\<open>nci/nci_hrcv.cc\<close> and the functions they call, and the end of the
  initialisation in \<^verbatim>\<open>nfc/nfc_main.cc\<close>. Calls of the callbacks of the layer above are logged with their data; fields
  of an event that the code leaves unset are zero. \<open>None\<close> is an access outside a buffer, an array or a table.
\<close>

section \<open>State and events\<close>

datatype resp_code = GEN_ERROR_REVT | NFCC_TIMEOUT_REVT | SET_POWER_SUB_STATE_REVT | SET_ROUTING_REVT | GET_ROUTING_REVT
  | RF_COMM_PARAMS_UPDATE_REVT

datatype disc_code = START_DEVT | SELECT_DEVT | MAP_DEVT | INTF_EXT_START_DEVT | INTF_EXT_STOP_DEVT | DETECTION_START_DEVT
  | DETECTION_RESULT_DEVT | WPT_START_DEVT

record nfcee_info =
  ni_nfcee_id :: u8
  ni_ee_status :: u8
  ni_num_interface :: nat
  ni_interfaces :: mem
  ni_tlvs :: "(u8 \<times> mem) list"

record ee_action =
  ea_nfcee_id :: u8
  ea_trigger :: u8
  ea_aid :: mem
  ea_tech :: u8
  ea_data :: mem

datatype nci_evt =
    Resp_status resp_code u8
  | Disc_status disc_code u8
  | Set_config_revt u8 nat mem
  | Get_config_revt u8 u16 mem
  | Rf_field_revt u8
  | Nfcee_discover_revt u8 u8
  | Nfcee_info_revt nfcee_info
  | Mode_set_revt u8 u8 u8
  | Pl_control_revt u8 u8 u8
  | Nfcee_status_revt u8 u8 u8
  | Ee_action_revt u8 ee_action
  | Ee_discover_req_revt nat "(u8 \<times> u8 \<times> u8 \<times> u8) list"
  | Get_routing_revt u8 u8 mem
  | Enable_revt u8
  | Restart_revt u8
  | Result_devt res_evt
  | Activate_devt act_evt
  | Deactivate_devt u8 u8 bool u8
  | Wpt_result_devt u8
  | Vs_evt u8 mem
  | T3t_poll_rsp u8
  | T3t_poll_ntf u8 u8 mem
  | Isodep_nak u8 bool
  | Hal_open
  | Hal_close
  | Hal_power_cycle
  | Hal_core_initialized mem
  | Power_off_revt
  | Disable_revt
  | Transport_err_revt
  | Partial_enable
  | Delete_nv_store
  | Stop_timers

record nci_rx =
  rx_nci :: nci_cb
  rx_resp_cback :: bool
  rx_discv_cback :: bool
  rx_deact_reason :: u8
  rx_scbr :: bool
  rx_init_rsp :: "nfc_hdr option"
  rx_mode_timer :: bool
  rx_vs_cb :: "bool list"
  rx_ee_id :: u8
  rx_ee_mode :: u8
  rx_kovio :: u8
  rx_18092 :: u8
  rx_features :: u32
  rx_max_ce_table :: u16
  rx_ctrl_size :: u8
  rx_vs_interface :: mem
  rx_interfaces :: u16
  rx_extensions :: u8
  rx_extension_map :: mem
  rx_disc_maps :: "(u8 \<times> u8 \<times> u8) list"
  rx_hci_packet_size :: u8
  rx_hci_credits :: u8
  rx_max_v_size :: u16
  rx_log :: "nci_evt list"

abbreviation (input) "NFC_FL_RESTARTING \<equiv> 0x0002 :: u16"
abbreviation (input) "NFC_FL_POWER_OFF_SLEEP \<equiv> 0x0004 :: u16"
abbreviation (input) "NFC_FL_POWER_CYCLE_NFCC \<equiv> 0x0008 :: u16"
abbreviation (input) "NFC_FL_WAIT_MODE_SET_NTF \<equiv> 0x0100 :: u16"
abbreviation (input) "NFC_STATUS_HW_TIMEOUT \<equiv> 0xE4 :: u8"
abbreviation (input) "NFC_STATUS_SYNTAX_ERROR \<equiv> 5 :: u8"
abbreviation (input) "NCI_STATUS_MESSAGE_CORRUPTED \<equiv> 2 :: u8"
abbreviation (input) "NCI_VERSION_1_0 \<equiv> 0x10 :: u8"
abbreviation (input) "NCI_VERSION_UNKNOWN \<equiv> 0 :: u8"

definition rx_ev :: "nci_evt \<Rightarrow> nci_rx \<Rightarrow> nci_rx" where
  "rx_ev e s = s \<lparr> rx_log := rx_log s @ [e] \<rparr>"

definition resp_cb :: "nci_evt \<Rightarrow> nci_rx \<Rightarrow> nci_rx" where
  "resp_cb e s = (if rx_resp_cback s then rx_ev e s else s)"

definition discv_cb :: "nci_evt \<Rightarrow> nci_rx \<Rightarrow> nci_rx" where
  "discv_cb e s = (if rx_discv_cback s then rx_ev e s else s)"

definition rx_base :: "nci_rx \<Rightarrow> nfc_conns" where
  "rx_base s = nci_base (rx_nci s)"

definition upd_base :: "(nfc_conns \<Rightarrow> nfc_conns) \<Rightarrow> nci_rx \<Rightarrow> nci_rx" where
  "upd_base f s = s \<lparr> rx_nci := rx_nci s \<lparr> nci_base := f (rx_base s) \<rparr> \<rparr>"

definition rx_clr_fl :: "u16 \<Rightarrow> nci_rx \<Rightarrow> nci_rx" where
  "rx_clr_fl f s = s \<lparr> rx_nci := nci_clr_fl f (rx_nci s) \<rparr>"

definition nfc_set_state :: "nfc_state \<Rightarrow> nci_rx \<Rightarrow> nci_rx" where
  "nfc_set_state st = upd_base (\<lambda>b. b \<lparr> nc_state := st \<rparr>)"

text \<open>The order of the states in the enumeration.\<close>

fun before_idle :: "nfc_state \<Rightarrow> bool" where
  "before_idle st = (st \<in> {NFC_STATE_NONE, NFC_STATE_W4_HAL_OPEN, NFC_STATE_CORE_INIT, NFC_STATE_W4_POST_INIT_CPLT})"

section \<open>Reports\<close>

definition nfc_ncif_rf_management_status :: "disc_code \<Rightarrow> u8 \<Rightarrow> nci_rx \<Rightarrow> nci_rx" where
  "nfc_ncif_rf_management_status ev st = discv_cb (Disc_status ev st)"

definition nfc_ncif_event_status :: "resp_code \<Rightarrow> u8 \<Rightarrow> nci_rx \<Rightarrow> nci_rx" where
  "nfc_ncif_event_status ev st = resp_cb (Resp_status ev st)"

definition nfc_ncif_set_config_status :: "mem \<Rightarrow> nat \<Rightarrow> u8 \<Rightarrow> nci_rx \<Rightarrow> nci_rx option" where
  "nfc_ncif_set_config_status m p len s =
    (if rx_resp_cback s then
       if len = 0 then Some (resp_cb (Set_config_revt NFC_STATUS_SYNTAX_ERROR 0 []) s)
       else do {
         st \<leftarrow> rd8 m p;
         if st \<noteq> NCI_STATUS_OK \<and> 1 < len then do {
           n \<leftarrow> rd8 m (p + 1);
           if 125 < n then Some (resp_cb (Set_config_revt st 0 []) s)
           else if unat n \<le> unat len - 2 then do {
             ids \<leftarrow> rd_arr 125 m (p + 2) (unat n);
             Some (resp_cb (Set_config_revt st (unat n) ids) s) }
           else Some (resp_cb (Set_config_revt st 0 []) s) }
         else Some (resp_cb (Set_config_revt st 0 []) s) }
     else Some s)"

definition nfc_ncif_proc_rf_field_ntf :: "u8 \<Rightarrow> nci_rx \<Rightarrow> nci_rx" where
  "nfc_ncif_proc_rf_field_ntf st = resp_cb (Rf_field_revt st)"

definition nfc_ncif_proc_discover_ntf :: "mem \<Rightarrow> nat \<Rightarrow> u16 \<Rightarrow> nci_rx \<Rightarrow> nci_rx option" where
  "nfc_ncif_proc_discover_ntf m p plen s =
    (if rx_discv_cback s then do {
       r \<leftarrow> parse_discover (rx_kovio s) m p (unat plen);
       Some (discv_cb (Result_devt r) s) }
     else Some s)"

definition nfc_ncif_proc_isodep_nak_presence_check_status :: "u8 \<Rightarrow> bool \<Rightarrow> nci_rx \<Rightarrow> nci_rx" where
  "nfc_ncif_proc_isodep_nak_presence_check_status st is_ntf = rx_ev (Isodep_nak st is_ntf)"

definition nfc_ncif_proc_removal_status :: "mem \<Rightarrow> nat \<Rightarrow> nci_rx \<Rightarrow> nci_rx option" where
  "nfc_ncif_proc_removal_status m p s = do {
     st \<leftarrow> rd8 m p;
     Some (discv_cb (Disc_status DETECTION_RESULT_DEVT st) s) }"

text \<open>Status and result are the same byte of the union.\<close>

definition nfc_ncif_proc_charging_status :: "mem \<Rightarrow> nat \<Rightarrow> u8 \<Rightarrow> nci_rx \<Rightarrow> nci_rx option" where
  "nfc_ncif_proc_charging_status m p len s =
    (if len \<noteq> 1 then Some (discv_cb (Wpt_result_devt NCI_STATUS_FAILED) s)
     else do { r \<leftarrow> rd8 m p; Some (discv_cb (Wpt_result_devt r) s) })"

definition nfc_ncif_proc_activate :: "mem \<Rightarrow> nat \<Rightarrow> u8 \<Rightarrow> nci_rx \<Rightarrow> nci_rx option" where
  "nfc_ncif_proc_activate m p len s = do {
     let s = nfc_set_state NFC_STATE_OPEN s;
     (conn, a) \<leftarrow> parse_activate (rx_kovio s) (rx_18092 s) m p len;
     let s = (case conn of None \<Rightarrow> s
              | Some (bsz, num) \<Rightarrow> upd_base (upd_cb 0 (\<lambda>c. c \<lparr> cc_act_protocol := ac_protocol a, cc_act_interface := ac_type a,
                    cc_buff_size := bsz, cc_num_buff := num, cc_init_credits := num \<rparr>)) s);
     Some (discv_cb (Activate_devt a) s) }"

definition nfc_ncif_proc_deactivate :: "u8 \<Rightarrow> u8 \<Rightarrow> bool \<Rightarrow> nci_rx \<Rightarrow> nci_rx" where
  "nfc_ncif_proc_deactivate st deact_type is_ntf s =
    (let s = nfc_set_state NFC_STATE_IDLE s;
         reason = (if 0x20 \<le> nc_version (rx_base s) then rx_deact_reason s else 0);
         s = upd_base (upd_cb 0 (\<lambda>c. c \<lparr> cc_rx_q := [], cc_tx_q := [] \<rparr>)) s;
         s = (if cc_cback (nc_conn_cb (rx_base s) ! 0) then upd_base (nc_event (NFC_DEACTIVATE_CEVT NFC_RF_CONN_ID)) s else s)
     in discv_cb (Deactivate_devt st deact_type is_ntf reason) s)"

section \<open>Execution environments\<close>

text \<open>The loop over the data of an application trigger: an unknown tag, or the part of a value that does
  not fit, is counted in \<^verbatim>\<open>data_len\<close> but the pointer is not moved over it.\<close>

function app_init_loop :: "mem \<Rightarrow> nat \<Rightarrow> nat \<Rightarrow> ee_action \<Rightarrow> ee_action option" where
  "app_init_loop m p data_len a =
    (if 2 < data_len then do {
       let data_len = data_len - 2;
       tag \<leftarrow> rd8 m p;
       ulen \<leftarrow> rd8 m (p + 1);
       let ulen = min (unat ulen) data_len;
       if tag = 0xC0 then do {
         bs \<leftarrow> rd_arr 16 m (p + 2) (min ulen 16);
         app_init_loop m (p + 2 + min ulen 16) (data_len - ulen) (a \<lparr> ea_aid := bs \<rparr>) }
       else if tag = 0xC3 then do {
         bs \<leftarrow> rd_arr 40 m (p + 2) (min ulen 40);
         app_init_loop m (p + 2 + min ulen 40) (data_len - ulen) (a \<lparr> ea_data := bs \<rparr>) }
       else app_init_loop m (p + 2) (data_len - ulen) a }
     else Some a)"
  by pat_completeness auto
termination by (relation "measure (\<lambda>(_, _, n, _). n)") auto

declare app_init_loop.simps [simp del]

definition nfc_ncif_proc_ee_action :: "mem \<Rightarrow> nat \<Rightarrow> u8 \<Rightarrow> nci_rx \<Rightarrow> nci_rx option" where
  "nfc_ncif_proc_ee_action m p plen s =
    (let zero = \<lparr> ea_nfcee_id = 0, ea_trigger = 0, ea_aid = [], ea_tech = 0, ea_data = [] \<rparr> in
     if rx_resp_cback s then
       if \<not> 3 < plen then Some (resp_cb (Ee_action_revt NCI_STATUS_FAILED zero) s)
       else do {
         let plen = unat plen - 3;
         i \<leftarrow> rd8 m p;
         t \<leftarrow> rd8 m (p + 1);
         dl \<leftarrow> rd8 m (p + 2);
         let dl = min (unat dl) plen;
         let a = zero \<lparr> ea_nfcee_id := i, ea_trigger := t \<rparr>;
         a \<leftarrow> (if t = 0x00 then do { bs \<leftarrow> rd_arr 16 m (p + 3) (min dl 16); Some (a \<lparr> ea_aid := bs \<rparr>) }
               else if t = 0x01 \<or> t = 0x02 then do { b \<leftarrow> rd8 m (p + 3); Some (a \<lparr> ea_tech := b \<rparr>) }
               else if t = 0x10 then app_init_loop m (p + 3) dl a
               else Some a);
         Some (resp_cb (Ee_action_revt NCI_STATUS_OK a) s) }
     else Some s)"

text \<open>The entries of a discovery request; \<open>Some None\<close> is the return on a bad entry.\<close>

fun disc_req_loop :: "mem \<Rightarrow> nat \<Rightarrow> nat \<Rightarrow> nat \<Rightarrow> (u8 \<times> u8 \<times> u8 \<times> u8) list \<Rightarrow> (u8 \<times> u8 \<times> u8 \<times> u8) list option option" where
  "disc_req_loop m p 0 plen es = Some (Some es)"
| "disc_req_loop m p (Suc n) plen es =
    (if 5 \<le> plen then do {
       oper \<leftarrow> rd8 m p;
       l \<leftarrow> rd8 m (p + 1);
       if l \<noteq> 3 then Some None
       else do {
         i \<leftarrow> rd8 m (p + 2);
         t \<leftarrow> rd8 m (p + 3);
         pr \<leftarrow> rd8 m (p + 4);
         if length es < 6 then disc_req_loop m (p + 5) n (plen - 5) (es @ [(oper, i, t, pr)]) else None } }
     else Some (Some es))"

definition nfc_ncif_proc_ee_discover_req :: "mem \<Rightarrow> nat \<Rightarrow> u8 \<Rightarrow> nci_rx \<Rightarrow> nci_rx option" where
  "nfc_ncif_proc_ee_discover_req m p plen s =
    (if plen = 0 then Some s
     else do {
       num \<leftarrow> rd8 m p;
       if 6 < num then Some s
       else if rx_resp_cback s then do {
         r \<leftarrow> disc_req_loop m (p + 1) (unat num) (unat plen - 1) [];
         case r of None \<Rightarrow> Some s | Some es \<Rightarrow> Some (resp_cb (Ee_discover_req_revt (unat num) es) s) }
       else Some s })"

fun get_routing_loop :: "mem \<Rightarrow> nat \<Rightarrow> bool \<Rightarrow> nat \<Rightarrow> nat \<Rightarrow> nci_rx \<Rightarrow> nci_rx option" where
  "get_routing_loop m p more_fl 0 len s = Some s"
| "get_routing_loop m p more_fl (Suc n) len s =
    (let status = (if \<not> more_fl \<and> n = 0 then NCI_STATUS_OK else NFC_STATUS_CONTINUE) in
     if 2 \<le> len then do {
       let len = len - 2;
       q \<leftarrow> rd8 m p;
       sz \<leftarrow> rd8 m (p + 1);
       if 150 < sz then Some s
       else if len < unat sz then Some s
       else do {
         bs \<leftarrow> rd_arr 150 m (p + 2) (unat sz);
         get_routing_loop m (p + 2 + unat sz) more_fl n (len - unat sz) (resp_cb (Get_routing_revt status q bs) s) } }
     else Some s)"

definition nfc_ncif_proc_get_routing :: "mem \<Rightarrow> nat \<Rightarrow> u8 \<Rightarrow> nci_rx \<Rightarrow> nci_rx option" where
  "nfc_ncif_proc_get_routing m p len s =
    (if 2 \<le> len \<and> rx_resp_cback s then do {
       mo \<leftarrow> rd8 m p;
       num \<leftarrow> rd8 m (p + 1);
       if num = 0 then Some s
       else if unat len - 2 < 2 then Some s
       else get_routing_loop m (p + 2) (mo \<noteq> 0) (unat num) (unat len - 2) s }
     else Some s)"

end
