(* ===== verification/NciDispatch.thy ===== *)
theory NciDispatch
  imports NciRecv
begin

text \<open>
  The handlers of \<^verbatim>\<open>nci/nci_hrcv.cc\<close> for the groups of responses and notifications, the initialisation sequence
  (reset, init, discovery map) and the entry point \<open>nfc_ncif_process_event\<close>. \<open>m\<close> is the data of the message buffer and
  \<open>p\<close> the offset of the packet in it; \<open>plen\<close> is the length of the packet.
\<close>

section \<open>Initialisation\<close>

definition nfc_main_notify_enable_status :: "u8 \<Rightarrow> nci_rx \<Rightarrow> nci_rx" where
  "nfc_main_notify_enable_status st s =
    (if rx_resp_cback s then
       if nci_fl (NFC_FL_RESTARTING OR NFC_FL_POWER_CYCLE_NFCC) (rx_nci s) then
         let s = rx_clr_fl (NFC_FL_RESTARTING OR NFC_FL_POWER_CYCLE_NFCC) s;
             s = (if st \<noteq> NCI_STATUS_OK then s \<lparr> rx_nci := nci_set_fl NFC_FL_POWER_OFF_SLEEP (rx_nci s) \<rparr> else s)
         in resp_cb (Restart_revt st) s
       else resp_cb (Enable_revt st) s
     else s)"

text \<open>The mappings whose interface the controller supports, copied into an array of eight.\<close>

definition map_supported :: "nci_rx \<Rightarrow> u8 \<times> u8 \<times> u8 \<Rightarrow> bool" where
  "map_supported s mp =
    (case mp of (_, _, ty) \<Rightarrow>
       if 3 < ty then ty \<in> set (rx_vs_interface s)
       else push_bit (unat ty) 1 AND rx_interfaces s \<noteq> 0)"

definition NFC_DiscoveryMap :: "nci_env \<Rightarrow> (u8 \<times> u8 \<times> u8) list \<Rightarrow> bool \<Rightarrow> nci_rx \<Rightarrow> nci_rx option" where
  "NFC_DiscoveryMap e maps cback s =
    (let s = s \<lparr> rx_discv_cback := cback \<rparr>; ms = filter (map_supported s) maps in
     if length ms \<le> 8 then do {
       (_, n) \<leftarrow> nci_snd_discover_map_cmd e (of_nat (length ms)) (concat (map (\<lambda>(p, m, i). [p, m, i]) ms)) (rx_nci s);
       Some (s \<lparr> rx_nci := n \<rparr>) }
     else None)"

text \<open>The failure exit of \<open>nfc_enabled\<close>, for the control block \<open>i\<close>.\<close>

definition enable_failed :: "nat \<Rightarrow> u8 \<Rightarrow> nci_rx \<Rightarrow> nci_rx" where
  "enable_failed i st s =
    (if nci_fl NFC_FL_RESTARTING (rx_nci s)
     then nfc_main_notify_enable_status st (nfc_set_state NFC_STATE_NFCC_POWER_OFF_SLEEP s)
     else
       let s = upd_base (nfc_free_conn_cb (Some i)) s in
       if nc_state (rx_base s) = NFC_STATE_CORE_INIT then rx_ev Hal_close s
       else nfc_main_notify_enable_status st (nfc_set_state NFC_STATE_NONE s))"

text \<open>One interface of the list: a standard one sets its bit, a vendor interface is stored while there is
  room for it.\<close>

definition note_interface :: "u8 \<Rightarrow> nat \<times> nci_rx \<Rightarrow> nat \<times> nci_rx" where
  "note_interface b ys = (case ys of (yy, s) \<Rightarrow>
     if b \<le> 3 then (yy, s \<lparr> rx_interfaces := rx_interfaces s OR push_bit (unat b) 1 \<rparr>)
     else if 0x80 \<le> b \<and> yy < 5 then (yy + 1, s \<lparr> rx_vs_interface := (rx_vs_interface s)[yy := b] \<rparr>)
     else (yy, s))"

text \<open>The list of NCI 1.0; the new mask is stored when the loop is over, and the mask in \<open>s\<close> is the one under
  construction.\<close>

fun interfaces1 :: "mem \<Rightarrow> nat \<Rightarrow> nat \<Rightarrow> nat \<times> nci_rx \<Rightarrow> (nat \<times> nci_rx) option" where
  "interfaces1 m p 0 ys = Some ys"
| "interfaces1 m p (Suc n) ys = do { b \<leftarrow> rd8 m p; interfaces1 m (p + 1) n (note_interface b ys) }"

text \<open>The extensions of an interface.\<close>

fun extensions :: "mem \<Rightarrow> nat \<Rightarrow> nat \<Rightarrow> u8 \<Rightarrow> nci_rx \<Rightarrow> nci_rx option" where
  "extensions m p 0 ty s = Some s"
| "extensions m p (Suc n) ty s = do {
     b \<leftarrow> rd8 m p;
     extensions m (p + 1) n ty
       (if b < 2 \<and> ty \<le> 3
        then s \<lparr> rx_extensions := rx_extensions s OR push_bit (unat b) 1,
                 rx_extension_map := (rx_extension_map s)[unat b := push_bit (unat ty) 1] \<rparr>
        else s) }"

text \<open>The list of NCI 2.0, with the number of bytes left; \<open>Inl\<close> when they run out.\<close>

fun interfaces2 :: "mem \<Rightarrow> nat \<Rightarrow> nat \<Rightarrow> int \<Rightarrow> nat \<times> nci_rx \<Rightarrow> (nci_rx + nci_rx) option" where
  "interfaces2 m p 0 lremain ys = Some (Inr (snd ys))"
| "interfaces2 m p (Suc n) lremain ys =
    (let lremain = lremain - 2 in
     if lremain < 0 then Some (Inl (snd ys))
     else do {
       b \<leftarrow> rd8 m p;
       let (yy, s) = note_interface b ys;
       k \<leftarrow> rd8 m (p + 1);
       let lremain = lremain - int (unat k);
       if lremain < 0 then Some (Inl s)
       else do {
         s \<leftarrow> extensions m (p + 2) (unat k) b s;
         interfaces2 m (p + 2 + unat k) n lremain (yy, s) } })"

text \<open>The head of the answer to the init command: features, the interfaces of NCI 1.0, and the sizes. The
  result has the offset behind it and the bytes left.\<close>

definition init_head :: "mem \<Rightarrow> nat \<Rightarrow> int \<Rightarrow> nci_rx \<Rightarrow> (nci_rx + nat \<times> int \<times> u32 \<times> nci_rx) option" where
  "init_head m p lremain s = do {
     f \<leftarrow> rd_bytes m p 4;
     let feat = be32_val (f ! 3) (f ! 2) (f ! 1) (f ! 0);
     let p = p + 4;
     r \<leftarrow> (if nc_version (rx_base s) = NCI_VERSION_1_0 then do {
             n \<leftarrow> rd8 m p;
             let lremain = lremain - int (unat n);
             if lremain < 0 then Some (Inl s)
             else do {
               (_, s) \<leftarrow> interfaces1 m (p + 1) (unat n) (0, s \<lparr> rx_interfaces := 0 \<rparr>);
               Some (Inr (p + 1 + unat n, lremain, s)) } }
           else Some (Inr (p, lremain, s)));
     case r of
       Inl s \<Rightarrow> Some (Inl s)
     | Inr (p, lremain, s) \<Rightarrow> do {
         mx \<leftarrow> rd8 m p;
         c0 \<leftarrow> rd8 m (p + 1);
         c1 \<leftarrow> rd8 m (p + 2);
         ctrl \<leftarrow> rd8 m (p + 3);
         let s = upd_base (\<lambda>b. b \<lparr> nc_max_conn := 2 + mx \<rparr>)
                   (s \<lparr> rx_max_ce_table := le16_val c0 c1, rx_features := feat, rx_ctrl_size := ctrl \<rparr>);
         let s = upd_base (upd_cb 0 (\<lambda>c. c \<lparr> cc_init_credits := 0, cc_num_buff := 0 \<rparr>)) s;
         b \<leftarrow> nfc_set_conn_id (Some 0) NFC_RF_CONN_ID (rx_base s);
         Some (Inr (p + 4, lremain, feat, upd_base (\<lambda>_. b) s)) } }"

text \<open>The tail for NCI 2.0: the HCI connection, the frame size of NFC-V and the interfaces. \<open>Inl\<close> is the
  failure exit with the index of the control block to be freed.\<close>

definition init_tail2 :: "mem \<Rightarrow> nat \<Rightarrow> int \<Rightarrow> u32 \<Rightarrow> nci_rx \<Rightarrow> (nat \<times> nci_rx + nci_rx) option" where
  "init_tail2 m p lremain feat s =
    (let lremain = lremain - 4 in
     if lremain < 0 then Some (Inl (0, s))
     else do {
       (i, hp, hc, s) \<leftarrow>
         (if feat AND 8 \<noteq> 0 then do {
            b \<leftarrow> nfc_set_conn_id (Some 1) 1 (rx_base s);
            bsz \<leftarrow> rd8 m p;
            num \<leftarrow> rd8 m (p + 1);
            let s = upd_base (\<lambda>_. upd_cb 1 (\<lambda>c. c \<lparr> cc_id := 1, cc_buff_size := bsz, cc_num_buff := num, cc_init_credits := num \<rparr>) b) s;
            Some (1, bsz, num, s) }
          else Some (0, 0, 0, s));
       v0 \<leftarrow> rd8 m (p + 2);
       v1 \<leftarrow> rd8 m (p + 3);
       n \<leftarrow> rd8 m (p + 4);
       let s = s \<lparr> rx_hci_packet_size := hp, rx_hci_credits := hc, rx_max_v_size := le16_val v0 v1 \<rparr>;
       let old = rx_interfaces s;
       r \<leftarrow> interfaces2 m (p + 5) (unat n) lremain (0, s \<lparr> rx_interfaces := 0 \<rparr>);
       case r of Inl s \<Rightarrow> Some (Inl (i, s \<lparr> rx_interfaces := old \<rparr>)) | Inr s \<Rightarrow> Some (Inr s) })"

definition nfc_enabled :: "nci_env \<Rightarrow> u8 \<Rightarrow> nfc_hdr option \<Rightarrow> nci_rx \<Rightarrow> nci_rx option" where
  "nfc_enabled e st msg s =
    (if st \<noteq> NCI_STATUS_OK then Some (enable_failed 0 st s)
     else do {
       h \<leftarrow> msg;
       let s = nfc_set_state NFC_STATE_IDLE s;
       let p = unat (h_offset h) + 4;
       let lremain = int (unat (h_len h)) - 3 - 1 - 4 - 5;
       if lremain < 0 then Some (enable_failed 0 NCI_STATUS_FAILED s)
       else do {
         r \<leftarrow> init_head (h_data h) p lremain s;
         case r of
           Inl s \<Rightarrow> Some (enable_failed 0 NCI_STATUS_FAILED s)
         | Inr (p, lremain, feat, s) \<Rightarrow>
             if 0x20 \<le> nc_version (rx_base s) then do {
               r \<leftarrow> init_tail2 (h_data h) p lremain feat s;
               case r of
                 Inl (i, s) \<Rightarrow> Some (enable_failed i NCI_STATUS_FAILED s)
               | Inr s \<Rightarrow> do {
                   s \<leftarrow> NFC_DiscoveryMap e (rx_disc_maps s) False s;
                   Some (nfc_main_notify_enable_status NCI_STATUS_OK s) } }
             else do {
               let lremain = lremain - (2 + 4 + (if nc_version (rx_base s) = NCI_VERSION_1_0 then 1 else 0));
               if lremain < 0 then Some (enable_failed 0 NCI_STATUS_FAILED s)
               else do {
                 _ \<leftarrow> rd_bytes (h_data h) p 7;
                 s \<leftarrow> NFC_DiscoveryMap e (rx_disc_maps s) False s;
                 Some (nfc_main_notify_enable_status NCI_STATUS_OK s) } } } })"

definition nfc_ncif_cmd_timeout :: "nci_rx \<Rightarrow> nci_rx" where
  "nfc_ncif_cmd_timeout s =
    (let s = nfc_ncif_event_status GEN_ERROR_REVT NFC_STATUS_HW_TIMEOUT s;
         s = nfc_ncif_event_status NFCC_TIMEOUT_REVT NFC_STATUS_HW_TIMEOUT s
     in if nc_state (rx_base s) = NFC_STATE_CORE_INIT then enable_failed 0 NCI_STATUS_FAILED s else s)"

definition rx_snd :: "(nci_cb \<Rightarrow> (u8 \<times> nci_cb) option) \<Rightarrow> nci_rx \<Rightarrow> nci_rx option" where
  "rx_snd f s = do { (_, n) \<leftarrow> f (rx_nci s); Some (s \<lparr> rx_nci := n \<rparr>) }"

text \<open>The answer to a reset and the notification of one; the length byte is in front of \<open>p\<close>. The first part
  computes the status and whether a notification is to follow.\<close>

definition reset_status :: "mem \<Rightarrow> nat \<Rightarrow> u8 \<Rightarrow> bool \<Rightarrow> nci_rx \<Rightarrow> (u8 \<times> bool \<times> nci_rx) option" where
  "reset_status m p len is_ntf s = do {
     st \<leftarrow> (if 0 < len then rd8 m p else Some NCI_STATUS_FAILED);
     if 2 < len \<and> is_ntf then do {
       (st, s) \<leftarrow>
         (if (st = 2 \<or> st = 1) \<and> before_idle (nc_state (rx_base s)) then do {
            v \<leftarrow> rd8 m (p + 2);
            Some (NCI_STATUS_OK, upd_base (\<lambda>b. b \<lparr> nc_version := v \<rparr>) (s \<lparr> rx_nci := rx_nci s \<lparr> nci_rsp_timer := False \<rparr> \<rparr>)) }
          else Some (NCI_STATUS_FAILED, nfc_ncif_cmd_timeout s));
       Some (st, False, if nc_state (rx_base s) = NFC_STATE_OPEN then upd_base nfc_reset_all_conn_cbs s else s) }
     else if len = 1 then Some (st, True, s)
     else if len = 3 then Some (st, False, upd_base (\<lambda>b. b \<lparr> nc_version := NCI_VERSION_1_0 \<rparr>) s)
     else Some (st, False, s) }"

definition nfc_ncif_proc_reset_rsp :: "nci_env \<Rightarrow> mem \<Rightarrow> nat \<Rightarrow> bool \<Rightarrow> nci_rx \<Rightarrow> nci_rx option" where
  "nfc_ncif_proc_reset_rsp e m p is_ntf s = do {
     len \<leftarrow> rd8 m (p - 1);
     (st, wait, s) \<leftarrow> reset_status m p len is_ntf s;
     let s = (if nci_fl (NFC_FL_RESTARTING OR NFC_FL_POWER_CYCLE_NFCC) (rx_nci s) then upd_base nfc_reset_all_conn_cbs s else s);
     if st = NCI_STATUS_OK then
       if wait then Some (s \<lparr> rx_nci := rx_nci s \<lparr> nci_rsp_timer := True \<rparr> \<rparr>)
       else rx_snd (nci_snd_core_init e (if nc_version (rx_base s) = NCI_VERSION_1_0 then NCI_VERSION_1_0 else NCI_VERSION_2_0)) s
     else Some (enable_failed 0 st s) }"

text \<open>The answer to the init command; the result says whether the message was released or stored.\<close>

definition nfc_ncif_proc_init_rsp :: "nci_env \<Rightarrow> nfc_hdr \<Rightarrow> nci_rx \<Rightarrow> (bool \<times> nci_rx) option" where
  "nfc_ncif_proc_init_rsp e h s = do {
     let m = h_data h;
     let p = unat (h_offset h);
     st \<leftarrow> rd8 m (p + 3);
     if st = NCI_STATUS_OK then
       if nc_version (rx_base s) = NCI_VERSION_UNKNOWN then do {
         s \<leftarrow> rx_snd (nci_snd_core_reset e 1) s;
         Some (False, s) }
       else do {
         b \<leftarrow> rd8 m (p + 5);
         pkt \<leftarrow> rd_bytes m p (unat (h_len h));
         let s = upd_base (upd_cb 0 (\<lambda>c. c \<lparr> cc_id := NFC_RF_CONN_ID, cc_act_protocol := 0 \<rparr>)) (s \<lparr> rx_scbr := (b AND 0x10 \<noteq> 0) \<rparr>);
         Some (True, rx_ev (Hal_core_initialized pkt) (nfc_set_state NFC_STATE_W4_POST_INIT_CPLT s \<lparr> rx_init_rsp := Some h \<rparr>)) }
     else if nc_version (rx_base s) = NCI_VERSION_UNKNOWN then do {
       s \<leftarrow> rx_snd (nci_snd_core_reset e 1) (upd_base (\<lambda>b. b \<lparr> nc_version := NCI_VERSION_1_0 \<rparr>) s);
       Some (False, s) }
     else Some (True, enable_failed 0 st s) }"

text \<open>The size reported to the client counts the status byte, the pointer is behind it.\<close>

definition nfc_ncif_proc_get_config_rsp :: "nfc_hdr \<Rightarrow> nci_rx \<Rightarrow> nci_rx option" where
  "nfc_ncif_proc_get_config_rsp h s =
    (let off = h_offset h + 3; len = h_len h - 3 in
     if rx_resp_cback s then do {
       st \<leftarrow> rd8 (h_data h) (unat off);
       tlvs \<leftarrow> rd_bytes (h_data h) (unat off + 1) (unat len - 1);
       Some (resp_cb (Get_config_revt st len tlvs) s) }
     else Some s)"

definition nfc_ncif_proc_t3t_polling_rsp :: "u8 \<Rightarrow> nci_rx \<Rightarrow> nci_rx" where
  "nfc_ncif_proc_t3t_polling_rsp st = rx_ev (T3t_poll_rsp st)"

definition nfc_ncif_proc_t3t_polling_ntf :: "mem \<Rightarrow> nat \<Rightarrow> u8 \<Rightarrow> nci_rx \<Rightarrow> nci_rx option" where
  "nfc_ncif_proc_t3t_polling_ntf m p plen s =
    (if plen < 2 then do {
       bs \<leftarrow> rd_bytes m p (unat plen);
       Some (rx_ev (T3t_poll_ntf NCI_STATUS_FAILED 0 bs) s) }
     else do {
       st \<leftarrow> rd8 m p;
       n \<leftarrow> rd8 m (p + 1);
       bs \<leftarrow> rd_bytes m (p + 2) (unat plen - 2);
       Some (rx_ev (T3t_poll_ntf st n bs) s) })"

definition nfc_mode_set_ntf_timeout :: "nci_rx \<Rightarrow> nci_rx option" where
  "nfc_mode_set_ntf_timeout s = do {
     i \<leftarrow> rd8 (nci_last_nfcee_cmd (rx_nci s)) 0;
     Some (resp_cb (Mode_set_revt NCI_STATUS_FAILED i 0) (rx_clr_fl NFC_FL_WAIT_MODE_SET_NTF s)) }"

section \<open>Groups of messages\<close>

text \<open>The handlers get the message buffer; \<open>op_of\<close> is the opcode of a packet.\<close>

definition op_of :: "nfc_hdr \<Rightarrow> u8 option" where
  "op_of h = map_option (\<lambda>b. b AND 0x3F) (rd8 (h_data h) (unat (h_offset h) + 1))"

definition nci_proc_core_rsp :: "nci_env \<Rightarrow> nfc_hdr \<Rightarrow> nci_rx \<Rightarrow> (bool \<times> nci_rx) option" where
  "nci_proc_core_rsp e h s = do {
     let m = h_data h;
     let p = unat (h_offset h);
     op \<leftarrow> op_of h;
     len \<leftarrow> rd8 m (p + 2);
     let pp = p + 3;
     if op = 0 then map_option (Pair True) (nfc_ncif_proc_reset_rsp e m pp False s)
     else if op = 1 then do { (_, s) \<leftarrow> nfc_ncif_proc_init_rsp e h s; Some (False, s) }
     else if op = 3 then map_option (Pair True) (nfc_ncif_proc_get_config_rsp h s)
     else if op = 2 then map_option (Pair True) (nfc_ncif_set_config_status m pp len s)
     else if op = 4 then do {
       b \<leftarrow> nfc_ncif_proc_conn_create_rsp m p (rx_base s);
       Some (True, upd_base (\<lambda>_. b) s) }
     else if op = 5 then do {
       old \<leftarrow> rd8 (nci_last_cmd (rx_nci s)) 0;
       st \<leftarrow> rd8 m pp;
       Some (True, upd_base (nfc_ncif_report_conn_close_evt old st) s) }
     else if op = 9 then do { st \<leftarrow> rd8 m pp; Some (True, nfc_ncif_event_status SET_POWER_SUB_STATE_REVT st s) }
     else Some (True, s) }"

definition nci_proc_core_ntf :: "nci_env \<Rightarrow> (nat \<Rightarrow> bool) \<Rightarrow> nfc_hdr \<Rightarrow> nci_rx \<Rightarrow> nci_rx option" where
  "nci_proc_core_ntf e alloc h s = do {
     let m = h_data h;
     let p = unat (h_offset h);
     let len = (ucast (h_len h) :: u8);
     if len < 3 then Some s
     else do {
       op \<leftarrow> op_of h;
       let pp = p + 3;
       let len = len - 3;
       if op = 0 then nfc_ncif_proc_reset_rsp e m pp True s
       else if op = 7 then do {
         st \<leftarrow> rd8 m pp;
         Some (upd_base (nfc_ncif_error_status NFC_RF_CONN_ID st) (nfc_ncif_event_status GEN_ERROR_REVT st s)) }
       else if op = 8 then do {
         c \<leftarrow> rd8 m (pp + 1);
         st \<leftarrow> rd8 m pp;
         Some (upd_base (nfc_ncif_error_status c st) s) }
       else if op = 6 then do {
         b \<leftarrow> nfc_ncif_proc_credits alloc m pp (ucast len) (rx_base s);
         Some (upd_base (\<lambda>_. b) s) }
       else Some s } }"

definition nci_proc_rf_management_rsp :: "nfc_hdr \<Rightarrow> nci_rx \<Rightarrow> nci_rx option" where
  "nci_proc_rf_management_rsp h s = do {
     op \<leftarrow> op_of h;
     if op \<notin> set [0, 1, 2, 3, 4, 6, 8, 11, 12, 13, 16, 18, 21] then Some s
     else do {
       st \<leftarrow> rd8 (h_data h) (unat (h_offset h) + 3);
       if op = 3 then Some (nfc_ncif_rf_management_status START_DEVT st s)
       else if op = 4 then Some (nfc_ncif_rf_management_status SELECT_DEVT st s)
       else if op = 8 then Some (nfc_ncif_proc_t3t_polling_rsp st s)
       else if op = 0 then Some (nfc_ncif_rf_management_status MAP_DEVT st s)
       else if op = 6 then do {
         old \<leftarrow> rd8 (nci_last_cmd (rx_nci s)) 0;
         Some (nfc_ncif_proc_deactivate st old False s) }
       else if op = 1 then Some (nfc_ncif_event_status SET_ROUTING_REVT st s)
       else if op = 2 then Some (if st \<noteq> NCI_STATUS_OK then nfc_ncif_event_status GET_ROUTING_REVT st s else s)
       else if op = 11 then Some (nfc_ncif_event_status RF_COMM_PARAMS_UPDATE_REVT st s)
       else if op = 16 then Some (nfc_ncif_proc_isodep_nak_presence_check_status st False s)
       else if op = 12 then Some (nfc_ncif_rf_management_status INTF_EXT_START_DEVT st (rx_clr_fl NFC_FL_WAIT_RF_INTF_EXT_RSP s))
       else if op = 13 then Some (nfc_ncif_rf_management_status INTF_EXT_STOP_DEVT st (rx_clr_fl NFC_FL_WAIT_RF_INTF_EXT_RSP s))
       else if op = 18 then Some (nfc_ncif_rf_management_status DETECTION_START_DEVT st s)
       else Some (nfc_ncif_rf_management_status WPT_START_DEVT st s) } }"

definition nci_proc_rf_management_ntf :: "nfc_hdr \<Rightarrow> nci_rx \<Rightarrow> nci_rx option" where
  "nci_proc_rf_management_ntf h s = do {
     let m = h_data h;
     let p = unat (h_offset h);
     op \<leftarrow> op_of h;
     len \<leftarrow> rd8 m (p + 2);
     let pp = p + 3;
     if op = 3 then nfc_ncif_proc_discover_ntf m p (h_len h) s
     else if op = 6 then
       if h_len h < 5 then Some s
       else do {
         s \<leftarrow> (if 0x20 \<le> nc_version (rx_base s) then do { r \<leftarrow> rd8 m (pp + 1); Some (s \<lparr> rx_deact_reason := r \<rparr>) } else Some s);
         ty \<leftarrow> rd8 m pp;
         Some (nfc_ncif_proc_deactivate NCI_STATUS_OK ty True s) }
     else if op = 5 then nfc_ncif_proc_activate m pp len s
     else if op = 7 then
       if h_len h < 4 then Some s else do { st \<leftarrow> rd8 m pp; Some (nfc_ncif_proc_rf_field_ntf st s) }
     else if op = 8 then nfc_ncif_proc_t3t_polling_ntf m pp len s
     else if op = 2 then nfc_ncif_proc_get_routing m pp len s
     else if op = 9 then nfc_ncif_proc_ee_action m pp len s
     else if op = 10 then nfc_ncif_proc_ee_discover_req m pp len s
     else if op = 16 then
       if h_len h < 4 then Some s
       else do { st \<leftarrow> rd8 m pp; Some (nfc_ncif_proc_isodep_nak_presence_check_status st True s) }
     else if op = 18 then nfc_ncif_proc_removal_status m pp s
     else if op = 21 then nfc_ncif_proc_charging_status m pp len s
     else Some s }"

definition nci_proc_ee_management_rsp :: "nfc_hdr \<Rightarrow> nci_rx \<Rightarrow> nci_rx option" where
  "nci_proc_ee_management_rsp h s = do {
     let m = h_data h;
     let pp = unat (h_offset h) + 3;
     op \<leftarrow> op_of h;
     let len = (ucast (h_len h - 3) :: u8);
     old0 \<leftarrow> rd8 (nci_last_nfcee_cmd (rx_nci s)) 0;
     old1 \<leftarrow> rd8 (nci_last_nfcee_cmd (rx_nci s)) 1;
     if op = 0 then
       if 1 < len then do {
         st \<leftarrow> rd8 m pp;
         n \<leftarrow> rd8 m (pp + 1);
         Some (resp_cb (Nfcee_discover_revt st (if st \<noteq> NCI_STATUS_OK then 0 else n)) s) }
       else Some (resp_cb (Nfcee_discover_revt NCI_STATUS_FAILED 0) s)
     else if op = 1 then
       if 0 < len then do {
         st \<leftarrow> rd8 m pp;
         if nc_version (rx_base s) < 0x20 \<or> st \<noteq> NCI_STATUS_OK
         then Some (resp_cb (Mode_set_revt st old0 old1) (rx_clr_fl NFC_FL_WAIT_MODE_SET_NTF s))
         else Some s }
       else Some s
     else if op = 3 then do {
       st \<leftarrow> (if 0 < len then rd8 m pp else Some NCI_STATUS_FAILED);
       Some (resp_cb (Pl_control_revt st old0 old1) s) }
     else Some s }"

text \<open>The parameters of an execution environment; \<open>Some None\<close> when they run past the packet.\<close>

fun ee_tlv_loop :: "mem \<Rightarrow> nat \<Rightarrow> nat \<Rightarrow> nat \<Rightarrow> (u8 \<times> mem) list \<Rightarrow> (u8 \<times> mem) list option option" where
  "ee_tlv_loop m p 0 len ts = Some (Some ts)"
| "ee_tlv_loop m p (Suc n) len ts = do {
     tag \<leftarrow> rd8 m p;
     yy \<leftarrow> rd8 m (p + 1);
     if len < unat yy + 2 then Some None
     else do {
       info \<leftarrow> rd_arr 8 m (p + 2) (min (unat yy) 8);
       if length ts < 1 then ee_tlv_loop m (p + 2 + min (unat yy) 8) n (len - (unat yy + 2)) (ts @ [(tag, info)]) else None } }"

definition nfcee_discover_ntf :: "mem \<Rightarrow> nat \<Rightarrow> nat \<Rightarrow> nfcee_info option option" where
  "nfcee_discover_ntf m pp len =
    (if len < 3 then Some None
     else do {
       i \<leftarrow> rd8 m pp;
       st \<leftarrow> rd8 m (pp + 1);
       yy \<leftarrow> rd8 m (pp + 2);
       let len = len - 3;
       if len < unat yy + 1 then Some None
       else do {
         let len = len - (unat yy + 1);
         ifs \<leftarrow> rd_arr 3 m (pp + 3) (min (unat yy) 3);
         n \<leftarrow> rd8 m (pp + 3 + unat yy);
         if 0 < n \<and> len < 2 then Some None
         else do {
           r \<leftarrow> ee_tlv_loop m (pp + 4 + unat yy) (min (unat n) 1) len [];
           Some (map_option (\<lambda>ts. \<lparr> ni_nfcee_id = i, ni_ee_status = st, ni_num_interface = min (unat yy) 3, ni_interfaces = ifs,
                                     ni_tlvs = ts \<rparr>) r) } } })"

definition nci_proc_ee_management_ntf :: "nfc_hdr \<Rightarrow> nci_rx \<Rightarrow> nci_rx option" where
  "nci_proc_ee_management_ntf h s = do {
     let m = h_data h;
     let pp = unat (h_offset h) + 3;
     op \<leftarrow> op_of h;
     len \<leftarrow> rd8 m (unat (h_offset h) + 2);
     if op = 0 then do {
       r \<leftarrow> nfcee_discover_ntf m pp (unat len);
       case r of None \<Rightarrow> Some s | Some i \<Rightarrow> Some (resp_cb (Nfcee_info_revt i) s) }
     else if op = 1 then do {
       st \<leftarrow> (if len < 1 then Some NCI_STATUS_MESSAGE_CORRUPTED else rd8 m pp);
       Some (resp_cb (Mode_set_revt st (rx_ee_id s) (rx_ee_mode s)) (rx_clr_fl NFC_FL_WAIT_MODE_SET_NTF s \<lparr> rx_mode_timer := False \<rparr>)) }
     else if op = 2 then
       if len < 2 then Some (resp_cb (Nfcee_status_revt NCI_STATUS_MESSAGE_CORRUPTED 0 0) s)
       else do {
         i \<leftarrow> rd8 m pp;
         st \<leftarrow> rd8 m (pp + 1);
         Some (resp_cb (Nfcee_status_revt NCI_STATUS_OK i st) s) }
     else Some s }"

definition vsc_registered :: "nci_rx \<Rightarrow> bool" where
  "vsc_registered s \<longleftrightarrow> nci_vsc_cback (rx_nci s) \<noteq> replicate 8 0"

definition nci_proc_prop_rsp :: "nfc_hdr \<Rightarrow> nci_rx \<Rightarrow> nci_rx option" where
  "nci_proc_prop_rsp h s = do {
     op \<leftarrow> op_of h;
     pkt \<leftarrow> rd_bytes (h_data h) (unat (h_offset h)) (unat (h_len h));
     Some (if vsc_registered s then rx_ev (Vs_evt (0x40 OR op) pkt) s else s) }"

definition nci_proc_prop_raw_vs_rsp :: "nci_env \<Rightarrow> nfc_hdr \<Rightarrow> nci_rx \<Rightarrow> nci_rx option" where
  "nci_proc_prop_raw_vs_rsp e h s = do {
     op \<leftarrow> op_of h;
     pkt \<leftarrow> rd_bytes (h_data h) (unat (h_offset h)) (unat (h_len h));
     let s = (if vsc_registered s
              then rx_ev (Vs_evt (0x40 OR op) pkt) s \<lparr> rx_nci := rx_nci s \<lparr> nci_vsc_cback := replicate 8 0 \<rparr> \<rparr> else s);
     n \<leftarrow> nfc_ncif_update_window e (rx_nci s \<lparr> nci_raw_vs := False \<rparr>);
     Some (s \<lparr> rx_nci := n \<rparr>) }"

definition nci_proc_prop_ntf :: "nfc_hdr \<Rightarrow> nci_rx \<Rightarrow> nci_rx option" where
  "nci_proc_prop_ntf h s = do {
     op \<leftarrow> op_of h;
     pkt \<leftarrow> rd_bytes (h_data h) (unat (h_offset h)) (unat (h_len h));
     Some (fold (\<lambda>c s. if c then rx_ev (Vs_evt (0x80 OR op) pkt) s else s) (rx_vs_cb s) s) }"

section \<open>Dispatch\<close>

definition nfc_ncif_proc_proprietary_rsp :: "u8 \<Rightarrow> u8 \<Rightarrow> u8 \<Rightarrow> bool" where
  "nfc_ncif_proc_proprietary_rsp mt gid oid =
    (if mt = 0 then gid \<noteq> 0x03 \<and> oid \<noteq> 0x00 else mt \<noteq> 3)"

text \<open>A response is compared with the command that was sent last; \<open>Some (True, s)\<close> tells the caller to
  release the buffer.\<close>

definition nci_proc_rsp :: "nci_env \<Rightarrow> nfc_hdr \<Rightarrow> u8 \<Rightarrow> u8 \<Rightarrow> nci_rx \<Rightarrow> (bool \<times> nci_rx) option" where
  "nci_proc_rsp e h gid oid s = do {
     o0 \<leftarrow> rd8 (nci_last_hdr (rx_nci s)) 0;
     o1 \<leftarrow> rd8 (nci_last_hdr (rx_nci s)) 1;
     if o0 AND 0x0F \<noteq> gid \<or> o1 AND 0x3F \<noteq> oid then Some (True, s)
     else do {
       (free, s) \<leftarrow>
         (if gid = 0 then nci_proc_core_rsp e h s
          else if gid = 1 then map_option (Pair True) (nci_proc_rf_management_rsp h s)
          else if gid = 2 then map_option (Pair True) (nci_proc_ee_management_rsp h s)
          else if gid = 0x0F then map_option (Pair True) (nci_proc_prop_rsp h s)
          else Some (True, s));
       n \<leftarrow> nfc_ncif_update_window e (rx_nci s);
       Some (free, s \<lparr> rx_nci := n \<rparr>) } }"

definition nci_proc_ntf :: "nci_env \<Rightarrow> (nat \<Rightarrow> bool) \<Rightarrow> nfc_hdr \<Rightarrow> u8 \<Rightarrow> nci_rx \<Rightarrow> nci_rx option" where
  "nci_proc_ntf e alloc h gid s =
    (if gid = 0 then nci_proc_core_ntf e alloc h s
     else if gid = 1 then nci_proc_rf_management_ntf h s
     else if gid = 2 then nci_proc_ee_management_ntf h s
     else if gid = 0x0F then nci_proc_prop_ntf h s
     else Some s)"

text \<open>\<open>alloc\<close> and \<open>big\<close> say which buffers are available for fragments and for reassembly.\<close>

definition nfc_ncif_process_event :: "nci_env \<Rightarrow> (nat \<Rightarrow> bool) \<Rightarrow> bool \<Rightarrow> nfc_hdr \<Rightarrow> nci_rx \<Rightarrow> (bool \<times> nci_rx) option" where
  "nfc_ncif_process_event e alloc big h s =
    (if nc_state (rx_base s) = NFC_STATE_W4_HAL_CLOSE then Some (True, s)
     else if h_len h < 3 then Some (True, s)
     else do {
       let m = h_data h;
       let p = unat (h_offset h);
       l \<leftarrow> rd8 m (p + 2);
       if h_len h < ucast l + 3 then Some (True, s)
       else do {
         b0 \<leftarrow> rd8 m p;
         b1 \<leftarrow> rd8 m (p + 1);
         let mt = drop_bit 5 (b0 AND 0xE0);
         let gid = b0 AND 0x0F;
         let oid = b1 AND 0x3F;
         if nci_raw_vs (rx_nci s) \<and> nfc_ncif_proc_proprietary_rsp mt gid oid then do {
           s \<leftarrow> nci_proc_prop_raw_vs_rsp e h s;
           Some (True, s \<lparr> rx_nci := rx_nci s \<lparr> nci_raw_vs := False \<rparr> \<rparr>) }
         else if mt = 0 then do {
           b \<leftarrow> nfc_ncif_proc_data big h (rx_base s);
           Some (False, upd_base (\<lambda>_. b) s) }
         else if mt = 2 then nci_proc_rsp e h gid oid s
         else if mt = 3 then do { s \<leftarrow> nci_proc_ntf e alloc h gid s; Some (True, s) }
         else Some (True, s) } })"

end
