(* ===== verification/OptionWp.thy ===== *)
theory OptionWp
  imports NfcPrelude
begin

text \<open>
  A weakest precondition for partial computations: \<open>wp x Q\<close> says that \<open>x\<close> is defined, so that no access of it
  was outside a buffer, and that its result satisfies \<open>Q\<close>. The rules follow the shape of the code and leave the
  bounds of the accesses as conditions; a call is stepped over with a specification of the function called.
\<close>

definition wp :: "'a option \<Rightarrow> ('a \<Rightarrow> bool) \<Rightarrow> bool" where
  "wp x Q \<longleftrightarrow> (\<exists>r. x = Some r \<and> Q r)"

named_theorems wp_intros

lemma wp_bind [wp_intros]: "wp x (\<lambda>r. wp (f r) Q) \<Longrightarrow> wp (x \<bind> f) Q"
  by (auto simp: wp_def)

lemma wp_let [wp_intros]: "(\<And>x. x = v \<Longrightarrow> wp (f x) Q) \<Longrightarrow> wp (Let v f) Q"
  by (simp add: Let_def)

lemma wp_if [wp_intros]: "(c \<Longrightarrow> wp x Q) \<Longrightarrow> (\<not> c \<Longrightarrow> wp y Q) \<Longrightarrow> wp (if c then x else y) Q"
  by simp

lemma wp_Some [wp_intros]: "Q r \<Longrightarrow> wp (Some r) Q"
  by (simp add: wp_def)

lemma wp_map [wp_intros]: "wp x (\<lambda>r. Q (f r)) \<Longrightarrow> wp (map_option f x) Q"
  by (auto simp: wp_def)

lemma wp_prod [wp_intros]: "(\<And>a b. x = (a, b) \<Longrightarrow> wp (f a b) Q) \<Longrightarrow> wp (case x of (a, b) \<Rightarrow> f a b) Q"
  by (cases x) simp

lemma wp_option [wp_intros]:
  "(x = None \<Longrightarrow> wp n Q) \<Longrightarrow> (\<And>a. x = Some a \<Longrightarrow> wp (f a) Q) \<Longrightarrow> wp (case x of None \<Rightarrow> n | Some a \<Rightarrow> f a) Q"
  by (cases x) simp_all

lemma wp_sum [wp_intros]:
  "(\<And>a. x = Inl a \<Longrightarrow> wp (f a) Q) \<Longrightarrow> (\<And>b. x = Inr b \<Longrightarrow> wp (g b) Q) \<Longrightarrow> wp (case x of Inl a \<Rightarrow> f a | Inr b \<Rightarrow> g b) Q"
  by (cases x) simp_all

lemma wp_rd8 [wp_intros]: "p < length m \<Longrightarrow> (\<And>b. b = m ! p \<Longrightarrow> Q b) \<Longrightarrow> wp (rd8 m p) Q"
  by (simp add: wp_def rd8_in)

lemma wp_rd_bytes [wp_intros]:
  "p + n \<le> length m \<Longrightarrow> (\<And>bs. bs = take n (drop p m) \<Longrightarrow> length bs = n \<Longrightarrow> Q bs) \<Longrightarrow> wp (rd_bytes m p n) Q"
  by (simp add: wp_def rd_bytes_in)

lemma wp_call: "wp x P \<Longrightarrow> (\<And>r. P r \<Longrightarrow> Q r) \<Longrightarrow> wp x Q"
  by (auto simp: wp_def)

lemma wp_Ex: "wp x (\<lambda>_. True) \<longleftrightarrow> (\<exists>r. x = Some r)"
  by (simp add: wp_def)

lemma wpD: "wp x Q \<Longrightarrow> x = Some r \<Longrightarrow> Q r"
  by (simp add: wp_def)

lemma wpE:
  assumes "wp x Q"
  obtains r where "x = Some r" "Q r"
  using assms by (auto simp: wp_def)

end
