(* ===== verification/NciParseProofs.thy ===== *)
theory NciParseProofs
  imports NciParse OptionWp
begin

text \<open>
  Correctness of the parsers of discovery and activation notifications: for any bytes a parser reads only
  inside the packet and inside the arrays it copies to, and what a conforming controller encodes is decoded
  to the same parameters.
\<close>

section \<open>Reads stay inside the packet\<close>

lemma wp_rd_arr [wp_intros]:
  "n \<le> cap \<Longrightarrow> p + n \<le> length m \<Longrightarrow> (\<And>bs. bs = take n (drop p m) \<Longrightarrow> length bs = n \<Longrightarrow> Q bs) \<Longrightarrow> wp (rd_arr cap m p n) Q"
  by (simp add: rd_arr_def wp_rd_bytes)

lemma length_zpad: "length bs \<le> n \<Longrightarrow> length (zpad n bs) = n"
  by (simp add: zpad_def)

lemma decode_pa_hr_in:
  assumes "len = 7 + pa_nfcid1_len pa + unat u \<Longrightarrow> p + 3 \<le> length m" "\<And>x. Q x"
  shows "wp (decode_pa_hr m p len u pa) Q"
  unfolding decode_pa_hr_def using assms by (intro wp_intros) auto

lemma unat_pos: "(b :: 'a::len word) \<noteq> 0 \<Longrightarrow> 0 < unat b"
  by (simp add: unat_gt_0)

lemma decode_pa_in: "p + len \<le> length m \<Longrightarrow> (\<And>x. Q x) \<Longrightarrow> wp (decode_pa m p len) Q"
  unfolding decode_pa_def by (intro wp_intros decode_pa_hr_in) (auto dest: unat_pos)

lemma decode_pb_in: "p + len \<le> length m \<Longrightarrow> (\<And>x. Q x) \<Longrightarrow> wp (decode_pb m p len) Q"
  unfolding decode_pb_def by (intro wp_intros) auto

lemma decode_pf_in: "p + len \<le> length m \<Longrightarrow> (\<And>x. Q x) \<Longrightarrow> wp (decode_pf m p len) Q"
  unfolding decode_pf_def by (intro wp_intros) auto

lemma decode_lf_in: "p + len \<le> length m \<Longrightarrow> (\<And>x. Q x) \<Longrightarrow> wp (decode_lf m p len) Q"
  unfolding decode_lf_def by (intro wp_intros) auto

lemma decode_i93_in: "p + len \<le> length m \<Longrightarrow> (\<And>x. Q x) \<Longrightarrow> wp (decode_i93 m p len) Q"
  unfolding decode_i93_def by (intro wp_intros) auto

lemmas decode_in = decode_pa_in decode_pb_in decode_pf_in decode_lf_in decode_i93_in

lemma decode_rf_params_in:
  assumes "p < length m" "p + 1 + unat (m ! p) \<le> length m" "\<And>ps. Q (ps, p + 1 + unat (m ! p))"
  shows "wp (nfc_ncif_decode_rf_params kovio mode m p) Q"
  unfolding nfc_ncif_decode_rf_params_def by (intro wp_intros decode_in) (use assms in auto)

lemma ats_byte_in:
  assumes "i + k \<le> length ats" "Q (Inl ())" "\<And>x i' k'. i' + k' = i + k \<Longrightarrow> Q (Inr (x, i', k'))"
  shows "wp (ats_byte b t0 ats (i, k)) Q"
  unfolding ats_byte_def prod.case by (intro wp_intros) (use assms in auto)

lemma ats_ta_pos: "ats_ta t0 (i, k) = Inr (i', k') \<Longrightarrow> i' + k' = i + k"
  by (auto simp: ats_ta_def split: if_splits)

lemma activate_ats_in:
  assumes "length ats = 64" "pi_ats_res_len pa \<le> 64" "0 < pi_ats_res_len pa" "\<And>r. Q r"
  shows "wp (activate_ats ats pa) Q"
  unfolding activate_ats_def using assms
  by (intro wp_intros) (auto intro!: wp_intros ats_byte_in dest!: ats_ta_pos)

lemma activate_pa_iso_in: "p + plen \<le> length m \<Longrightarrow> (\<And>x. Q x) \<Longrightarrow> wp (activate_pa_iso m p plen fr) Q"
  unfolding activate_pa_iso_def
  by (intro wp_intros activate_ats_in) (auto simp: length_zpad pa_iso_zero_def dest: unat_pos)

lemma attr_hi_info_in: "(\<And>x. Q x) \<Longrightarrow> wp (attr_hi_info k at) Q"
  unfolding attr_hi_info_def by (intro wp_intros) auto

lemma activate_attrib_in: "p + plen \<le> length m \<Longrightarrow> (\<And>x. Q x) \<Longrightarrow> wp (activate_attrib poll m p plen fr) Q"
  unfolding activate_attrib_def by (intro wp_intros attr_hi_info_in) auto

lemma activate_iso_in: "p + plen \<le> length m \<Longrightarrow> (\<And>x. Q x) \<Longrightarrow> wp (activate_iso mode m p plen fr) Q"
  unfolding activate_iso_def activate_la_iso_def by (intro wp_intros activate_pa_iso_in activate_attrib_in) auto

lemma activate_t1t_in: "p + plen \<le> length m \<Longrightarrow> (\<And>x. Q x) \<Longrightarrow> wp (activate_t1t n m p plen ps) Q"
  unfolding activate_t1t_def by (intro wp_intros) auto

lemma activate_intf_in: "p + plen \<le> length m \<Longrightarrow> (\<And>x. Q x) \<Longrightarrow> wp (activate_intf bs m p plen n a) Q"
  unfolding activate_intf_def by (intro wp_intros activate_iso_in activate_t1t_in) auto

lemma parse_activate_in: "p + unat len \<le> length m \<Longrightarrow> (\<And>x. Q x) \<Longrightarrow> wp (parse_activate kovio a m p len) Q"
  unfolding parse_activate_def by (intro wp_intros decode_rf_params_in activate_intf_in) auto

lemma parse_discover_in: "p + plen \<le> length m \<Longrightarrow> (\<And>x. Q x) \<Longrightarrow> wp (parse_discover kovio m p plen) Q"
  unfolding parse_discover_def by (intro wp_intros decode_rf_params_in) auto

section \<open>What a controller encodes is decoded\<close>

text \<open>The encoding of the technology parameters in the NCI specification; \<open>sel\<close> says whether the select
  response of technology A is present.\<close>

fun rf_enc :: "bool \<Rightarrow> rf_params \<Rightarrow> mem" where
  "rf_enc sel (RF_PA pa) = pa_sens_res pa @ [of_nat (length (pa_nfcid1 pa))] @ pa_nfcid1 pa @
     (if sel then [1, pa_sel_rsp pa] else [0]) @ (if pa_hr_len pa = 2 then 2 # pa_hr pa else [0])"
| "rf_enc sel (RF_PB pb) = of_nat (length (pb_sensb_res pb)) # pb_sensb_res pb"
| "rf_enc sel (RF_PF pf) = [pf_bit_rate pf, of_nat (length (pf_sensf_res pf))] @ pf_sensf_res pf"
| "rf_enc sel (RF_LF n) = 8 # n"
| "rf_enc sel (RF_I93 i) = [pi_flag i, pi_dsfid i] @ pi_uid i"
| "rf_enc sel (RF_PK u) = u"
| "rf_enc sel _ = []"

text \<open>The parameters that belong to a technology and mode, with the fields that are derived from others.\<close>

definition pb_of :: "mem \<Rightarrow> pb_params" where
  "pb_of r = \<lparr> pb_sensb_res_len = length r, pb_sensb_res = r, pb_nfcid0 = take 4 (zpad 12 r), pb_fwi = drop_bit 4 (zpad 12 r ! 10) \<rparr>"

definition pf_of :: "u8 \<Rightarrow> mem \<Rightarrow> pf_params" where
  "pf_of br r =
    (if length r < 15 then \<lparr> pf_bit_rate = br, pf_sensf_res_len = length r, pf_sensf_res = r, pf_nfcid2 = replicate 8 0, pf_mrti_check = 0, pf_mrti_update = 0 \<rparr>
     else \<lparr> pf_bit_rate = br, pf_sensf_res_len = length r, pf_sensf_res = r, pf_nfcid2 = take 8 r, pf_mrti_check = r ! 13, pf_mrti_update = r ! 14 \<rparr>)"

definition rf_wf :: "u8 \<Rightarrow> u8 \<Rightarrow> bool \<Rightarrow> rf_params \<Rightarrow> bool" where
  "rf_wf kovio mode sel ps \<longleftrightarrow>
    (case ps of
       RF_PA pa \<Rightarrow> mode = 0x00 \<and> length (pa_sens_res pa) = 2 \<and> length (pa_nfcid1 pa) \<le> 10 \<and> pa_nfcid1_len pa = length (pa_nfcid1 pa) \<and>
         (\<not> sel \<longrightarrow> pa_sel_rsp pa = 0) \<and> (pa_hr_len pa = 2 \<and> length (pa_hr pa) = 2 \<or> pa_hr_len pa = 0 \<and> pa_hr pa = [0, 0])
     | RF_PB pb \<Rightarrow> mode = 0x01 \<and> length (pb_sensb_res pb) \<le> 12 \<and> pb = pb_of (pb_sensb_res pb)
     | RF_PF pf \<Rightarrow> mode = 0x02 \<and> length (pf_sensf_res pf) \<le> 18 \<and> pf = pf_of (pf_bit_rate pf) (pf_sensf_res pf)
     | RF_LF n \<Rightarrow> mode = 0x82 \<and> length n = 8
     | RF_I93 i \<Rightarrow> mode = 0x06 \<and> length (pi_uid i) = 8
     | RF_PK u \<Rightarrow> mode = kovio \<and> kovio \<notin> {0x00, 0x01, 0x02, 0x82, 0x06} \<and> length u \<le> 32
     | _ \<Rightarrow> False)"

text \<open>Reads behind a prefix of known length.\<close>

lemma rd8_at: "length pre = p \<Longrightarrow> rd8 (pre @ x # post) p = Some x"
  by (auto simp: rd8_in nth_append)

lemma rd_arr_at: "length pre = p \<Longrightarrow> length xs = n \<Longrightarrow> n \<le> cap \<Longrightarrow> rd_arr cap (pre @ xs @ post) p n = Some xs"
  by (auto simp: rd_arr_def rd_bytes_in)

lemma decode_pa_enc:
  assumes "rf_wf k 0 sel (RF_PA pa)"
  shows "decode_pa (pre @ rf_enc sel (RF_PA pa) @ post) (length pre) (length (rf_enc sel (RF_PA pa))) = Some pa"
proof -
  let ?n = "length (pa_nfcid1 pa)" and ?sens = "pa_sens_res pa" and ?id = "pa_nfcid1 pa"
  let ?u = "if sel then [1, pa_sel_rsp pa] else [0]" and ?hr = "if pa_hr_len pa = 2 then 2 # pa_hr pa else [0]"
  let ?m = "pre @ rf_enc sel (RF_PA pa) @ post"
  have w: "length ?sens = 2" "?n \<le> 10" "pa_nfcid1_len pa = ?n" "\<not> sel \<longrightarrow> pa_sel_rsp pa = 0"
    "pa_hr_len pa = 2 \<and> length (pa_hr pa) = 2 \<or> pa_hr_len pa = 0 \<and> pa_hr pa = [0, 0]" using assms by (auto simp: rf_wf_def)
  have n: "unat (of_nat ?n :: u8) = ?n" using w(2) by (simp add: unat_of_nat_u8)
  have m: "?m = pre @ ?sens @ of_nat ?n # ?id @ ?u @ ?hr @ post" by simp
  have r1: "rd_arr 2 ?m (length pre) 2 = Some ?sens" unfolding m using w(1) by (intro rd_arr_at) auto
  have r2: "rd8 ?m (length pre + 2) = Some (of_nat ?n)" using rd8_at [of "pre @ ?sens" "length pre + 2"] w(1) by simp
  have r3: "rd_arr 10 ?m (length pre + 3) ?n = Some ?id"
    using rd_arr_at [of "pre @ ?sens @ [of_nat ?n]" "length pre + 3" ?id ?n 10 "?u @ ?hr @ post"] w by simp
  have r4: "rd8 ?m (length pre + 3 + ?n) = Some (if sel then 1 else 0)"
    using rd8_at [of "pre @ ?sens @ [of_nat ?n] @ ?id" "length pre + 3 + ?n"] w(1) by simp
  have r5: "rd8 ?m (length pre + 4 + ?n) = Some (pa_sel_rsp pa)" if sel
    using rd8_at [of "pre @ ?sens @ [of_nat ?n] @ ?id @ [1]" "length pre + 4 + ?n"] w(1) that by simp
  let ?h = "length pre + (if sel then 5 else 4) + ?n"
  have h: "length (pre @ ?sens @ [of_nat ?n] @ ?id @ ?u) = ?h" using w(1) by simp
  have r6: "rd8 ?m ?h = Some (if pa_hr_len pa = 2 then 2 else 0)"
    using rd8_at [OF h] by simp
  have r7: "rd_arr 2 ?m (?h + 1) 2 = Some (pa_hr pa)" if "pa_hr_len pa = 2"
    using rd_arr_at [of "pre @ ?sens @ [of_nat ?n] @ ?id @ ?u @ [2]" "?h + 1" "pa_hr pa" 2 2 post] h w(5) that by simp
  have len: "length (rf_enc sel (RF_PA pa)) = 3 + ?n + (if sel then 2 else 1) + (if pa_hr_len pa = 2 then 3 else 1)"
    using w by auto
  show ?thesis
    unfolding decode_pa_def decode_pa_hr_def len using r1 r2 r3 r4 r5 r6 r7 n w
    by (cases sel; cases "pa_hr_len pa = 2") (simp_all add: pa_zero_def Let_def min_absorb1 del: rf_enc.simps)
qed

lemma decode_pb_enc:
  assumes "rf_wf k mode sel (RF_PB pb)"
  shows "decode_pb (pre @ rf_enc sel (RF_PB pb) @ post) (length pre) (length (rf_enc sel (RF_PB pb))) = Some pb"
proof -
  let ?r = "pb_sensb_res pb" and ?m = "pre @ rf_enc sel (RF_PB pb) @ post"
  have w: "length ?r \<le> 12" "pb = pb_of ?r" using assms by (auto simp: rf_wf_def)
  have n: "unat (of_nat (length ?r) :: u8) = length ?r" using w(1) by (simp add: unat_of_nat_u8)
  have r: "rd8 ?m (length pre) = Some (of_nat (length ?r))" "rd_arr 12 ?m (length pre + 1) (length ?r) = Some ?r"
    using rd8_at [of pre "length pre"] rd_arr_at [of "pre @ [of_nat (length ?r)]" "length pre + 1" ?r "length ?r" 12 post] w(1) by simp_all
  show ?thesis unfolding decode_pb_def using r n w(1)
    by (subst (3) w(2)) (simp add: pb_of_def pb_zero_def Let_def min_absorb1)
qed

lemma decode_pf_enc:
  assumes "rf_wf k mode sel (RF_PF pf)"
  shows "decode_pf (pre @ rf_enc sel (RF_PF pf) @ post) (length pre) (length (rf_enc sel (RF_PF pf))) = Some pf"
proof -
  let ?r = "pf_sensf_res pf" and ?m = "pre @ rf_enc sel (RF_PF pf) @ post"
  have w: "length ?r \<le> 18" "pf = pf_of (pf_bit_rate pf) ?r" using assms by (auto simp: rf_wf_def)
  have n: "unat (of_nat (length ?r) :: u8) = length ?r" using w(1) by (simp add: unat_of_nat_u8)
  have r: "rd8 ?m (length pre) = Some (pf_bit_rate pf)" "rd8 ?m (length pre + 1) = Some (of_nat (length ?r))"
    "rd_arr 18 ?m (length pre + 2) (length ?r) = Some ?r"
    using rd8_at [of pre "length pre"] rd8_at [of "pre @ [pf_bit_rate pf]" "length pre + 1"]
      rd_arr_at [of "pre @ [pf_bit_rate pf, of_nat (length ?r)]" "length pre + 2" ?r "length ?r" 18 post] w(1) by simp_all
  have d: "decode_pf ?m (length pre) (length (rf_enc sel (RF_PF pf))) = Some (pf_of (pf_bit_rate pf) ?r)"
    unfolding decode_pf_def using r n w(1)
    by (simp add: pf_of_def pf_zero_def zpad_def nth_append Let_def min_absorb1 not_less)
  show ?thesis using d w(2) by simp
qed

text \<open>The parameters behind their length byte.\<close>

lemma decode_rf_enc:
  assumes wf: "rf_wf kovio mode sel ps" and l: "length (rf_enc sel ps) \<le> 255"
  shows "nfc_ncif_decode_rf_params kovio mode (pre @ of_nat (length (rf_enc sel ps)) # rf_enc sel ps @ post) (length pre) =
    Some (ps, length pre + 1 + length (rf_enc sel ps))"
proof -
  let ?b = "rf_enc sel ps" and ?pre = "pre @ [of_nat (length (rf_enc sel ps))]"
  let ?m = "pre @ of_nat (length ?b) # ?b @ post"
  have m: "?m = ?pre @ ?b @ post" "length ?pre = length pre + 1" by simp_all
  have r: "rd8 ?m (length pre) = Some (of_nat (length ?b))" "unat (of_nat (length ?b) :: u8) = length ?b"
    using rd8_at [of pre "length pre"] l by (simp_all add: unat_of_nat_u8)
  note d = nfc_ncif_decode_rf_params_def rf_wf_def
  show ?thesis
  proof (cases ps)
    case (RF_PA pa)
    then show ?thesis using wf r decode_pa_enc [of kovio sel pa ?pre post] by (simp add: d del: rf_enc.simps)
  next
    case (RF_PB pb)
    then show ?thesis using wf r decode_pb_enc [of kovio mode sel pb ?pre post] by (simp add: d del: rf_enc.simps)
  next
    case (RF_PF pf)
    then show ?thesis using wf r decode_pf_enc [of kovio mode sel pf ?pre post] by (simp add: d del: rf_enc.simps)
  next
    case (RF_LF n)
    then have "decode_lf ?m (length pre + 1) (length ?b) = Some n"
      using wf rd8_at [of ?pre "length pre + 1" 8 "n @ post"] rd_arr_at [of "?pre @ [8]" "length pre + 2" n 8 8 post]
      by (simp add: decode_lf_def rf_wf_def)
    then show ?thesis using wf r RF_LF by (simp add: d)
  next
    case (RF_I93 x)
    then have "decode_i93 ?m (length pre + 1) (length ?b) = Some x"
      using wf rd8_at [of ?pre "length pre + 1" "pi_flag x"] rd8_at [of "?pre @ [pi_flag x]" "length pre + 2" "pi_dsfid x"]
        rd_arr_at [of "?pre @ [pi_flag x, pi_dsfid x]" "Suc (Suc (Suc (length pre)))" "pi_uid x" 8 8 post]
      by (simp add: decode_i93_def rf_wf_def)
    then show ?thesis using wf r RF_I93 by (simp add: d)
  next
    case (RF_PK u)
    then have "rd_arr 32 ?m (length pre + 1) (min (length ?b) 32) = Some u"
      using wf rd_arr_at [of ?pre "length pre + 1" u "length u" 32 post] by (simp add: rf_wf_def min_absorb1)
    then show ?thesis using wf r RF_PK by (simp add: d)
  qed (use wf in \<open>simp_all add: rf_wf_def\<close>)
qed

text \<open>The notification of a discovery result.\<close>

definition disc_pkt :: "u8 \<Rightarrow> u8 \<Rightarrow> u8 \<Rightarrow> mem \<Rightarrow> u8 \<Rightarrow> mem" where
  "disc_pkt rid prot mode bs mo = [0x61, 0x03, of_nat (5 + length bs), rid, prot, mode, of_nat (length bs)] @ bs @ [mo]"

text \<open>C14. Discovery notifications are decoded faithfully: when the controller reports a device with parameters
  of any technology (A with or without select response and header ROM, B, F, the 212/424 listen mode, NFC-V, Kovio),
  encoded as the NCI specification says, the event for the client carries exactly these parameters, the identifier,
  the protocol, the mode and the marker for further notifications, wherever the packet stands in its buffer.\<close>

theorem nci_discover_roundtrip:
  assumes "rf_wf kovio mode sel ps" "bs = rf_enc sel ps" "length bs \<le> 250" "pkt = disc_pkt rid prot mode bs mo"
  shows "parse_discover kovio (pre @ pkt @ post) (length pre) (length pkt) =
    Some \<lparr> re_status = NCI_STATUS_OK, re_rf_disc_id = rid, re_protocol = prot, re_mode = mode, re_params = ps, re_more = mo \<rparr>"
proof -
  let ?m = "pre @ pkt @ post" and ?l = "of_nat (length bs) :: u8" and ?h = "[0x61, 0x03, of_nat (5 + length bs)] :: mem"
  have m: "?m = (pre @ ?h @ [rid, prot, mode]) @ ?l # rf_enc sel ps @ mo # post" using assms(2,4) by (simp add: disc_pkt_def)
  have r: "rd8 ?m (length pre + 3) = Some rid" "rd8 ?m (length pre + 4) = Some prot" "rd8 ?m (length pre + 5) = Some mode"
      "rd8 ?m (length pre + 6) = Some ?l" "rd8 ?m (length pre + 7 + length bs) = Some mo"
    using rd8_at [of "pre @ ?h" "length pre + 3"] rd8_at [of "pre @ ?h @ [rid]" "length pre + 4"] rd8_at [of "pre @ ?h @ [rid, prot]" "length pre + 5"]
      rd8_at [of "pre @ ?h @ [rid, prot, mode]" "length pre + 6"] rd8_at [of "pre @ ?h @ [rid, prot, mode, ?l] @ bs" "length pre + 7 + length bs"]
    by (simp_all add: assms(4) disc_pkt_def)
  have d: "nfc_ncif_decode_rf_params kovio mode ?m (length pre + 6) = Some (ps, length pre + 7 + length bs)"
    unfolding m using decode_rf_enc [OF assms(1), of "pre @ ?h @ [rid, prot, mode]" "mo # post"] assms(2,3)
    by (simp add: eval_nat_numeral)
  have len: "unat ?l = length bs" "length pkt = 8 + length bs" using assms(3,4) by (simp_all add: unat_of_nat_u8 disc_pkt_def)
  show ?thesis using r d len by (simp add: parse_discover_def Let_def)
qed

definition ex_pa :: pa_params where
  "ex_pa = \<lparr> pa_sens_res = [0x44, 0x00], pa_nfcid1_len = 4, pa_nfcid1 = [1, 2, 3, 4], pa_sel_rsp = 0x20, pa_hr_len = 0, pa_hr = [0, 0] \<rparr>"

theorem nci_discover_roundtrip_witness:
  "parse_discover 0x77 ([0x61, 0x03, 0x0F, 1, 4, 0, 10, 0x44, 0, 4, 1, 2, 3, 4, 1, 0x20, 0, 2] @ [9, 9]) 0 18 =
     Some \<lparr> re_status = NCI_STATUS_OK, re_rf_disc_id = 1, re_protocol = 4, re_mode = 0, re_params = RF_PA ex_pa, re_more = 2 \<rparr>"
  using nci_discover_roundtrip [where kovio = "0x77" and mode = 0 and sel = True and ps = "RF_PA ex_pa" and rid = 1 and prot = 4 and mo = 2 and
    pre = "[]" and post = "[9, 9]", OF _ refl _ refl]
  by (simp add: rf_wf_def ex_pa_def disc_pkt_def eval_nat_numeral)



end
