(* ===== verification/NciFlow.thy ===== *)
theory NciFlow
  imports NciReceive
begin

text \<open>
  The properties of the logical connections: messages survive fragmentation and reassembly, and the
  table of control blocks stays consistent under every operation.
\<close>

section \<open>Fragmentation and reassembly\<close>

lemma frags_ofD:
  assumes "frags_of xs fs ys" "unfrag [] fs = (ms, r)" "xs \<noteq> []"
  shows "xs = ms @ glue r ys \<and> (ys = [] \<longrightarrow> r = [])"
  using assms unfolding frags_of_def by (metis glue_Nil)

lemma frags_limit:
  assumes "xs = ms @ glue r ys" "ys = [] \<longrightarrow> r = []" "\<forall>x\<in>set xs. length x \<le> n"
  shows "(\<forall>m\<in>set ms. length m \<le> n) \<and> length r \<le> n"
  using assms by (cases ys) auto

text \<open>C11. A message survives the way through the NCI data packets. When NFC_SendData queues a packet
  on a connection that may send (and no packet behind the first one is larger than the buffers of
  the controller), the loop returns; it writes packets whose payload fits the buffers of the
  controller, takes one credit for each of them, and stops only when the queue is empty or the credits are used
  up. Received in order on a connection with that identifier, these packets make the other side report
  exactly the queued messages that were sent completely, byte for byte and in order; the bytes that
  were not sent are still queued. Without flow control, or with as many credits as the queue has
  fragments, every queued message arrives.\<close>

theorem nci_data_roundtrip:
  assumes "nfc_find_conn_cb_by_conn_id cid s = Some i" "i < length (nc_conn_cb s)" "tx_allowed i s" "c = nc_conn_cb s ! i"
    "cc_conn_id c = cid" "q = cc_tx_q c @ [p]" "4 \<le> h_offset p" "tx_ok 1 (cc_buff_size c) q" "0 < cc_buff_size c"
    "\<forall>h\<in>set q. unat (h_len h) \<le> ras_limit" "\<forall>n. alloc n" "rx_conn t j cid" "ras_state t j None"
  shows "\<exists>s' c' fs t' ms r. NFC_SendData alloc cid (Some p) s = Some (NCI_STATUS_OK, s') \<and> nc_conn_cb s' ! i = c' \<and>
    nc_out s' = nc_out s @ map (frag_pkt cid) fs \<and>
    (\<forall>f\<in>set fs. length (snd f) \<le> unat (cc_buff_size c)) \<and>
    credits_used (cc_num_buff c) (cc_num_buff c') (length fs) \<and> (cc_tx_q c' = [] \<or> cc_num_buff c' = 0) \<and>
    recv_all (map (frag_pkt cid) fs) t = Some t' \<and>
    data_evts t' = data_evts t @ map (NFC_DATA_CEVT cid NCI_STATUS_OK) ms \<and>
    map payload q = ms @ glue r (map payload (cc_tx_q c')) \<and>
    (cc_num_buff c = NFC_CONN_NO_FC \<or> tx_frags (cc_buff_size c) q \<le> unat (cc_num_buff c) \<longrightarrow> ms = map payload q)"
proof -
  obtain c' fs s' where snd: "nfc_ncif_send_data alloc i (Some p) s = Some (NCI_STATUS_OK, s')"
    "s' = s \<lparr> nc_conn_cb := (nc_conn_cb s)[i := c'], nc_out := nc_out s @ map (frag_pkt cid) fs \<rparr>"
    "sent_ok (c \<lparr> cc_tx_q := q \<rparr>) c' fs"
    using send_data_spec [OF assms(2-4), of q "Some p" alloc] assms(5,6,8,9,11) by auto
  obtain ms r where u: "unfrag (got None) fs = (ms, r)" by (cases "unfrag (got None) fs")
  have parts: "map payload q = ms @ glue r (map payload (cc_tx_q c'))" "map payload (cc_tx_q c') = [] \<longrightarrow> r = []"
    using frags_ofD [of "map payload q" fs "map payload (cc_tx_q c')" ms r] snd(3) u assms(6) by (auto simp: sent_ok_def got_def)
  have "\<forall>x\<in>set (map payload q). length x \<le> ras_limit" using assms(8,10) by (auto simp: tx_ok_def length_payload)
  from frags_limit [OF parts this] have lim: "\<forall>m\<in>set ms. length m \<le> ras_limit" "length r \<le> ras_limit" by auto
  have small: "\<forall>f\<in>set fs. length (snd f) \<le> unat (cc_buff_size c)" using snd(3) by (simp add: sent_ok_def)
  then have "\<forall>f\<in>set fs. length (snd f) \<le> 255" using unat_byte_le [of "cc_buff_size c"] by (meson order_trans)
  then obtain t' where t': "recv_all (map (frag_pkt cid) fs) t = Some t'"
    "data_evts t' = data_evts t @ map (NFC_DATA_CEVT cid NCI_STATUS_OK) ms"
    using recv_all_spec [OF assms(12,13) _ u lim] by blast
  have "NFC_SendData alloc cid (Some p) s = Some (NCI_STATUS_OK, s')" using snd(1) assms(1,7) by (simp add: NFC_SendData_def)
  moreover have "nc_conn_cb s' ! i = c'" "nc_out s' = nc_out s @ map (frag_pkt cid) fs" using snd(2) assms(2) by simp_all
  moreover have "ms = map payload q" if "cc_num_buff c = NFC_CONN_NO_FC \<or> tx_frags (cc_buff_size c) q \<le> unat (cc_num_buff c)"
  proof -
    have "tx_frags B (h # hs) = Suc ((unat (h_len h) - 1) div unat B + tx_frags B hs)" for B h hs by (simp add: tx_frags_def)
    then have "cc_tx_q c' = []" using snd(3) that by (cases "cc_tx_q c'") (auto simp: sent_ok_def credits_used_def split: if_splits)
    then show ?thesis using parts by auto
  qed
  moreover have "credits_used (cc_num_buff c) (cc_num_buff c') (length fs)" "cc_tx_q c' = [] \<or> cc_num_buff c' = 0"
    using snd(3) by (simp_all add: sent_ok_def)
  ultimately show ?thesis using small t' parts(1) by blast
qed

section \<open>The table of control blocks\<close>

text \<open>Updates that keep the identifiers keep the table consistent.\<close>

lemma conns_ok_cong:
  assumes "conns_ok s" "map cc_conn_id (nc_conn_cb s') = map cc_conn_id (nc_conn_cb s)" "nc_conn_id s' = nc_conn_id s"
  shows "conns_ok s'"
proof -
  have l: "length (nc_conn_cb s') = length (nc_conn_cb s)" using assms(2) by (rule map_eq_imp_length_eq)
  have "cc_conn_id (nc_conn_cb s' ! k) = cc_conn_id (nc_conn_cb s ! k)" if "k < length (nc_conn_cb s)" for k
    using that l arg_cong [OF assms(2), of "\<lambda>xs. xs ! k"] by simp
  moreover have "unat h - 1 < length (nc_conn_cb s)" if "unat h \<le> NCI_MAX_CONN_CBS" for h :: u8
    using that assms(1) by (simp add: conns_ok_def NCI_MAX_CONN_CBS_def)
  ultimately show ?thesis using assms(1,3) l by (simp add: conns_ok_def)
qed

lemma conns_ok_upd_cb:
  assumes "conns_ok s" "\<And>c. cc_conn_id (f c) = cc_conn_id c"
  shows "conns_ok (upd_cb i f s)"
proof (rule conns_ok_cong [OF assms(1)])
  show "map cc_conn_id (nc_conn_cb (upd_cb i f s)) = map cc_conn_id (nc_conn_cb s)"
    using assms(2) by (simp add: map_update) (metis list_update_id map_update)
qed simp

lemma small_id: "j \<le> NFC_MAX_CONN_ID \<Longrightarrow> unat (of_nat j :: u8) = j"
  by (simp add: NFC_MAX_CONN_ID_def unat_of_nat_u8)

text \<open>A block that carries no identifier of the table has no entry.\<close>

lemma conns_ok_upd:
  assumes ok: "conns_ok s" and i: "i < NCI_MAX_CONN_CBS" and no: "\<forall>j\<le>NFC_MAX_CONN_ID. 0 < nc_conn_id s' ! j \<longrightarrow> nc_conn_id s' ! j = nc_conn_id s ! j"
    and un: "\<forall>j\<le>NFC_MAX_CONN_ID. 0 < nc_conn_id s' ! j \<longrightarrow> cc_conn_id (nc_conn_cb s ! i) \<noteq> of_nat j"
    and s': "nc_conn_cb s' = (nc_conn_cb s)[i := b]" "length (nc_conn_id s') = length (nc_conn_id s)"
  shows "conns_ok s'"
  unfolding conns_ok_def
proof (intro conjI allI impI)
  show "length (nc_conn_cb s') = NCI_MAX_CONN_CBS" "length (nc_conn_id s') = NFC_MAX_CONN_ID + 1"
    using ok s' by (auto simp: conns_ok_def)
  fix j
  assume j: "j \<le> NFC_MAX_CONN_ID" "0 < nc_conn_id s' ! j"
  let ?h = "nc_conn_id s ! j"
  have h: "nc_conn_id s' ! j = ?h" using no j by blast
  then have o: "unat ?h \<le> NCI_MAX_CONN_CBS" "cc_conn_id (nc_conn_cb s ! (unat ?h - 1)) = of_nat j"
    using ok j by (auto simp: conns_ok_def)
  then show "unat (nc_conn_id s' ! j) \<le> NCI_MAX_CONN_CBS" by (simp add: h)
  have "unat ?h - 1 \<noteq> i" using o(2) un j by auto
  then show "cc_conn_id (nc_conn_cb s' ! (unat (nc_conn_id s' ! j) - 1)) = of_nat j" using o s'(1) h by simp
qed

lemma alloc_ok: "conns_ok s \<Longrightarrow> nfc_alloc_conn_cb cback s = (r, s') \<Longrightarrow> conns_ok s'"
proof (cases "find_cb (\<lambda>c. cc_conn_id c = NFC_ILLEGAL_CONN_ID) (take (min NCI_MAX_CONN_CBS (unat (nc_max_conn s))) (nc_conn_cb s)) 0")
  case (Some i)
  assume ok: "conns_ok s" and s': "nfc_alloc_conn_cb cback s = (r, s')"
  have "i < NCI_MAX_CONN_CBS" "cc_conn_id (nc_conn_cb s ! i) = NFC_ILLEGAL_CONN_ID"
    using find_cb_Some [OF Some] ok by (auto simp: conns_ok_def)
  moreover have "NFC_ILLEGAL_CONN_ID \<noteq> of_nat j" if "j \<le> NFC_MAX_CONN_ID" for j
    using small_id [OF that] that by (auto simp: NFC_MAX_CONN_ID_def dest: sym)
  ultimately show "conns_ok s'" using ok s' Some by (intro conns_ok_upd [OF ok]) (auto simp: nfc_alloc_conn_cb_def Let_def)
qed (auto simp: nfc_alloc_conn_cb_def Let_def)

lemma free_ok:
  assumes "conns_ok s" "i < NCI_MAX_CONN_CBS"
  shows "conns_ok (nfc_free_conn_cb (Some i) s)"
proof -
  let ?w = "cc_conn_id (nc_conn_cb s ! i)"
  have id: "\<exists>k. ?w = of_nat k \<and> k \<le> NFC_MAX_CONN_ID" if "unat ?w \<le> NFC_MAX_CONN_ID"
    using that by (intro exI [of _ "unat ?w"]) simp
  show ?thesis
  proof (rule conns_ok_upd [OF assms])
    show "\<forall>j\<le>NFC_MAX_CONN_ID. 0 < nc_conn_id (nfc_free_conn_cb (Some i) s) ! j \<longrightarrow> ?w \<noteq> of_nat j"
      using assms(1) small_id by (auto simp: nfc_free_conn_cb_def Let_def conns_ok_def)
  qed (use assms(1) in \<open>auto simp: nfc_free_conn_cb_def Let_def conns_ok_def nth_list_update\<close>)
qed

lemma conn_create_ok: "conns_ok s \<Longrightarrow> NFC_ConnCreate sent dt id' pr cback s = (st, s') \<Longrightarrow> conns_ok s'"
proof -
  assume ok: "conns_ok s" and s': "NFC_ConnCreate sent dt id' pr cback s = (st, s')"
  obtain r s1 where a: "nfc_alloc_conn_cb cback s = (r, s1)" by (cases "nfc_alloc_conn_cb cback s")
  have ok1: "conns_ok s1" by (rule alloc_ok [OF ok a])
  have i: "i < NCI_MAX_CONN_CBS" if "r = Some i" for i
    using a that ok by (auto simp: nfc_alloc_conn_cb_def Let_def conns_ok_def dest!: find_cb_Some split: option.splits)
  show "conns_ok s'" using s' a ok1 i
    by (auto simp: NFC_ConnCreate_def Let_def intro!: free_ok conns_ok_upd_cb split: option.splits if_splits)
qed

lemma event_ok: "conns_ok (nc_event e s) \<longleftrightarrow> conns_ok s"
  by (simp add: conns_ok_def)

lemma reset_one_ok: "conns_ok s \<Longrightarrow> i < NCI_MAX_CONN_CBS \<Longrightarrow> conns_ok (reset_conn_cb i s)"
  by (simp add: reset_conn_cb_def Let_def event_ok free_ok)

lemma reset_all_ok: "conns_ok s \<Longrightarrow> conns_ok (nfc_reset_all_conn_cbs s)"
proof -
  have "conns_ok (fold reset_conn_cb is s)" if "conns_ok s" "\<forall>i\<in>set is. i < NCI_MAX_CONN_CBS" for "is"
    using that by (induction "is" arbitrary: s) (auto simp: reset_one_ok)
  then show "conns_ok s \<Longrightarrow> ?thesis" by (simp add: nfc_reset_all_conn_cbs_def)
qed

text \<open>An identifier is entered for a block that had none, or that very one.\<close>

lemma set_conn_id_ok:
  assumes ok: "conns_ok s" and i: "i < NCI_MAX_CONN_CBS" and w: "NFC_MAX_CONN_ID < unat (cc_conn_id (nc_conn_cb s ! i)) \<or> cc_conn_id (nc_conn_cb s ! i) = cid"
    and s': "nfc_set_conn_id (Some i) cid s = Some s'"
  shows "conns_ok s'"
proof -
  have cid: "unat cid \<le> NFC_MAX_CONN_ID" using s' by (auto simp: nfc_set_conn_id_def split: if_splits)
  have n: "unat (of_nat (Suc i) :: u8) = Suc i" using i by (simp add: NCI_MAX_CONN_CBS_def unat_of_nat_u8 del: of_nat_Suc)
  have s'_eq: "nc_conn_cb s' = (nc_conn_cb s)[i := (nc_conn_cb s ! i) \<lparr> cc_conn_id := cid \<rparr>]"
    "nc_conn_id s' = (nc_conn_id s)[unat cid := of_nat (Suc i)]"
    using s' cid by (auto simp: nfc_set_conn_id_def)
  show ?thesis unfolding conns_ok_def
  proof (intro conjI allI impI)
    show "length (nc_conn_cb s') = NCI_MAX_CONN_CBS" "length (nc_conn_id s') = NFC_MAX_CONN_ID + 1"
      using ok by (auto simp: conns_ok_def s'_eq)
    fix j
    assume j: "j \<le> NFC_MAX_CONN_ID" "0 < nc_conn_id s' ! j"
    have "unat (nc_conn_id s' ! j) \<le> NCI_MAX_CONN_CBS \<and> cc_conn_id (nc_conn_cb s' ! (unat (nc_conn_id s' ! j) - 1)) = of_nat j"
    proof (cases "j = unat cid")
      case True
      then have "nc_conn_id s' ! j = of_nat (Suc i)" using ok cid by (simp add: s'_eq conns_ok_def)
      then show ?thesis using True i n ok by (simp add: s'_eq conns_ok_def)
    next
      case False
      then have o: "nc_conn_id s' ! j = nc_conn_id s ! j" "unat (nc_conn_id s ! j) \<le> NCI_MAX_CONN_CBS"
        "cc_conn_id (nc_conn_cb s ! (unat (nc_conn_id s ! j) - 1)) = of_nat j"
        using ok j by (auto simp: s'_eq conns_ok_def)
      then have "unat (nc_conn_id s ! j) - 1 \<noteq> i" using w j(1) small_id [OF j(1)] False by auto
      then show ?thesis using o by (simp add: s'_eq)
    qed
    then show "unat (nc_conn_id s' ! j) \<le> NCI_MAX_CONN_CBS"
      "cc_conn_id (nc_conn_cb s' ! (unat (nc_conn_id s' ! j) - 1)) = of_nat j" by auto
  qed
qed

lemma create_rsp_ok:
  assumes ok: "conns_ok s" and s': "nfc_ncif_proc_conn_create_rsp m p s = Some s'"
  shows "conns_ok s'"
proof (cases "nfc_find_conn_cb_by_conn_id NFC_PEND_CONN_ID s")
  case (Some i)
  have i: "i < NCI_MAX_CONN_CBS" "cc_conn_id (nc_conn_cb s ! i) = NFC_PEND_CONN_ID" using find_conn_in [OF ok Some] by auto
  have ok1: "conns_ok (upd_cb i (\<lambda>c. c \<lparr> cc_buff_size := a, cc_num_buff := b, cc_init_credits := b \<rparr>) s)" for a b
    by (rule conns_ok_upd_cb [OF ok]) simp
  have sets: "conns_ok s1" if "nfc_set_conn_id (Some i) x (upd_cb i (\<lambda>c. c \<lparr> cc_buff_size := a, cc_num_buff := b, cc_init_credits := b \<rparr>) s) = Some s1"
    for a b x s1
    by (rule set_conn_id_ok [OF ok1 i(1) _ that]) (use i ok in \<open>simp add: conns_ok_def NFC_MAX_CONN_ID_def\<close>)
  show ?thesis using s' Some
    by (auto simp: nfc_ncif_proc_conn_create_rsp_def Let_def event_ok split: bind_splits if_splits
        intro: sets free_ok [OF ok1 i(1)])
qed (use ok s' in \<open>simp add: nfc_ncif_proc_conn_create_rsp_def\<close>)

lemma close_ok: "conns_ok s \<Longrightarrow> conns_ok (nfc_ncif_report_conn_close_evt cid st s)"
  using find_conn_in by (auto simp: nfc_ncif_report_conn_close_evt_def Let_def event_ok free_ok split: option.split)

lemma send_loop_id: "send_loop alloc pbf c out = Some r \<Longrightarrow> cc_conn_id (fst (snd r)) = cc_conn_id c"
  apply (erule send_loop.raw_induct [where P = "\<lambda>a p c out r. cc_conn_id (fst (snd r)) = cc_conn_id c", rotated])
  subgoal premises prems
    using prems(2) by (auto simp: Let_def dest!: prems(1) split: list.splits if_splits bind_splits)
  done

lemma send_data_ok: "conns_ok s \<Longrightarrow> nfc_ncif_send_data alloc i p s = Some (st, s') \<Longrightarrow> conns_ok s'"
proof -
  assume ok: "conns_ok s" and s': "nfc_ncif_send_data alloc i p s = Some (st, s')"
  have "conns_ok (upd_cb i (\<lambda>_. c') s \<lparr> nc_out := out \<rparr>)" if "cc_conn_id c' = cc_conn_id (nc_conn_cb s ! i)" for c' out
    by (rule conns_ok_cong [OF ok]) (use that in \<open>simp_all, metis list_update_id map_update\<close>)
  then show "conns_ok s'" using s' ok
    by (auto simp: nfc_ncif_send_data_def Let_def dest!: send_loop_id split: if_splits bind_splits)
qed

lemma NFC_SendData_ok: "conns_ok s \<Longrightarrow> NFC_SendData alloc cid p s = Some (st, s') \<Longrightarrow> conns_ok s'"
  by (auto simp: NFC_SendData_def intro: send_data_ok split: option.splits if_splits)

lemma flush_ok: "conns_ok s \<Longrightarrow> NFC_FlushData cid s = (st, s') \<Longrightarrow> conns_ok s'"
  by (auto simp: NFC_FlushData_def conns_ok_upd_cb split: option.splits)

lemma credits_loop_ok: "credits_loop alloc m p n s = Some s' \<Longrightarrow> conns_ok s \<Longrightarrow> conns_ok s'"
proof (induction n arbitrary: p s)
  case (Suc n)
  have upd: "conns_ok t" if "nfc_ncif_send_data alloc i None (upd_cb i (\<lambda>c. c \<lparr> cc_num_buff := cc_num_buff c + k \<rparr>) s) = Some (st, t)" for i k st t
    by (rule send_data_ok [OF _ that]) (simp add: conns_ok_upd_cb Suc.prems(2))
  then show ?case using Suc by (auto split: bind_splits option.splits if_splits)
qed simp

lemma credits_ok: "conns_ok s \<Longrightarrow> nfc_ncif_proc_credits alloc m p plen s = Some s' \<Longrightarrow> conns_ok s'"
  by (auto simp: nfc_ncif_proc_credits_def intro: credits_loop_ok split: bind_splits if_splits)

lemma event_loop_ok: "data_event_loop c q s = Some (q', s') \<Longrightarrow> conns_ok s \<Longrightarrow> conns_ok s'"
proof (induction c q s rule: data_event_loop.induct)
  case (2 c e q s)
  then show ?case by (auto simp: Let_def event_ok conns_ok_def split: bind_splits if_splits)
qed simp

lemma data_event_ok: "conns_ok s \<Longrightarrow> nfc_data_event i s = Some s' \<Longrightarrow> conns_ok s'"
  by (auto simp: nfc_data_event_def Let_def dest!: event_loop_ok intro!: conns_ok_upd_cb split: bind_splits if_splits)

lemma reassembly_ok: "conns_ok (s \<lparr> nc_reassembly := b \<rparr>) \<longleftrightarrow> conns_ok s"
  by (simp add: conns_ok_def)

lemma proc_data_ok: "conns_ok s \<Longrightarrow> nfc_ncif_proc_data alloc m s = Some s' \<Longrightarrow> conns_ok s'"
  by (auto simp: nfc_ncif_proc_data_def Let_def event_ok NFC_SetReassemblyFlag_def reassembly_ok
      split: bind_splits if_splits option.splits elim!: data_event_ok [rotated] intro!: conns_ok_upd_cb)

section \<open>Reachable tables\<close>

text \<open>The table after \<open>NFC_Init\<close>; the controller has reported the number of connections \<open>mx\<close>.\<close>

definition nc_init :: "u8 \<Rightarrow> nfc_conns" where
  "nc_init mx =
    \<lparr> nc_conn_cb = replicate NCI_MAX_CONN_CBS
        \<lparr> cc_cback = False, cc_tx_q = [], cc_rx_q = [], cc_id = 0, cc_act_protocol = 0, cc_act_interface = 0,
          cc_conn_id = NFC_ILLEGAL_CONN_ID, cc_buff_size = 0, cc_num_buff = 0, cc_init_credits = 0 \<rparr>,
      nc_conn_id = replicate (NFC_MAX_CONN_ID + 1) 0, nc_max_conn = mx, nc_state = NFC_STATE_NONE, nc_flags = 0,
      nc_reassembly = True, nc_version = 0, nc_out = [], nc_events = [] \<rparr>"

text \<open>The operations on the table in any order. The static connections get their fixed identifier while
  their block has no other one; everything else the stack does to a block (protocol, state, flags,
  credits at activation) keeps the identifiers.\<close>

inductive conn_reach :: "nfc_conns \<Rightarrow> bool" where
  init: "conn_reach (nc_init mx)"
| static: "conn_reach s \<Longrightarrow> i < NCI_MAX_CONN_CBS \<Longrightarrow> cc_conn_id (nc_conn_cb s ! i) \<in> {NFC_ILLEGAL_CONN_ID, of_nat i} \<Longrightarrow>
    nfc_set_conn_id (Some i) (of_nat i) s = Some s' \<Longrightarrow> conn_reach s'"
| other: "conn_reach s \<Longrightarrow> map cc_conn_id (nc_conn_cb s') = map cc_conn_id (nc_conn_cb s) \<Longrightarrow> nc_conn_id s' = nc_conn_id s \<Longrightarrow> conn_reach s'"
| create: "conn_reach s \<Longrightarrow> NFC_ConnCreate sent dt id' pr cback s = (st, s') \<Longrightarrow> conn_reach s'"
| create_rsp: "conn_reach s \<Longrightarrow> nfc_ncif_proc_conn_create_rsp m p s = Some s' \<Longrightarrow> conn_reach s'"
| close: "conn_reach s \<Longrightarrow> conn_reach (nfc_ncif_report_conn_close_evt cid st s)"
| free: "conn_reach s \<Longrightarrow> i < NCI_MAX_CONN_CBS \<Longrightarrow> conn_reach (nfc_free_conn_cb (Some i) s)"
| reset: "conn_reach s \<Longrightarrow> conn_reach (nfc_reset_all_conn_cbs s)"
| send: "conn_reach s \<Longrightarrow> NFC_SendData al cid d s = Some (st, s') \<Longrightarrow> conn_reach s'"
| flush: "conn_reach s \<Longrightarrow> NFC_FlushData cid s = (st, s') \<Longrightarrow> conn_reach s'"
| credits: "conn_reach s \<Longrightarrow> nfc_ncif_proc_credits al m p plen s = Some s' \<Longrightarrow> conn_reach s'"
| data: "conn_reach s \<Longrightarrow> nfc_ncif_proc_data ab h s = Some s' \<Longrightarrow> conn_reach s'"
| rf_cback: "conn_reach s \<Longrightarrow> NFC_SetStaticRfCback cback s = Some s' \<Longrightarrow> conn_reach s'"

lemma conn_init_ok: "conns_ok (nc_init mx)"
  by (simp add: nc_init_def conns_ok_def NFC_MAX_CONN_ID_def)

lemma rf_cback_ok: "conns_ok s \<Longrightarrow> NFC_SetStaticRfCback cback s = Some s' \<Longrightarrow> conns_ok s'"
  unfolding NFC_SetStaticRfCback_def by (erule data_event_ok [rotated]) (simp add: conns_ok_upd_cb)

lemmas conn_op_ok = conn_create_ok create_rsp_ok close_ok free_ok reset_all_ok NFC_SendData_ok flush_ok credits_ok proc_data_ok rf_cback_ok

lemma conn_reach_ok: "conn_reach s \<Longrightarrow> conns_ok s"
proof (induction rule: conn_reach.induct)
  case (static s i s')
  have "NFC_MAX_CONN_ID < unat NFC_ILLEGAL_CONN_ID" by (simp add: NFC_MAX_CONN_ID_def)
  then show ?case using static by (intro set_conn_id_ok [OF static.IH static.hyps(2) _ static.hyps(4)]) auto
next
  case (other s s')
  show ?case by (rule conns_ok_cong [OF other.IH other.hyps(2,3)])
qed (rule conn_init_ok | erule close_ok reset_all_ok | (erule conn_op_ok, assumption))+


text \<open>A connection is opened: the controller answers with buffers of three bytes, two credits and
  identifier 4.\<close>

definition ex_conns :: nfc_conns where
  "ex_conns = (case nfc_ncif_proc_conn_create_rsp [0x40, 0x04, 0x04, 0x00, 0x03, 0x02, 0x04] 0 (snd (NFC_ConnCreate True 2 0x10 4 True (nc_init 4))) of
     Some s \<Rightarrow> s | None \<Rightarrow> nc_init 0)"

lemmas nc_eval = nc_init_def nfc_alloc_conn_cb_def NCI_MAX_CONN_CBS_def NFC_MAX_CONN_ID_def upd_cb_def nfc_find_conn_cb_by_conn_id_def
  nfc_set_conn_id_def nfc_ncif_proc_conn_create_rsp_def nc_event_def rd8_def

lemma ex_conns_eq:
  "ex_conns = (nc_init 4) \<lparr> nc_conn_cb := (nc_conn_cb (nc_init 4))[0 :=
      (nc_conn_cb (nc_init 4) ! 0) \<lparr> cc_cback := True, cc_id := 0x10, cc_act_protocol := 4, cc_conn_id := 4, cc_buff_size := 3, cc_num_buff := 2, cc_init_credits := 2 \<rparr>],
      nc_conn_id := (nc_conn_id (nc_init 4))[4 := 1], nc_events := [NFC_CONN_CREATE_CEVT 4 0 0x10] \<rparr>"
  unfolding ex_conns_def nc_init_def by code_simp

lemma ex_conns_reach: "conn_reach ex_conns"
proof -
  let ?c = "NFC_ConnCreate True 2 0x10 4 True (nc_init 4)"
  have "conn_reach (snd ?c)" by (rule conn_reach.create [OF conn_reach.init, where st = "fst ?c"]) simp
  then show ?thesis unfolding ex_conns_def by (auto intro: conn_reach.create_rsp conn_reach.init split: option.split)
qed


definition ex_pkt :: nfc_hdr where
  "ex_pkt = \<lparr> h_event = 0, h_len = 5, h_offset = 4, h_layer = 0, h_data = [0, 0, 0, 0, 1, 2, 3, 4, 5] \<rparr>"

theorem nci_data_roundtrip_witness:
  "\<exists>s' fs t'. NFC_SendData (\<lambda>_. True) 4 (Some ex_pkt) ex_conns = Some (NCI_STATUS_OK, s') \<and> nc_out s' = map (frag_pkt 4) fs \<and>
     recv_all (map (frag_pkt 4) fs) ex_conns = Some t' \<and> data_evts t' = [NFC_DATA_CEVT 4 NCI_STATUS_OK [1, 2, 3, 4, 5]]"
proof -
  let ?c = "nc_conn_cb ex_conns ! 0"
  have c: "cc_conn_id ?c = 4" "cc_tx_q ?c = []" "cc_rx_q ?c = []" "cc_buff_size ?c = 3" "cc_num_buff ?c = 2" "cc_cback ?c" "cc_id ?c = 0x10"
    "0 < length (nc_conn_cb ex_conns)" "nc_flags ex_conns = 0" "data_evts ex_conns = []" "nc_out ex_conns = []"
    by (simp_all add: ex_conns_eq nc_eval data_evts_def)
  have p: "payload ex_pkt = [1, 2, 3, 4, 5]" "tx_ok 1 3 [ex_pkt]" "tx_frags 3 [ex_pkt] = 2" "unat (h_len ex_pkt) \<le> ras_limit" "4 \<le> h_offset ex_pkt"
    by (simp_all add: ex_pkt_def payload_def tx_ok_def hdr_ok_def tx_frags_def ras_limit_def GKI_MAX_BUF_SIZE_def)
  have f: "nfc_find_conn_cb_by_conn_id 4 ex_conns = Some 0" by (simp add: ex_conns_eq nc_eval Let_def)
  have rx: "rx_conn ex_conns 0 4" "ras_state ex_conns 0 None" using c f by (simp_all add: rx_conn_def no_status_def ras_state_def)
  have tx: "tx_allowed 0 ex_conns" using c by (simp add: tx_allowed_def)
  show ?thesis
    using nci_data_roundtrip [OF f c(8) tx refl c(1) _ p(5) _ _ _ _ rx, of "[ex_pkt]" "\<lambda>_. True"] c p by auto
qed

section \<open>Limits of the code\<close>

text \<open>The packet boundary flag is not set again for the next packet: two packets are queued
  without credits, and when the controller grants three, the first fragment of the second packet is
  sent with the flag of a last fragment.\<close>

definition ex_pkt2 :: "mem \<Rightarrow> nfc_hdr" where
  "ex_pkt2 b = \<lparr> h_event = 0, h_len = of_nat (length b), h_offset = 4, h_layer = 0, h_data = [0, 0, 0, 0] @ b \<rparr>"

lemma send_pbf_not_reset:
  "send_loop (\<lambda>_. True) 1 \<lparr> cc_cback = True, cc_tx_q = [ex_pkt2 [1, 2], ex_pkt2 [3, 4, 5, 6]], cc_rx_q = [], cc_id = 0x10,
      cc_act_protocol = 4, cc_act_interface = 0, cc_conn_id = 4, cc_buff_size = 3, cc_num_buff = 3, cc_init_credits = 3 \<rparr> [] =
    Some (NCI_STATUS_OK, \<lparr> cc_cback = True, cc_tx_q = [], cc_rx_q = [], cc_id = 0x10, cc_act_protocol = 4, cc_act_interface = 0,
      cc_conn_id = 4, cc_buff_size = 3, cc_num_buff = 0, cc_init_credits = 3 \<rparr>,
      [frag_pkt 4 (False, [1, 2]), frag_pkt 4 (False, [3, 4, 5]), frag_pkt 4 (False, [6])])"
  unfolding ex_pkt2_def by code_simp

text \<open>The controller may assign connection identifier 15, which no lookup finds.\<close>

lemma conn_id_15_lost:
  "nfc_find_conn_cb_by_conn_id 15 s = None"
  "\<exists>s. nfc_ncif_proc_conn_create_rsp [0x40, 0x04, 0x04, 0x00, 0x03, 0x02, 0x0F] 0 (snd (NFC_ConnCreate True 2 0x10 4 True (nc_init 4))) = Some s \<and>
     nc_events s = [NFC_CONN_CREATE_CEVT 15 NCI_STATUS_OK 0x10] \<and> cc_conn_id (nc_conn_cb s ! 0) = 15"
proof -
  show "nfc_find_conn_cb_by_conn_id 15 s = None" by (simp add: nfc_find_conn_cb_by_conn_id_def NFC_MAX_CONN_ID_def)
  have "map_option (\<lambda>s. (nc_events s, cc_conn_id (nc_conn_cb s ! 0))) (nfc_ncif_proc_conn_create_rsp [0x40, 0x04, 0x04, 0x00, 0x03, 0x02, 0x0F] 0
      (snd (NFC_ConnCreate True 2 0x10 4 True (nc_init 4)))) = Some ([NFC_CONN_CREATE_CEVT 15 NCI_STATUS_OK 0x10], 15)" by code_simp
  then show "\<exists>s. nfc_ncif_proc_conn_create_rsp [0x40, 0x04, 0x04, 0x00, 0x03, 0x02, 0x0F] 0 (snd (NFC_ConnCreate True 2 0x10 4 True (nc_init 4))) = Some s \<and>
     nc_events s = [NFC_CONN_CREATE_CEVT 15 NCI_STATUS_OK 0x10] \<and> cc_conn_id (nc_conn_cb s ! 0) = 15" by auto
qed

text \<open>A controller that reports buffers of size 0 and no flow control makes the loop run forever.\<close>

lemma send_loop_diverges:
  assumes "cc_buff_size c = 0" "cc_num_buff c = NFC_CONN_NO_FC" "cc_tx_q c \<noteq> []" "h_len (hd (cc_tx_q c)) \<noteq> 0" "\<forall>n. alloc n"
  shows "send_loop alloc pbf c out = None"
proof -
  let ?P = "\<lambda>a p c out r. \<not> (cc_buff_size c = 0 \<and> cc_num_buff c = NFC_CONN_NO_FC \<and> cc_tx_q c \<noteq> [] \<and> h_len (hd (cc_tx_q c)) \<noteq> 0 \<and> (\<forall>n. a n))"
  have "?P alloc pbf c out r" if "send_loop alloc pbf c out = Some r" for r
    using that
    apply (rule send_loop.raw_induct [where P = ?P, rotated])
    subgoal premises prems
      using prems(2) by (auto simp: Let_def dec_credit_def dest!: prems(1) split: list.splits if_splits bind_splits)
    done
  then show ?thesis using assms by (cases "send_loop alloc pbf c out") auto
qed

text \<open>When the last fragment of a message no longer fits, the fragments before it are reported as
  incomplete and the last one waits in the queue until another packet arrives.\<close>

lemma last_fragment_waits:
  assumes c: "rx_conn s i cid" "cid \<noteq> NFC_RF_CONN_ID" and h: "cc_rx_q (nc_conn_cb s ! i) = [h]" "h_layer h = NFC_RAS_FRAGMENTED" "rx_holds h acc"
    and m: "rx_holds m b" "h_data m ! 10 = cid" and full: "length (h_data h) < 13 + length acc + length b"
  shows "\<exists>s'. nfc_ncif_proc_data False m s = Some s' \<and> cc_rx_q (nc_conn_cb s' ! i) = [m \<lparr> h_layer := 0 \<rparr>] \<and>
    nc_events s' = nc_events s @ [NFC_DATA_CEVT cid NFC_STATUS_CONTINUE acc]"
proof -
  let ?h = "h \<lparr> h_layer := h_layer h OR NFC_RAS_TOO_BIG \<rparr>"
  have low: "cid AND 0x0F = cid" and fnd: "nfc_find_conn_cb_by_conn_id cid s = Some i" using c by (auto simp: rx_conn_def)
  have rd: "rd8 (h_data m) (unat (h_offset m)) = Some cid" "\<exists>x. rd8 (h_data m) (unat (h_offset m) + 2) = Some x" "3 \<le> h_len m" "unat (h_len m - 3) = length b"
    using m by (auto simp: rx_holds_def rd8_def GKI_MAX_BUF_SIZE_def word_le_nat_alt unat_minus3)
  have room: "ras_room False h (length b) = Some ?h" using full h(3) by (simp add: ras_room_def buf_size_def rx_holds_def)
  have un: "unat (h_offset h + 3) = 13" "unat (h_len h - 3) = length acc" using h(3) by (simp_all add: rx_holds_def unat_minus3)
  let ?s = "upd_cb i (\<lambda>c. c \<lparr> cc_rx_q := [?h] \<rparr>) s"
  have "nfc_data_event i ?s = Some (upd_cb i (\<lambda>c. c \<lparr> cc_rx_q := [] \<rparr>) (nc_event (NFC_DATA_CEVT cid NFC_STATUS_CONTINUE acc) ?s))"
    using c h(2) un holds_read [OF h(3)] by (simp add: nfc_data_event_def rx_conn_def data_status_def Let_def upd_cb_def nc_event_def)
  then show ?thesis using rd(2-4) room h(1,2) c(1) flag_bits(3) [OF low]
    unfolding nfc_ncif_proc_data_def rd(1) bind.bind_lunit Let_def low fnd flag_bits(3) [OF low] drop_bit_of_0
    by (auto simp: upd_cb_def nc_event_def rx_conn_def)
qed

end
