(* ===== verification/NciSafe.thy ===== *)
theory NciSafe
  imports NciFlow NciRequests OptionWp
begin

text \<open>
  The operations of the data path and of the command queue stay inside their buffers and tables whatever the
  controller sends: the invariant of buffers and queues they rely on, and that each of them keeps it.
\<close>

section \<open>The invariant\<close>

text \<open>A buffer of the receive queue holds a packet with its header, at the offset at which the transport
  puts it.\<close>

definition rxb_ok :: "nfc_hdr \<Rightarrow> bool" where
  "rxb_ok h \<longleftrightarrow> h_offset h = 10 \<and> 3 \<le> unat (h_len h) \<and> 10 + unat (h_len h) \<le> length (h_data h) \<and>
     length (h_data h) \<in> {652, GKI_MAX_BUF_SIZE - 8}"

lemma rxb_ok_layer [simp]: "rxb_ok (h \<lparr> h_layer := l \<rparr>) = rxb_ok h"
  by (simp add: rxb_ok_def)

definition conn_ok :: "conn_cb \<Rightarrow> bool" where
  "conn_ok c \<longleftrightarrow> (\<forall>h\<in>set (cc_rx_q c). rxb_ok h) \<and> (\<forall>h\<in>set (cc_tx_q c). hdr_ok h) \<and> (cc_tx_q c = [] \<or> 0 < cc_buff_size c)"

definition base_safe :: "nfc_conns \<Rightarrow> bool" where
  "base_safe b \<longleftrightarrow> conns_ok b \<and> (\<forall>c\<in>set (nc_conn_cb b). conn_ok c)"

definition nci_safe :: "nci_cb \<Rightarrow> bool" where
  "nci_safe n \<longleftrightarrow> base_safe (nci_base n) \<and> q_ok n \<and> pend_ok n \<and> length (nci_last_hdr n) = 2 \<and> length (nci_last_cmd n) = 2 \<and>
     length (nci_last_nfcee_cmd n) = 2"

lemma base_safe_upd_cb:
  assumes "base_safe b" "\<And>c. cc_conn_id (f c) = cc_conn_id c" "i < NCI_MAX_CONN_CBS \<Longrightarrow> conn_ok (nc_conn_cb b ! i) \<Longrightarrow> conn_ok (f (nc_conn_cb b ! i))"
  shows "base_safe (upd_cb i f b)"
proof (cases "i < NCI_MAX_CONN_CBS")
  case True
  then have "nc_conn_cb b ! i \<in> set (nc_conn_cb b)" using assms(1) by (simp add: base_safe_def conns_ok_def)
  then show ?thesis using assms True set_update_subset_insert [of "nc_conn_cb b" i] conns_ok_upd_cb [of b f i]
    by (fastforce simp: base_safe_def)
next
  case False
  then have "nc_conn_cb (upd_cb i f b) = nc_conn_cb b" using assms(1) by (simp add: base_safe_def conns_ok_def list_update_beyond)
  then show ?thesis using assms(1,2) conns_ok_upd_cb [of b f i] by (simp add: base_safe_def)
qed

lemma base_safe_cong: "nc_conn_cb b' = nc_conn_cb b \<Longrightarrow> nc_conn_id b' = nc_conn_id b \<Longrightarrow> base_safe b' = base_safe b"
  by (simp add: base_safe_def conns_ok_def)

lemma base_safe_upd [simp]:
  "base_safe (nc_event e b) = base_safe b" "base_safe (b \<lparr> nc_reassembly := r \<rparr>) = base_safe b"
  "base_safe (b \<lparr> nc_state := st \<rparr>) = base_safe b" "base_safe (b \<lparr> nc_version := v \<rparr>) = base_safe b"
  "base_safe (b \<lparr> nc_flags := fl \<rparr>) = base_safe b" "base_safe (b \<lparr> nc_max_conn := mx \<rparr>) = base_safe b"
  "base_safe (b \<lparr> nc_out := os \<rparr>) = base_safe b" "base_safe (NFC_SetReassemblyFlag r b) = base_safe b"
  by (auto simp: NFC_SetReassemblyFlag_def intro!: base_safe_cong)

lemma upd_cb_flags [simp]: "nc_flags (upd_cb i f b) = nc_flags b" "nc_state (upd_cb i f b) = nc_state b" "nc_flags (nc_event e b) = nc_flags b"
  by (simp_all add: upd_cb_def nc_event_def)

lemma base_safe_nth: "base_safe b \<Longrightarrow> i < NCI_MAX_CONN_CBS \<Longrightarrow> conn_ok (nc_conn_cb b ! i)"
  by (simp add: base_safe_def conns_ok_def)

lemma base_safe_find: "base_safe b \<Longrightarrow> nfc_find_conn_cb_by_conn_id cid b = Some i \<Longrightarrow> i < NCI_MAX_CONN_CBS"
  using find_conn_in by (auto simp: base_safe_def)

lemma free_flags [simp]: "nc_flags (nfc_free_conn_cb p b) = nc_flags b"
  by (simp add: nfc_free_conn_cb_def Let_def split: option.split)

lemma free_safe:
  assumes "base_safe b" "i < NCI_MAX_CONN_CBS"
  shows "base_safe (nfc_free_conn_cb (Some i) b)"
proof -
  let ?f = "\<lambda>c. c \<lparr> cc_rx_q := [], cc_tx_q := [], cc_cback := False, cc_conn_id := NFC_ILLEGAL_CONN_ID \<rparr>"
  have "nc_conn_cb (nfc_free_conn_cb (Some i) b) = (nc_conn_cb b)[i := ?f (nc_conn_cb b ! i)]"
    by (simp add: nfc_free_conn_cb_def Let_def)
  then show ?thesis using assms free_ok [of b i] set_update_subset_insert [of "nc_conn_cb b" i "?f (nc_conn_cb b ! i)"]
    by (auto simp: base_safe_def conn_ok_def)
qed

lemma reset_all_safe: "base_safe b \<Longrightarrow> base_safe (nfc_reset_all_conn_cbs b)"
proof -
  have "base_safe (fold reset_conn_cb ks b)" if "base_safe b" "\<forall>i\<in>set ks. i < NCI_MAX_CONN_CBS" for ks
    using that by (induction ks arbitrary: b) (auto simp: reset_conn_cb_def Let_def free_safe)
  then show "base_safe b \<Longrightarrow> ?thesis" by (simp add: nfc_reset_all_conn_cbs_def)
qed

lemma close_safe: "base_safe b \<Longrightarrow> base_safe (nfc_ncif_report_conn_close_evt cid st b)"
  by (auto simp: nfc_ncif_report_conn_close_evt_def Let_def free_safe base_safe_find split: option.split)

lemma error_status_safe: "base_safe b \<Longrightarrow> base_safe (nfc_ncif_error_status cid st b)"
  by (auto simp: nfc_ncif_error_status_def split: option.split)

section \<open>Sending under credits\<close>

lemma send_loop_safe:
  assumes "\<forall>h\<in>set (cc_tx_q c). hdr_ok h" "cc_tx_q c = [] \<or> 0 < cc_buff_size c"
  shows "wp (send_loop alloc pbf c out) (\<lambda>(st, c', out'). (\<forall>h\<in>set (cc_tx_q c'). hdr_ok h) \<and> (cc_tx_q c' = [] \<or> 0 < cc_buff_size c') \<and>
    cc_rx_q c' = cc_rx_q c \<and> cc_conn_id c' = cc_conn_id c)"
  using assms
proof (induction "tx_todo (cc_tx_q c)" arbitrary: c pbf out rule: less_induct)
  case less
  let ?B = "cc_buff_size c"
  show ?case
  proof (cases "cc_tx_q c = [] \<or> cc_num_buff c = 0")
    case True
    then have "send_loop alloc pbf c out = Some (NCI_STATUS_OK, c, out)" by (subst send_loop.simps) (auto split: list.split)
    then show ?thesis using less.prems by (simp add: wp_def)
  next
    case False
    then obtain p q where q: "cc_tx_q c = p # q" and n: "0 < cc_num_buff c" by (cases "cc_tx_q c") (auto simp: word_gt_0)
    have p: "hdr_ok p" using less.prems(1) q by simp
    show ?thesis
    proof (cases "h_len p \<le> ucast ?B")
      case True
      let ?c = "c \<lparr> cc_tx_q := q, cc_num_buff := dec_credit (cc_num_buff c) \<rparr>"
      have "send_loop alloc pbf c out = send_loop alloc 0 ?c (out @ [nci_data_hdr 0 (cc_conn_id c) (ucast (h_len p)) @ payload p])"
        using True n data_write_spec [OF p] by (subst send_loop.simps) (simp add: q)
      then show ?thesis using less.hyps [of ?c] less.prems by (simp add: q tx_todo_def)
    next
      case False
      then have B: "unat ?B \<le> unat (h_len p)" by (simp add: word_le_nat_alt unat_ucast_u8)
      obtain f where f: "nci_new_fragment p ?B = Some f" "hdr_ok f" using new_fragment_spec [OF p B] by blast
      define p' where "p' = p \<lparr> h_len := h_len p - ucast ?B, h_offset := h_offset p + ucast ?B \<rparr>"
      have p': "hdr_ok p'" "unat (h_len p') = unat (h_len p) - unat ?B" using advance_spec [OF p B] by (auto simp: p'_def)
      let ?c = "c \<lparr> cc_tx_q := p' # q, cc_num_buff := dec_credit (cc_num_buff c) \<rparr>"
      have pos: "0 < unat ?B" using less.prems(2) q by (simp add: word_less_nat_alt)
      show ?thesis
      proof (cases "alloc (length out)")
        case True
        then have "send_loop alloc pbf c out = send_loop alloc pbf ?c (out @ [nci_data_hdr pbf (cc_conn_id c) ?B @ payload f])"
          using False n f data_write_spec [OF f(2)] by (subst send_loop.simps) (simp add: q p'_def [symmetric] Let_def)
        then show ?thesis using less.hyps [of ?c] less.prems p' pos B by (simp add: q tx_todo_def)
      next
        case no: False
        then have "send_loop alloc pbf c out = Some (NCI_STATUS_BUFFER_FULL, c, out)"
          using False n by (subst send_loop.simps) (simp add: q)
        then show ?thesis using less.prems by (simp add: wp_def)
      qed
    qed
  qed
qed

lemma send_any_safe:
  assumes "base_safe b" "i < NCI_MAX_CONN_CBS" "p = None \<or> (\<exists>h. p = Some h \<and> hdr_ok h \<and> 0 < cc_buff_size (nc_conn_cb b ! i))"
  shows "wp (nfc_ncif_send_data alloc i p b) (\<lambda>(st, b'). base_safe b' \<and> nc_flags b' = nc_flags b)"
proof -
  let ?c = "nc_conn_cb b ! i"
  let ?d = "?c \<lparr> cc_tx_q := cc_tx_q ?c @ (case p of None \<Rightarrow> [] | Some h \<Rightarrow> [h]) \<rparr>"
  have c: "conn_ok ?c" by (rule base_safe_nth [OF assms(1,2)])
  have q: "\<forall>h\<in>set (cc_tx_q ?d). hdr_ok h" "cc_tx_q ?d = [] \<or> 0 < cc_buff_size ?d" using c assms(3) by (auto simp: conn_ok_def)
  obtain st c' out where r: "send_loop alloc 1 ?d [] = Some (st, c', out)" "\<forall>h\<in>set (cc_tx_q c'). hdr_ok h" "cc_tx_q c' = [] \<or> 0 < cc_buff_size c'"
    "cc_rx_q c' = cc_rx_q ?c" "cc_conn_id c' = cc_conn_id ?c"
    using send_loop_safe [OF q, of alloc 1 "[]"] by (auto simp: wp_def)
  have "upd_cb i (\<lambda>_. c') b = upd_cb i (\<lambda>c. if c = ?c then c' else c) b" by (simp add: upd_cb_def)
  moreover have "base_safe (upd_cb i (\<lambda>c. if c = ?c then c' else c) b)"
    by (rule base_safe_upd_cb [OF assms(1)]) (use r c in \<open>auto simp: conn_ok_def\<close>)
  ultimately show ?thesis using r(1) assms(1) by (auto simp: nfc_ncif_send_data_def Let_def wp_def)
qed

lemmas send_data_safe = send_any_safe [where p = None, simplified]

lemma credits_loop_safe:
  "base_safe b \<Longrightarrow> p + 2 * n \<le> length m \<Longrightarrow> wp (credits_loop alloc m p n b) (\<lambda>b'. base_safe b' \<and> nc_flags b' = nc_flags b)"
proof (induction n arbitrary: p b)
  case (Suc n)
  have upd: "base_safe (upd_cb i (\<lambda>c. c \<lparr> cc_num_buff := cc_num_buff c + k \<rparr>) b)" for i k
    using Suc.prems(1) by (auto intro!: base_safe_upd_cb simp: conn_ok_def)
  have IH: "base_safe b' \<Longrightarrow> nc_flags b' = nc_flags b \<Longrightarrow>
      q = p + 2 \<Longrightarrow> wp (credits_loop alloc m q n b') (\<lambda>b'. base_safe b' \<and> nc_flags b' = nc_flags b)" for b' q
    using Suc.IH [of b' q] Suc.prems(2) by simp
  show ?case unfolding credits_loop.simps
    by (intro wp_intros) (use Suc.prems base_safe_find in \<open>auto intro!: IH wp_intros wp_call [OF send_data_safe [OF upd]]\<close>)
qed (simp add: wp_def)

lemma credits_safe:
  assumes "base_safe b" "p + unat plen \<le> length m"
  shows "wp (nfc_ncif_proc_credits alloc m p plen b) (\<lambda>b'. base_safe b' \<and> nc_flags b' = nc_flags b)"
proof -
  have "unat (plen - 1) = unat plen - 1" "0 < unat plen" if "plen \<noteq> 0" using that by (simp_all add: unat_minus_one unat_gt_0)
  then show ?thesis unfolding nfc_ncif_proc_credits_def
    by (intro wp_intros credits_loop_safe) (use assms in auto)
qed

section \<open>Reassembly\<close>

lemma data_status_safe:
  assumes "unat (h_offset e) + unat (h_len e) \<le> length (h_data e)"
  shows "wp (data_status s c e st) (\<lambda>(st, len). unat len \<le> unat (h_len e))"
proof -
  have "unat (h_len e - 1) = unat (h_len e) - 1" "0 < unat (h_len e)" if "h_len e \<noteq> 0"
    using that by (simp_all add: unat_minus_one unat_gt_0)
  then show ?thesis unfolding data_status_def by (intro wp_intros) (use assms in auto)
qed

lemma event_loop_safe:
  "\<forall>h\<in>set q. rxb_ok h \<Longrightarrow> base_safe b \<Longrightarrow> wp (data_event_loop c q b) (\<lambda>(q', b'). (\<forall>h\<in>set q'. rxb_ok h) \<and> base_safe b' \<and>
     nc_conn_cb b' = nc_conn_cb b \<and> nc_flags b' = nc_flags b)"
proof (induction q arbitrary: b)
  case (Cons e q)
  let ?e = "e \<lparr> h_offset := h_offset e + 3, h_len := h_len e - 3 \<rparr>"
  have u: "unat (h_offset ?e) = 13" "unat (h_len ?e) = unat (h_len e) - 3" "13 + unat (h_len ?e) \<le> length (h_data e)"
    using Cons.prems(1) by (auto simp: rxb_ok_def unat_minus3)
  have IH: "base_safe b' \<Longrightarrow> nc_conn_cb b' = nc_conn_cb b \<Longrightarrow> nc_flags b' = nc_flags b \<Longrightarrow> wp (data_event_loop c q b') (\<lambda>(q', b'). (\<forall>h\<in>set q'. rxb_ok h) \<and> base_safe b' \<and>
     nc_conn_cb b' = nc_conn_cb b \<and> nc_flags b' = nc_flags b)" for b'
    using Cons.IH [of b'] Cons.prems(1) by simp
  show ?case unfolding data_event_loop.simps
    by (intro wp_intros wp_call [OF data_status_safe]) (use Cons.prems u in \<open>auto intro!: wp_intros IH simp: \<close>)
qed (simp add: wp_def)

lemma data_event_safe:
  assumes "base_safe b" "i < NCI_MAX_CONN_CBS"
  shows "wp (nfc_data_event i b) (\<lambda>b'. base_safe b' \<and> nc_flags b' = nc_flags b)"
proof -
  have "\<forall>h\<in>set (cc_rx_q (nc_conn_cb b ! i)). rxb_ok h" using base_safe_nth [OF assms] by (simp add: conn_ok_def)
  note l = event_loop_safe [OF this assms(1)]
  show ?thesis unfolding nfc_data_event_def Let_def
    by (intro wp_intros wp_call [OF l]) (use assms in \<open>auto intro!: wp_intros base_safe_upd_cb simp: conn_ok_def\<close>)
qed


text \<open>Room for a fragment: afterwards it fits, or the packet is marked as too big.\<close>

lemma ras_room_safe:
  assumes "rxb_ok h" "len \<le> 255"
  shows "wp (ras_room big h len) (\<lambda>h'. rxb_ok h' \<and> (h_layer h' AND NFC_RAS_TOO_BIG = 0 \<longrightarrow> 10 + unat (h_len h') + len \<le> length (h_data h')))"
proof -
  let ?n = "unat (h_len h)" and ?bs = "take (unat (h_len h)) (drop 10 (h_data h))"
  have h: "unat (h_offset h) = 10" "10 + ?n \<le> length (h_data h)" "length (h_data h) \<in> {652, GKI_MAX_BUF_SIZE - 8}"
    using assms(1) by (auto simp: rxb_ok_def)
  have big: "(x OR NFC_RAS_TOO_BIG) AND NFC_RAS_TOO_BIG \<noteq> 0" for x :: u16 by (simp add: bit.conj_disj_distrib2)
  have grow: "wp (ras_grow h) (\<lambda>h'. rxb_ok h' \<and> 10 + unat (h_len h') + len \<le> length (h_data h'))" if "length (h_data h) = 652"
  proof -
    have lb: "length ?bs = ?n" using h by simp
    obtain d where d: "wr_bytes (replicate (GKI_MAX_BUF_SIZE - 8) 0) 10 ?bs = Some d"
      using wr_bytes_ex [of 10 ?bs "replicate (GKI_MAX_BUF_SIZE - 8) 0"] lb h that by (auto simp: GKI_MAX_BUF_SIZE_def)
    have "ras_grow h = Some (h \<lparr> h_data := d \<rparr>)" using d h by (simp add: ras_grow_def rd_bytes_in)
    moreover have "length d = GKI_MAX_BUF_SIZE - 8" using wr_bytes_length [OF d] by simp
    ultimately show ?thesis using assms h that by (simp add: wp_def rxb_ok_def GKI_MAX_BUF_SIZE_def)
  qed
  show ?thesis unfolding ras_room_def
    by (intro wp_intros) (use h assms big in \<open>auto simp: buf_size_def rxb_ok_def GKI_MAX_BUF_SIZE_def intro: wp_call [OF grow]\<close>)
qed

lemma append_safe:
  assumes "rxb_ok h" "10 + unat (h_len h) + length ps \<le> length (h_data h)" "unat len = length ps"
  shows "wp (wr_bytes (h_data h) (unat (h_offset h) + unat (h_len h)) ps) (\<lambda>d. rxb_ok (h \<lparr> h_data := d, h_len := h_len h + len \<rparr>))"
proof -
  have o: "unat (h_offset h) = 10" using assms(1) by (simp add: rxb_ok_def)
  obtain d where d: "wr_bytes (h_data h) (unat (h_offset h) + unat (h_len h)) ps = Some d"
    using wr_bytes_ex [of "unat (h_offset h) + unat (h_len h)" ps "h_data h"] assms o by auto
  have "length (h_data h) < 2 ^ 16" using assms(1) by (auto simp: rxb_ok_def GKI_MAX_BUF_SIZE_def)
  then have "unat (h_len h + len) = unat (h_len h) + unat len" using assms(2,3) by (intro unat_add_lem [THEN iffD1]) simp
  then show ?thesis using d assms wr_bytes_length [OF d] by (simp add: wp_def rxb_ok_def)
qed

lemma rx_push_safe: "base_safe b \<Longrightarrow> rxb_ok m \<Longrightarrow> base_safe (upd_cb i (\<lambda>c. c \<lparr> cc_rx_q := cc_rx_q c @ [m] \<rparr>) b)"
  by (rule base_safe_upd_cb) (auto simp: conn_ok_def)

lemma rx_last_safe: "base_safe b \<Longrightarrow> rxb_ok m \<Longrightarrow> base_safe (upd_cb i (\<lambda>c. c \<lparr> cc_rx_q := butlast (cc_rx_q c) @ [m] \<rparr>) b)"
  by (rule base_safe_upd_cb) (auto simp: conn_ok_def dest: in_set_butlastD)

lemma proc_data_safe:
  assumes "base_safe b" "rxb_ok m" "unat (h_len m) \<le> 258"
  shows "wp (nfc_ncif_proc_data big m b) (\<lambda>b'. base_safe b' \<and> nc_flags b' = nc_flags b)"
proof -
  have m: "unat (h_offset m) = 10" "3 \<le> unat (h_len m)" "10 + unat (h_len m) \<le> length (h_data m)" "unat (h_len m - 3) = unat (h_len m) - 3"
    "\<And>l. rxb_ok (m \<lparr> h_layer := l \<rparr>)"
    using assms(2) by (auto simp: rxb_ok_def unat_minus3)
  note i = base_safe_find [OF assms(1)]
  have last: "cc_rx_q (nc_conn_cb b ! i) \<noteq> [] \<Longrightarrow> nfc_find_conn_cb_by_conn_id c b = Some i \<Longrightarrow> rxb_ok (last (cc_rx_q (nc_conn_cb b ! i)))" for c i
    using base_safe_nth [OF assms(1) i] by (auto simp: conn_ok_def)
  have fl: "base_safe (if f then NFC_SetReassemblyFlag True b else b)" "nc_conn_cb (if f then NFC_SetReassemblyFlag True b else b) = nc_conn_cb b"
    "nc_flags (if f then NFC_SetReassemblyFlag True b else b) = nc_flags b" for f
    using assms(1) by (auto simp: NFC_SetReassemblyFlag_def)
  show ?thesis unfolding nfc_ncif_proc_data_def
    by (intro wp_intros wp_call [OF ras_room_safe] wp_call [OF append_safe] wp_call [OF data_event_safe] rx_push_safe rx_last_safe;
        use assms m i in \<open>simp add: fl last rx_push_safe\<close>)
qed

section \<open>Opening a connection\<close>

lemma set_conn_id_safe:
  assumes "base_safe b" "i < NCI_MAX_CONN_CBS" "NFC_MAX_CONN_ID < unat (cc_conn_id (nc_conn_cb b ! i))" "unat cid \<le> NFC_MAX_CONN_ID"
  shows "wp (nfc_set_conn_id (Some i) cid b) (\<lambda>b'. base_safe b' \<and> nc_flags b' = nc_flags b)"
proof -
  obtain b' where b': "nfc_set_conn_id (Some i) cid b = Some b'" using assms(4) by (simp add: nfc_set_conn_id_def)
  have "conns_ok b'" by (rule set_conn_id_ok [OF _ assms(2) _ b']) (use assms in \<open>auto simp: base_safe_def\<close>)
  moreover have "nc_conn_cb b' = (nc_conn_cb b)[i := (nc_conn_cb b ! i) \<lparr> cc_conn_id := cid \<rparr>]" "nc_flags b' = nc_flags b"
    using b' assms(4) by (auto simp: nfc_set_conn_id_def)
  ultimately show ?thesis using b' base_safe_nth [OF assms(1,2)] assms(1) set_update_subset_insert [of "nc_conn_cb b" i]
    by (fastforce simp: wp_def base_safe_def conn_ok_def)
qed

text \<open>The response carries the size of the buffers of the new connection; a connection with packets to send
  needs one that is not zero.\<close>

lemma create_rsp_safe:
  assumes "base_safe b" "p + 7 \<le> length m" "m ! (p + 4) \<noteq> 0"
  shows "wp (nfc_ncif_proc_conn_create_rsp m p b) (\<lambda>b'. base_safe b' \<and> nc_flags b' = nc_flags b)"
proof -
  have i: "i < NCI_MAX_CONN_CBS" "cc_conn_id (nc_conn_cb b ! i) = NFC_PEND_CONN_ID"
    if "nfc_find_conn_cb_by_conn_id NFC_PEND_CONN_ID b = Some i" for i
    using find_conn_in [OF _ that] assms(1) by (auto simp: base_safe_def)
  have l: "i < length (nc_conn_cb b)" if "i < NCI_MAX_CONN_CBS" for i using that assms(1) by (simp add: base_safe_def conns_ok_def)
  have u: "base_safe (upd_cb i (\<lambda>c. c \<lparr> cc_buff_size := m ! (p + 4), cc_num_buff := k, cc_init_credits := k \<rparr>) b)" for i k
    by (rule base_safe_upd_cb [OF assms(1)]) (use assms(3) in \<open>auto simp: conn_ok_def word_gt_0\<close>)
  show ?thesis unfolding nfc_ncif_proc_conn_create_rsp_def
    by (intro wp_intros wp_call [OF set_conn_id_safe] free_safe; use assms i l u in \<open>auto simp: free_safe NFC_MAX_CONN_ID_def split: if_splits\<close>)
qed

section \<open>The queue of commands\<close>

lemma nci_safe_clr: "nci_safe n \<Longrightarrow> nci_safe (nci_clr_fl f n)"
  by (auto simp: nci_safe_def q_ok_def pend_ok_def nci_fl_def nci_clr_fl_def bit_eq_iff bit_simps)

lemma nci_safe_set: "nci_safe n \<Longrightarrow> NFC_FL_DISCOVER_PENDING AND f = 0 \<Longrightarrow> nci_safe (nci_set_fl f n)"
  by (auto simp: nci_safe_def q_ok_def pend_ok_def) (auto simp: nci_set_fl_def)

lemma nci_safe_window: "nci_safe n \<Longrightarrow> w \<le> 1 \<Longrightarrow> nci_safe (n \<lparr> nci_window := w \<rparr>)"
  by (auto simp: nci_safe_def q_ok_def pend_ok_def)

text \<open>Commands are only added behind those handed over or waiting.\<close>

definition ext :: "nci_cb \<Rightarrow> nci_cb \<Rightarrow> bool" where
  "ext n n' \<longleftrightarrow> (\<exists>ts. sub_of n' = sub_of n @ ts)"

lemma ext_refl [simp]: "sub_of n' = sub_of n \<Longrightarrow> ext n n'"
  by (simp add: ext_def)

lemma ext_trans: "ext n n' \<Longrightarrow> ext n' n'' \<Longrightarrow> ext n n''"
  by (auto simp: ext_def)

lemma sub_of_upd [simp]:
  "sub_of (nci_clr_fl f n) = sub_of n" "sub_of (nci_set_fl f n) = sub_of n" "sub_of (n \<lparr> nci_window := w \<rparr>) = sub_of n"
  "sub_of (n \<lparr> nci_disc_pending := d \<rparr>) = sub_of n" "sub_of (n \<lparr> nci_rsp_timer := b \<rparr>) = sub_of n"
  "sub_of (n \<lparr> nci_vsc_cback := c \<rparr>) = sub_of n" "sub_of (n \<lparr> nci_raw_vs := b \<rparr>) = sub_of n" "sub_of (n \<lparr> nci_base := x \<rparr>) = sub_of n"
  by (simp_all add: sub_of_def)

lemma ext_upd [simp]:
  "ext n (nci_clr_fl f n') = ext n n'" "ext n (nci_set_fl f n') = ext n n'" "ext n (n' \<lparr> nci_window := w \<rparr>) = ext n n'"
  "ext n (n' \<lparr> nci_disc_pending := d \<rparr>) = ext n n'" "ext (n \<lparr> nci_raw_vs := b \<rparr>) n' = ext n n'" "ext (n \<lparr> nci_vsc_cback := c \<rparr>) n' = ext n n'"
  by (simp_all add: ext_def)

lemma send_now_safe:
  assumes "nci_safe n" "cmd_ok p" "nci_window n = 1"
  shows "wp (nci_send_now p n) (\<lambda>n'. nci_safe n' \<and> same_ctl n n')"
proof -
  have "unat (h_offset p) + 5 \<le> length (h_data p)" "unat (h_offset p) + unat (h_len p) \<le> length (h_data p)" "8 \<le> length (h_data p)"
    using assms(2) by (auto simp: cmd_ok_def)
  then show ?thesis unfolding nci_send_now_def
    by (intro wp_intros) (use assms in \<open>auto simp: nci_safe_def q_ok_def pend_ok_def nci_fl_def same_ctl_def\<close>)
qed

lemma push_safe:
  assumes "nci_safe n" "case p of None \<Rightarrow> True | Some b \<Rightarrow> cmd_ok b"
  shows "wp (nci_push p n) (\<lambda>n'. nci_safe n' \<and> same_ctl n n' \<and> ext n n')"
proof -
  have e: "ext n n'" if "nci_push p n = Some n'" for n'
  proof -
    have "q_ok n" using assms(1) by (simp add: nci_safe_def)
    from nci_push_spec [OF this assms(2)] that show ?thesis unfolding ext_def by (metis option.inject)
  qed
  have w: "nci_window n = 1" if "0 < nci_window n" using that assms(1) window_cases [of n] by (auto simp: nci_safe_def q_ok_def)
  have q: "nci_safe (n \<lparr> nci_xmit_q := q \<rparr>)" "same_ctl n (n \<lparr> nci_xmit_q := q \<rparr>)" if "\<forall>p\<in>set q. cmd_ok p" for q
    using that assms(1) by (auto simp: nci_safe_def q_ok_def pend_ok_def same_ctl_def)
  have xq: "\<forall>p\<in>set (nci_xmit_q n). cmd_ok p" using assms(1) by (simp add: nci_safe_def q_ok_def)
  have ctl: "same_ctl (n \<lparr> nci_xmit_q := q \<rparr>) n' = same_ctl n n'" for q n' by (simp add: same_ctl_def)
  have "same_ctl n n" by (simp add: same_ctl_def)
  then have "wp (nci_push p n) (\<lambda>n'. nci_safe n' \<and> same_ctl n n')" unfolding nci_push_def
    using assms w xq q
    by (auto simp: ctl append_eq_Cons_conv split: option.splits list.splits intro!: wp_intros wp_call [OF send_now_safe])
  then show ?thesis using e by (auto simp: wp_def)
qed

lemma check_safe_idle:
  assumes "nci_safe n" "case p of None \<Rightarrow> True | Some b \<Rightarrow> cmd_ok b" "\<not> nci_fl NFC_FL_DISCOVER_PENDING n"
  shows "wp (nfc_ncif_check_cmd_queue (Suc d) e p n) (\<lambda>n'. nci_safe n' \<and> \<not> nci_fl NFC_FL_DISCOVER_PENDING n' \<and> ext n n')"
  unfolding nfc_ncif_check_cmd_queue.simps
  by (intro wp_intros wp_call [OF push_safe]) (use assms in \<open>auto simp: same_ctl_fl intro!: nci_safe_clr nci_safe_set nci_safe_window\<close>)

text \<open>The branch that issues the pending discovery command.\<close>

lemma issue_safe:
  assumes "nci_safe n" "nci_fl NFC_FL_DISCOVER_PENDING n" "env_ok e" "u = nci_clr_fl NFC_FL_DISCOVER_PENDING (nci_clr_fl f n)"
  shows "wp (do { pend \<leftarrow> nci_disc_pending u; num \<leftarrow> rd8 pend 0;
      s \<leftarrow> (case env_getbuf e of
              Some b \<Rightarrow> do { p \<leftarrow> discover_cmd_buf b num (drop 1 pend);
                nfc_ncif_check_cmd_queue (Suc d) e (Some (p \<lparr> h_event := 0x4000, h_layer := 0 \<rparr>)) u }
            | None \<Rightarrow> Some u);
      Some (s \<lparr> nci_disc_pending := None \<rparr>) }) (\<lambda>n'. nci_safe n' \<and> ext n n')"
proof -
  obtain num bs where p: "nci_disc_pending u = Some (num # bs)" "length bs = 2 * unat num" "unat num \<le> 127"
    using assms(1,2,4) by (auto simp: nci_safe_def pend_ok_def)
  have u: "nci_safe u" "\<not> nci_fl NFC_FL_DISCOVER_PENDING u" using assms(1,4) by (auto intro!: nci_safe_clr)
  have none: "nci_safe (n' \<lparr> nci_disc_pending := None \<rparr>)" if "nci_safe n'" "\<not> nci_fl NFC_FL_DISCOVER_PENDING n'" for n'
    using that by (auto simp: nci_safe_def q_ok_def pend_ok_def)
  have disc: "wp (discover_cmd_buf b num bs) cmd_ok" if "env_getbuf e = Some b" for b
    using discover_cmd_buf_ok [of b bs num] that assms(3) p by (auto simp: env_ok_def wp_def)
  have "ext u n' \<Longrightarrow> ext n n'" for n' using assms(4) by (simp add: ext_def)
  then show ?thesis using p(1) u assms(4)
    by (auto simp: rd8_in simp del: nfc_ncif_check_cmd_queue.simps intro!: wp_intros none wp_call [OF disc] wp_call [OF check_safe_idle])
qed

lemma check_safe:
  assumes "nci_safe n" "case p of None \<Rightarrow> True | Some b \<Rightarrow> cmd_ok b" "env_ok e"
  shows "wp (check_cmd_queue e p n) (\<lambda>n'. nci_safe n' \<and> ext n n')"
proof -
  obtain r where r: "nci_push p n = Some r" "nci_safe r" "ext n r" using push_safe [OF assms(1,2)] by (auto elim: wpE)
  have "wp (nfc_ncif_check_cmd_queue (Suc (Suc 0)) e p n) (\<lambda>n'. nci_safe n' \<and> ext r n')"
    unfolding nfc_ncif_check_cmd_queue.simps(2) [of "Suc 0"] r(1) bind.bind_lunit
    by (intro wp_if wp_let wp_Some; (rule issue_safe [OF r(2) _ assms(3)])?)
      (use r(2) in \<open>auto intro!: nci_safe_clr nci_safe_set nci_safe_window\<close>)
  then have "wp (nfc_ncif_check_cmd_queue (Suc (Suc 0)) e p n) (\<lambda>n'. nci_safe n' \<and> ext n n')"
    using ext_trans [OF r(3)] by (auto elim: wp_call)
  then show ?thesis unfolding check_cmd_queue_def by (simp only: Suc_1 [symmetric] One_nat_def)
qed

lemma snd_safe:
  assumes "nci_safe n" "env_ok e" "length bytes \<le> 651" "unat len \<le> 651"
  shows "wp (nci_snd e len bytes n) (\<lambda>(_, n'). nci_safe n' \<and> ext n n')"
proof -
  have "wp (cmd_buf d len bytes) cmd_ok" if d: "env_getbuf e = Some d" for d
  proof -
    have l: "length d = 652" using d assms(2) by (simp add: env_ok_def)
    then obtain d' where "wr_bytes d 1 bytes = Some d'" using wr_bytes_ex [of 1 bytes d] assms(3) by auto
    then show ?thesis using l assms(4) wr_bytes_length [of d 1 bytes d'] by (simp add: cmd_buf_def wp_def cmd_ok_def)
  qed
  note c = wp_call [OF this]
  show ?thesis unfolding nci_snd_def nfc_ncif_send_cmd_def
    by (intro wp_intros c wp_call [OF check_safe]) (use assms in auto)
qed

lemma update_window_safe:
  assumes "nci_safe n" "env_ok e"
  shows "wp (nfc_ncif_update_window e n) (\<lambda>n'. nci_safe n' \<and> ext n n')"
proof -
  have w: "nci_window n = 0 \<or> nci_window n = 1" using assms(1) window_cases by (auto simp: nci_safe_def q_ok_def)
  have e: "ext (n \<lparr> nci_rsp_timer := a, nci_vsc_cback := b, nci_window := c \<rparr>) n' = ext n n'" for a b c n' by (simp add: ext_def)
  show ?thesis unfolding nfc_ncif_update_window_def
    by (intro wp_intros wp_call [OF check_safe]) (use assms w e in \<open>auto simp: nci_safe_def q_ok_def pend_ok_def\<close>)
qed

end
