(* ===== verification/NciRecvProofs.thy ===== *)
theory NciRecvProofs
  imports NciDispatch NciParseProofs NciCmdFlow NciSafe
begin

text \<open>
  Memory safety of the receive path: whatever bytes the controller sends, processing its packets stays inside the
  message buffer, the arrays of the events and the tables of the stack, and keeps the invariant of the queues.
\<close>

section \<open>The state behind the handlers\<close>

text \<open>A message as the transport delivers it: a buffer of the pool with a packet of at most 258 bytes.\<close>

definition msg_ok :: "nfc_hdr \<Rightarrow> bool" where
  "msg_ok h \<longleftrightarrow> h_offset h = 10 \<and> unat (h_len h) \<le> 258 \<and> length (h_data h) = 652"

text \<open>The invariant, and that the commands \<open>sub\<close> are the first ones handed over or waiting.\<close>

definition rx_safe :: "mem list \<Rightarrow> nci_rx \<Rightarrow> bool" where
  "rx_safe sub s \<longleftrightarrow> nci_safe (rx_nci s) \<and> (\<exists>ts. sub_of (rx_nci s) = sub @ ts) \<and> length (rx_disc_maps s) \<le> 8 \<and>
     pred_option msg_ok (rx_init_rsp s)"

lemma rx_nci_log [simp]: "rx_nci (rx_ev e s) = rx_nci s" "rx_nci (resp_cb e s) = rx_nci s" "rx_nci (discv_cb e s) = rx_nci s"
  "rx_disc_maps (rx_ev e s) = rx_disc_maps s" "rx_disc_maps (resp_cb e s) = rx_disc_maps s" "rx_disc_maps (discv_cb e s) = rx_disc_maps s"
  "rx_init_rsp (rx_ev e s) = rx_init_rsp s" "rx_init_rsp (resp_cb e s) = rx_init_rsp s" "rx_init_rsp (discv_cb e s) = rx_init_rsp s"
  by (simp_all add: rx_ev_def resp_cb_def discv_cb_def)

lemma rx_safe_log [simp]:
  "rx_safe sub (rx_ev e s) = rx_safe sub s" "rx_safe sub (resp_cb e s) = rx_safe sub s" "rx_safe sub (discv_cb e s) = rx_safe sub s"
  "rx_safe sub (nfc_ncif_rf_management_status ev st s) = rx_safe sub s" "rx_safe sub (nfc_ncif_event_status rv st s) = rx_safe sub s"
  "rx_safe sub (nfc_ncif_proc_rf_field_ntf st s) = rx_safe sub s" "rx_safe sub (nfc_ncif_proc_t3t_polling_rsp st s) = rx_safe sub s"
  "rx_safe sub (nfc_ncif_proc_isodep_nak_presence_check_status st i s) = rx_safe sub s"
  by (simp_all add: rx_safe_def nfc_ncif_rf_management_status_def nfc_ncif_event_status_def nfc_ncif_proc_rf_field_ntf_def
      nfc_ncif_proc_t3t_polling_rsp_def nfc_ncif_proc_isodep_nak_presence_check_status_def)

lemma rx_safe_fields [simp]:
  "rx_safe sub (s \<lparr> rx_deact_reason := a \<rparr>) = rx_safe sub s" "rx_safe sub (s \<lparr> rx_mode_timer := b \<rparr>) = rx_safe sub s"
  "rx_safe sub (s \<lparr> rx_scbr := b \<rparr>) = rx_safe sub s" "rx_safe sub (s \<lparr> rx_resp_cback := b \<rparr>) = rx_safe sub s"
  by (simp_all add: rx_safe_def)

lemma rx_safe_init_rsp: "rx_safe sub s \<Longrightarrow> pred_option msg_ok d \<Longrightarrow> rx_safe sub (s \<lparr> rx_init_rsp := d \<rparr>)"
  by (simp add: rx_safe_def)

lemma rx_safe_nci: "rx_safe sub s \<Longrightarrow> nci_safe n \<Longrightarrow> ext (rx_nci s) n \<Longrightarrow> rx_safe sub (s \<lparr> rx_nci := n \<rparr>)"
  by (auto simp: rx_safe_def ext_def)

lemma rx_safe_nci_upd [simp]:
  "nci_safe (n \<lparr> nci_raw_vs := b \<rparr>) = nci_safe n" "nci_safe (n \<lparr> nci_rsp_timer := b \<rparr>) = nci_safe n"
  "nci_safe (n \<lparr> nci_vsc_cback := c \<rparr>) = nci_safe n"
  by (simp_all add: nci_safe_def q_ok_def pend_ok_def nci_fl_def)

lemma rx_safe_nciD: "rx_safe sub s \<Longrightarrow> nci_safe (rx_nci s)"
  by (simp add: rx_safe_def)

lemma rx_safe_base: "rx_safe sub s \<Longrightarrow> base_safe (rx_base s)"
  by (simp add: rx_safe_def nci_safe_def rx_base_def)

lemma rx_safe_upd_base:
  "rx_safe sub s \<Longrightarrow> base_safe (f (rx_base s)) \<Longrightarrow> nc_flags (f (rx_base s)) = nc_flags (rx_base s) \<Longrightarrow> rx_safe sub (upd_base f s)"
  by (simp add: rx_safe_def nci_safe_def upd_base_def rx_base_def q_ok_def pend_ok_def nci_fl_def)

lemma rx_safe_upd [simp]:
  "rx_safe sub (s \<lparr> rx_nci := rx_nci s \<lparr> nci_rsp_timer := b \<rparr> \<rparr>) = rx_safe sub s" "rx_safe sub (upd_base (\<lambda>b. b \<lparr> nc_version := v \<rparr>) s) = rx_safe sub s"
  "rx_safe sub (upd_base (nc_event ev) s) = rx_safe sub s"
  "rx_safe sub (s \<lparr> rx_nci := rx_nci s \<lparr> nci_raw_vs := b \<rparr> \<rparr>) = rx_safe sub s" "rx_safe sub (s \<lparr> rx_nci := rx_nci s \<lparr> nci_vsc_cback := c \<rparr> \<rparr>) = rx_safe sub s"
  by (simp_all add: rx_safe_def upd_base_def rx_base_def nci_safe_def q_ok_def pend_ok_def nci_fl_def)

lemma rx_safe_clr: "rx_safe sub s \<Longrightarrow> rx_safe sub (rx_clr_fl f s)"
  by (simp add: rx_safe_def rx_clr_fl_def nci_safe_clr)

lemma set_state_safe: "rx_safe sub s \<Longrightarrow> rx_safe sub (nfc_set_state st s)"
  by (simp add: nfc_set_state_def rx_safe_upd_base rx_safe_base)

lemma rx_safe_last: "rx_safe sub s \<Longrightarrow> length (nci_last_hdr (rx_nci s)) = 2 \<and> length (nci_last_cmd (rx_nci s)) = 2 \<and> length (nci_last_nfcee_cmd (rx_nci s)) = 2"
  by (simp add: rx_safe_def nci_safe_def)

lemma reset_flags [simp]: "nc_flags (nfc_reset_all_conn_cbs b) = nc_flags b"
proof -
  have "nc_flags (fold reset_conn_cb ks b) = nc_flags b" for ks
    by (induction ks arbitrary: b) (simp_all add: reset_conn_cb_def Let_def)
  then show ?thesis by (simp add: nfc_reset_all_conn_cbs_def)
qed

lemma close_flags [simp]: "nc_flags (nfc_ncif_report_conn_close_evt cid st b) = nc_flags b" "nc_flags (nfc_ncif_error_status cid st b) = nc_flags b"
  by (simp_all add: nfc_ncif_report_conn_close_evt_def nfc_ncif_error_status_def Let_def split: option.split)

section \<open>Handlers\<close>

lemma set_config_status_safe:
  "rx_safe sub s \<Longrightarrow> p + unat len \<le> length m \<Longrightarrow> wp (nfc_ncif_set_config_status m p len s) (rx_safe sub)"
  unfolding nfc_ncif_set_config_status_def
  by (intro wp_intros) (auto simp: word_less_nat_alt word_le_nat_alt dest: unat_pos)

lemma discover_ntf_safe: "rx_safe sub s \<Longrightarrow> p + unat plen \<le> length m \<Longrightarrow> wp (nfc_ncif_proc_discover_ntf m p plen s) (rx_safe sub)"
  unfolding nfc_ncif_proc_discover_ntf_def by (intro wp_intros parse_discover_in) auto

lemma removal_safe: "rx_safe sub s \<Longrightarrow> p < length m \<Longrightarrow> wp (nfc_ncif_proc_removal_status m p s) (rx_safe sub)"
  unfolding nfc_ncif_proc_removal_status_def by (intro wp_intros) auto

lemma charging_safe: "rx_safe sub s \<Longrightarrow> p < length m \<Longrightarrow> wp (nfc_ncif_proc_charging_status m p len s) (rx_safe sub)"
  unfolding nfc_ncif_proc_charging_status_def by (intro wp_intros) auto

text \<open>A valid activation reports the buffer size of the packet, or the limit of ISO-DEP.\<close>

lemma activate_intf_size:
  "p + plen \<le> length m \<Longrightarrow> bs \<noteq> 0 \<Longrightarrow> wp (activate_intf bs m p plen n a) (\<lambda>(b, _). b \<noteq> Some 0)"
  unfolding activate_intf_def by (intro wp_intros activate_iso_in activate_t1t_in) auto

lemma parse_activate_size:
  "p + unat len \<le> length m \<Longrightarrow> m ! (p + 4) \<noteq> 0 \<Longrightarrow> wp (parse_activate kovio a m p len) (\<lambda>(c, _). \<forall>b n. c = Some (b, n) \<longrightarrow> b \<noteq> 0)"
  unfolding parse_activate_def
  by (intro wp_intros decode_rf_params_in wp_call [OF activate_intf_size]) auto

lemma activate_safe:
  assumes "rx_safe sub s" "p + unat len \<le> length m" "m ! (p + 4) \<noteq> 0"
  shows "wp (nfc_ncif_proc_activate m p len s) (rx_safe sub)"
proof -
  let ?s = "nfc_set_state NFC_STATE_OPEN s"
  have s: "rx_safe sub ?s" by (rule set_state_safe [OF assms(1)])
  have "rx_safe sub (upd_base (upd_cb 0 (\<lambda>c. c \<lparr> cc_act_protocol := a, cc_act_interface := t, cc_buff_size := bsz, cc_num_buff := num,
      cc_init_credits := num \<rparr>)) ?s)" if "bsz \<noteq> 0" for a t bsz num
    using that by (auto intro!: rx_safe_upd_base s base_safe_upd_cb rx_safe_base simp: conn_ok_def word_gt_0)
  then show ?thesis unfolding nfc_ncif_proc_activate_def
    by (intro wp_intros wp_call [OF parse_activate_size]) (use assms s in \<open>auto split: option.split\<close>)
qed

lemma deactivate_safe:
  assumes "rx_safe sub s"
  shows "rx_safe sub (nfc_ncif_proc_deactivate st ty n s)"
proof -
  let ?s = "upd_base (upd_cb 0 (\<lambda>c. c \<lparr> cc_rx_q := [], cc_tx_q := [] \<rparr>)) (nfc_set_state NFC_STATE_IDLE s)"
  have "rx_safe sub ?s"
    by (intro rx_safe_upd_base base_safe_upd_cb set_state_safe [OF assms] rx_safe_base [OF set_state_safe [OF assms]]) (auto simp: conn_ok_def)
  then show ?thesis by (simp add: nfc_ncif_proc_deactivate_def Let_def)
qed

lemma app_init_safe: "p + n \<le> length m \<Longrightarrow> wp (app_init_loop m p n a) (\<lambda>_. True)"
proof (induction n arbitrary: p a rule: less_induct)
  case (less n)
  show ?case by (subst app_init_loop.simps, intro wp_intros less.IH) (use less.prems in auto)
qed

lemma ee_action_safe: "rx_safe sub s \<Longrightarrow> p + unat plen \<le> length m \<Longrightarrow> wp (nfc_ncif_proc_ee_action m p plen s) (rx_safe sub)"
  unfolding nfc_ncif_proc_ee_action_def
  by (intro wp_intros wp_call [OF app_init_safe]) (auto simp: word_less_nat_alt)

lemma disc_req_safe: "p + plen \<le> length m \<Longrightarrow> length es + n \<le> 6 \<Longrightarrow> wp (disc_req_loop m p n plen es) (\<lambda>_. True)"
proof (induction n arbitrary: p plen es)
  case (Suc n)
  show ?case unfolding disc_req_loop.simps by (intro wp_intros Suc) (use Suc.prems in \<open>auto intro!: Suc.IH\<close>)
qed (simp add: wp_def)

lemma ee_discover_req_safe: "rx_safe sub s \<Longrightarrow> p + unat plen \<le> length m \<Longrightarrow> wp (nfc_ncif_proc_ee_discover_req m p plen s) (rx_safe sub)"
  unfolding nfc_ncif_proc_ee_discover_req_def
  by (intro wp_intros wp_call [OF disc_req_safe]) (auto simp: word_less_nat_alt dest: unat_pos)

lemma get_routing_loop_safe: "rx_safe sub s \<Longrightarrow> p + len \<le> length m \<Longrightarrow> wp (get_routing_loop m p mo n len s) (rx_safe sub)"
proof (induction n arbitrary: p len s)
  case (Suc n)
  show ?case unfolding get_routing_loop.simps by (intro wp_intros Suc) (use Suc.prems in \<open>auto simp: word_less_nat_alt\<close>)
qed (simp add: wp_def)

lemma get_routing_safe: "rx_safe sub s \<Longrightarrow> p + unat len \<le> length m \<Longrightarrow> wp (nfc_ncif_proc_get_routing m p len s) (rx_safe sub)"
  unfolding nfc_ncif_proc_get_routing_def
  by (intro wp_intros get_routing_loop_safe) (auto simp: word_le_nat_alt)

section \<open>Reset and initialisation\<close>

lemma notify_safe: "rx_safe sub s \<Longrightarrow> rx_safe sub (nfc_main_notify_enable_status st s)"
  by (auto simp: nfc_main_notify_enable_status_def Let_def rx_safe_clr rx_safe_def rx_clr_fl_def intro!: nci_safe_clr nci_safe_set)

lemma enable_failed_safe: "rx_safe sub s \<Longrightarrow> i < NCI_MAX_CONN_CBS \<Longrightarrow> rx_safe sub (enable_failed i st s)"
  by (auto simp: enable_failed_def Let_def intro!: notify_safe set_state_safe rx_safe_upd_base free_safe rx_safe_base)

lemma timeout_safe: "rx_safe sub s \<Longrightarrow> rx_safe sub (nfc_ncif_cmd_timeout s)"
  by (auto simp: nfc_ncif_cmd_timeout_def Let_def NCI_MAX_CONN_CBS_def intro!: enable_failed_safe)

lemma rx_snd_safe: "rx_safe sub s \<Longrightarrow> wp (f (rx_nci s)) (\<lambda>(_, n). nci_safe n \<and> ext (rx_nci s) n) \<Longrightarrow> wp (rx_snd f s) (rx_safe sub)"
  unfolding rx_snd_def by (auto simp: wp_def intro: rx_safe_nci)

lemma core_init_safe: "nci_safe n \<Longrightarrow> env_ok e \<Longrightarrow> wp (nci_snd_core_init e v n) (\<lambda>(_, n'). nci_safe n' \<and> ext n n')"
  unfolding nci_snd_core_init_def Let_def by (intro snd_safe) (auto simp: nci_cmd_hdr_def)

lemma core_reset_safe: "nci_safe n \<Longrightarrow> env_ok e \<Longrightarrow> wp (nci_snd_core_reset e t n) (\<lambda>(_, n'). nci_safe n' \<and> ext n n')"
  unfolding nci_snd_core_reset_def by (intro snd_safe) (auto simp: nci_cmd_hdr_def)

lemma reset_all_rx_safe: "rx_safe sub s \<Longrightarrow> rx_safe sub (upd_base nfc_reset_all_conn_cbs s)"
  by (auto intro!: rx_safe_upd_base reset_all_safe rx_safe_base)

lemma reset_status_safe:
  "rx_safe sub s \<Longrightarrow> p + 2 < length m \<Longrightarrow> wp (reset_status m p len n s) (\<lambda>(_, _, s'). rx_safe sub s')"
  unfolding reset_status_def
  by (intro wp_intros; simp add: reset_all_rx_safe timeout_safe del: before_idle.simps split: prod.splits; auto intro!: reset_all_rx_safe timeout_safe)

lemma reset_rsp_safe:
  assumes "rx_safe sub s" "env_ok e" "p + 2 < length m" "0 < p"
  shows "wp (nfc_ncif_proc_reset_rsp e m p n s) (rx_safe sub)"
  unfolding nfc_ncif_proc_reset_rsp_def
  by (intro wp_intros wp_call [OF reset_status_safe] rx_snd_safe core_init_safe)
    (use assms in \<open>auto intro!: reset_all_rx_safe enable_failed_safe rx_safe_nciD simp: NCI_MAX_CONN_CBS_def dest: rx_safe_nciD\<close>)

lemma init_rsp_safe:
  assumes "rx_safe sub s" "env_ok e" "msg_ok h"
  shows "wp (nfc_ncif_proc_init_rsp e h s) (\<lambda>(_, s'). rx_safe sub s')"
  unfolding nfc_ncif_proc_init_rsp_def
  by (intro wp_intros wp_call [OF rx_snd_safe] core_reset_safe rx_safe_nciD)
    (use assms in \<open>auto intro!: enable_failed_safe rx_safe_init_rsp set_state_safe rx_safe_upd_base base_safe_upd_cb rx_safe_base simp: msg_ok_def conn_ok_def NCI_MAX_CONN_CBS_def\<close>)

lemma get_config_safe:
  assumes "rx_safe sub s" "msg_ok h" "3 \<le> unat (h_len h)"
  shows "wp (nfc_ncif_proc_get_config_rsp h s) (rx_safe sub)"
  unfolding nfc_ncif_proc_get_config_rsp_def
  by (intro wp_intros) (use assms in \<open>auto simp: msg_ok_def unat_minus3\<close>)

lemma t3t_ntf_safe: "rx_safe sub s \<Longrightarrow> p + 2 + unat len \<le> length m \<Longrightarrow> wp (nfc_ncif_proc_t3t_polling_ntf m p len s) (rx_safe sub)"
  unfolding nfc_ncif_proc_t3t_polling_ntf_def by (intro wp_intros) auto

section \<open>Groups of messages\<close>

lemma wp_op_of:
  "msg_ok h \<Longrightarrow> (\<And>op. op = h_data h ! 11 AND 0x3F \<Longrightarrow> Q op) \<Longrightarrow> wp (op_of h) Q"
  unfolding op_of_def by (intro wp_intros) (auto simp: msg_ok_def)

lemma wp_last_cmd:
  "rx_safe sub s \<Longrightarrow> i < 2 \<Longrightarrow> (\<And>b. Q b) \<Longrightarrow> wp (rd8 (nci_last_cmd (rx_nci s)) i) Q"
  "rx_safe sub s \<Longrightarrow> i < 2 \<Longrightarrow> (\<And>b. Q b) \<Longrightarrow> wp (rd8 (nci_last_nfcee_cmd (rx_nci s)) i) Q"
  "rx_safe sub s \<Longrightarrow> i < 2 \<Longrightarrow> (\<And>b. Q b) \<Longrightarrow> wp (rd8 (nci_last_hdr (rx_nci s)) i) Q"
  by (intro wp_intros; auto dest: rx_safe_last)+

lemma core_rsp_safe:
  assumes "rx_safe sub s" "env_ok e" "msg_ok h" "unat (h_data h ! 12) + 3 \<le> unat (h_len h)" "h_data h ! 11 AND 0x3F = 4 \<longrightarrow> h_data h ! 14 \<noteq> 0"
  shows "wp (nci_proc_core_rsp e h s) (\<lambda>(_, s'). rx_safe sub s')"
proof -
  have h: "unat (h_offset h) = 10" "length (h_data h) = 652" "unat (h_len h) \<le> 258" "3 \<le> unat (h_len h)" using assms(3,4) by (auto simp: msg_ok_def)
  have "10 + 3 + unat (h_data h ! 12) \<le> 652" using assms(4) h by simp
  note b = rx_safe_base [OF assms(1)]
  show ?thesis unfolding nci_proc_core_rsp_def
    by (intro wp_intros wp_op_of wp_call [OF reset_rsp_safe] wp_call [OF init_rsp_safe] wp_call [OF get_config_safe]
          wp_call [OF set_config_status_safe] wp_call [OF create_rsp_safe] wp_last_cmd)
      (use assms h b in \<open>auto intro!: rx_safe_upd_base close_safe\<close>)
qed

lemma core_ntf_safe:
  assumes "rx_safe sub s" "env_ok e" "msg_ok h"
  shows "wp (nci_proc_core_ntf e alloc h s) (rx_safe sub)"
proof -
  have h: "unat (h_offset h) = 10" "length (h_data h) = 652" "unat (h_len h) \<le> 258" using assms(3) by (auto simp: msg_ok_def)
  have l: "13 + unat (ucast (x :: u8) :: u16) \<le> 652" for x by (simp add: unat_ucast_u8 order_trans [OF unat_byte_le])
  note b = rx_safe_base [OF assms(1)]
  show ?thesis unfolding nci_proc_core_ntf_def
    by (intro wp_intros wp_op_of wp_call [OF reset_rsp_safe] wp_call [OF credits_safe])
      (use assms h b l in \<open>auto intro!: rx_safe_upd_base error_status_safe rx_safe_base\<close>)
qed

lemma rf_rsp_safe:
  assumes "rx_safe sub s" "msg_ok h"
  shows "wp (nci_proc_rf_management_rsp h s) (rx_safe sub)"
proof -
  have h: "unat (h_offset h) = 10" "length (h_data h) = 652" using assms(2) by (auto simp: msg_ok_def)
  show ?thesis unfolding nci_proc_rf_management_rsp_def
    by (intro wp_intros wp_op_of wp_last_cmd; use assms h in \<open>simp add: deactivate_safe rx_safe_clr\<close>)
qed

lemma rf_ntf_safe:
  assumes "rx_safe sub s" "msg_ok h" "unat (h_data h ! 12) + 3 \<le> unat (h_len h)" "h_data h ! 11 AND 0x3F = 5 \<longrightarrow> h_data h ! 17 \<noteq> 0"
  shows "wp (nci_proc_rf_management_ntf h s) (rx_safe sub)"
proof -
  have h: "unat (h_offset h) = 10" "length (h_data h) = 652" "unat (h_len h) \<le> 258" using assms(2) by (auto simp: msg_ok_def)
  show ?thesis unfolding nci_proc_rf_management_ntf_def
    by (intro wp_intros wp_op_of discover_ntf_safe activate_safe t3t_ntf_safe get_routing_safe ee_action_safe ee_discover_req_safe
          removal_safe charging_safe; use assms h in \<open>simp add: deactivate_safe\<close>)
qed

lemma ee_rsp_safe:
  assumes "rx_safe sub s" "msg_ok h"
  shows "wp (nci_proc_ee_management_rsp h s) (rx_safe sub)"
proof -
  have h: "unat (h_offset h) = 10" "length (h_data h) = 652" using assms(2) by (auto simp: msg_ok_def)
  show ?thesis unfolding nci_proc_ee_management_rsp_def
    by (intro wp_intros wp_op_of wp_last_cmd [OF assms(1)]; use assms h in \<open>simp add: rx_safe_clr\<close>)
qed

lemma ee_tlv_safe: "p + 2 \<le> length m \<Longrightarrow> p + len \<le> length m \<Longrightarrow> n \<le> 1 \<Longrightarrow> wp (ee_tlv_loop m p n len []) (\<lambda>_. True)"
proof (cases n)
  case (Suc k)
  moreover assume "n \<le> 1" "p + 2 \<le> length m" "p + len \<le> length m"
  ultimately show ?thesis unfolding Suc ee_tlv_loop.simps by (intro wp_intros) (auto intro!: wp_intros)
qed (simp add: wp_def)

lemma nfcee_discover_safe: "pp + len + 4 \<le> length m \<Longrightarrow> wp (nfcee_discover_ntf m pp len) (\<lambda>_. True)"
  unfolding nfcee_discover_ntf_def by (intro wp_intros wp_call [OF ee_tlv_safe]) auto

lemma ee_ntf_safe:
  assumes "rx_safe sub s" "msg_ok h" "unat (h_data h ! 12) + 3 \<le> unat (h_len h)"
  shows "wp (nci_proc_ee_management_ntf h s) (rx_safe sub)"
proof -
  have h: "unat (h_offset h) = 10" "length (h_data h) = 652" "unat (h_len h) \<le> 258" using assms(2) by (auto simp: msg_ok_def)
  show ?thesis unfolding nci_proc_ee_management_ntf_def
    by (intro wp_intros wp_op_of wp_call [OF nfcee_discover_safe]; use assms h in \<open>simp add: rx_safe_clr\<close>)
qed

lemma prop_rsp_safe:
  assumes "rx_safe sub s" "msg_ok h" shows "wp (nci_proc_prop_rsp h s) (rx_safe sub)"
  unfolding nci_proc_prop_rsp_def by (intro wp_intros wp_op_of) (use assms in \<open>auto simp: msg_ok_def\<close>)

lemma prop_raw_safe:
  assumes "rx_safe sub s" "env_ok e" "msg_ok h" shows "wp (nci_proc_prop_raw_vs_rsp e h s) (rx_safe sub)"
  unfolding nci_proc_prop_raw_vs_rsp_def
  by (intro wp_intros wp_op_of wp_call [OF update_window_safe])
    (use assms in \<open>auto simp: msg_ok_def dest: rx_safe_nciD intro!: rx_safe_nci\<close>)

lemma prop_ntf_safe:
  assumes "rx_safe sub s" "msg_ok h" shows "wp (nci_proc_prop_ntf h s) (rx_safe sub)"
proof -
  have "rx_safe sub (fold (\<lambda>c s. if c then rx_ev ev s else s) cs s)" if "rx_safe sub s" for cs ev s
    using that by (induction cs arbitrary: s) auto
  then show ?thesis unfolding nci_proc_prop_ntf_def by (intro wp_intros wp_op_of) (use assms in \<open>auto simp: msg_ok_def\<close>)
qed

section \<open>Packets\<close>

lemma rsp_safe:
  assumes "rx_safe sub s" "env_ok e" "msg_ok h" "unat (h_data h ! 12) + 3 \<le> unat (h_len h)" "gid = 0 \<and> h_data h ! 11 AND 0x3F = 4 \<longrightarrow> h_data h ! 14 \<noteq> 0"
  shows "wp (nci_proc_rsp e h gid oid s) (\<lambda>(_, s'). rx_safe sub s')"
  unfolding nci_proc_rsp_def
  by (intro wp_intros wp_last_cmd [OF assms(1)] wp_call [OF core_rsp_safe] wp_call [OF rf_rsp_safe] wp_call [OF ee_rsp_safe]
        wp_call [OF prop_rsp_safe] wp_call [OF update_window_safe] rx_safe_nciD; use assms in \<open>auto intro: rx_safe_nci\<close>)

lemma ntf_safe:
  assumes "rx_safe sub s" "env_ok e" "msg_ok h" "unat (h_data h ! 12) + 3 \<le> unat (h_len h)" "gid = 1 \<and> h_data h ! 11 AND 0x3F = 5 \<longrightarrow> h_data h ! 17 \<noteq> 0"
  shows "wp (nci_proc_ntf e alloc h gid s) (rx_safe sub)"
  unfolding nci_proc_ntf_def
  by (intro wp_intros core_ntf_safe rf_ntf_safe ee_ntf_safe prop_ntf_safe) (use assms in auto)

text \<open>The packets that set the buffer size of a connection carry one that is not zero: the size for the RF
  connection in an activation, and for a new connection in the response to its creation.\<close>

definition size_at :: "u8 \<Rightarrow> u8 \<Rightarrow> u8 \<Rightarrow> nat \<Rightarrow> mem \<Rightarrow> bool" where
  "size_at mt gid oid i pkt \<longleftrightarrow> (drop_bit 5 (pkt ! 0 AND 0xE0) = mt \<and> pkt ! 0 AND 0x0F = gid \<and> pkt ! 1 AND 0x3F = oid \<longrightarrow>
     i < length pkt \<and> pkt ! i \<noteq> 0)"

definition pkt_ok :: "mem \<Rightarrow> bool" where
  "pkt_ok pkt \<longleftrightarrow> length pkt \<le> 258 \<and> size_at 3 1 5 7 pkt \<and> size_at 2 0 4 4 pkt"

lemma cback_msg:
  assumes "length pkt \<le> 258"
  obtains h where "nfc_main_hal_data_cback True pkt = Some (Some h)" "msg_ok h" "unat (h_len h) = length pkt"
    "\<And>i. i < length pkt \<Longrightarrow> h_data h ! (10 + i) = pkt ! i"
proof -
  have w: "wr_bytes (replicate 652 0) 10 pkt = Some (replicate 10 0 @ pkt @ replicate (652 - (10 + length pkt)) 0)"
    by (rule wr_replicate) (use assms in simp)
  have u: "unat (of_nat (length pkt) :: u16) = length pkt" using assms by (simp only: unat_of_nat) simp
  show ?thesis
    by (rule that [of "\<lparr> h_event = 0x4000, h_len = of_nat (length pkt), h_offset = 10, h_layer = 0,
          h_data = replicate 10 0 @ pkt @ replicate (652 - (10 + length pkt)) 0 \<rparr>"])
      (use assms u in \<open>simp_all add: nfc_main_hal_data_cback_def w msg_ok_def nth_append\<close>)
qed

text \<open>A message with a packet that satisfies this.\<close>

definition pkt_msg :: "nfc_hdr \<Rightarrow> bool" where
  "pkt_msg h \<longleftrightarrow> msg_ok h \<and> (3 \<le> unat (h_len h) \<longrightarrow> size_at 3 1 5 7 (drop 10 (h_data h)) \<and> size_at 2 0 4 4 (drop 10 (h_data h)))"

lemma cback_pkt:
  assumes "pkt_ok pkt"
  obtains h where "nfc_main_hal_data_cback True pkt = Some (Some h)" "pkt_msg h"
proof -
  obtain h where h: "nfc_main_hal_data_cback True pkt = Some (Some h)" "msg_ok h" "unat (h_len h) = length pkt"
      "\<And>i. i < length pkt \<Longrightarrow> h_data h ! (10 + i) = pkt ! i"
    using cback_msg [of pkt] assms by (auto simp: pkt_ok_def)
  have "size_at a b c k (drop 10 (h_data h))" if "size_at a b c k pkt" "3 \<le> length pkt" for a b c k
  proof -
    have "h_data h ! 10 = pkt ! 0" "h_data h ! 11 = pkt ! 1" "k < length pkt \<Longrightarrow> h_data h ! (10 + k) = pkt ! k"
      using h(4) [of 0] h(4) [of 1] h(4) [of k] that(2) by fastforce+
    then show ?thesis using that h(2,3) by (auto simp: size_at_def msg_ok_def)
  qed
  then show ?thesis using that h assms by (auto simp: pkt_msg_def pkt_ok_def)
qed

lemma process_event_safe:
  assumes "rx_safe sub s" "env_ok e" "pkt_msg h"
  shows "wp (nfc_ncif_process_event e alloc big h s) (\<lambda>(_, s'). rx_safe sub s')"
proof -
  have m: "msg_ok h" "3 \<le> unat (h_len h) \<Longrightarrow> size_at 3 1 5 7 (drop 10 (h_data h)) \<and> size_at 2 0 4 4 (drop 10 (h_data h))"
    using assms(3) by (simp_all add: pkt_msg_def)
  have h: "unat (h_offset h) = 10" "length (h_data h) = 652" "unat (h_len h) \<le> 258" using m(1) by (auto simp: msg_ok_def)
  have l: "unat (h_data h ! 12) + 3 \<le> unat (h_len h)" if "\<not> h_len h < ucast (h_data h ! 12) + 3"
    using that unat_byte_le [of "h_data h ! 12"] by (simp add: word_less_nat_alt unat_plus3 unat_ucast_u8)
  have rxb: "rxb_ok h" if "\<not> h_len h < 3" using that m(1) by (auto simp: rxb_ok_def msg_ok_def word_less_nat_alt)
  have s3: "size_at 3 1 5 7 (drop 10 (h_data h))" "size_at 2 0 4 4 (drop 10 (h_data h))" if "\<not> h_len h < 3"
    using that m(2) by (auto simp: word_less_nat_alt)
  note b = rx_safe_base [OF assms(1)]
  show ?thesis unfolding nfc_ncif_process_event_def
    by (intro wp_intros wp_call [OF prop_raw_safe] wp_call [OF proc_data_safe] rsp_safe wp_call [OF ntf_safe];
        (use assms(1,2) m(1) h in simp; fail)?; use assms(1,2) m(1) h l rxb s3 b in \<open>auto simp: size_at_def intro!: rx_safe_upd_base\<close>)
qed

text \<open>A run of the receive path: each packet comes with the buffers that are available while it is
  processed.\<close>

primrec rx_run :: "(nci_env \<times> (nat \<Rightarrow> bool) \<times> bool \<times> mem) list \<Rightarrow> nci_rx \<Rightarrow> nci_rx option" where
  "rx_run [] s = Some s"
| "rx_run (x # xs) s =
    (case x of (e, alloc, big, pkt) \<Rightarrow> do {
       h \<leftarrow> nfc_main_hal_data_cback True pkt;
       case h of None \<Rightarrow> rx_run xs s
       | Some h \<Rightarrow> do { (_, s) \<leftarrow> nfc_ncif_process_event e alloc big h s; rx_run xs s } })"

lemma rx_run_safe:
  "rx_safe sub s \<Longrightarrow> \<forall>(e, alloc, big, pkt) \<in> set xs. env_ok e \<and> pkt_ok pkt \<Longrightarrow> wp (rx_run xs s) (rx_safe sub)"
proof (induction xs arbitrary: s)
  case (Cons x xs)
  obtain e alloc big pkt where x: "x = (e, alloc, big, pkt)" by (cases x)
  have ok: "env_ok e" "pkt_ok pkt" using Cons.prems(2) by (auto simp: x)
  obtain h where h: "nfc_main_hal_data_cback True pkt = Some (Some h)" "pkt_msg h" using cback_pkt [OF ok(2)] .
  from wp_call [OF process_event_safe [OF Cons.prems(1) ok(1) h(2)]] show ?case using Cons by (auto simp: x h(1) intro!: wp_intros)
qed (simp add: wp_def)

section \<open>Properties\<close>


text \<open>The stack after \<open>NFC_Init\<close>, with the callbacks of the client.\<close>

definition rx_init :: nci_rx where
  "rx_init = \<lparr> rx_nci = nci_init \<lparr> nci_base := (nc_init 4) \<lparr> nc_state := NFC_STATE_IDLE \<rparr> \<rparr>, rx_resp_cback = True, rx_discv_cback = True,
     rx_deact_reason = 0, rx_scbr = False, rx_init_rsp = None, rx_mode_timer = False, rx_vs_cb = [], rx_ee_id = 0, rx_ee_mode = 0,
     rx_kovio = 0x77, rx_18092 = 0xFF, rx_features = 0, rx_max_ce_table = 0, rx_ctrl_size = 0, rx_vs_interface = replicate 5 0,
     rx_interfaces = 0, rx_extensions = 0, rx_extension_map = [0, 0], rx_disc_maps = [], rx_hci_packet_size = 0, rx_hci_credits = 0,
     rx_max_v_size = 0, rx_log = [] \<rparr>"

lemma rx_init_safe: "rx_safe [] rx_init"
proof -
  have "\<forall>c\<in>set (nc_conn_cb (nc_init 4)). conn_ok c" "nc_flags (nc_init 4) = 0" by (simp_all add: nc_init_def conn_ok_def)
  then show ?thesis using conn_init_ok [of 4]
    by (simp add: rx_safe_def nci_safe_def rx_init_def nci_init_def q_ok_def pend_ok_def nci_fl_def base_safe_def [of "nc_init 4"])
qed


text \<open>C15. A response that does not belong to the last command is ignored: when no raw vendor command is waiting
  and group or opcode of the response differ from those of the command sent last, the packet is released and
  nothing in the stack changes, the command window and the callbacks of the client included.\<close>

theorem nci_unexpected_rsp:
  assumes "rx_safe sub s" "msg_ok h" "b0 = h_data h ! 10" "drop_bit 5 (b0 AND 0xE0) = 2" "\<not> nci_raw_vs (rx_nci s)"
    "nci_last_hdr (rx_nci s) ! 0 AND 0x0F \<noteq> b0 AND 0x0F \<or> nci_last_hdr (rx_nci s) ! 1 AND 0x3F \<noteq> h_data h ! 11 AND 0x3F"
  shows "nfc_ncif_process_event e alloc big h s = Some (True, s)"
proof -
  have h: "unat (h_offset h) = 10" "length (h_data h) = 652" using assms(2) by (auto simp: msg_ok_def)
  have l: "length (nci_last_hdr (rx_nci s)) = 2" using rx_safe_last [OF assms(1)] by simp
  have "nci_proc_rsp e h (b0 AND 0x0F) (h_data h ! 11 AND 0x3F) s = Some (True, s)"
    using l assms(6) by (auto simp: nci_proc_rsp_def rd8_in)
  then show ?thesis using h assms(3-5) by (simp add: nfc_ncif_process_event_def Let_def rd8_in)
qed

theorem nci_unexpected_rsp_witness:
  "nfc_ncif_process_event env_plain (\<lambda>_. True) True
     \<lparr> h_event = 0, h_len = 4, h_offset = 10, h_layer = 0, h_data = replicate 10 0 @ [0x41, 0x03, 1, 0] @ replicate 638 0 \<rparr> rx_init = Some (True, rx_init)"
  by (rule nci_unexpected_rsp [OF rx_init_safe _ refl]) (simp_all add: msg_ok_def nth_append rx_init_def nci_init_def)

section \<open>Limits of the code\<close>

text \<open>The length of a notification of the core group is kept in eight bits: a packet of 256 bytes or more
  is dropped.\<close>

lemma core_ntf_long_dropped: "h_len h \<in> {0x100, 0x101, 0x102} \<Longrightarrow> nci_proc_core_ntf e alloc h s = Some s"
  by (auto simp: nci_proc_core_ntf_def)

text \<open>Credits that reach the mark for no flow control make the sending loop run forever when the
  controller has reported buffers of size zero.\<close>

lemma credits_hang:
  assumes "nfc_find_conn_cb_by_conn_id cid b = Some i" "i < length (nc_conn_cb b)" "c = nc_conn_cb b ! i" "cc_buff_size c = 0" "cc_num_buff c = 0xFE"
    "cc_tx_q c = p # q" "h_len p \<noteq> 0" "tx_allowed i b" "\<forall>n. alloc n"
  shows "nfc_ncif_proc_credits alloc [1, cid, 1] 0 3 b = None"
proof -
  let ?b = "upd_cb i (\<lambda>c. c \<lparr> cc_num_buff := cc_num_buff c + 1 \<rparr>) b"
  have "send_loop alloc 1 (c \<lparr> cc_num_buff := 0xFF, cc_tx_q := p # q \<rparr>) [] = None"
    by (rule send_loop_diverges) (use assms in auto)
  then have "nfc_ncif_send_data alloc i None ?b = None"
    using assms by (simp add: nfc_ncif_send_data_def tx_allowed_def Let_def)
  then show ?thesis using assms(1,3,5) by (simp add: nfc_ncif_proc_credits_def rd8_in)
qed

text \<open>The number of entries reported for a discovery request of an execution environment is the one of the packet, also
  when fewer entries follow.\<close>

lemma ee_discover_count:
  "map_option rx_log (nfc_ncif_proc_ee_discover_req [6, 0, 3, 0x81, 0, 4] 0 6 rx_init) = Some [Ee_discover_req_revt 6 [(0, 0x81, 0, 4)]]"
  unfolding rx_init_def nci_init_def nc_init_def by code_simp

text \<open>The bytes of an unknown parameter are not skipped: the value of the first parameter is parsed as parameters.\<close>

lemma app_init_unknown_tag:
  "map_option ea_aid (app_init_loop [0xB0, 3, 0xC0, 1, 7, 0xC0, 2, 8, 9] 0 9 \<lparr> ea_nfcee_id = 0, ea_trigger = 0, ea_aid = [], ea_tech = 0, ea_data = [] \<rparr>) = Some [7]"
  by code_simp

text \<open>A response without parameters is read behind its end: in a buffer of the size of the packet the access is out of bounds.\<close>

lemma short_rsp_read:
  "nci_proc_rf_management_rsp \<lparr> h_event = 0, h_len = 3, h_offset = 0, h_layer = 0, h_data = [0x41, 0x03, 0] \<rparr> s = None"
  by (simp add: nci_proc_rf_management_rsp_def op_of_def rd8_def)

end
