(* ===== verification/NciInitProofs.thy ===== *)
theory NciInitProofs
  imports NciRecvProofs
begin

text \<open>
  The end of the initialisation: \<open>nfc_enabled\<close> of \<^verbatim>\<open>nfc/nfc_main.cc\<close> parses the answer to the init
  command, sets up the static connections and the limits of the controller and sends the discovery map. The lemmas
  step through its parts with the weakest precondition of the option monad.
\<close>

section \<open>The answer to the init command\<close>

text \<open>Statements about a state of which only fields outside the command layer change.\<close>

definition same_core :: "nci_rx \<Rightarrow> nci_rx \<Rightarrow> bool" where
  "same_core s s' \<longleftrightarrow> rx_nci s' = rx_nci s \<and> rx_disc_maps s' = rx_disc_maps s \<and> rx_init_rsp s' = rx_init_rsp s"

lemma same_core_upd [simp]:
  "same_core s s" "same_core s (s' \<lparr> rx_interfaces := d \<rparr>) = same_core s s'" "same_core (s \<lparr> rx_interfaces := d \<rparr>) s' = same_core s s'"
  "same_core s (s' \<lparr> rx_extensions := x, rx_extension_map := m \<rparr>) = same_core s s'"
  "same_core (s \<lparr> rx_extensions := x, rx_extension_map := m \<rparr>) s' = same_core s s'"
  by (simp_all add: same_core_def)

lemma same_core_trans: "same_core s t \<Longrightarrow> same_core t u \<Longrightarrow> same_core s u"
  by (simp add: same_core_def)

lemma same_core_safe: "same_core s s' \<Longrightarrow> rx_safe sub s' = rx_safe sub s"
  by (simp add: rx_safe_def same_core_def)

lemma note_interface_core: "same_core (snd ys) (snd (note_interface b ys))"
  by (auto simp: note_interface_def same_core_def split: prod.splits)

lemma interfaces1_in:
  "p + n \<le> length m \<Longrightarrow> wp (interfaces1 m p n ys) (\<lambda>r. same_core (snd ys) (snd r))"
proof (induction n arbitrary: p ys)
  case (Suc n)
  show ?case unfolding interfaces1.simps
    by (intro wp_intros wp_call [OF Suc.IH]) (use Suc.prems same_core_trans [OF note_interface_core] in auto)
qed (simp add: wp_def)

lemma extensions_in:
  "p + n \<le> length m \<Longrightarrow> wp (extensions m p n ty s) (same_core s)"
proof (induction n arbitrary: p s)
  case (Suc n)
  show ?case unfolding extensions.simps by (intro wp_intros wp_call [OF Suc.IH]) (use Suc.prems in \<open>auto split: if_splits\<close>)
qed (simp add: wp_def)

abbreviation same_either :: "nci_rx \<Rightarrow> nci_rx + nci_rx \<Rightarrow> bool" where
  "same_either s r \<equiv> (case r of Inl s' \<Rightarrow> same_core s s' | Inr s' \<Rightarrow> same_core s s')"

lemma note_interface_snd: "(yy, s) = note_interface b ys \<Longrightarrow> same_core (snd ys) s"
  using note_interface_core [of ys b] by (metis snd_conv)

lemma interfaces2_in:
  "int p + l \<le> int (length m) \<Longrightarrow> wp (interfaces2 m p n l ys) (same_either (snd ys))"
proof (induction n arbitrary: p l ys)
  case (Suc n)
  have u: "Suc (Suc (p + unat x)) \<le> length m" if "\<not> l - 2 < uint x" "int p + l \<le> int (length m)" for x :: u8
  proof -
    have "int (unat x) = uint x" by simp
    then show ?thesis using that by linarith
  qed
  show ?case unfolding interfaces2.simps
    by (intro wp_intros wp_call [OF extensions_in] wp_call [OF Suc.IH])
      (use Suc.prems u in \<open>auto split: sum.splits dest!: note_interface_snd intro: same_core_trans\<close>)
qed (simp add: wp_def)

lemma discovery_map_safe:
  assumes "rx_safe sub s" "env_ok e" "length maps \<le> 8"
  shows "wp (NFC_DiscoveryMap e maps cb s) (rx_safe sub)"
proof -
  let ?ms = "filter (map_supported (s \<lparr> rx_discv_cback := cb \<rparr>)) maps"
  let ?bs = "concat (map (\<lambda>(p, m, i). [p, m, i]) ?ms)"
  have l: "length ?ms \<le> 8" using assms(3) length_filter_le [of "map_supported (s \<lparr> rx_discv_cback := cb \<rparr>)" maps] by linarith
  have b: "length (concat (map (\<lambda>(p, m, i). [p, m, i]) xs)) = 3 * length xs" for xs :: "(u8 \<times> u8 \<times> u8) list" by (induction xs) auto
  have u: "unat (of_nat (length ?ms) :: u8) = length ?ms" using l by (simp add: unat_of_nat_u8)
  have "unat (of_nat (1 + 3 * length ?ms) :: u8) = 1 + 3 * length ?ms" using l by (intro unat_of_nat_u8) simp
  then have "unat (3 + ucast (of_nat (1 + 3 * length ?ms) :: u8) :: u16) \<le> 651" using unat_len16 [of "1 + 3 * length ?ms" 3] l by simp
  then have "wp (nci_snd_discover_map_cmd e (of_nat (length ?ms)) ?bs (rx_nci s)) (\<lambda>(_, n). nci_safe n \<and> ext (rx_nci s) n)"
    unfolding nci_snd_discover_map_cmd_def
    by (intro wp_intros snd_safe) (use rx_safe_nciD [OF assms(1)] assms(2) l in \<open>auto simp: u b nci_cmd_hdr_def simp del: of_nat_Suc of_nat_add\<close>)
  then show ?thesis using l assms(1) unfolding NFC_DiscoveryMap_def Let_def
    by (auto simp: wp_def rx_safe_def ext_def)
qed

text \<open>The static connections have no other identifier yet, and nothing waits to be sent to the HCI network.\<close>

definition static_free :: "nfc_conns \<Rightarrow> bool" where
  "static_free b \<longleftrightarrow> (\<forall>i<2. NFC_MAX_CONN_ID < unat (cc_conn_id (nc_conn_cb b ! i)) \<or> cc_conn_id (nc_conn_cb b ! i) = of_nat i) \<and>
     cc_tx_q (nc_conn_cb b ! 1) = []"

lemma set_static_safe:
  assumes "base_safe b" "static_free b" "i < 2"
  shows "wp (nfc_set_conn_id (Some i) (of_nat i) b) (\<lambda>b'. base_safe b' \<and> static_free b' \<and> nc_flags b' = nc_flags b \<and> nc_version b' = nc_version b)"
proof -
  have n: "length (nc_conn_cb b) = 4" using assms(1) by (simp add: base_safe_def conns_ok_def NCI_MAX_CONN_CBS_def)
  have u: "unat (of_nat i :: u8) \<le> NFC_MAX_CONN_ID" using assms(3) by (simp add: unat_of_nat_u8 NFC_MAX_CONN_ID_def)
  then obtain b' where b': "nfc_set_conn_id (Some i) (of_nat i) b = Some b'" by (simp add: nfc_set_conn_id_def)
  have eq: "nc_conn_cb b' = (nc_conn_cb b)[i := (nc_conn_cb b ! i) \<lparr> cc_conn_id := of_nat i \<rparr>]" "nc_flags b' = nc_flags b \<and> nc_version b' = nc_version b"
    using b' u by (auto simp: nfc_set_conn_id_def)
  have "conns_ok b'"
    by (rule set_conn_id_ok [OF _ _ _ b']) (use assms in \<open>auto simp: base_safe_def static_free_def NCI_MAX_CONN_CBS_def\<close>)
  moreover have "conn_ok (nc_conn_cb b ! i)" using base_safe_nth [OF assms(1), of i] assms(3) by (simp add: NCI_MAX_CONN_CBS_def)
  ultimately have "base_safe b'" using assms(1) eq(1) set_update_subset_insert [of "nc_conn_cb b" i] by (fastforce simp: base_safe_def conn_ok_def)
  moreover have "static_free b'" using assms(2,3) n by (auto simp: static_free_def eq(1) nth_list_update less_2_cases_iff)
  ultimately show ?thesis using b' eq(2) by (simp add: wp_def)
qed

definition init_ready :: "mem list \<Rightarrow> nci_rx \<Rightarrow> bool" where
  "init_ready sub s \<longleftrightarrow> rx_safe sub s \<and> static_free (rx_base s)"

lemma rx_base_upd [simp]: "rx_base (upd_base f s) = f (rx_base s)" "rx_disc_maps (upd_base f s) = rx_disc_maps s"
  by (simp_all add: upd_base_def rx_base_def)

lemma rx_base_fields [simp]:
  "rx_base (s \<lparr> rx_max_ce_table := a \<rparr>) = rx_base s" "rx_base (s \<lparr> rx_features := b \<rparr>) = rx_base s" "rx_base (s \<lparr> rx_ctrl_size := c \<rparr>) = rx_base s"
  "rx_base (s \<lparr> rx_interfaces := d \<rparr>) = rx_base s" "rx_base (s \<lparr> rx_hci_packet_size := c \<rparr>) = rx_base s" "rx_base (s \<lparr> rx_hci_credits := c \<rparr>) = rx_base s"
  "rx_base (s \<lparr> rx_max_v_size := a \<rparr>) = rx_base s"
  by (simp_all add: rx_base_def)

lemma init_ready_base:
  "init_ready sub s \<Longrightarrow> base_safe (f (rx_base s)) \<Longrightarrow> static_free (f (rx_base s)) \<Longrightarrow> nc_flags (f (rx_base s)) = nc_flags (rx_base s) \<Longrightarrow> init_ready sub (upd_base f s)"
  by (simp add: init_ready_def rx_safe_upd_base)

lemma same_core_ready: "same_core s s' \<Longrightarrow> init_ready sub s' = init_ready sub s"
  by (simp add: init_ready_def rx_base_def same_core_safe) (simp add: same_core_def)

lemma init_ready_upd [simp]:
  "init_ready sub (s \<lparr> rx_interfaces := d \<rparr>) = init_ready sub s"
  "init_ready sub (s \<lparr> rx_max_ce_table := a, rx_features := b, rx_ctrl_size := c \<rparr>) = init_ready sub s"
  "init_ready sub (s \<lparr> rx_hci_packet_size := e, rx_hci_credits := f, rx_max_v_size := g \<rparr>) = init_ready sub s"
  by (auto simp: same_core_def intro!: same_core_ready)

lemma init_ready_state: "init_ready sub s \<Longrightarrow> init_ready sub (nfc_set_state st s)"
  unfolding nfc_set_state_def by (rule init_ready_base) (auto simp: init_ready_def static_free_def dest: rx_safe_base)

lemma init_ready_max: "init_ready sub s \<Longrightarrow> init_ready sub (upd_base (\<lambda>b. b \<lparr> nc_max_conn := mx \<rparr>) s)"
  by (rule init_ready_base) (auto simp: init_ready_def static_free_def dest: rx_safe_base)

lemma init_ready_cb:
  assumes "init_ready sub s" "\<And>c. cc_conn_id (g c) = cc_conn_id c" "\<And>c. cc_tx_q (g c) = cc_tx_q c" "i < 2"
    "conn_ok (nc_conn_cb (rx_base s) ! i) \<Longrightarrow> conn_ok (g (nc_conn_cb (rx_base s) ! i))"
  shows "init_ready sub (upd_base (upd_cb i g) s)"
proof -
  have b: "base_safe (rx_base s)" "static_free (rx_base s)" using assms(1) rx_safe_base by (auto simp: init_ready_def)
  then have n: "length (nc_conn_cb (rx_base s)) = 4" by (simp add: base_safe_def conns_ok_def NCI_MAX_CONN_CBS_def)
  have "static_free (upd_cb i g (rx_base s))"
    using b(2) n assms(2-4) by (auto simp: static_free_def nth_list_update less_2_cases_iff)
  moreover have "base_safe (upd_cb i g (rx_base s))" by (rule base_safe_upd_cb [OF b(1)]) (use assms in auto)
  ultimately show ?thesis by (intro init_ready_base [OF assms(1)]) auto
qed

lemma set_static_ready:
  assumes "init_ready sub s" "i < 2"
  shows "wp (nfc_set_conn_id (Some i) (of_nat i) (rx_base s)) (\<lambda>b. init_ready sub (upd_base (\<lambda>_. b) s) \<and> nc_version b = nc_version (rx_base s))"
  using set_static_safe [of "rx_base s" i] assms rx_safe_base [of sub s]
  by (auto simp: init_ready_def elim!: wp_call intro!: rx_safe_upd_base)

lemmas set_rf_ready = set_static_ready [of _ _ 0, simplified]

text \<open>The interface of what the parts of the answer leave behind: the rest of the packet starts at \<open>p\<close> and has at
  least \<open>l\<close> bytes, one more when the list of interfaces was not in the head.\<close>

lemma init_head_in:
  assumes "init_ready sub s" "int p + 9 + l \<le> int (length m)" "0 \<le> l"
  shows "wp (init_head m p l s) (\<lambda>r. case r of Inl s' \<Rightarrow> init_ready sub s'
    | Inr (p', l', _, s') \<Rightarrow> init_ready sub s' \<and> nc_version (rx_base s') = nc_version (rx_base s) \<and>
        int p' + l' + (if nc_version (rx_base s) = NCI_VERSION_1_0 then 0 else 1) \<le> int (length m))"
proof -
  have i1: "wp (interfaces1 m q (unat n) (0, s \<lparr> rx_interfaces := 0 \<rparr>)) (\<lambda>(_, s'). init_ready sub s' \<and> rx_base s' = rx_base s)"
    if "int (unat n) \<le> l" "q = p + 5" for n :: u8 and q
    by (rule wp_call [OF interfaces1_in]) (use that assms in \<open>auto simp del: of_nat_unat simp: rx_base_def same_core_ready, auto simp: same_core_def\<close>)
  show ?thesis unfolding init_head_def
    by (intro wp_intros wp_call [OF i1] wp_call [OF set_rf_ready])
      (use assms in \<open>auto simp del: of_nat_unat simp: conn_ok_def intro!: init_ready_cb init_ready_max\<close>)
qed

lemma init_tail2_in:
  assumes "init_ready sub s" "int p + l + 1 \<le> int (length m)"
  shows "wp (init_tail2 m p l feat s) (\<lambda>r. case r of Inl (i, s') \<Rightarrow> i < 2 \<and> init_ready sub s' | Inr s' \<Rightarrow> init_ready sub s')"
proof -
  have s1: "wp (nfc_set_conn_id (Some 1) 1 (rx_base s)) (\<lambda>b. init_ready sub (upd_base (\<lambda>_. b) s))"
    using wp_call [OF set_static_ready [OF assms(1), of 1]] by simp
  have hci: "init_ready sub (upd_base (\<lambda>_. upd_cb (Suc 0) (\<lambda>c. c \<lparr> cc_id := 1, cc_buff_size := bsz, cc_num_buff := n, cc_init_credits := n \<rparr>) b) s)"
    if "init_ready sub (upd_base (\<lambda>_. b) s)" for b bsz n
  proof -
    have q: "cc_tx_q (nc_conn_cb b ! Suc 0) = []" using that by (simp add: init_ready_def static_free_def)
    have "init_ready sub (upd_base (upd_cb (Suc 0) (\<lambda>c. c \<lparr> cc_id := 1, cc_buff_size := bsz, cc_num_buff := n, cc_init_credits := n \<rparr>)) (upd_base (\<lambda>_. b) s))"
      by (rule init_ready_cb [OF that]) (use q in \<open>auto simp: conn_ok_def\<close>)
    then show ?thesis by (simp add: upd_base_def rx_base_def)
  qed
  have i2: "wp (interfaces2 m q n k (0, t \<lparr> rx_interfaces := 0 \<rparr>)) (\<lambda>r. case r of Inl s' \<Rightarrow> init_ready sub (s' \<lparr> rx_interfaces := x \<rparr>) | Inr s' \<Rightarrow> init_ready sub s')"
    if "init_ready sub t" "int q + k \<le> int (length m)" for q n k t x
    by (rule wp_call [OF interfaces2_in [OF that(2)]]) (use that(1) in \<open>auto split: sum.splits simp: same_core_ready\<close>)
  show ?thesis unfolding init_tail2_def
    by (intro wp_intros wp_call [OF s1] wp_call [OF i2]) (use assms in \<open>auto intro!: hci split: sum.splits\<close>)
qed

lemma init_ready_safe: "init_ready sub s \<Longrightarrow> rx_safe sub s" "init_ready sub s \<Longrightarrow> length (rx_disc_maps s) \<le> 8"
  by (simp_all add: init_ready_def rx_safe_def)

lemma enable_failed_ready: "init_ready sub s \<Longrightarrow> i < 2 \<Longrightarrow> rx_safe sub (enable_failed i st s)"
  by (rule enable_failed_safe) (auto simp: init_ready_def NCI_MAX_CONN_CBS_def)

lemma map_notify_safe:
  assumes "init_ready sub s" "env_ok e"
  shows "wp (do { s \<leftarrow> NFC_DiscoveryMap e (rx_disc_maps s) cb s; Some (nfc_main_notify_enable_status st s) }) (rx_safe sub)"
  by (intro wp_bind wp_Some wp_call [OF discovery_map_safe [OF init_ready_safe(1) [OF assms(1)]]]) (use assms in \<open>auto simp: init_ready_safe notify_safe\<close>)

lemma enabled_v2_safe:
  assumes "init_ready sub s" "env_ok e" "int p + l + 1 \<le> int (length m)"
  shows "wp (do { r \<leftarrow> init_tail2 m p l feat s;
      case r of Inl (i, s) \<Rightarrow> Some (enable_failed i NCI_STATUS_FAILED s)
      | Inr s \<Rightarrow> do { s \<leftarrow> NFC_DiscoveryMap e (rx_disc_maps s) False s; Some (nfc_main_notify_enable_status NCI_STATUS_OK s) } }) (rx_safe sub)"
  by (rule wp_bind, rule wp_call [OF init_tail2_in [OF assms(1,3)]])
    (use assms(2) in \<open>auto intro!: wp_Some map_notify_safe enable_failed_ready split: sum.splits\<close>)

lemma enabled_v1_safe:
  assumes "init_ready sub s" "env_ok e" "p + 7 \<le> length m"
  shows "wp (do { _ \<leftarrow> rd_bytes m p 7;
      s \<leftarrow> NFC_DiscoveryMap e (rx_disc_maps s) False s; Some (nfc_main_notify_enable_status NCI_STATUS_OK s) }) (rx_safe sub)"
  by (rule wp_bind, rule wp_rd_bytes) (use assms in \<open>auto intro!: map_notify_safe\<close>)

lemma enabled_safe:
  assumes "rx_safe sub s" "static_free (rx_base s)" "env_ok e" "unat (h_offset h) + unat (h_len h) \<le> length (h_data h)"
  shows "wp (nfc_enabled e st (Some h) s) (rx_safe sub)"
proof -
  let ?s = "nfc_set_state NFC_STATE_IDLE s" and ?p = "unat (h_offset h) + 4" and ?l = "int (unat (h_len h)) - 3 - 1 - 4 - 5"
  have r0: "init_ready sub s" using assms(1,2) by (simp add: init_ready_def)
  note r = r0 init_ready_state [OF r0, of NFC_STATE_IDLE]
  show ?thesis
  proof (cases "st = NCI_STATUS_OK \<and> 0 \<le> ?l")
    case True
    then obtain x where x: "init_head (h_data h) ?p ?l ?s = Some x" "case x of Inl s' \<Rightarrow> init_ready sub s'
        | Inr (p', l', _, s') \<Rightarrow> init_ready sub s' \<and> nc_version (rx_base s') = nc_version (rx_base ?s) \<and>
            int p' + l' + (if nc_version (rx_base ?s) = NCI_VERSION_1_0 then 0 else 1) \<le> int (length (h_data h))"
      using wpE [OF init_head_in [OF r(2), of ?p ?l "h_data h"]] assms(4) by (auto simp del: of_nat_unat)
    show ?thesis unfolding nfc_enabled_def using True x
      by (auto simp del: of_nat_unat simp: Let_def split: sum.splits prod.splits
          intro!: enabled_v2_safe enabled_v1_safe wp_Some enable_failed_ready assms(3))
  next
    case False
    then show ?thesis unfolding nfc_enabled_def using r by (auto simp: Let_def intro!: wp_Some enable_failed_ready)
  qed
qed


text \<open>An answer of NCI 2.0 with an HCI connection and one interface that claims 200 extensions.\<close>

definition ex_init_rsp :: nfc_hdr where
  "ex_init_rsp = \<lparr> h_event = 0, h_len = 19, h_offset = 0, h_layer = 0,
     h_data = [0x40, 0x01, 0x10, 0, 8, 0, 0, 0, 1, 0, 2, 0xFF, 0xFF, 1, 0, 1, 1, 2, 200] \<rparr>"


end
