(* ===== verification/NfcMain.thy ===== *)
theory NfcMain
  imports NciInitProofs
begin

text \<open>
  The life cycle of the stack: \<^verbatim>\<open>nfc/nfc_main.cc\<close> (initialisation, enabling, disabling, power modes, the events
  of the transport and the requests of the client) and the main loop of the task in \<^verbatim>\<open>nfc/nfc_task.cc\<close>. The state
  adds to that of the receive path the mailbox of the task, the pending event that the transport is ready and
  the two globals that choose how the controller is reset. Calls of the transport and of the client are logged. The
  task's periodic timers are modelled with the timer lists; here an expired timer is an input of the loop.
\<close>

section \<open>State\<close>

datatype task_msg = To_nfc_nci nfc_hdr | To_nfc_msgs u8 u8 | To_start_timer | To_start_quick_timer

record nfc_sys =
  sy_rx :: nci_rx
  sy_mbox :: "task_msg list"
  sy_ready :: bool
  sy_reset_type :: u8
  sy_keep_cfg :: bool
  sy_nfcc_mode :: u8

abbreviation (input) "HAL_NFC_OPEN_CPLT_EVT \<equiv> 0 :: u8"
abbreviation (input) "HAL_NFC_CLOSE_CPLT_EVT \<equiv> 1 :: u8"
abbreviation (input) "HAL_NFC_POST_INIT_CPLT_EVT \<equiv> 2 :: u8"
abbreviation (input) "HAL_NFC_PRE_DISCOVER_CPLT_EVT \<equiv> 3 :: u8"
abbreviation (input) "HAL_NFC_REQUEST_CONTROL_EVT \<equiv> 4 :: u8"
abbreviation (input) "HAL_NFC_RELEASE_CONTROL_EVT \<equiv> 5 :: u8"
abbreviation (input) "HAL_NFC_ERROR_EVT \<equiv> 6 :: u8"
abbreviation (input) "HAL_HCI_NETWORK_RESET \<equiv> 7 :: u8"
abbreviation (input) "HAL_NFC_STATUS_OK \<equiv> 0 :: u8"
abbreviation (input) "HAL_NFC_STATUS_ERR_TRANSPORT \<equiv> 2 :: u8"
abbreviation (input) "HAL_NFC_STATUS_ERR_CMD_TIMEOUT \<equiv> 3 :: u8"
abbreviation (input) "ENABLE_MODE_TRANSPARENT \<equiv> 2 :: u8"

definition upd_rx :: "(nci_rx \<Rightarrow> nci_rx) \<Rightarrow> nfc_sys \<Rightarrow> nfc_sys" where
  "upd_rx f y = y \<lparr> sy_rx := f (sy_rx y) \<rparr>"

definition bind_rx :: "(nci_rx \<Rightarrow> nci_rx option) \<Rightarrow> nfc_sys \<Rightarrow> nfc_sys option" where
  "bind_rx f y = do { s \<leftarrow> f (sy_rx y); Some (y \<lparr> sy_rx := s \<rparr>) }"

definition sy_state :: "nfc_sys \<Rightarrow> nfc_state" where
  "sy_state y = nc_state (rx_base (sy_rx y))"

section \<open>Initialisation of the control block\<close>

text \<open>The two entries of the interface mapping: ISO-DEP and NFC-DEP for polling and listening.\<close>

definition nfc_interface_mapping :: "(u8 \<times> u8 \<times> u8) list" where
  "nfc_interface_mapping = [(4, 3, 2), (5, 3, 3)]"

definition NFC_Init :: "nfc_sys \<Rightarrow> nfc_sys" where
  "NFC_Init y = y \<lparr> sy_nfcc_mode := 0,
     sy_rx := \<lparr> rx_nci = \<lparr> nci_base = nc_init 1, nci_window = NCI_MAX_CMD_WINDOW, nci_xmit_q = [], nci_last_hdr = [0, 0],
                  nci_last_cmd = [0, 0], nci_last_nfcee_cmd = [0, 0], nci_vsc_cback = replicate 8 0, nci_raw_vs = False,
                  nci_disc_pending = None, nci_rsp_timer = False, nci_out = nci_out (rx_nci (sy_rx y)) \<rparr>,
       rx_resp_cback = False, rx_discv_cback = False, rx_deact_reason = 0, rx_scbr = False, rx_init_rsp = None, rx_mode_timer = False,
       rx_vs_cb = replicate 3 False, rx_ee_id = rx_ee_id (sy_rx y), rx_ee_mode = rx_ee_mode (sy_rx y), rx_kovio = rx_kovio (sy_rx y),
       rx_18092 = rx_18092 (sy_rx y), rx_features = 0, rx_max_ce_table = 0, rx_ctrl_size = 32, rx_vs_interface = replicate 5 0,
       rx_interfaces = 0, rx_extensions = 0, rx_extension_map = [0, 0], rx_disc_maps = nfc_interface_mapping, rx_hci_packet_size = 0,
       rx_hci_credits = 0, rx_max_v_size = 0, rx_log = rx_log (sy_rx y) \<rparr> \<rparr>"

section \<open>Callbacks of the transport\<close>

text \<open>They run in the thread of the transport and only post a message or an event; \<open>buf\<close> says whether a
  buffer is available.\<close>

definition nfc_main_post_hal_evt :: "bool \<Rightarrow> u8 \<Rightarrow> u8 \<Rightarrow> nfc_sys \<Rightarrow> nfc_sys" where
  "nfc_main_post_hal_evt buf ev st y = (if buf then y \<lparr> sy_mbox := sy_mbox y @ [To_nfc_msgs ev st] \<rparr> else y)"

definition nfc_main_hal_cback :: "bool \<Rightarrow> u8 \<Rightarrow> u8 \<Rightarrow> nfc_sys \<Rightarrow> nfc_sys" where
  "nfc_main_hal_cback buf ev st y =
    (if ev = HAL_NFC_OPEN_CPLT_EVT then
       if sy_state y = NFC_STATE_W4_HAL_OPEN then
         if st = HAL_NFC_STATUS_OK then y \<lparr> sy_ready := True \<rparr> else nfc_main_post_hal_evt buf ev st y
       else y
     else if ev \<le> HAL_HCI_NETWORK_RESET then nfc_main_post_hal_evt buf ev st y
     else y)"

definition hal_data_cback :: "bool \<Rightarrow> mem \<Rightarrow> nfc_sys \<Rightarrow> nfc_sys option" where
  "hal_data_cback buf pkt y =
    (if sy_state y = NFC_STATE_W4_HAL_CLOSE then Some y
     else do {
       h \<leftarrow> nfc_main_hal_data_cback buf pkt;
       Some (case h of None \<Rightarrow> y | Some h \<Rightarrow> y \<lparr> sy_mbox := sy_mbox y @ [To_nfc_nci h] \<rparr>) })"

section \<open>Shutdown\<close>

definition rx_gen_cleanup :: "nci_rx \<Rightarrow> nci_rx" where
  "rx_gen_cleanup s = s \<lparr> rx_nci := nfc_gen_cleanup (rx_nci s), rx_init_rsp := None \<rparr>"

definition nfc_task_shutdown_nfcc :: "nfc_sys \<Rightarrow> nfc_sys" where
  "nfc_task_shutdown_nfcc y =
    (let s = rx_gen_cleanup (sy_rx y);
         s = (if nci_fl NFC_FL_POWER_OFF_SLEEP (rx_nci s) then rx_ev Hal_close (nfc_set_state NFC_STATE_W4_HAL_CLOSE s)
              else if nci_fl NFC_FL_POWER_CYCLE_NFCC (rx_nci s) then rx_ev Hal_power_cycle (nfc_set_state NFC_STATE_W4_HAL_OPEN s)
              else rx_ev Stop_timers (rx_ev Hal_close (nfc_set_state NFC_STATE_W4_HAL_CLOSE s)))
     in y \<lparr> sy_rx := s, sy_mbox := [] \<rparr>)"

section \<open>Enabling, disabling and power modes\<close>

definition NFC_Enable :: "bool \<Rightarrow> nfc_sys \<Rightarrow> u8 \<times> nfc_sys" where
  "NFC_Enable cback y =
    (if \<not> cback then (NFC_STATUS_INVALID_PARAM, y)
     else (NCI_STATUS_OK, upd_rx (\<lambda>s. rx_ev Hal_open (nfc_set_state NFC_STATE_W4_HAL_OPEN (s \<lparr> rx_resp_cback := True \<rparr>))) y))"

text \<open>The report that ends a session also forgets the callback.\<close>

definition disable_report :: "nci_rx \<Rightarrow> nci_rx" where
  "disable_report s = (resp_cb Disable_revt s) \<lparr> rx_resp_cback := False \<rparr>"

definition NFC_Disable :: "nfc_sys \<Rightarrow> nfc_sys" where
  "NFC_Disable y =
    (if sy_state y = NFC_STATE_NONE \<or> sy_state y = NFC_STATE_NFCC_POWER_OFF_SLEEP
     then upd_rx (\<lambda>s. disable_report (nfc_set_state NFC_STATE_NONE s)) y
     else nfc_task_shutdown_nfcc y)"

definition rx_set_fl :: "u16 \<Rightarrow> nci_rx \<Rightarrow> nci_rx" where
  "rx_set_fl f s = s \<lparr> rx_nci := nci_set_fl f (rx_nci s) \<rparr>"

definition NFC_SetPowerOffSleep :: "bool \<Rightarrow> nfc_sys \<Rightarrow> u8 \<times> nfc_sys" where
  "NFC_SetPowerOffSleep enable y =
    (if \<not> enable \<and> sy_state y = NFC_STATE_NFCC_POWER_OFF_SLEEP
     then (NCI_STATUS_OK, upd_rx (\<lambda>s. rx_ev Hal_open (nfc_set_state NFC_STATE_W4_HAL_OPEN (rx_set_fl NFC_FL_RESTARTING s))) y)
     else if enable \<and> sy_state y = NFC_STATE_IDLE
     then (NCI_STATUS_OK, nfc_task_shutdown_nfcc (upd_rx (rx_set_fl NFC_FL_POWER_OFF_SLEEP) y))
     else (NCI_STATUS_FAILED, y))"

definition NFC_PowerCycleNFCC :: "nfc_sys \<Rightarrow> u8 \<times> nfc_sys" where
  "NFC_PowerCycleNFCC y =
    (if sy_state y = NFC_STATE_IDLE
     then (NCI_STATUS_OK, nfc_task_shutdown_nfcc (upd_rx (rx_set_fl NFC_FL_POWER_CYCLE_NFCC) y))
     else (NCI_STATUS_FAILED, y))"

section \<open>Events of the transport\<close>

definition hal_close_cplt :: "nci_rx \<Rightarrow> nci_rx" where
  "hal_close_cplt s =
    (if rx_resp_cback s then
       if nc_state (rx_base s) = NFC_STATE_W4_HAL_CLOSE then
         if nci_fl NFC_FL_POWER_OFF_SLEEP (rx_nci s)
         then resp_cb Power_off_revt (nfc_set_state NFC_STATE_NFCC_POWER_OFF_SLEEP (rx_clr_fl NFC_FL_POWER_OFF_SLEEP s))
         else disable_report (nfc_set_state NFC_STATE_NONE s)
       else nfc_main_notify_enable_status NCI_STATUS_FAILED (nfc_set_state NFC_STATE_NONE s)
     else s)"

definition hal_post_init_cplt :: "nci_env \<Rightarrow> u8 \<Rightarrow> u8 \<Rightarrow> nci_rx \<Rightarrow> nci_rx option" where
  "hal_post_init_cplt e mode st s =
    (if mode = ENABLE_MODE_TRANSPARENT then Some (rx_ev Partial_enable (nfc_set_state NFC_STATE_IDLE s))
     else (case rx_init_rsp s of
         None \<Rightarrow> Some s
       | Some h \<Rightarrow> do {
           s \<leftarrow> (if nc_state (rx_base s) = NFC_STATE_W4_POST_INIT_CPLT then
                   if st = HAL_NFC_STATUS_OK then nfc_enabled e NCI_STATUS_OK (Some h) s
                   else nfc_enabled e NCI_STATUS_FAILED None s
                 else Some s);
           Some (s \<lparr> rx_init_rsp := None \<rparr>) }))"

definition cmd_timeout_report :: "u8 \<Rightarrow> nci_rx \<Rightarrow> nci_rx" where
  "cmd_timeout_report st s =
    (if st = HAL_NFC_STATUS_ERR_CMD_TIMEOUT then nfc_ncif_event_status NFCC_TIMEOUT_REVT NFC_STATUS_HW_TIMEOUT s else s)"

definition hal_error :: "nci_env \<Rightarrow> u8 \<Rightarrow> nci_rx \<Rightarrow> nci_rx option" where
  "hal_error e st s =
    (if st = HAL_NFC_STATUS_ERR_TRANSPORT then
       if rx_resp_cback s then
         let s = resp_cb Transport_err_revt s in
         if before_idle (nc_state (rx_base s)) then nfc_enabled e NCI_STATUS_FAILED None s else Some s
       else Some s
     else if st = HAL_NFC_STATUS_ERR_CMD_TIMEOUT then
       let s = nfc_ncif_event_status NFCC_TIMEOUT_REVT NFC_STATUS_HW_TIMEOUT s in
       if before_idle (nc_state (rx_base s)) then nfc_enabled e NCI_STATUS_FAILED None s else Some s
     else Some s)"

definition bind_nci :: "(nci_cb \<Rightarrow> nci_cb option) \<Rightarrow> nci_rx \<Rightarrow> nci_rx option" where
  "bind_nci f s = do { n \<leftarrow> f (rx_nci s); Some (s \<lparr> rx_nci := n \<rparr>) }"

definition nfc_main_handle_hal_evt :: "nci_env \<Rightarrow> u8 \<Rightarrow> u8 \<Rightarrow> u8 \<Rightarrow> nci_rx \<Rightarrow> nci_rx option" where
  "nfc_main_handle_hal_evt e mode ev st s =
    (if ev = HAL_NFC_OPEN_CPLT_EVT then nfc_enabled e NCI_STATUS_FAILED None s
     else if ev = HAL_NFC_CLOSE_CPLT_EVT then Some (hal_close_cplt s)
     else if ev = HAL_NFC_POST_INIT_CPLT_EVT then hal_post_init_cplt e mode st s
     else if ev = HAL_NFC_PRE_DISCOVER_CPLT_EVT then do {
       s \<leftarrow> bind_nci (hal_pre_discover_cplt e) s;
       Some (cmd_timeout_report st s) }
     else if ev = HAL_NFC_REQUEST_CONTROL_EVT then bind_nci (hal_request_control e) s
     else if ev = HAL_NFC_RELEASE_CONTROL_EVT then
       if nci_fl NFC_FL_CONTROL_GRANTED (rx_nci s) then do {
         s \<leftarrow> bind_nci (hal_release_control e) s;
         Some (cmd_timeout_report st s) }
       else Some s
     else if ev = HAL_NFC_ERROR_EVT then hal_error e st s
     else if ev = HAL_HCI_NETWORK_RESET then Some (rx_ev Delete_nv_store s)
     else Some s)"

section \<open>The task\<close>

text \<open>The transport is ready: the controller is reset, with or without its configuration.\<close>

definition nfc_task_ready :: "nci_env \<Rightarrow> nfc_sys \<Rightarrow> nfc_sys option" where
  "nfc_task_ready e y =
    (let y = upd_rx (nfc_set_state NFC_STATE_CORE_INIT) y \<lparr> sy_ready := False \<rparr> in
     if sy_reset_type y = 2 \<or> sy_keep_cfg y then do {
       y \<leftarrow> bind_rx (rx_snd (nci_snd_core_reset e 0)) y;
       Some (y \<lparr> sy_keep_cfg := True \<rparr>) }
     else if sy_reset_type y = 1 then do {
       y \<leftarrow> bind_rx (rx_snd (nci_snd_core_reset e 1)) y;
       Some (y \<lparr> sy_keep_cfg := True \<rparr>) }
     else do {
       y \<leftarrow> bind_rx (rx_snd (nci_snd_core_reset e 1)) y;
       Some (y \<lparr> sy_keep_cfg := False \<rparr>) })"

text \<open>One message of the mailbox, with the buffers that are available while it is processed.\<close>

definition nfc_task_msg :: "nci_env \<Rightarrow> (nat \<Rightarrow> bool) \<Rightarrow> bool \<Rightarrow> task_msg \<Rightarrow> nfc_sys \<Rightarrow> nfc_sys option" where
  "nfc_task_msg e alloc big m y =
    (case m of
       To_nfc_nci h \<Rightarrow> bind_rx (\<lambda>s. map_option snd (nfc_ncif_process_event e alloc big h s)) y
     | To_nfc_msgs ev st \<Rightarrow> bind_rx (nfc_main_handle_hal_evt e (sy_nfcc_mode y) ev st) y
     | To_start_timer \<Rightarrow> Some y
     | To_start_quick_timer \<Rightarrow> Some y)"

definition nfc_task_read :: "nci_env \<Rightarrow> (nat \<Rightarrow> bool) \<Rightarrow> bool \<Rightarrow> nfc_sys \<Rightarrow> nfc_sys option" where
  "nfc_task_read e alloc big y =
    (case sy_mbox y of [] \<Rightarrow> Some y | m # ms \<Rightarrow> nfc_task_msg e alloc big m (y \<lparr> sy_mbox := ms \<rparr>))"

text \<open>A timer of the one-second list that has expired.\<close>

definition nfc_timer_expired :: "u16 \<Rightarrow> nci_rx \<Rightarrow> nci_rx option" where
  "nfc_timer_expired ty s =
    (if ty = 0 then Some (nfc_ncif_cmd_timeout (s \<lparr> rx_nci := rx_nci s \<lparr> nci_rsp_timer := False \<rparr> \<rparr>))
     else if ty = 2 then nfc_mode_set_ntf_timeout (s \<lparr> rx_mode_timer := False \<rparr>)
     else Some s)"

section \<open>Requests of the client\<close>

definition NFC_Deactivate :: "nci_env \<Rightarrow> u8 \<Rightarrow> nci_rx \<Rightarrow> (u8 \<times> nci_rx) option" where
  "NFC_Deactivate e ty s =
    (if nci_fl NFC_FL_DISCOVER_PENDING (rx_nci s) then
       let n = nci_clr_fl NFC_FL_DISCOVER_PENDING (rx_nci s);
           n = (if \<not> nci_fl NFC_FL_HAL_REQUESTED n then nci_clr_fl NFC_FL_CONTROL_REQUESTED n else n)
       in Some (NCI_STATUS_OK, s \<lparr> rx_nci := n \<lparr> nci_disc_pending := None \<rparr> \<rparr>)
     else do {
       let s = (if nc_state (rx_base s) = NFC_STATE_OPEN then nfc_set_state NFC_STATE_CLOSING s else s);
       (st, n) \<leftarrow> nci_snd_deactivate_cmd e ty (rx_nci s);
       Some (st, s \<lparr> rx_nci := n \<rparr>) })"

text \<open>Opening a logical connection: the control block, then the command with the destination parameters.\<close>

definition conn_create_tlvs :: "u8 \<Rightarrow> u8 \<Rightarrow> u8 \<Rightarrow> mem" where
  "conn_create_tlvs dest_type id' protocol =
    (if dest_type = 3 then [1, 2, id', protocol] else if dest_type = 2 then [0, 1, id'] else [])"

definition nfc_conn_create :: "nci_env \<Rightarrow> u8 \<Rightarrow> u8 \<Rightarrow> u8 \<Rightarrow> bool \<Rightarrow> nci_rx \<Rightarrow> (u8 \<times> nci_rx) option" where
  "nfc_conn_create e dest_type id' protocol cback s =
    (case NFC_ConnCreate True dest_type id' protocol cback (rx_base s) of (st, b) \<Rightarrow>
       if st \<noteq> NCI_STATUS_OK then Some (st, s)
       else do {
         let s' = upd_base (\<lambda>_. b) s;
         let tlvs = conn_create_tlvs dest_type id' protocol;
         (st, n) \<leftarrow> nci_snd_core_conn_create e dest_type (if tlvs = [] then 0 else 1) (of_nat (length tlvs)) tlvs (rx_nci s');
         if st = NCI_STATUS_FAILED
         then Some (st, upd_base (\<lambda>_. snd (NFC_ConnCreate False dest_type id' protocol cback (rx_base s))) s)
         else Some (st, s' \<lparr> rx_nci := n \<rparr>) })"

definition NFC_ConnClose :: "nci_env \<Rightarrow> u8 \<Rightarrow> nci_rx \<Rightarrow> (u8 \<times> nci_rx) option" where
  "NFC_ConnClose e conn_id s =
    (case nfc_find_conn_cb_by_conn_id conn_id (rx_base s) of
       None \<Rightarrow> Some (NCI_STATUS_FAILED, s)
     | Some _ \<Rightarrow> do { (st, n) \<leftarrow> nci_snd_core_conn_close e conn_id (rx_nci s); Some (st, s \<lparr> rx_nci := n \<rparr>) })"

text \<open>The parameters of an update of the RF communication; the receive bit rate is included by the flag of
  the transmit bit rate.\<close>

record rf_comm_params =
  rc_tech_mode :: "u8 option"
  rc_tx_included :: bool
  rc_tx_bit_rate :: u8
  rc_rx_included :: bool
  rc_rx_bit_rate :: u8
  rc_nfc_b :: "(u8 \<times> u8 \<times> u8 \<times> u8 \<times> u8) option"

definition nfc_b_config :: "u8 \<times> u8 \<times> u8 \<times> u8 \<times> u8 \<Rightarrow> u8" where
  "nfc_b_config c = (case c of (tr0, tr1, eos, sos, tr2) \<Rightarrow>
     push_bit 6 (tr0 AND 3) OR push_bit 4 (tr1 AND 3) OR push_bit 3 (eos AND 1) OR push_bit 2 (sos AND 1) OR (tr2 AND 3))"

definition rf_comm_tlvs :: "rf_comm_params \<Rightarrow> mem" where
  "rf_comm_tlvs r =
    (case rc_tech_mode r of Some t \<Rightarrow> [0, 1, t] | None \<Rightarrow> []) @
    (if rc_tx_included r then [1, 1, rc_tx_bit_rate r] else []) @
    (if rc_tx_included r then [2, 1, rc_rx_bit_rate r] else []) @
    (case rc_nfc_b r of Some c \<Rightarrow> [3, 1, nfc_b_config c] | None \<Rightarrow> [])"

definition NFC_UpdateRFCommParams :: "nci_env \<Rightarrow> rf_comm_params \<Rightarrow> nci_cb \<Rightarrow> (u8 \<times> nci_cb) option" where
  "NFC_UpdateRFCommParams e r = nci_snd_parameter_update_cmd e (rf_comm_tlvs r) (of_nat (length (rf_comm_tlvs r)))"

text \<open>The callback of the static HCI connection; an open connection is reported at once.\<close>

definition NFC_SetStaticHciCback :: "bool \<Rightarrow> nfc_conns \<Rightarrow> nfc_conns" where
  "NFC_SetStaticHciCback cback b =
    (let b = upd_cb 1 (\<lambda>c. c \<lparr> cc_cback := cback \<rparr>) b; c = nc_conn_cb b ! 1 in
     if cback \<and> cc_buff_size c \<noteq> 0 \<and> cc_num_buff c \<noteq> 0 then nc_event (NFC_CONN_CREATE_CEVT 1 NCI_STATUS_OK (cc_id c)) b else b)"

definition NFC_SetStaticT4tNfceeCback :: "bool \<Rightarrow> u8 \<Rightarrow> nfc_conns \<Rightarrow> nfc_conns option" where
  "NFC_SetStaticT4tNfceeCback cback cid b =
    (case nfc_find_conn_cb_by_conn_id cid b of
       None \<Rightarrow> Some b
     | Some i \<Rightarrow> nfc_data_event i (upd_cb i (\<lambda>c. c \<lparr> cc_cback := cback \<rparr>) b))"

definition NFC_GetLmrtSize :: "nci_rx \<Rightarrow> u16" where
  "NFC_GetLmrtSize s = rx_max_ce_table s"

definition NFC_IsRfRemovalDetectionSupported :: "nci_rx \<Rightarrow> bool" where
  "NFC_IsRfRemovalDetectionSupported s \<longleftrightarrow> rx_features s AND 0x20 \<noteq> 0"

end
