(* ===== verification/NfcLife.thy ===== *)
theory NfcLife
  imports NfcMain
begin

text \<open>
  Invariants of the life cycle: every request of the client, every event and packet of the transport and every
  step of the task is defined and keeps the invariant of the stack.
\<close>

section \<open>Requests\<close>

lemma unat_3_ucast: "unat (3 + ucast (x :: u8) :: u16) \<le> 651" "unat (3 + ucast x + 1 :: u16) \<le> 651" "unat (3 + (2 + ucast x) :: u16) \<le> 651"
  "unat (5 + ucast x :: u16) \<le> 651"
proof -
  have "unat (ucast x :: u16) \<le> 255" using unat_byte_le [of x] by (simp add: unat_ucast_u8)
  then show "unat (3 + ucast x :: u16) \<le> 651" "unat (3 + ucast x + 1 :: u16) \<le> 651" "unat (3 + (2 + ucast x) :: u16) \<le> 651"
    "unat (5 + ucast x :: u16) \<le> 651"
    by (simp_all add: unat_word_ariths)
qed

lemma safe_ext_fl [simp]: "NFC_FL_DISCOVER_PENDING AND NFC_FL_WAIT_RF_INTF_EXT_RSP = 0"
  by simp

lemma tlv_safe:
  assumes "nci_safe n" "env_ok e" "length (tlv_enc ts) \<le> 254"
  shows "wp (nci_snd_tlv e gid oid (tlv_enc ts) (of_nat (length (tlv_enc ts))) n) (\<lambda>(_, n'). nci_safe n' \<and> ext n n')"
proof -
  have "wp (tlv_count (tlv_enc ts) 0 (of_nat (length (tlv_enc ts))) 0) (\<lambda>_. True)"
    using tlv_count_enc [of ts "[]" 0] assms(3) by (simp add: wp_def)
  moreover have "unat (of_nat (length (tlv_enc ts)) :: u8) = length (tlv_enc ts)" using assms(3) by (simp add: unat_of_nat_u8)
  ultimately show ?thesis unfolding nci_snd_tlv_def
    by (intro wp_intros wp_call [OF \<open>wp (tlv_count _ _ _ _) _\<close>] snd_safe unat_3_ucast)
      (use assms in \<open>auto simp: nci_cmd_hdr_def\<close>)
qed

lemma check_some_safe:
  "nci_safe n \<Longrightarrow> env_ok e \<Longrightarrow> cmd_ok p \<Longrightarrow> wp (check_cmd_queue e (Some p) n) (\<lambda>n'. nci_safe n' \<and> ext n n')"
  by (rule check_safe) auto

lemma wp_wr_bytes:
  assumes "p + length bs \<le> length m" "\<And>m'. length m' = length m \<Longrightarrow> Q m'"
  shows "wp (wr_bytes m p bs) Q"
  using wr_bytes_ex [OF assms(1)] wr_bytes_length assms(2) by (fastforce simp: wp_def)

lemma raw_vendor_safe:
  assumes "nci_safe n" "env_ok e" "req_ok v (Raw_vendor p cb)"
  shows "wp (NFC_SendRawVsCommand e (Some p) cb n) (\<lambda>(_, n'). nci_safe n' \<and> ext n n')"
  unfolding NFC_SendRawVsCommand_def
  by (intro wp_intros wp_wr_bytes wp_call [OF check_some_safe]) (use assms in \<open>auto simp: req_ok_def cmd_ok_def\<close>)

lemma vendor_safe:
  assumes "nci_safe n" "env_ok e" "req_ok v (Vendor oid p cb)"
  shows "wp (NFC_SendVsCommand e oid (Some p) cb n) (\<lambda>(_, n'). nci_safe n' \<and> ext n n')"
proof -
  have p: "length cb = 8" "12 \<le> unat (h_offset p)" "unat (h_len p) \<le> 255" "unat (h_offset p) + max 2 (unat (h_len p)) \<le> length (h_data p)"
    using assms(3) by (simp_all add: req_ok_def word_le_nat_alt)
  have o: "unat (h_offset p - 3) = unat (h_offset p) - 3" "unat (h_len p + 3) = 3 + unat (h_len p)"
    using p(2,3) by (simp_all add: unat_sub word_le_nat_alt unat_word_ariths)
  show ?thesis unfolding NFC_SendVsCommand_def
    by (intro wp_intros wp_wr_bytes wp_call [OF check_some_safe])
      (use p o assms(1,2) in \<open>auto simp: nci_cmd_hdr_def cmd_ok_def Let_def\<close>)
qed

lemma reassembly_safe: "nci_safe n \<Longrightarrow> nci_safe (n \<lparr> nci_base := NFC_SetReassemblyFlag b (nci_base n) \<rparr>)"
  by (simp add: nci_safe_def q_ok_def pend_ok_def nci_fl_def NFC_SetReassemblyFlag_def)

lemma deactivate_cmd_safe: "nci_safe n \<Longrightarrow> env_ok e \<Longrightarrow> wp (nci_snd_deactivate_cmd e t n) (\<lambda>(_, n'). nci_safe n' \<and> ext n n')"
  unfolding nci_snd_deactivate_cmd_def
  by (rule wp_call [OF snd_safe]) (auto simp: nci_cmd_hdr_def reassembly_safe ext_def)

lemma len_u8: "length bs \<le> 255 \<Longrightarrow> unat (of_nat (length bs) :: u8) = length bs"
  by (simp add: unat_of_nat_u8)

lemma get_config_cmd_safe:
  "nci_safe n \<Longrightarrow> env_ok e \<Longrightarrow> length ids \<le> 255 \<Longrightarrow> wp (nci_snd_core_get_config e ids (of_nat (length ids)) n) (\<lambda>(_, n'). nci_safe n' \<and> ext n n')"
  unfolding nci_snd_core_get_config_def by (intro wp_intros snd_safe unat_3_ucast) (auto simp: nci_cmd_hdr_def len_u8)

lemma conn_create_cmd_safe:
  "nci_safe n \<Longrightarrow> env_ok e \<Longrightarrow> length ts \<le> 255 \<Longrightarrow> wp (nci_snd_core_conn_create e d k (of_nat (length ts)) ts n) (\<lambda>(_, n'). nci_safe n' \<and> ext n n')"
  unfolding nci_snd_core_conn_create_def
  by (intro wp_intros snd_safe) (auto simp: nci_cmd_hdr_def len_u8 intro: unat_3_ucast(4) [simplified])

lemma extension_cmd_safe:
  "nci_safe n \<Longrightarrow> env_ok e \<Longrightarrow> length d \<le> 255 \<Longrightarrow> wp (nci_snd_rf_extension_control_cmd e m x d (of_nat (length d)) n) (\<lambda>(_, n'). nci_safe n' \<and> ext n n')"
  unfolding nci_snd_rf_extension_control_cmd_def
  by (intro wp_intros wp_call [OF snd_safe] unat_3_ucast) (auto simp: nci_cmd_hdr_def len_u8 ext_def intro!: nci_safe_set)

lemma map_cmd_safe:
  assumes "nci_safe n" "env_ok e" "3 * length ms \<le> 254"
  shows "wp (nci_snd_discover_map_cmd e (of_nat (length ms)) (concat (map (\<lambda>(p, m, i). [p, m, i]) ms)) n) (\<lambda>(_, n'). nci_safe n' \<and> ext n n')"
proof -
  have b: "length (concat (map (\<lambda>(p, m, i). [p, m, i]) xs)) = 3 * length xs" for xs :: "(u8 \<times> u8 \<times> u8) list" by (induction xs) auto
  have u: "unat (of_nat (length ms) :: u8) = length ms" using assms(3) by (simp add: unat_of_nat_u8)
  show ?thesis unfolding nci_snd_discover_map_cmd_def
    by (intro wp_intros snd_safe unat_3_ucast) (use assms in \<open>auto simp: u b nci_cmd_hdr_def\<close>)
qed

lemma routing_cmd_safe:
  "nci_safe n \<Longrightarrow> env_ok e \<Longrightarrow> length ts \<le> 255 \<Longrightarrow> wp (nci_snd_set_routing_cmd e m k (of_nat (length ts)) ts n) (\<lambda>(_, n'). nci_safe n' \<and> ext n n')"
  unfolding nci_snd_set_routing_cmd_def
  by (intro wp_intros snd_safe unat_3_ucast) (auto simp: nci_cmd_hdr_def len_u8)

lemma discover_cmd_safe:
  assumes "nci_safe n" "env_ok e" "length bs = 2 * unat num" "unat num \<le> 127"
  shows "wp (nci_snd_discover_cmd e num bs n) (\<lambda>(_, n'). nci_safe n' \<and> ext n n')"
proof -
  have "wp (discover_cmd_buf d num bs) cmd_ok" if "env_getbuf e = Some d" for d
    using discover_cmd_buf_ok [of d bs num] that assms(2-4) by (auto simp: env_ok_def wp_def)
  then show ?thesis unfolding nci_snd_discover_cmd_def nfc_ncif_send_cmd_def
    by (intro wp_intros wp_call [OF check_some_safe]; (use assms in auto; fail)?) (auto elim!: wp_call intro!: wp_intros wp_call [OF check_some_safe] assms)
qed

lemma pair_bytes_len: "length (concat (map (\<lambda>(t, f). [t, f]) ps)) = 2 * length (ps :: (u8 \<times> u8) list)"
  by (induction ps) auto

lemma triple_bytes_len: "length (concat (map (\<lambda>(p, m, i). [p, m, i]) ms)) = 3 * length (ms :: (u8 \<times> u8 \<times> u8) list)"
  by (induction ms) auto

lemma call_safe:
  assumes "nci_safe n" "env_ok e" "req_ok v q"
  shows "wp (nci_call e q n) (\<lambda>(_, n'). nci_safe n' \<and> ext n n')"
proof (cases q)
  case (Discover ps)
  then have "length ps \<le> 127" using assms(3) by (simp add: req_ok_def pair_bytes_len)
  then show ?thesis using Discover discover_cmd_safe [OF assms(1,2)] by (simp add: pair_bytes_len unat_of_nat_u8)
next
  case (Discover_map ms)
  then show ?thesis using map_cmd_safe [OF assms(1,2)] assms(3) by (simp add: req_ok_def triple_bytes_len)
next
  case (Deactivate t)
  then show ?thesis using deactivate_cmd_safe assms by simp
next
  case (Vendor oid p cb)
  then show ?thesis using vendor_safe assms by simp
next
  case (Raw_vendor p cb)
  then show ?thesis using raw_vendor_safe assms by simp
qed (use assms in \<open>auto simp: req_ok_def nci_snd_core_set_config_def nci_snd_rf_wpt_control_cmd_def nci_snd_tlv_parameter_generic_cmd_def
      nci_snd_parameter_update_cmd_def builder_defs Let_def nci_cmd_hdr_def be16_bytes_def
    intro!: tlv_safe get_config_cmd_safe conn_create_cmd_safe extension_cmd_safe routing_cmd_safe snd_safe\<close>)

section \<open>Discovery and the events of the transport\<close>

lemma discover_cmd_flag:
  assumes "nci_safe n" "\<not> nci_fl NFC_FL_DISCOVER_PENDING n" "env_ok e" "length bs = 2 * unat num" "unat num \<le> 127"
  shows "wp (nci_snd_discover_cmd e num bs n) (\<lambda>(_, n'). nci_safe n' \<and> \<not> nci_fl NFC_FL_DISCOVER_PENDING n' \<and> ext n n')"
proof -
  have "wp (discover_cmd_buf d num bs) cmd_ok" if "env_getbuf e = Some d" for d
    using discover_cmd_buf_ok [of d bs num] that assms(3-5) by (auto simp: env_ok_def wp_def)
  note d = wp_call [OF this]
  have "wp (check_cmd_queue e (Some p) n) (\<lambda>n'. nci_safe n' \<and> \<not> nci_fl NFC_FL_DISCOVER_PENDING n' \<and> ext n n')" if "cmd_ok p" for p
    using check_safe_idle [OF assms(1), of "Some p" 1 e] that assms(2) by (simp add: check_cmd_queue_def numeral_2_eq_2 del: nfc_ncif_check_cmd_queue.simps)
  note c = wp_call [OF this]
  show ?thesis unfolding nci_snd_discover_cmd_def nfc_ncif_send_cmd_def
    by (intro wp_intros d c) (use assms in auto)
qed

lemma no_pending_safe: "nci_safe n \<Longrightarrow> \<not> nci_fl NFC_FL_DISCOVER_PENDING n \<Longrightarrow> nci_safe (n \<lparr> nci_disc_pending := None \<rparr>)"
  by (auto simp: nci_safe_def q_ok_def pend_ok_def)

lemma discovery_start_safe:
  assumes "nci_safe n" "env_ok e" "env_disc_buf e" "length ps = 2 * unat num" "unat num \<le> 127"
  shows "wp (NFC_DiscoveryStart e num ps n) (\<lambda>(_, n'). nci_safe n' \<and> ext n n')"
proof -
  let ?n = "nci_set_fl NFC_FL_CONTROL_REQUESTED (nci_set_fl NFC_FL_DISCOVER_PENDING n) \<lparr> nci_disc_pending := Some (num # ps) \<rparr>"
  have "nci_safe ?n" using assms(1,4,5)
    by (auto simp: nci_safe_def q_ok_def pend_ok_def) (auto simp: nci_set_fl_def)
  then have "wp (check_cmd_queue e None ?n) (\<lambda>n'. nci_safe n' \<and> ext n n')"
    using check_safe [of ?n None e] assms(2) by (auto simp: ext_def elim!: wp_call)
  note c = wp_call [OF this]
  show ?thesis using assms unfolding NFC_DiscoveryStart_def
    by (auto simp: Let_def rd_bytes_in intro!: wp_intros c)
qed

lemma pre_discover_safe:
  assumes "nci_safe n" "env_ok e"
  shows "wp (hal_pre_discover_cplt e n) (\<lambda>n'. nci_safe n' \<and> ext n n')"
proof -
  let ?n = "nci_clr_fl NFC_FL_CONTROL_GRANTED (n \<lparr> nci_window := NCI_MAX_CMD_WINDOW \<rparr>)"
  have n: "nci_safe ?n" using assms(1) by (auto intro!: nci_safe_clr nci_safe_window)
  let ?u = "nci_clr_fl NFC_FL_DISCOVER_PENDING ?n"
  have u: "nci_safe ?u" "\<not> nci_fl NFC_FL_DISCOVER_PENDING ?u" using n by (auto intro!: nci_safe_clr)
  show ?thesis
  proof (cases "nci_fl NFC_FL_DISCOVER_PENDING ?n")
    case True
    then obtain num bs where p: "nci_disc_pending ?n = Some (num # bs)" "length bs = 2 * unat num" "unat num \<le> 127"
      using n by (auto simp: nci_safe_def pend_ok_def)
    have "wp (nci_snd_discover_cmd e num bs ?u) (\<lambda>(_, n'). nci_safe (n' \<lparr> nci_disc_pending := None \<rparr>) \<and> ext n n')"
      by (rule wp_call [OF discover_cmd_flag [OF u assms(2) p(2,3)]]) (auto simp: no_pending_safe ext_def)
    then show ?thesis using p(1) True by (auto simp: hal_pre_discover_cplt_def Let_def rd8_in intro!: wp_intros elim!: wp_call)
  next
    case False
    then show ?thesis unfolding hal_pre_discover_cplt_def Let_def
      by (auto simp: ext_def intro!: wp_call [OF check_safe] n assms(2))
  qed
qed

lemma request_control_safe:
  assumes "nci_safe n" "env_ok e"
  shows "wp (hal_request_control e n) (\<lambda>n'. nci_safe n' \<and> ext n n')"
  unfolding hal_request_control_def
  by (rule wp_call [OF check_safe]) (use assms in \<open>auto simp: ext_def intro!: nci_safe_set\<close>)

lemma release_control_safe:
  assumes "nci_safe n" "env_ok e"
  shows "wp (hal_release_control e n) (\<lambda>n'. nci_safe n' \<and> ext n n')"
  unfolding hal_release_control_def
  by (intro wp_intros wp_call [OF check_safe]) (use assms in \<open>auto simp: ext_def intro!: nci_safe_clr nci_safe_window\<close>)

lemma bind_nci_safe: "rx_safe sub s \<Longrightarrow> wp (f (rx_nci s)) (\<lambda>n. nci_safe n \<and> ext (rx_nci s) n) \<Longrightarrow> wp (bind_nci f s) (rx_safe sub)"
  unfolding bind_nci_def by (auto simp: wp_def intro: rx_safe_nci)

lemma enabled_fail: "st \<noteq> NCI_STATUS_OK \<Longrightarrow> nfc_enabled e st None s = Some (enable_failed 0 st s)"
  by (simp add: nfc_enabled_def)

lemma timeout_report_safe [simp]: "rx_safe sub (cmd_timeout_report st s) = rx_safe sub s"
  by (simp add: cmd_timeout_report_def)

lemma close_cplt_safe: "rx_safe sub s \<Longrightarrow> rx_safe sub (hal_close_cplt s)"
  by (auto simp: hal_close_cplt_def disable_report_def intro!: notify_safe set_state_safe rx_safe_clr)

lemma error_safe: "rx_safe sub s \<Longrightarrow> wp (hal_error e st s) (rx_safe sub)"
  by (auto simp: hal_error_def Let_def enabled_fail NCI_MAX_CONN_CBS_def intro!: wp_intros enable_failed_safe)

lemma post_init_safe:
  assumes "rx_safe sub s" "static_free (rx_base s)" "env_ok e"
  shows "wp (hal_post_init_cplt e mode st s) (rx_safe sub)"
proof -
  have "unat (h_offset h) + unat (h_len h) \<le> length (h_data h)" if "rx_init_rsp s = Some h" for h
    using assms(1) that by (auto simp: rx_safe_def msg_ok_def)
  note h = wp_call [OF enabled_safe [OF assms(1,2,3) this]]
  show ?thesis unfolding hal_post_init_cplt_def
    by (intro wp_intros h) (use assms(1) in \<open>auto simp: enabled_fail NCI_MAX_CONN_CBS_def intro!: wp_intros set_state_safe rx_safe_init_rsp enable_failed_safe\<close>)
qed

lemma hal_evt_safe:
  assumes "rx_safe sub s" "env_ok e" "ev = HAL_NFC_POST_INIT_CPLT_EVT \<Longrightarrow> static_free (rx_base s)"
  shows "wp (nfc_main_handle_hal_evt e mode ev st s) (rx_safe sub)"
proof -
  note n = rx_safe_nciD [OF assms(1)]
  note b = bind_nci_safe [OF assms(1), of "hal_pre_discover_cplt e", OF pre_discover_safe [OF n assms(2)]]
    bind_nci_safe [OF assms(1), of "hal_request_control e", OF request_control_safe [OF n assms(2)]]
    bind_nci_safe [OF assms(1), of "hal_release_control e", OF release_control_safe [OF n assms(2)]]
  show ?thesis unfolding nfc_main_handle_hal_evt_def
    by (intro wp_intros wp_call [OF b(1)] b(2) wp_call [OF b(3)] post_init_safe error_safe)
      (use assms in \<open>auto simp: enabled_fail NCI_MAX_CONN_CBS_def intro!: wp_intros enable_failed_safe close_cplt_safe\<close>)
qed

section \<open>Connections and data\<close>

lemma SendData_safe:
  assumes "base_safe b" "\<forall>i. nfc_find_conn_cb_by_conn_id cid b = Some i \<longrightarrow> hdr_ok p \<and> 0 < cc_buff_size (nc_conn_cb b ! i)"
  shows "wp (NFC_SendData alloc cid (Some p) b) (\<lambda>(_, b'). base_safe b' \<and> nc_flags b' = nc_flags b)"
  unfolding NFC_SendData_def
  by (intro wp_intros send_any_safe [OF assms(1)]) (use assms base_safe_find [OF assms(1)] in auto)

lemma flush_safe: "base_safe b \<Longrightarrow> base_safe (snd (NFC_FlushData cid b)) \<and> nc_flags (snd (NFC_FlushData cid b)) = nc_flags b"
  by (auto simp: NFC_FlushData_def conn_ok_def intro!: base_safe_upd_cb split: option.split)

lemma set_cback_safe: "base_safe b \<Longrightarrow> base_safe (upd_cb i (\<lambda>c. c \<lparr> cc_cback := cb \<rparr>) b)"
  by (auto simp: conn_ok_def intro!: base_safe_upd_cb)

lemma rf_cback_safe: "base_safe b \<Longrightarrow> wp (NFC_SetStaticRfCback cb b) (\<lambda>b'. base_safe b' \<and> nc_flags b' = nc_flags b)"
  unfolding NFC_SetStaticRfCback_def by (rule wp_call [OF data_event_safe [OF set_cback_safe]]) (auto simp: NCI_MAX_CONN_CBS_def)

lemma t4t_cback_safe: "base_safe b \<Longrightarrow> wp (NFC_SetStaticT4tNfceeCback cb cid b) (\<lambda>b'. base_safe b' \<and> nc_flags b' = nc_flags b)"
  unfolding NFC_SetStaticT4tNfceeCback_def
  by (intro wp_intros wp_call [OF data_event_safe [OF set_cback_safe]]) (auto simp: base_safe_find)

lemma hci_cback_safe: "base_safe b \<Longrightarrow> base_safe (NFC_SetStaticHciCback cb b) \<and> nc_flags (NFC_SetStaticHciCback cb b) = nc_flags b"
  by (auto simp: NFC_SetStaticHciCback_def Let_def set_cback_safe)

lemma all_conn_upd:
  "\<forall>c\<in>set (nc_conn_cb b). conn_ok c \<Longrightarrow> (\<And>c. conn_ok c \<Longrightarrow> conn_ok (f c)) \<Longrightarrow> i < length (nc_conn_cb b) \<Longrightarrow>
    \<forall>c\<in>set (nc_conn_cb (upd_cb i f b)). conn_ok c"
  using set_update_subset_insert [of "nc_conn_cb b" i "f (nc_conn_cb b ! i)"] by (fastforce simp: nth_mem)

lemma alloc_safe:
  assumes "base_safe b" "nfc_alloc_conn_cb cb b = (r, b')"
  shows "base_safe b' \<and> nc_flags b' = nc_flags b \<and> (\<forall>i. r = Some i \<longrightarrow> i < NCI_MAX_CONN_CBS)"
proof (cases r)
  case None
  then show ?thesis using assms by (auto simp: nfc_alloc_conn_cb_def Let_def split: option.splits)
next
  case (Some i)
  let ?f = "\<lambda>c. c \<lparr> cc_conn_id := NFC_PEND_CONN_ID, cc_cback := cb \<rparr>"
  have ok: "conns_ok b" "\<forall>c\<in>set (nc_conn_cb b). conn_ok c" using assms(1) by (auto simp: base_safe_def)
  have b': "b' = upd_cb i ?f b" and i: "i < NCI_MAX_CONN_CBS"
    using assms(2) Some ok(1) by (auto simp: nfc_alloc_conn_cb_def Let_def conns_ok_def dest!: find_cb_Some split: option.splits)
  have "\<forall>c\<in>set (nc_conn_cb b'). conn_ok c" unfolding b'
    by (rule all_conn_upd [OF ok(2)]) (use i ok(1) in \<open>auto simp: conn_ok_def conns_ok_def\<close>)
  then show ?thesis using alloc_ok [OF ok(1) assms(2)] Some i b' by (simp add: base_safe_def)
qed

lemma create_base_safe:
  assumes "base_safe b"
  shows "base_safe (snd (NFC_ConnCreate sent dt i pr cb b)) \<and> nc_flags (snd (NFC_ConnCreate sent dt i pr cb b)) = nc_flags b"
proof -
  obtain r b' where a: "nfc_alloc_conn_cb cb b = (r, b')" by (cases "nfc_alloc_conn_cb cb b")
  note s = alloc_safe [OF assms a]
  have "base_safe (upd_cb k (\<lambda>c. c \<lparr> cc_id := x, cc_act_protocol := pr, cc_cback := cb \<rparr>) b')" for k x
    by (rule base_safe_upd_cb) (use s in \<open>auto simp: conn_ok_def\<close>)
  then show ?thesis using a s by (auto simp: NFC_ConnCreate_def Let_def intro!: free_safe split: option.split)
qed

section \<open>The system\<close>

text \<open>Everything that can happen to the stack: requests of the client, callbacks of the transport, and the steps of
  the task, with the buffers that are available to each.\<close>

datatype nfc_input =
    In_enable bool | In_disable | In_power_off_sleep bool | In_power_cycle
  | In_request nci_env nci_req | In_discovery nci_env u8 mem | In_deactivate nci_env u8
  | In_conn_create nci_env u8 u8 u8 bool | In_conn_close nci_env u8 | In_send "nat \<Rightarrow> bool" u8 nfc_hdr | In_flush u8
  | In_rf_cback bool | In_hci_cback bool | In_t4t_cback bool u8
  | In_hal_event bool u8 u8 | In_hal_data bool mem
  | In_task_ready nci_env | In_task_read nci_env "nat \<Rightarrow> bool" bool | In_timer u16

definition bind_base :: "(nfc_conns \<Rightarrow> nfc_conns option) \<Rightarrow> nci_rx \<Rightarrow> nci_rx option" where
  "bind_base f s = do { b \<leftarrow> f (rx_base s); Some (upd_base (\<lambda>_. b) s) }"

primrec nfc_step :: "nfc_input \<Rightarrow> nfc_sys \<Rightarrow> nfc_sys option" where
  "nfc_step (In_enable cb) y = Some (snd (NFC_Enable cb y))"
| "nfc_step In_disable y = Some (NFC_Disable y)"
| "nfc_step (In_power_off_sleep b) y = Some (snd (NFC_SetPowerOffSleep b y))"
| "nfc_step In_power_cycle y = Some (snd (NFC_PowerCycleNFCC y))"
| "nfc_step (In_request e q) y = bind_rx (rx_snd (nci_call e q)) y"
| "nfc_step (In_discovery e n ps) y = bind_rx (rx_snd (NFC_DiscoveryStart e n ps)) y"
| "nfc_step (In_deactivate e t) y = bind_rx (\<lambda>s. map_option snd (NFC_Deactivate e t s)) y"
| "nfc_step (In_conn_create e d i p cb) y = bind_rx (\<lambda>s. map_option snd (nfc_conn_create e d i p cb s)) y"
| "nfc_step (In_conn_close e c) y = bind_rx (\<lambda>s. map_option snd (NFC_ConnClose e c s)) y"
| "nfc_step (In_send alloc c p) y = bind_rx (bind_base (\<lambda>b. map_option snd (NFC_SendData alloc c (Some p) b))) y"
| "nfc_step (In_flush c) y = Some (upd_rx (upd_base (\<lambda>b. snd (NFC_FlushData c b))) y)"
| "nfc_step (In_rf_cback cb) y = bind_rx (bind_base (NFC_SetStaticRfCback cb)) y"
| "nfc_step (In_hci_cback cb) y = Some (upd_rx (upd_base (NFC_SetStaticHciCback cb)) y)"
| "nfc_step (In_t4t_cback cb c) y = bind_rx (bind_base (NFC_SetStaticT4tNfceeCback cb c)) y"
| "nfc_step (In_hal_event buf ev st) y = Some (nfc_main_hal_cback buf ev st y)"
| "nfc_step (In_hal_data buf pkt) y = hal_data_cback buf pkt y"
| "nfc_step (In_task_ready e) y = (if sy_ready y then nfc_task_ready e y else Some y)"
| "nfc_step (In_task_read e alloc big) y = nfc_task_read e alloc big y"
| "nfc_step (In_timer t) y = bind_rx (nfc_timer_expired t) y"

text \<open>What the inputs must satisfy: command buffers have the size of the pool; the parameters of a request fit its
  length byte; data is sent on connections with buffers; a packet has at most 258 bytes and reports no
  buffer size of zero; when the initialisation ends, the static connections of an earlier session have been released.\<close>

primrec input_ok :: "nfc_input \<Rightarrow> nfc_sys \<Rightarrow> bool" where
  "input_ok (In_enable cb) y = True"
| "input_ok In_disable y = True"
| "input_ok (In_power_off_sleep b) y = True"
| "input_ok In_power_cycle y = True"
| "input_ok (In_request e q) y = (env_ok e \<and> req_ok (nc_version (rx_base (sy_rx y))) q)"
| "input_ok (In_discovery e n ps) y = (env_ok e \<and> env_disc_buf e \<and> length ps = 2 * unat n \<and> unat n \<le> 127)"
| "input_ok (In_deactivate e t) y = env_ok e"
| "input_ok (In_conn_create e d i p cb) y = env_ok e"
| "input_ok (In_conn_close e c) y = env_ok e"
| "input_ok (In_send alloc c p) y = (case nfc_find_conn_cb_by_conn_id c (rx_base (sy_rx y)) of None \<Rightarrow> True
     | Some i \<Rightarrow> hdr_ok p \<and> 0 < cc_buff_size (nc_conn_cb (rx_base (sy_rx y)) ! i))"
| "input_ok (In_flush c) y = True"
| "input_ok (In_rf_cback cb) y = True"
| "input_ok (In_hci_cback cb) y = True"
| "input_ok (In_t4t_cback cb c) y = True"
| "input_ok (In_hal_event buf ev st) y = True"
| "input_ok (In_hal_data buf pkt) y = pkt_ok pkt"
| "input_ok (In_task_ready e) y = env_ok e"
| "input_ok (In_task_read e alloc big) y = (env_ok e \<and>
     ((\<exists>st ms. sy_mbox y = To_nfc_msgs HAL_NFC_POST_INIT_CPLT_EVT st # ms) \<longrightarrow> static_free (rx_base (sy_rx y))))"
| "input_ok (In_timer t) y = True"

fun mbox_ok :: "task_msg \<Rightarrow> bool" where
  "mbox_ok (To_nfc_nci h) = pkt_msg h"
| "mbox_ok _ = True"

definition sys_ok :: "nfc_sys \<Rightarrow> bool" where
  "sys_ok y \<longleftrightarrow> rx_safe [] (sy_rx y) \<and> (\<forall>m\<in>set (sy_mbox y). mbox_ok m)"

inductive nfc_reach :: "nfc_sys \<Rightarrow> bool" where
  init: "nfc_reach (NFC_Init y \<lparr> sy_mbox := [] \<rparr>)"
| step: "nfc_reach y \<Longrightarrow> input_ok x y \<Longrightarrow> nfc_step x y = Some y' \<Longrightarrow> nfc_reach y'"

lemma rx_safe_set: "rx_safe sub s \<Longrightarrow> NFC_FL_DISCOVER_PENDING AND f = 0 \<Longrightarrow> rx_safe sub (rx_set_fl f s)"
  by (simp add: rx_safe_def rx_set_fl_def nci_safe_set)

lemma rx_safe_prefix: "rx_safe sub s \<Longrightarrow> rx_safe [] s"
  by (simp add: rx_safe_def)

lemma cleanup_safe: "rx_safe sub s \<Longrightarrow> rx_safe [] (rx_gen_cleanup s)"
proof -
  assume s: "rx_safe sub s"
  let ?n = "nci_clr_fl (NFC_FL_CONTROL_REQUESTED OR NFC_FL_CONTROL_GRANTED OR NFC_FL_HAL_REQUESTED)
    (if nci_fl NFC_FL_DISCOVER_PENDING (rx_nci s) then nci_clr_fl NFC_FL_DISCOVER_PENDING (rx_nci s) \<lparr> nci_disc_pending := None \<rparr> else rx_nci s)"
  have n: "nci_safe ?n" using rx_safe_nciD [OF s] by (auto intro!: nci_safe_clr no_pending_safe)
  then have "nci_safe (nfc_main_flush_cmd_queue (?n \<lparr> nci_base := nfc_reset_all_conn_cbs (nci_base ?n) \<rparr>))"
    using reset_all_safe [of "nci_base ?n"]
    by (simp add: nci_safe_def nfc_main_flush_cmd_queue_def q_ok_def pend_ok_def nci_fl_def)
  then show "rx_safe [] (rx_gen_cleanup s)" using s by (simp add: rx_safe_def rx_gen_cleanup_def nfc_gen_cleanup_def Let_def)
qed

lemma shutdown_safe: "sys_ok y \<Longrightarrow> sys_ok (nfc_task_shutdown_nfcc y)"
  by (auto simp: sys_ok_def nfc_task_shutdown_nfcc_def Let_def intro!: set_state_safe dest: cleanup_safe)

lemma upd_rx_ok: "sys_ok y \<Longrightarrow> (rx_safe [] (sy_rx y) \<Longrightarrow> rx_safe [] (f (sy_rx y))) \<Longrightarrow> sys_ok (upd_rx f y)"
  by (simp add: sys_ok_def upd_rx_def)

lemma bind_rx_ok: "sys_ok y \<Longrightarrow> (rx_safe [] (sy_rx y) \<Longrightarrow> wp (f (sy_rx y)) (rx_safe [])) \<Longrightarrow> wp (bind_rx f y) sys_ok"
  by (auto simp: sys_ok_def bind_rx_def wp_def)

lemma snd_rx_ok: "sys_ok y \<Longrightarrow> (nci_safe (rx_nci (sy_rx y)) \<Longrightarrow> wp (f (rx_nci (sy_rx y))) (\<lambda>(_, n'). nci_safe n' \<and> ext (rx_nci (sy_rx y)) n')) \<Longrightarrow>
  wp (bind_rx (rx_snd f) y) sys_ok"
  by (auto intro!: bind_rx_ok rx_snd_safe dest: rx_safe_nciD)

lemma base_rx_ok:
  assumes "sys_ok y" "base_safe (rx_base (sy_rx y)) \<Longrightarrow> wp (f (rx_base (sy_rx y))) (\<lambda>b. base_safe b \<and> nc_flags b = nc_flags (rx_base (sy_rx y)))"
  shows "wp (bind_rx (bind_base f) y) sys_ok"
  by (rule bind_rx_ok [OF assms(1)])
    (use assms(2) rx_safe_base [of "[]" "sy_rx y"] in \<open>auto simp: bind_base_def wp_def intro!: rx_safe_upd_base\<close>)

lemma conn_create_safe:
  assumes "rx_safe sub s" "env_ok e"
  shows "wp (nfc_conn_create e d i p cb s) (\<lambda>(_, s'). rx_safe sub s')"
proof -
  have b: "base_safe (snd (NFC_ConnCreate sent d i p cb (rx_base s))) \<and>
      nc_flags (snd (NFC_ConnCreate sent d i p cb (rx_base s))) = nc_flags (rx_base s)" for sent
    by (rule create_base_safe [OF rx_safe_base [OF assms(1)]])
  have s: "rx_safe sub (upd_base (\<lambda>_. snd (NFC_ConnCreate sent d i p cb (rx_base s))) s)" for sent
    using b by (intro rx_safe_upd_base [OF assms(1)]) auto
  obtain st c where c: "NFC_ConnCreate True d i p cb (rx_base s) = (st, c)" by (cases "NFC_ConnCreate True d i p cb (rx_base s)")
  let ?s = "upd_base (\<lambda>_. c) s" and ?ts = "conn_create_tlvs d i p"
  have sc: "rx_safe sub ?s" using s [of True] c by simp
  have "length ?ts \<le> 255" by (simp add: conn_create_tlvs_def)
  then obtain st' n where n: "nci_snd_core_conn_create e d (if ?ts = [] then 0 else 1) (of_nat (length ?ts)) ?ts (rx_nci ?s) = Some (st', n)"
      "nci_safe n" "ext (rx_nci ?s) n"
    using conn_create_cmd_safe [OF rx_safe_nciD [OF sc] assms(2), of ?ts d "if ?ts = [] then 0 else 1"] by (auto simp only: wp_def prod.case elim!: exE)
  show ?thesis unfolding nfc_conn_create_def
    by (simp only: c prod.case Let_def n(1) bind.bind_lunit) (use assms(1) s [of False] rx_safe_nci [OF sc n(2,3)] in \<open>simp add: wp_def\<close>)
qed

lemma conn_close_safe: "rx_safe sub s \<Longrightarrow> env_ok e \<Longrightarrow> wp (NFC_ConnClose e c s) (\<lambda>(_, s'). rx_safe sub s')"
  unfolding NFC_ConnClose_def nci_snd_core_conn_close_def
  by (intro wp_intros wp_call [OF snd_safe]) (auto simp: nci_cmd_hdr_def intro: rx_safe_nci dest: rx_safe_nciD)

lemma nfc_deactivate_safe:
  assumes "rx_safe sub s" "env_ok e"
  shows "wp (NFC_Deactivate e t s) (\<lambda>(_, s'). rx_safe sub s')"
proof -
  have f: "\<not> nci_fl NFC_FL_DISCOVER_PENDING (nci_clr_fl f (nci_clr_fl NFC_FL_DISCOVER_PENDING n))" for f n
    by (auto simp: nci_fl_def nci_clr_fl_def bit_eq_iff bit_simps)
  have "rx_safe sub (s \<lparr> rx_nci := n \<lparr> nci_disc_pending := None \<rparr> \<rparr>)"
    if "n = nci_clr_fl NFC_FL_DISCOVER_PENDING (rx_nci s) \<or> n = nci_clr_fl f (nci_clr_fl NFC_FL_DISCOVER_PENDING (rx_nci s))" for n f
    using that assms(1) f by (auto simp: ext_def intro!: rx_safe_nci no_pending_safe nci_safe_clr dest: rx_safe_nciD)
  note pend = this
  let ?s = "if nc_state (rx_base s) = NFC_STATE_OPEN then nfc_set_state NFC_STATE_CLOSING s else s"
  have s: "rx_safe sub ?s" using assms(1) set_state_safe by auto
  obtain st n where n: "nci_snd_deactivate_cmd e t (rx_nci ?s) = Some (st, n)" "nci_safe n" "ext (rx_nci ?s) n"
    using deactivate_cmd_safe [OF rx_safe_nciD [OF s] assms(2), of t] by (auto elim!: wpE)
  show ?thesis unfolding NFC_Deactivate_def Let_def n(1)
    using pend [of _ NFC_FL_CONTROL_REQUESTED] rx_safe_nci [OF s n(2,3)] by (simp add: wp_def)
qed

lemma timer_safe: "rx_safe sub s \<Longrightarrow> wp (nfc_timer_expired t s) (rx_safe sub)"
  unfolding nfc_timer_expired_def nfc_mode_set_ntf_timeout_def
  by (intro wp_intros) (auto simp: rx_safe_last intro!: timeout_safe rx_safe_clr)

lemma task_ready_safe:
  assumes "sys_ok y" "env_ok e"
  shows "wp (nfc_task_ready e y) sys_ok"
proof -
  let ?y = "upd_rx (nfc_set_state NFC_STATE_CORE_INIT) y \<lparr> sy_ready := False \<rparr>"
  have y: "sys_ok ?y" using upd_rx_ok [OF assms(1), of "nfc_set_state NFC_STATE_CORE_INIT"] by (simp add: sys_ok_def set_state_safe)
  have k: "sys_ok (z \<lparr> sy_keep_cfg := k \<rparr>) = sys_ok z" for z k by (simp add: sys_ok_def)
  show ?thesis unfolding nfc_task_ready_def Let_def
    by (intro wp_intros wp_call [OF snd_rx_ok [OF y]] core_reset_safe) (use assms(2) k in auto)
qed

lemma task_read_safe:
  assumes "sys_ok y" "input_ok (In_task_read e alloc big) y"
  shows "wp (nfc_task_read e alloc big y) sys_ok"
proof (cases "sy_mbox y")
  case Nil
  then show ?thesis using assms(1) by (simp add: nfc_task_read_def wp_def)
next
  case (Cons m ms)
  have y: "sys_ok (y \<lparr> sy_mbox := ms \<rparr>)" "mbox_ok m" "rx_safe [] (sy_rx y)" using assms(1) Cons by (auto simp: sys_ok_def)
  show ?thesis
  proof (cases m)
    case (To_nfc_nci h)
    then have "wp (map_option snd (nfc_ncif_process_event e alloc big h (sy_rx y))) (rx_safe [])"
      using process_event_safe [OF y(3), of e h alloc big] y(2) assms(2) by (auto intro!: wp_intros elim!: wp_call)
    then show ?thesis using Cons To_nfc_nci bind_rx_ok [OF y(1)] by (simp add: nfc_task_read_def nfc_task_msg_def)
  next
    case (To_nfc_msgs ev st)
    then have "wp (nfc_main_handle_hal_evt e (sy_nfcc_mode y) ev st (sy_rx y)) (rx_safe [])"
      using assms(2) Cons by (intro hal_evt_safe y(3)) auto
    then show ?thesis using Cons To_nfc_msgs bind_rx_ok [OF y(1)] by (simp add: nfc_task_read_def nfc_task_msg_def)
  qed (use Cons y(1) in \<open>simp_all add: nfc_task_read_def nfc_task_msg_def wp_def\<close>)
qed

lemma hal_cback_safe: "sys_ok y \<Longrightarrow> sys_ok (nfc_main_hal_cback buf ev st y)"
  by (auto simp: sys_ok_def nfc_main_hal_cback_def nfc_main_post_hal_evt_def)

lemma hal_data_safe:
  assumes "sys_ok y" "pkt_ok pkt"
  shows "wp (hal_data_cback buf pkt y) sys_ok"
proof -
  obtain h where "nfc_main_hal_data_cback True pkt = Some (Some h)" "pkt_msg h" using cback_pkt [OF assms(2)] .
  moreover have "nfc_main_hal_data_cback False pkt = Some None" by (simp add: nfc_main_hal_data_cback_def)
  ultimately show ?thesis using assms(1) by (cases buf) (auto simp: hal_data_cback_def sys_ok_def wp_def)
qed

lemma life_cycle_safe:
  assumes "sys_ok y"
  shows "sys_ok (snd (NFC_Enable cb y))" "sys_ok (NFC_Disable y)" "sys_ok (snd (NFC_SetPowerOffSleep b y))" "sys_ok (snd (NFC_PowerCycleNFCC y))"
  using assms by (auto simp: NFC_Enable_def NFC_Disable_def NFC_SetPowerOffSleep_def NFC_PowerCycleNFCC_def disable_report_def
      intro!: upd_rx_ok shutdown_safe set_state_safe rx_safe_set)

lemma step_safe:
  assumes "sys_ok y" "input_ok x y"
  shows "wp (nfc_step x y) sys_ok"
proof (cases x)
  case (In_send alloc c p)
  then show ?thesis using assms by (auto intro!: base_rx_ok wp_intros SendData_safe [THEN wp_call] split: option.splits)
next
  case (In_task_read e alloc big)
  then show ?thesis using task_read_safe assms by simp
next
  case (In_request e q)
  then show ?thesis using assms by (auto intro!: snd_rx_ok call_safe)
next
  case (In_discovery e n ps)
  then show ?thesis using assms by (auto intro!: snd_rx_ok discovery_start_safe)
qed (use assms in \<open>auto simp: flush_safe hci_cback_safe rx_safe_base intro!: wp_intros life_cycle_safe bind_rx_ok base_rx_ok upd_rx_ok
      nfc_deactivate_safe [THEN wp_call] conn_create_safe [THEN wp_call] conn_close_safe [THEN wp_call] rf_cback_safe t4t_cback_safe hal_cback_safe hal_data_safe
      task_ready_safe timer_safe rx_safe_upd_base\<close>)

lemma sys_init_ok: "sys_ok (NFC_Init y \<lparr> sy_mbox := [] \<rparr>)"
proof -
  have "\<forall>c\<in>set (nc_conn_cb (nc_init 1)). conn_ok c" "nc_flags (nc_init 1) = 0" by (simp_all add: nc_init_def conn_ok_def)
  then show ?thesis using conn_init_ok [of 1]
    by (simp add: sys_ok_def rx_safe_def nci_safe_def NFC_Init_def q_ok_def pend_ok_def nci_fl_def nfc_interface_mapping_def
        base_safe_def [of "nc_init 1"])
qed

lemma sys_reach_ok: "nfc_reach y \<Longrightarrow> sys_ok y"
proof (induction rule: nfc_reach.induct)
  case (init y)
  show ?case by (rule sys_init_ok)
next
  case (step y x y')
  then show ?case using step_safe [of y x] by (simp add: wp_def)
qed

section \<open>Shutdown\<close>

lemma free_conns:
  "nc_conn_cb (nfc_free_conn_cb (Some i) b) =
    (nc_conn_cb b)[i := (nc_conn_cb b ! i) \<lparr> cc_rx_q := [], cc_tx_q := [], cc_cback := False, cc_conn_id := NFC_ILLEGAL_CONN_ID \<rparr>]"
  by (simp add: nfc_free_conn_cb_def Let_def)

lemma reset_len: "length (nc_conn_cb (reset_conn_cb i b)) = length (nc_conn_cb b)"
  by (simp add: reset_conn_cb_def Let_def free_conns)

lemma reset_all_illegal:
  assumes "i < NCI_MAX_CONN_CBS" "length (nc_conn_cb b) = NCI_MAX_CONN_CBS"
  shows "cc_conn_id (nc_conn_cb (nfc_reset_all_conn_cbs b) ! i) = NFC_ILLEGAL_CONN_ID"
proof -
  have "cc_conn_id (nc_conn_cb (fold reset_conn_cb ks b) ! i) = NFC_ILLEGAL_CONN_ID"
    if "i \<in> set ks \<or> cc_conn_id (nc_conn_cb b ! i) = NFC_ILLEGAL_CONN_ID" "i < length (nc_conn_cb b)" for ks b
    using that
  proof (induction ks arbitrary: b)
    case (Cons k ks)
    have "cc_conn_id (nc_conn_cb (reset_conn_cb k b) ! i) = NFC_ILLEGAL_CONN_ID" if "k = i \<or> cc_conn_id (nc_conn_cb b ! i) = NFC_ILLEGAL_CONN_ID"
      using that Cons.prems(2) by (cases "k = i") (auto simp: reset_conn_cb_def Let_def free_conns)
    then show ?case using Cons by (auto simp: reset_len)
  qed simp
  then show ?thesis using assms by (simp add: nfc_reset_all_conn_cbs_def)
qed

text \<open>No connection is left, and no identifier leads to one.\<close>

definition conns_clear :: "nfc_conns \<Rightarrow> bool" where
  "conns_clear b \<longleftrightarrow> (\<forall>c\<in>set (nc_conn_cb b). cc_conn_id c = NFC_ILLEGAL_CONN_ID) \<and> (\<forall>j\<le>NFC_MAX_CONN_ID. nc_conn_id b ! j = 0)"

lemma reset_all_clear:
  assumes "conns_ok b"
  shows "conns_clear (nfc_reset_all_conn_cbs b)"
proof -
  let ?b = "nfc_reset_all_conn_cbs b"
  have ok: "conns_ok ?b" by (rule reset_all_ok [OF assms])
  have i: "cc_conn_id (nc_conn_cb ?b ! i) = NFC_ILLEGAL_CONN_ID" if "i < NCI_MAX_CONN_CBS" for i
    using reset_all_illegal [OF that] assms by (simp add: conns_ok_def)
  have "nc_conn_id ?b ! j = 0" if "j \<le> NFC_MAX_CONN_ID" for j
  proof (rule ccontr)
    assume n: "nc_conn_id ?b ! j \<noteq> 0"
    then have "0 < unat (nc_conn_id ?b ! j)" "0 < nc_conn_id ?b ! j" by (simp_all add: word_gt_0 unat_gt_0)
    then have "of_nat j = NFC_ILLEGAL_CONN_ID" using ok that i [of "unat (nc_conn_id ?b ! j) - 1"] by (auto simp: conns_ok_def)
    then have "unat (of_nat j :: u8) = 255" by simp
    then show False using that by (simp add: unat_of_nat_u8 NFC_MAX_CONN_ID_def)
  qed
  then show ?thesis using i ok by (auto simp: conns_clear_def conns_ok_def in_set_conv_nth)
qed

lemma set_state_fields [simp]:
  "nc_state (rx_base (nfc_set_state st s)) = st" "rx_log (nfc_set_state st s) = rx_log s" "rx_resp_cback (nfc_set_state st s) = rx_resp_cback s"
  "nci_fl f (rx_nci (nfc_set_state st s)) = nci_fl f (rx_nci s)" "nci_xmit_q (rx_nci (nfc_set_state st s)) = nci_xmit_q (rx_nci s)"
  "conns_clear (rx_base (nfc_set_state st s)) = conns_clear (rx_base s)"
  by (simp_all add: nfc_set_state_def upd_base_def rx_base_def nci_fl_def conns_clear_def)

lemma ev_fields [simp]:
  "rx_log (rx_ev ev s) = rx_log s @ [ev]" "rx_resp_cback (rx_ev ev s) = rx_resp_cback s" "rx_base (rx_ev ev s) = rx_base s"
  by (simp_all add: rx_ev_def rx_base_def)

lemma report_fields [simp]:
  "rx_base (disable_report s) = rx_base s" "rx_nci (disable_report s) = rx_nci s" "\<not> rx_resp_cback (disable_report s)"
  "rx_log (disable_report s) = rx_log s @ (if rx_resp_cback s then [Disable_revt] else [])"
  by (simp_all add: disable_report_def resp_cb_def rx_base_def)

lemma and_mask_keep: "(f :: 'a::len word) AND m = 0 \<Longrightarrow> f AND NOT m = f"
  by (auto simp: bit_eq_iff bit_simps)

lemma cleanup_fields:
  assumes "base_safe (rx_base s)"
  shows "conns_clear (rx_base (rx_gen_cleanup s))" "nci_xmit_q (rx_nci (rx_gen_cleanup s)) = []" "rx_log (rx_gen_cleanup s) = rx_log s"
    "rx_resp_cback (rx_gen_cleanup s) = rx_resp_cback s" "f AND 0xF0 = 0 \<Longrightarrow> nci_fl f (rx_nci (rx_gen_cleanup s)) = nci_fl f (rx_nci s)"
proof -
  have c: "conns_ok (rx_base s)" using assms by (simp add: base_safe_def)
  obtain k where k: "rx_base (rx_gen_cleanup s) = nfc_reset_all_conn_cbs (rx_base s \<lparr> nc_flags := nc_flags (rx_base s) AND k \<rparr>)"
      "k = NOT 0xB0 \<or> k = NOT 0x40 AND NOT 0xB0"
    by (cases "nci_fl NFC_FL_DISCOVER_PENDING (rx_nci s)")
      (auto simp: rx_gen_cleanup_def rx_base_def nfc_gen_cleanup_def Let_def nfc_main_flush_cmd_queue_def nci_clr_fl_def and.assoc)
  have "conns_ok (rx_base s \<lparr> nc_flags := nc_flags (rx_base s) AND k \<rparr>)" using c by (simp add: conns_ok_def)
  then show "conns_clear (rx_base (rx_gen_cleanup s))" unfolding k(1) by (rule reset_all_clear)
  show "nci_xmit_q (rx_nci (rx_gen_cleanup s)) = []" "rx_log (rx_gen_cleanup s) = rx_log s" "rx_resp_cback (rx_gen_cleanup s) = rx_resp_cback s"
    by (simp_all add: rx_gen_cleanup_def nfc_gen_cleanup_def Let_def nfc_main_flush_cmd_queue_def)
  assume f: "f AND 0xF0 = 0"
  have m: "f AND k = f"
  proof -
    have "f AND NOT 0xF0 = f" by (rule and_mask_keep [OF f])
    moreover have "NOT 0xF0 AND k = (NOT 0xF0 :: u16)" using k(2) by auto
    ultimately show ?thesis by (metis and.assoc)
  qed
  have "nc_flags (rx_base (rx_gen_cleanup s)) AND f = nc_flags (rx_base s) AND f"
    using k(1) m by (simp add: and.assoc and.commute [of k])
  then show "nci_fl f (rx_nci (rx_gen_cleanup s)) = nci_fl f (rx_nci s)" by (simp add: nci_fl_def rx_base_def)
qed

section \<open>Properties\<close>



text \<open>A stack that has just been initialised, and one that waits for the transport to open.\<close>

definition sys_boot :: nfc_sys where
  "sys_boot = NFC_Init \<lparr> sy_rx = rx_init, sy_mbox = [], sy_ready = False, sy_reset_type = 0, sy_keep_cfg = False, sy_nfcc_mode = 0 \<rparr>"

lemma sys_boot_reach: "nfc_reach sys_boot"
proof -
  have "sys_boot = sys_boot \<lparr> sy_mbox := [] \<rparr>" by (simp add: sys_boot_def NFC_Init_def)
  then show ?thesis using nfc_reach.init unfolding sys_boot_def by metis
qed

definition sys_opening :: nfc_sys where
  "sys_opening = snd (NFC_Enable True sys_boot)"

lemma sys_opening_reach: "nfc_reach sys_opening"
  unfolding sys_opening_def by (rule nfc_reach.step [OF sys_boot_reach, of "In_enable True"]) simp_all


lemma sys_opening_fields:
  "rx_resp_cback (sy_rx sys_opening)" "sy_state sys_opening = NFC_STATE_W4_HAL_OPEN" "nc_flags (nci_base (rx_nci (sy_rx sys_opening))) = 0"
  by (simp_all add: sys_opening_def NFC_Enable_def upd_rx_def sys_boot_def NFC_Init_def sy_state_def nfc_set_state_def upd_base_def rx_base_def
      nc_init_def rx_ev_def)


section \<open>Limits of the code\<close>

text \<open>When the transport becomes ready just before the stack is disabled, the pending event puts the stack back into its
  initialisation: the report of the closed transport is taken for a failed start, and the client never hears that the
  stack is disabled.\<close>

lemma disable_lost:
  "map_option (\<lambda>y. rx_log (sy_rx y))
     (Option.bind (nfc_task_ready env_plain (NFC_Disable (nfc_main_hal_cback True HAL_NFC_OPEN_CPLT_EVT HAL_NFC_STATUS_OK sys_opening)))
       (\<lambda>y. nfc_task_read env_plain (\<lambda>_. True) True (nfc_main_hal_cback True HAL_NFC_CLOSE_CPLT_EVT 0 y))) =
   Some [Hal_open, Hal_close, Stop_timers, Enable_revt NCI_STATUS_FAILED]"
  by code_simp

text \<open>The flag of the receive bit rate is never read.\<close>

lemma rx_rate_follows_tx_flag: "NFC_UpdateRFCommParams e (r \<lparr> rc_rx_included := b \<rparr>) n = NFC_UpdateRFCommParams e r n"
  by (simp add: NFC_UpdateRFCommParams_def rf_comm_tlvs_def)

end
