(* ===== verification/RwT4t.thy ===== *)
theory RwT4t
  imports NciConn
begin

unbundle bit_operations_syntax

text \<open>
  The reader/writer for Type 4 Tags, \<^verbatim>\<open>nfc/tags/rw_t4t.cc\<close>: detection of the NDEF file through the capability container,
  reading and writing it in pieces, setting it read-only, formatting a DESFire card and the presence check. The state is the
  control block \<^verbatim>\<open>rw_cb.tcb.t4t\<close>. Command APDUs handed to the lower layer, events for the layer above and the number of
  released response buffers are logged; the pointer to the data to write is the list of bytes from there on, and a read
  or write outside a buffer is \<open>None\<close>. Whether a buffer is available, whether \<^verbatim>\<open>NFC_SendData\<close> accepts a packet and the global
  settings are fields of the state.
\<close>

section \<open>State\<close>

datatype t4t_state = T4T_NOT_ACTIVATED | T4T_IDLE | T4T_DETECT_NDEF | T4T_READ_NDEF | T4T_UPDATE_NDEF | T4T_PRESENCE_CHECK
  | T4T_SET_READ_ONLY | T4T_NDEF_FORMAT

datatype t4t_sub = WAIT_SELECT_APP | WAIT_SELECT_CC | WAIT_CC_FILE | WAIT_SELECT_NDEF_FILE | WAIT_READ_NLEN | WAIT_READ_RESP
  | WAIT_UPDATE_RESP | WAIT_UPDATE_NLEN | WAIT_UPDATE_CC | WAIT_ENDEF_FILE_CTRL_TLV | WAIT_GET_HW_VERSION | WAIT_GET_SW_VERSION
  | WAIT_GET_UID | WAIT_CREATE_APP | WAIT_CREATE_CC | WAIT_CREATE_NDEF | WAIT_WRITE_CC | WAIT_WRITE_NDEF

text \<open>Events for the layer above: the result of a detection (status, largest and current size, flags), a failure (the event with
  its status and status words), segments of data, and the status of the other procedures.\<close>

datatype rw_event =
    RW_T4T_NDEF_DETECT u8 u32 u32 u8
  | RW_T4T_FAIL u8 u8 u8 u8
  | RW_T4T_NDEF_READ mem
  | RW_T4T_NDEF_READ_CPLT mem
  | RW_T4T_NDEF_UPDATE_CPLT u8
  | RW_T4T_SET_TO_RO u8
  | RW_T4T_PRESENCE_CHECK u8
  | RW_T4T_RAW_FRAME u8 mem
  | RW_T4T_INTF_ERROR u8
  | RW_T4T_NDEF_FORMAT_CPLT u8 u32

record rw_t4t =
  r4_state :: t4t_state
  r4_sub :: t4t_sub
  r4_version :: u8
  r4_timer :: bool
  r4_ndef_length :: u32
  r4_update_data :: "mem option"
  r4_rw_length :: u32
  r4_rw_offset :: u32
  r4_retry :: "mem option"
  r4_cclen :: u16
  r4_cc_version :: u8
  r4_max_le :: u16
  r4_max_lc :: u16
  r4_file_id :: u16
  r4_max_file_size :: u32
  r4_read_access :: u8
  r4_write_access :: u8
  r4_nlen_size :: u8
  r4_ndef_status :: u8
  r4_channel :: u8
  r4_max_read :: u16
  r4_max_update :: u16
  r4_card_size :: u16
  r4_card_type :: u8
  r4_intl :: u8
  r4_cback :: bool
  r4_rf_cback :: bool
  r4_alloc :: bool
  r4_link :: bool
  r4_nak :: bool
  r4_dta :: bool
  r4_nfcee :: bool
  r4_aid :: mem
  r4_sent :: "mem list"
  r4_events :: "rw_event list"
  r4_freed :: nat

datatype rw_conn_evt = RW_DEACTIVATE_CEVT | RW_ERROR_CEVT u8 | RW_DATA_CEVT u8 nfc_hdr | RW_OTHER_CEVT

abbreviation (input) "T4T_VERSION_1_0 \<equiv> 0x10 :: u8"
abbreviation (input) "T4T_VERSION_2_0 \<equiv> 0x20 :: u8"
abbreviation (input) "T4T_VERSION_3_0 \<equiv> 0x30 :: u8"
abbreviation (input) "T4T_CC_FILE_ID \<equiv> 0xE103 :: u16"
abbreviation (input) "NDEF_DETECTED \<equiv> 0x01 :: u8"
abbreviation (input) "NDEF_READ_ONLY \<equiv> 0x02 :: u8"
abbreviation (input) "EXT_FIELD_CODING \<equiv> 0x01 :: u8"
abbreviation (input) "DDO_LC_FIELD_CODING \<equiv> 0x02 :: u8"
abbreviation (input) "RW_T4T_MAX_DATA_PER_READ \<equiv> 647 :: u16"
abbreviation (input) "RW_T4T_MAX_DATA_PER_WRITE \<equiv> 633 :: u16"
abbreviation (input) "RW_T4T_APDU_SIZE \<equiv> 648 :: nat"
abbreviation (input) "STATUS_BAD_RESP \<equiv> 0xE7 :: u8"
abbreviation (input) "STATUS_CMD_NOT_CMPLTD \<equiv> 0xE8 :: u8"
abbreviation (input) "STATUS_NO_BUFFERS \<equiv> 0xE9 :: u8"
abbreviation (input) "STATUS_TIMEOUT \<equiv> 0xB2 :: u8"

definition rw_evt :: "rw_event \<Rightarrow> rw_t4t \<Rightarrow> rw_t4t" where
  "rw_evt ev s = s \<lparr> r4_events := r4_events s @ [ev] \<rparr>"

definition r4_free :: "rw_t4t \<Rightarrow> rw_t4t" where
  "r4_free s = s \<lparr> r4_freed := Suc (r4_freed s) \<rparr>"

definition be24_bytes :: "u32 \<Rightarrow> mem" where
  "be24_bytes w = [ucast (drop_bit 16 w), ucast (drop_bit 8 w), ucast w]"

definition rd_be16 :: "mem \<Rightarrow> nat \<Rightarrow> u16 option" where
  "rd_be16 m p = do { a \<leftarrow> rd8 m p; b \<leftarrow> rd8 m (p + 1); Some (be16_val a b) }"

section \<open>Sending\<close>

text \<open>The command is kept for a retry, sent, and the response timer started.\<close>

definition rw_t4t_send_to_lower :: "mem \<Rightarrow> rw_t4t \<Rightarrow> bool \<times> rw_t4t" where
  "rw_t4t_send_to_lower apdu s =
    (let s = s \<lparr> r4_retry := None \<rparr> in
     if \<not> r4_alloc s \<or> 660 < 12 + length apdu then (False, s)
     else let s = s \<lparr> r4_retry := Some apdu \<rparr> in
       if \<not> r4_link s then (False, s)
       else (True, s \<lparr> r4_sent := r4_sent s @ [apdu], r4_timer := True \<rparr>))"

text \<open>A command written into a buffer of the pool; bytes beyond its end are outside.\<close>

definition t4t_cmd :: "mem \<Rightarrow> rw_t4t \<Rightarrow> (bool \<times> rw_t4t) option" where
  "t4t_cmd apdu s =
    (if \<not> r4_alloc s then Some (False, s)
     else if RW_T4T_APDU_SIZE < length apdu then None
     else Some (rw_t4t_send_to_lower apdu s))"

text \<open>The length of the offset and data objects of an update: the length byte(s) of the data object, the length of the whole field and that
  of the data, all in 32 bits.\<close>

definition ber_length_size :: "u32 \<Rightarrow> bool \<Rightarrow> nat" where
  "ber_length_size len ext = (if len \<le> 0x7F then 1 else if len + 8 \<le> 0xFF then 2 else if ext then if len \<le> 0xFF then 2 else 3 else 2)"

definition ber_lengths :: "u32 \<Rightarrow> bool \<Rightarrow> u32 \<Rightarrow> u32 \<times> u32" where
  "ber_lengths len ext mx =
    (let hdr = 6 + of_nat (ber_length_size len ext);
         len' = (if 0x7F < len \<and> 0xFF < len + 8 \<and> \<not> ext then 0 else len)
     in if len' = 0 then (if 0xFF \<le> mx then (0xFF, 0xFF - hdr) else (mx, mx - hdr))
        else if len' + hdr \<le> mx then (len' + hdr, len) else (mx, mx - hdr))"

definition rw_t4t_set_ber_tlv :: "u32 \<Rightarrow> rw_t4t \<Rightarrow> (bool \<times> rw_t4t) option" where
  "rw_t4t_set_ber_tlv length' s =
    (let ext = (r4_intl s AND EXT_FIELD_CODING \<noteq> 0); n = ber_length_size length' ext;
         (lc, dl) = ber_lengths length' ext (ucast (r4_max_update s));
         head = [0x00, 0xD7, 0, 0] @ (if ext then [0, ucast (drop_bit 8 lc), ucast lc] else [ucast lc]) @ [0x54, 0x03] @ be24_bytes (r4_rw_offset s) @ [0x53]
     in if n = 3 \<and> 0xFFFF < dl then Some (False, s)
        else do {
          let len = (if n = 1 then [ucast dl] else if n = 2 then [0x81, ucast dl] else 0x82 # be16_bytes (ucast dl));
          d \<leftarrow> r4_update_data s;
          bs \<leftarrow> rd_bytes d 0 (unat dl);
          if RW_T4T_APDU_SIZE < length (head @ len @ bs) then None
          else (case rw_t4t_send_to_lower (head @ len @ bs) s of (ok, s) \<Rightarrow>
            if \<not> ok then Some (False, s)
            else Some (True, s \<lparr> r4_rw_offset := r4_rw_offset s + dl, r4_rw_length := r4_rw_length s - dl,
                              r4_update_data := Some (drop (unat dl) d) \<rparr>)) })"

text \<open>The last read command again, with its length in one byte.\<close>

definition rw_t4t_format_short_field_coding :: "rw_t4t \<Rightarrow> rw_t4t option" where
  "rw_t4t_format_short_field_coding s =
    (case r4_retry s of None \<Rightarrow> None
     | Some c \<Rightarrow> do {
         ins \<leftarrow> rd8 c 1;
         if ins = 0xB0 \<and> length c = 7 then do {
           hi \<leftarrow> rd8 c 5; lo \<leftarrow> rd8 c 6;
           if \<not> r4_alloc s then Some s
           else Some (snd (rw_t4t_send_to_lower (take 4 c @ [if be16_val hi lo \<le> 0xFF then lo else 0xFF]) s)) }
         else Some s })"

section \<open>Commands of the format procedure\<close>

definition rw_t4t_get_hw_version :: "rw_t4t \<Rightarrow> (bool \<times> rw_t4t) option" where
  "rw_t4t_get_hw_version = t4t_cmd [0x90, 0x60, 0, 0, 0]"

definition rw_t4t_get_sw_version :: "rw_t4t \<Rightarrow> (bool \<times> rw_t4t) option" where
  "rw_t4t_get_sw_version = t4t_cmd [0x90, 0xAF, 0, 0, 0]"

definition rw_t4t_get_uid_details :: "rw_t4t \<Rightarrow> (bool \<times> rw_t4t) option" where
  "rw_t4t_get_uid_details = t4t_cmd [0x90, 0xAF, 0, 0, 0]"

definition rw_t4t_update_version_details :: "nfc_hdr \<Rightarrow> rw_t4t \<Rightarrow> (bool \<times> rw_t4t) option" where
  "rw_t4t_update_version_details h s =
    (if h_len h < 9 then Some (False, s)
     else do {
       let p = unat (h_offset h);
       major \<leftarrow> rd8 (h_data h) (p + 3);
       minor \<leftarrow> rd8 (h_data h) (p + 4);
       if major = 0 \<and> minor = 6 then Some (True, s \<lparr> r4_card_size := 0xEDE \<rparr>)
       else if 1 \<le> major then do {
         sz \<leftarrow> rd8 (h_data h) (p + 5);
         let s = s \<lparr> r4_card_type := 1 \<rparr>;
         Some (if sz = 0x16 then (True, s \<lparr> r4_card_size := 2048 \<rparr>)
               else if sz = 0x18 then (True, s \<lparr> r4_card_size := 4096 \<rparr>)
               else if sz = 0x1A then (True, s \<lparr> r4_card_size := 7680 \<rparr>)
               else (False, s)) }
       else Some (False, s) })"

definition rw_t4t_create_app :: "rw_t4t \<Rightarrow> (bool \<times> rw_t4t) option" where
  "rw_t4t_create_app s = t4t_cmd ([0x90, 0xCA, 0, 0] @
     (if r4_card_type s = 1
      then [14] @ be24_bytes 0x010000 @ be16_bytes 0x0F21 @ be16_bytes 0x05E1 @ [0xD2, 0x76, 0x00, 0x00, 0x85, 0x01, 0x01] @ [0]
      else [5] @ be24_bytes 0x10EEEE @ be16_bytes 0x0F01 @ [0])) s"

definition rw_t4t_select_app :: "rw_t4t \<Rightarrow> (bool \<times> rw_t4t) option" where
  "rw_t4t_select_app s = t4t_cmd ([0x90, 0x5A, 0, 0, 3] @ be24_bytes (if r4_card_type s = 1 then 0x010000 else 0x10EEEE) @ [0]) s"

definition rw_t4t_create_ccfile :: "rw_t4t \<Rightarrow> (bool \<times> rw_t4t) option" where
  "rw_t4t_create_ccfile s = t4t_cmd ([0x90, 0xCD, 0, 0] @
     (if r4_card_type s = 1 then [9, 1] @ be16_bytes 0x03E1 else [7, 3]) @ [0] @ be16_bytes 0xEEEE @ be24_bytes 0x0F0000 @ [0]) s"

definition rw_t4t_create_ndef :: "rw_t4t \<Rightarrow> (bool \<times> rw_t4t) option" where
  "rw_t4t_create_ndef s = t4t_cmd ([0x90, 0xCD, 0, 0] @
     (if r4_card_type s = 1 then [9, 2] @ be16_bytes 0x04E1 else [7, 4]) @ [0] @ be16_bytes 0xEEEE @ le16_bytes (r4_card_size s) @ [0] @ [0]) s"

definition rw_t4t_write_cc :: "rw_t4t \<Rightarrow> (bool \<times> rw_t4t) option" where
  "rw_t4t_write_cc s =
    (let cc = [0x00, 0x0F, 0x10, 0x00, 0x3B, 0x00, 0x34, 0x04, 0x06, 0xE1, 0x04, 0x04, 0x00, 0x00, 0x00] in
     t4t_cmd ([0x90, 0x3D, 0, 0, 0x16] @ (if r4_card_type s = 1 then [1] else [3]) @ be24_bytes 0 @ be24_bytes 0x0F0000 @
       (if r4_card_type s = 1 then cc[2 := 0x20, 11 := ucast (drop_bit 8 (r4_card_size s)), 12 := ucast (r4_card_size s)] else cc) @ [0]) s)"

definition rw_t4t_write_ndef :: "rw_t4t \<Rightarrow> (bool \<times> rw_t4t) option" where
  "rw_t4t_write_ndef s = t4t_cmd ([0x90, 0x3D, 0, 0, 9] @ (if r4_card_type s = 1 then [2] else [4]) @ be24_bytes 0 @ be24_bytes 0x020000 @ be16_bytes 0 @ [0]) s"

section \<open>Commands of the NDEF procedures\<close>

definition rw_t4t_select_file :: "u16 \<Rightarrow> rw_t4t \<Rightarrow> (bool \<times> rw_t4t) option" where
  "rw_t4t_select_file file_id s = t4t_cmd ([0x00, 0xA4, 0x00, if r4_version s = T4T_VERSION_2_0 \<or> r4_version s = T4T_VERSION_3_0 then 0x0C else 0x00, 2] @
     be16_bytes file_id) s"

definition rw_t4t_read_file :: "u32 \<Rightarrow> u32 \<Rightarrow> bool \<Rightarrow> rw_t4t \<Rightarrow> (bool \<times> rw_t4t) option" where
  "rw_t4t_read_file offset length' is_continue s =
    (if \<not> r4_alloc s then Some (False, s)
     else
       let s = (if \<not> is_continue then s \<lparr> r4_rw_offset := offset, r4_rw_length := length' \<rparr> else s);
           length' = (if ucast (r4_max_read s) < length' then ucast (r4_max_read s) else length');
           ext = (r4_intl s AND EXT_FIELD_CODING \<noteq> 0); cla = r4_channel s
       in if 0x7FFF < r4_rw_offset s + r4_rw_length s then
            if T4T_VERSION_3_0 \<le> r4_cc_version s then
              let s = s \<lparr> r4_intl := r4_intl s OR DDO_LC_FIELD_CODING \<rparr>;
                  le = (if length' < ucast (r4_max_read s) then 0 else length')
              in t4t_cmd ([cla, 0xB1, 0, 0] @ (if ext then [0, 0, 5] else [5]) @ [0x54, 0x03] @ be24_bytes offset @
                   (if ext then be16_bytes (ucast le) else [ucast le])) s
            else Some (False, s)
          else if ext then t4t_cmd ([cla, 0xB0] @ be16_bytes (ucast offset) @ [0] @ be16_bytes (ucast length')) s
          else t4t_cmd ([cla, 0xB0] @ be16_bytes (ucast offset) @ [ucast (if length' = 256 then 255 else length')]) s)"

definition rw_t4t_update_nlen :: "u32 \<Rightarrow> rw_t4t \<Rightarrow> (bool \<times> rw_t4t) option" where
  "rw_t4t_update_nlen ndef_len s =
    (let bs = (if r4_nlen_size s = 2 then be16_bytes (ucast ndef_len) else be32_bytes ndef_len) in
     if length bs < unat (r4_nlen_size s) then None
     else t4t_cmd ([0x00, 0xD6, 0, 0, r4_nlen_size s] @ take (unat (r4_nlen_size s)) bs) s)"

definition rw_t4t_update_file :: "rw_t4t \<Rightarrow> (bool \<times> rw_t4t) option" where
  "rw_t4t_update_file s =
    (if \<not> r4_alloc s then Some (False, s)
     else if r4_rw_length s = 0 then Some (False, s)
     else
       let length' = (if ucast (r4_max_update s) < r4_rw_length s then ucast (r4_max_update s) else r4_rw_length s)
       in if 0x7FFF < r4_rw_offset s + r4_rw_length s then
            if T4T_VERSION_3_0 \<le> r4_cc_version s then rw_t4t_set_ber_tlv length' s else Some (False, s)
          else do {
            let length' = (if 0xFF < length' then 0xFF else length');
            d \<leftarrow> r4_update_data s;
            bs \<leftarrow> rd_bytes d 0 (unat length');
            (ok, s) \<leftarrow> t4t_cmd ([0x00, 0xD6] @ be16_bytes (ucast (r4_rw_offset s)) @ [ucast length'] @ bs) s;
            if \<not> ok then Some (False, s)
            else Some (True, s \<lparr> r4_rw_offset := r4_rw_offset s + length', r4_rw_length := r4_rw_length s - length',
                              r4_update_data := Some (drop (unat length') d) \<rparr>) })"

definition rw_t4t_update_cc_to_readonly :: "rw_t4t \<Rightarrow> (bool \<times> rw_t4t) option" where
  "rw_t4t_update_cc_to_readonly = t4t_cmd ([0x00, 0xD6] @ be16_bytes (7 + 7) @ [1, 0xFF])"

definition rw_t4t_select_application :: "u8 \<Rightarrow> rw_t4t \<Rightarrow> (bool \<times> rw_t4t) option" where
  "rw_t4t_select_application version s =
    (if version = T4T_VERSION_1_0 then t4t_cmd [0x00, 0xA4, 0x04, 0x00, 7, 0xD2, 0x76, 0x00, 0x00, 0x85, 0x01, 0x00] s
     else if version = T4T_VERSION_2_0 \<or> version = T4T_VERSION_3_0 then
       if r4_aid s = [] \<or> \<not> r4_nfcee s then t4t_cmd [0x00, 0xA4, 0x04, 0x00, 7, 0xD2, 0x76, 0x00, 0x00, 0x85, 0x01, 0x01, 0x00] s
       else t4t_cmd ([0x00, 0xA4, 0x04, 0x00, of_nat (length (r4_aid s))] @ r4_aid s @ [0x00]) s
     else Some (False, s))"

section \<open>The capability container\<close>

definition rw_t4t_validate_cc_file :: "rw_t4t \<Rightarrow> bool" where
  "rw_t4t_validate_cc_file s \<longleftrightarrow>
    \<not> (r4_cclen s < 15) \<and>
    \<not> (drop_bit 4 (r4_version s) < drop_bit 4 (r4_cc_version s)) \<and>
    \<not> (r4_max_le s < 15) \<and>
    \<not> (r4_max_lc s < 1 \<or> r4_max_lc s < 13 \<and> r4_dta s) \<and>
    \<not> (r4_file_id s = T4T_CC_FILE_ID \<or> r4_file_id s = 0xE102 \<or>
       r4_file_id s = 0 \<and> (r4_cc_version s = 0x20 \<or> r4_cc_version s = 0x30) \<or>
       r4_file_id s = 0x3F00 \<or> r4_file_id s = 0x3FFF \<or> r4_file_id s = 0xFFFF) \<and>
    \<not> (r4_cc_version s = 0x20 \<and> (r4_max_file_size s < 5 \<or> 0x7FFF < r4_max_file_size s) \<or>
       r4_cc_version s = 0x30 \<and> (r4_max_file_size s < 7 \<or> r4_max_file_size s = 0xFFFFFFFF)) \<and>
    \<not> (0 < r4_read_access s \<and> r4_read_access s < 0x80 \<or> r4_read_access s = 0xFF) \<and>
    \<not> (0 < r4_write_access s \<and> r4_write_access s < 0x80)"

section \<open>Errors\<close>

text \<open>The event that reports the failure of each procedure, and the status it carries.\<close>

definition t4t_fail_event :: "t4t_state \<Rightarrow> u8 \<Rightarrow> (u8 \<times> u8) option" where
  "t4t_fail_event st status = (case st of
     T4T_DETECT_NDEF \<Rightarrow> Some (0x80, status)
   | T4T_READ_NDEF \<Rightarrow> Some (0x83, status)
   | T4T_UPDATE_NDEF \<Rightarrow> Some (0x85, status)
   | T4T_PRESENCE_CHECK \<Rightarrow> Some (0x87, NCI_STATUS_FAILED)
   | T4T_SET_READ_ONLY \<Rightarrow> Some (0x86, status)
   | T4T_NDEF_FORMAT \<Rightarrow> Some (0x8A, NCI_STATUS_FAILED)
   | _ \<Rightarrow> None)"

definition rw_t4t_handle_error :: "u8 \<Rightarrow> u8 \<Rightarrow> u8 \<Rightarrow> rw_t4t \<Rightarrow> rw_t4t" where
  "rw_t4t_handle_error status sw1 sw2 s =
    (let ev = t4t_fail_event (r4_state s) status; s = s \<lparr> r4_timer := False, r4_state := T4T_IDLE \<rparr> in
     if r4_cback s then (case ev of Some (e, st) \<Rightarrow> rw_evt (RW_T4T_FAIL e st sw1 sw2) s | None \<Rightarrow> s) else s)"

text \<open>The two ways a procedure goes on: a command was sent and the next response is awaited, or it failed.\<close>

definition t4t_next :: "t4t_sub \<Rightarrow> bool \<times> rw_t4t \<Rightarrow> rw_t4t" where
  "t4t_next sub r = (case r of (ok, s) \<Rightarrow> if ok then s \<lparr> r4_sub := sub \<rparr> else rw_t4t_handle_error NCI_STATUS_FAILED 0 0 s)"

definition t4t_or_fail :: "bool \<times> rw_t4t \<Rightarrow> rw_t4t" where
  "t4t_or_fail r = (case r of (ok, s) \<Rightarrow> if ok then s else rw_t4t_handle_error NCI_STATUS_FAILED 0 0 s)"

text \<open>The status words at the end of a response.\<close>

definition rsp_sw :: "nfc_hdr \<Rightarrow> (u8 \<times> u8) option" where
  "rsp_sw h = (let p = unat (h_offset h) + (unat (h_len h) - 2) in do { a \<leftarrow> rd8 (h_data h) p; b \<leftarrow> rd8 (h_data h) (p + 1); Some (a, b) })"

section \<open>Formatting\<close>

text \<open>A step of the procedure: on success (an object that already exists counts as one where the code says so) the next command.\<close>

definition format_step :: "bool \<Rightarrow> nfc_hdr \<Rightarrow> (rw_t4t \<Rightarrow> rw_t4t option) \<Rightarrow> rw_t4t \<Rightarrow> rw_t4t option" where
  "format_step dup h f s = do {
     (a, b) \<leftarrow> rsp_sw h;
     if be16_val a b = 0x9100 \<or> dup \<and> be16_val a b = 0x91DE then f s
     else Some (rw_t4t_handle_error STATUS_CMD_NOT_CMPLTD a b s) }"

definition format_done :: "rw_t4t \<Rightarrow> rw_t4t" where
  "format_done s =
    (let s = s \<lparr> r4_state := T4T_IDLE \<rparr> in if r4_cback s then rw_evt (RW_T4T_NDEF_FORMAT_CPLT NCI_STATUS_OK (ucast (r4_card_size s))) s else s)"

definition rw_t4t_sm_ndef_format :: "nfc_hdr \<Rightarrow> rw_t4t \<Rightarrow> rw_t4t option" where
  "rw_t4t_sm_ndef_format h s =
    (let last = unat (h_offset h) + (unat (h_len h) - 1) in
     case r4_sub s of
       WAIT_GET_HW_VERSION \<Rightarrow> do {
         b \<leftarrow> rd8 (h_data h) last;
         if b = 0xAF then map_option (t4t_next WAIT_GET_SW_VERSION) (rw_t4t_get_sw_version s)
         else Some (rw_t4t_handle_error NCI_STATUS_FAILED 0 0 s) }
     | WAIT_GET_SW_VERSION \<Rightarrow> do {
         b \<leftarrow> rd8 (h_data h) last;
         if b = 0xAF then do {
           r \<leftarrow> rw_t4t_update_version_details h s;
           r \<leftarrow> rw_t4t_get_uid_details (t4t_or_fail r);
           Some ((t4t_or_fail r) \<lparr> r4_sub := WAIT_GET_UID \<rparr>) }
         else Some (rw_t4t_handle_error NCI_STATUS_FAILED 0 0 s) }
     | WAIT_GET_UID \<Rightarrow> format_step False h (\<lambda>s. map_option (t4t_next WAIT_CREATE_APP) (rw_t4t_create_app s)) s
     | WAIT_CREATE_APP \<Rightarrow> format_step True h (\<lambda>s. map_option (t4t_next WAIT_SELECT_APP) (rw_t4t_select_app s)) s
     | WAIT_SELECT_APP \<Rightarrow> format_step False h (\<lambda>s. map_option (t4t_next WAIT_CREATE_CC) (rw_t4t_create_ccfile s)) s
     | WAIT_CREATE_CC \<Rightarrow> format_step True h (\<lambda>s. map_option (t4t_next WAIT_CREATE_NDEF) (rw_t4t_create_ndef s)) s
     | WAIT_CREATE_NDEF \<Rightarrow> format_step True h (\<lambda>s. map_option (t4t_next WAIT_WRITE_CC) (rw_t4t_write_cc s)) s
     | WAIT_WRITE_CC \<Rightarrow> format_step False h (\<lambda>s. map_option (t4t_next WAIT_WRITE_NDEF) (rw_t4t_write_ndef s)) s
     | WAIT_WRITE_NDEF \<Rightarrow> format_step False h (\<lambda>s. Some (format_done s)) s
     | _ \<Rightarrow> Some (rw_t4t_handle_error NCI_STATUS_FAILED 0 0 s))"

section \<open>Detection\<close>

definition not_detected :: "u8 \<Rightarrow> u8 \<Rightarrow> u8 \<Rightarrow> rw_t4t \<Rightarrow> rw_t4t" where
  "not_detected status sw1 sw2 s = rw_t4t_handle_error status sw1 sw2 (s \<lparr> r4_ndef_status := r4_ndef_status s AND NOT NDEF_DETECTED \<rparr>)"

text \<open>A valid container: the NDEF file is selected, and its length field has the given size.\<close>

definition select_ndef_file :: "u8 \<Rightarrow> rw_t4t \<Rightarrow> rw_t4t option" where
  "select_ndef_file n s =
    (if rw_t4t_validate_cc_file s then do {
       (ok, s) \<leftarrow> rw_t4t_select_file (r4_file_id s) s;
       Some (if ok then s \<lparr> r4_nlen_size := n, r4_sub := WAIT_SELECT_NDEF_FILE \<rparr> else rw_t4t_handle_error NCI_STATUS_FAILED 0 0 s) }
     else Some (not_detected STATUS_BAD_RESP 0 0 s))"

definition detect_cc_file :: "nfc_hdr \<Rightarrow> rw_t4t \<Rightarrow> rw_t4t option" where
  "detect_cc_file h s =
    (if h_len h < 15 + 2 then Some (not_detected STATUS_BAD_RESP 0 0 s)
     else do {
       let m = h_data h; let p = unat (h_offset h);
       cclen \<leftarrow> rd_be16 m p;
       ver \<leftarrow> rd8 m (p + 2);
       le \<leftarrow> rd_be16 m (p + 3);
       lc \<leftarrow> rd_be16 m (p + 5);
       let s = s \<lparr> r4_cclen := cclen, r4_cc_version := ver, r4_max_le := le, r4_max_lc := lc \<rparr>;
       type \<leftarrow> rd8 m (p + 7);
       len \<leftarrow> rd8 m (p + 8);
       if type = 4 \<and> len = 6 then do {
         fid \<leftarrow> rd_be16 m (p + 9);
         mx \<leftarrow> rd_be16 m (p + 11);
         ra \<leftarrow> rd8 m (p + 13);
         wa \<leftarrow> rd8 m (p + 14);
         select_ndef_file 2 (s \<lparr> r4_file_id := fid, r4_max_file_size := ucast mx, r4_read_access := ra, r4_write_access := wa \<rparr>) }
       else if type = 6 \<and> len = 8 then map_option (t4t_next WAIT_ENDEF_FILE_CTRL_TLV) (rw_t4t_read_file 9 8 False s)
       else Some (not_detected STATUS_BAD_RESP 0 0 s) })"

definition detect_endef_tlv :: "nfc_hdr \<Rightarrow> rw_t4t \<Rightarrow> rw_t4t option" where
  "detect_endef_tlv h s =
    (if h_len h < 8 + 2 then Some (not_detected STATUS_BAD_RESP 0 0 s)
     else do {
       let m = h_data h; let p = unat (h_offset h);
       fid \<leftarrow> rd_be16 m p;
       mx \<leftarrow> rd_be32 m (p + 2);
       ra \<leftarrow> rd8 m (p + 6);
       wa \<leftarrow> rd8 m (p + 7);
       select_ndef_file 4 (s \<lparr> r4_file_id := fid, r4_max_file_size := mx, r4_read_access := ra, r4_write_access := wa \<rparr>) })"

text \<open>The sizes of reads and updates that follow from the container.\<close>

definition t4t_set_sizes :: "rw_t4t \<Rightarrow> rw_t4t" where
  "t4t_set_sizes s =
    (let rd = (if RW_T4T_MAX_DATA_PER_READ \<le> r4_max_le s then RW_T4T_MAX_DATA_PER_READ else r4_max_le s);
         wr = (if RW_T4T_MAX_DATA_PER_WRITE \<le> r4_max_lc s then RW_T4T_MAX_DATA_PER_WRITE else r4_max_lc s)
     in s \<lparr> r4_max_read := rd, r4_max_update := wr,
            r4_intl := (if 256 < rd \<or> 255 < wr then r4_intl s OR EXT_FIELD_CODING else r4_intl s) \<rparr>)"

definition detect_nlen :: "nfc_hdr \<Rightarrow> rw_t4t \<Rightarrow> rw_t4t option" where
  "detect_nlen h s =
    (if unat (h_len h) \<noteq> unat (r4_nlen_size s) + 2 then Some (not_detected STATUS_BAD_RESP 0 0 s)
     else do {
       let m = h_data h; let p = unat (h_offset h);
       nlen \<leftarrow> (if r4_nlen_size s = 2 then map_option ucast (rd_be16 m p) else rd_be32 m p);
       if nlen \<le> r4_max_file_size s - ucast (r4_nlen_size s) then
         let s = t4t_set_sizes (s \<lparr> r4_ndef_status := (if r4_write_access s = 0xFF then NDEF_DETECTED OR NDEF_READ_ONLY else NDEF_DETECTED) \<rparr>);
             s = s \<lparr> r4_ndef_length := nlen, r4_state := T4T_IDLE \<rparr>
         in Some (if r4_cback s
                  then rw_evt (RW_T4T_NDEF_DETECT NCI_STATUS_OK (r4_max_file_size s - ucast (r4_nlen_size s)) nlen
                         (0x04 OR 0x02 OR (if r4_write_access s \<noteq> 0 then 0x01 else 0))) s
                  else s)
       else Some (not_detected STATUS_BAD_RESP 0 0 s) })"

definition rw_t4t_sm_detect_ndef :: "nfc_hdr \<Rightarrow> rw_t4t \<Rightarrow> rw_t4t option" where
  "rw_t4t_sm_detect_ndef h s = do {
     (a, b) \<leftarrow> rsp_sw h;
     if be16_val a b \<noteq> 0x9000 then
       if r4_sub s = WAIT_SELECT_APP \<and> (r4_version s = T4T_VERSION_2_0 \<or> r4_version s = T4T_VERSION_3_0)
       then map_option t4t_or_fail (rw_t4t_select_application T4T_VERSION_1_0 (s \<lparr> r4_version := T4T_VERSION_1_0 \<rparr>))
       else Some (not_detected STATUS_CMD_NOT_CMPLTD a b s)
     else (case r4_sub s of
         WAIT_SELECT_APP \<Rightarrow> map_option (t4t_next WAIT_SELECT_CC) (rw_t4t_select_file T4T_CC_FILE_ID s)
       | WAIT_SELECT_CC \<Rightarrow> map_option (t4t_next WAIT_CC_FILE) (rw_t4t_read_file 0 15 False s)
       | WAIT_CC_FILE \<Rightarrow> detect_cc_file h s
       | WAIT_ENDEF_FILE_CTRL_TLV \<Rightarrow> detect_endef_tlv h s
       | WAIT_SELECT_NDEF_FILE \<Rightarrow> map_option (t4t_next WAIT_READ_NLEN) (rw_t4t_read_file 0 (ucast (r4_nlen_size s)) False s)
       | WAIT_READ_NLEN \<Rightarrow> detect_nlen h s
       | _ \<Rightarrow> Some (rw_t4t_handle_error NCI_STATUS_FAILED 0 0 s)) }"

section \<open>Reading\<close>

text \<open>The payload of a response, counted against what is left to read.\<close>

definition read_count :: "u16 \<Rightarrow> rw_t4t \<Rightarrow> rw_t4t" where
  "read_count n s =
    (if 0 < n \<and> ucast n \<le> r4_rw_length s then s \<lparr> r4_rw_length := r4_rw_length s - ucast n, r4_rw_offset := r4_rw_offset s + ucast n \<rparr> else s)"

text \<open>The data object of a response to a read with an offset object; \<open>Inl\<close> for an invalid one. The length is that without the status
  words.\<close>

definition read_ddo :: "mem \<Rightarrow> u16 \<Rightarrow> u16 \<Rightarrow> rw_t4t \<Rightarrow> (unit + u16 \<times> u16 \<times> rw_t4t) option" where
  "read_ddo m off len s = do {
     let p = unat off;
     tag \<leftarrow> rd8 m p;
     if tag \<noteq> 0x53 then Some (Inl ())
     else do {
       b \<leftarrow> rd8 m (p + 1);
       if b \<le> 0x7F then
         if ucast b = len - 2 then Some (Inr (off + 2, len - 2, read_count (len - 2) s)) else Some (Inl ())
       else if b = 0x81 then do {
         c \<leftarrow> rd8 m (p + 2);
         if c \<le> 0xFD then
           if ucast c = len - 3 then Some (Inr (off + 3, len - 3, read_count (len - 3) s)) else Some (Inl ())
         else Some (Inl ()) }
       else if b = 0x82 then do {
         n \<leftarrow> rd_be16 m (p + 2);
         if unat n + 4 \<le> unat (r4_max_read s) then
           if n = len - 4 then Some (Inr (off + 4, len - 4, read_count (len - 4) s)) else Some (Inl ())
         else Some (Inr (off, len, s)) }
       else Some (Inl ()) } }"

text \<open>A segment goes to the layer above, with the response buffer; the next one is requested, or the procedure ends.\<close>

definition read_deliver :: "mem \<Rightarrow> rw_t4t \<Rightarrow> rw_t4t option" where
  "read_deliver seg s =
    (if r4_cback s then
       if 0 < r4_rw_length s
       then map_option t4t_or_fail (rw_t4t_read_file (r4_rw_offset s) (r4_rw_length s) True (rw_evt (RW_T4T_NDEF_READ seg) s))
       else Some (rw_evt (RW_T4T_NDEF_READ_CPLT seg) (s \<lparr> r4_state := T4T_IDLE \<rparr>))
     else Some (r4_free (s \<lparr> r4_rw_length := 0, r4_state := T4T_IDLE \<rparr>)))"

definition rw_t4t_sm_read_ndef :: "nfc_hdr \<Rightarrow> rw_t4t \<Rightarrow> rw_t4t option" where
  "rw_t4t_sm_read_ndef h s = do {
     (a, b) \<leftarrow> rsp_sw h;
     if be16_val a b \<noteq> 0x9000 then Some (r4_free (rw_t4t_handle_error STATUS_CMD_NOT_CMPLTD a b s))
     else if r4_sub s \<noteq> WAIT_READ_RESP then Some (r4_free (rw_t4t_handle_error NCI_STATUS_FAILED 0 0 s))
     else do {
       let len = h_len h - 2;
       if r4_intl s AND DDO_LC_FIELD_CODING \<noteq> 0 then do {
         r \<leftarrow> read_ddo (h_data h) (h_offset h) len s;
         (case r of
            Inl _ \<Rightarrow> Some (r4_free (rw_t4t_handle_error STATUS_BAD_RESP 0 0 s))
          | Inr (off, len, s) \<Rightarrow> do { seg \<leftarrow> rd_bytes (h_data h) (unat off) (unat len); read_deliver seg s }) }
       else if 0 < len \<and> ucast len \<le> r4_rw_length s then do {
         seg \<leftarrow> rd_bytes (h_data h) (unat (h_offset h)) (unat len);
         read_deliver seg (read_count len s) }
       else if len = 0 \<and> r4_cc_version s = T4T_VERSION_2_0 \<and> r4_intl s AND EXT_FIELD_CODING \<noteq> 0 then
         let s = s \<lparr> r4_intl := r4_intl s AND NOT EXT_FIELD_CODING \<rparr> in
         if r4_retry s \<noteq> None then rw_t4t_format_short_field_coding (r4_free s)
         else Some (r4_free (rw_t4t_handle_error STATUS_BAD_RESP 0 0 s))
       else Some (r4_free (rw_t4t_handle_error STATUS_BAD_RESP 0 0 s)) } }"

section \<open>Updating\<close>

text \<open>A failed update also forgets the data.\<close>

definition t4t_or_fail_data :: "bool \<times> rw_t4t \<Rightarrow> rw_t4t" where
  "t4t_or_fail_data r = (case r of (ok, s) \<Rightarrow> if ok then s else (rw_t4t_handle_error NCI_STATUS_FAILED 0 0 s) \<lparr> r4_update_data := None \<rparr>)"

definition rw_t4t_sm_update_ndef :: "nfc_hdr \<Rightarrow> rw_t4t \<Rightarrow> rw_t4t option" where
  "rw_t4t_sm_update_ndef h s = do {
     (a, b) \<leftarrow> rsp_sw h;
     if be16_val a b \<noteq> 0x9000 then Some (rw_t4t_handle_error STATUS_CMD_NOT_CMPLTD a b s)
     else (case r4_sub s of
         WAIT_UPDATE_NLEN \<Rightarrow>
           if r4_update_data s \<noteq> None then map_option t4t_or_fail_data (rw_t4t_update_file (s \<lparr> r4_sub := WAIT_UPDATE_RESP \<rparr>))
           else let s = s \<lparr> r4_state := T4T_IDLE \<rparr> in Some (if r4_cback s then rw_evt (RW_T4T_NDEF_UPDATE_CPLT NCI_STATUS_OK) s else s)
       | WAIT_UPDATE_RESP \<Rightarrow>
           if 0 < r4_rw_length s then map_option t4t_or_fail_data (rw_t4t_update_file s)
           else let s = s \<lparr> r4_update_data := None \<rparr> in map_option (t4t_next WAIT_UPDATE_NLEN) (rw_t4t_update_nlen (r4_ndef_length s) s)
       | _ \<Rightarrow> Some (rw_t4t_handle_error NCI_STATUS_FAILED 0 0 s)) }"

definition rw_t4t_sm_set_readonly :: "nfc_hdr \<Rightarrow> rw_t4t \<Rightarrow> rw_t4t option" where
  "rw_t4t_sm_set_readonly h s = do {
     (a, b) \<leftarrow> rsp_sw h;
     if be16_val a b \<noteq> 0x9000 then Some (rw_t4t_handle_error STATUS_CMD_NOT_CMPLTD a b s)
     else (case r4_sub s of
         WAIT_SELECT_CC \<Rightarrow> map_option (t4t_next WAIT_UPDATE_CC) (rw_t4t_update_cc_to_readonly s)
       | WAIT_UPDATE_CC \<Rightarrow>
           let s = s \<lparr> r4_write_access := 0xFF, r4_ndef_status := r4_ndef_status s OR NDEF_READ_ONLY \<rparr>
           in map_option (t4t_next WAIT_SELECT_NDEF_FILE) (rw_t4t_select_file (r4_file_id s) s)
       | WAIT_SELECT_NDEF_FILE \<Rightarrow>
           let s = s \<lparr> r4_state := T4T_IDLE \<rparr> in Some (if r4_cback s then rw_evt (RW_T4T_SET_TO_RO NCI_STATUS_OK) s else s)
       | _ \<Rightarrow> Some (rw_t4t_handle_error NCI_STATUS_FAILED 0 0 s)) }"

section \<open>Events\<close>

definition rw_t4t_process_timeout :: "u16 \<Rightarrow> rw_t4t \<Rightarrow> rw_t4t" where
  "rw_t4t_process_timeout event s = (if event = 107 then rw_t4t_handle_error STATUS_TIMEOUT 0 0 s else s)"

definition rw_t4t_handle_isodep_nak_rsp :: "u8 \<Rightarrow> bool \<Rightarrow> rw_t4t \<Rightarrow> rw_t4t" where
  "rw_t4t_handle_isodep_nak_rsp status is_ntf s =
    (if is_ntf \<or> status \<noteq> NCI_STATUS_OK then
       let s = s \<lparr> r4_timer := False, r4_state := T4T_IDLE \<rparr> in if r4_cback s then rw_evt (RW_T4T_PRESENCE_CHECK status) s else s
     else s)"

definition rw_t4t_handle_isodep_nak_fallback :: "rw_t4t \<Rightarrow> rw_t4t" where
  "rw_t4t_handle_isodep_nak_fallback s = s \<lparr> r4_state := T4T_IDLE \<rparr>"

text \<open>An event whose callback is called without a test.\<close>

definition rw_evt_must :: "rw_event \<Rightarrow> rw_t4t \<Rightarrow> rw_t4t option" where
  "rw_evt_must ev s = (if r4_cback s then Some (rw_evt ev s) else None)"

definition t4t_error_cevt :: "u8 \<Rightarrow> rw_t4t \<Rightarrow> rw_t4t option" where
  "t4t_error_cevt status s =
    (if r4_state s = T4T_PRESENCE_CHECK then rw_evt_must (RW_T4T_PRESENCE_CHECK NCI_STATUS_FAILED) (s \<lparr> r4_state := T4T_IDLE \<rparr>)
     else if r4_state s = T4T_NDEF_FORMAT then rw_evt_must (RW_T4T_NDEF_FORMAT_CPLT NCI_STATUS_FAILED 0) (s \<lparr> r4_state := T4T_IDLE \<rparr>)
     else if r4_state s \<noteq> T4T_IDLE then Some (rw_t4t_handle_error status 0 0 s)
     else rw_evt_must (RW_T4T_INTF_ERROR status) s)"

definition t4t_data_cevt :: "u8 \<Rightarrow> nfc_hdr \<Rightarrow> rw_t4t \<Rightarrow> rw_t4t option" where
  "t4t_data_cevt status h s =
    (if r4_state s \<noteq> T4T_IDLE \<and> r4_state s \<noteq> T4T_PRESENCE_CHECK \<and> h_len h < 2
     then Some (r4_free (rw_t4t_handle_error NCI_STATUS_FAILED 0 0 s))
     else (case r4_state s of
         T4T_IDLE \<Rightarrow>
           if r4_cback s then do { d \<leftarrow> rd_bytes (h_data h) (unat (h_offset h)) (unat (h_len h)); Some (rw_evt (RW_T4T_RAW_FRAME status d) s) }
           else Some (r4_free s)
       | T4T_DETECT_NDEF \<Rightarrow> map_option r4_free (rw_t4t_sm_detect_ndef h s)
       | T4T_READ_NDEF \<Rightarrow> rw_t4t_sm_read_ndef h s
       | T4T_UPDATE_NDEF \<Rightarrow> map_option r4_free (rw_t4t_sm_update_ndef h s)
       | T4T_PRESENCE_CHECK \<Rightarrow> map_option r4_free (rw_evt_must (RW_T4T_PRESENCE_CHECK NCI_STATUS_OK) (s \<lparr> r4_state := T4T_IDLE \<rparr>))
       | T4T_SET_READ_ONLY \<Rightarrow> map_option r4_free (rw_t4t_sm_set_readonly h s)
       | T4T_NDEF_FORMAT \<Rightarrow> map_option r4_free (rw_t4t_sm_ndef_format h s)
       | T4T_NOT_ACTIVATED \<Rightarrow> Some (r4_free s)))"

definition rw_t4t_data_cback :: "rw_conn_evt \<Rightarrow> rw_t4t \<Rightarrow> rw_t4t option" where
  "rw_t4t_data_cback event s =
    (let s = s \<lparr> r4_timer := False \<rparr> in
     case event of
       RW_DEACTIVATE_CEVT \<Rightarrow> Some (s \<lparr> r4_rf_cback := False, r4_state := T4T_NOT_ACTIVATED \<rparr>)
     | RW_ERROR_CEVT status \<Rightarrow> t4t_error_cevt status s
     | RW_DATA_CEVT status h \<Rightarrow> t4t_data_cevt status h s
     | RW_OTHER_CEVT \<Rightarrow> Some s)"

section \<open>The tag in the execution environment\<close>

text \<open>The callback of its connection is registered by \<open>NFC_SetStaticT4tNfceeCback\<close>.\<close>

definition RW_T4tNfceeInitCb :: "rw_t4t \<Rightarrow> u8 \<times> rw_t4t" where
  "RW_T4tNfceeInitCb s = (NCI_STATUS_OK, s \<lparr> r4_state := T4T_IDLE, r4_version := T4T_VERSION_3_0, r4_max_le := 15,
     r4_max_read := 0xFF - 2, r4_max_update := 0xFF - 5 \<rparr>)"

definition RW_T4tNfceeUpdateCC :: "mem \<Rightarrow> rw_t4t \<Rightarrow> rw_t4t option" where
  "RW_T4tNfceeUpdateCC ccInfo s = do {
     le \<leftarrow> rd_be16 ccInfo 0;
     lc \<leftarrow> rd_be16 ccInfo 2;
     let rd = (if RW_T4T_MAX_DATA_PER_READ \<le> le then RW_T4T_MAX_DATA_PER_READ else le);
     let rd = (if 0xFF \<le> rd then 0xFF else rd);
     let wr = (if RW_T4T_MAX_DATA_PER_WRITE \<le> lc then RW_T4T_MAX_DATA_PER_WRITE else lc);
     let wr = (if 0xFF \<le> wr then 0xFF else wr);
     Some (s \<lparr> r4_max_le := le, r4_max_lc := lc, r4_max_read := rd, r4_max_update := wr \<rparr>) }"

definition t4t_status :: "bool \<times> rw_t4t \<Rightarrow> u8 \<times> rw_t4t" where
  "t4t_status r = (case r of (ok, s) \<Rightarrow> (if ok then NCI_STATUS_OK else NCI_STATUS_FAILED, s))"

definition t4t_status_err :: "bool \<times> rw_t4t \<Rightarrow> u8 \<times> rw_t4t" where
  "t4t_status_err r = (case r of (ok, s) \<Rightarrow> if ok then (NCI_STATUS_OK, s) else (NCI_STATUS_FAILED, rw_t4t_handle_error NCI_STATUS_FAILED 0 0 s))"

definition RW_T4tNfceeSelectApplication :: "rw_t4t \<Rightarrow> (u8 \<times> rw_t4t) option" where
  "RW_T4tNfceeSelectApplication s = map_option t4t_status (rw_t4t_select_application T4T_VERSION_2_0 s)"

definition RW_T4tNfceeSelectFile :: "u16 \<Rightarrow> rw_t4t \<Rightarrow> (u8 \<times> rw_t4t) option" where
  "RW_T4tNfceeSelectFile fileId s = map_option t4t_status (rw_t4t_select_file fileId s)"

definition RW_T4tNfceeReadDataLen :: "rw_t4t \<Rightarrow> (u8 \<times> rw_t4t) option" where
  "RW_T4tNfceeReadDataLen s = map_option t4t_status_err (rw_t4t_read_file 0 2 False s)"

definition RW_T4tNfceeReadFile :: "u16 \<Rightarrow> u16 \<Rightarrow> rw_t4t \<Rightarrow> (u8 \<times> rw_t4t) option" where
  "RW_T4tNfceeReadFile offset Readlen s = map_option t4t_status_err (rw_t4t_read_file (ucast offset) (ucast Readlen) False s)"

definition RW_T4tNfceeReadPendingData :: "rw_t4t \<Rightarrow> (u8 \<times> rw_t4t) option" where
  "RW_T4tNfceeReadPendingData s =
    (let s = s \<lparr> r4_rw_length := r4_rw_length s - ucast (r4_max_read s), r4_rw_offset := r4_rw_offset s + ucast (r4_max_read s) \<rparr>
     in map_option t4t_status_err (rw_t4t_read_file (r4_rw_offset s) (r4_rw_length s) True s))"

definition RW_T4tNfceeUpdateNlen :: "u16 \<Rightarrow> rw_t4t \<Rightarrow> (u8 \<times> rw_t4t) option" where
  "RW_T4tNfceeUpdateNlen len s = map_option t4t_status (rw_t4t_update_nlen (ucast len) (s \<lparr> r4_nlen_size := 2 \<rparr>))"

definition RW_T4tNfceeUpdateFile :: "rw_t4t \<Rightarrow> (u8 \<times> rw_t4t) option" where
  "RW_T4tNfceeUpdateFile s = do {
     (ok, s) \<leftarrow> rw_t4t_update_file s;
     Some (if ok then (NCI_STATUS_OK, s) else (NCI_STATUS_FAILED, (rw_t4t_handle_error NCI_STATUS_FAILED 0 0 s) \<lparr> r4_update_data := None \<rparr>)) }"

definition RW_T4tNfceeStartUpdateFile :: "u16 \<Rightarrow> mem \<Rightarrow> rw_t4t \<Rightarrow> (u8 \<times> rw_t4t) option" where
  "RW_T4tNfceeStartUpdateFile len p_data s =
    RW_T4tNfceeUpdateFile (s \<lparr> r4_update_data := Some p_data, r4_rw_offset := 2, r4_rw_length := ucast len \<rparr>)"

definition RW_T4tIsUpdateComplete :: "rw_t4t \<Rightarrow> bool" where
  "RW_T4tIsUpdateComplete s \<longleftrightarrow> r4_rw_length s = 0"

definition RW_T4tIsReadComplete :: "rw_t4t \<Rightarrow> bool" where
  "RW_T4tIsReadComplete s \<longleftrightarrow> r4_rw_length s \<le> ucast (r4_max_read s)"

section \<open>Requests of the layer above\<close>

definition t4t_start :: "t4t_state \<Rightarrow> t4t_sub \<Rightarrow> bool \<times> rw_t4t \<Rightarrow> u8 \<times> rw_t4t" where
  "t4t_start st sub r = (case r of (ok, s) \<Rightarrow> if ok then (NCI_STATUS_OK, s \<lparr> r4_state := st, r4_sub := sub \<rparr>) else (NCI_STATUS_FAILED, s))"

definition RW_T4tFormatNDef :: "rw_t4t \<Rightarrow> (u8 \<times> rw_t4t) option" where
  "RW_T4tFormatNDef s =
    (if r4_state s \<noteq> T4T_IDLE then Some (NCI_STATUS_FAILED, s)
     else map_option (t4t_start T4T_NDEF_FORMAT WAIT_GET_HW_VERSION) (rw_t4t_get_hw_version (s \<lparr> r4_card_type := 0 \<rparr>)))"

definition rw_t4t_select :: "rw_t4t \<Rightarrow> u8 \<times> rw_t4t" where
  "rw_t4t_select s = (NCI_STATUS_OK, s \<lparr> r4_rf_cback := True, r4_state := T4T_IDLE, r4_version := T4T_VERSION_3_0, r4_max_le := 15,
     r4_max_read := 0xFF, r4_max_update := 0xFF \<rparr>)"

text \<open>An ISO-DEP tag was activated: the control block is cleared and the reader selected.\<close>

definition t4t_activated :: "rw_t4t \<Rightarrow> rw_t4t" where
  "t4t_activated s = snd (rw_t4t_select (s \<lparr> r4_state := T4T_NOT_ACTIVATED, r4_sub := WAIT_SELECT_APP, r4_version := 0, r4_timer := False, r4_ndef_length := 0,
     r4_update_data := None, r4_rw_length := 0, r4_rw_offset := 0, r4_retry := None, r4_cclen := 0, r4_cc_version := 0, r4_max_le := 0, r4_max_lc := 0,
     r4_file_id := 0, r4_max_file_size := 0, r4_read_access := 0, r4_write_access := 0, r4_nlen_size := 0, r4_ndef_status := 0, r4_channel := 0,
     r4_max_read := 0, r4_max_update := 0, r4_card_size := 0, r4_card_type := 0, r4_intl := 0, r4_cback := True \<rparr>))"

definition RW_T4tDetectNDef :: "rw_t4t \<Rightarrow> (u8 \<times> rw_t4t) option" where
  "RW_T4tDetectNDef s =
    (if r4_state s \<noteq> T4T_IDLE then Some (NCI_STATUS_FAILED, s)
     else if r4_ndef_status s AND NDEF_DETECTED \<noteq> 0
     then map_option (t4t_start T4T_DETECT_NDEF WAIT_SELECT_CC) (rw_t4t_select_file T4T_CC_FILE_ID s)
     else map_option (t4t_start T4T_DETECT_NDEF WAIT_SELECT_APP) (rw_t4t_select_application (r4_version s) s))"

definition RW_T4tReadNDef :: "rw_t4t \<Rightarrow> (u8 \<times> rw_t4t) option" where
  "RW_T4tReadNDef s =
    (if r4_state s \<noteq> T4T_IDLE then Some (NCI_STATUS_FAILED, s)
     else if r4_ndef_status s AND NDEF_DETECTED \<noteq> 0
     then map_option (t4t_start T4T_READ_NDEF WAIT_READ_RESP) (rw_t4t_read_file (ucast (r4_nlen_size s)) (r4_ndef_length s) False s)
     else Some (NCI_STATUS_FAILED, s))"

definition RW_T4tUpdateNDef :: "u32 \<Rightarrow> mem option \<Rightarrow> rw_t4t \<Rightarrow> (u8 \<times> rw_t4t) option" where
  "RW_T4tUpdateNDef len p_data s =
    (if r4_state s \<noteq> T4T_IDLE then Some (NCI_STATUS_FAILED, s)
     else if r4_ndef_status s AND NDEF_DETECTED \<noteq> 0 then
       if r4_ndef_status s AND NDEF_READ_ONLY \<noteq> 0 then Some (NCI_STATUS_FAILED, s)
       else if r4_max_file_size s < len + ucast (r4_nlen_size s) then Some (NCI_STATUS_FAILED, s)
       else map_option (t4t_start T4T_UPDATE_NDEF WAIT_UPDATE_NLEN)
              (rw_t4t_update_nlen 0 (s \<lparr> r4_ndef_length := len, r4_update_data := p_data, r4_rw_offset := ucast (r4_nlen_size s), r4_rw_length := len \<rparr>))
     else Some (NCI_STATUS_FAILED, s))"

definition RW_T4tPresenceCheck :: "u8 \<Rightarrow> rw_t4t \<Rightarrow> u8 \<times> rw_t4t" where
  "RW_T4tPresenceCheck option' s =
    (if \<not> r4_cback s then (NCI_STATUS_FAILED, s)
     else if r4_state s = T4T_NOT_ACTIVATED then (NCI_STATUS_OK, rw_evt (RW_T4T_PRESENCE_CHECK NCI_STATUS_FAILED) s)
     else if r4_state s \<noteq> T4T_IDLE then (NCI_STATUS_OK, rw_evt (RW_T4T_PRESENCE_CHECK NCI_STATUS_OK) s)
     else let ok = (if option' = 1 then r4_alloc s \<and> r4_link s else option' = 5 \<and> r4_nak s);
              s = (if option' = 1 \<and> ok then s \<lparr> r4_sent := r4_sent s @ [[]] \<rparr> else s)
          in if ok then (NCI_STATUS_OK, s \<lparr> r4_state := T4T_PRESENCE_CHECK \<rparr>) else (STATUS_NO_BUFFERS, s))"

definition RW_T4tSetNDefReadOnly :: "rw_t4t \<Rightarrow> (u8 \<times> rw_t4t) option" where
  "RW_T4tSetNDefReadOnly s =
    (if r4_state s \<noteq> T4T_IDLE then Some (NCI_STATUS_FAILED, s)
     else if r4_ndef_status s AND NDEF_DETECTED \<noteq> 0 then
       if r4_ndef_status s AND NDEF_READ_ONLY \<noteq> 0 then map_option (Pair NCI_STATUS_OK) (rw_evt_must (RW_T4T_SET_TO_RO NCI_STATUS_OK) s)
       else map_option (t4t_start T4T_SET_READ_ONLY WAIT_SELECT_CC) (rw_t4t_select_file T4T_CC_FILE_ID s)
     else Some (NCI_STATUS_FAILED, s))"

end
