(* ===== verification/RwT4tProofs.thy ===== *)
theory RwT4tProofs
  imports RwT4t OptionWp NciSend
begin

unbundle bit_operations_syntax

text \<open>
  Safety of the Type 4 Tag reader: whatever a tag answers, every access stays inside its buffer, the invariant of the control
  block is kept and a received buffer is released or handed on once.
\<close>

section \<open>Sending\<close>

lemma send_eq:
  assumes "length c \<le> 648"
  shows "rw_t4t_send_to_lower c s =
    (if \<not> r4_alloc s then (False, s \<lparr> r4_retry := None \<rparr>)
     else if \<not> r4_link s then (False, s \<lparr> r4_retry := Some c \<rparr>)
     else (True, s \<lparr> r4_retry := Some c, r4_sent := r4_sent s @ [c], r4_timer := True \<rparr>))"
  using assms by (simp add: rw_t4t_send_to_lower_def Let_def)

lemma cmd_eq:
  assumes "length c \<le> 648"
  shows "t4t_cmd c s =
    Some (if \<not> r4_alloc s then (False, s)
     else if \<not> r4_link s then (False, s \<lparr> r4_retry := Some c \<rparr>)
     else (True, s \<lparr> r4_retry := Some c, r4_sent := r4_sent s @ [c], r4_timer := True \<rparr>))"
  using assms by (simp add: t4t_cmd_def send_eq)

lemma be24_len [simp]: "length (be24_bytes w) = 3"
  by (simp add: be24_bytes_def)

lemma le16_len [simp]: "length (le16_bytes w) = 2"
  by (simp add: le16_bytes_def)

text \<open>A command has three outcomes: no buffer, not accepted, or sent with the timer running.\<close>

lemma wp_cmd:
  assumes "length c \<le> 648" "\<not> r4_alloc s \<Longrightarrow> Q (False, s)" "r4_alloc s \<Longrightarrow> \<not> r4_link s \<Longrightarrow> Q (False, s \<lparr> r4_retry := Some c \<rparr>)"
    "r4_alloc s \<Longrightarrow> r4_link s \<Longrightarrow> Q (True, s \<lparr> r4_retry := Some c, r4_sent := r4_sent s @ [c], r4_timer := True \<rparr>)"
  shows "wp (t4t_cmd c s) Q"
  unfolding cmd_eq [OF assms(1)] by (rule wp_Some) (use assms(2-4) in auto)

section \<open>Invariant\<close>

text \<open>A procedure that waits for a response.\<close>

definition t4t_busy :: "t4t_state \<Rightarrow> bool" where
  "t4t_busy st \<longleftrightarrow> st \<in> {T4T_DETECT_NDEF, T4T_READ_NDEF, T4T_UPDATE_NDEF, T4T_SET_READ_ONLY, T4T_NDEF_FORMAT}"

text \<open>The data to write has the bytes that are left to write, as long as the update needs them.\<close>

definition upd_ok :: "t4t_sub \<Rightarrow> mem option \<Rightarrow> u32 \<Rightarrow> bool" where
  "upd_ok sub d n \<longleftrightarrow> (sub = WAIT_UPDATE_NLEN \<longrightarrow> pred_option (\<lambda>d. unat n \<le> length d) d) \<and>
    (sub = WAIT_UPDATE_RESP \<and> 0 < n \<longrightarrow> (\<exists>b. d = Some b \<and> unat n \<le> length b))"

text \<open>While a read with long lengths is under way, the saved command is a read command of seven bytes.\<close>

definition read_cmd_ok :: "rw_t4t \<Rightarrow> bool" where
  "read_cmd_ok s \<longleftrightarrow> (r4_intl s AND EXT_FIELD_CODING \<noteq> 0 \<and> r4_intl s AND DDO_LC_FIELD_CODING = 0 \<longrightarrow>
    (\<exists>c. r4_retry s = Some c \<and> length c = 7 \<and> c ! 1 = 0xB0))"

definition phase_ok :: "rw_t4t \<Rightarrow> bool" where
  "phase_ok s \<longleftrightarrow>
    (r4_state s = T4T_DETECT_NDEF \<and> r4_sub s \<in> {WAIT_ENDEF_FILE_CTRL_TLV, WAIT_SELECT_NDEF_FILE, WAIT_READ_NLEN} \<longrightarrow> 9 \<le> r4_max_lc s) \<and>
    (r4_state s = T4T_UPDATE_NDEF \<longrightarrow> upd_ok (r4_sub s) (r4_update_data s) (r4_rw_length s)) \<and>
    (r4_state s = T4T_READ_NDEF \<longrightarrow> read_cmd_ok s)"

definition base_ok :: "rw_t4t \<Rightarrow> bool" where
  "base_ok s \<longleftrightarrow> r4_cback s \<and> r4_nlen_size s \<le> 4 \<and> 9 \<le> r4_max_update s \<and> r4_max_update s \<le> 633 \<and> (\<forall>c. r4_retry s = Some c \<longrightarrow> 5 \<le> length c) \<and>
    length (r4_aid s) \<le> 255"

definition rw_ok :: "rw_t4t \<Rightarrow> bool" where
  "rw_ok s \<longleftrightarrow> base_ok s \<and> phase_ok s"

text \<open>Received buffers that were released or handed to the layer above.\<close>

fun evt_buf :: "rw_event \<Rightarrow> nat" where
  "evt_buf (RW_T4T_NDEF_READ _) = 1"
| "evt_buf (RW_T4T_NDEF_READ_CPLT _) = 1"
| "evt_buf (RW_T4T_RAW_FRAME _ _) = 1"
| "evt_buf _ = 0"

definition rw_owned :: "rw_t4t \<Rightarrow> nat" where
  "rw_owned s = r4_freed s + sum_list (map evt_buf (r4_events s))"

text \<open>The result of a step: the invariant holds, a procedure that goes on has its timer running when commands can be sent, and
  \<open>k\<close> buffers are accounted for.\<close>

definition t4t_live :: "rw_t4t \<Rightarrow> bool" where
  "t4t_live s \<longleftrightarrow> (t4t_busy (r4_state s) \<and> r4_alloc s \<and> r4_link s \<longrightarrow> r4_timer s)"

definition good :: "nat \<Rightarrow> rw_t4t \<Rightarrow> bool" where
  "good k s \<longleftrightarrow> rw_ok s \<and> t4t_live s \<and> rw_owned s = k"

lemmas ok_defs = good_def rw_ok_def base_ok_def phase_ok_def t4t_live_def

lemma rw_owned_simps [simp]:
  "rw_owned (rw_evt ev s) = rw_owned s + evt_buf ev" "rw_owned (r4_free s) = Suc (rw_owned s)"
  by (simp_all add: rw_owned_def rw_evt_def r4_free_def)

lemma owned_upd [simp]:
  "rw_owned (s \<lparr> r4_state := a \<rparr>) = rw_owned s" "rw_owned (s \<lparr> r4_sub := b \<rparr>) = rw_owned s" "rw_owned (s \<lparr> r4_timer := c \<rparr>) = rw_owned s"
  "rw_owned (s \<lparr> r4_retry := d \<rparr>) = rw_owned s" "rw_owned (s \<lparr> r4_sent := e \<rparr>) = rw_owned s" "rw_owned (s \<lparr> r4_rw_length := n \<rparr>) = rw_owned s"
  "rw_owned (s \<lparr> r4_rw_offset := n \<rparr>) = rw_owned s" "rw_owned (s \<lparr> r4_intl := f \<rparr>) = rw_owned s" "rw_owned (s \<lparr> r4_update_data := g \<rparr>) = rw_owned s"
  "rw_owned (s \<lparr> r4_version := f \<rparr>) = rw_owned s" "rw_owned (s \<lparr> r4_ndef_status := f \<rparr>) = rw_owned s" "rw_owned (s \<lparr> r4_nlen_size := f \<rparr>) = rw_owned s"
  "rw_owned (s \<lparr> r4_cclen := h \<rparr>) = rw_owned s" "rw_owned (s \<lparr> r4_cc_version := f \<rparr>) = rw_owned s" "rw_owned (s \<lparr> r4_max_le := h \<rparr>) = rw_owned s"
  "rw_owned (s \<lparr> r4_max_lc := h \<rparr>) = rw_owned s" "rw_owned (s \<lparr> r4_file_id := h \<rparr>) = rw_owned s" "rw_owned (s \<lparr> r4_max_file_size := n \<rparr>) = rw_owned s"
  "rw_owned (s \<lparr> r4_read_access := f \<rparr>) = rw_owned s" "rw_owned (s \<lparr> r4_write_access := f \<rparr>) = rw_owned s" "rw_owned (s \<lparr> r4_ndef_length := n \<rparr>) = rw_owned s"
  "rw_owned (s \<lparr> r4_max_read := h \<rparr>) = rw_owned s" "rw_owned (s \<lparr> r4_max_update := h \<rparr>) = rw_owned s" "rw_owned (s \<lparr> r4_card_size := h \<rparr>) = rw_owned s"
  "rw_owned (s \<lparr> r4_card_type := f \<rparr>) = rw_owned s" "rw_owned (s \<lparr> r4_rf_cback := z \<rparr>) = rw_owned s"
  by (simp_all add: rw_owned_def)

lemma evt_fields [simp]:
  "r4_state (rw_evt ev s) = r4_state s" "r4_sub (rw_evt ev s) = r4_sub s" "base_ok (rw_evt ev s) = base_ok s" "phase_ok (rw_evt ev s) = phase_ok s"
  "t4t_live (rw_evt ev s) = t4t_live s" "r4_state (r4_free s) = r4_state s" "base_ok (r4_free s) = base_ok s" "phase_ok (r4_free s) = phase_ok s"
  "t4t_live (r4_free s) = t4t_live s" "r4_retry (r4_free s) = r4_retry s" "r4_intl (r4_free s) = r4_intl s"
  by (simp_all add: rw_evt_def r4_free_def base_ok_def phase_ok_def read_cmd_ok_def t4t_live_def)

lemma base_ok_upd [simp]:
  "base_ok (s \<lparr> r4_state := v0 \<rparr>) = base_ok s" "base_ok (s \<lparr> r4_sub := v1 \<rparr>) = base_ok s" "base_ok (s \<lparr> r4_timer := v2 \<rparr>) = base_ok s" "base_ok (s \<lparr> r4_sent := v3 \<rparr>) = base_ok s"
  "base_ok (s \<lparr> r4_rw_length := v4 \<rparr>) = base_ok s" "base_ok (s \<lparr> r4_rw_offset := v5 \<rparr>) = base_ok s" "base_ok (s \<lparr> r4_intl := v6 \<rparr>) = base_ok s" "base_ok (s \<lparr> r4_update_data := v7 \<rparr>) = base_ok s"
  "base_ok (s \<lparr> r4_version := v8 \<rparr>) = base_ok s" "base_ok (s \<lparr> r4_ndef_status := v9 \<rparr>) = base_ok s" "base_ok (s \<lparr> r4_cclen := v10 \<rparr>) = base_ok s" "base_ok (s \<lparr> r4_cc_version := v11 \<rparr>) = base_ok s"
  "base_ok (s \<lparr> r4_max_le := v12 \<rparr>) = base_ok s" "base_ok (s \<lparr> r4_max_lc := v13 \<rparr>) = base_ok s" "base_ok (s \<lparr> r4_file_id := v14 \<rparr>) = base_ok s" "base_ok (s \<lparr> r4_max_file_size := v15 \<rparr>) = base_ok s"
  "base_ok (s \<lparr> r4_read_access := v16 \<rparr>) = base_ok s" "base_ok (s \<lparr> r4_write_access := v17 \<rparr>) = base_ok s" "base_ok (s \<lparr> r4_ndef_length := v18 \<rparr>) = base_ok s" "base_ok (s \<lparr> r4_max_read := v19 \<rparr>) = base_ok s"
  "base_ok (s \<lparr> r4_card_size := v20 \<rparr>) = base_ok s" "base_ok (s \<lparr> r4_card_type := v21 \<rparr>) = base_ok s" "base_ok (s \<lparr> r4_rf_cback := v22 \<rparr>) = base_ok s"
  by (simp_all add: base_ok_def)

lemma base_ok_retry [simp]: "base_ok s \<Longrightarrow> 5 \<le> length c \<Longrightarrow> base_ok (s \<lparr> r4_retry := Some c \<rparr>)" "base_ok s \<Longrightarrow> base_ok (s \<lparr> r4_retry := None \<rparr>)"
  by (simp_all add: base_ok_def)

text \<open>An idle state needs no more than the base.\<close>

lemma idle_good: "base_ok s \<Longrightarrow> r4_state s = T4T_IDLE \<Longrightarrow> rw_owned s = k \<Longrightarrow> good k s"
  by (simp add: ok_defs t4t_busy_def)

lemma error_good:
  assumes "base_ok s" "rw_owned s = k"
  shows "good k (rw_t4t_handle_error st a b s)"
  using assms by (auto simp: rw_t4t_handle_error_def Let_def t4t_fail_event_def intro!: idle_good split: option.split t4t_state.split)

lemma error_state [simp]: "r4_state (rw_t4t_handle_error st a b s) = T4T_IDLE"
  by (simp add: rw_t4t_handle_error_def Let_def split: option.split prod.split)

lemma error_sub_good: "base_ok s \<Longrightarrow> rw_owned s = k \<Longrightarrow> good k (rw_t4t_handle_error st a b s \<lparr> r4_sub := x \<rparr>)"
  using error_good [of s k st a b] by (intro idle_good) (auto simp: good_def rw_ok_def)

lemma sent_good: "base_ok s \<Longrightarrow> phase_ok s \<Longrightarrow> r4_timer s \<Longrightarrow> rw_owned s = k \<Longrightarrow> good k s"
  by (simp add: good_def rw_ok_def t4t_live_def)

lemma next_good:
  assumes "base_ok s'" "rw_owned s' = k" "ok \<Longrightarrow> r4_timer s' \<and> phase_ok (s' \<lparr> r4_sub := sub \<rparr>)"
  shows "good k (t4t_next sub (ok, s'))"
  using assms by (cases ok) (auto simp: t4t_next_def intro!: error_good sent_good)

lemma or_fail_good:
  assumes "base_ok s'" "rw_owned s' = k" "ok \<Longrightarrow> r4_timer s' \<and> phase_ok s'"
  shows "good k (t4t_or_fail (ok, s'))"
  using assms by (cases ok) (auto simp: t4t_or_fail_def intro!: error_good sent_good)

text \<open>A step that sends a command and waits for its response.\<close>

lemma phase_sent [simp]:
  "r4_state s \<noteq> T4T_READ_NDEF \<Longrightarrow> phase_ok (s \<lparr> r4_retry := a, r4_sent := b, r4_timer := c \<rparr>) = phase_ok s"
  "r4_state s \<noteq> T4T_READ_NDEF \<Longrightarrow> phase_ok (s \<lparr> r4_retry := a \<rparr>) = phase_ok s"
  "r4_state s \<noteq> T4T_READ_NDEF \<Longrightarrow> phase_ok (s \<lparr> r4_retry := a, r4_sent := b, r4_timer := c, r4_sub := d \<rparr>) = phase_ok (s \<lparr> r4_sub := d \<rparr>)"
  by (simp_all add: phase_ok_def)

lemma cmd_next:
  assumes "base_ok s" "rw_owned s = k" "5 \<le> length c" "length c \<le> 648" "phase_ok (s \<lparr> r4_sub := sub \<rparr>)" "r4_state s \<noteq> T4T_READ_NDEF"
  shows "wp (t4t_cmd c s) (\<lambda>r. good k (t4t_next sub r))"
  by (intro wp_cmd next_good) (use assms in auto)

lemma cmd_or_fail:
  assumes "base_ok s" "rw_owned s = k" "5 \<le> length c" "length c \<le> 648" "phase_ok s" "r4_state s \<noteq> T4T_READ_NDEF"
  shows "wp (t4t_cmd c s) (\<lambda>r. good k (t4t_or_fail r))"
  by (intro wp_cmd or_fail_good) (use assms in auto)

section \<open>Formatting\<close>

text \<open>A response is in its buffer, with the four bytes the code looks at.\<close>

definition rsp_fits :: "nfc_hdr \<Rightarrow> bool" where
  "rsp_fits h \<longleftrightarrow> unat (h_offset h) + max 4 (unat (h_len h)) \<le> length (h_data h)"

lemma wp_sw:
  assumes "rsp_fits h" "2 \<le> unat (h_len h)" "\<And>a b. Q (a, b)"
  shows "wp (rsp_sw h) Q"
  unfolding rsp_sw_def Let_def by (intro wp_intros assms(3)) (use assms(1,2) in \<open>auto simp: rsp_fits_def\<close>)

lemma format_phase: "r4_state s = T4T_NDEF_FORMAT \<Longrightarrow> phase_ok s"
  by (simp add: phase_ok_def)

lemma format_step_good:
  assumes "rsp_fits h" "2 \<le> unat (h_len h)" "base_ok s" "rw_owned s = k" "wp (f s) (good k)"
  shows "wp (format_step dup h f s) (good k)"
  unfolding format_step_def
  by (rule wp_bind, rule wp_sw [OF assms(1,2)]) (use assms(3-5) in \<open>auto intro!: wp_intros error_good\<close>)

lemma version_good:
  assumes "rsp_fits h" "base_ok s" "rw_owned s = k"
  shows "wp (rw_t4t_update_version_details h s) (\<lambda>r. base_ok (t4t_or_fail r) \<and> rw_owned (t4t_or_fail r) = k \<and>
    r4_state (t4t_or_fail r) \<in> {r4_state s, T4T_IDLE})"
proof -
  have e: "base_ok (t4t_or_fail (False, s'))" "rw_owned (t4t_or_fail (False, s')) = k" "r4_state (t4t_or_fail (False, s')) = T4T_IDLE"
    if "base_ok s'" "rw_owned s' = k" for s'
  proof -
    have "good k (t4t_or_fail (False, s'))" using that by (intro or_fail_good) auto
    then show "base_ok (t4t_or_fail (False, s'))" "rw_owned (t4t_or_fail (False, s')) = k" by (simp_all add: good_def rw_ok_def)
    show "r4_state (t4t_or_fail (False, s')) = T4T_IDLE" by (simp add: t4t_or_fail_def)
  qed
  show ?thesis unfolding rw_t4t_update_version_details_def
    by (intro wp_intros) (use assms e in \<open>auto simp: rsp_fits_def word_less_nat_alt t4t_or_fail_def [of "(True, _)"] split: if_splits\<close>)
qed

lemma or_fail_base: "good k (t4t_or_fail r) \<Longrightarrow> base_ok (t4t_or_fail r) \<and> rw_owned (t4t_or_fail r) = k"
  by (simp add: good_def rw_ok_def)

lemmas format_cmds = rw_t4t_get_sw_version_def rw_t4t_get_uid_details_def rw_t4t_create_app_def rw_t4t_select_app_def rw_t4t_create_ccfile_def
  rw_t4t_create_ndef_def rw_t4t_write_cc_def rw_t4t_write_ndef_def

lemma sm_format_good:
  assumes "rsp_fits h" "2 \<le> unat (h_len h)" "base_ok s" "rw_owned s = k" "r4_state s = T4T_NDEF_FORMAT"
  shows "wp (rw_t4t_sm_ndef_format h s) (good k)"
proof -
  have l: "unat (h_offset h) + (unat (h_len h) - 1) < length (h_data h)" using assms(1,2) by (auto simp: rsp_fits_def)
  note step = format_step_good [OF assms(1-4)]
  have c: "wp (t4t_cmd c s) (\<lambda>r. good k (t4t_next sub r))" if "5 \<le> length c" "length c \<le> 648" for c sub
    by (rule cmd_next) (use assms that in \<open>auto intro: format_phase\<close>)
  have uid: "wp (rw_t4t_get_uid_details (t4t_or_fail r)) (\<lambda>r'. good k ((t4t_or_fail r') \<lparr> r4_sub := WAIT_GET_UID \<rparr>))"
    if r: "base_ok (t4t_or_fail r)" "rw_owned (t4t_or_fail r) = k" "r4_state (t4t_or_fail r) \<in> {r4_state s, T4T_IDLE}" for r
  proof -
    have p: "phase_ok (t4t_or_fail r \<lparr> r4_sub := x \<rparr>)" "r4_state (t4t_or_fail r) \<noteq> T4T_READ_NDEF" for x using r(3) assms(5) by (auto simp: phase_ok_def)
    show ?thesis unfolding rw_t4t_get_uid_details_def
      by (rule wp_cmd) (use r p in \<open>simp_all add: t4t_or_fail_def [of "(_, _)"] error_sub_good sent_good\<close>)
  qed
  have d: "good k (format_done s)" using assms by (auto simp: format_done_def Let_def intro!: idle_good)
  show ?thesis unfolding rw_t4t_sm_ndef_format_def Let_def format_cmds
    by (cases "r4_sub s"; simp only: t4t_sub.case; intro wp_intros l step error_good assms d c wp_call [OF version_good [OF assms(1,3,4)]])
      (auto intro!: wp_Some wp_call [OF uid [unfolded rw_t4t_get_uid_details_def]])
qed

section \<open>Detection\<close>

lemma not_detected_good: "base_ok s \<Longrightarrow> rw_owned s = k \<Longrightarrow> good k (not_detected st a b s)"
  unfolding not_detected_def by (rule error_good) simp_all

lemma flag_or [simp]: "(w OR DDO_LC_FIELD_CODING) AND DDO_LC_FIELD_CODING \<noteq> (0 :: u8)" "(w OR DDO_LC_FIELD_CODING) AND EXT_FIELD_CODING = w AND EXT_FIELD_CODING"
  by (auto simp: bit_eq_iff bit_simps intro!: exI [of _ 1])

lemma wp_read_file:
  assumes "base_ok s" "rw_owned s = k"
    "\<And>s'. base_ok s' \<Longrightarrow> rw_owned s' = k \<Longrightarrow> r4_state s' = r4_state s \<Longrightarrow> Q (False, s')"
    "\<And>s'. base_ok s' \<Longrightarrow> rw_owned s' = k \<Longrightarrow> r4_timer s' \<Longrightarrow> r4_state s' = r4_state s \<Longrightarrow> r4_max_lc s' = r4_max_lc s \<Longrightarrow> read_cmd_ok s' \<Longrightarrow> Q (True, s')"
  shows "wp (rw_t4t_read_file off len c s) Q"
  unfolding rw_t4t_read_file_def Let_def
  by (intro wp_intros wp_cmd assms(3,4)) (use assms(1,2) in \<open>auto simp: read_cmd_ok_def\<close>)

lemma select_file_sends:
  assumes "base_ok s" "rw_owned s = k"
    "\<And>s'. base_ok s' \<Longrightarrow> rw_owned s' = k \<Longrightarrow> r4_state s' = r4_state s \<Longrightarrow> Q (False, s')"
    "\<And>s'. base_ok s' \<Longrightarrow> rw_owned s' = k \<Longrightarrow> r4_timer s' \<Longrightarrow> r4_state s' = r4_state s \<Longrightarrow> r4_max_lc s' = r4_max_lc s \<Longrightarrow> Q (True, s')"
  shows "wp (rw_t4t_select_file fid s) Q"
  unfolding rw_t4t_select_file_def by (intro wp_cmd assms(3,4)) (use assms(1,2) in auto)

lemma select_ndef_good:
  assumes "base_ok s" "rw_owned s = k" "n \<le> 4" "9 \<le> r4_max_lc s" "r4_state s = T4T_DETECT_NDEF"
  shows "wp (select_ndef_file n s) (good k)"
proof -
  have n: "base_ok (s' \<lparr> r4_nlen_size := n, r4_sub := x \<rparr>)" if "base_ok s'" for s' x using that assms(3) by (simp add: base_ok_def)
  show ?thesis unfolding select_ndef_file_def
    by (intro wp_intros wp_bind select_file_sends [OF assms(1,2)] not_detected_good assms)
      (use assms n in \<open>auto simp: phase_ok_def intro!: wp_Some error_good sent_good\<close>)
qed

lemma wp_be16: "p + 1 < length m \<Longrightarrow> (\<And>w. w = be16_val (m ! p) (m ! (p + 1)) \<Longrightarrow> Q w) \<Longrightarrow> wp (rd_be16 m p) Q"
  unfolding rd_be16_def by (intro wp_intros) auto

lemma wp_be32: "p + 3 < length m \<Longrightarrow> (\<And>w. Q w) \<Longrightarrow> wp (rd_be32 m p) Q"
  unfolding rd_be32_def by (intro wp_intros) auto

text \<open>The capability container announces updates of at least nine bytes; the standard asks for thirteen.\<close>

definition mlc_ok :: "nfc_hdr \<Rightarrow> bool" where
  "mlc_ok h \<longleftrightarrow> (17 \<le> unat (h_len h) \<longrightarrow> 9 \<le> be16_val (h_data h ! (unat (h_offset h) + 5)) (h_data h ! (unat (h_offset h) + 6)))"

lemma detect_cc_good:
  assumes "rsp_fits h" "base_ok s" "rw_owned s = k" "mlc_ok h" "r4_state s = T4T_DETECT_NDEF"
  shows "wp (detect_cc_file h s) (good k)"
proof -
  have l: "unat (h_offset h) + 17 \<le> length (h_data h)" "17 \<le> unat (h_len h)" if "\<not> h_len h < 15 + 2"
    using that assms(1) by (auto simp: rsp_fits_def word_less_nat_alt)
  show ?thesis unfolding detect_cc_file_def
    by (intro wp_intros wp_be16 select_ndef_good wp_read_file not_detected_good next_good)
      (use assms l in \<open>auto simp: phase_ok_def mlc_ok_def add.commute [of 6]\<close>)
qed

lemma detect_endef_good:
  assumes "rsp_fits h" "base_ok s" "rw_owned s = k" "9 \<le> r4_max_lc s" "r4_state s = T4T_DETECT_NDEF"
  shows "wp (detect_endef_tlv h s) (good k)"
proof -
  have l: "unat (h_offset h) + 10 \<le> length (h_data h)" if "\<not> h_len h < 8 + 2"
    using that assms(1) by (auto simp: rsp_fits_def word_less_nat_alt)
  show ?thesis unfolding detect_endef_tlv_def
    by (intro wp_intros wp_be16 wp_be32 select_ndef_good not_detected_good) (use assms l in auto)
qed

lemma sizes_base: "base_ok s \<Longrightarrow> 9 \<le> r4_max_lc s \<Longrightarrow> base_ok (t4t_set_sizes s)"
  by (auto simp: base_ok_def t4t_set_sizes_def Let_def word_le_nat_alt)

lemma sizes_fields [simp]:
  "rw_owned (t4t_set_sizes s) = rw_owned s" "r4_cback (t4t_set_sizes s) = r4_cback s" "r4_max_file_size (t4t_set_sizes s) = r4_max_file_size s"
  "r4_nlen_size (t4t_set_sizes s) = r4_nlen_size s" "r4_write_access (t4t_set_sizes s) = r4_write_access s"
  by (simp_all add: t4t_set_sizes_def Let_def)

lemma detect_nlen_good:
  assumes "rsp_fits h" "base_ok s" "rw_owned s = k" "9 \<le> r4_max_lc s"
  shows "wp (detect_nlen h s) (good k)"
proof -
  have l: "unat (h_offset h) + 4 \<le> length (h_data h)" using assms(1) by (simp add: rsp_fits_def)
  show ?thesis unfolding detect_nlen_def Let_def
    by (intro wp_intros wp_be16 wp_be32 not_detected_good) (use assms l in \<open>auto intro!: idle_good sizes_base\<close>)
qed

lemma sm_detect_good:
  assumes "rsp_fits h" "2 \<le> unat (h_len h)" "rw_ok s" "rw_owned s = k" "r4_state s = T4T_DETECT_NDEF" "r4_sub s = WAIT_CC_FILE \<Longrightarrow> mlc_ok h"
  shows "wp (rw_t4t_sm_detect_ndef h s) (good k)"
proof -
  have b: "base_ok s" and p: "phase_ok s" using assms(3) by (auto simp: rw_ok_def)
  have lc: "r4_sub s \<in> {WAIT_ENDEF_FILE_CTRL_TLV, WAIT_SELECT_NDEF_FILE, WAIT_READ_NLEN} \<Longrightarrow> 9 \<le> r4_max_lc s"
    using p assms(5) by (simp add: phase_ok_def)
  have v: "wp (rw_t4t_select_application T4T_VERSION_1_0 (s \<lparr> r4_version := T4T_VERSION_1_0 \<rparr>)) (\<lambda>r. good k (t4t_or_fail r))"
    unfolding rw_t4t_select_application_def by (simp, rule cmd_or_fail) (use b p assms in \<open>auto simp: phase_ok_def\<close>)
  have n: "good k (t4t_next x (True, s'))"
    if "base_ok s'" "rw_owned s' = k" "r4_timer s'" "r4_state s' = r4_state s" "x \<in> {WAIT_SELECT_CC, WAIT_CC_FILE} \<or> 9 \<le> r4_max_lc s'" for x s'
    by (rule next_good) (use that assms(5) in \<open>auto simp: phase_ok_def\<close>)
  have e: "good k (t4t_next x (False, s'))" if "base_ok s'" "rw_owned s' = k" for x s' by (rule next_good) (use that in auto)
  show ?thesis unfolding rw_t4t_sm_detect_ndef_def
    by (intro wp_bind wp_sw [OF assms(1,2)]; intro wp_intros v not_detected_good b assms(4); cases "r4_sub s"; simp only: t4t_sub.case;
        intro wp_intros select_file_sends [OF b assms(4)] wp_read_file [OF b assms(4)] detect_cc_good detect_endef_good detect_nlen_good error_good)
      (use assms b lc n e in auto)
qed

end
