(* ===== verification/RwT4tSafe.thy ===== *)
theory RwT4tSafe
  imports RwT4tProofs
begin

unbundle bit_operations_syntax

text \<open>
  Reading, updating and the events of the Type 4 Tag reader, and the states it can reach.
\<close>

section \<open>Reading\<close>

lemma count_fields [simp]:
  "base_ok (read_count n s) = base_ok s" "rw_owned (read_count n s) = rw_owned s" "r4_state (read_count n s) = r4_state s"
  by (simp_all add: read_count_def)

lemma deliver_good:
  assumes "base_ok s" "rw_owned s = k" "r4_state s = T4T_READ_NDEF"
  shows "wp (read_deliver seg s) (good (Suc k))"
proof -
  have p: "phase_ok s'" if "r4_state s' = T4T_READ_NDEF" "read_cmd_ok s'" for s' using that by (simp add: phase_ok_def)
  show ?thesis unfolding read_deliver_def
    by (intro wp_intros wp_read_file or_fail_good) (use assms p in \<open>auto simp: base_ok_def [of s] intro!: idle_good\<close>)
qed

lemma ddo_good:
  assumes "unat off + max 4 (unat len) \<le> length m" "unat off + unat len < 2 ^ 16" "base_ok s" "rw_owned s = k" "r4_state s = T4T_READ_NDEF"
  shows "wp (read_ddo m off len s) (\<lambda>r. case r of Inl _ \<Rightarrow> True | Inr (o', n, s') \<Rightarrow>
    unat o' + unat n \<le> length m \<and> base_ok s' \<and> rw_owned s' = k \<and> r4_state s' = T4T_READ_NDEF)"
proof -
  have s: "unat (off + j) + unat (len - j) \<le> length m" if "unat (len - j) \<le> 65531" "unat j \<le> 4" for j
  proof (cases "j \<le> len")
    case True
    then have "unat (len - j) = unat len - unat j" "unat (off + j) = unat off + unat j"
      using assms(2) by (auto simp: unat_sub word_le_nat_alt unat_word_ariths)
    then show ?thesis using assms(1) True by (auto simp: word_le_nat_alt)
  next
    case False
    then have "unat (len - j) = 65536 + unat len - unat j" using that(2) by (simp add: unat_sub_if_size word_size word_le_nat_alt)
    then have "65532 \<le> unat (len - j)" using that(2) by linarith
    then show ?thesis using that(1) by linarith
  qed
  have b: "unat (ucast (c :: u8) :: u16) \<le> 255" for c by (simp add: unat_ucast_u8)
  have d: "len - j = ucast c \<Longrightarrow> unat (len - j) \<le> 65531" for j and c :: u8 using b [of c] by simp
  have n: "unat n \<le> 65531" if "unat n + 4 \<le> unat (r4_max_read s)" for n :: u16
    using that unsigned_less [of "r4_max_read s", where 'a = nat] by simp
  show ?thesis unfolding read_ddo_def
    by (intro wp_intros wp_be16)
      (use assms s [of 2] s [of 3] s [of 4] d n in \<open>auto simp: eq_commute [of "ucast _" "len - _"]\<close>)
qed

text \<open>The fallback to short lengths repeats the last command, which is a read command.\<close>

lemma short_retry_good:
  assumes "base_ok s" "rw_owned s = k" "r4_state s = T4T_READ_NDEF" "r4_retry s = Some c" "length c = 7" "c ! 1 = 0xB0" "r4_intl s AND EXT_FIELD_CODING = 0"
  shows "wp (rw_t4t_format_short_field_coding s) (good k)"
proof -
  have g: "good k s'" if "base_ok s'" "rw_owned s' = k" "r4_state s' = T4T_READ_NDEF" "r4_intl s' = r4_intl s"
      "r4_alloc s' \<and> r4_link s' \<longrightarrow> r4_timer s'" for s'
    using that assms(7) by (auto simp: ok_defs read_cmd_ok_def)
  show ?thesis unfolding rw_t4t_format_short_field_coding_def assms(4) option.case
    by (intro wp_intros g) (use assms in \<open>auto simp: send_eq\<close>)
qed

lemma sm_read_good:
  assumes "rsp_fits h" "2 \<le> unat (h_len h)" "unat (h_offset h) + unat (h_len h) < 2 ^ 16" "rw_ok s" "rw_owned s = k" "r4_state s = T4T_READ_NDEF"
  shows "wp (rw_t4t_sm_read_ndef h s) (good (Suc k))"
proof -
  have b: "base_ok s" "read_cmd_ok s" using assms(4,6) by (auto simp: rw_ok_def phase_ok_def)
  let ?len = "h_len h - 2"
  have l: "unat ?len = unat (h_len h) - 2" using assms(2) by (simp add: unat_sub word_le_nat_alt)
  have e: "good (Suc k) (r4_free (rw_t4t_handle_error st x y s'))" if "base_ok s'" "rw_owned s' = k" for st x y s'
    using error_good [OF that, of st x y] by (auto simp: good_def rw_ok_def)
  have f: "unat (h_offset h) + max 4 (unat ?len) \<le> length (h_data h)" "unat (h_offset h) + unat ?len < 2 ^ 16"
    using assms(1,3) l by (auto simp: rsp_fits_def)
  have d: "wp (read_ddo (h_data h) (h_offset h) ?len s) (\<lambda>r. case r of Inl _ \<Rightarrow> True | Inr (o', n, s') \<Rightarrow>
      unat o' + unat n \<le> length (h_data h) \<and> base_ok s' \<and> rw_owned s' = k \<and> r4_state s' = T4T_READ_NDEF)"
    by (rule ddo_good [OF f b(1) assms(5,6)])
  have w: "wp (rw_t4t_format_short_field_coding (r4_free (s \<lparr> r4_intl := r4_intl s AND NOT EXT_FIELD_CODING \<rparr>))) (good (Suc k))"
    if fl: "r4_intl s AND EXT_FIELD_CODING \<noteq> 0" "r4_intl s AND DDO_LC_FIELD_CODING = 0"
  proof -
    obtain c where c: "r4_retry s = Some c" "length c = 7" "c ! 1 = 0xB0" using b(2) fl by (auto simp: read_cmd_ok_def)
    have "(r4_intl s AND NOT EXT_FIELD_CODING) AND EXT_FIELD_CODING = 0" by (auto simp: bit_eq_iff bit_simps)
    then show ?thesis by (intro short_retry_good [of _ _ c]) (use b assms c in auto)
  qed
  show ?thesis unfolding rw_t4t_sm_read_ndef_def Let_def
    by (intro wp_bind wp_sw [OF assms(1,2)]; intro wp_intros e w wp_call [OF d] deliver_good)
      (use b assms f in \<open>auto split: sum.splits\<close>)
qed

section \<open>Updating\<close>

lemma ber_lengths_ok:
  assumes "ber_lengths len ext mx = (lc, dl)" "0 < len" "len \<le> mx" "9 \<le> mx" "mx \<le> 633"
  shows "0 < dl" "dl \<le> len" "dl \<le> 626"
proof -
  define l m where "l = unat len" and "m = unat mx"
  have b: "0 < l" "l \<le> m" "9 \<le> m" "m \<le> 633" using assms(2-5) by (simp_all add: l_def m_def word_le_nat_alt word_less_nat_alt)
  have len: "len = of_nat l" and mx: "mx = of_nat m" by (simp_all add: l_def m_def)
  have le: "(of_nat x :: u32) \<le> of_nat y \<longleftrightarrow> x \<le> y" if "x < 1000" "y < 1000" for x y
    using that by (simp add: word_le_nat_alt unat_of_nat)
  have lt: "(of_nat x :: u32) < of_nat y \<longleftrightarrow> x < y" if "x < 1000" "y < 1000" for x y
    using that by (simp add: word_less_nat_alt unat_of_nat)
  have sub: "(of_nat x :: u32) - of_nat y = of_nat (x - y)" if "y \<le> x" for x y using that by simp
  define n where "n = ber_length_size len ext"
  have n: "n = (if l \<le> 0x7F then 1 else if l + 8 \<le> 0xFF then 2 else if ext then if l \<le> 0xFF then 2 else 3 else 2)"
    unfolding n_def ber_length_size_def len using b le [of l 127] le [of "l + 8" 255] le [of l 255] by simp
  define d where "d = (if 0x7F < l \<and> 0xFF < l + 8 \<and> \<not> ext then (if 0xFF \<le> m then 0xFF - (6 + n) else m - (6 + n))
    else if l + (6 + n) \<le> m then l else m - (6 + n))"
  have "dl = of_nat d"
  proof -
    have h: "(6 :: u32) + of_nat n = of_nat (6 + n)" by simp
    have z: "(of_nat l :: u32) = 0 \<longleftrightarrow> False" using lt [of 0 l] b by auto
    have c1: "0x7F < len \<longleftrightarrow> 127 < l" "0xFF < len + 8 \<longleftrightarrow> 255 < l + 8" "0xFF \<le> mx \<longleftrightarrow> 255 \<le> m"
      using lt [of 127 l] lt [of 255 "l + 8"] le [of 255 m] b by (simp_all add: len mx)
    have c2: "len + of_nat (6 + n) \<le> mx \<longleftrightarrow> l + (6 + n) \<le> m" using le [of "l + (6 + n)" m] b n by (auto simp: len mx split: if_splits)
    have s: "mx - of_nat (6 + n) = of_nat (m - (6 + n))" if "6 + n \<le> m" using sub [OF that] by (simp only: mx)
    have s': "(0xFF :: u32) - of_nat (6 + n) = of_nat (255 - (6 + n))" using sub [of "6 + n" 255] n by (simp split: if_splits)
    have nm: "6 + n \<le> m" using n b by (auto split: if_splits)
    show ?thesis
    proof (cases "127 < l \<and> 255 < l + 8 \<and> \<not> ext")
      case True
      then show ?thesis using assms(1) unfolding ber_lengths_def Let_def n_def [symmetric] h c1 s' s [OF nm] d_def by (auto split: if_splits)
    next
      case False
      have "ber_lengths len ext mx = (if len + of_nat (6 + n) \<le> mx then (len + of_nat (6 + n), len) else (mx, mx - of_nat (6 + n)))"
        using z by (simp only: ber_lengths_def Let_def n_def [symmetric] h c1 False if_False len [symmetric])
      then show ?thesis using assms(1) False unfolding c2 s [OF nm] d_def by (auto simp: len split: if_splits)
    qed
  qed
  moreover have "0 < d" "d \<le> l" "d \<le> 626" using b by (auto simp: d_def n split: if_splits)
  ultimately show "0 < dl" "dl \<le> len" "dl \<le> 626" using lt [of 0 d] le [of d l] le [of d 626] b by (simp_all add: len)
qed

text \<open>Sending a piece of the data: what is left to write shrinks with the data.\<close>

definition upd_step :: "rw_t4t \<Rightarrow> rw_t4t \<Rightarrow> bool" where
  "upd_step s s' \<longleftrightarrow> (\<exists>n d. 0 < n \<and> n \<le> r4_rw_length s \<and> r4_update_data s = Some d \<and> r4_update_data s' = Some (drop (unat n) d) \<and>
    r4_rw_length s' = r4_rw_length s - n \<and> r4_rw_offset s' = r4_rw_offset s + n)"

lemma unat_ucast_u16_u32: "unat (ucast (w :: u16) :: u32) = unat w"
  using unsigned_less [of w, where 'a = nat] by (simp add: unsigned_ucast_eq take_bit_nat_eq_self_iff)

lemma upd_stepI:
  assumes "r4_update_data s = Some d" "0 < n" "n \<le> r4_rw_length s" "r4_update_data s' = Some (drop (unat n) d)"
    "r4_rw_length s' = r4_rw_length s - n" "r4_rw_offset s' = r4_rw_offset s + n"
  shows "upd_step s s'"
  using assms by (auto simp: upd_step_def)

lemma wp_ber_tlv:
  assumes "base_ok s" "rw_owned s = k" "r4_update_data s = Some d" "unat (r4_rw_length s) \<le> length d"
    "0 < len" "len \<le> ucast (r4_max_update s)" "len \<le> r4_rw_length s"
    "\<And>s'. base_ok s' \<Longrightarrow> rw_owned s' = k \<Longrightarrow> r4_state s' = r4_state s \<Longrightarrow> Q (False, s')"
    "\<And>s'. base_ok s' \<Longrightarrow> rw_owned s' = k \<Longrightarrow> r4_timer s' \<Longrightarrow> r4_state s' = r4_state s \<Longrightarrow> r4_sub s' = r4_sub s \<Longrightarrow> upd_step s s' \<Longrightarrow> Q (True, s')"
  shows "wp (rw_t4t_set_ber_tlv len s) Q"
proof -
  let ?ext = "r4_intl s AND EXT_FIELD_CODING \<noteq> 0"
  obtain lc dl where b: "ber_lengths len ?ext (ucast (r4_max_update s)) = (lc, dl)" by (cases "ber_lengths len ?ext (ucast (r4_max_update s))")
  have m: "9 \<le> (ucast (r4_max_update s) :: u32)" "(ucast (r4_max_update s) :: u32) \<le> 633"
    using assms(1) by (simp_all add: base_ok_def word_le_nat_alt unat_ucast_u16_u32)
  note dl = ber_lengths_ok [OF b assms(5,6) m]
  have u: "unat dl \<le> 626" "unat dl \<le> length d" "dl \<le> r4_rw_length s" using dl assms(4,7) by (auto simp: word_le_nat_alt)
  have z: "\<not> 0xFFFF < dl" using dl(3) by (simp add: word_less_nat_alt word_le_nat_alt)
  let ?apdu = "\<lambda>c :: mem. c @ take (unat dl) d"
  have s: "wp (case rw_t4t_send_to_lower c s of (ok, s') \<Rightarrow> if \<not> ok then Some (False, s')
      else Some (True, s' \<lparr> r4_rw_offset := r4_rw_offset s' + dl, r4_rw_length := r4_rw_length s' - dl, r4_update_data := Some (drop (unat dl) d) \<rparr>)) Q"
    if "5 \<le> length c" "length c \<le> 648" for c
    unfolding send_eq [OF that(2)]
    by (auto intro!: wp_intros assms(8,9) upd_stepI [OF assms(3) dl(1) u(3)] simp: assms(1,2) that(1))
  show ?thesis unfolding rw_t4t_set_ber_tlv_def b Let_def prod.case assms(3)
    using s z u rd_bytes_in [of 0 "unat dl" d] by (auto simp: ber_length_size_def intro!: wp_intros)
qed

lemma wp_update_file:
  assumes "base_ok s" "rw_owned s = k" "r4_update_data s = Some d" "unat (r4_rw_length s) \<le> length d"
    "\<And>s'. base_ok s' \<Longrightarrow> rw_owned s' = k \<Longrightarrow> r4_state s' = r4_state s \<Longrightarrow> Q (False, s')"
    "\<And>s'. base_ok s' \<Longrightarrow> rw_owned s' = k \<Longrightarrow> r4_timer s' \<Longrightarrow> r4_state s' = r4_state s \<Longrightarrow> r4_sub s' = r4_sub s \<Longrightarrow> upd_step s s' \<Longrightarrow> Q (True, s')"
  shows "wp (rw_t4t_update_file s) Q"
proof -
  let ?mx = "ucast (r4_max_update s) :: u32" and ?len = "if ucast (r4_max_update s) < r4_rw_length s then ucast (r4_max_update s) else r4_rw_length s"
  let ?n = "if 0xFF < ?len then 0xFF else ?len"
  have mz: "?mx \<noteq> 0" using assms(1) unat_ucast_u16_u32 [of "r4_max_update s"] by (auto simp: base_ok_def word_le_nat_alt)
  have len: "0 < ?len" "?len \<le> ?mx" "?len \<le> r4_rw_length s" if "r4_rw_length s \<noteq> 0"
    using that assms(1) mz by (auto simp: base_ok_def word_le_nat_alt word_less_nat_alt unat_ucast_u16_u32 unat_gt_0)
  have n: "0 < ?n" "?n \<le> r4_rw_length s" "unat ?n \<le> 255" "unat ?n \<le> length d" if "r4_rw_length s \<noteq> 0"
    using len [OF that] assms(4) by (auto simp: word_le_nat_alt word_less_nat_alt)
  show ?thesis unfolding rw_t4t_update_file_def Let_def assms(3)
    by (intro wp_intros wp_ber_tlv [OF assms(1-4)] wp_cmd assms(5,6); (use assms(1,2) n len in \<open>simp; fail\<close>)?)
      (use assms n in \<open>auto intro!: wp_intros assms(5,6) upd_stepI [OF assms(3), of ?n] simp: not_less\<close>)
qed

lemma upd_step_ok:
  assumes "upd_step s s'" "r4_update_data s = Some d" "unat (r4_rw_length s) \<le> length d"
  shows "\<exists>b. r4_update_data s' = Some b \<and> unat (r4_rw_length s') \<le> length b"
  using assms by (auto simp: upd_step_def unat_sub word_le_nat_alt)

lemma or_fail_data_good:
  assumes "base_ok s'" "rw_owned s' = k" "ok \<Longrightarrow> r4_timer s' \<and> phase_ok s'"
  shows "good k (t4t_or_fail_data (ok, s'))"
proof (cases ok)
  case True
  then show ?thesis using assms by (simp add: t4t_or_fail_data_def sent_good)
next
  case False
  have "base_ok (rw_t4t_handle_error NCI_STATUS_FAILED 0 0 s')" "rw_owned (rw_t4t_handle_error NCI_STATUS_FAILED 0 0 s') = k"
    using error_good [OF assms(1,2), of NCI_STATUS_FAILED 0 0] by (simp_all add: good_def rw_ok_def)
  then show ?thesis using False by (auto simp: t4t_or_fail_data_def intro!: idle_good)
qed

lemma wp_update_nlen:
  assumes "base_ok s" "rw_owned s = k"
    "\<And>s'. base_ok s' \<Longrightarrow> rw_owned s' = k \<Longrightarrow> r4_state s' = r4_state s \<Longrightarrow> Q (False, s')"
    "\<And>s'. base_ok s' \<Longrightarrow> rw_owned s' = k \<Longrightarrow> r4_timer s' \<Longrightarrow> r4_state s' = r4_state s \<Longrightarrow> r4_update_data s' = r4_update_data s \<Longrightarrow>
      r4_rw_length s' = r4_rw_length s \<Longrightarrow> Q (True, s')"
  shows "wp (rw_t4t_update_nlen n s) Q"
proof -
  have z: "unat (r4_nlen_size s) \<le> 4" using assms(1) by (simp add: base_ok_def word_le_nat_alt)
  then have "\<not> length (if r4_nlen_size s = 2 then be16_bytes (ucast n) else be32_bytes n) < unat (r4_nlen_size s)" by auto
  then show ?thesis unfolding rw_t4t_update_nlen_def Let_def
    by (simp only: if_False) (intro wp_cmd assms(3,4); use assms(1,2) z in auto)
qed

lemma sm_update_good:
  assumes "rsp_fits h" "2 \<le> unat (h_len h)" "rw_ok s" "rw_owned s = k" "r4_state s = T4T_UPDATE_NDEF"
  shows "wp (rw_t4t_sm_update_ndef h s) (good k)"
proof -
  have b: "base_ok s" "upd_ok (r4_sub s) (r4_update_data s) (r4_rw_length s)" using assms(3,5) by (auto simp: rw_ok_def phase_ok_def)
  have u: "wp (rw_t4t_update_file s1) (\<lambda>r. good k (t4t_or_fail_data r))"
    if "base_ok s1" "rw_owned s1 = k" "r4_state s1 = T4T_UPDATE_NDEF" "r4_sub s1 = WAIT_UPDATE_RESP"
      "r4_update_data s1 = Some d" "unat (r4_rw_length s1) \<le> length d" for s1 d
    by (rule wp_update_file [OF that(1,2,5,6)]; intro or_fail_data_good)
      (use that upd_step_ok [OF _ that(5,6)] in \<open>auto simp: phase_ok_def upd_ok_def\<close>)
  have n: "wp (rw_t4t_update_nlen x (s \<lparr> r4_update_data := None \<rparr>)) (\<lambda>r. good k (t4t_next WAIT_UPDATE_NLEN r))" for x
    by (intro wp_update_nlen [of _ k] next_good) (use b assms in \<open>auto simp: phase_ok_def upd_ok_def\<close>)
  have c: "good k (if r4_cback s then rw_evt (RW_T4T_NDEF_UPDATE_CPLT NCI_STATUS_OK) (s \<lparr> r4_state := T4T_IDLE \<rparr>) else s \<lparr> r4_state := T4T_IDLE \<rparr>)"
    using b(1) assms(4) by (auto intro!: idle_good)
  show ?thesis unfolding rw_t4t_sm_update_ndef_def Let_def
    by (intro wp_bind wp_sw [OF assms(1,2)]; intro wp_intros error_good b assms(4); cases "r4_sub s"; simp only: t4t_sub.case;
        intro wp_intros error_good b assms(4))
      (use b assms u [of s] u [of "s \<lparr> r4_sub := WAIT_UPDATE_RESP \<rparr>"] n c in \<open>auto simp: upd_ok_def\<close>)
qed

lemma sm_readonly_good:
  assumes "rsp_fits h" "2 \<le> unat (h_len h)" "base_ok s" "rw_owned s = k" "r4_state s = T4T_SET_READ_ONLY"
  shows "wp (rw_t4t_sm_set_readonly h s) (good k)"
proof -
  have p: "phase_ok s'" if "r4_state s' = T4T_SET_READ_ONLY" for s' using that by (simp add: phase_ok_def)
  have c: "wp (rw_t4t_update_cc_to_readonly s) (\<lambda>r. good k (t4t_next WAIT_UPDATE_CC r))"
    unfolding rw_t4t_update_cc_to_readonly_def by (rule cmd_next) (use assms p in auto)
  show ?thesis unfolding rw_t4t_sm_set_readonly_def Let_def
    by (intro wp_bind wp_sw [OF assms(1,2)]; intro wp_intros error_good assms(3,4); cases "r4_sub s"; simp only: t4t_sub.case;
        intro wp_intros error_good assms(3,4) c select_file_sends next_good)
      (use assms p in \<open>auto intro!: idle_good\<close>)
qed

section \<open>Events\<close>

text \<open>What an event must satisfy: a response lies in its buffer, whose end is below 65536, and a capability container announces updates of at
  least nine bytes.\<close>

fun evt_ok :: "rw_conn_evt \<Rightarrow> rw_t4t \<Rightarrow> bool" where
  "evt_ok (RW_DATA_CEVT st h) s = (rsp_fits h \<and> unat (h_offset h) + unat (h_len h) < 2 ^ 16 \<and>
     (r4_state s = T4T_DETECT_NDEF \<and> r4_sub s = WAIT_CC_FILE \<longrightarrow> mlc_ok h))"
| "evt_ok _ s = True"

fun evt_bufs :: "rw_conn_evt \<Rightarrow> nat" where
  "evt_bufs (RW_DATA_CEVT st h) = 1"
| "evt_bufs _ = 0"

lemma free_good: "good k s \<Longrightarrow> good (Suc k) (r4_free s)"
  by (simp add: good_def rw_ok_def)

lemma must_good: "base_ok s \<Longrightarrow> r4_state s = T4T_IDLE \<Longrightarrow> rw_owned s = k \<Longrightarrow> evt_buf ev = 0 \<Longrightarrow> wp (rw_evt_must ev s) (good k)"
  unfolding rw_evt_must_def by (intro wp_intros) (auto simp: base_ok_def [of s] intro!: idle_good)

lemma error_cevt_good:
  assumes "base_ok s" "rw_owned s = k"
  shows "wp (t4t_error_cevt st s) (good k)"
  unfolding t4t_error_cevt_def by (intro wp_intros must_good error_good) (use assms in auto)

lemma data_cevt_good:
  assumes "rsp_fits h" "unat (h_offset h) + unat (h_len h) < 2 ^ 16" "rw_ok s" "rw_owned s = k"
    "r4_state s = T4T_DETECT_NDEF \<and> r4_sub s = WAIT_CC_FILE \<longrightarrow> mlc_ok h"
  shows "wp (t4t_data_cevt st h s) (good (Suc k))"
proof -
  have b: "base_ok s" using assms(3) by (simp add: rw_ok_def)
  have raw: "wp (rd_bytes (h_data h) (unat (h_offset h)) (unat (h_len h))) (\<lambda>d. wp (Some (rw_evt (RW_T4T_RAW_FRAME st d) s)) (good (Suc k)))"
    if "r4_state s = T4T_IDLE"
    by (intro wp_intros idle_good) (use assms b that in \<open>auto simp: rsp_fits_def\<close>)
  have f: "wp x (good k) \<Longrightarrow> wp (map_option r4_free x) (good (Suc k))" for x
    by (intro wp_map) (auto elim!: wp_call intro: free_good)
  have na: "good (Suc k) (r4_free s)" if "\<not> t4t_busy (r4_state s)"
    using that assms(3,4) by (intro free_good) (simp add: good_def t4t_live_def)
  show ?thesis
  proof (cases "r4_state s \<noteq> T4T_IDLE \<and> r4_state s \<noteq> T4T_PRESENCE_CHECK \<and> h_len h < 2")
    case True
    then show ?thesis using b assms(4) by (auto simp: t4t_data_cevt_def intro!: wp_intros free_good error_good)
  next
    case False
    then have l: "2 \<le> unat (h_len h)" if "t4t_busy (r4_state s)" using that by (auto simp: t4t_busy_def word_less_nat_alt)
    note m = sm_detect_good [OF assms(1) _ assms(3,4)] sm_read_good [OF assms(1) _ assms(2-4)] sm_update_good [OF assms(1) _ assms(3,4)]
      sm_readonly_good [OF assms(1) _ b assms(4)] sm_format_good [OF assms(1) _ b assms(4)] must_good
    show ?thesis unfolding t4t_data_cevt_def if_not_P [OF False]
      by (cases "r4_state s"; simp only: t4t_state.case; intro wp_if wp_bind wp_Some f raw na m)
        (use assms b l in \<open>auto simp: t4t_busy_def base_ok_def [of s]\<close>)
  qed
qed

end
