(* ===== verification/RwT4tReach.thy ===== *)
theory RwT4tReach
  imports RwT4tSafe
begin

unbundle bit_operations_syntax

text \<open>
  The states the Type 4 Tag reader can reach, under any requests of the layer above, any answers of the tag and any timeouts.
\<close>

section \<open>Requests\<close>

lemma rw_ok_upd: "rw_ok s \<Longrightarrow> base_ok s' \<Longrightarrow> r4_state s' \<in> {T4T_IDLE, T4T_NOT_ACTIVATED, T4T_PRESENCE_CHECK} \<Longrightarrow> rw_ok s'"
  by (auto simp: rw_ok_def phase_ok_def)

text \<open>A request that starts a procedure: it is refused, fails in the state it found, or leaves a procedure that waits.\<close>

lemma start_good:
  assumes "base_ok s'" "rw_owned s' = k" "ok \<Longrightarrow> r4_timer s' \<and> phase_ok (s' \<lparr> r4_state := st, r4_sub := sub \<rparr>)" "\<not> ok \<Longrightarrow> r4_state s' = T4T_IDLE"
  shows "good k (snd (t4t_start st sub (ok, s')))"
  using assms by (cases ok) (simp_all add: t4t_start_def idle_good sent_good)

lemma cmd_start:
  assumes "base_ok s" "rw_owned s = k" "5 \<le> length c" "length c \<le> 648" "r4_state s = T4T_IDLE" "st \<notin> {T4T_READ_NDEF, T4T_UPDATE_NDEF}"
    "st = T4T_DETECT_NDEF \<Longrightarrow> sub \<in> {WAIT_SELECT_APP, WAIT_SELECT_CC}"
  shows "wp (t4t_cmd c s) (\<lambda>r. good k (snd (t4t_start st sub r)))"
  by (intro wp_cmd start_good) (use assms in \<open>auto simp: phase_ok_def\<close>)

lemma detect_req_good:
  assumes "rw_ok s" "t4t_live s" "rw_owned s = k"
  shows "wp (RW_T4tDetectNDef s) (\<lambda>r. good k (snd r))"
proof -
  have b: "base_ok s" "good k s" "length (r4_aid s) \<le> 255" using assms by (auto simp: rw_ok_def good_def base_ok_def)
  have f: "good k (snd (t4t_start st sub (False, s)))" if "r4_state s = T4T_IDLE" for st sub
    using b that assms(3) by (intro start_good) auto
  show ?thesis unfolding RW_T4tDetectNDef_def rw_t4t_select_file_def rw_t4t_select_application_def
    by (intro wp_if wp_Some wp_map cmd_start) (use b assms f in auto)
qed

lemma read_req_good:
  assumes "rw_ok s" "t4t_live s" "rw_owned s = k"
  shows "wp (RW_T4tReadNDef s) (\<lambda>r. good k (snd r))"
proof -
  have b: "base_ok s" "good k s" using assms by (auto simp: rw_ok_def good_def)
  have c: "read_cmd_ok (s' \<lparr> r4_state := x, r4_sub := y \<rparr>) = read_cmd_ok s'" for s' x y by (simp add: read_cmd_ok_def)
  show ?thesis unfolding RW_T4tReadNDef_def
    by (intro wp_if wp_Some wp_map wp_read_file [OF b(1) assms(3)] start_good) (use b in \<open>auto simp: phase_ok_def c\<close>)
qed

lemma update_req_good:
  assumes "rw_ok s" "t4t_live s" "rw_owned s = k" "unat len \<le> length d"
  shows "wp (RW_T4tUpdateNDef len (Some d) s) (\<lambda>r. good k (snd r))"
proof -
  have b: "base_ok s" "good k s" using assms by (auto simp: rw_ok_def good_def)
  show ?thesis unfolding RW_T4tUpdateNDef_def
    by (intro wp_if wp_Some wp_map wp_update_nlen [of _ k] start_good) (use b assms(3,4) in \<open>auto simp: phase_ok_def upd_ok_def\<close>)
qed

lemma readonly_req_good:
  assumes "rw_ok s" "t4t_live s" "rw_owned s = k"
  shows "wp (RW_T4tSetNDefReadOnly s) (\<lambda>r. good k (snd r))"
proof -
  have b: "base_ok s" "good k s" using assms by (auto simp: rw_ok_def good_def)
  show ?thesis unfolding RW_T4tSetNDefReadOnly_def
    by (intro wp_if wp_Some wp_map must_good select_file_sends [OF b(1) assms(3)] start_good)
      (use b assms(3) must_good [of s k "RW_T4T_SET_TO_RO NCI_STATUS_OK"] in \<open>auto simp: phase_ok_def\<close>)
qed

lemma format_req_good:
  assumes "rw_ok s" "t4t_live s" "rw_owned s = k"
  shows "wp (RW_T4tFormatNDef s) (\<lambda>r. good k (snd r))"
  unfolding RW_T4tFormatNDef_def rw_t4t_get_hw_version_def
  by (intro wp_if wp_Some wp_map cmd_start) (use assms in \<open>auto simp: good_def rw_ok_def\<close>)

lemma presence_req_good:
  assumes "rw_ok s" "t4t_live s" "rw_owned s = k"
  shows "good k (snd (RW_T4tPresenceCheck o' s))"
proof -
  have b: "base_ok s" "good k s" using assms by (auto simp: rw_ok_def good_def)
  have p: "good k (s' \<lparr> r4_state := T4T_PRESENCE_CHECK \<rparr>)" if "base_ok s'" "rw_owned s' = k" for s'
    using that by (simp add: ok_defs t4t_busy_def)
  show ?thesis using b assms p by (auto simp: RW_T4tPresenceCheck_def Let_def good_def rw_ok_def)
qed

text \<open>Requests for the tag in the execution environment leave the reader idle.\<close>

lemma status_good:
  assumes "base_ok s'" "rw_owned s' = k" "r4_state s' = T4T_IDLE"
  shows "good k (snd (t4t_status (ok, s')))" "good k (snd (t4t_status_err (ok, s')))"
  using assms by (cases ok; simp add: t4t_status_def t4t_status_err_def idle_good error_good)+

lemma nfcee_cmd_good:
  assumes "base_ok s" "rw_owned s = k" "r4_state s = T4T_IDLE" "5 \<le> length c" "length c \<le> 648"
  shows "wp (t4t_cmd c s) (\<lambda>r. good k (snd (t4t_status r)))"
  by (intro wp_cmd status_good) (use assms in auto)

lemma nfcee_select_app_good:
  assumes "base_ok s" "rw_owned s = k" "r4_state s = T4T_IDLE"
  shows "wp (RW_T4tNfceeSelectApplication s) (\<lambda>r. good k (snd r))"
proof -
  have a: "length (r4_aid s) \<le> 255" using assms(1) by (simp add: base_ok_def)
  show ?thesis unfolding RW_T4tNfceeSelectApplication_def rw_t4t_select_application_def
    by (intro wp_map wp_if wp_Some nfcee_cmd_good) (use assms a in auto)
qed

lemma nfcee_read_good:
  assumes "base_ok s" "rw_owned s = k" "r4_state s = T4T_IDLE"
  shows "wp (rw_t4t_read_file off len c s) (\<lambda>r. good k (snd (t4t_status_err r)))"
  by (intro wp_read_file [OF assms(1,2)] status_good) (use assms in auto)

lemma nfcee_update_good:
  assumes "base_ok s" "rw_owned s = k" "r4_state s = T4T_IDLE" "r4_update_data s = Some d" "unat (r4_rw_length s) \<le> length d"
  shows "wp (RW_T4tNfceeUpdateFile s) (\<lambda>r. good k (snd r))"
proof -
  have e: "good k (rw_t4t_handle_error NCI_STATUS_FAILED 0 0 s' \<lparr> r4_update_data := None \<rparr>)" if "base_ok s'" "rw_owned s' = k" for s'
    using or_fail_data_good [OF that, of False] by (simp add: t4t_or_fail_data_def)
  show ?thesis unfolding RW_T4tNfceeUpdateFile_def
    by (intro wp_bind wp_update_file [OF assms(1,2,4,5)]) (use assms(3) in \<open>simp_all add: e idle_good wp_Some\<close>)
qed

section \<open>Reachable states\<close>

datatype rw_input = Rw_activate | Rw_detect | Rw_read | Rw_update u32 mem | Rw_set_readonly | Rw_format | Rw_presence u8
  | Rw_event rw_conn_evt | Rw_timeout u16 | Rw_nak_rsp u8 bool | Rw_nak_fallback | Rw_lower bool bool
  | Rw_ee_init | Rw_ee_cc mem | Rw_ee_select_app | Rw_ee_select_file u16 | Rw_ee_read_len | Rw_ee_read u16 u16 | Rw_ee_read_more
  | Rw_ee_update_nlen u16 | Rw_ee_start_update u16 mem | Rw_ee_update

primrec rw_step :: "rw_input \<Rightarrow> rw_t4t \<Rightarrow> rw_t4t option" where
  "rw_step Rw_activate s = Some (t4t_activated s)"
| "rw_step Rw_detect s = map_option snd (RW_T4tDetectNDef s)"
| "rw_step Rw_read s = map_option snd (RW_T4tReadNDef s)"
| "rw_step (Rw_update n d) s = map_option snd (RW_T4tUpdateNDef n (Some d) s)"
| "rw_step Rw_set_readonly s = map_option snd (RW_T4tSetNDefReadOnly s)"
| "rw_step Rw_format s = map_option snd (RW_T4tFormatNDef s)"
| "rw_step (Rw_presence o') s = Some (snd (RW_T4tPresenceCheck o' s))"
| "rw_step (Rw_event ev) s = rw_t4t_data_cback ev s"
| "rw_step (Rw_timeout ev) s = Some (rw_t4t_process_timeout ev s)"
| "rw_step (Rw_nak_rsp st ntf) s = Some (rw_t4t_handle_isodep_nak_rsp st ntf s)"
| "rw_step Rw_nak_fallback s = Some (rw_t4t_handle_isodep_nak_fallback s)"
| "rw_step (Rw_lower a l) s = Some (s \<lparr> r4_alloc := a, r4_link := l \<rparr>)"
| "rw_step Rw_ee_init s = Some (snd (RW_T4tNfceeInitCb s))"
| "rw_step (Rw_ee_cc m) s = RW_T4tNfceeUpdateCC m s"
| "rw_step Rw_ee_select_app s = map_option snd (RW_T4tNfceeSelectApplication s)"
| "rw_step (Rw_ee_select_file f) s = map_option snd (RW_T4tNfceeSelectFile f s)"
| "rw_step Rw_ee_read_len s = map_option snd (RW_T4tNfceeReadDataLen s)"
| "rw_step (Rw_ee_read off n) s = map_option snd (RW_T4tNfceeReadFile off n s)"
| "rw_step Rw_ee_read_more s = map_option snd (RW_T4tNfceeReadPendingData s)"
| "rw_step (Rw_ee_update_nlen n) s = map_option snd (RW_T4tNfceeUpdateNlen n s)"
| "rw_step (Rw_ee_start_update n d) s = map_option snd (RW_T4tNfceeStartUpdateFile n d s)"
| "rw_step Rw_ee_update s = map_option snd (RW_T4tNfceeUpdateFile s)"

text \<open>What the inputs must satisfy: the data to write has its length; the requests for the execution environment come while the reader is idle, with a
  capability container that announces updates of at least nine bytes and data that has what is left to write.\<close>

primrec rw_input_ok :: "rw_input \<Rightarrow> rw_t4t \<Rightarrow> bool" where
  "rw_input_ok Rw_activate s = True"
| "rw_input_ok Rw_detect s = True"
| "rw_input_ok Rw_read s = True"
| "rw_input_ok (Rw_update n d) s = (unat n \<le> length d)"
| "rw_input_ok Rw_set_readonly s = True"
| "rw_input_ok Rw_format s = True"
| "rw_input_ok (Rw_presence o') s = True"
| "rw_input_ok (Rw_event ev) s = evt_ok ev s"
| "rw_input_ok (Rw_timeout ev) s = True"
| "rw_input_ok (Rw_nak_rsp st ntf) s = True"
| "rw_input_ok Rw_nak_fallback s = True"
| "rw_input_ok (Rw_lower a l) s = True"
| "rw_input_ok Rw_ee_init s = True"
| "rw_input_ok (Rw_ee_cc m) s = (r4_state s = T4T_IDLE \<and> 4 \<le> length m \<and> 9 \<le> be16_val (m ! 2) (m ! 3))"
| "rw_input_ok Rw_ee_select_app s = (r4_state s = T4T_IDLE)"
| "rw_input_ok (Rw_ee_select_file f) s = (r4_state s = T4T_IDLE)"
| "rw_input_ok Rw_ee_read_len s = (r4_state s = T4T_IDLE)"
| "rw_input_ok (Rw_ee_read off n) s = (r4_state s = T4T_IDLE)"
| "rw_input_ok Rw_ee_read_more s = (r4_state s = T4T_IDLE)"
| "rw_input_ok (Rw_ee_update_nlen n) s = (r4_state s = T4T_IDLE)"
| "rw_input_ok (Rw_ee_start_update n d) s = (r4_state s = T4T_IDLE \<and> unat n \<le> length d)"
| "rw_input_ok Rw_ee_update s = (r4_state s = T4T_IDLE \<and> (\<exists>d. r4_update_data s = Some d \<and> unat (r4_rw_length s) \<le> length d))"

text \<open>Inputs that may leave a procedure without its timer: an event without data, and a change of the lower layer.\<close>

fun rw_quiet :: "rw_input \<Rightarrow> bool" where
  "rw_quiet (Rw_event RW_OTHER_CEVT) = False"
| "rw_quiet (Rw_lower _ _) = False"
| "rw_quiet _ = True"

definition rw_bufs :: "rw_input \<Rightarrow> nat" where
  "rw_bufs x = (case x of Rw_event ev \<Rightarrow> evt_bufs ev | _ \<Rightarrow> 0)"

inductive rw_reach :: "bool \<Rightarrow> rw_t4t \<Rightarrow> bool" for quiet :: bool where
  init: "length (r4_aid s) \<le> 255 \<Longrightarrow> rw_reach quiet (t4t_activated s)"
| step: "rw_reach quiet s \<Longrightarrow> rw_input_ok x s \<Longrightarrow> (quiet \<longrightarrow> rw_quiet x) \<Longrightarrow> rw_step x s = Some s' \<Longrightarrow> rw_reach quiet s'"

lemma activated_good: "length (r4_aid s) \<le> 255 \<Longrightarrow> good (rw_owned s) (t4t_activated s)"
  by (rule idle_good) (simp_all add: t4t_activated_def rw_t4t_select_def base_ok_def rw_owned_def)

lemma data_cback_good:
  assumes "rw_ok s" "rw_owned s = k" "evt_ok ev s" "ev \<noteq> RW_OTHER_CEVT"
  shows "wp (rw_t4t_data_cback ev s) (good (k + evt_bufs ev))"
proof -
  let ?s = "s \<lparr> r4_timer := False \<rparr>"
  have s: "rw_ok ?s" "base_ok ?s" "rw_owned ?s = k" using assms(1,2) by (auto simp: rw_ok_def phase_ok_def read_cmd_ok_def)
  have d: "good k (?s \<lparr> r4_rf_cback := False, r4_state := T4T_NOT_ACTIVATED \<rparr>)" using s by (simp add: ok_defs t4t_busy_def)
  show ?thesis
  proof (cases ev)
    case (RW_DATA_CEVT st h)
    then show ?thesis using data_cevt_good [OF _ _ s(1,3), of h st] assms(3) by (simp add: rw_t4t_data_cback_def Let_def)
  qed (use assms(4) d error_cevt_good [OF s(2,3)] in \<open>auto simp: rw_t4t_data_cback_def Let_def intro: wp_Some\<close>)
qed

lemma ee_init_good:
  assumes "base_ok s"
  shows "good (rw_owned s) (snd (RW_T4tNfceeInitCb s))"
proof -
  have "base_ok (s \<lparr> r4_state := T4T_IDLE, r4_version := v, r4_max_le := a, r4_max_read := b, r4_max_update := 250 \<rparr>)" for v a b
    using assms by (simp add: base_ok_def)
  then show ?thesis by (auto simp: RW_T4tNfceeInitCb_def intro!: idle_good)
qed

lemma event_good:
  assumes "base_ok s" "good (rw_owned s) s"
  shows "good (rw_owned s) (rw_t4t_process_timeout ev s)" "good (rw_owned s) (rw_t4t_handle_isodep_nak_rsp st ntf s)"
    "good (rw_owned s) (rw_t4t_handle_isodep_nak_fallback s)"
  using assms by (auto simp: rw_t4t_process_timeout_def rw_t4t_handle_isodep_nak_rsp_def rw_t4t_handle_isodep_nak_fallback_def Let_def error_good
      intro!: idle_good)

lemma rw_step_good:
  assumes "rw_ok s" "rw_input_ok x s" "t4t_live s" "rw_quiet x"
  shows "wp (rw_step x s) (good (rw_owned s + rw_bufs x))"
proof -
  have b: "base_ok s" and g: "good (rw_owned s) s" and a: "length (r4_aid s) \<le> 255" using assms(1,3) by (auto simp: rw_ok_def good_def base_ok_def)
  note r = detect_req_good read_req_good update_req_good readonly_req_good format_req_good
  note reqs = r [OF assms(1,3) refl]
  note ee = nfcee_select_app_good [OF b refl] nfcee_read_good [OF b refl]
  show ?thesis
  proof (cases x)
    case (Rw_event ev)
    then show ?thesis using data_cback_good [OF assms(1) refl, of ev] assms(2,4) by (cases ev) (auto simp: rw_bufs_def)
  next
    case (Rw_ee_cc m)
    then show ?thesis using assms(2) b
      by (auto simp: RW_T4tNfceeUpdateCC_def Let_def rw_bufs_def base_ok_def word_le_nat_alt intro!: wp_bind wp_be16 wp_Some idle_good)
  next
    case (Rw_ee_update_nlen n)
    have "base_ok (s \<lparr> r4_nlen_size := 2 \<rparr>)" using b by (simp add: base_ok_def)
    then show ?thesis using Rw_ee_update_nlen assms(2)
      by (auto simp: RW_T4tNfceeUpdateNlen_def rw_bufs_def intro!: wp_map wp_update_nlen status_good)
  next
    case Rw_ee_read_more
    then show ?thesis using assms(2) b
      by (auto simp: RW_T4tNfceeReadPendingData_def Let_def rw_bufs_def intro!: wp_map nfcee_read_good)
  next
    case (Rw_ee_start_update n d)
    then show ?thesis using assms(2) b
      by (auto simp: RW_T4tNfceeStartUpdateFile_def rw_bufs_def unat_ucast_u16_u32 intro!: wp_map nfcee_update_good)
  next
    case (Rw_ee_select_file f)
    then show ?thesis using assms(2) b
      by (auto simp: RW_T4tNfceeSelectFile_def rw_bufs_def rw_t4t_select_file_def intro!: wp_map nfcee_cmd_good)
  next
    case Rw_ee_update
    then show ?thesis using assms(2) b by (auto simp: rw_bufs_def intro!: wp_map nfcee_update_good)
  qed (use assms reqs ee activated_good [OF a] presence_req_good [OF assms(1,3) refl] event_good [OF b g] ee_init_good [OF b] in \<open>auto simp: rw_bufs_def
      RW_T4tNfceeReadDataLen_def RW_T4tNfceeReadFile_def intro!: wp_map wp_Some\<close>)
qed

text \<open>While a procedure is under way, requests are refused, so the invariant does not need the timer.\<close>

lemma rw_ok_simps [simp]:
  "rw_ok (rw_evt ev s) = rw_ok s" "rw_ok (s \<lparr> r4_timer := b \<rparr>) = rw_ok s" "rw_ok (s \<lparr> r4_alloc := x, r4_link := y \<rparr>) = rw_ok s"
  "rw_owned (s \<lparr> r4_alloc := x, r4_link := y \<rparr>) = rw_owned s"
  by (simp_all add: rw_ok_def base_ok_def phase_ok_def read_cmd_ok_def rw_evt_def rw_owned_def)

lemma rw_step_busy:
  assumes "rw_ok s" "rw_input_ok x s" "t4t_busy (r4_state s)"
  shows "wp (rw_step x s) (\<lambda>s'. rw_ok s' \<and> rw_owned s' = rw_owned s + rw_bufs x)"
proof -
  have b: "base_ok s" "length (r4_aid s) \<le> 255" "r4_cback s" using assms(1) by (auto simp: rw_ok_def base_ok_def)
  have g: "wp m (good k) \<Longrightarrow> wp m (\<lambda>s'. rw_ok s' \<and> rw_owned s' = k)" for m k by (auto simp: good_def elim!: wp_call)
  have n: "r4_state s \<noteq> T4T_IDLE" "r4_state s \<noteq> T4T_NOT_ACTIVATED" using assms(3) by (auto simp: t4t_busy_def)
  have i: "rw_ok s'" if "good (rw_owned s) s'" for s' using that by (simp add: good_def)
  show ?thesis
  proof (cases x)
    case (Rw_event ev)
    show ?thesis
    proof (cases "ev = RW_OTHER_CEVT")
      case True
      then show ?thesis using Rw_event assms(1) by (simp add: rw_t4t_data_cback_def wp_def rw_bufs_def)
    next
      case False
      then show ?thesis using g [OF data_cback_good [OF assms(1) refl, of ev]] assms(2) Rw_event by (simp add: rw_bufs_def)
    qed
  next
    case Rw_ee_init
    then show ?thesis using ee_init_good [OF b(1)] by (auto simp: rw_bufs_def intro!: g [OF wp_Some])
  next
    case (Rw_timeout ev)
    then show ?thesis using assms(1) error_good [OF b(1) refl] by (auto simp: rw_t4t_process_timeout_def rw_bufs_def wp_def good_def)
  next
    case (Rw_nak_rsp st ntf)
    then show ?thesis using assms(1) b by (auto simp: rw_t4t_handle_isodep_nak_rsp_def Let_def rw_bufs_def wp_def intro!: i idle_good)
  next
    case Rw_nak_fallback
    then show ?thesis using b by (auto simp: rw_t4t_handle_isodep_nak_fallback_def rw_bufs_def intro!: g [OF wp_Some] idle_good)
  next
    case Rw_activate
    then show ?thesis using activated_good [OF b(2)] by (auto simp: rw_bufs_def wp_def good_def)
  qed (use assms n b in \<open>auto simp: rw_bufs_def wp_def RW_T4tDetectNDef_def RW_T4tReadNDef_def RW_T4tUpdateNDef_def RW_T4tSetNDefReadOnly_def RW_T4tFormatNDef_def
      RW_T4tPresenceCheck_def\<close>)
qed

lemma rw_step_ok:
  assumes "rw_ok s" "rw_input_ok x s"
  shows "wp (rw_step x s) (\<lambda>s'. rw_ok s' \<and> rw_owned s' = rw_owned s + rw_bufs x \<and> (t4t_live s \<and> rw_quiet x \<longrightarrow> t4t_live s'))"
proof (cases "t4t_live s \<and> rw_quiet x")
  case True
  then show ?thesis using rw_step_good [OF assms] by (auto simp: good_def elim!: wp_call)
next
  case False
  show ?thesis
  proof (cases "t4t_busy (r4_state s)")
    case True
    then show ?thesis using rw_step_busy [OF assms] False by (auto elim!: wp_call)
  next
    case nb: False
    then have l: "t4t_live s" by (simp add: t4t_live_def)
    then have "x = Rw_event RW_OTHER_CEVT \<or> (\<exists>a l. x = Rw_lower a l)" using False by (cases x rule: rw_quiet.cases) auto
    then show ?thesis using assms(1) False by (auto simp: rw_t4t_data_cback_def rw_bufs_def wp_def)
  qed
qed

lemma rw_reach_ok: "rw_reach q s \<Longrightarrow> rw_ok s \<and> (q \<longrightarrow> t4t_live s)"
proof (induction rule: rw_reach.induct)
  case (init s)
  then show ?case using activated_good by (auto simp: good_def)
next
  case (step s x s')
  then show ?case using wpD [OF rw_step_ok [of s x]] by blast
qed

section \<open>Properties\<close>



section \<open>An example reader\<close>

text \<open>A reader whose tag was just activated, and one that waits for the answer to its first command.\<close>

definition ex_reader :: rw_t4t where
  "ex_reader = t4t_activated \<lparr> r4_state = T4T_NOT_ACTIVATED, r4_sub = WAIT_SELECT_APP, r4_version = 0, r4_timer = False, r4_ndef_length = 0,
     r4_update_data = None, r4_rw_length = 0, r4_rw_offset = 0, r4_retry = None, r4_cclen = 0, r4_cc_version = 0, r4_max_le = 0, r4_max_lc = 0,
     r4_file_id = 0, r4_max_file_size = 0, r4_read_access = 0, r4_write_access = 0, r4_nlen_size = 0, r4_ndef_status = 0, r4_channel = 0,
     r4_max_read = 0, r4_max_update = 0, r4_card_size = 0, r4_card_type = 0, r4_intl = 0, r4_cback = False, r4_rf_cback = False,
     r4_alloc = True, r4_link = True, r4_nak = True, r4_dta = False, r4_nfcee = False, r4_aid = [], r4_sent = [], r4_events = [], r4_freed = 0 \<rparr>"

definition ex_detecting :: rw_t4t where
  "ex_detecting = the (rw_step Rw_detect ex_reader)"

text \<open>A reader that has detected a file of ten bytes with a message of eight, on a tag that takes reads and updates in short pieces.\<close>

definition ex_detected :: "u16 \<Rightarrow> u16 \<Rightarrow> rw_t4t" where
  "ex_detected rd wr = ex_reader \<lparr> r4_ndef_status := NDEF_DETECTED, r4_cc_version := 0x20, r4_nlen_size := 2, r4_max_file_size := 10, r4_ndef_length := 8,
     r4_max_read := rd, r4_max_update := wr \<rparr>"

lemma ex_reader_reach: "rw_reach q ex_reader"
  unfolding ex_reader_def by (rule rw_reach.init) simp

lemma ex_detecting_step: "rw_step Rw_detect ex_reader = Some ex_detecting"
proof -
  have "rw_step Rw_detect ex_reader \<noteq> None" by code_simp
  then show ?thesis by (auto simp: ex_detecting_def simp del: rw_step.simps)
qed

lemma ex_detecting_reach: "rw_reach q ex_detecting"
  by (rule rw_reach.step [OF ex_reader_reach, of Rw_detect]) (simp_all add: ex_detecting_step del: rw_step.simps)



end
