(* ===== verification/RwT4tTag.thy ===== *)
theory RwT4tTag
  imports RwT4tReach CeT4tReach
begin

unbundle bit_operations_syntax

text \<open>
  The reader and a tag in conversation. The interface between them is the behaviour of a selected NDEF file under read and update commands; it is
  what the reader relies on and what the Type 4 Tag emulation of the same stack provides.
\<close>

section \<open>The conversation\<close>

text \<open>A response as the reader receives it, in a larger buffer.\<close>

definition rsp_hdr :: "mem \<Rightarrow> nfc_hdr" where
  "rsp_hdr fr = \<lparr> h_event = 0, h_len = of_nat (length fr), h_offset = 0, h_layer = 0, h_data = fr @ replicate 4 0 \<rparr>"

text \<open>One exchange: the tag answers the last command, and the reader gets the answer.\<close>

definition t4t_exchange :: "(mem \<Rightarrow> 't \<Rightarrow> (mem \<times> 't) option) \<Rightarrow> rw_t4t \<times> 't \<Rightarrow> (rw_t4t \<times> 't) option" where
  "t4t_exchange answer x = (case x of (r, t) \<Rightarrow> do {
     (fr, t) \<leftarrow> answer (last (r4_sent r)) t;
     r \<leftarrow> rw_t4t_data_cback (RW_DATA_CEVT NCI_STATUS_OK (rsp_hdr fr)) r;
     Some (r, t) })"

fun t4t_talk :: "(mem \<Rightarrow> 't \<Rightarrow> (mem \<times> 't) option) \<Rightarrow> nat \<Rightarrow> rw_t4t \<times> 't \<Rightarrow> (rw_t4t \<times> 't) option" where
  "t4t_talk answer 0 x = Some x"
| "t4t_talk answer (Suc n) x = do { x \<leftarrow> t4t_exchange answer x; t4t_talk answer n x }"

lemma talk_step:
  assumes "answer (last (r4_sent r)) t = Some (fr, t1)" "rw_t4t_data_cback (RW_DATA_CEVT NCI_STATUS_OK (rsp_hdr fr)) r = Some r1"
  shows "t4t_talk answer (Suc n) (r, t) = t4t_talk answer n (r1, t1)"
  using assms by (simp add: t4t_exchange_def)

lemma rsp_hdr_offset [simp]: "h_offset (rsp_hdr fr) = 0"
  by (simp add: rsp_hdr_def)

lemma rsp_hdr_sw:
  assumes "length fr < 65000"
  shows "rsp_sw (rsp_hdr (fr @ [a, b])) = Some (a, b)" "h_len (rsp_hdr (fr @ [a, b])) - 2 = of_nat (length fr)" "\<not> h_len (rsp_hdr (fr @ [a, b])) < 2"
    "rd_bytes (h_data (rsp_hdr (fr @ [a, b]))) 0 (length fr) = Some fr"
proof -
  have l: "unat (h_len (rsp_hdr (fr @ [a, b]))) = length fr + 2" unfolding rsp_hdr_def using assms by (simp add: unat_of_nat del: of_nat_add of_nat_Suc)
  have d: "h_data (rsp_hdr (fr @ [a, b])) = fr @ [a, b] @ replicate 4 0" "h_offset (rsp_hdr (fr @ [a, b])) = 0" by (simp_all add: rsp_hdr_def)
  show "rsp_sw (rsp_hdr (fr @ [a, b])) = Some (a, b)" using l d by (simp add: rsp_sw_def Let_def rd8_in nth_append)
  show "h_len (rsp_hdr (fr @ [a, b])) - 2 = of_nat (length fr)" by (simp add: rsp_hdr_def)
  show "\<not> h_len (rsp_hdr (fr @ [a, b])) < 2" using l by (simp add: word_less_nat_alt)
  show "rd_bytes (h_data (rsp_hdr (fr @ [a, b]))) 0 (length fr) = Some fr" by (simp add: rsp_hdr_def rd_bytes_in)
qed

section \<open>The reader's side\<close>

text \<open>A reader that has detected an NDEF file with a length field of two bytes, and one that reads it with short lengths.\<close>

definition rw_ready :: "rw_t4t \<Rightarrow> bool" where
  "rw_ready r \<longleftrightarrow> r4_cback r \<and> r4_alloc r \<and> r4_link r \<and> r4_channel r = 0 \<and> r4_nlen_size r = 2 \<and> r4_ndef_status r AND NDEF_DETECTED \<noteq> 0 \<and>
    0 < r4_max_update r"

definition rw_short :: "rw_t4t \<Rightarrow> bool" where
  "rw_short r \<longleftrightarrow> rw_ready r \<and> r4_intl r AND EXT_FIELD_CODING = 0 \<and> r4_intl r AND DDO_LC_FIELD_CODING = 0 \<and> 0 < r4_max_read r \<and> r4_max_read r \<le> 256"

text \<open>What the procedures keep of the control block.\<close>

definition rw_same :: "rw_t4t \<Rightarrow> rw_t4t \<Rightarrow> bool" where
  "rw_same r r' \<longleftrightarrow> r4_cback r' = r4_cback r \<and> r4_alloc r' = r4_alloc r \<and> r4_link r' = r4_link r \<and> r4_channel r' = r4_channel r \<and>
    r4_nlen_size r' = r4_nlen_size r \<and> r4_ndef_status r' = r4_ndef_status r \<and> r4_intl r' = r4_intl r \<and> r4_max_read r' = r4_max_read r \<and>
    r4_max_update r' = r4_max_update r \<and> r4_max_file_size r' = r4_max_file_size r \<and> r4_ndef_length r' = r4_ndef_length r"

lemma rw_same_ready:
  assumes "rw_same r r'"
  shows "rw_ready r \<Longrightarrow> rw_ready r'" "rw_short r \<Longrightarrow> rw_short r'"
  using assms by (simp_all add: rw_same_def rw_ready_def rw_short_def)

lemma rw_same_trans: "rw_same r r' \<Longrightarrow> rw_same r' r'' \<Longrightarrow> rw_same r r''"
  by (simp add: rw_same_def)

definition read_step :: "rw_t4t \<Rightarrow> nat" where "read_step r = min (unat (r4_max_read r)) 255"
definition update_step :: "rw_t4t \<Rightarrow> nat" where "update_step r = min (unat (r4_max_update r)) 255"

text \<open>The reader waits for \<open>n\<close> bytes from offset \<open>off\<close> on.\<close>

definition reading :: "nat \<Rightarrow> nat \<Rightarrow> rw_t4t \<Rightarrow> bool" where
  "reading off n r \<longleftrightarrow> rw_short r \<and> r4_state r = T4T_READ_NDEF \<and> r4_sub r = WAIT_READ_RESP \<and> unat (r4_rw_offset r) = off \<and> unat (r4_rw_length r) = n \<and>
    0 < n \<and> off + n \<le> 0x7FFF \<and> last (r4_sent r) = READ_BINARY (of_nat off) (of_nat (min n (read_step r)))"

lemma read_file_short:
  assumes "rw_short r" "unat off + unat n \<le> 0x7FFF" "0 < n" "c \<Longrightarrow> r4_rw_offset r = off \<and> r4_rw_length r = n"
  shows "\<exists>r'. rw_t4t_read_file off n c r = Some (True, r') \<and> rw_same r r' \<and> r4_rw_offset r' = off \<and> r4_rw_length r' = n \<and> r4_events r' = r4_events r \<and>
    r4_state r' = r4_state r \<and> r4_sub r' = r4_sub r \<and> last (r4_sent r') = READ_BINARY (of_nat (unat off)) (of_nat (min (unat n) (read_step r)))"
proof -
  define l :: u32 where "l = (if ucast (r4_max_read r) < n then ucast (r4_max_read r) else n)"
  have m: "unat (r4_max_read r) \<le> 256" "0 < unat (r4_max_read r)" using assms(1) by (simp_all add: rw_short_def rw_ready_def word_le_nat_alt word_less_nat_alt)
  have l: "unat l = min (unat n) (unat (r4_max_read r))" by (simp add: l_def word_less_nat_alt unat_ucast_u16_u32)
  have le: "(ucast (if l = 256 then 255 else l) :: u8) = of_nat (min (unat n) (read_step r))"
  proof (cases "l = 256")
    case True
    then have "min (unat n) (read_step r) = 255" using l m by (simp add: read_step_def)
    then show ?thesis using True by simp
  next
    case False
    then have "unat l \<noteq> 256" using word_eq_iff_unsigned [of l 256, where 'a = nat] by simp
    then have "min (unat n) (read_step r) = unat l" using l m by (simp add: read_step_def)
    then show ?thesis using False by (simp add: of_nat_unat)
  qed
  have o: "\<not> 0x7FFF < off + n" using assms(2) by (simp add: word_less_nat_alt unat_word_ariths)
  define r0 where "r0 = (if \<not> c then r \<lparr> r4_rw_offset := off, r4_rw_length := n \<rparr> else r)"
  have r0: "r4_rw_offset r0 = off" "r4_rw_length r0 = n" "rw_same r r0" "rw_short r0" "r4_max_read r0 = r4_max_read r" "r4_events r0 = r4_events r"
    "r4_state r0 = r4_state r" "r4_sub r0 = r4_sub r"
    using assms(1,4) by (cases c; simp add: r0_def rw_same_def rw_short_def rw_ready_def)+
  have "rw_t4t_read_file off n c r = t4t_cmd ([0, 0xB0] @ be16_bytes (ucast off) @ [ucast (if l = 256 then 255 else l)]) r0"
    unfolding rw_t4t_read_file_def Let_def r0_def [symmetric] r0(1,2,5) l_def [symmetric] using assms(1) o r0(4) by (simp add: rw_short_def rw_ready_def)
  then show ?thesis
    unfolding le using r0 by (simp add: rw_short_def rw_ready_def t4t_cmd_def rw_t4t_send_to_lower_def Let_def be16_bytes_def READ_BINARY_def rw_same_def)
qed

text \<open>The answer to a read command: a segment is delivered, and the next one requested or the procedure ended.\<close>

lemma read_rsp:
  assumes "reading off n r" "length seg = min n (read_step r)"
  shows "\<exists>r'. rw_t4t_data_cback (RW_DATA_CEVT NCI_STATUS_OK (rsp_hdr (seg @ [0x90, 0x00]))) r = Some r' \<and> rw_same r r' \<and>
    (if n \<le> read_step r then r4_state r' = T4T_IDLE \<and> r4_events r' = r4_events r @ [RW_T4T_NDEF_READ_CPLT seg]
     else reading (off + length seg) (n - length seg) r' \<and> r4_events r' = r4_events r @ [RW_T4T_NDEF_READ seg])"
proof -
  have m: "0 < read_step r" "read_step r \<le> 255" using assms(1) by (simp_all add: reading_def rw_short_def rw_ready_def read_step_def word_less_nat_alt)
  have ready: "rw_short r" and st: "r4_state r = T4T_READ_NDEF" "r4_sub r = WAIT_READ_RESP" and len: "unat (r4_rw_length r) = n" "unat (r4_rw_offset r) = off"
    "0 < n" "off + n \<le> 0x7FFF" using assms(1) by (simp_all add: reading_def)
  have ls: "length seg < 256" "0 < length seg" "length seg \<le> n" using assms(2) m len by auto
  define w :: u16 where "w = of_nat (length seg)"
  have w: "unat w = length seg" "0 < w" "(ucast w :: u32) \<le> r4_rw_length r" "unat (ucast w :: u32) = length seg"
    using ls len by (simp_all add: w_def unat_of_nat word_less_nat_alt word_le_nat_alt unat_ucast_u16_u32)
  define r1 where "r1 = r \<lparr> r4_timer := False, r4_rw_length := r4_rw_length r - ucast w, r4_rw_offset := r4_rw_offset r + ucast w \<rparr>"
  have n1: "unat (r4_rw_length r - ucast w) = n - length seg" "unat (r4_rw_offset r + ucast w) = off + length seg"
    using w(3,4) len ls by (simp_all add: unat_sub unat_word_ariths)
  have run: "rw_t4t_data_cback (RW_DATA_CEVT NCI_STATUS_OK (rsp_hdr (seg @ [0x90, 0x00]))) r = read_deliver seg r1"
    using rsp_hdr_sw [of seg "0x90" 0] ls(1) st ready w
    by (simp add: rw_t4t_data_cback_def t4t_data_cevt_def rw_t4t_sm_read_ndef_def be16_val_def Let_def rw_short_def rw_ready_def w_def [symmetric] read_count_def r1_def)
  show ?thesis
  proof (cases "n \<le> read_step r")
    case True
    then have "r4_rw_length r1 = 0" using n1(1) assms(2) by (simp add: r1_def unat_eq_zero)
    then show ?thesis using True run ready by (simp add: read_deliver_def r1_def rw_evt_def rw_short_def rw_ready_def rw_same_def)
  next
    case False
    let ?r = "rw_evt (RW_T4T_NDEF_READ seg) r1"
    have same: "rw_same r ?r" by (simp add: rw_same_def r1_def rw_evt_def)
    have rr: "rw_short ?r" using rw_same_ready(2) [OF same ready] .
    have st': "read_step ?r = read_step r" by (simp add: read_step_def r1_def rw_evt_def)
    have pos: "0 < r4_rw_length r1" using n1(1) False assms(2) by (simp add: r1_def word_less_nat_alt)
    obtain r' where r': "rw_t4t_read_file (r4_rw_offset r1) (r4_rw_length r1) True ?r = Some (True, r')" "rw_same ?r r'" "r4_rw_offset r' = r4_rw_offset r1"
      "r4_rw_length r' = r4_rw_length r1" "r4_events r' = r4_events ?r" "r4_state r' = r4_state ?r" "r4_sub r' = r4_sub ?r"
      "last (r4_sent r') = READ_BINARY (of_nat (unat (r4_rw_offset r1))) (of_nat (min (unat (r4_rw_length r1)) (read_step r)))"
      using read_file_short [OF rr, of "r4_rw_offset r1" "r4_rw_length r1" True] pos n1 len ls st' by (auto simp: r1_def rw_evt_def)
    have rs: "rw_short r'" "read_step r' = read_step r" using rw_same_ready(2) [OF r'(2) rr] r'(2) st' by (simp_all add: rw_same_def read_step_def)
    have "reading (off + length seg) (n - length seg) r'"
      using rs r' n1 len ls st False assms(2) by (auto simp: reading_def r1_def rw_evt_def)
    moreover have "rw_same r r'" using rw_same_trans [OF same r'(2)] .
    ultimately show ?thesis using False run r'(1,5) pos ready
      by (simp add: read_deliver_def t4t_or_fail_def rw_short_def rw_ready_def r1_def rw_evt_def)
  qed
qed

text \<open>The reader has \<open>d\<close> still to write, from offset \<open>off\<close> on.\<close>

definition writing :: "nat \<Rightarrow> mem \<Rightarrow> rw_t4t \<Rightarrow> bool" where
  "writing off d r \<longleftrightarrow> rw_ready r \<and> r4_state r = T4T_UPDATE_NDEF \<and> r4_sub r = WAIT_UPDATE_RESP \<and> unat (r4_rw_offset r) = off \<and>
    unat (r4_rw_length r) = length d \<and> r4_update_data r = Some d \<and> off + length d \<le> 0x7FFF"

lemma update_file_short:
  assumes "rw_ready r" "r4_update_data r = Some d" "unat (r4_rw_length r) = length d" "d \<noteq> []" "unat (r4_rw_offset r) + length d \<le> 0x7FFF"
    "r4_state r = T4T_UPDATE_NDEF" "r4_sub r = WAIT_UPDATE_RESP" "k = min (length d) (update_step r)"
  shows "\<exists>r'. rw_t4t_update_file r = Some (True, r') \<and> rw_same r r' \<and> writing (unat (r4_rw_offset r) + k) (drop k d) r' \<and> r4_events r' = r4_events r \<and>
    last (r4_sent r') = UPDATE_BINARY (of_nat (unat (r4_rw_offset r))) (take k d)"
proof -
  define l :: u32 where "l = (if ucast (r4_max_update r) < r4_rw_length r then ucast (r4_max_update r) else r4_rw_length r)"
  define k' :: u32 where "k' = (if 0xFF < l then 0xFF else l)"
  have nz: "r4_rw_length r \<noteq> 0" using assms(3,4) by (metis length_0_conv unat_0)
  have l: "unat l = min (length d) (unat (r4_max_update r))" using assms(3) by (simp add: l_def word_less_nat_alt unat_ucast_u16_u32)
  have k: "unat k' = k" using l assms(8) by (auto simp: k'_def word_less_nat_alt update_step_def)
  have kd: "k \<le> length d" "k \<le> 255" using assms(8) by (simp_all add: update_step_def)
  have kw: "(ucast k' :: u8) = of_nat k" using k by (metis of_nat_unat)
  have o: "\<not> 0x7FFF < r4_rw_offset r + r4_rw_length r" using assms(3,5) by (simp add: word_less_nat_alt unat_word_ariths)
  have rd: "rd_bytes d 0 k = Some (take k d)" using kd by (simp add: rd_bytes_def)
  have n1: "unat (r4_rw_length r - k') = length d - k" "unat (r4_rw_offset r + k') = unat (r4_rw_offset r) + k"
    using k kd assms(3,5) by (simp_all add: unat_sub word_le_nat_alt unat_word_ariths)
  have ub: "[0x00, 0xD6] @ be16_bytes (ucast (r4_rw_offset r)) @ [ucast k'] @ take k d = UPDATE_BINARY (of_nat (unat (r4_rw_offset r))) (take k d)"
    using kd kw by (simp add: UPDATE_BINARY_def min_absorb2)
  have lu: "length (UPDATE_BINARY (of_nat (unat (r4_rw_offset r))) (take k d)) \<le> 260" using kd by (simp add: UPDATE_BINARY_def)
  have "rw_t4t_update_file r = do {
      (ok, s) \<leftarrow> t4t_cmd (UPDATE_BINARY (of_nat (unat (r4_rw_offset r))) (take k d)) r;
      if \<not> ok then Some (False, s)
      else Some (True, s \<lparr> r4_rw_offset := r4_rw_offset s + k', r4_rw_length := r4_rw_length s - k', r4_update_data := Some (drop (unat k') d) \<rparr>) }"
    unfolding rw_t4t_update_file_def Let_def l_def [symmetric] k'_def [symmetric] using assms(1,2) nz o rd k ub by (simp add: rw_ready_def)
  then show ?thesis
    using assms(1,5-7) lu n1 k kd by (simp add: rw_ready_def t4t_cmd_def rw_t4t_send_to_lower_def Let_def rw_same_def writing_def)
qed

lemma rsp_ok:
  "rsp_sw (rsp_hdr [0x90, 0x00]) = Some (0x90, 0x00)" "h_len (rsp_hdr [0x90, 0x00]) = 2"
  using rsp_hdr_sw(1) [of "[]" "0x90" 0] by (simp_all add: rsp_hdr_def)

lemma update_nlen_short:
  assumes "rw_ready r"
  shows "\<exists>r'. rw_t4t_update_nlen n r = Some (True, r') \<and> rw_same r r' \<and> r4_events r' = r4_events r \<and> r4_state r' = r4_state r \<and> r4_sub r' = r4_sub r \<and>
    r4_update_data r' = r4_update_data r \<and> r4_rw_offset r' = r4_rw_offset r \<and> r4_rw_length r' = r4_rw_length r \<and>
    last (r4_sent r') = UPDATE_BINARY 0 (be16_bytes (ucast n))"
  using assms by (simp add: rw_t4t_update_nlen_def Let_def rw_ready_def t4t_cmd_def rw_t4t_send_to_lower_def be16_bytes_def UPDATE_BINARY_def rw_same_def)

lemma update_rsp_more:
  assumes "writing off d r" "d \<noteq> []" "k = min (length d) (update_step r)"
  shows "\<exists>r'. rw_t4t_data_cback (RW_DATA_CEVT NCI_STATUS_OK (rsp_hdr [0x90, 0x00])) r = Some r' \<and> rw_same r r' \<and> writing (off + k) (drop k d) r' \<and>
    r4_events r' = r4_events r \<and> last (r4_sent r') = UPDATE_BINARY (of_nat off) (take k d)"
proof -
  let ?r = "r \<lparr> r4_timer := False \<rparr>"
  have w: "rw_ready r" "r4_state r = T4T_UPDATE_NDEF" "r4_sub r = WAIT_UPDATE_RESP" "unat (r4_rw_offset r) = off" "unat (r4_rw_length r) = length d"
    "r4_update_data r = Some d" "off + length d \<le> 0x7FFF" using assms(1) by (simp_all add: writing_def)
  have s: "rw_same r ?r" by (simp add: rw_same_def)
  have pos: "0 < r4_rw_length r" using w(5) assms(2) by (simp add: word_less_nat_alt)
  obtain r' where "rw_t4t_update_file ?r = Some (True, r')" "rw_same ?r r'" "writing (off + k) (drop k d) r'" "r4_events r' = r4_events r"
    "last (r4_sent r') = UPDATE_BINARY (of_nat off) (take k d)"
    using update_file_short [of ?r d k] w assms(2,3) rw_same_ready(1) [OF s w(1)] by (auto simp: update_step_def)
  then show ?thesis using w pos rw_same_trans [OF s, of r']
    by (simp add: rw_t4t_data_cback_def t4t_data_cevt_def rw_t4t_sm_update_ndef_def rsp_ok be16_val_def t4t_or_fail_data_def r4_free_def rw_same_def writing_def rw_ready_def)
qed

text \<open>The start of an update is the answer to the command that clears the length field, its end the answer to the command that writes it.\<close>

definition nlen_sent :: "rw_t4t \<Rightarrow> bool" where
  "nlen_sent r \<longleftrightarrow> rw_ready r \<and> r4_state r = T4T_UPDATE_NDEF \<and> r4_sub r = WAIT_UPDATE_NLEN"

lemmas update_rsp_defs = rw_t4t_data_cback_def t4t_data_cevt_def rw_t4t_sm_update_ndef_def rsp_ok be16_val_def

lemma update_rsp_first:
  assumes "nlen_sent r" "r4_update_data r = Some d" "unat (r4_rw_length r) = length d" "d \<noteq> []" "unat (r4_rw_offset r) + length d \<le> 0x7FFF"
    "k = min (length d) (update_step r)"
  shows "\<exists>r'. rw_t4t_data_cback (RW_DATA_CEVT NCI_STATUS_OK (rsp_hdr [0x90, 0x00])) r = Some r' \<and> rw_same r r' \<and> r4_events r' = r4_events r \<and>
    writing (unat (r4_rw_offset r) + k) (drop k d) r' \<and> last (r4_sent r') = UPDATE_BINARY (of_nat (unat (r4_rw_offset r))) (take k d)"
proof -
  let ?r = "r \<lparr> r4_timer := False, r4_sub := WAIT_UPDATE_RESP \<rparr>"
  have s: "rw_same r ?r" by (simp add: rw_same_def)
  have n: "rw_ready r" "r4_state r = T4T_UPDATE_NDEF" "r4_sub r = WAIT_UPDATE_NLEN" using assms(1) by (simp_all add: nlen_sent_def)
  obtain r' where "rw_t4t_update_file ?r = Some (True, r')" "rw_same ?r r'" "writing (unat (r4_rw_offset r) + k) (drop k d) r'" "r4_events r' = r4_events r"
    "last (r4_sent r') = UPDATE_BINARY (of_nat (unat (r4_rw_offset r))) (take k d)"
    using update_file_short [of ?r d k] n assms(2-6) rw_same_ready(1) [OF s n(1)] by (auto simp: update_step_def)
  then show ?thesis using n assms(2) rw_same_trans [OF s, of r']
    by (simp add: update_rsp_defs t4t_or_fail_data_def r4_free_def rw_same_def writing_def rw_ready_def)
qed

lemma update_rsp_last:
  assumes "writing off [] r"
  shows "\<exists>r'. rw_t4t_data_cback (RW_DATA_CEVT NCI_STATUS_OK (rsp_hdr [0x90, 0x00])) r = Some r' \<and> rw_same r r' \<and> nlen_sent r' \<and> r4_update_data r' = None \<and>
    r4_events r' = r4_events r \<and> last (r4_sent r') = UPDATE_BINARY 0 (be16_bytes (ucast (r4_ndef_length r)))"
proof -
  let ?r = "r \<lparr> r4_timer := False, r4_update_data := None \<rparr>"
  have w: "rw_ready r" "r4_state r = T4T_UPDATE_NDEF" "r4_sub r = WAIT_UPDATE_RESP" "r4_rw_length r = 0"
    using assms by (simp_all add: writing_def unat_eq_zero)
  have s: "rw_same r ?r" by (simp add: rw_same_def)
  obtain r' where "rw_t4t_update_nlen (r4_ndef_length r) ?r = Some (True, r')" "rw_same ?r r'" "r4_events r' = r4_events r" "r4_state r' = T4T_UPDATE_NDEF"
    "r4_update_data r' = None" "last (r4_sent r') = UPDATE_BINARY 0 (be16_bytes (ucast (r4_ndef_length r)))"
    using update_nlen_short [OF rw_same_ready(1) [OF s w(1)], of "r4_ndef_length r"] w by auto
  then show ?thesis using w rw_same_trans [OF s, of r'] rw_same_ready(1) [OF _ w(1), of r']
    by (simp add: update_rsp_defs Let_def t4t_next_def r4_free_def rw_same_def nlen_sent_def rw_ready_def)
qed

lemma update_rsp_end:
  assumes "nlen_sent r" "r4_update_data r = None"
  shows "\<exists>r'. rw_t4t_data_cback (RW_DATA_CEVT NCI_STATUS_OK (rsp_hdr [0x90, 0x00])) r = Some r' \<and> rw_same r r' \<and> r4_state r' = T4T_IDLE \<and>
    r4_events r' = r4_events r @ [RW_T4T_NDEF_UPDATE_CPLT NCI_STATUS_OK]"
  using assms by (simp add: update_rsp_defs Let_def r4_free_def rw_evt_def rw_same_def nlen_sent_def rw_ready_def)

section \<open>The interface\<close>

text \<open>A tag with its NDEF file selected: reads return the bytes of the file and updates overwrite them.\<close>

locale t4t_tag =
  fixes answer :: "mem \<Rightarrow> 't \<Rightarrow> (mem \<times> 't) option" and tag_file :: "'t \<Rightarrow> mem" and selected :: "'t \<Rightarrow> bool" and writable :: "'t \<Rightarrow> bool"
  assumes tag_read: "selected t \<Longrightarrow> unat off < length (tag_file t) \<Longrightarrow> 0 < le \<Longrightarrow>
      \<exists>t'. answer (READ_BINARY off le) t = Some (take (unat le) (drop (unat off) (tag_file t)) @ [0x90, 0x00], t') \<and> selected t' \<and>
        writable t' = writable t \<and> tag_file t' = tag_file t"
    and tag_update: "selected t \<Longrightarrow> writable t \<Longrightarrow> d \<noteq> [] \<Longrightarrow> length d < 256 \<Longrightarrow> unat off + length d \<le> length (tag_file t) \<Longrightarrow>
      \<exists>t'. answer (UPDATE_BINARY off d) t = Some ([0x90, 0x00], t') \<and> selected t' \<and> writable t' \<and> tag_file t' = overlay (unat off) d (tag_file t)"
begin

lemma read_loop:
  assumes "reading off n r" "selected t" "off + n \<le> length (tag_file t)"
  shows "\<exists>k segs r' t'. t4t_talk answer k (r, t) = Some (r', t') \<and> rw_same r r' \<and> r4_state r' = T4T_IDLE \<and> selected t' \<and> writable t' = writable t \<and>
    tag_file t' = tag_file t \<and> segs \<noteq> [] \<and> concat segs = take n (drop off (tag_file t)) \<and>
    r4_events r' = r4_events r @ map RW_T4T_NDEF_READ (butlast segs) @ [RW_T4T_NDEF_READ_CPLT (last segs)]"
  using assms
proof (induction n arbitrary: off r t rule: less_induct)
  case (less n)
  let ?k = "min n (read_step r)"
  have b: "0 < n" "off + n \<le> 0x7FFF" "last (r4_sent r) = READ_BINARY (of_nat off) (of_nat ?k)" using less.prems(1) by (simp_all add: reading_def)
  have k: "0 < ?k" "?k < 256" using less.prems(1) by (auto simp: reading_def rw_short_def rw_ready_def read_step_def word_less_nat_alt)
  have u: "unat (of_nat off :: u16) = off" "unat (of_nat ?k :: u8) = ?k" using b(2) k(2) by (simp_all add: unat_of_nat)
  have "(0 :: u8) < of_nat ?k" "unat (of_nat off :: u16) < length (tag_file t)" unfolding word_less_nat_alt u using k(1) b(1) less.prems(3) by auto
  from tag_read [OF less.prems(2) this(2,1)] obtain t1 where
    t1: "answer (last (r4_sent r)) t = Some (take ?k (drop off (tag_file t)) @ [0x90, 0x00], t1)" "selected t1" "writable t1 = writable t" "tag_file t1 = tag_file t"
    unfolding b(3) u by blast
  let ?seg = "take ?k (drop off (tag_file t))"
  have ls: "length ?seg = ?k" using less.prems(3) by simp
  obtain r1 where r1: "rw_t4t_data_cback (RW_DATA_CEVT NCI_STATUS_OK (rsp_hdr (?seg @ [0x90, 0x00]))) r = Some r1" "rw_same r r1"
    "if n \<le> read_step r then r4_state r1 = T4T_IDLE \<and> r4_events r1 = r4_events r @ [RW_T4T_NDEF_READ_CPLT ?seg]
     else reading (off + ?k) (n - ?k) r1 \<and> r4_events r1 = r4_events r @ [RW_T4T_NDEF_READ ?seg]"
    using read_rsp [OF less.prems(1) ls] unfolding ls by blast
  note step = talk_step [where answer = answer, OF t1(1) r1(1)]
  show ?case
  proof (cases "n \<le> read_step r")
    case True
    then have "t4t_talk answer (Suc 0) (r, t) = Some (r1, t1)" "concat [?seg] = take n (drop off (tag_file t))" using step by simp_all
    then show ?thesis using True r1 t1
      by (intro exI [of _ "Suc 0"] exI [of _ "[?seg]"] exI [of _ r1] exI [of _ t1]) simp
  next
    case False
    then have "n - ?k < n" "reading (off + ?k) (n - ?k) r1" "off + ?k + (n - ?k) \<le> length (tag_file t1)" using r1(3) k b less.prems(3) t1(4) by auto
    from less.IH [OF this(1,2) t1(2) this(3)] obtain j segs r' t' where
      ih: "t4t_talk answer j (r1, t1) = Some (r', t')" "rw_same r1 r'" "r4_state r' = T4T_IDLE" "selected t'" "writable t' = writable t1" "tag_file t' = tag_file t1"
        "segs \<noteq> []" "concat segs = take (n - ?k) (drop (off + ?k) (tag_file t1))"
        "r4_events r' = r4_events r1 @ map RW_T4T_NDEF_READ (butlast segs) @ [RW_T4T_NDEF_READ_CPLT (last segs)]" by blast
    have "concat (?seg # segs) = take n (drop off (tag_file t))"
      using ih(8) t1(4) take_add [of ?k "n - ?k" "drop off (tag_file t)"] by (simp add: add.commute)
    then show ?thesis using step [of j] ih r1 t1 False rw_same_trans [OF r1(2) ih(2)]
      by (intro exI [of _ "Suc j"] exI [of _ "?seg # segs"] exI [of _ r'] exI [of _ t']) simp
  qed
qed

text \<open>A chunk was sent and not yet answered; the rest follows, then the length.\<close>

lemma update_loop:
  assumes "writing (off + length c) d r" "last (r4_sent r) = UPDATE_BINARY (of_nat off) c" "c \<noteq> []" "length c < 256" "selected t" "writable t"
    "off + length (c @ d) \<le> length (tag_file t)" "2 \<le> off"
  shows "\<exists>k r' t'. t4t_talk answer k (r, t) = Some (r', t') \<and> rw_same r r' \<and> r4_state r' = T4T_IDLE \<and> selected t' \<and> writable t' \<and>
    tag_file t' = overlay 0 (be16_bytes (ucast (r4_ndef_length r))) (overlay off (c @ d) (tag_file t)) \<and>
    r4_events r' = r4_events r @ [RW_T4T_NDEF_UPDATE_CPLT NCI_STATUS_OK]"
  using assms
proof (induction "length d" arbitrary: off c d r t rule: less_induct)
  case less
  have u: "unat (of_nat off :: u16) = off" using less.prems(1) by (simp add: writing_def unat_of_nat)
  have fits: "unat (of_nat off :: u16) + length c \<le> length (tag_file t)" using less.prems(7) u by simp
  obtain t1 where t1: "answer (last (r4_sent r)) t = Some ([0x90, 0x00], t1)" "selected t1" "writable t1" "tag_file t1 = overlay off c (tag_file t)"
    using tag_update [OF less.prems(5,6,3,4) fits] unfolding less.prems(2) u by blast
  have l1: "length (tag_file t1) = length (tag_file t)" using t1(4) less.prems(7) by (simp add: overlay_length)
  show ?case
  proof (cases "d = []")
    case True
    obtain r1 where r1: "rw_t4t_data_cback (RW_DATA_CEVT NCI_STATUS_OK (rsp_hdr [0x90, 0x00])) r = Some r1" "rw_same r r1" "nlen_sent r1" "r4_update_data r1 = None"
      "r4_events r1 = r4_events r" "last (r4_sent r1) = UPDATE_BINARY 0 (be16_bytes (ucast (r4_ndef_length r)))"
      using update_rsp_last less.prems(1) True by blast
    obtain r2 where r2: "rw_t4t_data_cback (RW_DATA_CEVT NCI_STATUS_OK (rsp_hdr [0x90, 0x00])) r1 = Some r2" "rw_same r1 r2" "r4_state r2 = T4T_IDLE"
      "r4_events r2 = r4_events r1 @ [RW_T4T_NDEF_UPDATE_CPLT NCI_STATUS_OK]"
      using update_rsp_end [OF r1(3,4)] by blast
    let ?l = "be16_bytes (ucast (r4_ndef_length r) :: u16)"
    have "?l \<noteq> []" "length ?l < 256" "unat (0 :: u16) + length ?l \<le> length (tag_file t1)"
      using less.prems(3,7,8) l1 by (auto simp: be16_bytes_def)
    from tag_update [OF t1(2,3) this] obtain t2 where
      t2: "answer (last (r4_sent r1)) t1 = Some ([0x90, 0x00], t2)" "selected t2" "writable t2" "tag_file t2 = overlay 0 ?l (tag_file t1)"
      unfolding r1(6) by auto
    have "t4t_talk answer (Suc (Suc 0)) (r, t) = Some (r2, t2)"
      using talk_step [where answer = answer, OF t1(1) r1(1)] talk_step [where answer = answer, OF t2(1) r2(1)] by simp
    then show ?thesis using True t1(4) t2 r1(5) r2(3,4) rw_same_trans [OF r1(2) r2(2)]
      by (intro exI [of _ "Suc (Suc 0)"] exI [of _ r2] exI [of _ t2]) (simp del: t4t_talk.simps)
  next
    case False
    let ?k = "min (length d) (update_step r)"
    obtain r1 where r1: "rw_t4t_data_cback (RW_DATA_CEVT NCI_STATUS_OK (rsp_hdr [0x90, 0x00])) r = Some r1" "rw_same r r1"
      "writing (off + length c + ?k) (drop ?k d) r1" "r4_events r1 = r4_events r" "last (r4_sent r1) = UPDATE_BINARY (of_nat (off + length c)) (take ?k d)"
      using update_rsp_more [OF less.prems(1) False refl] by blast
    have pos: "0 < update_step r" "update_step r \<le> 255" using less.prems(1) by (simp_all add: writing_def rw_ready_def update_step_def word_less_nat_alt)
    have n: "r4_ndef_length r1 = r4_ndef_length r" using r1(2) by (simp add: rw_same_def)
    have "length (drop ?k d) < length d" "writing (off + length c + length (take ?k d)) (drop ?k d) r1" "take ?k d \<noteq> []" "length (take ?k d) < 256"
      "off + length c + length (take ?k d @ drop ?k d) \<le> length (tag_file t1)" "2 \<le> off + length c"
      using False pos r1(3) less.prems(7,8) l1 by (auto simp: min_absorb2)
    from less.hyps [OF this(1,2) r1(5) this(3,4) t1(2,3) this(5,6)] obtain k r' t' where
      ih: "t4t_talk answer k (r1, t1) = Some (r', t')" "rw_same r1 r'" "r4_state r' = T4T_IDLE" "selected t'" "writable t'"
        "tag_file t' = overlay 0 (be16_bytes (ucast (r4_ndef_length r1))) (overlay (off + length c) (take ?k d @ drop ?k d) (tag_file t1))"
        "r4_events r' = r4_events r1 @ [RW_T4T_NDEF_UPDATE_CPLT NCI_STATUS_OK]" by blast
    have "overlay (off + length c) d (tag_file t1) = overlay off (c @ d) (tag_file t)" using t1(4) less.prems(7) by (simp add: overlay_overlay)
    then show ?thesis using talk_step [where answer = answer, OF t1(1) r1(1), of k] ih r1(4) n rw_same_trans [OF r1(2) ih(2)]
      by (intro exI [of _ "Suc k"] exI [of _ r'] exI [of _ t']) (simp del: t4t_talk.simps)
  qed
qed

text \<open>The two procedures as a whole.\<close>

lemma read_procedure:
  assumes "rw_short r" "r4_state r = T4T_IDLE" "selected t" "0 < r4_ndef_length r" "2 + unat (r4_ndef_length r) \<le> length (tag_file t)"
    "2 + unat (r4_ndef_length r) \<le> 0x7FFF"
  shows "\<exists>r1 k segs r' t'. RW_T4tReadNDef r = Some (NCI_STATUS_OK, r1) \<and> t4t_talk answer k (r1, t) = Some (r', t') \<and> r4_state r' = T4T_IDLE \<and>
    rw_same r r' \<and> selected t' \<and> writable t' = writable t \<and> tag_file t' = tag_file t \<and> segs \<noteq> [] \<and> concat segs = take (unat (r4_ndef_length r)) (drop 2 (tag_file t)) \<and>
    r4_events r' = r4_events r @ map RW_T4T_NDEF_READ (butlast segs) @ [RW_T4T_NDEF_READ_CPLT (last segs)]"
proof -
  have f: "r4_ndef_status r AND NDEF_DETECTED \<noteq> 0" "r4_nlen_size r = 2" using assms(1) by (simp_all add: rw_short_def rw_ready_def)
  obtain r0 where r0: "rw_t4t_read_file 2 (r4_ndef_length r) False r = Some (True, r0)" "rw_same r r0" "r4_rw_offset r0 = 2" "r4_rw_length r0 = r4_ndef_length r"
    "r4_events r0 = r4_events r" "last (r4_sent r0) = READ_BINARY (of_nat (unat (2 :: u32))) (of_nat (min (unat (r4_ndef_length r)) (read_step r)))"
    using read_file_short [OF assms(1), of 2 "r4_ndef_length r" False] assms(4,6) by auto
  let ?r = "r0 \<lparr> r4_state := T4T_READ_NDEF, r4_sub := WAIT_READ_RESP \<rparr>"
  have req: "RW_T4tReadNDef r = Some (NCI_STATUS_OK, ?r)"
    using r0(1) f assms(2) by (simp add: RW_T4tReadNDef_def t4t_start_def)
  have same: "rw_same r ?r" using r0(2) by (simp add: rw_same_def)
  have "reading 2 (unat (r4_ndef_length r)) ?r"
    using rw_same_ready(2) [OF same assms(1)] r0 same assms(4,6) by (simp add: reading_def read_step_def rw_same_def word_less_nat_alt)
  from read_loop [OF this assms(3,5)] obtain k segs r' t' where
    l: "t4t_talk answer k (?r, t) = Some (r', t')" "rw_same ?r r'" "r4_state r' = T4T_IDLE" "selected t'" "writable t' = writable t" "tag_file t' = tag_file t" "segs \<noteq> []"
      "concat segs = take (unat (r4_ndef_length r)) (drop 2 (tag_file t))"
      "r4_events r' = r4_events ?r @ map RW_T4T_NDEF_READ (butlast segs) @ [RW_T4T_NDEF_READ_CPLT (last segs)]" by blast
  show ?thesis using req l r0(5) rw_same_trans [OF same l(2)]
    by (intro exI [of _ ?r] exI [of _ k] exI [of _ segs] exI [of _ r'] exI [of _ t']) simp
qed

lemma update_procedure:
  assumes "rw_ready r" "r4_state r = T4T_IDLE" "r4_ndef_status r AND NDEF_READ_ONLY = 0" "selected t" "writable t" "d \<noteq> []" "unat n = length d"
    "2 + length d \<le> unat (r4_max_file_size r)" "2 + length d \<le> length (tag_file t)" "2 + length d \<le> 0x7FFF"
  shows "\<exists>r1 k r' t'. RW_T4tUpdateNDef n (Some d) r = Some (NCI_STATUS_OK, r1) \<and> t4t_talk answer k (r1, t) = Some (r', t') \<and> r4_state r' = T4T_IDLE \<and>
    rw_ready r' \<and> (rw_short r \<longrightarrow> rw_short r') \<and> r4_ndef_length r' = n \<and> selected t' \<and> writable t' \<and> tag_file t' = overlay 0 (be16_bytes (ucast n) @ d) (tag_file t) \<and>
    r4_events r' = r4_events r @ [RW_T4T_NDEF_UPDATE_CPLT NCI_STATUS_OK]"
proof -
  have f: "r4_ndef_status r AND NDEF_DETECTED \<noteq> 0" "r4_nlen_size r = 2" using assms(1) by (simp_all add: rw_ready_def)
  have room: "\<not> r4_max_file_size r < n + ucast (r4_nlen_size r)" using f(2) assms(7,8,10) by (simp add: word_less_nat_alt unat_word_ariths)
  let ?q = "r \<lparr> r4_ndef_length := n, r4_update_data := Some d, r4_rw_offset := 2, r4_rw_length := n \<rparr>"
  have rd0: "rw_ready ?q" "rw_short r \<Longrightarrow> rw_short ?q" using assms(1) by (simp_all add: rw_ready_def rw_short_def)
  obtain r1 where r1: "rw_t4t_update_nlen 0 ?q = Some (True, r1)" "rw_same ?q r1" "r4_events r1 = r4_events r" "r4_update_data r1 = Some d" "r4_rw_offset r1 = 2"
    "r4_rw_length r1 = n" "last (r4_sent r1) = UPDATE_BINARY 0 [0, 0]"
    using update_nlen_short [OF rd0(1), of 0] by (auto simp: be16_bytes_def)
  let ?r = "r1 \<lparr> r4_state := T4T_UPDATE_NDEF, r4_sub := WAIT_UPDATE_NLEN \<rparr>"
  have req: "RW_T4tUpdateNDef n (Some d) r = Some (NCI_STATUS_OK, ?r)"
    using r1(1) f room assms(2,3) by (simp add: RW_T4tUpdateNDef_def t4t_start_def)
  have same: "rw_same ?q ?r" using r1(2) by (simp add: rw_same_def)
  have ns: "nlen_sent ?r" using rw_same_ready(1) [OF same rd0(1)] by (simp add: nlen_sent_def)
  let ?k = "min (length d) (update_step ?r)"
  have pos: "0 < update_step ?r" "update_step ?r \<le> 255" using ns by (simp_all add: nlen_sent_def rw_ready_def update_step_def word_less_nat_alt)
  have d0: "[0, 0 :: u8] \<noteq> []" "length [0, 0 :: u8] < 256" "unat (0 :: u16) + length [0, 0 :: u8] \<le> length (tag_file t)" using assms(9) by simp_all
  obtain t1 where t1: "answer (last (r4_sent ?r)) t = Some ([0x90, 0x00], t1)" "selected t1" "writable t1" "tag_file t1 = overlay 0 [0, 0] (tag_file t)"
    using tag_update [OF assms(4,5) d0] r1(7) by auto
  have lt: "length (tag_file t1) = length (tag_file t)" using t1(4) assms(9) by (simp add: overlay_length)
  obtain r2 where r2: "rw_t4t_data_cback (RW_DATA_CEVT NCI_STATUS_OK (rsp_hdr [0x90, 0x00])) ?r = Some r2" "rw_same ?r r2" "r4_events r2 = r4_events r"
    "writing (2 + ?k) (drop ?k d) r2" "last (r4_sent r2) = UPDATE_BINARY (of_nat 2) (take ?k d)"
    using update_rsp_first [OF ns, of d ?k] r1(3-6) assms(6,7,10) by auto
  have "writing (2 + length (take ?k d)) (drop ?k d) r2" "take ?k d \<noteq> []" "length (take ?k d) < 256" "2 + length (take ?k d @ drop ?k d) \<le> length (tag_file t1)"
    using r2(4) pos assms(6,9) lt by (auto simp: min_absorb2)
  from update_loop [OF this(1) r2(5) this(2,3) t1(2,3) this(4) order_refl] obtain k r' t' where
    l: "t4t_talk answer k (r2, t1) = Some (r', t')" "rw_same r2 r'" "r4_state r' = T4T_IDLE" "selected t'" "writable t'"
      "tag_file t' = overlay 0 (be16_bytes (ucast (r4_ndef_length r2))) (overlay 2 d (tag_file t1))" "r4_events r' = r4_events r2 @ [RW_T4T_NDEF_UPDATE_CPLT NCI_STATUS_OK]"
    by auto
  have s: "rw_same ?q r'" using rw_same_trans [OF rw_same_trans [OF same r2(2)] l(2)] .
  have nl: "r4_ndef_length r2 = n" using rw_same_trans [OF same r2(2)] by (simp add: rw_same_def)
  have "tag_file t' = overlay 0 (be16_bytes (ucast n) @ d) (tag_file t)"
    unfolding l(6) nl t1(4) using assms(9) by (simp add: overlay_def be16_bytes_def)
  moreover have "r4_ndef_length r' = n" using s by (simp add: rw_same_def)
  ultimately show ?thesis using req l r2(3) rw_same_ready(1) [OF s rd0(1)] rw_same_ready(2) [OF s rd0(2)] talk_step [where answer = answer, OF t1(1) r2(1), of k]
    by (intro exI [of _ ?r] exI [of _ "Suc k"] exI [of _ r'] exI [of _ t']) simp
qed

end

section \<open>Detection\<close>

definition NDEF_APP_SELECT :: mem where
  "NDEF_APP_SELECT = [0x00, 0xA4, 0x04, 0x00, 7, 0xD2, 0x76, 0x00, 0x00, 0x85, 0x01, 0x01, 0x00]"

text \<open>A capability container with the NDEF file control TLV.\<close>

definition cc_of :: "u8 \<Rightarrow> u16 \<Rightarrow> u16 \<Rightarrow> u16 \<Rightarrow> u16 \<Rightarrow> u8 \<Rightarrow> mem" where
  "cc_of ver mle mlc fid mx wa = be16_bytes 15 @ [ver] @ be16_bytes mle @ be16_bytes mlc @ [4, 6] @ be16_bytes fid @ be16_bytes mx @ [0, wa]"

lemma length_cc_of [simp]: "length (cc_of ver mle mlc fid mx wa) = 15"
  by (simp add: cc_of_def be16_bytes_def)

lemma cc_of_inj: "cc_of v a b f m w = cc_of v' a' b' f' m' w' \<longleftrightarrow> v = v' \<and> a = a' \<and> b = b' \<and> f = f' \<and> m = m' \<and> w = w'"
  by (auto simp: cc_of_def be16_inj)

definition cc_accepted :: "u16 \<Rightarrow> u16 \<Rightarrow> u16 \<Rightarrow> u8 \<Rightarrow> bool" where
  "cc_accepted mle mlc fid wa \<longleftrightarrow> 15 \<le> mle \<and> 13 \<le> mlc \<and> fid \<notin> {0, 0xE102, 0xE103, 0x3F00, 0x3FFF, 0xFFFF} \<and> (wa = 0 \<or> 0x80 \<le> wa)"

definition detecting :: "t4t_sub \<Rightarrow> rw_t4t \<Rightarrow> bool" where
  "detecting sub r \<longleftrightarrow> r4_cback r \<and> r4_alloc r \<and> r4_link r \<and> r4_channel r = 0 \<and> r4_version r = T4T_VERSION_3_0 \<and> r4_max_read r = 0xFF \<and>
    r4_intl r = 0 \<and> r4_state r = T4T_DETECT_NDEF \<and> r4_sub r = sub"

lemmas detect_rsp_defs = rw_t4t_data_cback_def t4t_data_cevt_def rw_t4t_sm_detect_ndef_def rsp_ok be16_val_def detecting_def t4t_cmd_def rw_t4t_send_to_lower_def
  t4t_next_def r4_free_def

lemma detect_start:
  assumes "r4_alloc s" "r4_link s" "r4_aid s = [] \<or> \<not> r4_nfcee s"
  shows "\<exists>r. RW_T4tDetectNDef (t4t_activated s) = Some (NCI_STATUS_OK, r) \<and> detecting WAIT_SELECT_APP r \<and> r4_events r = r4_events s \<and> last (r4_sent r) = NDEF_APP_SELECT"
  using assms by (simp add: RW_T4tDetectNDef_def t4t_activated_def rw_t4t_select_def rw_t4t_select_application_def t4t_cmd_def rw_t4t_send_to_lower_def Let_def
      t4t_start_def detecting_def NDEF_APP_SELECT_def)

lemma detect_app_rsp:
  assumes "detecting WAIT_SELECT_APP r"
  shows "\<exists>r'. rw_t4t_data_cback (RW_DATA_CEVT NCI_STATUS_OK (rsp_hdr [0x90, 0x00])) r = Some r' \<and> detecting WAIT_SELECT_CC r' \<and> r4_events r' = r4_events r \<and>
    last (r4_sent r') = SELECT_FILE 0xE103"
  using assms by (simp add: detect_rsp_defs Let_def rw_t4t_select_file_def SELECT_FILE_def be16_bytes_def)

lemma detect_cc_selected_rsp:
  assumes "detecting WAIT_SELECT_CC r"
  shows "\<exists>r'. rw_t4t_data_cback (RW_DATA_CEVT NCI_STATUS_OK (rsp_hdr [0x90, 0x00])) r = Some r' \<and> detecting WAIT_CC_FILE r' \<and> r4_events r' = r4_events r \<and>
    last (r4_sent r') = READ_BINARY 0 15"
  using assms by (simp add: detect_rsp_defs Let_def rw_t4t_read_file_def READ_BINARY_def be16_bytes_def)

text \<open>An accepted container: the sizes are stored and the NDEF file is selected.\<close>

definition cc_stored :: "u16 \<Rightarrow> u16 \<Rightarrow> u16 \<Rightarrow> u8 \<Rightarrow> rw_t4t \<Rightarrow> bool" where
  "cc_stored mle mlc mx wa r \<longleftrightarrow> r4_max_le r = mle \<and> r4_max_lc r = mlc \<and> r4_max_file_size r = ucast mx \<and> r4_write_access r = wa \<and> r4_nlen_size r = 2 \<and>
    r4_cc_version r = 0x20"

lemma detect_cc_rsp:
  assumes "detecting WAIT_CC_FILE r" "cc_accepted mle mlc fid wa" "5 \<le> mx" "mx \<le> 0x7FFF"
  shows "\<exists>r'. rw_t4t_data_cback (RW_DATA_CEVT NCI_STATUS_OK (rsp_hdr (cc_of 0x20 mle mlc fid mx wa @ [0x90, 0x00]))) r = Some r' \<and>
    detecting WAIT_SELECT_NDEF_FILE r' \<and> cc_stored mle mlc mx wa r' \<and> r4_events r' = r4_events r \<and> last (r4_sent r') = SELECT_FILE fid"
proof -
  let ?cc = "cc_of 0x20 mle mlc fid mx wa"
  have h: "rsp_sw (rsp_hdr (?cc @ [0x90, 0x00])) = Some (0x90, 0x00)" "h_len (rsp_hdr (?cc @ [0x90, 0x00])) = 17"
    using rsp_hdr_sw(1) [of ?cc "0x90" 0] by (simp_all add: rsp_hdr_def)
  have d: "h_data (rsp_hdr (?cc @ [0x90, 0x00])) = ?cc @ [0x90, 0x00, 0, 0, 0, 0]" by (simp add: rsp_hdr_def numeral_eq_Suc)
  have m: "(ucast mx :: u32) < 5 \<longleftrightarrow> mx < 5" "(0x7FFF :: u32) < ucast mx \<longleftrightarrow> 0x7FFF < mx" by (simp_all add: word_less_nat_alt unat_ucast_u16_u32)
  have v: "rw_t4t_validate_cc_file (r \<lparr> r4_timer := False, r4_cclen := 15, r4_cc_version := 0x20, r4_max_le := mle, r4_max_lc := mlc, r4_file_id := fid,
      r4_max_file_size := ucast mx, r4_read_access := 0, r4_write_access := wa \<rparr>)"
    using assms by (auto simp: rw_t4t_validate_cc_file_def detecting_def cc_accepted_def m not_less word_le_nat_alt)
  let ?m = "?cc @ [0x90, 0x00, 0, 0, 0, 0]"
  have "rd_be16 ?m 0 = Some 15" "rd8 ?m (Suc (Suc 0)) = Some 0x20"
    "rd_be16 ?m 3 = Some mle" "rd_be16 ?m 5 = Some mlc"
    "rd8 ?m 7 = Some 4" "rd8 ?m 8 = Some 6"
    "rd_be16 ?m 9 = Some fid" "rd_be16 ?m 11 = Some mx"
    "rd8 ?m 13 = Some 0" "rd8 ?m 14 = Some wa"
    unfolding cc_of_def be16_bytes_def by (simp_all add: rd_be16_def rd8_def be16_roundtrip) (simp_all add: be16_val_def)
  then show ?thesis using assms(1) h d v
    by (simp add: detect_rsp_defs Let_def detect_cc_file_def select_ndef_file_def rw_t4t_select_file_def SELECT_FILE_def be16_bytes_def cc_stored_def)
qed

lemma detect_ndef_rsp:
  assumes "detecting WAIT_SELECT_NDEF_FILE r" "cc_stored mle mlc mx wa r"
  shows "\<exists>r'. rw_t4t_data_cback (RW_DATA_CEVT NCI_STATUS_OK (rsp_hdr [0x90, 0x00])) r = Some r' \<and> detecting WAIT_READ_NLEN r' \<and> cc_stored mle mlc mx wa r' \<and>
    r4_events r' = r4_events r \<and> last (r4_sent r') = READ_BINARY 0 2"
  using assms by (simp add: detect_rsp_defs Let_def rw_t4t_read_file_def READ_BINARY_def be16_bytes_def cc_stored_def)

text \<open>The end of a detection.\<close>

definition detected :: "u16 \<Rightarrow> u16 \<Rightarrow> u16 \<Rightarrow> u8 \<Rightarrow> u16 \<Rightarrow> rw_t4t \<Rightarrow> bool" where
  "detected mle mlc mx wa nl r \<longleftrightarrow> r4_state r = T4T_IDLE \<and> rw_ready r \<and> (mle \<le> 256 \<and> mlc \<le> 255 \<longrightarrow> rw_short r) \<and>
    r4_max_file_size r = ucast mx \<and> r4_ndef_length r = ucast nl \<and> (r4_ndef_status r AND NDEF_READ_ONLY = 0 \<longleftrightarrow> wa \<noteq> 0xFF)"

lemma detect_nlen_rsp:
  assumes "detecting WAIT_READ_NLEN r" "cc_stored mle mlc mx wa r" "15 \<le> mle" "13 \<le> mlc" "2 \<le> mx" "nl \<le> mx - 2"
  shows "\<exists>r' flags. rw_t4t_data_cback (RW_DATA_CEVT NCI_STATUS_OK (rsp_hdr (be16_bytes nl @ [0x90, 0x00]))) r = Some r' \<and> detected mle mlc mx wa nl r' \<and>
    r4_events r' = r4_events r @ [RW_T4T_NDEF_DETECT NCI_STATUS_OK (ucast (mx - 2)) (ucast nl) flags]"
proof -
  let ?h = "rsp_hdr (be16_bytes nl @ [0x90, 0x00])"
  have h: "rsp_sw ?h = Some (0x90, 0x00)" "h_len ?h = 4" "rd_be16 (h_data ?h) 0 = Some nl"
    using rsp_hdr_sw(1) [of "be16_bytes nl" "0x90" 0] by (simp_all add: rsp_hdr_def be16_bytes_def rd_be16_def rd8_def be16_roundtrip)
  have u: "(ucast (mx - 2) :: u32) = ucast mx - 2"
    using assms(5) by (intro word_unat_eq_iff [THEN iffD2]) (simp add: unat_sub unat_ucast_u16_u32 word_le_nat_alt)
  have le: "(ucast nl :: u32) \<le> ucast mx - 2" unfolding u [symmetric] using assms(6) by (simp add: word_le_nat_alt unat_ucast_u16_u32)
  have mle: "0 < mle" "0 < mlc" using assms(3,4) by (auto simp: word_less_nat_alt word_le_nat_alt)
  show ?thesis
    using assms(1,2) h le u mle
    by (simp add: detect_rsp_defs Let_def detect_nlen_def t4t_set_sizes_def cc_stored_def rw_evt_def detected_def rw_ready_def rw_short_def)
      (auto simp: word_le_nat_alt word_less_nat_alt)
qed

text \<open>A tag with an NDEF application: it can be selected, and then its capability container and its NDEF file.\<close>

locale t4t_ndef_tag = t4t_tag +
  fixes present :: "'a \<Rightarrow> bool" and in_app :: "'a \<Rightarrow> bool" and cc_open :: "'a \<Rightarrow> bool" and tag_cc :: "'a \<Rightarrow> mem"
  assumes tag_select_app: "present t \<Longrightarrow> \<exists>t'. answer NDEF_APP_SELECT t = Some ([0x90, 0x00], t') \<and> in_app t' \<and>
      tag_cc t' = tag_cc t \<and> tag_file t' = tag_file t \<and> writable t' = writable t"
    and tag_select_cc: "in_app t \<Longrightarrow> \<exists>t'. answer (SELECT_FILE 0xE103) t = Some ([0x90, 0x00], t') \<and> cc_open t' \<and>
      tag_cc t' = tag_cc t \<and> tag_file t' = tag_file t \<and> writable t' = writable t"
    and tag_read_cc: "cc_open t \<Longrightarrow> length (tag_cc t) = 15 \<Longrightarrow> \<exists>t'. answer (READ_BINARY 0 15) t = Some (tag_cc t @ [0x90, 0x00], t') \<and> cc_open t' \<and>
      tag_cc t' = tag_cc t \<and> tag_file t' = tag_file t \<and> writable t' = writable t"
    and tag_select_ndef: "cc_open t \<Longrightarrow> tag_cc t = cc_of v mle mlc fid mx wa \<Longrightarrow> \<exists>t'. answer (SELECT_FILE fid) t = Some ([0x90, 0x00], t') \<and> selected t' \<and>
      tag_file t' = tag_file t \<and> writable t' = writable t"
begin

lemma detect_procedure:
  assumes "r4_alloc s" "r4_link s" "r4_aid s = [] \<or> \<not> r4_nfcee s" "present t" "tag_cc t = cc_of 0x20 mle mlc fid mx wa" "cc_accepted mle mlc fid wa"
    "5 \<le> mx" "mx \<le> 0x7FFF" "length (tag_file t) = unat mx" "take 2 (tag_file t) = be16_bytes nl" "nl \<le> mx - 2"
  shows "\<exists>r1 r' t' flags. RW_T4tDetectNDef (t4t_activated s) = Some (NCI_STATUS_OK, r1) \<and> t4t_talk answer 5 (r1, t) = Some (r', t') \<and>
    detected mle mlc mx wa nl r' \<and> selected t' \<and> tag_file t' = tag_file t \<and> writable t' = writable t \<and>
    r4_events r' = r4_events s @ [RW_T4T_NDEF_DETECT NCI_STATUS_OK (ucast (mx - 2)) (ucast nl) flags]"
proof -
  obtain r1 where r1: "RW_T4tDetectNDef (t4t_activated s) = Some (NCI_STATUS_OK, r1)" "detecting WAIT_SELECT_APP r1" "r4_events r1 = r4_events s"
    "last (r4_sent r1) = NDEF_APP_SELECT" using detect_start [OF assms(1-3)] by blast
  obtain t1 where t1: "answer (last (r4_sent r1)) t = Some ([0x90, 0x00], t1)" "in_app t1" "tag_cc t1 = tag_cc t" "tag_file t1 = tag_file t" "writable t1 = writable t"
    using tag_select_app [OF assms(4)] r1(4) by auto
  obtain r2 where r2: "rw_t4t_data_cback (RW_DATA_CEVT NCI_STATUS_OK (rsp_hdr [0x90, 0x00])) r1 = Some r2" "detecting WAIT_SELECT_CC r2" "r4_events r2 = r4_events r1"
    "last (r4_sent r2) = SELECT_FILE 0xE103" using detect_app_rsp [OF r1(2)] by blast
  obtain t2 where t2: "answer (last (r4_sent r2)) t1 = Some ([0x90, 0x00], t2)" "cc_open t2" "tag_cc t2 = tag_cc t" "tag_file t2 = tag_file t" "writable t2 = writable t"
    using tag_select_cc [OF t1(2)] r2(4) t1(3-5) by auto
  obtain r3 where r3: "rw_t4t_data_cback (RW_DATA_CEVT NCI_STATUS_OK (rsp_hdr [0x90, 0x00])) r2 = Some r3" "detecting WAIT_CC_FILE r3" "r4_events r3 = r4_events r2"
    "last (r4_sent r3) = READ_BINARY 0 15" using detect_cc_selected_rsp [OF r2(2)] by blast
  obtain t3 where t3: "answer (last (r4_sent r3)) t2 = Some (cc_of 0x20 mle mlc fid mx wa @ [0x90, 0x00], t3)" "cc_open t3" "tag_cc t3 = tag_cc t"
    "tag_file t3 = tag_file t" "writable t3 = writable t"
    using tag_read_cc [OF t2(2)] r3(4) t2(3-5) assms(5) by auto
  obtain r4 where r4: "rw_t4t_data_cback (RW_DATA_CEVT NCI_STATUS_OK (rsp_hdr (cc_of 0x20 mle mlc fid mx wa @ [0x90, 0x00]))) r3 = Some r4"
    "detecting WAIT_SELECT_NDEF_FILE r4" "cc_stored mle mlc mx wa r4" "r4_events r4 = r4_events r3" "last (r4_sent r4) = SELECT_FILE fid"
    using detect_cc_rsp [OF r3(2) assms(6-8)] by blast
  obtain t4 where t4: "answer (last (r4_sent r4)) t3 = Some ([0x90, 0x00], t4)" "selected t4" "tag_file t4 = tag_file t" "writable t4 = writable t"
    using tag_select_ndef [OF t3(2) trans [OF t3(3) assms(5)]] r4(5) t3(4,5) by auto
  obtain r5 where r5: "rw_t4t_data_cback (RW_DATA_CEVT NCI_STATUS_OK (rsp_hdr [0x90, 0x00])) r4 = Some r5" "detecting WAIT_READ_NLEN r5" "cc_stored mle mlc mx wa r5"
    "r4_events r5 = r4_events r4" "last (r4_sent r5) = READ_BINARY 0 2" using detect_ndef_rsp [OF r4(2,3)] by blast
  have m2: "2 \<le> mx" "0 < unat mx" using assms(7) by (auto simp: word_le_nat_alt)
  obtain t5 where t5: "answer (last (r4_sent r5)) t4 = Some (be16_bytes nl @ [0x90, 0x00], t5)" "selected t5" "tag_file t5 = tag_file t" "writable t5 = writable t"
    using tag_read [OF t4(2), of 0 2] r5(5) t4(3,4) assms(9,10) m2(2) by auto
  have ml: "15 \<le> mle" "13 \<le> mlc" using assms(6) by (simp_all add: cc_accepted_def)
  obtain r6 flags where r6: "rw_t4t_data_cback (RW_DATA_CEVT NCI_STATUS_OK (rsp_hdr (be16_bytes nl @ [0x90, 0x00]))) r5 = Some r6" "detected mle mlc mx wa nl r6"
    "r4_events r6 = r4_events r5 @ [RW_T4T_NDEF_DETECT NCI_STATUS_OK (ucast (mx - 2)) (ucast nl) flags]"
    using detect_nlen_rsp [OF r5(2,3) ml m2(1) assms(11)] by blast
  note steps = talk_step [where answer = answer, OF t1(1) r2(1)] talk_step [where answer = answer, OF t2(1) r3(1)] talk_step [where answer = answer, OF t3(1) r4(1)]
    talk_step [where answer = answer, OF t4(1) r5(1)] talk_step [where answer = answer, OF t5(1) r6(1)]
  have five: "5 = Suc (Suc (Suc (Suc (Suc 0))))" by simp
  have "t4t_talk answer 5 (r1, t) = Some (r6, t5)"
    by (simp only: five steps t4t_talk.simps(1))
  then show ?thesis using r1 r2(3) r3(3) r4(4) r5(4) r6(2,3) t5(2-4)
    by (intro exI [of _ r1] exI [of _ r6] exI [of _ t5] exI [of _ flags]) simp
qed

text \<open>Detection, an update and a read that follows it: the message comes back.\<close>

lemma write_read:
  assumes "r4_alloc s" "r4_link s" "r4_aid s = [] \<or> \<not> r4_nfcee s" "present t" "tag_cc t = cc_of 0x20 mle mlc fid mx wa" "cc_accepted mle mlc fid wa"
    "5 \<le> mx" "mx \<le> 0x7FFF" "length (tag_file t) = unat mx" "take 2 (tag_file t) = be16_bytes nl" "nl \<le> mx - 2" "mle \<le> 256" "mlc \<le> 255"
    "writable t" "wa \<noteq> 0xFF" "d \<noteq> []" "unat n = length d" "2 + length d \<le> unat mx"
  shows "\<exists>r1 r2 r3 r4 r5 r6 t1 t2 t3 k j flags segs.
    RW_T4tDetectNDef (t4t_activated s) = Some (NCI_STATUS_OK, r1) \<and> t4t_talk answer 5 (r1, t) = Some (r2, t1) \<and>
    RW_T4tUpdateNDef n (Some d) r2 = Some (NCI_STATUS_OK, r3) \<and> t4t_talk answer k (r3, t1) = Some (r4, t2) \<and>
    RW_T4tReadNDef r4 = Some (NCI_STATUS_OK, r5) \<and> t4t_talk answer j (r5, t2) = Some (r6, t3) \<and>
    take (2 + length d) (tag_file t3) = be16_bytes (ucast n) @ d \<and> segs \<noteq> [] \<and> concat segs = d \<and>
    r4_events r6 = r4_events s @ [RW_T4T_NDEF_DETECT NCI_STATUS_OK (ucast (mx - 2)) (ucast nl) flags, RW_T4T_NDEF_UPDATE_CPLT NCI_STATUS_OK] @
      map RW_T4T_NDEF_READ (butlast segs) @ [RW_T4T_NDEF_READ_CPLT (last segs)]"
proof -
  obtain r1 r2 t1 flags where d1: "RW_T4tDetectNDef (t4t_activated s) = Some (NCI_STATUS_OK, r1)" "t4t_talk answer 5 (r1, t) = Some (r2, t1)"
    "detected mle mlc mx wa nl r2" "selected t1" "tag_file t1 = tag_file t" "writable t1 = writable t"
    "r4_events r2 = r4_events s @ [RW_T4T_NDEF_DETECT NCI_STATUS_OK (ucast (mx - 2)) (ucast nl) flags]"
    using detect_procedure [OF assms(1-11)] by blast
  have m: "unat mx \<le> 0x7FFF" using assms(8) by (simp add: word_le_nat_alt)
  have r2: "rw_ready r2" "rw_short r2" "r4_state r2 = T4T_IDLE" "r4_ndef_status r2 AND NDEF_READ_ONLY = 0" "unat (r4_max_file_size r2) = unat mx"
    using d1(3) assms(12,13,15) by (simp_all add: detected_def unat_ucast_u16_u32)
  have w: "writable t1" "2 + length d \<le> unat (r4_max_file_size r2)" "2 + length d \<le> length (tag_file t1)" "2 + length d \<le> 0x7FFF"
    using d1(5,6) r2(5) assms(9,14,18) m by simp_all
  obtain r3 k r4 t2 where u: "RW_T4tUpdateNDef n (Some d) r2 = Some (NCI_STATUS_OK, r3)" "t4t_talk answer k (r3, t1) = Some (r4, t2)" "r4_state r4 = T4T_IDLE"
    "rw_short r4" "r4_ndef_length r4 = n" "selected t2" "tag_file t2 = overlay 0 (be16_bytes (ucast n) @ d) (tag_file t)"
    "r4_events r4 = r4_events r2 @ [RW_T4T_NDEF_UPDATE_CPLT NCI_STATUS_OK]"
    using update_procedure [OF r2(1,3,4) d1(4) w(1) assms(16,17) w(2-4)] r2(2) unfolding d1(5) by blast
  have f: "length (tag_file t2) = unat mx" "take (2 + length d) (tag_file t2) = be16_bytes (ucast n) @ d" "take (length d) (drop 2 (tag_file t2)) = d"
    using assms(9,18) u(7) by (auto simp: overlay_def be16_bytes_def)
  have pos: "0 < r4_ndef_length r4" using u(5) assms(16,17) by (simp add: word_less_nat_alt)
  have l: "2 + unat (r4_ndef_length r4) \<le> length (tag_file t2)" "2 + unat (r4_ndef_length r4) \<le> 0x7FFF" using u(5) assms(17,18) f(1) m by simp_all
  obtain r5 j segs r6 t3 where rd: "RW_T4tReadNDef r4 = Some (NCI_STATUS_OK, r5)" "t4t_talk answer j (r5, t2) = Some (r6, t3)" "tag_file t3 = tag_file t2" "segs \<noteq> []"
    "concat segs = d" "r4_events r6 = r4_events r4 @ map RW_T4T_NDEF_READ (butlast segs) @ [RW_T4T_NDEF_READ_CPLT (last segs)]"
    using read_procedure [OF u(4,3,6) pos l] unfolding u(5) assms(17) f(3) by blast
  have ev: "r4_events r6 = r4_events s @ [RW_T4T_NDEF_DETECT NCI_STATUS_OK (ucast (mx - 2)) (ucast nl) flags, RW_T4T_NDEF_UPDATE_CPLT NCI_STATUS_OK] @
      map RW_T4T_NDEF_READ (butlast segs) @ [RW_T4T_NDEF_READ_CPLT (last segs)]"
    unfolding rd(6) u(8) d1(7) by simp
  show ?thesis by (intro exI conjI) (fact d1(1,2) u(1,2) rd(1,2,4,5) f(2) [folded rd(3)] ev)+
qed

end

end
