(* ===== verification/RwT4tCe.thy ===== *)
theory RwT4tCe
  imports RwT4tTag
begin

unbundle bit_operations_syntax

text \<open>
  The Type 4 Tag emulation as a tag that this stack's own reader can use: it satisfies the interface, so a message that the reader writes to the
  emulated tag reaches the application behind it.
\<close>

section \<open>The emulated tag\<close>

text \<open>The answer is the frame that the emulation sends.\<close>

definition ce_answer :: "mem \<Rightarrow> ce_t4t \<Rightarrow> (mem \<times> ce_t4t) option" where
  "ce_answer apdu c = do { c' \<leftarrow> ce_t4t_data_cback (NFC_DATA_CEVT (Some apdu)) c; Some (last (ce_sent c'), c') }"

definition ce_writable :: "ce_t4t \<Rightarrow> bool" where
  "ce_writable c \<longleftrightarrow> \<not> flag NDEF_FILE_READ_ONLY c"

interpretation ce: t4t_tag ce_answer t4t_file ndef_open ce_writable
proof unfold_locales
  fix c :: ce_t4t and off :: u16 and le :: u8
  assume a: "ndef_open c" "unat off < length (t4t_file c)" "0 < le"
  let ?c = "c\<lparr>ce_sent := ce_sent c @ [take (unat le) (drop (unat off) (t4t_file c)) @ [0x90, 0x00]]\<rparr>"
  have "ndef_open ?c" "t4t_file ?c = t4t_file c" using a(1) by (simp_all add: ndef_open_def t4t_file_def)
  then show "\<exists>c'. ce_answer (READ_BINARY off le) c = Some (take (unat le) (drop (unat off) (t4t_file c)) @ [0x90, 0x00], c') \<and> ndef_open c' \<and>
    ce_writable c' = ce_writable c \<and> t4t_file c' = t4t_file c"
    using apdu_cmds(1) [OF a(1), of off le] read_cmd_file [OF a(1) _ a(3), of off] a(2) length_file [OF a(1)]
    by (simp add: ce_answer_def ce_writable_def)
next
  fix c :: ce_t4t and d :: mem and off :: u16
  assume a: "ndef_open c" "ce_writable c" "d \<noteq> []" "length d < 256" "unat off + length d \<le> length (t4t_file c)"
  then show "\<exists>c'. ce_answer (UPDATE_BINARY off d) c = Some ([0x90, 0x00], c') \<and> ndef_open c' \<and> ce_writable c' \<and> t4t_file c' = overlay (unat off) d (t4t_file c)"
    using file_update_rep [of c d off] length_file [OF a(1)] by (auto simp: ce_answer_def ce_writable_def)
qed

section \<open>Selection\<close>

definition NDEF_AID :: mem where
  "NDEF_AID = [0xD2, 0x76, 0x00, 0x00, 0x85, 0x01, 0x01]"

text \<open>The container as a reader sees it that selects version 2 of the application.\<close>

definition ce_cc :: "ce_t4t \<Rightarrow> mem" where
  "ce_cc c = (cc_file c)[2 := 0x20]"

text \<open>A configured tag: it has an NDEF message, no application is registered under the name of the NDEF application, and the container
  tells the size of the file.\<close>

definition ce_file_ok :: "ce_t4t \<Rightarrow> bool" where
  "ce_file_ok c \<longleftrightarrow> t4t_ok c \<and> ce_link c \<and> t4t_buf c \<noteq> None \<and> 2 \<le> unat (max_file_size c) \<and> (\<exists>v mle mlc wa. cc_file c = cc_of v mle mlc 0x1000 (max_file_size c) wa)"

definition ce_present :: "ce_t4t \<Rightarrow> bool" where
  "ce_present c \<longleftrightarrow> ce_file_ok c \<and> p_ndef_msg c \<noteq> None \<and> find_aid (reg_aid c) 0 NDEF_AID = CE_T4T_MAX_REG_AID"

definition ce_in_app :: "ce_t4t \<Rightarrow> bool" where
  "ce_in_app c \<longleftrightarrow> ce_file_ok c \<and> flag T4T_APP_SELECTED c \<and> \<not> flag REG_AID_SELECTED c \<and> \<not> flag WILDCARD_AID_SELECTED c \<and> cc_file c = ce_cc c"

definition ce_cc_open :: "ce_t4t \<Rightarrow> bool" where
  "ce_cc_open c \<longleftrightarrow> ce_in_app c \<and> flag CC_FILE_SELECTED c"

lemma cc_of_version: "(cc_of v mle mlc fid mx wa)[2 := v'] = cc_of v' mle mlc fid mx wa"
  by (simp add: cc_of_def be16_bytes_def)

lemma ce_keeps_ok:
  assumes "t4t_ok c" "ce_t4t_data_cback ev c = Some c'"
  shows "t4t_ok c'"
  using data_ok [OF assms(1), of ev] assms(2) by auto

lemma status_ok: "be16_bytes T4T_RSP_CMD_CMPLTED = [0x90, 0x00]"
  by code_simp

lemma ce_select_app:
  assumes "ce_present c"
  shows "\<exists>c'. ce_answer NDEF_APP_SELECT c = Some ([0x90, 0x00], c') \<and> ce_in_app c' \<and> ce_cc c' = ce_cc c \<and> t4t_file c' = t4t_file c \<and>
    ce_writable c' = ce_writable c"
proof -
  have c: "t4t_ok c" "ce_link c" "t4t_buf c \<noteq> None" "2 \<le> unat (max_file_size c)" "p_ndef_msg c \<noteq> None" "find_aid (reg_aid c) 0 NDEF_AID = 4"
    "\<exists>v mle mlc wa. cc_file c = cc_of v mle mlc 0x1000 (max_file_size c) wa" using assms by (auto simp: ce_present_def ce_file_ok_def)
  have l: "length (cc_file c) = 15" using c(1) by (simp add: t4t_ok_def)
  define c1 where "c1 = set_flag T4T_APP_SELECTED (t4t_deselect_all (c \<lparr> selected_aid_idx := 4, cc_file := (cc_file c)[2 := 0x20] \<rparr>))"
  let ?c = "GKI_freebuf_apdu (c1 \<lparr> ce_sent := ce_sent c1 @ [[0x90, 0x00]] \<rparr>)"
  have run: "ce_t4t_data_cback (NFC_DATA_CEVT (Some NDEF_APP_SELECT)) c = Some ?c"
    using c(2,5) c(6) [unfolded NDEF_AID_def] l
    by (simp add: ce_t4t_data_cback_def t4t_apdu_def NDEF_APP_SELECT_def rd8_def ce_t4t_process_select_app_cmd_def rd_bytes_def Let_def
        ce_t4t_set_version_in_cc_def wr8_def ce_t4t_send_status_def ce_t4t_send_to_lower_def status_ok c1_def)
  have "t4t_ok ?c" using ce_keeps_ok [OF c(1) run] .
  moreover have "t4t_buf ?c = t4t_buf c" by (simp add: c1_def t4t_buf_def GKI_freebuf_apdu_def split: option.split)
  moreover have "\<exists>v mle mlc wa. (cc_file c)[2 := 0x20] = cc_of v mle mlc 0x1000 (max_file_size c) wa" using c(7) by (metis cc_of_version)
  ultimately have "ce_in_app ?c"
    using c by (simp add: ce_in_app_def ce_file_ok_def c1_def GKI_freebuf_apdu_def ce_cc_def)
  then show ?thesis using run by (simp add: ce_answer_def c1_def GKI_freebuf_apdu_def ce_cc_def ce_writable_def t4t_deselect_all_def)
qed

text \<open>Selecting a file by its identifier.\<close>

lemma ce_select_file_run:
  assumes "ce_in_app c" "ce_t4t_select_file fid c = (True, c1)"
  shows "ce_t4t_data_cback (NFC_DATA_CEVT (Some (SELECT_FILE fid))) c = Some (GKI_freebuf_apdu (snd (ce_t4t_send_status T4T_RSP_CMD_CMPLTED c1)))"
  using assms by (auto simp: ce_in_app_def ce_t4t_data_cback_def t4t_apdu_def SELECT_FILE_def be16_bytes_def rd8_def Let_def t4t_app_cmd_def
      ce_t4t_process_select_file_cmd_def be16_roundtrip split: prod.splits)

lemma ce_select_cc:
  assumes "ce_in_app c"
  shows "\<exists>c'. ce_answer (SELECT_FILE 0xE103) c = Some ([0x90, 0x00], c') \<and> ce_cc_open c' \<and> ce_cc c' = ce_cc c \<and> t4t_file c' = t4t_file c \<and>
    ce_writable c' = ce_writable c"
proof -
  define c1 where "c1 = clr_flag NDEF_SELECTED (set_flag CC_FILE_SELECTED c)"
  have run: "ce_t4t_data_cback (NFC_DATA_CEVT (Some (SELECT_FILE 0xE103))) c = Some (GKI_freebuf_apdu (snd (ce_t4t_send_status T4T_RSP_CMD_CMPLTED c1)))"
    by (rule ce_select_file_run [OF assms]) (simp add: ce_t4t_select_file_def c1_def)
  have "t4t_ok c" using assms by (simp add: ce_in_app_def ce_file_ok_def)
  from ce_keeps_ok [OF this run] have "t4t_ok c1" by simp
  moreover have "t4t_buf c1 = t4t_buf c" by (simp add: c1_def t4t_buf_def split: option.split)
  ultimately show ?thesis using assms run
    by (simp add: ce_answer_def c1_def ce_cc_open_def ce_in_app_def ce_file_ok_def ce_cc_def ce_writable_def ce_t4t_send_status_def ce_t4t_send_to_lower_def status_ok
        GKI_freebuf_apdu_def)
qed

lemma ce_read_cc:
  assumes "ce_cc_open c" "length (ce_cc c) = 15"
  shows "\<exists>c'. ce_answer (READ_BINARY 0 15) c = Some (ce_cc c @ [0x90, 0x00], c') \<and> ce_cc_open c' \<and> ce_cc c' = ce_cc c \<and> t4t_file c' = t4t_file c \<and>
    ce_writable c' = ce_writable c"
proof -
  have c: "t4t_ok c" "ce_link c" "flag CC_FILE_SELECTED c" "flag T4T_APP_SELECTED c" "\<not> flag REG_AID_SELECTED c" "\<not> flag WILDCARD_AID_SELECTED c" "cc_file c = ce_cc c"
    using assms by (simp_all add: ce_cc_open_def ce_in_app_def ce_file_ok_def)
  have l: "length (cc_file c) = 15" "\<not> flag NDEF_SELECTED c" using c(1,3) by (auto simp: t4t_ok_def)
  have rd: "rd_bytes (cc_file c) 0 15 = Some (cc_file c)" using l by (simp add: rd_bytes_def)
  let ?c = "GKI_freebuf_apdu (c \<lparr> ce_sent := ce_sent c @ [cc_file c @ [0x90, 0x00]] \<rparr>)"
  have sw: "(36864 :: u8) = 0" by code_simp
  have "ce_t4t_data_cback (NFC_DATA_CEVT (Some (READ_BINARY 0 15))) c = Some ?c"
    using c l rd by (simp add: ce_t4t_data_cback_def t4t_apdu_def READ_BINARY_def be16_bytes_def rd8_def Let_def t4t_app_cmd_def t4t_read_cmd_def be16_val_def
        ce_t4t_read_binary_def ce_t4t_send_to_lower_def sw)
  moreover have "ce_cc_open ?c" using assms(1) by (simp add: ce_cc_open_def ce_in_app_def ce_file_ok_def ce_cc_def GKI_freebuf_apdu_def)
  moreover have "ce_cc ?c = ce_cc c" by (simp add: ce_cc_def GKI_freebuf_apdu_def)
  ultimately show ?thesis using c(7) by (simp add: ce_answer_def ce_writable_def)
qed

lemma ce_select_ndef:
  assumes "ce_cc_open c" "ce_cc c = cc_of v mle mlc fid mx wa"
  shows "\<exists>c'. ce_answer (SELECT_FILE fid) c = Some ([0x90, 0x00], c') \<and> ndef_open c' \<and> t4t_file c' = t4t_file c \<and> ce_writable c' = ce_writable c"
proof -
  have c: "ce_in_app c" "t4t_ok c" using assms(1) unfolding ce_cc_open_def ce_in_app_def ce_file_ok_def by blast+
  obtain v' mle' mlc' wa' where "ce_cc c = cc_of v' mle' mlc' 0x1000 (max_file_size c) wa'"
    using assms(1) unfolding ce_cc_open_def ce_in_app_def ce_file_ok_def by metis
  then have f: "fid = 0x1000" using assms(2) by (simp add: cc_of_inj)
  define c1 where "c1 = clr_flag CC_FILE_SELECTED (set_flag NDEF_SELECTED c)"
  have run: "ce_t4t_data_cback (NFC_DATA_CEVT (Some (SELECT_FILE fid))) c = Some (GKI_freebuf_apdu (snd (ce_t4t_send_status T4T_RSP_CMD_CMPLTED c1)))"
    by (rule ce_select_file_run [OF c(1)]) (simp add: ce_t4t_select_file_def c1_def f)
  from ce_keeps_ok [OF c(2) run] have "t4t_ok c1" by simp
  moreover have "t4t_buf c1 = t4t_buf c" by (simp add: c1_def t4t_buf_def split: option.split)
  ultimately show ?thesis using c(1) run
    by (simp add: ce_answer_def c1_def ndef_open_def ce_in_app_def ce_file_ok_def ce_writable_def ce_t4t_send_status_def ce_t4t_send_to_lower_def status_ok
        GKI_freebuf_apdu_def)
qed

interpretation ce_ndef: t4t_ndef_tag ce_answer t4t_file ndef_open ce_writable ce_present ce_in_app ce_cc_open ce_cc
  by unfold_locales (fact ce_select_app ce_select_cc ce_read_cc ce_select_ndef)+

section \<open>Properties\<close>

text \<open>C4. What the reader writes to a Type 4 Tag it reads back. For every tag that answers read and update commands as a file does, with a capability container
  that the reader accepts and lengths of one byte, and for every message that fits: after activation the detection succeeds and
  reports the size of the file and the length of its message, the update succeeds and leaves the length field and the message in the file, and a
  read delivers, in segments that are reported in order and ended by one completion, exactly the message.\<close>

theorem rw_t4t_write_read:
  assumes "t4t_ndef_tag answer tag_file selected writable present in_app cc_open tag_cc" "r4_alloc s" "r4_link s" "r4_aid s = [] \<or> \<not> r4_nfcee s" "present t"
    "tag_cc t = cc_of 0x20 mle mlc fid mx wa" "cc_accepted mle mlc fid wa" "5 \<le> mx" "mx \<le> 0x7FFF" "length (tag_file t) = unat mx"
    "take 2 (tag_file t) = be16_bytes nl" "nl \<le> mx - 2" "mle \<le> 256" "mlc \<le> 255" "writable t" "wa \<noteq> 0xFF" "d \<noteq> []" "unat n = length d" "2 + length d \<le> unat mx"
  shows "\<exists>r1 r2 r3 r4 r5 r6 t1 t2 t3 k j flags segs.
    RW_T4tDetectNDef (t4t_activated s) = Some (NCI_STATUS_OK, r1) \<and> t4t_talk answer 5 (r1, t) = Some (r2, t1) \<and>
    RW_T4tUpdateNDef n (Some d) r2 = Some (NCI_STATUS_OK, r3) \<and> t4t_talk answer k (r3, t1) = Some (r4, t2) \<and>
    RW_T4tReadNDef r4 = Some (NCI_STATUS_OK, r5) \<and> t4t_talk answer j (r5, t2) = Some (r6, t3) \<and>
    take (2 + length d) (tag_file t3) = be16_bytes (ucast n) @ d \<and> segs \<noteq> [] \<and> concat segs = d \<and>
    r4_events r6 = r4_events s @ [RW_T4T_NDEF_DETECT NCI_STATUS_OK (ucast (mx - 2)) (ucast nl) flags, RW_T4T_NDEF_UPDATE_CPLT NCI_STATUS_OK] @
      map RW_T4T_NDEF_READ (butlast segs) @ [RW_T4T_NDEF_READ_CPLT (last segs)]"
  by (rule t4t_ndef_tag.write_read) (fact assms)+

text \<open>C5. A reader of this stack writes to a tag emulated by this stack. With a message configured and no application registered under the name of the NDEF
  application, the detection succeeds, every message that fits is written, and the file of the emulated tag then has its length
  and its bytes.\<close>

theorem rw_ce_write:
  assumes "r4_alloc s" "r4_link s" "r4_aid s = [] \<or> \<not> r4_nfcee s" "ce_present c" "cc_file c = cc_of v 646 644 0x1000 (max_file_size c) 0" "ce_writable c"
    "5 \<le> max_file_size c" "max_file_size c \<le> 0x7FFF" "nlen c \<le> max_file_size c - 2" "d \<noteq> []" "unat n = length d" "2 + length d \<le> unat (max_file_size c)"
  shows "\<exists>r1 r2 r3 r4 c1 c2 k flags.
    RW_T4tDetectNDef (t4t_activated s) = Some (NCI_STATUS_OK, r1) \<and> t4t_talk ce_answer 5 (r1, c) = Some (r2, c1) \<and>
    RW_T4tUpdateNDef n (Some d) r2 = Some (NCI_STATUS_OK, r3) \<and> t4t_talk ce_answer k (r3, c1) = Some (r4, c2) \<and>
    take (2 + length d) (t4t_file c2) = be16_bytes (ucast n) @ d \<and>
    r4_events r4 = r4_events s @ [RW_T4T_NDEF_DETECT NCI_STATUS_OK (ucast (max_file_size c - 2)) (ucast (nlen c)) flags, RW_T4T_NDEF_UPDATE_CPLT NCI_STATUS_OK]"
proof -
  let ?mx = "max_file_size c"
  have cc: "ce_cc c = cc_of 0x20 646 644 0x1000 ?mx 0" "cc_accepted 646 644 0x1000 0"
    using assms(5) by (simp_all add: ce_cc_def cc_of_version cc_accepted_def)
  have m: "unat ?mx \<le> 0x7FFF" "2 \<le> unat ?mx" using assms(7,8) by (simp_all add: word_le_nat_alt)
  have f: "length (t4t_file c) = unat ?mx" "take 2 (t4t_file c) = be16_bytes (nlen c)"
    using assms(4) m(2) by (auto simp: t4t_file_def ce_present_def ce_file_ok_def t4t_buf_def t4t_ok_def split: option.splits)
  obtain r1 r2 c1 flags where d1: "RW_T4tDetectNDef (t4t_activated s) = Some (NCI_STATUS_OK, r1)" "t4t_talk ce_answer 5 (r1, c) = Some (r2, c1)"
    "detected 646 644 ?mx 0 (nlen c) r2" "ndef_open c1" "t4t_file c1 = t4t_file c" "ce_writable c1 = ce_writable c"
    "r4_events r2 = r4_events s @ [RW_T4T_NDEF_DETECT NCI_STATUS_OK (ucast (?mx - 2)) (ucast (nlen c)) flags]"
    using ce_ndef.detect_procedure [OF assms(1-4) cc assms(7,8) f assms(9)] by blast
  have r2: "rw_ready r2" "r4_state r2 = T4T_IDLE" "r4_ndef_status r2 AND NDEF_READ_ONLY = 0" "unat (r4_max_file_size r2) = unat ?mx"
    using d1(3) by (simp_all add: detected_def unat_ucast_u16_u32)
  have w: "ce_writable c1" "2 + length d \<le> unat (r4_max_file_size r2)" "2 + length d \<le> length (t4t_file c1)" "2 + length d \<le> 0x7FFF"
    using d1(5,6) r2(4) f(1) assms(6,12) m by simp_all
  obtain r3 k r4 c2 where u: "RW_T4tUpdateNDef n (Some d) r2 = Some (NCI_STATUS_OK, r3)" "t4t_talk ce_answer k (r3, c1) = Some (r4, c2)"
    "t4t_file c2 = overlay 0 (be16_bytes (ucast n) @ d) (t4t_file c)" "r4_events r4 = r4_events r2 @ [RW_T4T_NDEF_UPDATE_CPLT NCI_STATUS_OK]"
    using ce.update_procedure [OF r2(1-3) d1(4) w(1) assms(10,11) w(2-4)] unfolding d1(5) by blast
  have t: "take (2 + length d) (t4t_file c2) = be16_bytes (ucast n) @ d" using u(3) by (simp add: overlay_def be16_bytes_def)
  have ev: "r4_events r4 = r4_events s @ [RW_T4T_NDEF_DETECT NCI_STATUS_OK (ucast (?mx - 2)) (ucast (nlen c)) flags, RW_T4T_NDEF_UPDATE_CPLT NCI_STATUS_OK]"
    unfolding u(4) d1(7) by simp
  show ?thesis by (intro exI conjI) (fact d1(1,2) u(1,2) t ev)+
qed

section \<open>Witnesses\<close>

text \<open>The container that \<open>CE_T4tSetLocalNDEFMsg\<close> writes.\<close>

lemma init_cc_of: "t4t_init_cc ro m = cc_of 0x30 646 644 0x1000 (m + 2) (if ro then 0xFF else 0)"
  by (simp add: t4t_init_cc_def cc_of_def)

text \<open>The example tag, and the same tag with shorter lengths in its container.\<close>

definition ex_short_tag :: ce_t4t where
  "ex_short_tag = (ex_conf False) \<lparr> cc_file := cc_of 0x30 100 100 0x1000 10 0 \<rparr>"

lemma ex_conf_facts: "ce_link (ex_conf False)" "t4t_buf (ex_conf False) \<noteq> None" "max_file_size (ex_conf False) = 10" "p_ndef_msg (ex_conf False) \<noteq> None"
  "find_aid (reg_aid (ex_conf False)) 0 NDEF_AID = 4" "\<not> flag NDEF_FILE_READ_ONLY (ex_conf False)" "nlen (ex_conf False) = 8" "cc_file (ex_conf False) = t4t_init_cc False 8"
  "t4t_file (ex_conf False) = [0, 8] @ ex_ndef"
  by code_simp+

lemma ex_conf_present: "ce_present (ex_conf False)"
proof -
  have "cc_file (ex_conf False) = cc_of 0x30 646 644 0x1000 (max_file_size (ex_conf False)) 0" by (simp add: ex_conf_facts init_cc_of)
  then show ?thesis using reach_ok [OF ex_conf_reach, of False] ex_conf_facts(1-5) unfolding ce_present_def ce_file_ok_def by auto
qed

lemma ex_short_present: "ce_present ex_short_tag"
proof -
  have "t4t_ok ex_short_tag" using reach_ok [OF ex_conf_reach, of False] by (simp add: ex_short_tag_def t4t_ok_def)
  moreover have "t4t_buf ex_short_tag = t4t_buf (ex_conf False)" by (simp add: ex_short_tag_def t4t_buf_def split: option.split)
  moreover have "cc_file ex_short_tag = cc_of 0x30 100 100 0x1000 (max_file_size ex_short_tag) 0" by (simp add: ex_short_tag_def ex_conf_facts)
  ultimately show ?thesis using ex_conf_facts(1-5) unfolding ce_present_def ce_file_ok_def by (auto simp: ex_short_tag_def)
qed

theorem rw_t4t_write_read_witness:
  "\<exists>r1 r2 r3 r4 r5 r6 c1 c2 c3 k j flags segs.
    RW_T4tDetectNDef (t4t_activated ex_reader) = Some (NCI_STATUS_OK, r1) \<and> t4t_talk ce_answer 5 (r1, ex_short_tag) = Some (r2, c1) \<and>
    RW_T4tUpdateNDef 3 (Some [0xD1, 0, 0]) r2 = Some (NCI_STATUS_OK, r3) \<and> t4t_talk ce_answer k (r3, c1) = Some (r4, c2) \<and>
    RW_T4tReadNDef r4 = Some (NCI_STATUS_OK, r5) \<and> t4t_talk ce_answer j (r5, c2) = Some (r6, c3) \<and> concat segs = [0xD1, 0, 0] \<and>
    r4_events r6 = [] @ [RW_T4T_NDEF_DETECT NCI_STATUS_OK 8 8 flags, RW_T4T_NDEF_UPDATE_CPLT NCI_STATUS_OK] @
      map RW_T4T_NDEF_READ (butlast segs) @ [RW_T4T_NDEF_READ_CPLT (last segs)]"
proof -
  have a: "r4_alloc ex_reader" "r4_link ex_reader" "r4_aid ex_reader = [] \<or> \<not> r4_nfcee ex_reader" "r4_events ex_reader = []"
    by (simp_all add: ex_reader_def t4t_activated_def rw_t4t_select_def)
  have c: "ce_cc ex_short_tag = cc_of 0x20 100 100 0x1000 10 0" "cc_accepted 100 100 0x1000 0" "ce_writable ex_short_tag"
    "length (t4t_file ex_short_tag) = unat (10 :: u16)" "take 2 (t4t_file ex_short_tag) = be16_bytes 8"
    by (simp_all add: ce_cc_def ex_short_tag_def cc_of_version cc_accepted_def ce_writable_def ex_conf_facts ex_ndef_def be16_bytes_def)
  have n: "(5 :: u16) \<le> 10" "(10 :: u16) \<le> 0x7FFF" "(8 :: u16) \<le> 10 - 2" "(100 :: u16) \<le> 256" "(100 :: u16) \<le> 255" "(0 :: u8) \<noteq> 0xFF" "[0xD1, 0, 0 :: u8] \<noteq> []"
    "unat (3 :: u32) = length [0xD1, 0, 0 :: u8]" "2 + length [0xD1, 0, 0 :: u8] \<le> unat (10 :: u16)" by simp_all
  have v: "ucast (10 - 2 :: u16) = (8 :: u32)" "ucast (8 :: u16) = (8 :: u32)" by simp_all
  show ?thesis
    using rw_t4t_write_read [OF ce_ndef.t4t_ndef_tag_axioms a(1-3) ex_short_present c(1,2) n(1,2) c(4,5) n(3,4,5) c(3) n(6-9)] unfolding v a(4) by blast
qed

theorem rw_ce_write_witness:
  "\<exists>r1 r2 r3 r4 c1 c2 k flags.
    RW_T4tDetectNDef (t4t_activated ex_reader) = Some (NCI_STATUS_OK, r1) \<and> t4t_talk ce_answer 5 (r1, ex_conf False) = Some (r2, c1) \<and>
    RW_T4tUpdateNDef 3 (Some [0xD1, 0, 0]) r2 = Some (NCI_STATUS_OK, r3) \<and> t4t_talk ce_answer k (r3, c1) = Some (r4, c2) \<and>
    take 5 (t4t_file c2) = [0, 3, 0xD1, 0, 0] \<and>
    r4_events r4 = [RW_T4T_NDEF_DETECT NCI_STATUS_OK 8 8 flags, RW_T4T_NDEF_UPDATE_CPLT NCI_STATUS_OK]"
proof -
  have a: "r4_alloc ex_reader" "r4_link ex_reader" "r4_aid ex_reader = [] \<or> \<not> r4_nfcee ex_reader" "r4_events ex_reader = []"
    by (simp_all add: ex_reader_def t4t_activated_def rw_t4t_select_def)
  have c: "cc_file (ex_conf False) = cc_of 0x30 646 644 0x1000 (max_file_size (ex_conf False)) 0" "ce_writable (ex_conf False)"
    "5 \<le> max_file_size (ex_conf False)" "max_file_size (ex_conf False) \<le> 0x7FFF" "nlen (ex_conf False) \<le> max_file_size (ex_conf False) - 2"
    "[0xD1, 0, 0 :: u8] \<noteq> []" "unat (3 :: u32) = length [0xD1, 0, 0 :: u8]" "2 + length [0xD1, 0, 0 :: u8] \<le> unat (max_file_size (ex_conf False))"
    by (simp_all add: ex_conf_facts init_cc_of ce_writable_def)
  have v: "be16_bytes (ucast (3 :: u32)) @ [0xD1, 0, 0] = [0, 3, 0xD1, 0, 0]" "2 + length [0xD1, 0, 0 :: u8] = 5" "ucast (10 - 2 :: u16) = (8 :: u32)" "ucast (8 :: u16) = (8 :: u32)"
    by (simp_all add: be16_bytes_def)
  show ?thesis using rw_ce_write [OF a(1-3) ex_conf_present c] unfolding ex_conf_facts v a(4) by simp
qed

end
