(* ===== verification/RwT4tFindings.thy ===== *)
theory RwT4tFindings
  imports RwT4tCe
begin

unbundle bit_operations_syntax

text \<open>
  Behaviours of the Type 4 Tag reader that a tag can provoke and that the code does not seem to mean, each on a concrete reader.
\<close>

text \<open>The emulated tag announces reads of 646 bytes but understands lengths of one byte only. This stack's reader, which then uses the long form, can
  detect and write the emulated tag but not read it: the answer is an error.\<close>

theorem rw_ce_read_fails:
  "(case RW_T4tDetectNDef ex_reader of None \<Rightarrow> False | Some (_, r1) \<Rightarrow>
    case t4t_talk ce_answer 5 (r1, ex_conf False) of None \<Rightarrow> False | Some (r2, c1) \<Rightarrow>
    case RW_T4tReadNDef r2 of None \<Rightarrow> False | Some (st, r3) \<Rightarrow>
    case t4t_talk ce_answer 1 (r3, c1) of None \<Rightarrow> False | Some (r4, _) \<Rightarrow>
      st = NCI_STATUS_OK \<and> r4_ndef_length r2 = 8 \<and> last (r4_events r4) = RW_T4T_FAIL 0x83 STATUS_CMD_NOT_CMPLTD 0x6B 0x00)"
  by code_simp

text \<open>With updates of fewer bytes than the offset and data objects need, which the check of the container accepts, the length of the data
  becomes negative: the copy runs over four gigabytes.\<close>

theorem t4t_small_mlc_overrun:
  "rw_t4t_update_file ((ex_detected 0xFF 4) \<lparr> r4_cc_version := 0x30, r4_rw_offset := 0x8000, r4_rw_length := 4, r4_update_data := Some [1, 2, 3, 4] \<rparr>) = None"
  by (simp add: rw_t4t_update_file_def ex_detected_def ex_reader_def t4t_activated_def rw_t4t_select_def rw_t4t_set_ber_tlv_def ber_lengths_def ber_length_size_def
      Let_def rd_bytes_def)

text \<open>For a container of a version other than 2.0 and 3.0 the size of the file is not checked: with a size of zero, any length of a message is accepted and
  four gigabytes are reported as the capacity.\<close>

theorem t4t_file_size_unchecked:
  "(case detect_nlen (rsp_hdr [0xFF, 0xFF, 0x90, 0x00])
      ((ex_detected 0xFF 0xFF) \<lparr> r4_state := T4T_DETECT_NDEF, r4_cc_version := 0x10, r4_max_file_size := 0 \<rparr>) of None \<Rightarrow> False
    | Some r \<Rightarrow> r4_events r = [RW_T4T_NDEF_DETECT NCI_STATUS_OK 0xFFFFFFFE 0xFFFF 0x06])"
  "rw_t4t_validate_cc_file ((ex_detected 0xFF 0xFF) \<lparr> r4_cclen := 15, r4_cc_version := 0x10, r4_max_le := 15, r4_max_lc := 13, r4_file_id := 0xE104,
     r4_max_file_size := 0 \<rparr>)"
  by code_simp+

text \<open>The mark for reads with an offset object is never cleared: after one read behind 32 kilobytes, correct answers to ordinary reads are rejected.\<close>

theorem t4t_ddo_mark_stays:
  "(case RW_T4tReadNDef ((ex_detected 0xFF 0xFF) \<lparr> r4_cc_version := 0x30, r4_ndef_length := 0x8000 \<rparr>) of None \<Rightarrow> False | Some (_, r1) \<Rightarrow>
    case RW_T4tReadNDef ((rw_t4t_process_timeout 107 r1) \<lparr> r4_ndef_length := 2 \<rparr>) of None \<Rightarrow> False | Some (st, r2) \<Rightarrow>
    case rw_t4t_data_cback (RW_DATA_CEVT NCI_STATUS_OK (rsp_hdr [0xD0, 0x00, 0x90, 0x00])) r2 of None \<Rightarrow> False | Some r3 \<Rightarrow>
      st = NCI_STATUS_OK \<and> last (r4_sent r2) = READ_BINARY 2 2 \<and> last (r4_events r3) = RW_T4T_FAIL 0x83 STATUS_BAD_RESP 0 0)"
  by code_simp

text \<open>A data object whose length in two bytes is larger than the reads allow is no error: the header of the object is delivered as data, and nothing is counted
  as read.\<close>

theorem t4t_ddo_long_length:
  "(case read_ddo [0x53, 0x82, 0x01, 0x00, 1, 2] 0 6 (ex_detected 0xFF 0xFF) of Some (Inr (off, len, s)) \<Rightarrow> off = 0 \<and> len = 6 \<and> r4_rw_length s = r4_rw_length (ex_detected 0xFF 0xFF)
    | _ \<Rightarrow> False)"
  by code_simp

text \<open>When the version of a card cannot be used for formatting, the failure is reported and the reader idle, but the next command of the procedure is sent.\<close>

theorem t4t_format_goes_on:
  "(case rw_t4t_data_cback (RW_DATA_CEVT NCI_STATUS_OK (rsp_hdr [0x04, 0x01, 0x01, 0x00, 0x05, 0x16, 0x05, 0x91, 0xAF]))
      (ex_reader \<lparr> r4_state := T4T_NDEF_FORMAT, r4_sub := WAIT_GET_SW_VERSION \<rparr>) of None \<Rightarrow> False
    | Some r \<Rightarrow> r4_state r = T4T_IDLE \<and> r4_events r = [RW_T4T_FAIL 0x8A NCI_STATUS_FAILED 0 0] \<and> r4_sent r = [[0x90, 0xAF, 0, 0, 0]] \<and> r4_timer r)"
  by code_simp

text \<open>When the retry of a read with a short length cannot be sent, nothing is reported, and the procedure goes on without a timer.\<close>

theorem t4t_retry_lost:
  "(case rw_t4t_data_cback (RW_DATA_CEVT NCI_STATUS_OK (rsp_hdr [0x90, 0x00]))
      ((ex_detected 600 600) \<lparr> r4_state := T4T_READ_NDEF, r4_sub := WAIT_READ_RESP, r4_intl := EXT_FIELD_CODING, r4_rw_length := 8,
         r4_retry := Some [0x00, 0xB0, 0, 2, 0, 0, 8], r4_timer := True, r4_link := False \<rparr>) of None \<Rightarrow> False
    | Some r \<Rightarrow> r4_state r = T4T_READ_NDEF \<and> \<not> r4_timer r \<and> r4_events r = [] \<and> r4_sent r = [])"
  by code_simp

text \<open>An event without data stops the response timer while the procedure goes on.\<close>

theorem t4t_timer_stopped:
  "(case rw_t4t_data_cback RW_OTHER_CEVT ex_detecting of None \<Rightarrow> False | Some r \<Rightarrow> r4_state r = T4T_DETECT_NDEF \<and> \<not> r4_timer r \<and> r4_events r = [])"
  by code_simp

end
