(* ===== verification/CeT3t.thy ===== *)
theory CeT3t
  imports CeT4t
begin

unbundle bit_operations_syntax

text \<open>
  The Type 3 Tag emulation of \<^verbatim>\<open>nfc/tags/ce_t3t.cc\<close> and the dispatch between the emulations of \<^verbatim>\<open>nfc/tags/ce_main.cc\<close>. A reader's commands, which may hold
  any bytes, check and update blocks of 16 bytes: block 0 is computed from the attributes of the NDEF data, the others are its bytes. The
  state is the control block \<^verbatim>\<open>ce_cb.mem.t3t\<close> with the client's buffers; a pointer into the message is an offset, and an access outside a buffer
  and a call of a null callback are \<open>None\<close>. Response frames, events and the number of released command buffers are logged.
\<close>

section \<open>State\<close>

datatype t3t_state = CE_T3T_STATE_NOT_ACTIVATED | CE_T3T_STATE_IDLE | CE_T3T_STATE_UPDATING

datatype t3t_event =
    CE_T3T_NDEF_UPDATE_START_EVT
  | CE_T3T_NDEF_UPDATE_CPLT_EVT u8 u32 mem
  | CE_T3T_UPDATE_EVT
  | CE_T3T_RAW_FRAME_EVT u8 mem

record t3t_ndef_info =
  ni_initialized :: bool
  ni_version :: u8
  ni_nbr :: u8
  ni_nbw :: u8
  ni_nmaxb :: u16
  ni_writef :: u8
  ni_rwflag :: u8
  ni_ln :: u32
  ni_buf :: "mem option"
  ni_scratch_writef :: u8
  ni_scratch_ln :: u32
  ni_scratch_buf :: "mem option"

record t3t_cur_cmd =
  cu_services :: "u16 list"
  cu_block_list :: nat
  cu_block_data :: nat
  cu_num_services :: u8
  cu_num_blocks :: u8

record ce_t3t =
  t3_state :: t3t_state
  t3_system_code :: u16
  t3_nfcid2 :: mem
  t3_pmm :: mem
  t3_ndef :: t3t_ndef_info
  t3_cmd :: t3t_cur_cmd
  t3_cback :: bool
  t3_rf_cback :: bool
  t3_alloc :: bool
  t3_link :: bool
  t3_sent :: "mem list"
  t3_events :: "t3t_event list"
  t3_freed :: nat

datatype t3t_conn_evt = T3T_CONN_CREATE | T3T_CONN_CLOSE | T3T_DATA u8 mem | T3T_DEACTIVATE | T3T_OTHER

abbreviation (input) "T3T_CHECK_CMD \<equiv> 0x06 :: u8"
abbreviation (input) "T3T_CHECK_RSP \<equiv> 0x07 :: u8"
abbreviation (input) "T3T_UPDATE_CMD \<equiv> 0x08 :: u8"
abbreviation (input) "T3T_UPDATE_RSP \<equiv> 0x09 :: u8"
abbreviation (input) "T3T_SC_RO \<equiv> 0x000B :: u16"
abbreviation (input) "T3T_SC_RW \<equiv> 0x0009 :: u16"
abbreviation (input) "T3T_RWFLAG_RO \<equiv> 0x00 :: u8"
abbreviation (input) "T3T_RWFLAG_RW \<equiv> 0x01 :: u8"
abbreviation (input) "T3T_NDEF_SYSTEM \<equiv> 0x12FC :: u16"
abbreviation (input) "T3T_RSP_ROOM \<equiv> 647 :: nat"

definition t3_notify :: "t3t_event \<Rightarrow> ce_t3t \<Rightarrow> ce_t3t option" where
  "t3_notify e s = (if t3_cback s then Some (s\<lparr>t3_events := t3_events s @ [e]\<rparr>) else None)"

definition t3_free :: "ce_t3t \<Rightarrow> ce_t3t" where
  "t3_free s = s\<lparr>t3_freed := Suc (t3_freed s)\<rparr>"

definition ce_t3t_init :: "ce_t3t \<Rightarrow> ce_t3t" where
  "ce_t3t_init s = s\<lparr>t3_pmm := [0x01, 0xFE, 0xFF, 0xFF, 0xFF, 0xFF, 0xFF, 0xFF], t3_ndef := (t3_ndef s)\<lparr>ni_nbr := 3, ni_nbw := 3\<rparr>\<rparr>"

text \<open>The part of the start of the emulation that concerns this tag: the memory is cleared, then initialised; what the environment decides and the logs stay.\<close>

definition ce_t3t_reset :: "ce_t3t \<Rightarrow> ce_t3t" where
  "ce_t3t_reset s = ce_t3t_init (s\<lparr>t3_state := CE_T3T_STATE_NOT_ACTIVATED, t3_system_code := 0, t3_nfcid2 := replicate 8 0, t3_pmm := replicate 8 0,
     t3_ndef := \<lparr>ni_initialized = False, ni_version = 0, ni_nbr = 0, ni_nbw = 0, ni_nmaxb = 0, ni_writef = 0, ni_rwflag = 0, ni_ln = 0, ni_buf = None,
       ni_scratch_writef = 0, ni_scratch_ln = 0, ni_scratch_buf = None\<rparr>,
     t3_cmd := \<lparr>cu_services = replicate 16 0, cu_block_list = 0, cu_block_data = 0, cu_num_services = 0, cu_num_blocks = 0\<rparr>, t3_cback := False\<rparr>)"

section \<open>Responses\<close>

text \<open>The frame gets its length byte in front.\<close>

definition ce_t3t_send_to_lower :: "mem \<Rightarrow> ce_t3t \<Rightarrow> ce_t3t" where
  "ce_t3t_send_to_lower fr s = (if t3_link s then s\<lparr>t3_sent := t3_sent s @ [of_nat (length fr + 1) # fr]\<rparr> else s)"

definition ce_t3t_send_rsp :: "mem option \<Rightarrow> u8 \<Rightarrow> u8 \<Rightarrow> u8 \<Rightarrow> ce_t3t \<Rightarrow> ce_t3t" where
  "ce_t3t_send_rsp nfcid2 opcode status1 status2 s =
    (if t3_alloc s then ce_t3t_send_to_lower ([opcode] @ (case nfcid2 of Some i \<Rightarrow> i | None \<Rightarrow> t3_nfcid2 s) @ [status1, status2]) s else s)"

datatype t3t_cmd_type = CE_T3T_COMMAND_INVALID | CE_T3T_COMMAND_NFC_FORUM | CE_T3T_COMMAND_FELICA

definition ce_t3t_is_valid_opcode :: "u8 \<Rightarrow> t3t_cmd_type" where
  "ce_t3t_is_valid_opcode cmd_id =
    (if cmd_id = T3T_CHECK_CMD \<or> cmd_id = T3T_UPDATE_CMD then CE_T3T_COMMAND_NFC_FORUM
     else if cmd_id = 0x00 \<or> cmd_id = 0x02 \<or> cmd_id = 0x04 \<or> cmd_id = 0x0C then CE_T3T_COMMAND_FELICA
     else CE_T3T_COMMAND_INVALID)"

section \<open>Blocks\<close>

text \<open>An entry of the block list: its first byte, the block number and the position behind the entry.\<close>

definition t3t_entry :: "mem \<Rightarrow> nat \<Rightarrow> (u8 \<times> u16 \<times> nat) option" where
  "t3t_entry m p = do {
     bl0 \<leftarrow> rd8 m p;
     if bl0 AND 0x80 \<noteq> 0 then do { b \<leftarrow> rd8 m (p + 1); Some (bl0, ucast b, p + 2) }
     else do { a \<leftarrow> rd8 m (p + 1); b \<leftarrow> rd8 m (p + 2); Some (bl0, le16_val a b, p + 3) } }"

definition t3t_service :: "u8 \<Rightarrow> ce_t3t \<Rightarrow> u16" where
  "t3t_service bl0 s = cu_services (t3_cmd s) ! unat (bl0 AND 0x0F)"

definition t3t_checksum :: "mem \<Rightarrow> u16" where
  "t3t_checksum bs = fold (\<lambda>b c. c + ucast b) bs 0"

text \<open>The attribute block as a reader writes it: whether its checksum is right, the write flag and the length.\<close>

definition t3t_attr_read :: "mem \<Rightarrow> (bool \<times> u8 \<times> u32) option" where
  "t3t_attr_read blk = do {
     wf \<leftarrow> rd8 blk 9;
     hi \<leftarrow> rd8 blk 11;
     a \<leftarrow> rd8 blk 12; b \<leftarrow> rd8 blk 13;
     c \<leftarrow> rd8 blk 14; d \<leftarrow> rd8 blk 15;
     Some (t3t_checksum (take 14 blk) = be16_val c d, wf, ucast (be16_val a b) + push_bit 16 (ucast hi)) }"

text \<open>The attribute block as a reader reads it.\<close>

definition t3t_attr_block :: "t3t_ndef_info \<Rightarrow> mem" where
  "t3t_attr_block ni =
    (let (writef, ln) = (if ni_rwflag ni = T3T_RWFLAG_RW \<and> ni_scratch_buf ni \<noteq> None then (ni_scratch_writef ni, ni_scratch_ln ni) else (ni_writef ni, ni_ln ni));
         bs = [ni_version ni, ni_nbr ni, ni_nbw ni] @ be16_bytes (ni_nmaxb ni) @ [0, 0, 0, 0] @ [writef, ni_rwflag ni] @
              [ucast (drop_bit 16 ln)] @ be16_bytes (ucast ln)
     in bs @ be16_bytes (t3t_checksum bs))"

section \<open>Update\<close>

text \<open>The loop over the blocks of an update. A wrong checksum of an attribute block makes the command fail but does not end the loop.\<close>

fun update_blocks :: "mem \<Rightarrow> nat \<Rightarrow> nat \<Rightarrow> nat \<Rightarrow> bool \<Rightarrow> u8 \<Rightarrow> ce_t3t \<Rightarrow> (bool \<times> u8 \<times> ce_t3t) option" where
  "update_blocks m 0 pl pd ok fl s = Some (ok, fl, s)"
| "update_blocks m (Suc n) pl pd ok fl s = do {
     (bl0, bn, pl) \<leftarrow> t3t_entry m pl;
     let sc = t3t_service bl0 s; let ni = t3_ndef s;
     if sc = T3T_SC_RO then Some (False, fl, s)
     else if sc = T3T_SC_RW then
       if ni_nbw ni < cu_num_blocks (t3_cmd s) then Some (False, fl, s)
       else if ni_rwflag ni = T3T_RWFLAG_RO then Some (False, fl, s)
       else if bn = 0 then do {
         blk \<leftarrow> rd_bytes m pd 16;
         (good, wf, ln) \<leftarrow> t3t_attr_read blk;
         if \<not> good then update_blocks m n pl (pd + 16) False fl s
         else update_blocks m n pl (pd + 16) ok (fl OR (if wf = 0 then 0x02 else 0x01))
                (s\<lparr>t3_ndef := ni\<lparr>ni_scratch_ln := ln, ni_scratch_writef := wf\<rparr>\<rparr>) }
       else if ni_nmaxb ni < bn then Some (False, fl, s)
       else do {
         blk \<leftarrow> rd_bytes m pd 16;
         b \<leftarrow> ni_scratch_buf ni;
         b' \<leftarrow> wr_bytes b ((unat bn - 1) * 16) blk;
         update_blocks m n pl (pd + 16) ok (fl OR 0x04) (s\<lparr>t3_ndef := ni\<lparr>ni_scratch_buf := Some b'\<rparr>\<rparr>) }
     else Some (False, fl, s) }"

definition ce_t3t_handle_update_cmd :: "mem \<Rightarrow> ce_t3t \<Rightarrow> ce_t3t option" where
  "ce_t3t_handle_update_cmd m s = do {
     let s = (if t3_state s = CE_T3T_STATE_IDLE then s\<lparr>t3_state := CE_T3T_STATE_UPDATING\<rparr> else s);
     (ok, fl, s) \<leftarrow> update_blocks m (unat (cu_num_blocks (t3_cmd s))) (cu_block_list (t3_cmd s)) (cu_block_data (t3_cmd s)) True 0 s;
     let s = (if ok then ce_t3t_send_rsp None T3T_UPDATE_RSP 0x00 0x00 s
              else (ce_t3t_send_rsp None T3T_UPDATE_RSP 0x01 0x70 s)\<lparr>t3_state := CE_T3T_STATE_IDLE\<rparr>);
     s \<leftarrow> (if fl AND 0x01 \<noteq> 0 then t3_notify CE_T3T_NDEF_UPDATE_START_EVT s else Some s);
     s \<leftarrow> (if fl AND 0x04 \<noteq> 0 then t3_notify CE_T3T_UPDATE_EVT s else Some s);
     s \<leftarrow> (if fl AND 0x02 \<noteq> 0
           then t3_notify (CE_T3T_NDEF_UPDATE_CPLT_EVT (if ok then 0x00 else 0x03) (ni_scratch_ln (t3_ndef s)) (case ni_scratch_buf (t3_ndef s) of Some b \<Rightarrow> b | None \<Rightarrow> []))
                  (s\<lparr>t3_state := CE_T3T_STATE_IDLE\<rparr>)
           else Some s);
     Some (t3_free s) }"

section \<open>Check\<close>

text \<open>Block data appended to a response, which has to fit into its buffer.\<close>

definition t3t_put :: "mem \<Rightarrow> mem \<Rightarrow> mem option" where
  "t3t_put acc bs = (if T3T_RSP_ROOM < 12 + length (acc @ bs) then None else Some (acc @ bs))"

definition t3t_source :: "t3t_ndef_info \<Rightarrow> mem option" where
  "t3t_source ni = (if ni_rwflag ni = T3T_RWFLAG_RW \<and> ni_scratch_buf ni \<noteq> None then ni_scratch_buf ni else ni_buf ni)"

text \<open>The loop over the blocks of a check; \<open>Inl\<close> when the response becomes an error.\<close>

fun check_blocks :: "mem \<Rightarrow> nat \<Rightarrow> nat \<Rightarrow> mem \<Rightarrow> ce_t3t \<Rightarrow> (unit + mem) option" where
  "check_blocks m 0 pl acc s = Some (Inr acc)"
| "check_blocks m (Suc n) pl acc s = do {
     (bl0, bn, pl) \<leftarrow> t3t_entry m pl;
     let sc = t3t_service bl0 s; let ni = t3_ndef s;
     if sc = T3T_SC_RO \<or> sc = T3T_SC_RW then
       if ni_nbr ni < cu_num_blocks (t3_cmd s) then Some (Inl ())
       else if bn = 0 then do { acc \<leftarrow> t3t_put acc (t3t_attr_block ni); check_blocks m n pl acc s }
       else if ni_nmaxb ni < bn then Some (Inl ())
       else do {
         b \<leftarrow> t3t_source ni;
         blk \<leftarrow> rd_bytes b ((unat bn - 1) * 16) 16;
         acc \<leftarrow> t3t_put acc blk;
         check_blocks m n pl acc s }
     else Some (Inl ()) }"

definition ce_t3t_handle_check_cmd :: "mem \<Rightarrow> ce_t3t \<Rightarrow> ce_t3t option" where
  "ce_t3t_handle_check_cmd m s =
    (if t3_alloc s then do {
       r \<leftarrow> check_blocks m (unat (cu_num_blocks (t3_cmd s))) (cu_block_list (t3_cmd s)) [] s;
       Some (t3_free (ce_t3t_send_to_lower ([T3T_CHECK_RSP] @ t3_nfcid2 s @
         (case r of Inr bs \<Rightarrow> [0x00, 0x00, cu_num_blocks (t3_cmd s)] @ bs | Inl _ \<Rightarrow> [0x01, 0x70])) s)) }
     else Some (t3_free s))"

section \<open>Other commands\<close>

definition ce_t3t_handle_non_nfc_forum_cmd :: "u8 \<Rightarrow> mem \<Rightarrow> ce_t3t \<Rightarrow> ce_t3t option" where
  "ce_t3t_handle_non_nfc_forum_cmd cmd_id m s =
    (if \<not> t3_alloc s then Some (t3_free s)
     else if cmd_id = 0x00 then
       if length m < 5 then Some (t3_free s)
       else do {
         a \<leftarrow> rd8 m 2; b \<leftarrow> rd8 m 3; rc \<leftarrow> rd8 m 4;
         if be16_val a b = 0xFFFF \<or> be16_val a b = t3_system_code s
         then Some (t3_free (ce_t3t_send_to_lower ([0x01] @ t3_nfcid2 s @ t3_pmm s @ (if rc = 1 then be16_bytes (t3_system_code s) else [])) s))
         else Some (t3_free s) }
     else if cmd_id = 0x04 then Some (t3_free (ce_t3t_send_to_lower ([0x05] @ t3_nfcid2 s @ [0]) s))
     else if cmd_id = 0x0C then Some (t3_free (ce_t3t_send_to_lower ([0x0D] @ t3_nfcid2 s @ [1] @ be16_bytes T3T_NDEF_SYSTEM) s))
     else Some (t3_free s))"

section \<open>The data callback\<close>

fun read_services :: "mem \<Rightarrow> nat \<Rightarrow> nat \<Rightarrow> nat \<Rightarrow> u16 list \<Rightarrow> u16 list option" where
  "read_services m 0 i p l = Some l"
| "read_services m (Suc n) i p l = do { a \<leftarrow> rd8 m p; b \<leftarrow> rd8 m (p + 1); read_services m n (Suc i) (p + 2) (l[i := le16_val a b]) }"

text \<open>The check of the block list: whether it is complete, the position behind it and the bytes that remain.\<close>

fun scan_blocks :: "mem \<Rightarrow> u8 \<Rightarrow> nat \<Rightarrow> nat \<Rightarrow> nat \<Rightarrow> (bool \<times> nat \<times> nat) option" where
  "scan_blocks m ns 0 p remaining = Some (True, p, remaining)"
| "scan_blocks m ns (Suc n) p remaining =
    (if remaining < 2 then Some (False, p, remaining)
     else do {
       bl0 \<leftarrow> rd8 m p;
       if ns \<le> bl0 AND 0x0F then Some (False, p, remaining)
       else if bl0 AND 0x80 = 0 \<and> remaining < 3 then Some (False, p, remaining)
       else let e = (if bl0 AND 0x80 \<noteq> 0 then 2 else 3) in scan_blocks m ns n (p + e) (remaining - e) })"

text \<open>The two commands of the standard. The result is whether the message was processed, the identifier for an error response, and the state.\<close>

definition t3t_forum_cmd :: "u8 \<Rightarrow> mem \<Rightarrow> ce_t3t \<Rightarrow> (bool \<times> mem option \<times> ce_t3t) option" where
  "t3t_forum_cmd cmd_id m s =
    (if length m < 11 then Some (False, None, s)
     else do {
       id \<leftarrow> rd_bytes m 2 8;
       ns \<leftarrow> rd8 m 10;
       let s = s\<lparr>t3_cmd := (t3_cmd s)\<lparr>cu_num_services := ns\<rparr>\<rparr>;
       let start = 11 + 2 * unat ns + 1;
       if 16 < ns then Some (False, None, s)
       else if t3_state s = CE_T3T_STATE_NOT_ACTIVATED then Some (False, None, s)
       else if id \<noteq> t3_nfcid2 s then Some (False, Some id, s)
       else if length m < start then Some (False, None, s)
       else do {
         sl \<leftarrow> read_services m (unat ns) 0 11 (cu_services (t3_cmd s));
         nb \<leftarrow> rd8 m (start - 1);
         let s = s\<lparr>t3_cmd := (t3_cmd s)\<lparr>cu_services := sl, cu_num_blocks := nb, cu_block_list := start\<rparr>\<rparr>;
         (ok, p, remaining) \<leftarrow> scan_blocks m ns (unat nb) start (length m - start);
         if \<not> ok then Some (False, None, s)
         else do {
           let s = s\<lparr>t3_cmd := (t3_cmd s)\<lparr>cu_block_data := p\<rparr>\<rparr>;
           if cmd_id = T3T_CHECK_CMD then do { s \<leftarrow> ce_t3t_handle_check_cmd m s; Some (True, None, s) }
           else if remaining < unat nb * 16 then Some (False, None, s)
           else do { s \<leftarrow> ce_t3t_handle_update_cmd m s; Some (True, None, s) } } } })"

definition ce_t3t_data_cback :: "u8 \<Rightarrow> mem \<Rightarrow> ce_t3t \<Rightarrow> ce_t3t option" where
  "ce_t3t_data_cback status m s =
    (if t3_system_code s \<noteq> T3T_NDEF_SYSTEM \<or> \<not> ni_initialized (t3_ndef s) then t3_notify (CE_T3T_RAW_FRAME_EVT status m) s
     else do {
       (done, id, s) \<leftarrow>
         (if length m < 2 then Some (False, None, s)
          else do {
            cmd_id \<leftarrow> rd8 m 1;
            (case ce_t3t_is_valid_opcode cmd_id of
               CE_T3T_COMMAND_INVALID \<Rightarrow> Some (False, None, s)
             | CE_T3T_COMMAND_FELICA \<Rightarrow> do { s \<leftarrow> ce_t3t_handle_non_nfc_forum_cmd cmd_id m s; Some (True, None, s) }
             | CE_T3T_COMMAND_NFC_FORUM \<Rightarrow> t3t_forum_cmd cmd_id m s) });
       Some (if done then s else t3_free (ce_t3t_send_rsp id T3T_CHECK_RSP 0x01 0xFF s)) })"

definition ce_t3t_conn_cback :: "t3t_conn_evt \<Rightarrow> ce_t3t \<Rightarrow> ce_t3t option" where
  "ce_t3t_conn_cback event s = (case event of
     T3T_CONN_CREATE \<Rightarrow> Some s
   | T3T_CONN_CLOSE \<Rightarrow> Some (s\<lparr>t3_state := CE_T3T_STATE_NOT_ACTIVATED\<rparr>)
   | T3T_DATA status m \<Rightarrow> if status = 0x00 then ce_t3t_data_cback status m s else Some s
   | T3T_DEACTIVATE \<Rightarrow> Some (s\<lparr>t3_state := CE_T3T_STATE_NOT_ACTIVATED, t3_rf_cback := False\<rparr>)
   | T3T_OTHER \<Rightarrow> Some s)"

section \<open>Configuration\<close>

definition ce_select_t3t :: "u16 \<Rightarrow> mem \<Rightarrow> ce_t3t \<Rightarrow> u8 \<times> ce_t3t" where
  "ce_select_t3t system_code nfcid2 s = (0x00, s\<lparr>t3_state := CE_T3T_STATE_IDLE, t3_system_code := system_code, t3_nfcid2 := nfcid2, t3_rf_cback := True\<rparr>)"

definition CE_T3tSetLocalNDEFMsg :: "bool \<Rightarrow> u32 \<Rightarrow> u32 \<Rightarrow> mem option \<Rightarrow> mem option \<Rightarrow> ce_t3t \<Rightarrow> (u8 \<times> ce_t3t) option" where
  "CE_T3tSetLocalNDEFMsg read_only size_max size_current buf scratch s =
    (if \<not> read_only \<and> scratch = None then Some (0x03, s)
     else (case buf of
       None \<Rightarrow> Some (0x00, s\<lparr>t3_ndef := (t3_ndef s)\<lparr>ni_initialized := False\<rparr>\<rparr>)
     | Some b \<Rightarrow>
         let ni = (t3_ndef s)\<lparr>ni_initialized := True, ni_ln := size_current, ni_nmaxb := ucast ((size_max + 15) div 16),
                    ni_rwflag := (if read_only then T3T_RWFLAG_RO else T3T_RWFLAG_RW), ni_writef := 0x00, ni_version := 0x10, ni_buf := Some b, ni_scratch_buf := scratch\<rparr>
         in (case scratch of
              None \<Rightarrow> Some (0x00, s\<lparr>t3_ndef := ni\<rparr>)
            | Some sb \<Rightarrow> do {
                bs \<leftarrow> rd_bytes b 0 (unat size_current);
                sb' \<leftarrow> wr_bytes sb 0 bs;
                Some (0x00, s\<lparr>t3_ndef := ni\<lparr>ni_scratch_ln := size_current, ni_scratch_writef := 0x00, ni_scratch_buf := Some sb'\<rparr>\<rparr>) })))"

definition CE_T3tSetLocalNDefParams :: "u8 \<Rightarrow> u8 \<Rightarrow> ce_t3t \<Rightarrow> u8 \<times> ce_t3t" where
  "CE_T3tSetLocalNDefParams nbr nbw s =
    (if 15 < nbr \<or> 13 < nbw \<or> nbr < 1 \<or> nbw < 1 then (0x03, s) else (0x00, s\<lparr>t3_ndef := (t3_ndef s)\<lparr>ni_nbr := nbr, ni_nbw := nbw\<rparr>\<rparr>))"

definition CE_T3tSendCheckRsp :: "u8 \<Rightarrow> u8 \<Rightarrow> u8 \<Rightarrow> mem \<Rightarrow> ce_t3t \<Rightarrow> (u8 \<times> ce_t3t) option" where
  "CE_T3tSendCheckRsp status1 status2 num_blocks data s =
    (if 15 < num_blocks then Some (0x03, s)
     else if t3_alloc s then do {
       bs \<leftarrow> (if status1 = 0x00 then do { d \<leftarrow> rd_bytes data 0 (unat num_blocks * 16); Some (num_blocks # d) } else Some []);
       Some (0x00, ce_t3t_send_to_lower ([T3T_CHECK_RSP] @ t3_nfcid2 s @ [status1, status2] @ bs) s) }
     else Some (0x00, s))"

definition CE_T3tSendUpdateRsp :: "u8 \<Rightarrow> u8 \<Rightarrow> ce_t3t \<Rightarrow> u8 \<times> ce_t3t" where
  "CE_T3tSendUpdateRsp status1 status2 s = (0x00, ce_t3t_send_rsp None T3T_UPDATE_RSP status1 status2 s)"

section \<open>Both emulations\<close>

text \<open>The control block holds the memory of both emulations; the callback of the application and the callback for the static connection are shared.\<close>

record ce_cb =
  cb_t3t :: ce_t3t
  cb_t4t :: ce_t4t
  cb_alloc :: bool
  cb_link :: bool
  cb_sent :: "mem list"

definition ce_init :: "ce_cb \<Rightarrow> ce_cb" where
  "ce_init cb = cb\<lparr>cb_t3t := ce_t3t_reset (cb_t3t cb),
     cb_t4t := (cb_t4t cb)\<lparr>cc_file := replicate 15 0, p_ndef_msg := None, nlen := 0, max_file_size := 0, p_scratch_buf := None, t4_status := 0,
       p_wildcard_aid_cback := False, reg_aid := replicate CE_T4T_MAX_REG_AID \<lparr>ra_aid_len = 0, ra_aid = replicate 16 0, ra_cback = False\<rparr>,
       selected_aid_idx := 0, t4_timer := False, ce_p_cback := False\<rparr>\<rparr>"

definition ce_set_cback :: "bool \<Rightarrow> ce_cb \<Rightarrow> ce_cb" where
  "ce_set_cback cback cb = cb\<lparr>cb_t3t := (cb_t3t cb)\<lparr>t3_cback := cback\<rparr>, cb_t4t := (cb_t4t cb)\<lparr>ce_p_cback := cback\<rparr>\<rparr>"

text \<open>The callbacks are dropped again when a tag could not be selected.\<close>

definition ce_selected :: "u8 \<Rightarrow> ce_cb \<Rightarrow> u8 \<times> ce_cb" where
  "ce_selected status cb = (status,
     if status = 0x00 then cb
     else ce_set_cback False (cb\<lparr>cb_t3t := (cb_t3t cb)\<lparr>t3_rf_cback := False\<rparr>, cb_t4t := (cb_t4t cb)\<lparr>ce_static_rf_cback := False\<rparr>\<rparr>))"

definition CE_SetActivatedTagType :: "u8 \<Rightarrow> mem \<Rightarrow> u16 \<Rightarrow> bool \<Rightarrow> ce_cb \<Rightarrow> u8 \<times> ce_cb" where
  "CE_SetActivatedTagType protocol nfcid2 t3t_system_code cback cb =
    (if protocol = 0x03 then
       let cb = ce_set_cback cback cb; (status, t) = ce_select_t3t t3t_system_code nfcid2 (cb_t3t cb)
       in ce_selected status (cb\<lparr>cb_t3t := t, cb_t4t := (cb_t4t cb)\<lparr>ce_static_rf_cback := False\<rparr>\<rparr>)
     else if protocol = 0x04 then
       let cb = ce_set_cback cback cb; (status, t) = ce_select_t4t (cb_t4t cb)
       in ce_selected status (cb\<lparr>cb_t4t := t, cb_t3t := (cb_t3t cb)\<lparr>t3_rf_cback := False\<rparr>\<rparr>)
     else (0x03, cb))"

text \<open>A raw frame is copied behind the header of twelve bytes into a buffer of 660 bytes.\<close>

definition CE_SendRawFrame :: "mem \<Rightarrow> ce_cb \<Rightarrow> (u8 \<times> ce_cb) option" where
  "CE_SendRawFrame data cb =
    (if \<not> t3_cback (cb_t3t cb) then Some (0x03, cb)
     else if 660 - 1 - 3 - 1 < length data then Some (0x03, cb)
     else if \<not> cb_alloc cb then Some (0x03, cb)
     else if 660 < 8 + 4 + length data then None
     else if cb_link cb then Some (0x00, cb\<lparr>cb_sent := cb_sent cb @ [data]\<rparr>)
     else Some (0x03, cb))"

end
