(* ===== verification/CeT3tProofs.thy ===== *)
theory CeT3tProofs
  imports CeT3t CeT4tFile OptionWp
begin

unbundle bit_operations_syntax

text \<open>
  Safety of the Type 3 Tag emulation under any commands of a reader, and what its two commands do to the blocks of the NDEF memory.
\<close>

section \<open>The invariant\<close>

text \<open>The client's buffers have room for all blocks: their size is the announced size rounded up to full blocks.\<close>

definition ndef_ok :: "t3t_ndef_info \<Rightarrow> bool" where
  "ndef_ok ni \<longleftrightarrow> ni_nbr ni \<le> 15 \<and> ni_nbw ni \<le> 13 \<and> pred_option (\<lambda>b. 16 * unat (ni_nmaxb ni) \<le> length b) (ni_buf ni) \<and>
    pred_option (\<lambda>b. 16 * unat (ni_nmaxb ni) \<le> length b) (ni_scratch_buf ni) \<and> (ni_initialized ni \<longrightarrow> ni_buf ni \<noteq> None) \<and>
    (ni_rwflag ni = T3T_RWFLAG_RO \<or> ni_rwflag ni = T3T_RWFLAG_RW \<and> ni_scratch_buf ni \<noteq> None)"

definition t3t_ok :: "ce_t3t \<Rightarrow> bool" where
  "t3t_ok s \<longleftrightarrow> ndef_ok (t3_ndef s) \<and> length (cu_services (t3_cmd s)) = 16 \<and> length (t3_nfcid2 s) = 8 \<and> length (t3_pmm s) = 8"

definition t3_raw :: "ce_t3t \<Rightarrow> nat" where
  "t3_raw s = length (filter (\<lambda>e. case e of CE_T3T_RAW_FRAME_EVT _ _ \<Rightarrow> True | _ \<Rightarrow> False) (t3_events s))"

definition t3_owned :: "ce_t3t \<Rightarrow> nat" where
  "t3_owned s = t3_freed s + t3_raw s"

text \<open>What a command keeps.\<close>

definition t3_kept :: "ce_t3t \<Rightarrow> ce_t3t \<Rightarrow> bool" where
  "t3_kept s s' \<longleftrightarrow> t3_system_code s' = t3_system_code s \<and> t3_nfcid2 s' = t3_nfcid2 s \<and> t3_pmm s' = t3_pmm s \<and> t3_cback s' = t3_cback s \<and> t3_rf_cback s' = t3_rf_cback s \<and>
    t3_alloc s' = t3_alloc s \<and> t3_link s' = t3_link s \<and> t3_cmd s' = t3_cmd s"

lemma kept_refl [simp]: "t3_kept s s"
  by (simp add: t3_kept_def)

lemma kept_trans: "t3_kept s s' \<Longrightarrow> t3_kept s' s'' \<Longrightarrow> t3_kept s s''"
  by (simp add: t3_kept_def)

lemma log_fields [simp]:
  "t3t_ok (ce_t3t_send_to_lower fr s) = t3t_ok s" "t3t_ok (ce_t3t_send_rsp i a b c s) = t3t_ok s" "t3t_ok (t3_free s) = t3t_ok s"
  "t3t_ok (s\<lparr>t3_state := st\<rparr>) = t3t_ok s" "t3t_ok (s\<lparr>t3_events := ev\<rparr>) = t3t_ok s" "t3t_ok (s\<lparr>t3_freed := n\<rparr>) = t3t_ok s" "t3t_ok (s\<lparr>t3_sent := x\<rparr>) = t3t_ok s"
  "t3_owned (ce_t3t_send_to_lower fr s) = t3_owned s" "t3_owned (ce_t3t_send_rsp i a b c s) = t3_owned s" "t3_owned (t3_free s) = Suc (t3_owned s)"
  "t3_owned (s\<lparr>t3_state := st\<rparr>) = t3_owned s" "t3_owned (s\<lparr>t3_cmd := cu\<rparr>) = t3_owned s" "t3_owned (s\<lparr>t3_ndef := ni\<rparr>) = t3_owned s"
  "t3_kept s (ce_t3t_send_to_lower fr s') = t3_kept s s'" "t3_kept s (ce_t3t_send_rsp i a b c s') = t3_kept s s'" "t3_kept s (t3_free s') = t3_kept s s'"
  "t3_kept s (s'\<lparr>t3_state := st\<rparr>) = t3_kept s s'" "t3_kept s (s'\<lparr>t3_ndef := ni\<rparr>) = t3_kept s s'" "t3_kept s (s'\<lparr>t3_events := ev\<rparr>) = t3_kept s s'"
  "t3_ndef (ce_t3t_send_to_lower fr s) = t3_ndef s" "t3_ndef (ce_t3t_send_rsp i a b c s) = t3_ndef s" "t3_ndef (t3_free s) = t3_ndef s"
  "t3_cback (ce_t3t_send_to_lower fr s) = t3_cback s" "t3_cback (ce_t3t_send_rsp i a b c s) = t3_cback s" "t3_cback (t3_free s) = t3_cback s"
  "t3_state (ce_t3t_send_to_lower fr s) = t3_state s" "t3_state (ce_t3t_send_rsp i a b c s) = t3_state s" "t3_state (t3_free s) = t3_state s"
  by (simp_all add: ce_t3t_send_to_lower_def ce_t3t_send_rsp_def t3_free_def t3t_ok_def t3_owned_def t3_raw_def t3_kept_def)

section \<open>The block list\<close>

lemma scan_total: "p + r \<le> length m \<Longrightarrow> \<exists>x. scan_blocks m ns n p r = Some x"
proof (induction n arbitrary: p r)
  case (Suc n)
  then show ?case by (auto simp: rd8_in Let_def)
qed auto

lemma scan_pos: "scan_blocks m ns n p r = Some (ok, p', r') \<Longrightarrow> p' + r' = p + r"
  by (induction m ns n p r rule: scan_blocks.induct) (auto simp: Let_def split: if_splits Option.bind_splits)

lemma entry_ok:
  assumes "scan_blocks m ns (Suc n) p r = Some (True, p', r')" "p + r \<le> length m"
  shows "\<exists>bl0 bn q k. t3t_entry m p = Some (bl0, bn, q) \<and> scan_blocks m ns n q k = Some (True, p', r') \<and> q + k = p + r"
  using assms by (auto simp: t3t_entry_def rd8_def Let_def split: if_splits)

section \<open>The commands\<close>

lemma scratch_ok:
  assumes "ndef_ok ni" "ni_rwflag ni \<noteq> T3T_RWFLAG_RO" "\<not> ni_nmaxb ni < bn" "bn \<noteq> 0" "length blk = 16"
  shows "\<exists>b b'. ni_scratch_buf ni = Some b \<and> wr_bytes b ((unat bn - 1) * 16) blk = Some b' \<and> b' = overlay ((unat bn - 1) * 16) blk b \<and> length b' = length b \<and>
    ndef_ok (ni\<lparr>ni_scratch_buf := Some b'\<rparr>)"
proof -
  obtain b where b: "ni_scratch_buf ni = Some b" "16 * unat (ni_nmaxb ni) \<le> length b" using assms(1,2) by (auto simp: ndef_ok_def)
  have n: "0 < unat bn" "unat bn \<le> unat (ni_nmaxb ni)" using assms(3,4) by (simp_all add: word_less_nat_alt not_less unat_gt_0)
  then have f: "(unat bn - 1) * 16 + length blk \<le> length b" using b(2) assms(5) by (simp add: diff_mult_distrib)
  show ?thesis using wr_bytes_overlay [OF f] overlay_length [OF f] b assms(1) by (auto simp: ndef_ok_def)
qed

lemma ndef_upd_ok:
  "t3t_ok s \<Longrightarrow> ndef_ok ni \<Longrightarrow> t3t_ok (s\<lparr>t3_ndef := ni\<rparr>)" "t3t_ok s \<Longrightarrow> ndef_ok (t3_ndef s)"
  "ndef_ok (ni\<lparr>ni_scratch_ln := l, ni_scratch_writef := w\<rparr>) = ndef_ok ni"
  by (simp_all add: t3t_ok_def ndef_ok_def)

lemma attr_read_ok: "length blk = 16 \<Longrightarrow> \<exists>x. t3t_attr_read blk = Some x"
  by (simp add: t3t_attr_read_def rd8_in)

lemma update_blocks_safe:
  assumes "scan_blocks m ns n pl r = Some (True, p', r')" "pl + r \<le> length m" "pd + n * 16 \<le> length m" "t3t_ok s"
  shows "wp (update_blocks m n pl pd ok fl s) (\<lambda>(ok', fl', s'). t3t_ok s' \<and> t3_kept s s' \<and> t3_owned s' = t3_owned s \<and> t3_state s' = t3_state s)"
  using assms
proof (induction n arbitrary: pl r pd ok fl s)
  case 0
  then show ?case by (simp add: wp_def)
next
  case (Suc n)
  obtain bl0 bn q k where e: "t3t_entry m pl = Some (bl0, bn, q)" "scan_blocks m ns n q k = Some (True, p', r')" "q + k = pl + r"
    using entry_ok [OF Suc.prems(1,2)] by blast
  have qk: "q + k \<le> length m" "pd + 16 + n * 16 \<le> length m" using e(3) Suc.prems(2,3) by simp_all
  obtain blk where blk: "rd_bytes m pd 16 = Some blk" "length blk = 16" using Suc.prems(3) by (simp add: rd_bytes_def)
  obtain g wf ln where at: "t3t_attr_read blk = Some (g, wf, ln)" using attr_read_ok [OF blk(2)] by auto
  have IH: "wp (update_blocks m n q (pd + 16) ok' fl' s1) (\<lambda>(ok', fl', s'). t3t_ok s' \<and> t3_kept s s' \<and> t3_owned s' = t3_owned s \<and> t3_state s' = t3_state s)"
    if "t3t_ok s1" "t3_kept s s1" "t3_owned s1 = t3_owned s" "t3_state s1 = t3_state s" for ok' fl' s1
    using Suc.IH [OF e(2) qk that(1), of ok' fl'] that by (auto elim!: wp_call intro: kept_trans)
  show ?case
  proof (cases "t3t_service bl0 s = T3T_SC_RW \<and> \<not> ni_nbw (t3_ndef s) < cu_num_blocks (t3_cmd s) \<and> ni_rwflag (t3_ndef s) \<noteq> T3T_RWFLAG_RO \<and> bn \<noteq> 0 \<and> \<not> ni_nmaxb (t3_ndef s) < bn")
    case True
    obtain b b' where "ni_scratch_buf (t3_ndef s) = Some b" "wr_bytes b ((unat bn - 1) * 16) blk = Some b'" "ndef_ok ((t3_ndef s)\<lparr>ni_scratch_buf := Some b'\<rparr>)"
      using scratch_ok [OF _ _ _ _ blk(2), of "t3_ndef s" bn] True Suc.prems(4) by (auto simp: t3t_ok_def)
    then show ?thesis using e(1) True blk IH [OF ndef_upd_ok(1) [OF Suc.prems(4)]] by (simp add: Let_def)
  next
    case False
    have "wp (update_blocks m n q (pd + 16) ok' fl' (s\<lparr>t3_ndef := (t3_ndef s)\<lparr>ni_scratch_ln := ln, ni_scratch_writef := wf\<rparr>\<rparr>))
        (\<lambda>(ok', fl', s'). t3t_ok s' \<and> t3_kept s s' \<and> t3_owned s' = t3_owned s \<and> t3_state s' = t3_state s)" for ok' fl'
      by (rule IH) (simp_all add: ndef_upd_ok Suc.prems(4))
    then show ?thesis using False e(1) blk at Suc.prems(4) IH [OF Suc.prems(4)] by (auto simp: Let_def wp_Some)
  qed
qed

lemma attr_block_len [simp]: "length (t3t_attr_block ni) = 16"
  by (simp add: t3t_attr_block_def Let_def split: prod.split)

lemma source_ok:
  assumes "ndef_ok ni" "ni_initialized ni" "\<not> ni_nmaxb ni < bn" "bn \<noteq> 0"
  shows "\<exists>b. t3t_source ni = Some b \<and> (unat bn - 1) * 16 + 16 \<le> length b"
proof -
  have n: "0 < unat bn" "unat bn \<le> unat (ni_nmaxb ni)" using assms(3,4) by (simp_all add: word_less_nat_alt not_less unat_gt_0)
  have "\<exists>b. t3t_source ni = Some b \<and> 16 * unat (ni_nmaxb ni) \<le> length b" using assms(1,2) by (auto simp: ndef_ok_def t3t_source_def)
  then show ?thesis using n by (auto simp: diff_mult_distrib)
qed

lemma check_blocks_safe:
  assumes "scan_blocks m ns n pl r = Some (True, p', r')" "pl + r \<le> length m" "t3t_ok s" "ni_initialized (t3_ndef s)"
    "ni_nbr (t3_ndef s) < cu_num_blocks (t3_cmd s) \<or> length acc + n * 16 \<le> 240"
  shows "\<exists>x. check_blocks m n pl acc s = Some x"
  using assms
proof (induction n arbitrary: pl r acc)
  case (Suc n)
  obtain bl0 bn q k where e: "t3t_entry m pl = Some (bl0, bn, q)" "scan_blocks m ns n q k = Some (True, p', r')" "q + k = pl + r"
    using entry_ok [OF Suc.prems(1,2)] by blast
  have qk: "q + k \<le> length m" using e(3) Suc.prems(2) by simp
  note IH = Suc.IH [OF e(2) qk Suc.prems(3,4)]
  show ?case
  proof (cases "\<not> ni_nbr (t3_ndef s) < cu_num_blocks (t3_cmd s) \<and> bn \<noteq> 0 \<and> \<not> ni_nmaxb (t3_ndef s) < bn")
    case True
    obtain b where b: "t3t_source (t3_ndef s) = Some b" "(unat bn - 1) * 16 + 16 \<le> length b"
      using source_ok [of "t3_ndef s" bn] True Suc.prems(3,4) by (auto simp: t3t_ok_def)
    then have "rd_bytes b ((unat bn - 1) * 16) 16 = Some (take 16 (drop ((unat bn - 1) * 16) b))" by (simp add: rd_bytes_def)
    moreover have "length (take 16 (drop ((unat bn - 1) * 16) b)) = 16" using b(2) by simp
    ultimately show ?thesis using e(1) b(1) True Suc.prems(5) IH [of "acc @ take 16 (drop ((unat bn - 1) * 16) b)"] by (simp add: Let_def t3t_put_def)
  next
    case False
    then show ?thesis using e(1) Suc.prems(5) IH [of "acc @ t3t_attr_block (t3_ndef s)"] by (auto simp: Let_def t3t_put_def)
  qed
qed simp

lemma notify_ok:
  assumes "t3_cback s" "\<And>a b. e \<noteq> CE_T3T_RAW_FRAME_EVT a b"
  shows "\<exists>s'. t3_notify e s = Some s' \<and> t3t_ok s' = t3t_ok s \<and> t3_kept s s' \<and> t3_owned s' = t3_owned s"
  using assms by (cases e) (auto simp: t3_notify_def t3_owned_def t3_raw_def)

text \<open>The result of a command: the invariant, and the message accounted for.\<close>

definition t3_done :: "ce_t3t \<Rightarrow> ce_t3t \<Rightarrow> bool" where
  "t3_done s s' \<longleftrightarrow> t3t_ok s' \<and> t3_owned s' = Suc (t3_owned s) \<and> t3_cback s' = t3_cback s"

lemma update_cmd_safe_t3:
  assumes "scan_blocks m ns (unat (cu_num_blocks (t3_cmd s))) (cu_block_list (t3_cmd s)) r = Some (True, cu_block_data (t3_cmd s), r')"
    "cu_block_list (t3_cmd s) + r \<le> length m" "unat (cu_num_blocks (t3_cmd s)) * 16 \<le> r'" "t3t_ok s" "t3_cback s"
  shows "wp (ce_t3t_handle_update_cmd m s) (t3_done s)"
proof -
  let ?s = "if t3_state s = CE_T3T_STATE_IDLE then s\<lparr>t3_state := CE_T3T_STATE_UPDATING\<rparr> else s"
  have c: "t3_cmd ?s = t3_cmd s" "t3t_ok ?s" "t3_owned ?s = t3_owned s" "t3_kept s ?s" using assms(4) by simp_all
  have pd: "cu_block_data (t3_cmd s) + unat (cu_num_blocks (t3_cmd s)) * 16 \<le> length m" using scan_pos [OF assms(1)] assms(2,3) by simp
  obtain ok fl s1 where u: "update_blocks m (unat (cu_num_blocks (t3_cmd s))) (cu_block_list (t3_cmd s)) (cu_block_data (t3_cmd s)) True 0 ?s = Some (ok, fl, s1)"
    "t3t_ok s1" "t3_kept ?s s1" "t3_owned s1 = t3_owned s"
    using update_blocks_safe [OF assms(1,2) pd c(2), of True 0] c(3) by (auto simp: wp_def)
  define s2 where "s2 = (if ok then ce_t3t_send_rsp None T3T_UPDATE_RSP 0x00 0x00 s1 else (ce_t3t_send_rsp None T3T_UPDATE_RSP 0x01 0x70 s1)\<lparr>t3_state := CE_T3T_STATE_IDLE\<rparr>)"
  have s2: "t3t_ok s2" "t3_owned s2 = t3_owned s" "t3_cback s2" using u(2-4) c(4) assms(5) by (auto simp: s2_def t3_kept_def)
  have n: "wp (if b then t3_notify e (s'\<lparr>t3_state := st\<rparr>) else Some s') (\<lambda>s'. t3t_ok s' \<and> t3_owned s' = t3_owned s \<and> t3_cback s')"
      "wp (if b then t3_notify e s' else Some s') (\<lambda>s'. t3t_ok s' \<and> t3_owned s' = t3_owned s \<and> t3_cback s')"
    if "t3t_ok s' \<and> t3_owned s' = t3_owned s \<and> t3_cback s'" "\<And>x y. e \<noteq> CE_T3T_RAW_FRAME_EVT x y" for b e s' st
    using notify_ok [of s' e] notify_ok [of "s'\<lparr>t3_state := st\<rparr>" e] that by (auto simp: wp_def t3_kept_def)
  show ?thesis
    unfolding ce_t3t_handle_update_cmd_def Let_def c(1) u(1) bind.bind_lunit prod.case s2_def [symmetric]
    apply (intro wp_bind)
    apply (rule wp_call [OF n(2)])
      apply (simp add: s2)
     apply simp
    apply (rule wp_bind)
    apply (rule wp_call [OF n(2)], assumption, simp)
    apply (rule wp_bind)
    apply (rule wp_call [OF n(1)], assumption, simp)
    apply (simp add: wp_Some t3_done_def assms(5))
    done
qed

lemma check_cmd_safe_t3:
  assumes "scan_blocks m ns (unat (cu_num_blocks (t3_cmd s))) (cu_block_list (t3_cmd s)) r = Some (True, p', r')"
    "cu_block_list (t3_cmd s) + r \<le> length m" "t3t_ok s" "ni_initialized (t3_ndef s)"
  shows "wp (ce_t3t_handle_check_cmd m s) (t3_done s)"
proof -
  have "ni_nbr (t3_ndef s) < cu_num_blocks (t3_cmd s) \<or> length ([] :: mem) + unat (cu_num_blocks (t3_cmd s)) * 16 \<le> 240"
    using ndef_upd_ok(2) [OF assms(3)] unfolding ndef_ok_def word_le_nat_alt word_less_nat_alt by auto
  from check_blocks_safe [OF assms(1-4) this] show ?thesis
    using assms(3) by (auto simp: ce_t3t_handle_check_cmd_def wp_def t3_done_def)
qed

lemma felica_safe: "t3t_ok s \<Longrightarrow> wp (ce_t3t_handle_non_nfc_forum_cmd c m s) (t3_done s)"
  unfolding ce_t3t_handle_non_nfc_forum_cmd_def by (intro wp_intros) (auto simp: t3_done_def)

lemma services_ok:
  assumes "p + 2 * n \<le> length m"
  shows "\<exists>l'. read_services m n i p l = Some l' \<and> length l' = length l"
  using assms
proof (induction n arbitrary: i p l)
  case (Suc n)
  then show ?case using Suc.IH [of "p + 2" "Suc i" "l[i := le16_val (m ! p) (m ! Suc p)]"] by (simp add: rd8_in)
qed simp

lemma cmd_upd [simp]:
  "t3t_ok (s\<lparr>t3_cmd := cu\<rparr>) \<longleftrightarrow> ndef_ok (t3_ndef s) \<and> length (cu_services cu) = 16 \<and> length (t3_nfcid2 s) = 8 \<and> length (t3_pmm s) = 8"
  by (simp add: t3t_ok_def)

lemma forum_safe:
  assumes "t3t_ok s" "t3_cback s" "ni_initialized (t3_ndef s)"
  shows "wp (t3t_forum_cmd c m s) (\<lambda>(done, i, s'). if done then t3_done s s' else t3t_ok s' \<and> t3_owned s' = t3_owned s \<and> t3_cback s')"
proof (cases "11 \<le> length m \<and> \<not> 16 < m ! 10 \<and> t3_state s \<noteq> CE_T3T_STATE_NOT_ACTIVATED \<and> take 8 (drop 2 m) = t3_nfcid2 s \<and> 11 + 2 * unat (m ! 10) + 1 \<le> length m")
  case False
  then show ?thesis using assms by (auto simp: t3t_forum_cmd_def wp_def rd_bytes_def rd8_in Let_def t3t_ok_def)
next
  case True
  let ?start = "11 + 2 * unat (m ! 10) + 1"
  have ok: "ndef_ok (t3_ndef s)" "length (cu_services (t3_cmd s)) = 16" "length (t3_nfcid2 s) = 8" "length (t3_pmm s) = 8" using assms(1) by (auto simp: t3t_ok_def)
  obtain sl where sl: "read_services m (unat (m ! 10)) 0 11 (cu_services (t3_cmd s)) = Some sl" "length sl = 16"
    using services_ok [of 11 "unat (m ! 10)" m 0 "cu_services (t3_cmd s)"] ok(2) True by auto
  have nb: "rd8 m (?start - 1) = Some (m ! (?start - 1))" "?start + (length m - ?start) \<le> length m" using True by (auto intro!: rd8_in)
  obtain o' p r where sc: "scan_blocks m (m ! 10) (unat (m ! (?start - 1))) ?start (length m - ?start) = Some (o', p, r)"
    using scan_total [OF nb(2)] by (metis prod_cases3)
  define s1 where "s1 = s\<lparr>t3_cmd := (t3_cmd s)\<lparr>cu_num_services := m ! 10, cu_services := sl, cu_num_blocks := m ! (?start - 1), cu_block_list := ?start\<rparr>\<rparr>"
  define s2 where "s2 = s\<lparr>t3_cmd := (t3_cmd s)\<lparr>cu_num_services := m ! 10, cu_services := sl, cu_num_blocks := m ! (?start - 1), cu_block_list := ?start, cu_block_data := p\<rparr>\<rparr>"
  have s2: "t3t_ok s2" "t3_cback s2" "ni_initialized (t3_ndef s2)" "t3_owned s2 = t3_owned s" using ok sl(2) assms(2,3) by (simp_all add: s2_def)
  have run: "t3t_forum_cmd c m s = (if \<not> o' then Some (False, None, s1)
      else if c = T3T_CHECK_CMD then do { s \<leftarrow> ce_t3t_handle_check_cmd m s2; Some (True, None, s) }
      else if r < unat (m ! (?start - 1)) * 16 then Some (False, None, s2)
      else do { s \<leftarrow> ce_t3t_handle_update_cmd m s2; Some (True, None, s) })"
    unfolding t3t_forum_cmd_def Let_def using True sl nb(1) sc by (simp add: rd_bytes_def rd8_in s1_def s2_def split del: if_split cong: if_cong)
  have d: "t3_done s2 s' \<Longrightarrow> t3_done s s'" for s' using s2(2,4) assms(2) by (simp add: t3_done_def)
  show ?thesis
  proof (cases o')
    case True
    have c: "wp (ce_t3t_handle_check_cmd m s2) (t3_done s2)"
      by (rule check_cmd_safe_t3) (use sc nb(2) True s2 in \<open>auto simp: s2_def\<close>)
    have u: "wp (ce_t3t_handle_update_cmd m s2) (t3_done s2)" if "\<not> r < unat (m ! (?start - 1)) * 16"
      by (rule update_cmd_safe_t3) (use sc nb(2) True s2 that in \<open>auto simp: s2_def\<close>)
    show ?thesis unfolding run using True s2 by (auto intro!: wp_bind wp_call [OF c] wp_call [OF u] wp_Some d)
  next
    case False
    then show ?thesis unfolding run using ok sl(2) assms(2) by (simp add: wp_def s1_def)
  qed
qed

lemma data_cback_safe_t3:
  assumes "t3t_ok s" "t3_cback s"
  shows "wp (ce_t3t_data_cback st m s) (t3_done s)"
proof (cases "t3_system_code s \<noteq> T3T_NDEF_SYSTEM \<or> \<not> ni_initialized (t3_ndef s)")
  case True
  then show ?thesis using assms by (auto simp: ce_t3t_data_cback_def t3_notify_def wp_def t3_done_def t3_owned_def t3_raw_def)
next
  case False
  let ?P = "\<lambda>(done, i :: mem option, s'). if done then t3_done s s' else t3t_ok s' \<and> t3_owned s' = t3_owned s \<and> t3_cback s'"
  have f: "wp (t3t_forum_cmd c m s) ?P" for c using forum_safe [OF assms] False by blast
  have g: "wp (ce_t3t_handle_non_nfc_forum_cmd c m s) (\<lambda>s'. wp (Some (True, None, s')) ?P)" for c
    using wp_call [OF felica_safe [OF assms(1)]] by (simp add: wp_Some)
  have e: "wp (Some (False, None, s)) ?P" using assms by (simp add: wp_Some)
  have "wp (case t of CE_T3T_COMMAND_INVALID \<Rightarrow> Some (False, None, s)
       | CE_T3T_COMMAND_FELICA \<Rightarrow> do { s \<leftarrow> ce_t3t_handle_non_nfc_forum_cmd c m s; Some (True, None, s) }
       | CE_T3T_COMMAND_NFC_FORUM \<Rightarrow> t3t_forum_cmd c m s) ?P" for t c
    by (cases t) (simp_all only: t3t_cmd_type.case e f wp_bind [OF g])
  then have "wp (if length m < 2 then Some (False, None, s) else do {
      cmd_id \<leftarrow> rd8 m 1;
      (case ce_t3t_is_valid_opcode cmd_id of CE_T3T_COMMAND_INVALID \<Rightarrow> Some (False, None, s)
       | CE_T3T_COMMAND_FELICA \<Rightarrow> do { s \<leftarrow> ce_t3t_handle_non_nfc_forum_cmd cmd_id m s; Some (True, None, s) }
       | CE_T3T_COMMAND_NFC_FORUM \<Rightarrow> t3t_forum_cmd cmd_id m s) }) ?P"
    by (intro wp_if wp_bind wp_rd8 e) simp_all
  then have "wp (do { (done, i, s) \<leftarrow> (if length m < 2 then Some (False, None, s) else do {
      cmd_id \<leftarrow> rd8 m 1;
      (case ce_t3t_is_valid_opcode cmd_id of CE_T3T_COMMAND_INVALID \<Rightarrow> Some (False, None, s)
       | CE_T3T_COMMAND_FELICA \<Rightarrow> do { s \<leftarrow> ce_t3t_handle_non_nfc_forum_cmd cmd_id m s; Some (True, None, s) }
       | CE_T3T_COMMAND_NFC_FORUM \<Rightarrow> t3t_forum_cmd cmd_id m s) });
      Some (if done then s else t3_free (ce_t3t_send_rsp i T3T_CHECK_RSP 0x01 0xFF s)) }) (t3_done s)"
    by (rule wp_bind [OF wp_call]) (use assms(2) in \<open>auto simp: t3_done_def wp_Some split: if_splits\<close>)
  then show ?thesis using False unfolding ce_t3t_data_cback_def by simp
qed

section \<open>Reachable states\<close>

datatype t3_input = T3_event t3t_conn_evt | T3_select u16 mem | T3_ndef bool u32 u32 "mem option" "mem option" | T3_params u8 u8 | T3_check_rsp u8 u8 u8 mem
  | T3_update_rsp u8 u8 | T3_lower bool bool

primrec t3_step :: "t3_input \<Rightarrow> ce_t3t \<Rightarrow> ce_t3t option" where
  "t3_step (T3_event ev) s = ce_t3t_conn_cback ev s"
| "t3_step (T3_select sc i) s = Some (snd (ce_select_t3t sc i (s\<lparr>t3_cback := True\<rparr>)))"
| "t3_step (T3_ndef ro mx cur b sb) s = map_option snd (CE_T3tSetLocalNDEFMsg ro mx cur b sb s)"
| "t3_step (T3_params a b) s = Some (snd (CE_T3tSetLocalNDefParams a b s))"
| "t3_step (T3_check_rsp a b n d) s = map_option snd (CE_T3tSendCheckRsp a b n d s)"
| "t3_step (T3_update_rsp a b) s = Some (snd (CE_T3tSendUpdateRsp a b s))"
| "t3_step (T3_lower a l) s = Some (s\<lparr>t3_alloc := a, t3_link := l\<rparr>)"

text \<open>What the client promises: buffers that hold whole blocks, a current length that fits, and block data for a response. A data event comes only after an
  activation has registered the callback.\<close>

primrec t3_input_ok :: "t3_input \<Rightarrow> ce_t3t \<Rightarrow> bool" where
  "t3_input_ok (T3_event ev) s = (t3_cback s \<or> (\<forall>st m. ev \<noteq> T3T_DATA st m))"
| "t3_input_ok (T3_select sc i) s = (length i = 8)"
| "t3_input_ok (T3_ndef ro mx cur b sb) s = (\<forall>x. (b = Some x \<or> sb = Some x) \<longrightarrow> unat cur \<le> length x \<and> 16 * unat (ucast ((mx + 15) div 16) :: u16) \<le> length x)"
| "t3_input_ok (T3_params a b) s = True"
| "t3_input_ok (T3_check_rsp a b n d) s = (unat n * 16 \<le> length d)"
| "t3_input_ok (T3_update_rsp a b) s = True"
| "t3_input_ok (T3_lower a l) s = True"

definition t3_msgs :: "t3_input \<Rightarrow> nat" where
  "t3_msgs x = (case x of T3_event (T3T_DATA st m) \<Rightarrow> if st = 0 then 1 else 0 | _ \<Rightarrow> 0)"

inductive t3_reach :: "ce_t3t \<Rightarrow> bool" where
  init: "t3_reach (ce_t3t_reset s)"
| step: "t3_reach s \<Longrightarrow> t3_input_ok x s \<Longrightarrow> t3_step x s = Some s' \<Longrightarrow> t3_reach s'"

lemma t3_init_ok: "t3t_ok (ce_t3t_reset s)"
  by (simp add: ce_t3t_reset_def ce_t3t_init_def t3t_ok_def ndef_ok_def)

lemma set_ndef_ok:
  assumes "t3t_ok s" "t3_input_ok (T3_ndef ro mx cur b sb) s"
  shows "wp (CE_T3tSetLocalNDEFMsg ro mx cur b sb s) (\<lambda>(r, s'). t3t_ok s' \<and> t3_owned s' = t3_owned s)"
proof (cases "(ro \<or> sb \<noteq> None) \<and> b \<noteq> None")
  case False
  then show ?thesis using assms(1) by (auto simp: CE_T3tSetLocalNDEFMsg_def wp_def t3t_ok_def ndef_ok_def split: option.splits)
next
  case True
  then obtain y where y: "b = Some y" by blast
  show ?thesis
  proof (cases sb)
    case None
    then show ?thesis using True y assms by (auto simp: CE_T3tSetLocalNDEFMsg_def wp_def t3t_ok_def ndef_ok_def Let_def)
  next
    case (Some z)
    have l: "0 + length (take (unat cur) y) \<le> length z" "rd_bytes y 0 (unat cur) = Some (take (unat cur) y)"
      using assms(2) y Some by (auto simp: rd_bytes_def)
    show ?thesis using True y Some assms wr_bytes_overlay [OF l(1)] overlay_length [OF l(1)] l(2)
      by (auto simp: CE_T3tSetLocalNDEFMsg_def wp_def t3t_ok_def ndef_ok_def Let_def)
  qed
qed

lemma t3_step_safe:
  assumes "t3t_ok s" "t3_input_ok x s"
  shows "wp (t3_step x s) (\<lambda>s'. t3t_ok s' \<and> t3_owned s' = t3_owned s + t3_msgs x)"
proof (cases x)
  case (T3_event ev)
  show ?thesis
  proof (cases ev)
    case (T3T_DATA st m)
    then show ?thesis using T3_event assms data_cback_safe_t3 [OF assms(1), of st m]
      by (auto simp: ce_t3t_conn_cback_def t3_msgs_def t3_done_def wp_def)
  qed (use T3_event assms in \<open>auto simp: ce_t3t_conn_cback_def t3_msgs_def wp_def t3t_ok_def t3_owned_def t3_raw_def\<close>)
next
  case (T3_ndef ro mx cur b sb)
  then show ?thesis using assms set_ndef_ok [OF assms(1), of ro mx cur b sb] by (auto simp: t3_msgs_def intro!: wp_map elim!: wp_call)
next
  case (T3_check_rsp a b n d)
  then show ?thesis using assms by (auto simp: CE_T3tSendCheckRsp_def t3_msgs_def rd_bytes_def intro!: wp_Some wp_map)
next
  case (T3_update_rsp a b)
  then show ?thesis using assms by (simp add: CE_T3tSendUpdateRsp_def t3_msgs_def wp_def)
next
  case (T3_params a b)
  then show ?thesis using assms
    by (auto simp: CE_T3tSetLocalNDefParams_def t3_msgs_def wp_def t3t_ok_def ndef_ok_def not_less)
qed (use assms in \<open>auto simp: ce_select_t3t_def CE_T3tSendUpdateRsp_def t3_msgs_def wp_def t3t_ok_def t3_owned_def t3_raw_def\<close>)

lemma t3_reach_ok: "t3_reach s \<Longrightarrow> t3t_ok s"
proof (induction rule: t3_reach.induct)
  case (step s x s')
  then show ?case using wpD [OF t3_step_safe [of s x]] by blast
qed (rule t3_init_ok)

section \<open>A configured tag\<close>

definition t3_zero :: ce_t3t where
  "t3_zero = \<lparr>t3_state = CE_T3T_STATE_NOT_ACTIVATED, t3_system_code = 0, t3_nfcid2 = [], t3_pmm = [],
     t3_ndef = \<lparr>ni_initialized = False, ni_version = 0, ni_nbr = 0, ni_nbw = 0, ni_nmaxb = 0, ni_writef = 0, ni_rwflag = 0, ni_ln = 0, ni_buf = None,
       ni_scratch_writef = 0, ni_scratch_ln = 0, ni_scratch_buf = None\<rparr>,
     t3_cmd = \<lparr>cu_services = [], cu_block_list = 0, cu_block_data = 0, cu_num_services = 0, cu_num_blocks = 0\<rparr>, t3_cback = False, t3_rf_cback = False,
     t3_alloc = False, t3_link = False, t3_sent = [], t3_events = [], t3_freed = 0\<rparr>"

definition t3_conf :: "t3_input list" where
  "t3_conf = [T3_ndef False 32 3 (Some ([0xD0, 0, 0] @ replicate 29 0)) (Some (replicate 32 0)), T3_select T3T_NDEF_SYSTEM [1, 2, 3, 4, 5, 6, 7, 8], T3_lower True True]"

fun t3_run :: "t3_input list \<Rightarrow> ce_t3t \<Rightarrow> ce_t3t option" where
  "t3_run [] s = Some s"
| "t3_run (x # xs) s = do { s \<leftarrow> t3_step x s; t3_run xs s }"

fun t3_inputs_ok :: "t3_input list \<Rightarrow> ce_t3t \<Rightarrow> bool" where
  "t3_inputs_ok [] s = True"
| "t3_inputs_ok (x # xs) s = (t3_input_ok x s \<and> (case t3_step x s of None \<Rightarrow> True | Some s \<Rightarrow> t3_inputs_ok xs s))"

definition t3_ex :: ce_t3t where
  "t3_ex = the (t3_run t3_conf (ce_t3t_reset t3_zero))"

lemma t3_run_reach: "t3_run xs s = Some s' \<Longrightarrow> t3_inputs_ok xs s \<Longrightarrow> t3_reach s \<Longrightarrow> t3_reach s'"
  by (induction xs arbitrary: s) (auto intro: t3_reach.step split: Option.bind_splits)

lemmas t3_ex_defs = t3_ex_def t3_conf_def t3_zero_def ce_t3t_reset_def ce_t3t_init_def CE_T3tSetLocalNDEFMsg_def rd_bytes_def wr_bytes_def ce_select_t3t_def

lemma ex_run: "t3_run t3_conf (ce_t3t_reset t3_zero) = Some t3_ex" "t3_inputs_ok t3_conf (ce_t3t_reset t3_zero)"
  by (auto simp: t3_ex_defs)

lemma ex_reach: "t3_reach t3_ex"
  by (rule t3_run_reach [OF ex_run t3_reach.init])

section \<open>Properties\<close>



end
