(* ===== verification/CeT3tBlocks.thy ===== *)
theory CeT3tBlocks
  imports CeT3tProofs
begin

unbundle bit_operations_syntax

text \<open>
  The blocks of the Type 3 Tag emulation as a reader sees them: a check command returns them, an update command overwrites them.
\<close>

section \<open>Commands of a reader\<close>

text \<open>An entry of the block list for the only service of the command, in the short form where the number fits into a byte.\<close>

definition blk_entry :: "u16 \<Rightarrow> mem" where
  "blk_entry bn = (if bn < 256 then [0x80, ucast bn] else 0x00 # le16_bytes bn)"

definition T3T_CMD :: "u8 \<Rightarrow> mem \<Rightarrow> u16 \<Rightarrow> u16 list \<Rightarrow> mem \<Rightarrow> mem" where
  "T3T_CMD op i sc bns d = [0, op] @ i @ [1] @ le16_bytes sc @ [of_nat (length bns)] @ concat (map blk_entry bns) @ d"

lemma le16_roundtrip: "le16_val (ucast x) (ucast (drop_bit 8 x)) = x"
  using be16_roundtrip [of x] by (simp add: le16_val_def be16_val_def add.commute)

lemma entry_enc:
  assumes "drop p m = blk_entry bn @ rest"
  shows "\<exists>bl0. t3t_entry m p = Some (bl0, bn, p + length (blk_entry bn)) \<and> bl0 AND 0x0F = 0 \<and> rd8 m p = Some bl0 \<and>
    length (blk_entry bn) = (if bl0 AND 0x80 \<noteq> 0 then 2 else 3) \<and> drop (p + length (blk_entry bn)) m = rest"
proof -
  have l: "p + length (blk_entry bn) \<le> length m" using arg_cong [OF assms, of length] by (simp add: blk_entry_def split: if_splits)
  have d: "rd8 m (p + i) = Some (blk_entry bn ! i)" if "i < length (blk_entry bn)" for i
    using that l nth_drop [of p m i] assms by (simp add: rd8_in nth_append)
  have r: "drop (p + length (blk_entry bn)) m = rest" using assms drop_drop [of "length (blk_entry bn)" p m] by (simp add: add.commute)
  show ?thesis
  proof (cases "bn < 256")
    case True
    then have "(ucast (ucast bn :: u8) :: u16) = bn"
      by (intro word_unat_eq_iff [THEN iffD2]) (simp add: word_less_nat_alt unsigned_ucast_eq take_bit_eq_mod unat_mod_distrib)
    then show ?thesis using True d [of 0] d [of 1] r by (simp add: t3t_entry_def blk_entry_def)
  next
    case False
    then show ?thesis using d [of 0] d [of 1] d [of 2] r by (simp add: t3t_entry_def blk_entry_def le16_bytes_def le16_roundtrip numeral_2_eq_2)
  qed
qed

lemma scan_enc:
  assumes "drop p m = concat (map blk_entry bns) @ rest" "ns = 1"
  shows "scan_blocks m ns (length bns) p (length m - p) = Some (True, p + length (concat (map blk_entry bns)), length rest)"
  using assms(1)
proof (induction bns arbitrary: p)
  case Nil
  then show ?case by auto
next
  case (Cons bn bns)
  obtain bl0 where e: "rd8 m p = Some bl0" "bl0 AND 0x0F = 0" "length (blk_entry bn) = (if bl0 AND 0x80 \<noteq> 0 then 2 else 3)"
      "drop (p + length (blk_entry bn)) m = concat (map blk_entry bns) @ rest"
    using entry_enc [of p m bn "concat (map blk_entry bns) @ rest"] Cons.prems by auto
  have "length m - p = length (blk_entry bn) + length (concat (map blk_entry bns) @ rest)" using arg_cong [OF Cons.prems, of length] by simp
  moreover have "length m - (p + length (blk_entry bn)) = length (concat (map blk_entry bns) @ rest)" using arg_cong [OF e(4), of length] by simp
  ultimately show ?case using e Cons.IH [OF e(4)] assms(2) by (auto simp: Let_def add.assoc split: if_splits)
qed

text \<open>The command block after a command was parsed.\<close>

definition t3_parsed :: "u16 \<Rightarrow> u16 list \<Rightarrow> ce_t3t \<Rightarrow> ce_t3t" where
  "t3_parsed sc bns s = s\<lparr>t3_cmd := (t3_cmd s)\<lparr>cu_num_services := 1, cu_services := (cu_services (t3_cmd s))[0 := sc], cu_num_blocks := of_nat (length bns),
     cu_block_list := 14, cu_block_data := 14 + length (concat (map blk_entry bns))\<rparr>\<rparr>"

definition t3_ready :: "ce_t3t \<Rightarrow> bool" where
  "t3_ready s \<longleftrightarrow> t3t_ok s \<and> t3_system_code s = T3T_NDEF_SYSTEM \<and> ni_initialized (t3_ndef s) \<and> t3_state s \<noteq> CE_T3T_STATE_NOT_ACTIVATED \<and> t3_cback s \<and> t3_alloc s \<and> t3_link s"

lemma cmd_parse:
  assumes "t3_ready s" "length bns < 256" "op = T3T_CHECK_CMD \<or> op = T3T_UPDATE_CMD \<and> 16 * length bns \<le> length d"
  shows "ce_t3t_data_cback 0 (T3T_CMD op (t3_nfcid2 s) sc bns d) s =
    (if op = T3T_CHECK_CMD then ce_t3t_handle_check_cmd (T3T_CMD op (t3_nfcid2 s) sc bns d) (t3_parsed sc bns s)
     else ce_t3t_handle_update_cmd (T3T_CMD op (t3_nfcid2 s) sc bns d) (t3_parsed sc bns s))"
proof -
  let ?m = "T3T_CMD op (t3_nfcid2 s) sc bns d"
  have r: "length (t3_nfcid2 s) = 8" "length (cu_services (t3_cmd s)) = 16" "t3_state s \<noteq> CE_T3T_STATE_NOT_ACTIVATED" "t3_system_code s = T3T_NDEF_SYSTEM" "ni_initialized (t3_ndef s)"
    using assms(1) by (simp_all add: t3_ready_def t3t_ok_def)
  obtain a b c d' e f g h where i: "t3_nfcid2 s = [a, b, c, d', e, f, g, h]" using r(1) by (auto simp: length_Suc_conv eval_nat_numeral)
  have m: "?m = [0, op, a, b, c, d', e, f, g, h, 1, ucast sc, ucast (drop_bit 8 sc), of_nat (length bns)] @ concat (map blk_entry bns) @ d"
    by (simp add: T3T_CMD_def i le16_bytes_def)
  have dr: "drop 14 ?m = concat (map blk_entry bns) @ d" "14 \<le> length ?m" unfolding m by simp_all
  have nb: "unat (of_nat (length bns) :: u8) = length bns" using assms(2) by (rule unat_of_nat_u8)
  have sc': "scan_blocks ?m 1 (length bns) 14 (length ?m - 14) = Some (True, 14 + length (concat (map blk_entry bns)), length d)"
    by (rule scan_enc [OF dr(1) refl])
  have hd: "rd8 ?m 1 = Some op" "rd_bytes ?m 2 8 = Some (t3_nfcid2 s)" "rd8 ?m 10 = Some 1" "rd8 ?m 11 = Some (ucast sc)" "rd8 ?m 12 = Some (ucast (drop_bit 8 sc))"
    "rd8 ?m 13 = Some (of_nat (length bns))"
    unfolding T3T_CMD_def i le16_bytes_def by (simp_all add: rd8_def rd_bytes_def)
  have sv: "read_services ?m (Suc 0) 0 11 l = Some (l[0 := sc])" for l using hd(4,5) by (simp add: le16_roundtrip)
  have fc: "t3t_forum_cmd op ?m s = (if op = T3T_CHECK_CMD then do { s \<leftarrow> ce_t3t_handle_check_cmd ?m (t3_parsed sc bns s); Some (True, None, s) }
      else do { s \<leftarrow> ce_t3t_handle_update_cmd ?m (t3_parsed sc bns s); Some (True, None, s) })"
    using dr(2) hd r(3) sv sc' nb assms(3)
    by (auto simp: t3t_forum_cmd_def Let_def t3_parsed_def simp del: read_services.simps)
  have op: "ce_t3t_is_valid_opcode op = CE_T3T_COMMAND_NFC_FORUM" using assms(3) by (auto simp: ce_t3t_is_valid_opcode_def)
  show ?thesis unfolding ce_t3t_data_cback_def using r(4,5) dr(2) hd(1) op fc
    by (auto split: Option.bind_split)
qed

section \<open>Check\<close>

text \<open>The memory of the tag in blocks.\<close>

definition t3t_block :: "t3t_ndef_info \<Rightarrow> u16 \<Rightarrow> mem" where
  "t3t_block ni bn = (if bn = 0 then t3t_attr_block ni else take 16 (drop ((unat bn - 1) * 16) (the (t3t_source ni))))"

lemma block_zero: "t3t_block ni 0 = t3t_attr_block ni"
  by (simp add: t3t_block_def)

lemma check_enc:
  assumes "drop p m = concat (map blk_entry bns) @ rest" "t3t_ok s" "ni_initialized (t3_ndef s)" "cu_services (t3_cmd s) ! 0 \<in> {T3T_SC_RO, T3T_SC_RW}"
    "\<not> ni_nbr (t3_ndef s) < cu_num_blocks (t3_cmd s)" "\<forall>bn \<in> set bns. bn \<le> ni_nmaxb (t3_ndef s)" "length acc + 16 * length bns \<le> 240"
  shows "check_blocks m (length bns) p acc s = Some (Inr (acc @ concat (map (t3t_block (t3_ndef s)) bns)))"
  using assms(1,6,7)
proof (induction bns arbitrary: p acc)
  case (Cons bn bns)
  obtain bl0 where e: "t3t_entry m p = Some (bl0, bn, p + length (blk_entry bn))" "bl0 AND 0x0F = 0"
      "drop (p + length (blk_entry bn)) m = concat (map blk_entry bns) @ rest"
    using entry_enc [of p m bn "concat (map blk_entry bns) @ rest"] Cons.prems(1) by auto
  have sv: "t3t_service bl0 s = cu_services (t3_cmd s) ! 0" using e(2) by (simp add: t3t_service_def)
  have bn: "\<not> ni_nmaxb (t3_ndef s) < bn" using Cons.prems(2) by (simp add: not_less)
  have b: "length (t3t_block (t3_ndef s) bn) = 16 \<and> (bn \<noteq> 0 \<longrightarrow> (\<exists>b. t3t_source (t3_ndef s) = Some b \<and> rd_bytes b ((unat bn - 1) * 16) 16 = Some (t3t_block (t3_ndef s) bn)))"
  proof (cases "bn = 0")
    case False
    then obtain x where "t3t_source (t3_ndef s) = Some x" "(unat bn - 1) * 16 + 16 \<le> length x" using source_ok [OF ndef_upd_ok(2) [OF assms(2)] assms(3) bn] by blast
    then show ?thesis using False by (simp add: t3t_block_def rd_bytes_def)
  qed (simp add: t3t_block_def)
  have IH: "check_blocks m (length bns) (p + length (blk_entry bn)) (acc @ t3t_block (t3_ndef s) bn) s =
      Some (Inr ((acc @ t3t_block (t3_ndef s) bn) @ concat (map (t3t_block (t3_ndef s)) bns)))"
    by (rule Cons.IH [OF e(3)]) (use Cons.prems(2,3) b in auto)
  show ?case
  proof (cases "bn = 0")
    case True
    then show ?thesis using e(1) sv assms(4,5) Cons.prems(3) IH by (auto simp: Let_def t3t_put_def block_zero)
  next
    case False
    then obtain x where "t3t_source (t3_ndef s) = Some x" "rd_bytes x ((unat bn - 1) * 16) 16 = Some (t3t_block (t3_ndef s) bn)" using b by blast
    then show ?thesis using False e(1) sv assms(4,5) bn b Cons.prems(3) IH by (auto simp: Let_def t3t_put_def)
  qed
qed simp

text \<open>What a check command returns.\<close>

lemma check_cmd_run:
  assumes "t3_ready s" "sc \<in> {T3T_SC_RO, T3T_SC_RW}" "length bns \<le> unat (ni_nbr (t3_ndef s))" "\<forall>bn \<in> set bns. bn \<le> ni_nmaxb (t3_ndef s)"
  shows "\<exists>s'. ce_t3t_data_cback 0 (T3T_CMD T3T_CHECK_CMD (t3_nfcid2 s) sc bns []) s = Some s' \<and> t3_ready s' \<and> t3_nfcid2 s' = t3_nfcid2 s \<and> t3_ndef s' = t3_ndef s \<and>
    t3_events s' = t3_events s \<and>
    t3_sent s' = t3_sent s @ [of_nat (12 + 16 * length bns + 1) # [T3T_CHECK_RSP] @ t3_nfcid2 s @ [0, 0, of_nat (length bns)] @ concat (map (t3t_block (t3_ndef s)) bns)]"
proof -
  let ?m = "T3T_CMD T3T_CHECK_CMD (t3_nfcid2 s) sc bns []" and ?s = "t3_parsed sc bns s"
  have r: "t3t_ok s" "ni_initialized (t3_ndef s)" "t3_alloc s" "t3_link s" "length (t3_nfcid2 s) = 8" "length (cu_services (t3_cmd s)) = 16"
    using assms(1) by (simp_all add: t3_ready_def t3t_ok_def)
  have nb: "unat (ni_nbr (t3_ndef s)) \<le> 15" using r(1) by (simp add: t3t_ok_def ndef_ok_def word_le_nat_alt)
  have l: "length bns < 256" "unat (of_nat (length bns) :: u8) = length bns" using nb assms(3) by (simp_all add: unat_of_nat_u8)
  have p: "t3t_ok ?s" "ni_initialized (t3_ndef ?s)" "cu_services (t3_cmd ?s) ! 0 \<in> {T3T_SC_RO, T3T_SC_RW}" "\<not> ni_nbr (t3_ndef ?s) < cu_num_blocks (t3_cmd ?s)"
    using r assms(2,3) l by (auto simp: t3_parsed_def t3t_ok_def word_less_nat_alt)
  have d: "drop 14 ?m = concat (map blk_entry bns) @ []" using r(5) by (simp add: T3T_CMD_def le16_bytes_def)
  have c: "check_blocks ?m (length bns) 14 [] ?s = Some (Inr ([] @ concat (map (t3t_block (t3_ndef ?s)) bns)))"
    by (rule check_enc [OF d p]) (use assms(3,4) nb in \<open>auto simp: t3_parsed_def\<close>)
  have bl: "length (t3t_block (t3_ndef s) bn) = 16" if "bn \<in> set bns" for bn
    using source_ok [OF ndef_upd_ok(2) [OF r(1)] r(2), of bn] that assms(4) by (fastforce simp: t3t_block_def not_less)
  have lc: "length (concat (map (t3t_block (t3_ndef s)) bns)) = 16 * length bns" using bl by (induction bns) simp_all
  have "ce_t3t_data_cback 0 ?m s = ce_t3t_handle_check_cmd ?m ?s" using cmd_parse [OF assms(1) l(1), of T3T_CHECK_CMD "[]" sc] by simp
  then show ?thesis using c r l lc p(1) assms(1)
    by (simp add: ce_t3t_handle_check_cmd_def t3_parsed_def ce_t3t_send_to_lower_def t3_free_def t3_ready_def)
qed

section \<open>Update\<close>

definition write_blocks :: "(u16 \<times> mem) list \<Rightarrow> mem \<Rightarrow> mem" where
  "write_blocks ups b = fold (\<lambda>(bn, d) b. overlay ((unat bn - 1) * 16) d b) ups b"

definition ups_ok :: "(u16 \<times> mem) list \<Rightarrow> u16 \<Rightarrow> bool" where
  "ups_ok ups mx \<longleftrightarrow> (\<forall>(bn, d) \<in> set ups. bn \<noteq> 0 \<and> bn \<le> mx \<and> length d = 16)"

lemma write_blocks_Cons: "write_blocks ((bn, d) # ups) b = write_blocks ups (overlay ((unat bn - 1) * 16) d b)"
  by (simp add: write_blocks_def)

lemma block_fits: "bn \<noteq> 0 \<Longrightarrow> bn \<le> mx \<Longrightarrow> 16 * unat mx \<le> length b \<Longrightarrow> (unat bn - 1) * 16 + 16 \<le> length (b :: mem)"
  by (auto simp: word_le_nat_alt diff_mult_distrib unat_gt_0 [symmetric])

lemma write_blocks_len: "ups_ok ups mx \<Longrightarrow> 16 * unat mx \<le> length b \<Longrightarrow> length (write_blocks ups b) = length b"
proof (induction ups arbitrary: b)
  case (Cons u ups)
  obtain bn d where u: "u = (bn, d)" by fastforce
  have "(unat bn - 1) * 16 + length d \<le> length b" using Cons.prems u block_fits [of bn mx b] by (simp add: ups_ok_def)
  from overlay_length [OF this] show ?case using Cons u by (simp add: write_blocks_Cons ups_ok_def)
qed (simp add: write_blocks_def)

lemma overlay_same: "off + length d \<le> length b \<Longrightarrow> take (length d) (drop off (overlay off d b)) = d"
  by (simp add: overlay_def)

lemma overlay_nth: "off + length d \<le> length b \<Longrightarrow> n < length b \<Longrightarrow> n < off \<or> off + length d \<le> n \<Longrightarrow> overlay off d b ! n = b ! n"
  by (auto simp: overlay_def nth_append)

lemma overlay_other:
  assumes "i * 16 + 16 \<le> length b" "j * 16 + 16 \<le> length b" "i \<noteq> j" "length d = 16"
  shows "take 16 (drop (j * 16) (overlay (i * 16) d b)) = take 16 (drop (j * 16) b)"
proof (rule nth_equalityI)
  fix k
  assume "k < length (take 16 (drop (j * 16) (overlay (i * 16) d b)))"
  then have k: "k < 16" by simp
  have "j * 16 + k < i * 16 \<or> i * 16 + 16 \<le> j * 16 + k" using assms(3) k by (cases "i < j") (auto simp: neq_iff)
  then show "take 16 (drop (j * 16) (overlay (i * 16) d b)) ! k = take 16 (drop (j * 16) b) ! k"
    using assms(1,2,4) k overlay_nth [of "i * 16" d b "j * 16 + k"] overlay_length [of "i * 16" d b] by simp
qed (use assms overlay_length [of "i * 16" d b] in simp)

lemma write_blocks_get:
  assumes "ups_ok ups mx" "16 * unat mx \<le> length b" "distinct (map fst ups)" "bn \<noteq> 0" "bn \<le> mx"
  shows "take 16 (drop ((unat bn - 1) * 16) (write_blocks ups b)) = (case map_of ups bn of Some d \<Rightarrow> d | None \<Rightarrow> take 16 (drop ((unat bn - 1) * 16) b))"
  using assms(1-3)
proof (induction ups arbitrary: b)
  case (Cons u ups)
  obtain c d where u: "u = (c, d)" by fastforce
  have c: "c \<noteq> 0" "c \<le> mx" "length d = 16" "ups_ok ups mx" using Cons.prems(1) u by (simp_all add: ups_ok_def)
  have f: "(unat c - 1) * 16 + length d \<le> length b" "(unat bn - 1) * 16 + 16 \<le> length b" using block_fits [OF c(1,2) Cons.prems(2)] block_fits [OF assms(4,5) Cons.prems(2)] c(3) by simp_all
  have IH: "take 16 (drop ((unat bn - 1) * 16) (write_blocks ups (overlay ((unat c - 1) * 16) d b))) =
      (case map_of ups bn of Some d \<Rightarrow> d | None \<Rightarrow> take 16 (drop ((unat bn - 1) * 16) (overlay ((unat c - 1) * 16) d b)))"
    by (rule Cons.IH [OF c(4)]) (use Cons.prems(2,3) overlay_length [OF f(1)] u in simp_all)
  show ?case
  proof (cases "bn = c")
    case True
    have "map_of ups bn = None" using Cons.prems(3) u True by (simp add: map_of_eq_None_iff)
    then show ?thesis using IH True u overlay_same [OF f(1)] c(3) by (simp add: write_blocks_Cons)
  next
    case False
    have "unat c - 1 \<noteq> unat bn - 1" using False c(1) assms(4)
      by (metis One_nat_def Suc_pred unat_gt_0 word_unat_eq_iff)
    then have "take 16 (drop ((unat bn - 1) * 16) (overlay ((unat c - 1) * 16) d b)) = take 16 (drop ((unat bn - 1) * 16) b)"
      using f c(3) by (intro overlay_other) simp_all
    then show ?thesis using IH False u by (simp add: write_blocks_Cons split: option.split)
  qed
qed (simp add: write_blocks_def)

lemma update_enc:
  assumes "drop p m = concat (map (\<lambda>u. blk_entry (fst u)) ups) @ rest" "drop pd m = concat (map snd ups) @ rest'" "cu_services (t3_cmd s) ! 0 = T3T_SC_RW"
    "\<not> ni_nbw (t3_ndef s) < cu_num_blocks (t3_cmd s)" "ni_rwflag (t3_ndef s) = T3T_RWFLAG_RW" "ups_ok ups (ni_nmaxb (t3_ndef s))"
    "ni_scratch_buf (t3_ndef s) = Some b" "16 * unat (ni_nmaxb (t3_ndef s)) \<le> length b" "fl \<in> {0, 4}"
  shows "update_blocks m (length ups) p pd ok fl s =
    Some (ok, if ups = [] then fl else 4, s\<lparr>t3_ndef := (t3_ndef s)\<lparr>ni_scratch_buf := Some (write_blocks ups b)\<rparr>\<rparr>)"
  using assms
proof (induction ups arbitrary: p pd s b fl)
  case Nil
  then show ?case by (simp add: write_blocks_def)
next
  case (Cons u ups)
  obtain bn d where u: "u = (bn, d)" by fastforce
  have d: "bn \<noteq> 0" "bn \<le> ni_nmaxb (t3_ndef s)" "length d = 16" "ups_ok ups (ni_nmaxb (t3_ndef s))" using Cons.prems(6) u by (simp_all add: ups_ok_def)
  obtain bl0 where e: "t3t_entry m p = Some (bl0, bn, p + length (blk_entry bn))" "bl0 AND 0x0F = 0"
      "drop (p + length (blk_entry bn)) m = concat (map (\<lambda>u. blk_entry (fst u)) ups) @ rest"
    using entry_enc [of p m bn "concat (map (\<lambda>u. blk_entry (fst u)) ups) @ rest"] Cons.prems(1) u by auto
  have "16 \<le> length m - pd" using arg_cong [OF Cons.prems(2), of length] u d(3) by simp
  then have blk: "rd_bytes m pd 16 = Some d" "drop (pd + 16) m = concat (map snd ups) @ rest'"
    using Cons.prems(2) u d(3) drop_drop [of 16 pd m] by (simp_all add: rd_bytes_def add.commute)
  have f: "(unat bn - 1) * 16 + length d \<le> length b" using block_fits [OF d(1,2) Cons.prems(8)] d(3) by simp
  let ?b = "overlay ((unat bn - 1) * 16) d b"
  have w: "wr_bytes b ((unat bn - 1) * 16) d = Some ?b" "length ?b = length b" using wr_bytes_overlay [OF f] overlay_length [OF f] by simp_all
  let ?s = "s\<lparr>t3_ndef := (t3_ndef s)\<lparr>ni_scratch_buf := Some ?b\<rparr>\<rparr>"
  have IH: "update_blocks m (length ups) (p + length (blk_entry bn)) (pd + 16) ok 4 ?s =
      Some (ok, if ups = [] then 4 else 4, ?s\<lparr>t3_ndef := (t3_ndef ?s)\<lparr>ni_scratch_buf := Some (write_blocks ups ?b)\<rparr>\<rparr>)"
    by (rule Cons.IH [OF e(3) blk(2)]) (use Cons.prems(3-5,8) d(4) w(2) in simp_all)
  have fl: "fl OR 4 = 4" using Cons.prems(9) by auto
  have bn: "\<not> ni_nmaxb (t3_ndef s) < bn" using d(2) by (simp add: not_less)
  show ?case using e(1,2) blk(1) w(1) d(1) bn Cons.prems(3-5,7) IH fl
    by (simp add: u Let_def t3t_service_def write_blocks_Cons)
qed

text \<open>What an update command does.\<close>

lemma update_cmd_run:
  assumes "t3_ready s" "ni_rwflag (t3_ndef s) = T3T_RWFLAG_RW" "ups_ok ups (ni_nmaxb (t3_ndef s))" "ups \<noteq> []" "length ups \<le> unat (ni_nbw (t3_ndef s))"
  shows "\<exists>s' b. ce_t3t_data_cback 0 (T3T_CMD T3T_UPDATE_CMD (t3_nfcid2 s) T3T_SC_RW (map fst ups) (concat (map snd ups))) s = Some s' \<and> t3_ready s' \<and>
    t3_nfcid2 s' = t3_nfcid2 s \<and> ni_scratch_buf (t3_ndef s) = Some b \<and> 16 * unat (ni_nmaxb (t3_ndef s)) \<le> length b \<and>
    t3_ndef s' = (t3_ndef s)\<lparr>ni_scratch_buf := Some (write_blocks ups b)\<rparr> \<and>
    t3_events s' = t3_events s @ [CE_T3T_UPDATE_EVT] \<and> t3_sent s' = t3_sent s @ [12 # [T3T_UPDATE_RSP] @ t3_nfcid2 s @ [0, 0]]"
proof -
  let ?bns = "map fst ups" and ?d = "concat (map snd ups)"
  let ?m = "T3T_CMD T3T_UPDATE_CMD (t3_nfcid2 s) T3T_SC_RW ?bns ?d" and ?s = "t3_parsed T3T_SC_RW ?bns s"
  have r: "t3t_ok s" "t3_alloc s" "t3_link s" "t3_cback s" "length (t3_nfcid2 s) = 8" "length (cu_services (t3_cmd s)) = 16" "ndef_ok (t3_ndef s)"
    using assms(1) by (simp_all add: t3_ready_def t3t_ok_def)
  obtain b where b: "ni_scratch_buf (t3_ndef s) = Some b" "16 * unat (ni_nmaxb (t3_ndef s)) \<le> length b" using r(7) assms(2) by (auto simp: ndef_ok_def)
  have nb: "unat (ni_nbw (t3_ndef s)) \<le> 13" using r(7) by (simp add: ndef_ok_def word_le_nat_alt)
  have l: "length ?bns < 256" "unat (of_nat (length ups) :: u8) = length ups" using nb assms(5) by (simp_all add: unat_of_nat_u8)
  have ld: "length ?d = 16 * length ups" using assms(3) by (induction ups) (auto simp: ups_ok_def)
  have e: "concat (map blk_entry ?bns) = concat (map (\<lambda>u. blk_entry (fst u)) ups)" by (simp add: comp_def)
  have d14: "drop 14 ?m = concat (map (\<lambda>u. blk_entry (fst u)) ups) @ ?d" using r(5) e by (simp add: T3T_CMD_def le16_bytes_def)
  have "drop (14 + length (concat (map blk_entry ?bns))) ?m = drop (length (concat (map blk_entry ?bns))) (drop 14 ?m)"
    by (simp only: drop_drop add.commute)
  also have "\<dots> = ?d @ []" unfolding d14 e by simp
  finally have dr: "drop 14 ?m = concat (map (\<lambda>u. blk_entry (fst u)) ups) @ ?d" "drop (14 + length (concat (map blk_entry ?bns))) ?m = ?d @ []"
    using d14 by blast+
  let ?q = "if t3_state ?s = CE_T3T_STATE_IDLE then ?s\<lparr>t3_state := CE_T3T_STATE_UPDATING\<rparr> else ?s"
  have q: "cu_services (t3_cmd ?q) ! 0 = T3T_SC_RW" "\<not> ni_nbw (t3_ndef ?q) < cu_num_blocks (t3_cmd ?q)" "t3_ndef ?q = t3_ndef s" "t3_cmd ?q = t3_cmd ?s"
    using r(6) l(2) assms(5) by (auto simp: t3_parsed_def word_less_nat_alt)
  have u: "update_blocks ?m (length ups) 14 (14 + length (concat (map blk_entry ?bns))) True 0 ?q =
      Some (True, if ups = [] then 0 else 4, ?q\<lparr>t3_ndef := (t3_ndef ?q)\<lparr>ni_scratch_buf := Some (write_blocks ups b)\<rparr>\<rparr>)"
    by (rule update_enc [OF dr q(1,2)]) (use assms(2,3) b q(3) in simp_all)
  have run: "ce_t3t_data_cback 0 ?m s = ce_t3t_handle_update_cmd ?m ?s"
    using cmd_parse [OF assms(1) l(1), of T3T_UPDATE_CMD ?d T3T_SC_RW] ld by simp
  define s1 where "s1 = ?q\<lparr>t3_ndef := (t3_ndef s)\<lparr>ni_scratch_buf := Some (write_blocks ups b)\<rparr>\<rparr>"
  have s1: "t3_cback s1" "t3_events s1 = t3_events s" "t3_sent s1 = t3_sent s" "t3_alloc s1" "t3_link s1" "t3_nfcid2 s1 = t3_nfcid2 s" "t3_system_code s1 = t3_system_code s"
    "t3_state s1 \<noteq> CE_T3T_STATE_NOT_ACTIVATED"
    using r(2-4) assms(1) by (simp_all add: s1_def t3_parsed_def t3_ready_def)
  have ok1: "t3t_ok s1" using r assms(2,3) b write_blocks_len [OF assms(3) b(2)] by (simp add: s1_def t3_parsed_def t3t_ok_def ndef_ok_def)
  have c: "cu_num_blocks (t3_cmd ?s) = of_nat (length ups)" "cu_block_list (t3_cmd ?s) = 14" "cu_block_data (t3_cmd ?s) = 14 + length (concat (map blk_entry ?bns))"
    by (simp_all add: t3_parsed_def)
  have h: "ce_t3t_handle_update_cmd ?m ?s = do {
      s \<leftarrow> t3_notify CE_T3T_UPDATE_EVT (ce_t3t_send_rsp None T3T_UPDATE_RSP 0x00 0x00 s1); Some (t3_free s) }"
    unfolding ce_t3t_handle_update_cmd_def Let_def q(4) c l(2) u q(3) s1_def [symmetric] using assms(4) by simp
  show ?thesis
    using run h s1 ok1 b r(5) assms(1)
    by (simp add: t3_notify_def ce_t3t_send_rsp_def ce_t3t_send_to_lower_def t3_free_def t3_ready_def) (simp add: s1_def)
qed

section \<open>Properties\<close>

text \<open>C25. What a reader writes to the blocks of the emulated Type 3 Tag it reads back: with the tag activated and writable, an update command for up to as many
  distinct data blocks as one command may have is answered with success, the application is told once that data changed, and a check command for
  the same blocks is answered with exactly the data written; the response carries the identifier of the tag and the number of blocks.\<close>

theorem ce_t3t_update_check:
  assumes "t3_ready s" "ni_rwflag (t3_ndef s) = T3T_RWFLAG_RW" "ups_ok ups (ni_nmaxb (t3_ndef s))" "ups \<noteq> []" "distinct (map fst ups)"
    "length ups \<le> unat (ni_nbw (t3_ndef s))" "length ups \<le> unat (ni_nbr (t3_ndef s))"
  shows "\<exists>s1 s2. ce_t3t_data_cback 0 (T3T_CMD T3T_UPDATE_CMD (t3_nfcid2 s) T3T_SC_RW (map fst ups) (concat (map snd ups))) s = Some s1 \<and>
    ce_t3t_data_cback 0 (T3T_CMD T3T_CHECK_CMD (t3_nfcid2 s) T3T_SC_RO (map fst ups) []) s1 = Some s2 \<and> t3_events s2 = t3_events s @ [CE_T3T_UPDATE_EVT] \<and>
    t3_sent s2 = t3_sent s @ [12 # [T3T_UPDATE_RSP] @ t3_nfcid2 s @ [0, 0],
      of_nat (12 + 16 * length ups + 1) # [T3T_CHECK_RSP] @ t3_nfcid2 s @ [0, 0, of_nat (length ups)] @ concat (map snd ups)]"
proof -
  obtain s1 b where s1: "ce_t3t_data_cback 0 (T3T_CMD T3T_UPDATE_CMD (t3_nfcid2 s) T3T_SC_RW (map fst ups) (concat (map snd ups))) s = Some s1" "t3_ready s1"
    "t3_nfcid2 s1 = t3_nfcid2 s" "16 * unat (ni_nmaxb (t3_ndef s)) \<le> length b" "t3_ndef s1 = (t3_ndef s)\<lparr>ni_scratch_buf := Some (write_blocks ups b)\<rparr>"
    "t3_events s1 = t3_events s @ [CE_T3T_UPDATE_EVT]" "t3_sent s1 = t3_sent s @ [12 # [T3T_UPDATE_RSP] @ t3_nfcid2 s @ [0, 0]]"
    using update_cmd_run [OF assms(1-4,6)] by blast
  have n1: "length (map fst ups) \<le> unat (ni_nbr (t3_ndef s1))" "\<forall>bn \<in> set (map fst ups). bn \<le> ni_nmaxb (t3_ndef s1)"
    using assms(3,7) s1(5) by (auto simp: ups_ok_def)
  obtain s2 where s2: "ce_t3t_data_cback 0 (T3T_CMD T3T_CHECK_CMD (t3_nfcid2 s1) T3T_SC_RO (map fst ups) []) s1 = Some s2" "t3_events s2 = t3_events s1"
    "t3_sent s2 = t3_sent s1 @ [of_nat (12 + 16 * length (map fst ups) + 1) # [T3T_CHECK_RSP] @ t3_nfcid2 s1 @ [0, 0, of_nat (length (map fst ups))] @
       concat (map (t3t_block (t3_ndef s1)) (map fst ups))]"
    using check_cmd_run [OF s1(2) _ n1, of T3T_SC_RO] by auto
  have src: "t3t_source (t3_ndef s1) = Some (write_blocks ups b)" using s1(5) assms(2) by (simp add: t3t_source_def)
  have "t3t_block (t3_ndef s1) bn = d" if "(bn, d) \<in> set ups" for bn d
  proof -
    have bn: "bn \<noteq> 0" "bn \<le> ni_nmaxb (t3_ndef s)" "map_of ups bn = Some d" using that assms(3,5) by (auto simp: ups_ok_def)
    show ?thesis using write_blocks_get [OF assms(3) s1(4) assms(5) bn(1,2)] bn src by (simp add: t3t_block_def)
  qed
  then have m: "map (t3t_block (t3_ndef s1)) (map fst ups) = map snd ups" by auto
  have "t3_sent s2 = t3_sent s @ [12 # [T3T_UPDATE_RSP] @ t3_nfcid2 s @ [0, 0],
      of_nat (12 + 16 * length ups + 1) # [T3T_CHECK_RSP] @ t3_nfcid2 s @ [0, 0, of_nat (length ups)] @ concat (map snd ups)]"
    unfolding s2(3) m s1(3,7) by simp
  then show ?thesis using s1(1,3,6) s2(1,2) by auto
qed

lemma ex_ready: "t3_ready t3_ex" "ni_rwflag (t3_ndef t3_ex) = T3T_RWFLAG_RW" "ni_nmaxb (t3_ndef t3_ex) = 2" "ni_nbw (t3_ndef t3_ex) = 3" "ni_nbr (t3_ndef t3_ex) = 3"
  "t3_nfcid2 t3_ex = [1, 2, 3, 4, 5, 6, 7, 8]"
  using t3_reach_ok [OF ex_reach] by (simp_all add: t3_ready_def t3_ex_defs)

theorem ce_t3t_update_check_witness:
  "t3_ready t3_ex \<and> (\<exists>s1 s2. ce_t3t_data_cback 0 (T3T_CMD T3T_UPDATE_CMD [1, 2, 3, 4, 5, 6, 7, 8] T3T_SC_RW [2, 1] (replicate 16 7 @ replicate 16 9)) t3_ex = Some s1 \<and>
    ce_t3t_data_cback 0 (T3T_CMD T3T_CHECK_CMD [1, 2, 3, 4, 5, 6, 7, 8] T3T_SC_RO [2, 1] []) s1 = Some s2 \<and>
    last (t3_sent s2) = 45 # T3T_CHECK_RSP # [1, 2, 3, 4, 5, 6, 7, 8] @ [0, 0, 2] @ replicate 16 7 @ replicate 16 9)"
  using ce_t3t_update_check [OF ex_ready(1,2), of "[(2, replicate 16 7), (1, replicate 16 9)]"] ex_ready
  by (auto simp: ups_ok_def)

end
