(* ===== verification/CeT3tFindings.thy ===== *)
theory CeT3tFindings
  imports CeT3tBlocks
begin

unbundle bit_operations_syntax

text \<open>
  What the Type 3 Tag emulation does on inputs for which its memory safety or its answers are not what its client or a reader expects, each shown on the model.
\<close>

section \<open>Buffers that end within a block\<close>

text \<open>The application gives buffers of 20 bytes and says so; the tag offers two full blocks.\<close>

definition t3_short :: ce_t3t where
  "t3_short = the (t3_run [T3_ndef False 20 3 (Some ([0xD0, 0, 0] @ replicate 17 0)) (Some (replicate 20 0)), T3_select T3T_NDEF_SYSTEM [1, 2, 3, 4, 5, 6, 7, 8],
     T3_lower True True] (ce_t3t_reset t3_zero))"

lemmas t3_cmd_eval = ce_t3t_data_cback_def ce_t3t_is_valid_opcode_def t3t_forum_cmd_def Let_def T3T_CMD_def blk_entry_def le16_bytes_def rd8_def rd_bytes_def
  ce_t3t_handle_update_cmd_def ce_t3t_handle_check_cmd_def t3t_entry_def t3t_service_def le16_val_def wr_bytes_def t3t_source_def t3t_put_def t3_notify_def
  ce_t3t_send_rsp_def ce_t3t_send_to_lower_def t3_free_def

lemma short_state: "t3_short = t3_ex\<lparr>t3_ndef := (t3_ndef t3_ex)\<lparr>ni_buf := Some ([0xD0, 0, 0] @ replicate 17 0), ni_scratch_buf := Some ([0xD0, 0, 0] @ replicate 17 0)\<rparr>\<rparr>"
  by (simp add: t3_short_def t3_ex_defs)

text \<open>A reader that updates the second block writes 12 bytes behind the scratch buffer; one that checks it reads them.\<close>

theorem t3t_last_block_overflow:
  "ce_t3t_data_cback 0 (T3T_CMD T3T_UPDATE_CMD [1, 2, 3, 4, 5, 6, 7, 8] T3T_SC_RW [2] (replicate 16 7)) t3_short = None"
  "ce_t3t_data_cback 0 (T3T_CMD T3T_CHECK_CMD [1, 2, 3, 4, 5, 6, 7, 8] T3T_SC_RO [2] []) t3_short = None"
  by (simp_all add: t3_short_def t3_ex_defs t3_cmd_eval)

section \<open>The length of the NDEF message\<close>

text \<open>An attribute block with a length of 16777215 is accepted for a memory of 32 bytes, and the application is told of a complete message of that length in a buffer of 32 bytes.\<close>

definition t3_attr_long :: mem where
  "t3_attr_long = [0x10, 3, 3, 0, 2, 0, 0, 0, 0, 0, 1, 0xFF, 0xFF, 0xFF, 0x03, 0x16]"

theorem t3t_length_not_checked:
  "\<exists>s b. ce_t3t_data_cback 0 (T3T_CMD T3T_UPDATE_CMD [1, 2, 3, 4, 5, 6, 7, 8] T3T_SC_RW [0] t3_attr_long) t3_ex = Some s \<and>
     t3_events s = [CE_T3T_NDEF_UPDATE_CPLT_EVT 0 16777215 b] \<and> length b = 32"
  by (simp add: t3_ex_defs t3_cmd_eval t3_attr_long_def t3t_attr_read_def t3t_checksum_def be16_val_def)

section \<open>Responses and buffers\<close>

text \<open>An update command whose data are missing is answered with the response code of a check command.\<close>

theorem t3t_update_answered_as_check:
  "\<exists>s. ce_t3t_data_cback 0 (T3T_CMD T3T_UPDATE_CMD [1, 2, 3, 4, 5, 6, 7, 8] T3T_SC_RW [1] []) t3_ex = Some s \<and>
     t3_sent s = [[12, T3T_CHECK_RSP, 1, 2, 3, 4, 5, 6, 7, 8, 0x01, 0xFF]]"
  by (simp add: t3_ex_defs t3_cmd_eval)

text \<open>A message that arrives with an error status is neither handed to the application nor released.\<close>

theorem t3t_bad_status_leak:
  "st \<noteq> 0 \<Longrightarrow> \<exists>s'. ce_t3t_conn_cback (T3T_DATA st m) s = Some s' \<and> t3_owned s' = t3_owned s"
  by (simp add: ce_t3t_conn_cback_def)

text \<open>A raw frame of 649 to 655 bytes passes the check of its length and is copied past the end of the buffer.\<close>

theorem ce_raw_frame_overflow:
  "648 < length d \<Longrightarrow> length d \<le> 655 \<Longrightarrow> t3_cback (cb_t3t cb) \<Longrightarrow> cb_alloc cb \<Longrightarrow> CE_SendRawFrame d cb = None"
  by (simp add: CE_SendRawFrame_def)

text \<open>Every shorter frame is sent as it is.\<close>

theorem ce_raw_frame_ok:
  "length d \<le> 648 \<Longrightarrow> t3_cback (cb_t3t cb) \<Longrightarrow> cb_alloc cb \<Longrightarrow> cb_link cb \<Longrightarrow> CE_SendRawFrame d cb = Some (0x00, cb\<lparr>cb_sent := cb_sent cb @ [d]\<rparr>)"
  by (simp add: CE_SendRawFrame_def)

end
