(* ===== verification/Spec2Isabelle.thy ===== *)
theory Spec2Isabelle
  imports NdefUpdate NdefFindings GkiAlloc NfaPtim CeT4tReach NfcSnoop CrcChecksum NciCmdFlow NfcLife RwT4tFindings CeT3tFindings
begin

text \<open>
  \<^bold>\<open>The NFC stack of the Android NFC module.\<close>

  The program is the native NFC stack under \<^verbatim>\<open>libnfc-nci/\<close>: a small kernel interface (GKI: buffers,
  mailboxes, timers), the NCI layer that talks to the controller (\<^verbatim>\<open>src/nfc/nci\<close>, \<^verbatim>\<open>src/nfc/nfc\<close>), the
  tag protocols and their emulation (\<^verbatim>\<open>src/nfc/tags\<close>), the NDEF message library (\<^verbatim>\<open>src/nfc/ndef\<close>), the
  application layer NFA (\<^verbatim>\<open>src/nfa\<close>) and the adaptation to the operating system (\<^verbatim>\<open>src/adaptation\<close>). The
  layers call downwards directly and upwards through callbacks; a packet of the controller travels in a
  GKI buffer through the NCI layer to a tag protocol and from there to NFA.

  \<^bold>\<open>Conventions.\<close> Machine integers are words of their width. A pointer into a buffer is an offset; a buffer
  is the list of its bytes; every access outside a buffer, and every other undefined behaviour, is the
  value \<open>None\<close>, so that a theorem with the conclusion \<open>Some\<close> states memory safety. Errors the code reports
  are status values or the left summand of a sum. Linked structures live in explicit stores. What the
  environment decides (allocation, the transport, callbacks) is an argument. Output (packets to the
  controller, events to the layer above, releases) is logged in the state.

  \<^bold>\<open>Theories.\<close>

  \<^item> \<open>NfcPrelude\<close>: words, buffers, the stream macros of \<^verbatim>\<open>include/nfc_types.h\<close>, errors as sums, and the byte-format
    lemmas the components share. \<open>FifoSpec\<close>: the contract of a queue as a locale, interpreted by the
    GKI queues and mailboxes and by the ring buffer.
  \<^item> \<open>NdefModel\<close>, \<open>NdefRecords\<close>, \<open>NdefValidate\<close>, \<open>NdefTraverse\<close>, \<open>NdefEdit\<close>, \<open>NdefUpdate\<close>, \<open>NdefFindings\<close>: every routine of
    \<^verbatim>\<open>nfc/ndef/ndef_utils.cc\<close>. A message is abstracted to a list of records; the validator accepts exactly the
    encodings of well-formed lists and never reads outside the message; traversal, search, construction
    and the in-place updates compute the corresponding list operations.
  \<^item> \<open>GkiBuffer\<close>, \<open>GkiQueue\<close>, \<open>GkiPool\<close>, \<open>GkiAlloc\<close>: \<^verbatim>\<open>gki/common/gki_buffer.cc\<close> on a heap of buffer headers. The linked
    queues refine lists, a buffer is in at most one queue, allocation and release are inverse, and
    the table of pools stays sorted and within its bounds.
  \<^item> \<open>GkiTimer\<close>, \<open>GkiTimerList\<close>, \<open>GkiTimerListProofs\<close>, \<open>NfaPtim\<close>: \<^verbatim>\<open>gki/common/gki_time.cc\<close> and the protocol timers of
    \<^verbatim>\<open>nfa/sys/nfa_sys_ptim.cc\<close> on top of it. The delta-encoded lists refine lists of remaining times, and
    a timer fires exactly when its time has passed. Tick counts are integers kept in the range of
    \<^verbatim>\<open>int32_t\<close> by the invariant; the loop over expired timers is proved to return.
  \<^item> \<open>CeT4t\<close>, \<open>CeT4tProofs\<close>, \<open>CeT4tFile\<close>, \<open>CeT4tReach\<close>: the Type 4 Tag emulation of \<^verbatim>\<open>nfc/tags/ce_t4t.cc\<close>. No command of a
    reader makes it leave its buffers, reads and updates act on the NDEF file, and the invariant holds in every
    reachable state.
  \<^item> \<open>NciConn\<close>, \<open>NciSend\<close>, \<open>NciReceive\<close>, \<open>NciFlow\<close>: the logical connections of \<^verbatim>\<open>nfc/nfc_utils.cc\<close>, \<^verbatim>\<open>nfc/nfc_ncif.cc\<close> and
    \<^verbatim>\<open>nfc/nfc_main.cc\<close>: fragmentation under credit flow control and reassembly are inverse, and the map from
    identifiers to control blocks is consistent.
  \<^item> \<open>NciCmd\<close>, \<open>NciHmsgs\<close>, \<open>NciCmdProofs\<close>, \<open>NciRequests\<close>, \<open>NciCmdFlow\<close>: the builders of \<^verbatim>\<open>nci/nci_hmsgs.cc\<close> and \<^verbatim>\<open>nfc/nfc_vs.cc\<close> and
    the command queue of \<^verbatim>\<open>nfc/nfc_ncif.cc\<close> with the window of one command that the stack shares with the
    transport. Commands are well-formed packets, leave in the order of submission with at most one
    outstanding, and the queue drains as responses arrive.
  \<^item> \<open>RingBuffer\<close>, \<open>NfcSnoop\<close>: \<^verbatim>\<open>utils/ringbuffer.cc\<close> and the packet log of \<^verbatim>\<open>adaptation/debug_nfcsnoop.cc\<close>, which keeps
    a suffix of the frames it was given. \<open>CrcChecksum\<close>: \<^verbatim>\<open>adaptation/CrcChecksum.cc\<close>, equal to the division of
    polynomials it tabulates.
  \<^item> \<open>OptionWp\<close>: weakest preconditions of computations that may be undefined, the rules the safety proofs of the
    receiving side and of the reader follow. \<open>NciParse\<close>, \<open>NciParseProofs\<close>: the parsers of \<^verbatim>\<open>nfc/nfc_ncif.cc\<close> for discovery and
    activation parameters; they stay in the packet and in their arrays, and invert the encoding of the standard.
  \<^item> \<open>NciRecv\<close>, \<open>NciDispatch\<close>, \<open>NciSafe\<close>, \<open>NciRecvProofs\<close>, \<open>NciInitProofs\<close>: the responses and notifications of \<^verbatim>\<open>nci/nci_hrcv.cc\<close> with the
    functions of \<^verbatim>\<open>nfc/nfc_ncif.cc\<close> they call. No packet of the controller makes the stack leave its buffers or arrays, a
    response that does not answer the last command changes nothing but the window, and the answer to the init command is
    read within its bounds.
  \<^item> \<open>NfcMain\<close>, \<open>NfcLife\<close>: the life cycle of the stack in \<^verbatim>\<open>nfc/nfc_main.cc\<close> and \<^verbatim>\<open>nfc/nfc_task.cc\<close>, from \<^verbatim>\<open>NFC_Init\<close> over enabling,
    requests, transport events and power modes to disabling, as steps of one system with its mailbox. Every reachable state is safe
    under every step, and disabling completes once the transport has closed.
  \<^item> \<open>RwT4t\<close>, \<open>RwT4tProofs\<close>, \<open>RwT4tSafe\<close>, \<open>RwT4tReach\<close>: the Type 4 Tag reader of \<^verbatim>\<open>nfc/tags/rw_t4t.cc\<close> with its procedures for detection, reading,
    updating, read-only, formatting and presence check. Any tag leaves it in its buffers with its invariant, and a
    procedure under way has its timer running. \<open>RwT4tTag\<close>: the interface between a reader and a tag as locales, in which detection, update
    and read are proved to work together. \<open>RwT4tCe\<close>: the emulated tag interprets the interface, so the two ends of this stack
    understand each other. \<open>RwT4tFindings\<close>: behaviours a tag can provoke that the code does not mean.
  \<^item> \<open>CeT3t\<close>, \<open>CeT3tProofs\<close>, \<open>CeT3tBlocks\<close>: the Type 3 Tag emulation of \<^verbatim>\<open>nfc/tags/ce_t3t.cc\<close> and the dispatch between the emulations in
    \<^verbatim>\<open>nfc/tags/ce_main.cc\<close>. No command of a reader leaves the buffers, each command buffer is released or handed on exactly once,
    and blocks read back are the blocks written. \<open>CeT3tFindings\<close>: inputs for which these promises do not hold or answers are wrong.
  \<^bold>\<open>Bounds and fuel.\<close> Loops are structural, have a termination proof, or are partial functions into \<open>option\<close> for
  which the theorems prove that they return (the fragment loop, the packet log, the expired timers).
  The only fuel is the depth 2 of \<open>nfc_ncif_check_cmd_queue\<close>, which calls itself at most once because the second call finds
  the window taken, and the depth of the call of the packet log to itself; the theorems show that it is
  enough. Limits a client has to keep are hypotheses: parameters that fit the length byte of a command,
  packets of at most \<^verbatim>\<open>GKI_MAX_BUF_SIZE\<close>, buffers of the sizes a caller states. What happens outside them is
  shown in the lemmas behind the findings.

  \<^bold>\<open>Not modelled.\<close> Threads, the scheduler and locking (\<^verbatim>\<open>gki/ulinux\<close>) are operating system services; the
  operations are modelled between the points where they give up control. Input and output to files, logs and
  the HAL, the JNI bindings and the Java code have no state of the protocols. The readers for the other tag types (\<^verbatim>\<open>rw_t1t\<close>, \<^verbatim>\<open>rw_t2t\<close>, \<^verbatim>\<open>rw_t3t\<close>,
  \<^verbatim>\<open>rw_i93\<close>, \<^verbatim>\<open>rw_mfc\<close>, \<^verbatim>\<open>rw_ci\<close>) and the state machines of the NFA layer (\<^verbatim>\<open>src/nfa\<close> but its protocol timers) are left
  out for their extent: they use the modelled interfaces and add no new kind of state. Of \<^verbatim>\<open>nfc_task.cc\<close> the timer lists are
  replaced by the flag of the timer and its expiry as an input; of the packet log the compression and the file output are an argument.
\<close>

end
